(* ===== verification/Rust_Prelude.thy ===== *)
theory Rust_Prelude
  imports Main "HOL-Library.Word" "HOL-Library.Sublist" "HOL-Library.List_Lexorder"
    "HOL-Library.Char_ord"
begin

text \<open>
  What every component shares: the fragments of Rust's standard library the program uses
  (saturating integers, \<open>str\<close> as its UTF-8 bytes, \<open>Result\<close> as a sum, \<open>Vec\<close> operations),
  with the generic lemmas the component proofs rest on.

  A Rust \<open>str\<close> is the list of its UTF-8 bytes; a HOL \<open>char\<close> is one byte, so \<open>as_bytes\<close>
  is the identity, \<open>len\<close> is \<open>length\<close> and a literal of the source is a HOL literal.
  \<open>trim\<close> and \<open>split_whitespace\<close> know the multi-byte encodings of Unicode's White\_Space.
\<close>

named_theorems str_simps \<open>evaluation rules of the string library\<close>
named_theorems sat_simps \<open>saturating integer arithmetic\<close>

section \<open>Results\<close>

text \<open>The source's \<open>?\<close> operator on \<open>Result\<close>: \<open>Inl\<close> is \<open>Err\<close>, \<open>Inr\<close> is \<open>Ok\<close>.\<close>

definition and_then :: "'e + 'a \<Rightarrow> ('a \<Rightarrow> 'e + 'b) \<Rightarrow> 'e + 'b" where
  "and_then r f = (case r of Inl e \<Rightarrow> Inl e | Inr x \<Rightarrow> f x)"

definition ok_or :: "'a option \<Rightarrow> 'e \<Rightarrow> 'e + 'a" where
  "ok_or x e = (case x of None \<Rightarrow> Inl e | Some y \<Rightarrow> Inr y)"

definition guard_that :: "bool \<Rightarrow> 'e \<Rightarrow> 'e + unit" where
  "guard_that b e = (if b then Inr () else Inl e)"

lemma and_then_simps [simp]:
  "and_then (Inl e) f = Inl e"
  "and_then (Inr x) f = f x"
  by (simp_all add: and_then_def)

lemma and_then_Inr_iff:
  "and_then r f = Inr y \<longleftrightarrow> (\<exists>x. r = Inr x \<and> f x = Inr y)"
  by (cases r) auto

lemma and_then_Inl_iff:
  "and_then r f = Inl e \<longleftrightarrow> r = Inl e \<or> (\<exists>x. r = Inr x \<and> f x = Inl e)"
  by (cases r) auto

lemma ok_or_simps [simp]:
  "ok_or None e = Inl e"
  "ok_or (Some y) e = Inr y"
  by (simp_all add: ok_or_def)

lemma ok_or_Inr_iff [simp]: "ok_or x e = Inr y \<longleftrightarrow> x = Some y"
  by (cases x) auto

lemma guard_that_Inr_iff [simp]: "guard_that b e = Inr u \<longleftrightarrow> b"
  by (simp add: guard_that_def)

lemma guard_that_Inl_iff [simp]: "guard_that b e = Inl e' \<longleftrightarrow> \<not> b \<and> e' = e"
  by (auto simp: guard_that_def)

section \<open>Saturating unsigned integers\<close>

definition u64_max :: nat where
  "u64_max = 2 ^ 64 - 1"

definition sat_add64 :: "nat \<Rightarrow> nat \<Rightarrow> nat" where
  "sat_add64 a b = min (a + b) u64_max"

text \<open>\<open>usize\<close> is 64 bits on the targets the size bounds below are about.\<close>

definition sat_mul64 :: "nat \<Rightarrow> nat \<Rightarrow> nat" where
  "sat_mul64 a b = min (a * b) u64_max"

lemma sat_add64_le [sat_simps]: "sat_add64 a b \<le> u64_max"
  by (simp add: sat_add64_def)

lemma sat_add64_le_sum [sat_simps]: "sat_add64 a b \<le> a + b"
  by (simp add: sat_add64_def)

lemma sat_add64_exact: "a + b \<le> u64_max \<Longrightarrow> sat_add64 a b = a + b"
  by (simp add: sat_add64_def)

lemma sat_add64_ge: "a \<le> u64_max \<Longrightarrow> a \<le> sat_add64 a b"
  by (simp add: sat_add64_def)

section \<open>Strings as UTF-8 bytes\<close>

fun starts_with :: "string \<Rightarrow> string \<Rightarrow> bool" where
  "starts_with [] s = True"
| "starts_with (p # ps) [] = False"
| "starts_with (p # ps) (c # cs) = (p = c \<and> starts_with ps cs)"

lemma starts_with_iff: "starts_with p s \<longleftrightarrow> (\<exists>r. s = p @ r)"
  by (induction p s rule: starts_with.induct) auto

lemma starts_with_refl [simp]: "starts_with p p" "starts_with p (p @ s)"
  by (auto simp: starts_with_iff)

lemma starts_with_length: "starts_with p s \<Longrightarrow> length p \<le> length s"
  by (auto simp: starts_with_iff)

definition ends_with :: "string \<Rightarrow> string \<Rightarrow> bool" where
  "ends_with p s = starts_with (rev p) (rev s)"

lemma ends_with_iff: "ends_with p s \<longleftrightarrow> (\<exists>r. s = r @ p)"
proof
  assume "ends_with p s"
  then obtain r where "rev s = rev p @ r" by (auto simp: ends_with_def starts_with_iff)
  then have "rev (rev s) = rev r @ p" by simp
  then show "\<exists>r. s = r @ p" by auto
qed (auto simp: ends_with_def)

fun contains :: "string \<Rightarrow> string \<Rightarrow> bool" where
  "contains p [] = (p = [])"
| "contains p (c # cs) = (starts_with p (c # cs) \<or> contains p cs)"

lemma contains_iff: "contains p s \<longleftrightarrow> (\<exists>u v. s = u @ p @ v)"
proof (induction p s rule: contains.induct)
  case (1 p)
  then show ?case by auto
next
  case (2 p c cs)
  have "(\<exists>u v. c # cs = u @ p @ v) \<longleftrightarrow> (\<exists>r. c # cs = p @ r) \<or> (\<exists>u v. cs = u @ p @ v)"
    by (metis append_Cons append_Nil append_eq_Cons_conv)
  with 2 show ?case by (simp add: starts_with_iff)
qed

lemma contains_appendI: "contains p s \<Longrightarrow> contains p (a @ s @ b)"
  by (auto simp: contains_iff) (metis append.assoc)

lemma contains_subset: "contains p s \<Longrightarrow> set p \<subseteq> set s"
  by (auto simp: contains_iff)

text \<open>\<open>str::replace\<close> with a non-empty pattern: leftmost, non-overlapping.\<close>

function replace_str :: "string \<Rightarrow> string \<Rightarrow> string \<Rightarrow> string" where
  "replace_str p t [] = []"
| "replace_str p t (c # cs) =
     (if p \<noteq> [] \<and> starts_with p (c # cs)
      then t @ replace_str p t (drop (length p) (c # cs))
      else c # replace_str p t cs)"
  by pat_completeness auto
termination
  by (relation "measure (\<lambda>(p, t, s). length s)") auto

text \<open>A single-character pattern is replaced character by character.\<close>

lemma replace_char: "replace_str [x] t s = concat (map (\<lambda>c. if c = x then t else [c]) s)"
  by (induction "[x]" t s rule: replace_str.induct) auto

text \<open>\<open>str::split(char)\<close>: always at least one piece.\<close>

fun split_on :: "char \<Rightarrow> string \<Rightarrow> string list" where
  "split_on x [] = [[]]"
| "split_on x (c # cs) =
     (if c = x then [] # split_on x cs
      else (case split_on x cs of [] \<Rightarrow> [[c]] | w # ws \<Rightarrow> (c # w) # ws))"

fun join_with :: "string \<Rightarrow> string list \<Rightarrow> string" where
  "join_with sep [] = []"
| "join_with sep [w] = w"
| "join_with sep (w # v # ws) = w @ sep @ join_with sep (v # ws)"

lemma split_on_not_Nil [simp]: "split_on x s \<noteq> []"
  by (induction s) (auto split: list.splits)

lemma split_on_no_sep: "w \<in> set (split_on x s) \<Longrightarrow> x \<notin> set w"
  by (induction s arbitrary: w) (auto split: list.splits if_splits)

lemma split_on_single: "x \<notin> set w \<Longrightarrow> split_on x w = [w]"
  by (induction w) auto

lemma split_on_append: "x \<notin> set w \<Longrightarrow> split_on x (w @ x # s) = w # split_on x s"
  by (induction w) auto

lemma split_on_join: "ws \<noteq> [] \<Longrightarrow> (\<forall>w\<in>set ws. x \<notin> set w) \<Longrightarrow> split_on x (join_with [x] ws) = ws"
  by (induction "[x]" ws rule: join_with.induct) (auto simp: split_on_single split_on_append)

lemma join_with_Cons_head: "join_with sep ((c # w) # ws) = c # join_with sep (w # ws)"
  by (cases ws) auto

lemma join_with_Nil_head: "ws \<noteq> [] \<Longrightarrow> join_with sep ([] # ws) = sep @ join_with sep ws"
  by (cases ws) auto

lemma set_join_with: "set (join_with sep ws) \<subseteq> set sep \<union> (\<Union>w\<in>set ws. set w)"
  by (induction sep ws rule: join_with.induct) auto

lemma join_split_on: "join_with [x] (split_on x s) = s"
proof (induction s)
  case (Cons c cs)
  then show ?case
    by (cases "split_on x cs")
       (auto simp: join_with_Cons_head join_with_Nil_head dest: split_on_not_Nil [THEN notE])
qed simp

text \<open>\<open>trim\_start\_matches(char)\<close>, \<open>trim\_end\_matches(char)\<close>, \<open>trim\_matches(char)\<close>.\<close>

definition trim_start_char :: "char \<Rightarrow> string \<Rightarrow> string" where
  "trim_start_char x s = dropWhile ((=) x) s"

definition trim_end_char :: "char \<Rightarrow> string \<Rightarrow> string" where
  "trim_end_char x s = rev (dropWhile ((=) x) (rev s))"

definition trim_char :: "char \<Rightarrow> string \<Rightarrow> string" where
  "trim_char x s = trim_end_char x (trim_start_char x s)"

text \<open>\<open>to\_ascii\_lowercase\<close>.\<close>

definition ascii_lower :: "char \<Rightarrow> char" where
  "ascii_lower c = (if CHR ''A'' \<le> c \<and> c \<le> CHR ''Z'' then char_of (of_char c + 32 :: nat) else c)"

definition to_ascii_lowercase :: "string \<Rightarrow> string" where
  "to_ascii_lowercase s = map ascii_lower s"

text \<open>\<open>str::find(char)\<close> and \<open>str::find(\&str)\<close>: the byte index of the first match.\<close>

fun find_char :: "char \<Rightarrow> string \<Rightarrow> nat option" where
  "find_char x [] = None"
| "find_char x (c # cs) = (if c = x then Some 0 else map_option Suc (find_char x cs))"

fun find_sub :: "string \<Rightarrow> string \<Rightarrow> nat option" where
  "find_sub p [] = (if p = [] then Some 0 else None)"
| "find_sub p (c # cs) =
     (if starts_with p (c # cs) then Some 0 else map_option Suc (find_sub p cs))"

lemma find_char_less: "find_char x s = Some i \<Longrightarrow> i < length s \<and> s ! i = x"
  by (induction s arbitrary: i) (auto split: if_splits)

lemma find_sub_starts: "find_sub p s = Some i \<Longrightarrow> i \<le> length s \<and> starts_with p (drop i s)"
  by (induction s arbitrary: i) (auto split: if_splits)

section \<open>White space\<close>

text \<open>The UTF-8 encodings of the characters \<open>char::is_whitespace\<close> accepts.\<close>

definition ws_chars :: "string list" where
  "ws_chars =
    [[CHR 0x20], [CHR 0x09], [CHR 0x0A], [CHR 0x0B], [CHR 0x0C], [CHR 0x0D],
     [CHR 0xC2, CHR 0x85], [CHR 0xC2, CHR 0xA0], [CHR 0xE1, CHR 0x9A, CHR 0x80],
     [CHR 0xE2, CHR 0x80, CHR 0x80], [CHR 0xE2, CHR 0x80, CHR 0x81],
     [CHR 0xE2, CHR 0x80, CHR 0x82], [CHR 0xE2, CHR 0x80, CHR 0x83],
     [CHR 0xE2, CHR 0x80, CHR 0x84], [CHR 0xE2, CHR 0x80, CHR 0x85],
     [CHR 0xE2, CHR 0x80, CHR 0x86], [CHR 0xE2, CHR 0x80, CHR 0x87],
     [CHR 0xE2, CHR 0x80, CHR 0x88], [CHR 0xE2, CHR 0x80, CHR 0x89],
     [CHR 0xE2, CHR 0x80, CHR 0x8A], [CHR 0xE2, CHR 0x80, CHR 0xA8],
     [CHR 0xE2, CHR 0x80, CHR 0xA9], [CHR 0xE2, CHR 0x80, CHR 0xAF],
     [CHR 0xE2, CHR 0x81, CHR 0x9F], [CHR 0xE3, CHR 0x80, CHR 0x80]]"

text \<open>The length of the white-space character a string starts with, 0 if it starts with none.\<close>

fun ws_len :: "string list \<Rightarrow> string \<Rightarrow> nat" where
  "ws_len [] s = 0"
| "ws_len (w # ws) s = (if starts_with w s then length w else ws_len ws s)"

function strip_ws :: "string list \<Rightarrow> string \<Rightarrow> string" where
  "strip_ws ws [] = []"
| "strip_ws ws (c # cs) =
     (let n = ws_len ws (c # cs) in if n = 0 then c # cs else strip_ws ws (drop n (c # cs)))"
  by pat_completeness auto
termination
  by (relation "measure (\<lambda>(ws, s). length s)") auto

declare strip_ws.simps(2) [simp del]

definition trim_start :: "string \<Rightarrow> string" where
  "trim_start s = strip_ws ws_chars s"

definition trim_end :: "string \<Rightarrow> string" where
  "trim_end s = rev (strip_ws (map rev ws_chars) (rev s))"

definition trim :: "string \<Rightarrow> string" where
  "trim s = trim_end (trim_start s)"

lemma strip_ws_suffix: "\<exists>p. s = p @ strip_ws ws s"
proof (induction ws s rule: strip_ws.induct)
  case (2 ws c cs)
  show ?case
  proof (cases "ws_len ws (c # cs) = 0")
    case True
    then show ?thesis by (simp add: strip_ws.simps(2))
  next
    case False
    let ?n = "ws_len ws (c # cs)"
    from 2 [OF refl False] obtain p where "drop ?n (c # cs) = p @ strip_ws ws (drop ?n (c # cs))"
      by blast
    then have "c # cs = (take ?n (c # cs) @ p) @ strip_ws ws (drop ?n (c # cs))"
      by (metis append.assoc append_take_drop_id)
    then have "\<exists>q. c # cs = q @ strip_ws ws (drop ?n (c # cs))" by blast
    with False show ?thesis by (simp add: strip_ws.simps(2) Let_def del: drop_Cons')
  qed
qed simp

lemma ws_len_strip: "strip_ws ws s = [] \<or> ws_len ws (strip_ws ws s) = 0"
proof (induction ws s rule: strip_ws.induct)
  case (2 ws c cs)
  then show ?case by (cases "ws_len ws (c # cs) = 0") (auto simp: strip_ws.simps(2) Let_def)
qed simp

lemma strip_ws_fixed: "s = [] \<or> ws_len ws s = 0 \<Longrightarrow> strip_ws ws s = s"
  by (cases s) (auto simp: strip_ws.simps(2))

lemma strip_ws_idem [simp]: "strip_ws ws (strip_ws ws s) = strip_ws ws s"
  using ws_len_strip strip_ws_fixed by blast

lemma ws_len_zero_iff: "[] \<notin> set ws \<Longrightarrow> ws_len ws s = 0 \<longleftrightarrow> (\<forall>w\<in>set ws. \<not> starts_with w s)"
  by (induction ws) auto

lemma ws_len_prefix_zero:
  assumes "[] \<notin> set ws" and "ws_len ws (s @ t) = 0"
  shows "ws_len ws s = 0"
  using assms by (auto simp: ws_len_zero_iff starts_with_iff)

lemma trim_idem [simp]: "trim (trim s) = trim s"
proof -
  let ?t = "trim_start s"
  have nil: "[] \<notin> set ws_chars" "[] \<notin> set (map rev ws_chars)"
    by (simp_all add: ws_chars_def)
  obtain q where q: "?t = trim_end ?t @ q"
    using strip_ws_suffix [of "rev ?t" "map rev ws_chars"]
    by (metis rev_append rev_rev_ident trim_end_def)
  have "trim_end ?t = [] \<or> ws_len ws_chars (trim_end ?t) = 0"
  proof (cases "?t = []")
    case True
    then show ?thesis using q by simp
  next
    case False
    then have "ws_len ws_chars ?t = 0" using ws_len_strip [of ws_chars s] by (simp add: trim_start_def)
    then show ?thesis using ws_len_prefix_zero [OF nil(1)] q by metis
  qed
  then have "trim_start (trim_end ?t) = trim_end ?t"
    by (simp add: trim_start_def strip_ws_fixed)
  then show ?thesis by (simp add: trim_def trim_end_def)
qed

lemma trim_Nil [simp]: "trim [] = []"
  by (simp add: trim_def trim_start_def trim_end_def)

lemma ws_len_nonzero: "ws_len ws u \<noteq> 0 \<Longrightarrow> \<exists>w\<in>set ws. starts_with w u \<and> ws_len ws u = length w"
  by (induction ws) auto

lemma strip_ws_keeps:
  assumes "x \<in> set s" and "\<forall>w\<in>set ws. x \<notin> set w"
  shows "x \<in> set (strip_ws ws s)"
  using assms
proof (induction ws s rule: strip_ws.induct)
  case (2 ws c cs)
  show ?case
  proof (cases "ws_len ws (c # cs) = 0")
    case True
    with 2 show ?thesis by (simp add: strip_ws.simps(2))
  next
    case False
    from ws_len_nonzero [OF False] obtain w r
      where w: "w \<in> set ws" "c # cs = w @ r" "ws_len ws (c # cs) = length w"
      by (auto simp: starts_with_iff)
    then have drop: "drop (ws_len ws (c # cs)) (c # cs) = r" by simp
    have "x \<notin> set w" using w(1) 2 by blast
    then have "x \<in> set r" using "2.prems"(1) w(2) by (metis UnE set_append)
    then have "x \<in> set (strip_ws ws r)" using "2.IH" [OF refl False] "2.prems"(2) drop by simp
    with False drop show ?thesis by (simp add: strip_ws.simps(2) Let_def)
  qed
qed simp

lemma trim_keeps:
  assumes "x \<in> set s" and "\<forall>w\<in>set ws_chars. x \<notin> set w"
  shows "x \<in> set (trim s)"
  unfolding trim_def trim_end_def trim_start_def
  using assms by (simp add: strip_ws_keeps)

text \<open>\<open>str::split_whitespace\<close>, with the current token accumulated in reverse.\<close>

function split_ws_from :: "string \<Rightarrow> string \<Rightarrow> string list" where
  "split_ws_from cur [] = (if cur = [] then [] else [rev cur])"
| "split_ws_from cur (c # cs) =
     (let n = ws_len ws_chars (c # cs) in
      if n = 0 then split_ws_from (c # cur) cs
      else (if cur = [] then [] else [rev cur]) @ split_ws_from [] (drop n (c # cs)))"
  by pat_completeness auto
termination
  by (relation "measure (\<lambda>(cur, s). length s)") auto

declare split_ws_from.simps(2) [simp del]

definition split_whitespace :: "string \<Rightarrow> string list" where
  "split_whitespace s = split_ws_from [] s"

section \<open>Path segments\<close>

text \<open>
  The loop \<open>for part in path.split('/')\<close> that \<open>guard.rs\<close>, \<open>config.rs\<close> and \<open>sftp.rs\<close> each
  write out: empty and \<open>.\<close> segments are skipped, \<open>..\<close> pops, anything else is pushed.
\<close>

definition push_part :: "string list \<Rightarrow> string \<Rightarrow> string list" where
  "push_part parts p =
     (if p = [] \<or> p = ''.'' then parts else if p = ''..'' then butlast parts else parts @ [p])"

definition norm_parts :: "string \<Rightarrow> string list" where
  "norm_parts s = foldl push_part [] (split_on (CHR ''/'') s)"

definition plain_part :: "string \<Rightarrow> bool" where
  "plain_part p \<longleftrightarrow> p \<noteq> [] \<and> p \<noteq> ''.'' \<and> p \<noteq> ''..'' \<and> CHR ''/'' \<notin> set p"

lemma push_part_plain: "plain_part p \<Longrightarrow> push_part parts p = parts @ [p]"
  by (simp add: push_part_def plain_part_def)

lemma foldl_push_plain: "(\<forall>p\<in>set ps. plain_part p) \<Longrightarrow> foldl push_part acc ps = acc @ ps"
  by (induction ps arbitrary: acc) (auto simp: push_part_plain)

lemma foldl_push_set:
  "(\<forall>p\<in>set ps. CHR ''/'' \<notin> set p) \<Longrightarrow> (\<forall>p\<in>set acc. plain_part p) \<Longrightarrow>
   (\<forall>p\<in>set (foldl push_part acc ps). plain_part p)"
proof (induction ps arbitrary: acc)
  case (Cons p ps)
  have "\<forall>q\<in>set (push_part acc p). plain_part q"
    using Cons.prems by (auto simp: push_part_def plain_part_def dest: in_set_butlastD)
  with Cons show ?case by simp
qed simp

lemma norm_parts_plain: "p \<in> set (norm_parts s) \<Longrightarrow> plain_part p"
  using foldl_push_set [of "split_on (CHR ''/'') s" "[]"] split_on_no_sep
  by (auto simp: norm_parts_def)

lemma norm_parts_rooted:
  assumes "\<forall>p\<in>set ps. plain_part p"
  shows "norm_parts (''/'' @ join_with ''/'' ps) = ps"
proof (cases "ps = []")
  case True
  then show ?thesis by (simp add: norm_parts_def push_part_def)
next
  case False
  then have "split_on (CHR ''/'') (join_with ''/'' ps) = ps"
    using assms by (intro split_on_join) (auto simp: plain_part_def)
  then show ?thesis
    using assms by (simp add: norm_parts_def push_part_def foldl_push_plain)
qed

section \<open>Vectors\<close>

text \<open>\<open>iter_mut().find(p)\<close> followed by an update of the element found.\<close>

fun update_first :: "('a \<Rightarrow> bool) \<Rightarrow> ('a \<Rightarrow> 'a) \<Rightarrow> 'a list \<Rightarrow> 'a list option" where
  "update_first p f [] = None"
| "update_first p f (x # xs) =
     (if p x then Some (f x # xs) else map_option ((#) x) (update_first p f xs))"

lemma update_first_None [simp]: "update_first p f xs = None \<longleftrightarrow> (\<forall>x\<in>set xs. \<not> p x)"
  by (induction xs) auto

lemma update_first_SomeE:
  assumes "update_first p f xs = Some ys"
  obtains us x vs where "xs = us @ x # vs" "ys = us @ f x # vs" "p x" "\<forall>u\<in>set us. \<not> p u"
proof -
  have "\<exists>us x vs. xs = us @ x # vs \<and> ys = us @ f x # vs \<and> p x \<and> (\<forall>u\<in>set us. \<not> p u)"
    using assms
  proof (induction xs arbitrary: ys)
    case (Cons a xs)
    show ?case
    proof (cases "p a")
      case True
      with Cons.prems show ?thesis by (intro exI [of _ "[]"]) auto
    next
      case False
      with Cons.prems obtain zs where zs: "update_first p f xs = Some zs" "ys = a # zs" by auto
      from Cons.IH [OF zs(1)] obtain us x vs
        where "xs = us @ x # vs \<and> zs = us @ f x # vs \<and> p x \<and> (\<forall>u\<in>set us. \<not> p u)" by blast
      with False zs(2) show ?thesis by (intro exI [of _ "a # us"]) auto
    qed
  qed simp
  then show thesis using that by blast
qed

text \<open>A pointwise attribute the update keeps is kept for the whole vector.\<close>

lemma update_first_map:
  assumes "update_first p f xs = Some ys" and "\<And>x. h (f x) = h x"
  shows "map h ys = map h xs"
  using assms by (auto elim!: update_first_SomeE)

text \<open>\<open>iter().position(p)\<close> followed by \<open>Vec::remove\<close>: the element and the rest.\<close>

fun remove_first :: "('a \<Rightarrow> bool) \<Rightarrow> 'a list \<Rightarrow> ('a \<times> 'a list) option" where
  "remove_first p [] = None"
| "remove_first p (x # xs) =
     (if p x then Some (x, xs) else map_option (\<lambda>(y, ys). (y, x # ys)) (remove_first p xs))"

lemma remove_first_Some:
  "remove_first p xs = Some (x, ys) \<Longrightarrow> \<exists>us vs. xs = us @ x # vs \<and> ys = us @ vs \<and> p x \<and> (\<forall>u\<in>set us. \<not> p u)"
proof (induction xs arbitrary: ys)
  case (Cons a xs)
  show ?case
  proof (cases "p a")
    case True
    with Cons.prems have "a = x" "xs = ys" by auto
    with True show ?thesis by (intro exI [of _ "[]"] exI [of _ ys]) auto
  next
    case False
    with Cons.prems obtain zs where zs: "remove_first p xs = Some (x, zs)" "ys = a # zs" by auto
    from Cons.IH [OF zs(1)] obtain us vs
      where "xs = us @ x # vs \<and> zs = us @ vs \<and> p x \<and> (\<forall>u\<in>set us. \<not> p u)" by blast
    with False zs(2) show ?thesis by (intro exI [of _ "a # us"] exI [of _ vs]) auto
  qed
qed simp

lemma filter_length_eq_iff: "length (filter p xs) = length xs \<longleftrightarrow> (\<forall>x\<in>set xs. p x)"
  by (metis filter_id_conv filter_True length_filter_less linorder_neq_iff)

end
