(* ===== verification/App_Errors.thy ===== *)
theory App_Errors
  imports Rust_Prelude
begin

text \<open>
  \<open>errors.rs\<close>: the error type every fallible operation returns, and the global registry that
  maps runtime resource ids to session names for log lines. The Chinese message texts of the
  source are written as ASCII glosses, one gloss per text, with the same arguments.
\<close>

record host_key_verification =
  hkv_session_id :: string
  hkv_host :: string
  hkv_port :: "16 word"
  hkv_algorithm :: string
  hkv_fingerprint :: string
  hkv_expected_fingerprint :: "string option"

datatype app_error =
    VaultNotFound
  | VaultAlreadyExists
  | VaultLocked
  | InvalidMasterPassword
  | NotFound string
  | InvalidInput string
  | ConfigConflict string
  | HostKeyUntrusted host_key_verification
  | HostKeyChanged host_key_verification
  | TransferNeedsOverwrite string
  | Remote string
  | ApiPortInUse string
  | Io string
  | Crypto string
  | Serde string

type_synonym 'a app_result = "app_error + 'a"

section \<open>The resource label registry\<close>

type_synonym label_registry = "string \<rightharpoonup> string"

definition register_resource_label :: "string \<Rightarrow> string \<Rightarrow> label_registry \<Rightarrow> label_registry" where
  "register_resource_label i n reg = (if i = [] \<or> n = [] then reg else reg(i \<mapsto> n))"

definition forget_resource_label :: "string \<Rightarrow> label_registry \<Rightarrow> label_registry" where
  "forget_resource_label i reg = (if i = [] then reg else reg(i := None))"

definition resource_label :: "string \<Rightarrow> label_registry \<Rightarrow> string option" where
  "resource_label i reg = reg i"

lemma label_registry_laws:
  "i \<noteq> [] \<Longrightarrow> n \<noteq> [] \<Longrightarrow> resource_label i (register_resource_label i n reg) = Some n"
  "i \<noteq> [] \<Longrightarrow> resource_label i (forget_resource_label i reg) = None"
  "j \<noteq> i \<Longrightarrow> resource_label j (register_resource_label i n reg) = resource_label j reg"
  "j \<noteq> i \<Longrightarrow> resource_label j (forget_resource_label i reg) = resource_label j reg"
  by (auto simp: resource_label_def register_resource_label_def forget_resource_label_def)

text \<open>The error constructors for a missing runtime resource. The log line they print uses the
  registry; the value returned does not.\<close>

definition runtime_missing_log :: "string \<Rightarrow> string \<Rightarrow> label_registry \<Rightarrow> string" where
  "runtime_missing_log kind i reg =
     (case resource_label i reg of
        Some label \<Rightarrow> ''[helm] '' @ kind @ '' not found: '' @ label
      | None \<Rightarrow> ''[helm] '' @ kind @ '' not found: '' @ i)"

definition missing_connection :: app_error where
  "missing_connection = NotFound ''connection lost, reconnect''"

definition missing_terminal :: app_error where
  "missing_terminal = NotFound ''terminal session expired, reconnect''"

definition missing_sftp :: app_error where
  "missing_sftp = NotFound ''SFTP session expired, reconnect''"

definition missing_transfer :: app_error where
  "missing_transfer = NotFound ''transfer task expired''"

definition missing_telemetry_job :: app_error where
  "missing_telemetry_job = NotFound ''telemetry job expired''"

definition missing_forward :: app_error where
  "missing_forward = NotFound ''port forward expired''"

section \<open>Messages whose words decide\<close>

text \<open>Some handlers choose the status by looking for words in the text of an error. These words are kept as the
  bytes of the source: queue busy, invalid argument, must, invalid format, does not exist, host key, configuration
  changed, not connected, connect, network, timeout, exceeds.\<close>

definition ZH_QUEUE_BUSY :: string where
  "ZH_QUEUE_BUSY =
    [CHR 0xE9, CHR 0x98, CHR 0x9F, CHR 0xE5, CHR 0x88, CHR 0x97, CHR 0xE7, CHR 0xB9, CHR 0x81,
     CHR 0xE5, CHR 0xBF, CHR 0x99]"

definition ZH_INVALID_ARGUMENT :: string where
  "ZH_INVALID_ARGUMENT =
    [CHR 0xE5, CHR 0x8F, CHR 0x82, CHR 0xE6, CHR 0x95, CHR 0xB0, CHR 0xE6, CHR 0x97, CHR 0xA0,
     CHR 0xE6, CHR 0x95, CHR 0x88]"

definition ZH_MUST :: string where
  "ZH_MUST =
    [CHR 0xE5, CHR 0xBF, CHR 0x85, CHR 0xE9, CHR 0xA1, CHR 0xBB]"

definition ZH_INVALID_FORMAT :: string where
  "ZH_INVALID_FORMAT =
    [CHR 0xE6, CHR 0xA0, CHR 0xBC, CHR 0xE5, CHR 0xBC, CHR 0x8F, CHR 0xE6, CHR 0x97, CHR 0xA0,
     CHR 0xE6, CHR 0x95, CHR 0x88]"

definition ZH_DOES_NOT_EXIST :: string where
  "ZH_DOES_NOT_EXIST =
    [CHR 0xE4, CHR 0xB8, CHR 0x8D, CHR 0xE5, CHR 0xAD, CHR 0x98, CHR 0xE5, CHR 0x9C, CHR 0xA8]"

definition ZH_HOST_KEY :: string where
  "ZH_HOST_KEY =
    [CHR 0xE4, CHR 0xB8, CHR 0xBB, CHR 0xE6, CHR 0x9C, CHR 0xBA, CHR 0xE5, CHR 0xAF, CHR 0x86,
     CHR 0xE9, CHR 0x92, CHR 0xA5]"

definition ZH_CONFIG_CHANGED :: string where
  "ZH_CONFIG_CHANGED =
    [CHR 0xE9, CHR 0x85, CHR 0x8D, CHR 0xE7, CHR 0xBD, CHR 0xAE, CHR 0xE5, CHR 0xB7, CHR 0xB2,
     CHR 0xE5, CHR 0x8F, CHR 0x98, CHR 0xE6, CHR 0x9B, CHR 0xB4]"

definition ZH_NOT_CONNECTED :: string where
  "ZH_NOT_CONNECTED =
    [CHR 0xE6, CHR 0x9C, CHR 0xAA, CHR 0xE8, CHR 0xBF, CHR 0x9E, CHR 0xE6, CHR 0x8E, CHR 0xA5]"

definition ZH_CONNECT :: string where
  "ZH_CONNECT =
    [CHR 0xE8, CHR 0xBF, CHR 0x9E, CHR 0xE6, CHR 0x8E, CHR 0xA5]"

definition ZH_NETWORK :: string where
  "ZH_NETWORK =
    [CHR 0xE7, CHR 0xBD, CHR 0x91, CHR 0xE7, CHR 0xBB, CHR 0x9C]"

definition ZH_TIMEOUT :: string where
  "ZH_TIMEOUT =
    [CHR 0xE8, CHR 0xB6, CHR 0x85, CHR 0xE6, CHR 0x97, CHR 0xB6]"

definition ZH_EXCEEDS :: string where
  "ZH_EXCEEDS =
    [CHR 0xE8, CHR 0xB6, CHR 0x85, CHR 0xE8, CHR 0xBF, CHR 0x87]"

text \<open>The \<open>Display\<close> of an error.\<close>

fun app_error_text :: "app_error \<Rightarrow> string" where
  "app_error_text VaultNotFound = ''the data is not initialised''"
| "app_error_text VaultAlreadyExists = ''the data exists already''"
| "app_error_text VaultLocked = ''the workspace is locked''"
| "app_error_text InvalidMasterPassword = ''wrong master password or damaged data''"
| "app_error_text (NotFound m) = ''configuration item '' @ ZH_DOES_NOT_EXIST @ '': '' @ m"
| "app_error_text (InvalidInput m) = ZH_INVALID_ARGUMENT @ '': '' @ m"
| "app_error_text (ConfigConflict m) = ''configuration conflict: '' @ m"
| "app_error_text (HostKeyUntrusted v) = ZH_HOST_KEY @ '' not trusted''"
| "app_error_text (HostKeyChanged v) = ZH_HOST_KEY @ '' has changed''"
| "app_error_text (TransferNeedsOverwrite m) = ''the transfer needs confirmation to overwrite: '' @ m"
| "app_error_text (Remote m) = ''remote error: '' @ m"
| "app_error_text (ApiPortInUse m) = m"
| "app_error_text (Io m) = ''file error: '' @ m"
| "app_error_text (Crypto m) = ''encryption error: '' @ m"
| "app_error_text (Serde m) = ''serialisation error: '' @ m"

end
