(* ===== verification/Utf8.thy ===== *)
theory Utf8
  imports Rust_Prelude
begin

text \<open>
  UTF-8 as Rust's \<open>str\<close> guarantees it: which byte strings are valid, where the character
  boundaries are, the code points (for \<open>chars()\<close>), and that cutting a valid string at a
  boundary gives valid strings.
\<close>

definition byte_of :: "char \<Rightarrow> nat" where
  "byte_of c = of_char c"

text \<open>A continuation byte, \<open>byte & 0b1100\_0000 == 0b1000\_0000\<close>.\<close>

definition is_cont :: "char \<Rightarrow> bool" where
  "is_cont c \<longleftrightarrow> 128 \<le> byte_of c \<and> byte_of c < 192"

definition byte_in :: "nat \<Rightarrow> nat \<Rightarrow> char \<Rightarrow> bool" where
  "byte_in lo hi c \<longleftrightarrow> lo \<le> byte_of c \<and> byte_of c \<le> hi"

text \<open>The width of the well-formed character a byte string starts with, 0 if there is none
  (the well-formed sequences of the Unicode standard: no overlong forms, no surrogates).\<close>

fun utf8_width :: "string \<Rightarrow> nat" where
  "utf8_width [] = 0"
| "utf8_width (a # s) =
    (if byte_in 0 127 a then 1
     else if byte_in 194 223 a then (case s of b # _ \<Rightarrow> if is_cont b then 2 else 0 | _ \<Rightarrow> 0)
     else if byte_in 224 239 a then
       (case s of b # c # _ \<Rightarrow>
          if is_cont b \<and> is_cont c
             \<and> (byte_of a = 224 \<longrightarrow> 160 \<le> byte_of b) \<and> (byte_of a = 237 \<longrightarrow> byte_of b \<le> 159)
          then 3 else 0
        | _ \<Rightarrow> 0)
     else if byte_in 240 244 a then
       (case s of b # c # d # _ \<Rightarrow>
          if is_cont b \<and> is_cont c \<and> is_cont d
             \<and> (byte_of a = 240 \<longrightarrow> 144 \<le> byte_of b) \<and> (byte_of a = 244 \<longrightarrow> byte_of b \<le> 143)
          then 4 else 0
        | _ \<Rightarrow> 0)
     else 0)"

function valid_utf8 :: "string \<Rightarrow> bool" where
  "valid_utf8 [] = True"
| "valid_utf8 (a # s) =
     (let n = utf8_width (a # s) in if n = 0 then False else valid_utf8 (drop n (a # s)))"
  by pat_completeness auto
termination
  by (relation "measure length") auto

declare utf8_width.simps(2) [simp del]
declare valid_utf8.simps(2) [simp del]

lemma utf8_width_length: "utf8_width s \<le> length s"
  by (cases s) (auto simp: utf8_width.simps(2) split: list.splits)

lemma utf8_width_conts:
  assumes "0 < i" "i < utf8_width s"
  shows "is_cont (s ! i)"
proof (cases s)
  case (Cons a t)
  with assms show ?thesis
    by (auto simp: utf8_width.simps(2) less_Suc_eq numeral_eq_Suc split: list.splits if_splits)
qed (use assms in simp)

lemma valid_utf8_first:
  assumes "valid_utf8 s" "s \<noteq> []"
  shows "\<not> is_cont (hd s)"
  using assms by (cases s)
    (auto simp: valid_utf8.simps(2) utf8_width.simps(2) byte_in_def is_cont_def Let_def split: if_splits)

text \<open>A character boundary: \<open>str::is\_char\_boundary\<close>.\<close>

definition is_boundary :: "string \<Rightarrow> nat \<Rightarrow> bool" where
  "is_boundary s i \<longleftrightarrow> i = length s \<or> i < length s \<and> \<not> is_cont (s ! i)"

theorem valid_utf8_drop:
  "valid_utf8 s \<Longrightarrow> is_boundary s k \<Longrightarrow> valid_utf8 (drop k s)"
proof (induction s arbitrary: k rule: valid_utf8.induct)
  case 1
  then show ?case by simp
next
  case (2 a s)
  let ?n = "utf8_width (a # s)"
  have n0: "?n \<noteq> 0" and rest: "valid_utf8 (drop ?n (a # s))"
    using "2.prems"(1) by (auto simp: valid_utf8.simps(2) Let_def split: if_splits)
  show ?case
  proof (cases "k = 0")
    case True
    with "2.prems" show ?thesis by simp
  next
    case False
    have "?n \<le> k"
    proof (rule ccontr)
      assume "\<not> ?n \<le> k"
      then have "is_cont ((a # s) ! k)" using False utf8_width_conts [of k "a # s"] by simp
      moreover have "k < length (a # s)" using \<open>\<not> ?n \<le> k\<close> utf8_width_length [of "a # s"] by simp
      ultimately show False using "2.prems"(2) by (auto simp: is_boundary_def)
    qed
    then have "is_boundary (drop ?n (a # s)) (k - ?n)"
      using "2.prems"(2) by (auto simp: is_boundary_def)
    from "2.IH" [OF refl n0 rest this] have "valid_utf8 (drop (k - ?n) (drop ?n (a # s)))" .
    with \<open>?n \<le> k\<close> show ?thesis by (metis drop_drop le_add_diff_inverse2)
  qed
qed

lemma utf8_width_append: "utf8_width s \<noteq> 0 \<Longrightarrow> utf8_width (s @ t) = utf8_width s"
proof (cases s)
  case (Cons a u)
  assume "utf8_width s \<noteq> 0"
  with Cons show ?thesis
    by (cases u; cases "tl u"; cases "tl (tl u)") (simp_all add: utf8_width.simps(2) split: if_splits)
qed simp

lemma valid_utf8_append: "valid_utf8 s \<Longrightarrow> valid_utf8 t \<Longrightarrow> valid_utf8 (s @ t)"
proof (induction s rule: valid_utf8.induct)
  case (2 a s)
  let ?n = "utf8_width (a # s)"
  have n0: "?n \<noteq> 0" and rest: "valid_utf8 (drop ?n (a # s))"
    using "2.prems"(1) by (auto simp: valid_utf8.simps(2) Let_def split: if_splits)
  have "valid_utf8 (drop ?n (a # s) @ t)" using "2.IH" [OF refl n0 rest "2.prems"(2)] .
  moreover have "utf8_width (a # s @ t) = ?n" using utf8_width_append [OF n0, of t] by simp
  moreover have "drop ?n (a # s @ t) = drop ?n (a # s) @ t"
    using utf8_width_length [of "a # s"] by (cases ?n) auto
  ultimately show ?case using n0 by (simp add: valid_utf8.simps(2) Let_def)
qed simp

text \<open>\<open>chars().count()\<close> and the code points \<open>chars()\<close> yields.\<close>

definition char_count :: "string \<Rightarrow> nat" where
  "char_count s = length (filter (\<lambda>c. \<not> is_cont c) s)"

fun code_points :: "string \<Rightarrow> nat list" where
  "code_points [] = []"
| "code_points (a # s) =
    (if byte_of a < 128 then byte_of a # code_points s
     else if byte_of a < 192 then code_points s
     else (let (lead, n) = (if byte_of a < 224 then (byte_of a - 192, 1)
                            else if byte_of a < 240 then (byte_of a - 224, 2)
                            else (byte_of a - 240, 3::nat))
           in foldl (\<lambda>v c. v * 64 + (byte_of c - 128)) lead (take n s) # code_points s))"

lemma length_code_points: "length (code_points s) = char_count s"
  by (induction s) (auto simp: char_count_def is_cont_def Let_def split: prod.splits)

end
