(* ===== verification/Config.thy ===== *)
theory Config
  imports App_Errors Utf8
begin

text \<open>
  \<open>config.rs\<close>: the configuration data the workspace file holds, the constructors and updates
  of its parts, the input validation, and the migration of older data. Calls of \<open>now()\<close> and
  \<open>Uuid::new\_v4()\<close> are arguments (\<open>ts\<close>, \<open>uuid\<close>) of the definitions that make them.
\<close>

section \<open>The data model\<close>

definition VAULT_DATA_VERSION :: "16 word" where "VAULT_DATA_VERSION = 2"
definition GROUP_NAME_MAX_HAN_CHARS :: nat where "GROUP_NAME_MAX_HAN_CHARS = 8"
definition GROUP_NAME_MAX_CHARS :: nat where "GROUP_NAME_MAX_CHARS = 10"
definition GROUP_CUSTOM_MAX_COUNT :: nat where "GROUP_CUSTOM_MAX_COUNT = 10"
definition COLLAPSED_CONNECTION_SECTION_MAX_COUNT :: nat where
  "COLLAPSED_CONNECTION_SECTION_MAX_COUNT = 32"
definition CONNECTION_SECTION_ID_MAX_CHARS :: nat where "CONNECTION_SECTION_ID_MAX_CHARS = 128"

text \<open>The four Han characters of the default group's name, in UTF-8.\<close>

definition DEFAULT_GROUP_NAME :: string where
  "DEFAULT_GROUP_NAME =
     [CHR 0xE9, CHR 0xBB, CHR 0x98, CHR 0xE8, CHR 0xAE, CHR 0xA4,
      CHR 0xE5, CHR 0x88, CHR 0x86, CHR 0xE7, CHR 0xBB, CHR 0x84]"

record session_group =
  sg_id :: string
  sg_name :: string
  sg_parent_id :: "string option"
  sg_sort_order :: "32 word"
  sg_created_at :: string
  sg_updated_at :: string

datatype auth_method = Password | PrivateKey

record auth_config =
  au_method :: auth_method
  au_password :: "string option"
  au_private_key_path :: "string option"
  au_imported_private_key :: "string option"
  au_private_key_passphrase :: "string option"

record terminal_options =
  to_encoding :: string
  to_theme :: string
  to_keepalive_interval_sec :: "16 word"

record ssh_proxy_options =
  sp_kind :: string
  sp_host :: string
  sp_port :: "16 word"

record ssh_options =
  so_connect_timeout_ms :: nat
  so_keepalive_interval_sec :: "16 word"
  so_host_key_fingerprint :: "string option"
  so_proxy :: "ssh_proxy_options option"

record sftp_options =
  sf_default_path :: string
  sf_show_hidden :: bool

record session_config =
  sc_id :: string
  sc_name :: string
  sc_group_id :: "string option"
  sc_favorite :: bool
  sc_last_connected_at :: "string option"
  sc_connection_count :: nat
  sc_host :: string
  sc_port :: "16 word"
  sc_username :: string
  sc_auth :: auth_config
  sc_ssh :: ssh_options
  sc_default_path :: string
  sc_tags :: "string list"
  sc_note :: "string option"
  sc_terminal :: terminal_options
  sc_sftp :: sftp_options
  sc_created_at :: string
  sc_updated_at :: string

record known_host_entry =
  kh_host :: string
  kh_port :: "16 word"
  kh_algorithm :: string
  kh_fingerprint :: string
  kh_trusted_at :: string

record quick_command =
  qc_id :: string
  qc_name :: string
  qc_command :: string
  qc_created_at :: "string option"
  qc_updated_at :: "string option"

record app_proxy_options =
  ap_enabled :: bool
  ap_kind :: string
  ap_host :: string
  ap_port :: "16 word"

record webdav_backup_config =
  wd_endpoint :: string
  wd_username :: string
  wd_password :: string
  wd_remote_path :: string

record s3_backup_config =
  s3_endpoint :: string
  s3_region :: string
  s3_bucket :: string
  s3_access_key_id :: string
  s3_secret_access_key :: string
  s3_prefix :: string
  s3_path_style :: bool

record cloud_backup_settings =
  cb_enabled :: bool
  cb_auto_enabled :: bool
  cb_kind :: string
  cb_webdav :: webdav_backup_config
  cb_s3 :: s3_backup_config

record backup_settings =
  bs_local_directory :: "string option"
  bs_auto_enabled :: bool
  bs_frequency :: string
  bs_retention_count :: "16 word"
  bs_retention_days :: "16 word"
  bs_cloud :: cloud_backup_settings

record backup_record =
  br_id :: string
  br_file_name :: string
  br_target_kind :: string
  br_target_path :: string
  br_size :: nat
  br_status :: string
  br_error :: "string option"
  br_created_at :: string

record tunnel_config =
  tc_id :: string
  tc_enabled :: bool
  tc_name :: string
  tc_session_id :: string
  tc_forward_type :: string
  tc_bind_host :: string
  tc_bind_port :: "16 word"
  tc_target_host :: string
  tc_target_port :: "16 word"
  tc_created_at :: string
  tc_updated_at :: string

record tunnel_input =
  ti_name :: string
  ti_session_id :: string
  ti_forward_type :: string
  ti_bind_host :: string
  ti_bind_port :: "16 word"
  ti_target_host :: string
  ti_target_port :: "16 word"

record tunnel_patch =
  tp_name :: "string option"
  tp_session_id :: "string option"
  tp_forward_type :: "string option"
  tp_bind_host :: "string option"
  tp_bind_port :: "16 word option"
  tp_target_host :: "string option"
  tp_target_port :: "16 word option"

record app_settings =
  as_proxy :: "app_proxy_options option"
  as_backup :: backup_settings
  as_quick_commands :: "quick_command list"
  as_ignored_update_versions :: "string list"
  as_ai_api_key :: "string option"
  as_ai_api_session_id :: "string option"
  as_ai_api_session_ids :: "string list"
  as_ai_api_port :: "16 word option"
  as_ai_api_auto_start :: bool
  as_collapsed_connection_section_ids :: "string list"

record vault_data =
  vd_version :: "16 word"
  vd_groups :: "session_group list"
  vd_sessions :: "session_config list"
  vd_known_hosts :: "known_host_entry list"
  vd_settings :: app_settings
  vd_tunnels :: "tunnel_config list"
  vd_backup_records :: "backup_record list"
  vd_updated_at :: string

record config_snapshot =
  cs_data :: vault_data
  cs_revision :: nat

record group_input =
  gi_name :: string
  gi_parent_id :: "string option"

record session_input =
  si_name :: string
  si_group_id :: "string option"
  si_host :: string
  si_port :: "16 word"
  si_username :: string
  si_auth :: auth_config
  si_ssh :: ssh_options
  si_default_path :: string
  si_tags :: "string list"
  si_note :: "string option"
  si_terminal :: terminal_options
  si_sftp :: sftp_options

section \<open>Defaults\<close>

definition default_backup_frequency :: string where "default_backup_frequency = ''daily''"
definition default_backup_retention_count :: "16 word" where "default_backup_retention_count = 10"
definition default_backup_retention_days :: "16 word" where "default_backup_retention_days = 30"
definition default_cloud_backup_kind :: string where "default_cloud_backup_kind = ''webdav''"
definition default_s3_path_style :: bool where "default_s3_path_style = False"
definition default_s3_region :: string where "default_s3_region = ''us-east-1''"

definition terminal_options_default :: terminal_options where
  "terminal_options_default =
     \<lparr>to_encoding = ''utf-8'', to_theme = ''default'', to_keepalive_interval_sec = 15\<rparr>"

definition ssh_options_default :: ssh_options where
  "ssh_options_default =
     \<lparr>so_connect_timeout_ms = 10000, so_keepalive_interval_sec = 15,
      so_host_key_fingerprint = None, so_proxy = None\<rparr>"

definition webdav_default :: webdav_backup_config where
  "webdav_default = \<lparr>wd_endpoint = [], wd_username = [], wd_password = [], wd_remote_path = []\<rparr>"

definition s3_default :: s3_backup_config where
  "s3_default =
     \<lparr>s3_endpoint = [], s3_region = default_s3_region, s3_bucket = [], s3_access_key_id = [],
      s3_secret_access_key = [], s3_prefix = [], s3_path_style = default_s3_path_style\<rparr>"

definition cloud_backup_settings_default :: cloud_backup_settings where
  "cloud_backup_settings_default =
     \<lparr>cb_enabled = False, cb_auto_enabled = False, cb_kind = default_cloud_backup_kind,
      cb_webdav = webdav_default, cb_s3 = s3_default\<rparr>"

definition backup_settings_default :: backup_settings where
  "backup_settings_default =
     \<lparr>bs_local_directory = None, bs_auto_enabled = False, bs_frequency = default_backup_frequency,
      bs_retention_count = default_backup_retention_count,
      bs_retention_days = default_backup_retention_days,
      bs_cloud = cloud_backup_settings_default\<rparr>"

definition app_settings_default :: app_settings where
  "app_settings_default =
     \<lparr>as_proxy = None, as_backup = backup_settings_default, as_quick_commands = [],
      as_ignored_update_versions = [], as_ai_api_key = None, as_ai_api_session_id = None,
      as_ai_api_session_ids = [], as_ai_api_port = None, as_ai_api_auto_start = False,
      as_collapsed_connection_section_ids = []\<rparr>"

section \<open>Helpers\<close>

text \<open>\<open>clean\_tags\<close>: trimmed, non-empty, first occurrence kept.\<close>

fun clean_tags_from :: "string list \<Rightarrow> string list \<Rightarrow> string list" where
  "clean_tags_from cleaned [] = cleaned"
| "clean_tags_from cleaned (tag # tags) =
     (let value = trim tag in
      if value \<noteq> [] \<and> value \<notin> set cleaned then clean_tags_from (cleaned @ [value]) tags
      else clean_tags_from cleaned tags)"

definition clean_tags :: "string list \<Rightarrow> string list" where
  "clean_tags tags = clean_tags_from [] tags"

definition config_normalize_remote_path :: "string \<Rightarrow> string" where
  "config_normalize_remote_path path =
     (if trim path = [] then []
      else let parts = norm_parts path in
        if parts = [] then ''/'' else ''/'' @ join_with ''/'' parts)"

definition is_han_char :: "nat \<Rightarrow> bool" where
  "is_han_char cp \<longleftrightarrow>
     (0x3400 \<le> cp \<and> cp \<le> 0x4dbf) \<or> (0x4e00 \<le> cp \<and> cp \<le> 0x9fff)
     \<or> (0xf900 \<le> cp \<and> cp \<le> 0xfaff) \<or> (0x20000 \<le> cp \<and> cp \<le> 0x2a6df)
     \<or> (0x2a700 \<le> cp \<and> cp \<le> 0x2ebef) \<or> (0x30000 \<le> cp \<and> cp \<le> 0x3134f)"

section \<open>Constructors and updates\<close>

definition session_group_new :: "string \<Rightarrow> string \<Rightarrow> group_input \<Rightarrow> 32 word \<Rightarrow> session_group" where
  "session_group_new uuid ts input sort_order =
     \<lparr>sg_id = uuid, sg_name = trim (gi_name input), sg_parent_id = gi_parent_id input,
      sg_sort_order = sort_order, sg_created_at = ts, sg_updated_at = ts\<rparr>"

definition session_group_update :: "string \<Rightarrow> group_input \<Rightarrow> session_group \<Rightarrow> session_group" where
  "session_group_update ts input g =
     g\<lparr>sg_name := trim (gi_name input), sg_parent_id := gi_parent_id input, sg_updated_at := ts\<rparr>"

definition note_filter :: "string option \<Rightarrow> string option" where
  "note_filter note = (case note of Some n \<Rightarrow> if trim n = [] then None else Some n | None \<Rightarrow> None)"

definition session_config_new :: "string \<Rightarrow> string \<Rightarrow> session_input \<Rightarrow> session_config" where
  "session_config_new uuid ts input =
     \<lparr>sc_id = uuid, sc_name = trim (si_name input), sc_group_id = si_group_id input,
      sc_favorite = False, sc_last_connected_at = None, sc_connection_count = 0,
      sc_host = trim (si_host input), sc_port = si_port input,
      sc_username = trim (si_username input), sc_auth = si_auth input, sc_ssh = si_ssh input,
      sc_default_path = config_normalize_remote_path (si_default_path input),
      sc_tags = clean_tags (si_tags input), sc_note = note_filter (si_note input),
      sc_terminal = si_terminal input, sc_sftp = si_sftp input,
      sc_created_at = ts, sc_updated_at = ts\<rparr>"

definition session_config_update :: "string \<Rightarrow> session_input \<Rightarrow> session_config \<Rightarrow> session_config" where
  "session_config_update ts input s =
     s\<lparr>sc_name := trim (si_name input), sc_group_id := si_group_id input,
       sc_host := trim (si_host input), sc_port := si_port input,
       sc_username := trim (si_username input), sc_auth := si_auth input, sc_ssh := si_ssh input,
       sc_default_path := config_normalize_remote_path (si_default_path input),
       sc_tags := clean_tags (si_tags input), sc_note := note_filter (si_note input),
       sc_terminal := si_terminal input, sc_sftp := si_sftp input, sc_updated_at := ts\<rparr>"

definition tunnel_config_new :: "string \<Rightarrow> string \<Rightarrow> tunnel_input \<Rightarrow> tunnel_config" where
  "tunnel_config_new uuid ts input =
     \<lparr>tc_id = uuid, tc_enabled = False, tc_name = trim (ti_name input),
      tc_session_id = ti_session_id input, tc_forward_type = ti_forward_type input,
      tc_bind_host = trim (ti_bind_host input), tc_bind_port = ti_bind_port input,
      tc_target_host = trim (ti_target_host input), tc_target_port = ti_target_port input,
      tc_created_at = ts, tc_updated_at = ts\<rparr>"

definition tunnel_config_update :: "string \<Rightarrow> tunnel_input \<Rightarrow> tunnel_config \<Rightarrow> tunnel_config" where
  "tunnel_config_update ts input t =
     t\<lparr>tc_name := trim (ti_name input), tc_session_id := ti_session_id input,
       tc_forward_type := ti_forward_type input, tc_bind_host := trim (ti_bind_host input),
       tc_bind_port := ti_bind_port input, tc_target_host := trim (ti_target_host input),
       tc_target_port := ti_target_port input, tc_updated_at := ts\<rparr>"

definition tunnel_patch_is_empty :: "tunnel_patch \<Rightarrow> bool" where
  "tunnel_patch_is_empty p \<longleftrightarrow>
     tp_name p = None \<and> tp_session_id p = None \<and> tp_forward_type p = None
     \<and> tp_bind_host p = None \<and> tp_bind_port p = None \<and> tp_target_host p = None
     \<and> tp_target_port p = None"

definition unwrap_or :: "'a option \<Rightarrow> 'a \<Rightarrow> 'a" where
  "unwrap_or x d = (case x of Some y \<Rightarrow> y | None \<Rightarrow> d)"

definition tunnel_patch_apply_to :: "tunnel_patch \<Rightarrow> tunnel_config \<Rightarrow> tunnel_input" where
  "tunnel_patch_apply_to p current =
     \<lparr>ti_name = unwrap_or (tp_name p) (tc_name current),
      ti_session_id = unwrap_or (tp_session_id p) (tc_session_id current),
      ti_forward_type = unwrap_or (tp_forward_type p) (tc_forward_type current),
      ti_bind_host = unwrap_or (tp_bind_host p) (tc_bind_host current),
      ti_bind_port = unwrap_or (tp_bind_port p) (tc_bind_port current),
      ti_target_host = unwrap_or (tp_target_host p) (tc_target_host current),
      ti_target_port = unwrap_or (tp_target_port p) (tc_target_port current)\<rparr>"

definition backup_record_listed :: "string \<Rightarrow> string \<Rightarrow> string \<Rightarrow> nat \<Rightarrow> string \<Rightarrow> backup_record" where
  "backup_record_listed file_name target_kind target_path sz created_at =
     \<lparr>br_id = target_kind @ '':'' @ target_path, br_file_name = file_name,
      br_target_kind = target_kind, br_target_path = target_path, br_size = sz,
      br_status = ''success'', br_error = None, br_created_at = created_at\<rparr>"

definition backup_record_success ::
  "string \<Rightarrow> string \<Rightarrow> string \<Rightarrow> string \<Rightarrow> string \<Rightarrow> nat \<Rightarrow> backup_record" where
  "backup_record_success uuid ts file_name target_kind target_path sz =
     \<lparr>br_id = uuid, br_file_name = file_name, br_target_kind = target_kind,
      br_target_path = target_path, br_size = sz, br_status = ''success'', br_error = None,
      br_created_at = ts\<rparr>"

definition backup_record_failed ::
  "string \<Rightarrow> string \<Rightarrow> string \<Rightarrow> string \<Rightarrow> string \<Rightarrow> string \<Rightarrow> backup_record" where
  "backup_record_failed uuid ts file_name target_kind target_path err =
     \<lparr>br_id = uuid, br_file_name = file_name, br_target_kind = target_kind,
      br_target_path = target_path, br_size = 0, br_status = ''failed'', br_error = Some err,
      br_created_at = ts\<rparr>"

section \<open>The workspace\<close>

definition vault_data_empty :: "string \<Rightarrow> vault_data" where
  "vault_data_empty ts =
     \<lparr>vd_version = VAULT_DATA_VERSION, vd_groups = [], vd_sessions = [], vd_known_hosts = [],
      vd_settings = app_settings_default, vd_tunnels = [], vd_backup_records = [],
      vd_updated_at = ts\<rparr>"

definition vault_touch :: "string \<Rightarrow> vault_data \<Rightarrow> vault_data" where
  "vault_touch ts d = d\<lparr>vd_updated_at := ts\<rparr>"

text \<open>Three calls of \<open>now()\<close>: in \<open>empty\<close>, in \<open>SessionGroup::new\<close> and in \<open>touch\<close>.\<close>

definition vault_with_default_group :: "string \<Rightarrow> string \<Rightarrow> string \<Rightarrow> string \<Rightarrow> vault_data" where
  "vault_with_default_group uuid ts1 ts2 ts3 =
     (let d = vault_data_empty ts1;
          g = session_group_new uuid ts2 \<lparr>gi_name = DEFAULT_GROUP_NAME, gi_parent_id = None\<rparr> 0
      in vault_touch ts3 (d\<lparr>vd_groups := vd_groups d @ [g]\<rparr>))"

definition default_group_of :: "session_group list \<Rightarrow> string option" where
  "default_group_of gs =
     map_option sg_id
       (case List.find (\<lambda>g. sg_sort_order g = 0) gs of
          Some g \<Rightarrow> Some g
        | None \<Rightarrow> (case gs of [] \<Rightarrow> None | g # _ \<Rightarrow> Some g))"

definition default_group_id :: "vault_data \<Rightarrow> string option" where
  "default_group_id d = default_group_of (vd_groups d)"

definition is_default_group_id :: "vault_data \<Rightarrow> string \<Rightarrow> bool" where
  "is_default_group_id d group_id \<longleftrightarrow> default_group_id d = Some group_id"

definition custom_group_count :: "vault_data \<Rightarrow> nat" where
  "custom_group_count d =
     length (filter (\<lambda>g. Some (sg_id g) \<noteq> default_group_id d) (vd_groups d))"

section \<open>Migration\<close>

definition head_option :: "'a list \<Rightarrow> 'a option" where
  "head_option xs = (case xs of [] \<Rightarrow> None | x # _ \<Rightarrow> Some x)"

definition legacy_session_id :: "app_settings \<Rightarrow> string option" where
  "legacy_session_id st =
     (case as_ai_api_session_id st of
        None \<Rightarrow> None
      | Some s \<Rightarrow> let t = trim s in if t = [] then None else Some t)"

definition migrate_vault_data :: "string \<Rightarrow> vault_data \<Rightarrow> vault_data \<times> bool" where
  "migrate_vault_data ts d0 =
     (let (d1, c1) = (if vd_version d0 < VAULT_DATA_VERSION
                      then (d0\<lparr>vd_version := VAULT_DATA_VERSION\<rparr>, True) else (d0, False));
          st1 = vd_settings d1;
          (st2, c2) = (if as_ai_api_session_ids st1 = []
                       then (case legacy_session_id st1 of
                               Some sid \<Rightarrow> (st1\<lparr>as_ai_api_session_ids := [sid]\<rparr>, True)
                             | None \<Rightarrow> (st1, c1))
                       else (st1, c1));
          legacy = head_option (as_ai_api_session_ids st2);
          (st3, c3) = (if as_ai_api_session_id st2 \<noteq> legacy
                       then (st2\<lparr>as_ai_api_session_id := legacy\<rparr>, True) else (st2, c2));
          (st4, c4) = (if as_ai_api_session_ids st3 = [] \<and> as_ai_api_auto_start st3
                       then (st3\<lparr>as_ai_api_auto_start := False\<rparr>, True) else (st3, c3));
          d4 = d1\<lparr>vd_settings := st4\<rparr>
      in (if c4 then vault_touch ts d4 else d4, c4))"

section \<open>Validation\<close>

definition validate_group_name_length :: "string \<Rightarrow> unit app_result" where
  "validate_group_name_length name =
     (let n = char_count name; han = length (filter is_han_char (code_points name)) in
      guard_that (\<not> (han > GROUP_NAME_MAX_HAN_CHARS \<or> n > GROUP_NAME_MAX_CHARS))
        (InvalidInput ''group name longer than 8 Han characters or 10 characters''))"

definition validate_group_input ::
  "vault_data \<Rightarrow> string option \<Rightarrow> group_input \<Rightarrow> unit app_result" where
  "validate_group_input d group_id input =
     (if (case group_id of Some g \<Rightarrow> is_default_group_id d g | None \<Rightarrow> False)
      then Inl (InvalidInput ''the default group cannot be renamed'')
      else if trim (gi_name input) = [] then Inl (InvalidInput ''group name must not be empty'')
      else and_then (validate_group_name_length (trim (gi_name input))) (\<lambda>_.
        if group_id = None \<and> custom_group_count d \<ge> GROUP_CUSTOM_MAX_COUNT
        then Inl (InvalidInput ''at most 10 custom groups'')
        else (case gi_parent_id input of
                None \<Rightarrow> Inr ()
              | Some parent_id \<Rightarrow>
                  if Some parent_id = group_id
                  then Inl (InvalidInput ''a group cannot be its own parent'')
                  else if \<not> (\<exists>g\<in>set (vd_groups d). sg_id g = parent_id)
                  then Inl (NotFound (''parent group '' @ parent_id))
                  else Inr ())))"

definition validate_proxy_fields ::
  "bool \<Rightarrow> string \<Rightarrow> string \<Rightarrow> 16 word \<Rightarrow> unit app_result" where
  "validate_proxy_fields enabled kind host port =
     (if \<not> enabled then Inr ()
      else if kind \<noteq> ''socks5'' \<and> kind \<noteq> ''httpConnect''
      then Inl (InvalidInput ''invalid proxy kind'')
      else if trim host = [] then Inl (InvalidInput ''proxy host must not be empty'')
      else if port = 0 then Inl (InvalidInput ''proxy port must be 1-65535'')
      else Inr ())"

definition validate_ssh_proxy :: "ssh_proxy_options \<Rightarrow> unit app_result" where
  "validate_ssh_proxy proxy =
     (if sp_kind proxy = ''direct'' then Inr ()
      else validate_proxy_fields True (sp_kind proxy) (sp_host proxy) (sp_port proxy))"

definition validate_session_input ::
  "vault_data \<Rightarrow> string option \<Rightarrow> session_input \<Rightarrow> unit app_result" where
  "validate_session_input d session_id input =
     (if trim (si_name input) = [] then Inl (InvalidInput ''session name must not be empty'')
      else if trim (si_host input) = [] then Inl (InvalidInput ''host must not be empty'')
      else if si_port input = 0 then Inl (InvalidInput ''port must be 1-65535'')
      else if trim (si_username input) = [] then Inl (InvalidInput ''user name must not be empty'')
      else if (case si_group_id input of
                 None \<Rightarrow> False
               | Some group_id \<Rightarrow> \<not> (\<exists>g\<in>set (vd_groups d). sg_id g = group_id))
      then Inl (NotFound (''group '' @ unwrap_or (si_group_id input) []))
      else if \<exists>s\<in>set (vd_sessions d). Some (sc_id s) \<noteq> session_id \<and> sc_name s = trim (si_name input)
      then Inl (InvalidInput ''session name already used'')
      else (case so_proxy (si_ssh input) of
              Some proxy \<Rightarrow> validate_ssh_proxy proxy
            | None \<Rightarrow> Inr ()))"

text \<open>The loop over \<open>section\_ids\<close>: the ids before the current one are the first argument.\<close>

fun validate_section_ids_from :: "string list \<Rightarrow> string list \<Rightarrow> unit app_result" where
  "validate_section_ids_from previous [] = Inr ()"
| "validate_section_ids_from previous (section_id # rest) =
     (let trimmed = trim section_id in
      if trimmed = [] then Inl (InvalidInput ''section id must not be empty'')
      else if char_count trimmed > CONNECTION_SECTION_ID_MAX_CHARS
      then Inl (InvalidInput ''section id too long'')
      else if \<exists>p\<in>set previous. trim p = trimmed
      then Inl (InvalidInput ''duplicate collapsed section'')
      else validate_section_ids_from (previous @ [section_id]) rest)"

definition validate_collapsed_connection_section_ids :: "string list \<Rightarrow> unit app_result" where
  "validate_collapsed_connection_section_ids section_ids =
     (if length section_ids > COLLAPSED_CONNECTION_SECTION_MAX_COUNT
      then Inl (InvalidInput ''too many collapsed sections'')
      else validate_section_ids_from [] section_ids)"

fun validate_quick_commands_each :: "quick_command list \<Rightarrow> unit app_result" where
  "validate_quick_commands_each [] = Inr ()"
| "validate_quick_commands_each (c # cs) =
     (if trim (qc_name c) = [] then Inl (InvalidInput ''quick command name must not be empty'')
      else if trim (qc_command c) = []
      then Inl (InvalidInput ''quick command text must not be empty'')
      else validate_quick_commands_each cs)"

definition validate_quick_commands :: "quick_command list \<Rightarrow> unit app_result" where
  "validate_quick_commands commands =
     (if length commands > 100 then Inl (InvalidInput ''at most 100 quick commands'')
      else validate_quick_commands_each commands)"

definition validate_backup_settings :: "backup_settings \<Rightarrow> unit app_result" where
  "validate_backup_settings st =
     (if bs_frequency st \<notin> {''manual'', ''hourly'', ''daily'', ''weekly''}
      then Inl (InvalidInput ''invalid backup frequency'')
      else if bs_retention_count st = 0 then Inl (InvalidInput ''retention count must be positive'')
      else if (case bs_local_directory st of Some dir \<Rightarrow> trim dir = [] | None \<Rightarrow> False)
      then Inl (InvalidInput ''local backup directory must not be empty'')
      else if \<not> cb_enabled (bs_cloud st) \<and> \<not> cb_auto_enabled (bs_cloud st) then Inr ()
      else if cb_kind (bs_cloud st) = ''webdav'' then
        (if trim (wd_endpoint (cb_webdav (bs_cloud st))) = []
         then Inl (InvalidInput ''WebDAV endpoint must not be empty'') else Inr ())
      else if cb_kind (bs_cloud st) = ''s3'' then
        (let s3 = cb_s3 (bs_cloud st) in
         if trim (s3_endpoint s3) = [] \<or> trim (s3_region s3) = [] \<or> trim (s3_bucket s3) = []
            \<or> trim (s3_access_key_id s3) = [] \<or> trim (s3_secret_access_key s3) = []
         then Inl (InvalidInput ''incomplete S3 configuration'') else Inr ())
      else Inl (InvalidInput ''invalid cloud backup kind''))"

definition validate_settings :: "app_settings \<Rightarrow> unit app_result" where
  "validate_settings st =
     and_then (case as_proxy st of
                 Some p \<Rightarrow> validate_proxy_fields (ap_enabled p) (ap_kind p) (ap_host p) (ap_port p)
               | None \<Rightarrow> Inr ()) (\<lambda>_.
     and_then (validate_backup_settings (as_backup st)) (\<lambda>_.
     and_then (validate_quick_commands (as_quick_commands st)) (\<lambda>_.
     validate_collapsed_connection_section_ids (as_collapsed_connection_section_ids st))))"

definition validate_tunnel_input :: "vault_data \<Rightarrow> tunnel_input \<Rightarrow> unit app_result" where
  "validate_tunnel_input d input =
     (if trim (ti_name input) = [] then Inl (InvalidInput ''tunnel name must not be empty'')
      else if \<not> (\<exists>s\<in>set (vd_sessions d). sc_id s = ti_session_id input)
      then Inl (NotFound (''session '' @ ti_session_id input))
      else if ti_forward_type input \<notin> {''local'', ''remote'', ''dynamic''}
      then Inl (InvalidInput ''invalid tunnel type'')
      else if trim (ti_bind_host input) = [] then Inl (InvalidInput ''bind address must not be empty'')
      else if ti_forward_type input \<noteq> ''dynamic'' then
        (if trim (ti_target_host input) = [] then Inl (InvalidInput ''target must not be empty'')
         else if ti_target_port input = 0 then Inl (InvalidInput ''target port must be 1-65535'')
         else Inr ())
      else Inr ())"

section \<open>Lemmas\<close>

definition clean_tag :: "string \<Rightarrow> bool" where
  "clean_tag t \<longleftrightarrow> trim t = t \<and> t \<noteq> []"

lemma clean_tag_trim: "clean_tag (trim t) \<longleftrightarrow> trim t \<noteq> []"
  by (simp add: clean_tag_def)

lemma clean_tags_from_spec:
  assumes "distinct cleaned" and "\<forall>t\<in>set cleaned. clean_tag t"
  shows "distinct (clean_tags_from cleaned tags)
    \<and> set (clean_tags_from cleaned tags) = set cleaned \<union> (trim ` set tags - {[]})
    \<and> (\<forall>t\<in>set (clean_tags_from cleaned tags). clean_tag t)"
  using assms
proof (induction cleaned tags rule: clean_tags_from.induct)
  case (2 cleaned tag tags)
  show ?case
  proof (cases "trim tag \<noteq> [] \<and> trim tag \<notin> set cleaned")
    case True
    let ?c = "cleaned @ [trim tag]"
    have "distinct ?c" "\<forall>t\<in>set ?c. clean_tag t"
      using "2.prems" True by (auto simp: clean_tag_trim)
    note ih = "2.IH"(1) [OF refl True this]
    have eq: "clean_tags_from cleaned (tag # tags) = clean_tags_from ?c tags"
      using True by (simp add: Let_def)
    have "set ?c \<union> (trim ` set tags - {[]}) = set cleaned \<union> (trim ` set (tag # tags) - {[]})"
      using True by auto
    with ih show ?thesis unfolding eq by simp
  next
    case False
    then have eq: "clean_tags_from cleaned (tag # tags) = clean_tags_from cleaned tags"
      by (auto simp: Let_def)
    from "2.IH"(2) [OF refl False "2.prems"] False show ?thesis unfolding eq by auto
  qed
qed auto

lemma clean_tags_from_fixed:
  "distinct (cleaned @ tags) \<Longrightarrow> \<forall>t\<in>set tags. clean_tag t \<Longrightarrow>
   clean_tags_from cleaned tags = cleaned @ tags"
  by (induction tags arbitrary: cleaned) (auto simp: Let_def clean_tag_def)

lemma clean_tags_wf:
  "distinct (clean_tags tags)"
  "set (clean_tags tags) = trim ` set tags - {[]}"
  "\<forall>t\<in>set (clean_tags tags). clean_tag t"
  using clean_tags_from_spec [of "[]" tags] by (simp_all add: clean_tags_def)

text \<open>\<open>clean\_tags\<close> returns exactly the non-empty trimmed tags of its input, each once and
  in trimmed form, and running it on its own output changes nothing.\<close>

theorem clean_tags_correct:
  "set (clean_tags tags) = {t. t \<noteq> [] \<and> (\<exists>u\<in>set tags. t = trim u)}
   \<and> distinct (clean_tags tags)
   \<and> clean_tags (clean_tags tags) = clean_tags tags"
proof -
  have "clean_tags (clean_tags tags) = clean_tags tags"
    using clean_tags_from_fixed [of "[]" "clean_tags tags"] clean_tags_wf
    by (simp add: clean_tags_def)
  then show ?thesis using clean_tags_wf [of tags] by auto
qed

section \<open>Remote paths\<close>

lemma trim_slash: "trim (CHR ''/'' # s) \<noteq> []"
  using trim_keeps [of "CHR ''/''" "CHR ''/'' # s"] by (fastforce simp: ws_chars_def)

lemma config_normalize_cases:
  "config_normalize_remote_path p = [] \<and> trim p = []
   \<or> config_normalize_remote_path p = CHR ''/'' # join_with ''/'' (norm_parts p)"
  by (auto simp: config_normalize_remote_path_def Let_def)

lemma norm_parts_of_normal: "norm_parts (CHR ''/'' # join_with ''/'' (norm_parts p)) = norm_parts p"
  using norm_parts_rooted [of "norm_parts p"] norm_parts_plain by auto

text \<open>A session's default path is stored in a normal form: blank input stays empty,
  anything else becomes an absolute path none of whose segments is empty, \<open>.\<close> or \<open>..\<close>, and
  normalising again changes nothing.\<close>

theorem config_normalize_remote_path_normal:
  "(trim p = [] \<longleftrightarrow> config_normalize_remote_path p = [])
   \<and> (trim p \<noteq> [] \<longrightarrow>
        config_normalize_remote_path p = ''/''
        \<or> (\<forall>s\<in>set (tl (split_on (CHR ''/'') (config_normalize_remote_path p))). plain_part s)
          \<and> starts_with ''/'' (config_normalize_remote_path p))
   \<and> config_normalize_remote_path (config_normalize_remote_path p) = config_normalize_remote_path p"
proof -
  have segs: "split_on (CHR ''/'') (join_with ''/'' (norm_parts p)) = norm_parts p"
    if "norm_parts p \<noteq> []"
    using that norm_parts_plain [of _ p] by (intro split_on_join) (auto simp: plain_part_def)
  show ?thesis
  proof (cases "trim p = []")
    case True
    then show ?thesis by (simp add: config_normalize_remote_path_def)
  next
    case False
    then have eq: "config_normalize_remote_path p = CHR ''/'' # join_with ''/'' (norm_parts p)"
      using config_normalize_cases by blast
    moreover have "config_normalize_remote_path (config_normalize_remote_path p)
                   = config_normalize_remote_path p"
      unfolding eq using trim_slash config_normalize_cases
      by (metis norm_parts_of_normal)
    ultimately show ?thesis
      using False segs norm_parts_plain by (cases "norm_parts p = []") auto
  qed
qed

theorem config_normalize_remote_path_normal_witness:
  "config_normalize_remote_path ''//srv/./www/../log'' = ''/srv/log''
   \<and> config_normalize_remote_path ''/srv/log'' = ''/srv/log''"
proof -
  have eq: "config_normalize_remote_path ''//srv/./www/../log'' = ''/srv/log''"
    using trim_slash [of "''/srv/./www/../log''"]
    by (simp add: config_normalize_remote_path_def norm_parts_def push_part_def)
  then show ?thesis using config_normalize_remote_path_normal [of "''//srv/./www/../log''"] by simp
qed

section \<open>Group helpers\<close>

lemma default_group_of_cases:
  "default_group_of gs = None \<longleftrightarrow> gs = []"
  "default_group_of gs = Some i \<Longrightarrow> \<exists>g\<in>set gs. sg_id g = i"
  by (auto simp: default_group_of_def find_None_iff find_Some_iff split: option.splits list.splits)

text \<open>The default group depends on ids and sort orders only.\<close>

lemma default_group_of_cong:
  "map (\<lambda>g. (sg_id g, sg_sort_order g)) gs = map (\<lambda>g. (sg_id g, sg_sort_order g)) hs \<Longrightarrow>
   default_group_of gs = default_group_of hs"
proof (induction gs arbitrary: hs)
  case Nil
  then show ?case by simp
next
  case (Cons g gs)
  then obtain h hs' where hs: "hs = h # hs'" by (cases hs) auto
  with Cons.prems have eq: "sg_id g = sg_id h" "sg_sort_order g = sg_sort_order h"
    "map (\<lambda>g. (sg_id g, sg_sort_order g)) gs = map (\<lambda>g. (sg_id g, sg_sort_order g)) hs'" by auto
  have f: "map_option sg_id (List.find (\<lambda>g. sg_sort_order g = 0) gs)
         = map_option sg_id (List.find (\<lambda>g. sg_sort_order g = 0) hs')"
    using eq(3)
  proof (induction gs arbitrary: hs')
    case (Cons a gs)
    then show ?case by (cases hs') auto
  qed simp
  show ?case using eq f
    by (auto simp: hs default_group_of_def split: option.splits)
qed

section \<open>Migration and validation\<close>

text \<open>What the migration establishes and every settings operation keeps: the version is current,
  the legacy single-session field mirrors the head of the list, and auto start needs a session.\<close>

definition ai_api_wf :: "app_settings \<Rightarrow> bool" where
  "ai_api_wf st \<longleftrightarrow>
     as_ai_api_session_id st = head_option (as_ai_api_session_ids st)
     \<and> (as_ai_api_auto_start st \<longrightarrow> as_ai_api_session_ids st \<noteq> [])"

lemma head_option_simps [simp]:
  "head_option [] = None"
  "head_option (x # xs) = Some x"
  by (simp_all add: head_option_def)

text \<open>The migration in closed form: the new settings, and when anything changed.\<close>

definition migrated_ids :: "app_settings \<Rightarrow> string list" where
  "migrated_ids st =
     (if as_ai_api_session_ids st \<noteq> [] then as_ai_api_session_ids st
      else case legacy_session_id st of None \<Rightarrow> [] | Some i \<Rightarrow> [i])"

definition migrated_settings :: "app_settings \<Rightarrow> app_settings" where
  "migrated_settings st =
     st\<lparr>as_ai_api_session_ids := migrated_ids st,
        as_ai_api_session_id := head_option (migrated_ids st),
        as_ai_api_auto_start := (as_ai_api_auto_start st \<and> migrated_ids st \<noteq> [])\<rparr>"

lemma migrate_closed_form:
  "migrate_vault_data ts d =
     (let d' = d\<lparr>vd_version := max VAULT_DATA_VERSION (vd_version d),
                 vd_settings := migrated_settings (vd_settings d)\<rparr>
      in if d' = d then (d, False) else (vault_touch ts d', True))"
proof -
  obtain v gs ss kh st tu br up where d: "d = \<lparr>vd_version = v, vd_groups = gs, vd_sessions = ss,
      vd_known_hosts = kh, vd_settings = st, vd_tunnels = tu, vd_backup_records = br,
      vd_updated_at = up\<rparr>" by (cases d)
  obtain px bk qc iv ky si ids pt au cl where st: "st = \<lparr>as_proxy = px, as_backup = bk,
      as_quick_commands = qc, as_ignored_update_versions = iv, as_ai_api_key = ky,
      as_ai_api_session_id = si, as_ai_api_session_ids = ids, as_ai_api_port = pt,
      as_ai_api_auto_start = au, as_collapsed_connection_section_ids = cl\<rparr>" by (cases st)
  have v: "max VAULT_DATA_VERSION v = (if v < VAULT_DATA_VERSION then VAULT_DATA_VERSION else v)"
    by (auto simp: max_def)
  show ?thesis
    by (cases "v < VAULT_DATA_VERSION"; cases ids; cases "legacy_session_id st"; cases au; cases si)
       (auto simp: migrate_vault_data_def d st v migrated_settings_def migrated_ids_def
        vault_touch_def Let_def)
qed

lemma migrate_fst:
  "fst (migrate_vault_data ts d) =
     (let d' = d\<lparr>vd_version := max VAULT_DATA_VERSION (vd_version d),
                 vd_settings := migrated_settings (vd_settings d)\<rparr>
      in if d' = d then d else vault_touch ts d')"
  by (simp add: migrate_closed_form Let_def)

lemma migrate_frame:
  "vd_version (fst (migrate_vault_data ts d)) = max VAULT_DATA_VERSION (vd_version d)"
  "vd_settings (fst (migrate_vault_data ts d)) = migrated_settings (vd_settings d)"
  "vd_groups (fst (migrate_vault_data ts d)) = vd_groups d"
  "vd_sessions (fst (migrate_vault_data ts d)) = vd_sessions d"
  "vd_known_hosts (fst (migrate_vault_data ts d)) = vd_known_hosts d"
  "vd_tunnels (fst (migrate_vault_data ts d)) = vd_tunnels d"
  "vd_backup_records (fst (migrate_vault_data ts d)) = vd_backup_records d"
proof -
  let ?d' = "d\<lparr>vd_version := max VAULT_DATA_VERSION (vd_version d),
               vd_settings := migrated_settings (vd_settings d)\<rparr>"
  have eq: "\<exists>t. fst (migrate_vault_data ts d) = ?d'\<lparr>vd_updated_at := t\<rparr>"
  proof (cases "?d' = d")
    case True
    then have "fst (migrate_vault_data ts d) = ?d'\<lparr>vd_updated_at := vd_updated_at ?d'\<rparr>"
      by (simp add: migrate_fst)
    then show ?thesis by blast
  next
    case False
    then show ?thesis by (auto simp: migrate_fst vault_touch_def Let_def)
  qed
  then obtain t where "fst (migrate_vault_data ts d) = ?d'\<lparr>vd_updated_at := t\<rparr>" by blast
  note t = this
  show "vd_version (fst (migrate_vault_data ts d)) = max VAULT_DATA_VERSION (vd_version d)"
    "vd_settings (fst (migrate_vault_data ts d)) = migrated_settings (vd_settings d)"
    "vd_groups (fst (migrate_vault_data ts d)) = vd_groups d"
    "vd_sessions (fst (migrate_vault_data ts d)) = vd_sessions d"
    "vd_known_hosts (fst (migrate_vault_data ts d)) = vd_known_hosts d"
    "vd_tunnels (fst (migrate_vault_data ts d)) = vd_tunnels d"
    "vd_backup_records (fst (migrate_vault_data ts d)) = vd_backup_records d"
    by (simp_all add: t)
qed

lemma migrated_settings_wf: "ai_api_wf (migrated_settings st)"
  by (simp add: ai_api_wf_def migrated_settings_def)

lemma migrated_settings_fixed: "ai_api_wf st \<Longrightarrow> migrated_settings st = st"
  by (cases st; cases "as_ai_api_session_ids st")
     (auto simp: ai_api_wf_def migrated_settings_def migrated_ids_def legacy_session_id_def)

lemma migrate_fixed:
  assumes "ai_api_wf (vd_settings d)" and "VAULT_DATA_VERSION \<le> vd_version d"
  shows "migrate_vault_data ts d = (d, False)"
  using assms by (simp add: migrate_closed_form migrated_settings_fixed max_def)

lemma migrate_unchanged: "\<not> snd (migrate_vault_data ts d) \<Longrightarrow> fst (migrate_vault_data ts d) = d"
  by (simp add: migrate_closed_form Let_def split: if_splits)

text \<open>Migrating data of any version yields current, well-formed data, keeps every group,
  session, host key, tunnel and backup record, keeps a non-empty AI API selection, and a second
  migration finds nothing to do.\<close>

theorem migrate_vault_data_idempotent:
  "let m = fst (migrate_vault_data ts d) in
    ai_api_wf (vd_settings m) \<and> vd_version m = max VAULT_DATA_VERSION (vd_version d)
    \<and> vd_groups m = vd_groups d \<and> vd_sessions m = vd_sessions d
    \<and> vd_known_hosts m = vd_known_hosts d \<and> vd_tunnels m = vd_tunnels d
    \<and> vd_backup_records m = vd_backup_records d
    \<and> as_ai_api_session_ids (vd_settings m) =
        (if as_ai_api_session_ids (vd_settings d) \<noteq> [] then as_ai_api_session_ids (vd_settings d)
         else case legacy_session_id (vd_settings d) of None \<Rightarrow> [] | Some i \<Rightarrow> [i])
    \<and> migrate_vault_data ts' m = (m, False)"
proof -
  let ?m = "fst (migrate_vault_data ts d)"
  have "migrate_vault_data ts' ?m = (?m, False)"
    by (rule migrate_fixed) (simp_all add: migrate_frame migrated_settings_wf)
  then show ?thesis
    by (simp add: Let_def migrate_frame migrated_settings_wf)
       (simp add: migrated_settings_def migrated_ids_def)
qed

lemma validate_section_ids_from_ok:
  "validate_section_ids_from previous ids = Inr () \<longleftrightarrow>
     (\<forall>i\<in>set ids. trim i \<noteq> [] \<and> char_count (trim i) \<le> CONNECTION_SECTION_ID_MAX_CHARS)
     \<and> distinct (map trim ids) \<and> (\<forall>i\<in>set ids. \<forall>p\<in>set previous. trim p \<noteq> trim i)"
proof (induction previous ids rule: validate_section_ids_from.induct)
  case (2 previous section_id rest)
  show ?case
  proof (cases "trim section_id = [] \<or> char_count (trim section_id) > CONNECTION_SECTION_ID_MAX_CHARS
                \<or> (\<exists>p\<in>set previous. trim p = trim section_id)")
    case True
    then show ?thesis by (auto simp: Let_def)
  next
    case False
    then have "validate_section_ids_from previous (section_id # rest)
             = validate_section_ids_from (previous @ [section_id]) rest"
      by (auto simp: Let_def)
    with False 2 show ?thesis by (auto simp: Let_def)
  qed
qed simp

lemma validate_quick_commands_each_ok:
  "validate_quick_commands_each cs = Inr () \<longleftrightarrow>
     (\<forall>c\<in>set cs. trim (qc_name c) \<noteq> [] \<and> trim (qc_command c) \<noteq> [])"
  by (induction cs) auto

text \<open>C1: \<open>validate\_settings\<close> accepts exactly the settings with a usable proxy, a valid backup
  plan, at most 100 quick commands with a name and a text each, and at most 32 collapsed sections
  with distinct, non-blank ids of at most 128 characters.\<close>

theorem validate_settings_ok_iff:
  "validate_settings st = Inr () \<longleftrightarrow>
     (\<forall>p. as_proxy st = Some p \<and> ap_enabled p \<longrightarrow>
        ap_kind p \<in> {''socks5'', ''httpConnect''} \<and> trim (ap_host p) \<noteq> [] \<and> ap_port p \<noteq> 0)
     \<and> validate_backup_settings (as_backup st) = Inr ()
     \<and> length (as_quick_commands st) \<le> 100
     \<and> (\<forall>c\<in>set (as_quick_commands st). trim (qc_name c) \<noteq> [] \<and> trim (qc_command c) \<noteq> [])
     \<and> length (as_collapsed_connection_section_ids st) \<le> 32
     \<and> distinct (map trim (as_collapsed_connection_section_ids st))
     \<and> (\<forall>i\<in>set (as_collapsed_connection_section_ids st).
          trim i \<noteq> [] \<and> char_count (trim i) \<le> 128)"
  by (auto simp: validate_settings_def and_then_Inr_iff validate_proxy_fields_def
      validate_quick_commands_def validate_quick_commands_each_ok
      validate_collapsed_connection_section_ids_def validate_section_ids_from_ok
      COLLAPSED_CONNECTION_SECTION_MAX_COUNT_def CONNECTION_SECTION_ID_MAX_CHARS_def
      split: option.splits if_splits)

theorem validate_settings_ok_iff_witness:
  "validate_settings app_settings_default = Inr ()"
  by (subst validate_settings_ok_iff)
     (simp add: app_settings_default_def validate_backup_settings_def backup_settings_default_def
      default_backup_frequency_def default_backup_retention_count_def
      cloud_backup_settings_default_def)

end
