(* ===== verification/Crypto.thy ===== *)
theory Crypto
  imports Config
begin

text \<open>
  \<open>crypto.rs\<close>: the binary v2 workspace format and its encryption. Argon2, XChaCha20-Poly1305 and
  \<open>serde\_json\<close> are crates outside the repository: the record \<open>crypto\_lib\<close> holds the functions
  the code calls, and \<open>crypto\_lib\_ok\<close> states what it relies on of them. Salts and nonces drawn
  from \<open>OsRng\<close> are arguments.
\<close>

type_synonym byte = "8 word"
type_synonym bytes = "byte list"

section \<open>Little-endian integers\<close>

primrec le_bytes :: "nat \<Rightarrow> nat \<Rightarrow> bytes" where
  "le_bytes 0 n = []"
| "le_bytes (Suc k) n = of_nat n # le_bytes k (n div 256)"

primrec from_le_bytes :: "bytes \<Rightarrow> nat" where
  "from_le_bytes [] = 0"
| "from_le_bytes (b # bs) = unat b + 256 * from_le_bytes bs"

lemma length_le_bytes [simp]: "length (le_bytes k n) = k"
  by (induction k arbitrary: n) auto

lemma unat_byte: "unat (of_nat n :: byte) = n mod 256"
  by (simp add: unat_of_nat)

lemma from_le_le_bytes: "from_le_bytes (le_bytes k n) = n mod 256 ^ k"
proof (induction k arbitrary: n)
  case (Suc k)
  have "from_le_bytes (le_bytes (Suc k) n) = n mod 256 + 256 * (n div 256 mod 256 ^ k)"
    by (simp add: Suc unat_byte)
  also have "\<dots> = n mod (256 * 256 ^ k)"
    by (simp add: mod_mult2_eq)
  finally show ?case by simp
qed simp

lemma from_le_bytes_less: "from_le_bytes bs < 256 ^ length bs"
proof (induction bs)
  case (Cons b bs)
  have "unat b < 256" using unsigned_less [of b] by simp
  with Cons show ?case by simp
qed simp

lemma le_from_le_bytes: "le_bytes (length bs) (from_le_bytes bs) = bs"
proof (induction bs)
  case (Cons b bs)
  have lt: "unat b < 256" using unsigned_less [of b] by simp
  have z: "of_nat 256 = (0 :: byte)" by simp
  have "of_nat (unat b + 256 * from_le_bytes bs) = (of_nat (unat b) :: byte)"
    by (simp only: of_nat_add of_nat_mult z mult_zero_left add_0_right)
  moreover have "(unat b + 256 * from_le_bytes bs) div 256 = from_le_bytes bs" using lt by simp
  ultimately show ?case
    using Cons by (simp only: from_le_bytes.simps le_bytes.simps length_Cons of_nat_unat) simp
qed simp

lemma le_bytes_mod: "le_bytes k (n mod 256 ^ k) = le_bytes k n"
  by (metis from_le_le_bytes le_from_le_bytes length_le_bytes)

section \<open>Parameters and data\<close>

definition VAULT_FORMAT_VERSION :: nat where "VAULT_FORMAT_VERSION = 2"
definition BINARY_HEADER_LEN :: nat where "BINARY_HEADER_LEN = 70"
definition SALT_LEN :: nat where "SALT_LEN = 16"
definition NONCE_LEN :: nat where "NONCE_LEN = 24"
definition KEY_LEN :: nat where "KEY_LEN = 32"
definition MIN_MASTER_PASSWORD_LEN :: nat where "MIN_MASTER_PASSWORD_LEN = 6"

text \<open>The bytes of \<open>RPVAULT\<close> and a zero byte.\<close>

definition BINARY_MAGIC :: bytes where
  "BINARY_MAGIC = [0x52, 0x50, 0x56, 0x41, 0x55, 0x4C, 0x54, 0]"

record kdf_params =
  kp_m_cost_kib :: "32 word"
  kp_t_cost :: "32 word"
  kp_parallelism :: "32 word"

definition KDF_PARAMS_CURRENT :: kdf_params where
  "KDF_PARAMS_CURRENT = \<lparr>kp_m_cost_kib = 64 * 1024, kp_t_cost = 3, kp_parallelism = 1\<rparr>"

definition KDF_PARAMS_FAST :: kdf_params where
  "KDF_PARAMS_FAST = \<lparr>kp_m_cost_kib = 1024, kp_t_cost = 1, kp_parallelism = 1\<rparr>"

record encrypted_vault =
  ev_params :: kdf_params
  ev_salt :: bytes
  ev_nonce :: bytes
  ev_ciphertext :: bytes

record crypto_session =
  cr_key :: bytes
  cr_salt :: bytes
  cr_params :: kdf_params

text \<open>The functions of the crates: \<open>Params::new\<close> (the text of its error, if any),
  \<open>hash\_password\_into\<close>, \<open>new\_from\_slice\<close> (the text of its error, if any), the AEAD's
  \<open>encrypt\<close> and \<open>decrypt\<close> (key, nonce, associated data, message), \<open>to\_vec\<close> and
  \<open>from\_slice\<close>.\<close>

record crypto_lib =
  cl_params_new :: "kdf_params \<Rightarrow> string option"
  cl_hash_password_into :: "kdf_params \<Rightarrow> string \<Rightarrow> bytes \<Rightarrow> string + bytes"
  cl_new_from_slice :: "bytes \<Rightarrow> string option"
  cl_encrypt :: "bytes \<Rightarrow> bytes \<Rightarrow> bytes \<Rightarrow> bytes \<Rightarrow> bytes option"
  cl_decrypt :: "bytes \<Rightarrow> bytes \<Rightarrow> bytes \<Rightarrow> bytes \<Rightarrow> bytes option"
  cl_to_vec :: "vault_data \<Rightarrow> string + bytes"
  cl_from_slice :: "bytes \<Rightarrow> vault_data option"

text \<open>What the code relies on: the AEAD appends a 16-byte tag and opens what it sealed under the
  same key, nonce and associated data; \<open>serde\_json\<close> reads back what it wrote.\<close>

definition crypto_lib_ok :: "crypto_lib \<Rightarrow> bool" where
  "crypto_lib_ok L \<longleftrightarrow>
     (\<forall>k n a m c. cl_encrypt L k n a m = Some c \<longrightarrow>
        length c = length m + 16 \<and> cl_decrypt L k n a c = Some m)
     \<and> (\<forall>d b. cl_to_vec L d = Inr b \<longrightarrow> cl_from_slice L b = Some d)"

section \<open>Operations\<close>

text \<open>\<open>KdfParams::argon2\<close>; the hasher it returns is determined by the parameters.\<close>

definition kdf_params_argon2 :: "crypto_lib \<Rightarrow> kdf_params \<Rightarrow> kdf_params app_result" where
  "kdf_params_argon2 L p =
     (if kp_m_cost_kib p > 256 * 1024 \<or> kp_t_cost p > 10 \<or> kp_parallelism p > 16
      then Inl (Crypto ''Argon2 parameters out of range'')
      else case cl_params_new L p of
        Some err \<Rightarrow> Inl (Crypto (''invalid Argon2 parameters: '' @ err))
      | None \<Rightarrow> Inr p)"

definition crypto_session_is_slow :: "crypto_session \<Rightarrow> bool" where
  "crypto_session_is_slow s \<longleftrightarrow>
     kp_m_cost_kib (cr_params s) > kp_m_cost_kib KDF_PARAMS_FAST * 2
     \<or> kp_t_cost (cr_params s) > kp_t_cost KDF_PARAMS_FAST * 2"

definition validate_master_password :: "string \<Rightarrow> unit app_result" where
  "validate_master_password master_password =
     guard_that (\<not> char_count master_password < MIN_MASTER_PASSWORD_LEN)
       (InvalidInput ''master password needs at least 6 characters'')"

definition derive_key :: "crypto_lib \<Rightarrow> string \<Rightarrow> bytes \<Rightarrow> kdf_params \<Rightarrow> bytes app_result" where
  "derive_key L master_password salt params =
     and_then (kdf_params_argon2 L params) (\<lambda>argon2.
       case cl_hash_password_into L argon2 master_password salt of
         Inl err \<Rightarrow> Inl (Crypto (''key derivation failed: '' @ err))
       | Inr key \<Rightarrow> Inr key)"

definition binary_header :: "encrypted_vault \<Rightarrow> nat \<Rightarrow> bytes" where
  "binary_header v ciphertext_len =
     BINARY_MAGIC @ le_bytes 2 VAULT_FORMAT_VERSION
     @ le_bytes 4 (unat (kp_m_cost_kib (ev_params v)))
     @ le_bytes 4 (unat (kp_t_cost (ev_params v)))
     @ le_bytes 4 (unat (kp_parallelism (ev_params v)))
     @ ev_salt v @ ev_nonce v @ le_bytes 8 ciphertext_len"

definition encode_vault :: "encrypted_vault \<Rightarrow> bytes app_result" where
  "encode_vault v = Inr (binary_header v (length (ev_ciphertext v)) @ ev_ciphertext v)"

text \<open>The slice \<open>bytes[a..b]\<close>; every use below is in range.\<close>

definition byte_slice :: "nat \<Rightarrow> nat \<Rightarrow> 'a list \<Rightarrow> 'a list" where
  "byte_slice a b xs = take (b - a) (drop a xs)"

definition read_u32 :: "bytes \<Rightarrow> nat \<Rightarrow> 32 word" where
  "read_u32 bs at = of_nat (from_le_bytes (byte_slice at (at + 4) bs))"

definition decode_vault :: "crypto_lib \<Rightarrow> bytes \<Rightarrow> encrypted_vault app_result" where
  "decode_vault L bs =
     (if take 8 bs \<noteq> BINARY_MAGIC
      then Inl (Crypto ''only binary v2 workspaces are supported'')
      else if length bs < BINARY_HEADER_LEN + 16
              \<or> from_le_bytes (byte_slice 8 10 bs) \<noteq> VAULT_FORMAT_VERSION
      then Inl (Crypto ''invalid version or incomplete data'')
      else let params = \<lparr>kp_m_cost_kib = read_u32 bs 10, kp_t_cost = read_u32 bs 14,
                         kp_parallelism = read_u32 bs 18\<rparr> in
        and_then (kdf_params_argon2 L params) (\<lambda>_.
          if from_le_bytes (byte_slice 62 70 bs) \<noteq> (length bs - BINARY_HEADER_LEN) mod 2 ^ 64
          then Inl (Crypto ''workspace length mismatch'')
          else Inr \<lparr>ev_params = params, ev_salt = byte_slice 22 38 bs, ev_nonce = byte_slice 38 62 bs,
                    ev_ciphertext = drop BINARY_HEADER_LEN bs\<rparr>))"

definition encrypt_with_session ::
  "crypto_lib \<Rightarrow> bytes \<Rightarrow> crypto_session \<Rightarrow> vault_data \<Rightarrow> encrypted_vault app_result" where
  "encrypt_with_session L nonce session d =
     (case cl_to_vec L d of
        Inl err \<Rightarrow> Inl (Serde err)
      | Inr plaintext \<Rightarrow>
          (case cl_new_from_slice L (cr_key session) of
             Some err \<Rightarrow> Inl (Crypto (''cipher initialisation failed: '' @ err))
           | None \<Rightarrow>
               let encrypted = \<lparr>ev_params = cr_params session, ev_salt = cr_salt session,
                                ev_nonce = nonce, ev_ciphertext = []\<rparr>;
                   header = binary_header encrypted (length plaintext + 16) in
               (case cl_encrypt L (cr_key session) nonce header plaintext of
                  None \<Rightarrow> Inl (Crypto ''encryption failed'')
                | Some c \<Rightarrow> Inr (encrypted\<lparr>ev_ciphertext := c\<rparr>))))"

definition encrypt_with_params ::
  "crypto_lib \<Rightarrow> kdf_params \<Rightarrow> bytes \<Rightarrow> bytes \<Rightarrow> string \<Rightarrow> vault_data
   \<Rightarrow> (encrypted_vault \<times> crypto_session) app_result" where
  "encrypt_with_params L params salt nonce master_password d =
     and_then (validate_master_password master_password) (\<lambda>_.
     and_then (derive_key L master_password salt params) (\<lambda>key.
       let session = \<lparr>cr_key = key, cr_salt = salt, cr_params = params\<rparr> in
       and_then (encrypt_with_session L nonce session d) (\<lambda>encrypted. Inr (encrypted, session))))"

definition encrypt_with_password ::
  "crypto_lib \<Rightarrow> bytes \<Rightarrow> bytes \<Rightarrow> string \<Rightarrow> vault_data
   \<Rightarrow> (encrypted_vault \<times> crypto_session) app_result" where
  "encrypt_with_password L = encrypt_with_params L KDF_PARAMS_CURRENT"

definition encrypt_with_password_fast ::
  "crypto_lib \<Rightarrow> bytes \<Rightarrow> bytes \<Rightarrow> string \<Rightarrow> vault_data
   \<Rightarrow> (encrypted_vault \<times> crypto_session) app_result" where
  "encrypt_with_password_fast L = encrypt_with_params L KDF_PARAMS_FAST"

definition decrypt_with_key ::
  "crypto_lib \<Rightarrow> bytes \<Rightarrow> encrypted_vault \<Rightarrow> vault_data app_result" where
  "decrypt_with_key L key v =
     (let aad = binary_header v (length (ev_ciphertext v)) in
      case cl_new_from_slice L key of
        Some err \<Rightarrow> Inl (Crypto (''cipher initialisation failed: '' @ err))
      | None \<Rightarrow>
          and_then (ok_or (cl_decrypt L key (ev_nonce v) aad (ev_ciphertext v)) InvalidMasterPassword)
            (\<lambda>plaintext. ok_or (cl_from_slice L plaintext) InvalidMasterPassword))"

text \<open>After the key is derived, the body is that of \<open>decrypt\_with\_key\<close>.\<close>

definition decrypt_with_password ::
  "crypto_lib \<Rightarrow> string \<Rightarrow> encrypted_vault \<Rightarrow> (vault_data \<times> crypto_session) app_result" where
  "decrypt_with_password L master_password v =
     and_then (derive_key L master_password (ev_salt v) (ev_params v)) (\<lambda>key.
     and_then (decrypt_with_key L key v) (\<lambda>d.
       Inr (d, \<lparr>cr_key = key, cr_salt = ev_salt v, cr_params = ev_params v\<rparr>)))"

section \<open>The file format\<close>

definition encrypted_wf :: "crypto_lib \<Rightarrow> encrypted_vault \<Rightarrow> bool" where
  "encrypted_wf L v \<longleftrightarrow>
     length (ev_salt v) = SALT_LEN \<and> length (ev_nonce v) = NONCE_LEN
     \<and> 16 \<le> length (ev_ciphertext v) \<and> kdf_params_argon2 L (ev_params v) = Inr (ev_params v)"

lemma kdf_params_argon2_Inr: "kdf_params_argon2 L p = Inr q \<Longrightarrow> q = p"
  by (auto simp: kdf_params_argon2_def split: if_splits option.splits)

lemma slice_append:
  "byte_slice (length xs) (length xs + length ys) (xs @ ys @ zs) = ys"
  by (simp add: byte_slice_def)

lemma slice_at:
  assumes "bs = xs @ ys @ zs" and "length xs = a" and "length ys + a = b"
  shows "byte_slice a b bs = ys"
  using assms slice_append [of xs ys zs] by (simp add: add.commute)

lemma length_slice: "b \<le> length xs \<Longrightarrow> length (byte_slice a b xs) = b - a"
  by (simp add: byte_slice_def)

lemma slice_join:
  assumes "a \<le> b" and "b \<le> c"
  shows "byte_slice a b xs @ byte_slice b c xs = byte_slice a c xs"
proof -
  have c: "c - a = (b - a) + (c - b)" using assms by simp
  show ?thesis using assms(1) unfolding byte_slice_def c take_add by (simp add: add.commute)
qed

lemma le4_read: "le_bytes 4 (unat (of_nat (from_le_bytes bs) :: 32 word)) = bs" if "length bs = 4"
proof -
  have "from_le_bytes bs < 2 ^ 32" using from_le_bytes_less [of bs] that by simp
  then have "unat (of_nat (from_le_bytes bs) :: 32 word) = from_le_bytes bs"
    by (simp add: unat_of_nat)
  then show ?thesis using le_from_le_bytes [of bs] that by simp
qed

lemma read_le4: "of_nat (from_le_bytes (le_bytes 4 (unat w))) = (w :: 32 word)"
proof -
  have "unat w < 256 ^ 4" using unsigned_less [of w] by simp
  then show ?thesis by (simp add: from_le_le_bytes)
qed

lemma length_binary_header:
  "length (ev_salt v) = SALT_LEN \<Longrightarrow> length (ev_nonce v) = NONCE_LEN \<Longrightarrow>
   length (binary_header v n) = BINARY_HEADER_LEN"
  by (simp add: binary_header_def BINARY_MAGIC_def SALT_LEN_def NONCE_LEN_def BINARY_HEADER_LEN_def)

text \<open>The seven fields of an encoded workspace at their offsets.\<close>

lemma header_fields:
  assumes "length (ev_salt v) = 16" and "length (ev_nonce v) = 24"
    and bs: "bs = binary_header v n @ ct"
  shows "take 8 bs = BINARY_MAGIC" "byte_slice 8 10 bs = le_bytes 2 VAULT_FORMAT_VERSION"
    "read_u32 bs 10 = kp_m_cost_kib (ev_params v)" "read_u32 bs 14 = kp_t_cost (ev_params v)"
    "read_u32 bs 18 = kp_parallelism (ev_params v)" "byte_slice 22 38 bs = ev_salt v"
    "byte_slice 38 62 bs = ev_nonce v" "byte_slice 62 70 bs = le_bytes 8 n" "drop 70 bs = ct"
    "length bs = 70 + length ct"
proof -
  define h1 where "h1 = BINARY_MAGIC @ le_bytes 2 VAULT_FORMAT_VERSION"
  define m where "m = le_bytes 4 (unat (kp_m_cost_kib (ev_params v)))"
  define t where "t = le_bytes 4 (unat (kp_t_cost (ev_params v)))"
  define q where "q = le_bytes 4 (unat (kp_parallelism (ev_params v)))"
  have len: "length BINARY_MAGIC = 8" "length h1 = 10" "length m = 4" "length t = 4" "length q = 4"
    by (simp_all add: h1_def m_def t_def q_def BINARY_MAGIC_def)
  have split: "bs = h1 @ m @ t @ q @ ev_salt v @ ev_nonce v @ le_bytes 8 n @ ct"
    by (simp add: bs binary_header_def h1_def m_def t_def q_def)
  show "take 8 bs = BINARY_MAGIC" using len by (simp add: split h1_def)
  show "byte_slice 8 10 bs = le_bytes 2 VAULT_FORMAT_VERSION"
    by (rule slice_at [of _ BINARY_MAGIC]) (simp_all add: split h1_def len)
  have "byte_slice 10 14 bs = m" by (rule slice_at [of _ h1]) (simp_all add: split len)
  then show "read_u32 bs 10 = kp_m_cost_kib (ev_params v)" by (simp add: read_u32_def m_def read_le4)
  have "byte_slice 14 18 bs = t" by (rule slice_at [of _ "h1 @ m"]) (simp_all add: split len)
  then show "read_u32 bs 14 = kp_t_cost (ev_params v)" by (simp add: read_u32_def t_def read_le4)
  have "byte_slice 18 22 bs = q" by (rule slice_at [of _ "h1 @ m @ t"]) (simp_all add: split len)
  then show "read_u32 bs 18 = kp_parallelism (ev_params v)" by (simp add: read_u32_def q_def read_le4)
  show "byte_slice 22 38 bs = ev_salt v"
    by (rule slice_at [of _ "h1 @ m @ t @ q"]) (simp_all add: split len assms)
  show "byte_slice 38 62 bs = ev_nonce v"
    by (rule slice_at [of _ "h1 @ m @ t @ q @ ev_salt v"]) (simp_all add: split len assms)
  show "byte_slice 62 70 bs = le_bytes 8 n"
    by (rule slice_at [of _ "h1 @ m @ t @ q @ ev_salt v @ ev_nonce v"])
       (simp_all add: split len assms)
  show "drop 70 bs = ct" "length bs = 70 + length ct" by (simp_all add: split len assms)
qed

lemma decode_encode:
  assumes "encrypted_wf L v"
  shows "and_then (encode_vault v) (decode_vault L) = Inr v"
proof -
  let ?bs = "binary_header v (length (ev_ciphertext v)) @ ev_ciphertext v"
  have wf: "length (ev_salt v) = 16" "length (ev_nonce v) = 24" "16 \<le> length (ev_ciphertext v)"
    "kdf_params_argon2 L (ev_params v) = Inr (ev_params v)"
    using assms by (simp_all add: encrypted_wf_def SALT_LEN_def NONCE_LEN_def)
  note f = header_fields [OF wf(1,2) refl, of "length (ev_ciphertext v)" "ev_ciphertext v"]
  have "from_le_bytes (le_bytes 2 VAULT_FORMAT_VERSION) = VAULT_FORMAT_VERSION"
    "from_le_bytes (le_bytes 8 (length (ev_ciphertext v))) = length (ev_ciphertext v) mod 2 ^ 64"
    by (simp_all add: from_le_le_bytes VAULT_FORMAT_VERSION_def)
  then have "decode_vault L ?bs
    = and_then (kdf_params_argon2 L (ev_params v)) (\<lambda>_. Inr v)"
    unfolding decode_vault_def BINARY_HEADER_LEN_def Let_def f using wf(3)
    by (cases v; cases "ev_params v") simp
  then show ?thesis by (simp add: encode_vault_def wf(4))
qed

lemma decode_sound:
  assumes dec: "decode_vault L bs = Inr v"
  shows "encrypted_wf L v \<and> encode_vault v = Inr bs"
proof -
  from dec have ok: "take 8 bs = BINARY_MAGIC" "86 \<le> length bs"
    "from_le_bytes (byte_slice 8 10 bs) = 2"
    "kdf_params_argon2 L (ev_params v) = Inr (ev_params v)"
    "from_le_bytes (byte_slice 62 70 bs) = (length bs - 70) mod 2 ^ 64"
    and v: "v = \<lparr>ev_params = \<lparr>kp_m_cost_kib = read_u32 bs 10, kp_t_cost = read_u32 bs 14,
                kp_parallelism = read_u32 bs 18\<rparr>, ev_salt = byte_slice 22 38 bs,
                ev_nonce = byte_slice 38 62 bs, ev_ciphertext = drop 70 bs\<rparr>"
    by (auto simp: decode_vault_def Let_def and_then_Inr_iff BINARY_HEADER_LEN_def
        VAULT_FORMAT_VERSION_def split: if_splits dest: kdf_params_argon2_Inr)
  have le: "le_bytes 2 VAULT_FORMAT_VERSION = byte_slice 8 10 bs"
    "le_bytes 8 (length bs - 70) = byte_slice 62 70 bs"
    using le_from_le_bytes [of "byte_slice 8 10 bs"] le_from_le_bytes [of "byte_slice 62 70 bs"] ok
      le_bytes_mod [of 8 "length bs - 70"]
    by (simp_all add: length_slice VAULT_FORMAT_VERSION_def)
  have rd: "le_bytes 4 (unat (read_u32 bs a)) = byte_slice a (a + 4) bs" if "a + 4 \<le> length bs" for a
    unfolding read_u32_def by (rule le4_read) (use that in \<open>simp add: length_slice\<close>)
  have "binary_header v (length bs - 70) = byte_slice 0 8 bs @ byte_slice 8 10 bs @ byte_slice 10 14 bs
      @ byte_slice 14 18 bs @ byte_slice 18 22 bs @ byte_slice 22 38 bs @ byte_slice 38 62 bs @ byte_slice 62 70 bs"
    using rd [of 10] rd [of 14] rd [of 18] ok by (simp add: binary_header_def v le byte_slice_def)
  also have "\<dots> = take 70 bs" by (simp add: slice_join) (simp add: byte_slice_def)
  finally have "encode_vault v = Inr (take 70 bs @ drop 70 bs)"
    by (simp add: encode_vault_def v)
  moreover have "encrypted_wf L v"
    using ok v by (simp add: encrypted_wf_def length_slice SALT_LEN_def NONCE_LEN_def)
  ultimately show ?thesis by simp
qed

text \<open>C2: the workspace format is unambiguous: \<open>decode\_vault\<close> accepts a byte string exactly when
  it is the encoding of a well-formed encrypted workspace, and returns that workspace. A truncated,
  extended or otherwise altered frame is therefore an error, never a different workspace.\<close>

theorem decode_vault_iff_encode:
  "decode_vault L bs = Inr v \<longleftrightarrow> encrypted_wf L v \<and> encode_vault v = Inr bs"
  using decode_sound [of L bs v] decode_encode [of L v] by auto

section \<open>Encryption\<close>

lemma encrypt_with_session_wf:
  assumes ok: "crypto_lib_ok L" and enc: "encrypt_with_session L nonce s d = Inr v"
  shows "ev_params v = cr_params s" "ev_salt v = cr_salt s" "ev_nonce v = nonce"
    "16 \<le> length (ev_ciphertext v)" "decrypt_with_key L (cr_key s) v = Inr d"
proof -
  define e where "e = \<lparr>ev_params = cr_params s, ev_salt = cr_salt s, ev_nonce = nonce,
                       ev_ciphertext = []\<rparr>"
  from enc obtain p c where p: "cl_to_vec L d = Inr p" "cl_new_from_slice L (cr_key s) = None"
    "cl_encrypt L (cr_key s) nonce (binary_header e (length p + 16)) p = Some c"
    "v = e\<lparr>ev_ciphertext := c\<rparr>"
    by (auto simp: encrypt_with_session_def Let_def e_def split: sum.splits option.splits)
  have c: "length c = length p + 16"
    "cl_decrypt L (cr_key s) nonce (binary_header e (length p + 16)) c = Some p"
    "cl_from_slice L p = Some d"
    using ok p unfolding crypto_lib_ok_def by blast+
  show "ev_params v = cr_params s" "ev_salt v = cr_salt s" "ev_nonce v = nonce"
    "16 \<le> length (ev_ciphertext v)"
    using p c by (simp_all add: e_def)
  have "binary_header v (length c) = binary_header e (length p + 16)"
    by (simp add: p c binary_header_def)
  then show "decrypt_with_key L (cr_key s) v = Inr d"
    using p c by (simp add: decrypt_with_key_def e_def)
qed

definition derived_session :: "crypto_lib \<Rightarrow> string \<Rightarrow> crypto_session \<Rightarrow> bool" where
  "derived_session L pw s \<longleftrightarrow>
     derive_key L pw (cr_salt s) (cr_params s) = Inr (cr_key s) \<and> length (cr_salt s) = SALT_LEN"

lemma encrypt_with_params_session:
  assumes "encrypt_with_params L params salt nonce pw d = Inr (v, s)" and "length salt = SALT_LEN"
  shows "derived_session L pw s \<and> cr_params s = params \<and> encrypt_with_session L nonce s d = Inr v
    \<and> char_count pw \<ge> MIN_MASTER_PASSWORD_LEN"
  using assms
  by (auto simp: encrypt_with_params_def and_then_Inr_iff Let_def derived_session_def
      validate_master_password_def)

lemma derived_session_params: "derived_session L pw s \<Longrightarrow> kdf_params_argon2 L (cr_params s) = Inr (cr_params s)"
  unfolding derived_session_def derive_key_def and_then_Inr_iff
  using kdf_params_argon2_Inr by blast

text \<open>What is written under a session can be read back, from the file, with the password.\<close>

lemma session_write_read:
  assumes ok: "crypto_lib_ok L" and s: "derived_session L pw s" and n: "length nonce = NONCE_LEN"
    and enc: "encrypt_with_session L nonce s d = Inr v" and b: "encode_vault v = Inr b"
  shows "decode_vault L b = Inr v \<and> decrypt_with_password L pw v = Inr (d, s)
    \<and> decrypt_with_key L (cr_key s) v = Inr d"
proof -
  note e = encrypt_with_session_wf [OF ok enc]
  have "encrypted_wf L v"
    using s n e derived_session_params [OF s] by (simp add: encrypted_wf_def derived_session_def)
  then have "decode_vault L b = Inr v" using decode_encode b by fastforce
  moreover have "decrypt_with_password L pw v = Inr (d, s)"
    using s e by (simp add: decrypt_with_password_def derived_session_def)
  ultimately show ?thesis using e(5) by simp
qed

lemma decrypt_with_password_session:
  assumes "decrypt_with_password L pw v = Inr (d, s)" and "length (ev_salt v) = SALT_LEN"
  shows "derived_session L pw s \<and> cr_salt s = ev_salt v \<and> cr_params s = ev_params v
    \<and> decrypt_with_key L (cr_key s) v = Inr d"
  using assms by (auto simp: decrypt_with_password_def and_then_Inr_iff derived_session_def)

text \<open>C3: whatever is encrypted with a password and written in the binary format is read back
  with the same password, as the same data and the same session (key, salt and parameters), and
  also with the session's key alone.\<close>

theorem encrypt_decrypt_roundtrip:
  assumes "crypto_lib_ok L" and "length salt = SALT_LEN" and "length nonce = NONCE_LEN"
    and "encrypt_with_password L salt nonce pw d = Inr (v, s)"
  shows "\<exists>b. encode_vault v = Inr b \<and> decode_vault L b = Inr v
    \<and> decrypt_with_password L pw v = Inr (d, s) \<and> decrypt_with_key L (cr_key s) v = Inr d"
proof -
  note s = encrypt_with_params_session [OF assms(4) [unfolded encrypt_with_password_def] assms(2)]
  obtain b where b: "encode_vault v = Inr b" by (simp add: encode_vault_def)
  show ?thesis using session_write_read [OF assms(1) _ assms(3) _ b] s b by blast
qed

text \<open>A concrete instance of the crates' functions: a keyed additive tag instead of Poly1305, and
  a serialiser that knows one workspace.\<close>

definition demo_data :: vault_data where
  "demo_data = vault_with_default_group ''g'' ''t'' ''t'' ''t''"

definition demo_tag :: "bytes \<Rightarrow> bytes \<Rightarrow> bytes \<Rightarrow> bytes \<Rightarrow> bytes" where
  "demo_tag k n a m = replicate 16 (sum_list (k @ n @ a @ m))"

definition demo_lib :: crypto_lib where
  "demo_lib =
     \<lparr>cl_params_new = (\<lambda>p. if kp_t_cost p = 0 then Some ''t'' else None),
      cl_hash_password_into = (\<lambda>p pw salt. Inr (replicate 32 (of_nat (length pw) + sum_list salt))),
      cl_new_from_slice = (\<lambda>k. if length k = KEY_LEN then None else Some ''key''),
      cl_encrypt = (\<lambda>k n a m. Some (m @ demo_tag k n a m)),
      cl_decrypt = (\<lambda>k n a c. let m = take (length c - 16) c in
                      if c = m @ demo_tag k n a m then Some m else None),
      cl_to_vec = (\<lambda>d. if d = demo_data then Inr [0x7B, 0x7D] else Inl ''unsupported''),
      cl_from_slice = (\<lambda>b. if b = [0x7B, 0x7D] then Some demo_data else None)\<rparr>"

lemma demo_lib_ok: "crypto_lib_ok demo_lib"
  by (auto simp: crypto_lib_ok_def demo_lib_def demo_tag_def Let_def split: if_splits)

definition demo_session :: crypto_session where
  "demo_session = \<lparr>cr_key = replicate 32 (22 :: byte), cr_salt = replicate 16 1,
                   cr_params = KDF_PARAMS_CURRENT\<rparr>"

lemma demo_encrypt:
  "\<exists>v. encrypt_with_password demo_lib (replicate 16 1) (replicate 24 7) ''secret'' demo_data
       = Inr (v, demo_session)"
proof -
  have "char_count ''secret'' = 6" by (simp add: char_count_def is_cont_def byte_of_def byte_in_def)
  then show ?thesis
    by (simp add: encrypt_with_password_def encrypt_with_params_def validate_master_password_def
        MIN_MASTER_PASSWORD_LEN_def derive_key_def kdf_params_argon2_def KDF_PARAMS_CURRENT_def
        demo_lib_def encrypt_with_session_def demo_session_def Let_def KEY_LEN_def sum_list_replicate
        guard_that_def)
qed

theorem encrypt_decrypt_roundtrip_witness:
  "\<exists>v b. encrypt_with_password demo_lib (replicate 16 1) (replicate 24 7) ''secret'' demo_data
            = Inr (v, demo_session)
     \<and> encode_vault v = Inr b \<and> decode_vault demo_lib b = Inr v
     \<and> decrypt_with_password demo_lib ''secret'' v = Inr (demo_data, demo_session)"
proof -
  obtain v where v: "encrypt_with_password demo_lib (replicate 16 1) (replicate 24 7) ''secret''
                       demo_data = Inr (v, demo_session)" using demo_encrypt by blast
  from encrypt_decrypt_roundtrip [OF demo_lib_ok _ _ v] v show ?thesis
    by (auto simp: SALT_LEN_def NONCE_LEN_def)
qed

text \<open>Sessions of password workspaces count as slow, those of built-in-key workspaces do not.\<close>

lemma is_slow_current: "cr_params s = KDF_PARAMS_CURRENT \<Longrightarrow> crypto_session_is_slow s"
  by (simp add: crypto_session_is_slow_def KDF_PARAMS_CURRENT_def KDF_PARAMS_FAST_def)

lemma is_slow_fast: "cr_params s = KDF_PARAMS_FAST \<Longrightarrow> \<not> crypto_session_is_slow s"
  by (simp add: crypto_session_is_slow_def KDF_PARAMS_FAST_def)

end
