(* ===== verification/Paths.thy ===== *)
theory Paths
  imports Rust_Prelude
begin

text \<open>
  The part of \<open>std::path\<close> the program uses, for the Unix builds (one separator, no prefixes):
  a path is the list of its components. The Windows variants under \<open>cfg(windows)\<close> are not
  modelled.
\<close>

datatype component = RootDir | CurDir | ParentDir | Normal string

type_synonym path = "component list"

definition to_component :: "string \<Rightarrow> component" where
  "to_component p = (if p = ''..'' then ParentDir else Normal p)"

text \<open>\<open>Path::components\<close>: repeated separators and \<open>.\<close> vanish, except a leading \<open>.\<close>.\<close>

definition path_body :: "string \<Rightarrow> path" where
  "path_body s = map to_component (filter (\<lambda>p. p \<noteq> [] \<and> p \<noteq> ''.'') (split_on (CHR ''/'') s))"

definition is_absolute :: "string \<Rightarrow> bool" where
  "is_absolute s \<longleftrightarrow> starts_with ''/'' s"

definition path_components :: "string \<Rightarrow> path" where
  "path_components s =
     (if is_absolute s then RootDir # path_body s
      else if hd (split_on (CHR ''/'') s) = ''.'' then CurDir # path_body s
      else path_body s)"

definition path_file_name :: "path \<Rightarrow> string option" where
  "path_file_name p = (if p = [] then None else case last p of Normal n \<Rightarrow> Some n | _ \<Rightarrow> None)"

definition path_parent :: "path \<Rightarrow> path option" where
  "path_parent p = (if p = [] \<or> last p = RootDir then None else Some (butlast p))"

definition path_join :: "path \<Rightarrow> string \<Rightarrow> path" where
  "path_join base s =
     (if is_absolute s then path_components s
      else if base = [] then path_components s else base @ path_body s)"

definition with_file_name :: "path \<Rightarrow> string \<Rightarrow> path" where
  "with_file_name p n = (if path_file_name p = None then p else butlast p) @ [Normal n]"

lemma path_body_no_root: "RootDir \<notin> set (path_body s)" "CurDir \<notin> set (path_body s)"
  by (auto simp: path_body_def to_component_def)

lemma path_body_Normal: "Normal n \<in> set (path_body s) \<Longrightarrow> plain_part n"
  using split_on_no_sep by (auto simp: path_body_def to_component_def plain_part_def split: if_splits)

lemma path_file_name_Some: "path_file_name p = Some n \<longleftrightarrow> p \<noteq> [] \<and> last p = Normal n"
  by (auto simp: path_file_name_def split: component.splits)

lemma path_components_Normal: "Normal n \<in> set (path_components s) \<Longrightarrow> plain_part n"
  using path_body_Normal by (auto simp: path_components_def split: if_splits)

end
