(* ===== verification/Atomic_File.thy ===== *)
theory Atomic_File
  imports App_Errors Paths
begin

text \<open>
  \<open>atomic\_file.rs\<close>: replacing a file through a temporary file and a rename. The file system is a
  map from paths to contents; the system calls may fail, which ones do is the argument
  \<open>io\_faults\<close>. An operation returns the sequence of file systems another process (or a restart
  after a crash) can observe, and its result. Directories are not modelled: a failure to create
  or to use one is a fault of the call.
\<close>

type_synonym 'b fs = "path \<rightharpoonup> 'b list"

record io_faults =
  if_create_dir :: "string option"
  if_open :: "string option"
  if_write :: "(nat \<times> string) option"
  if_sync :: "string option"
  if_rename :: "string option"
  if_remove :: "string option"

definition no_faults :: io_faults where
  "no_faults = \<lparr>if_create_dir = None, if_open = None, if_write = None, if_sync = None,
                if_rename = None, if_remove = None\<rparr>"

section \<open>Operations\<close>

definition create_parent :: "io_faults \<Rightarrow> path \<Rightarrow> unit app_result" where
  "create_parent flt path =
     (case path_parent path of
        None \<Rightarrow> Inr ()
      | Some parent \<Rightarrow>
          if parent = [] then Inr ()
          else (case if_create_dir flt of Some e \<Rightarrow> Inl (Io e) | None \<Rightarrow> Inr ()))"

definition temp_path_for :: "string \<Rightarrow> path \<Rightarrow> path" where
  "temp_path_for uuid path =
     (let file_name = (case path_file_name path of Some n \<Rightarrow> n | None \<Rightarrow> ''helm-data'') in
      with_file_name path (file_name @ ''.helm-'' @ uuid @ ''.tmp''))"

text \<open>\<open>rename(2)\<close>: the target is replaced in one step.\<close>

definition replace_file :: "io_faults \<Rightarrow> path \<Rightarrow> path \<Rightarrow> 'b fs \<Rightarrow> 'b fs \<times> unit app_result" where
  "replace_file flt src target fs =
     (case if_rename flt of
        Some e \<Rightarrow> (fs, Inl (Io e))
      | None \<Rightarrow> (case fs src of
            None \<Rightarrow> (fs, Inl (Io ''not found''))
          | Some c \<Rightarrow> (fs(src := None, target \<mapsto> c), Inr ())))"

definition replace_file_async ::
  "io_faults \<Rightarrow> path \<Rightarrow> path \<Rightarrow> 'b fs \<Rightarrow> 'b fs \<times> unit app_result" where
  "replace_file_async = replace_file"

definition remove_file :: "io_faults \<Rightarrow> path \<Rightarrow> 'b fs \<Rightarrow> 'b fs \<times> unit app_result" where
  "remove_file flt p fs =
     (case if_remove flt of
        Some e \<Rightarrow> (fs, Inl (Io e))
      | None \<Rightarrow> if fs p = None then (fs, Inl (Io ''not found'')) else (fs(p := None), Inr ()))"

text \<open>\<open>write\_all\<close> makes every prefix of the bytes visible in turn.\<close>

definition write_prefixes :: "path \<Rightarrow> 'b list \<Rightarrow> nat \<Rightarrow> 'b fs \<Rightarrow> 'b fs list" where
  "write_prefixes p bs n fs = map (\<lambda>k. fs(p \<mapsto> take k bs)) [0..<Suc n]"

text \<open>The closure of \<open>write\_atomic\<close>: create, write, sync, rename.\<close>

definition write_temp_then_replace ::
  "io_faults \<Rightarrow> path \<Rightarrow> path \<Rightarrow> 'b list \<Rightarrow> 'b fs \<Rightarrow> 'b fs list \<times> unit app_result" where
  "write_temp_then_replace flt tmp path bs fs =
     (case if_open flt of
        Some e \<Rightarrow> ([fs], Inl (Io e))
      | None \<Rightarrow>
          if fs tmp \<noteq> None then ([fs], Inl (Io ''file exists''))
          else (case if_write flt of
              Some (n, e) \<Rightarrow> (fs # write_prefixes tmp bs n fs, Inl (Io e))
            | None \<Rightarrow>
                let written = fs # write_prefixes tmp bs (length bs) fs in
                (case if_sync flt of
                   Some e \<Rightarrow> (written, Inl (Io e))
                 | None \<Rightarrow>
                     let (fs', r) = replace_file flt tmp path (last written) in
                     (written @ [fs'], r))))"

definition write_atomic ::
  "io_faults \<Rightarrow> string \<Rightarrow> path \<Rightarrow> 'b list \<Rightarrow> 'b fs \<Rightarrow> 'b fs list \<times> unit app_result" where
  "write_atomic flt uuid path bs fs =
     (case create_parent flt path of
        Inl e \<Rightarrow> ([fs], Inl e)
      | Inr _ \<Rightarrow>
          let tmp = temp_path_for uuid path;
              (tr, r) = write_temp_then_replace flt tmp path bs fs in
          (case r of
             Inl e \<Rightarrow> (tr @ [fst (remove_file flt tmp (last tr))], Inl e)
           | Inr u \<Rightarrow> (tr, Inr u)))"

text \<open>The asynchronous variant makes the same calls in the same order.\<close>

definition write_atomic_async ::
  "io_faults \<Rightarrow> string \<Rightarrow> path \<Rightarrow> 'b list \<Rightarrow> 'b fs \<Rightarrow> 'b fs list \<times> unit app_result" where
  "write_atomic_async = write_atomic"

text \<open>\<open>hard\_link\<close> (fails on an existing target) and then removal of the source.\<close>

definition move_file_no_replace_async ::
  "io_faults \<Rightarrow> path \<Rightarrow> path \<Rightarrow> 'b fs \<Rightarrow> 'b fs list \<times> unit app_result" where
  "move_file_no_replace_async flt src target fs =
     (case if_rename flt of
        Some e \<Rightarrow> ([fs], Inl (Io e))
      | None \<Rightarrow>
          (case fs src of
             None \<Rightarrow> ([fs], Inl (Io ''not found''))
           | Some c \<Rightarrow>
               if fs target \<noteq> None then ([fs], Inl (Io ''file exists''))
               else let linked = fs(target \<mapsto> c); (fs', r) = remove_file flt src linked in
                 ([fs, linked, fs'], r)))"

section \<open>Properties\<close>

lemma temp_path_neq: "temp_path_for uuid path \<noteq> path"
proof
  assume eq: "temp_path_for uuid path = path"
  have "last (temp_path_for uuid path)
      = Normal ((case path_file_name path of Some n \<Rightarrow> n | None \<Rightarrow> ''helm-data'')
                @ ''.helm-'' @ uuid @ ''.tmp'')"
    by (simp add: temp_path_for_def with_file_name_def)
  then have l: "last path = Normal ((case path_file_name path of Some n \<Rightarrow> n | None \<Rightarrow> ''helm-data'')
                @ ''.helm-'' @ uuid @ ''.tmp'')"
    using eq by simp
  have ne: "path \<noteq> []" using eq by (auto simp: temp_path_for_def with_file_name_def)
  show False
  proof (cases "path_file_name path")
    case None
    obtain m where "last path = Normal m" using l by blast
    then have "path_file_name path = Some m" using ne by (simp add: path_file_name_Some)
    with None show ?thesis by simp
  next
    case (Some n)
    then have "last path = Normal n" by (simp add: path_file_name_Some)
    with l Some show ?thesis by simp
  qed
qed

text \<open>States of a write: only the temporary file differs, or the target has been replaced.\<close>

definition mid_write :: "path \<Rightarrow> path \<Rightarrow> 'b fs \<Rightarrow> 'b fs \<Rightarrow> bool" where
  "mid_write tmp path fs s \<longleftrightarrow> (\<forall>q. q \<noteq> tmp \<longrightarrow> s q = fs q)"

lemma last_write_prefixes: "last (fs # write_prefixes p bs n fs) = fs(p \<mapsto> take n bs)"
  by (simp add: write_prefixes_def)

lemma write_prefixes_mid: "s \<in> set (fs # write_prefixes tmp bs n fs) \<Longrightarrow> mid_write tmp path fs s"
  by (auto simp: write_prefixes_def mid_write_def)

lemma write_temp_then_replace_spec:
  assumes w: "write_temp_then_replace flt tmp path bs fs = (tr, r)" and neq: "tmp \<noteq> path"
  shows "tr \<noteq> [] \<and>
    (case r of
       Inl e \<Rightarrow> (\<forall>s\<in>set tr. mid_write tmp path fs s)
     | Inr u \<Rightarrow> fs tmp = None \<and> last tr = fs(path \<mapsto> bs)
         \<and> (\<forall>s\<in>set (butlast tr). mid_write tmp path fs s))"
proof -
  have self: "mid_write tmp path fs fs" by (simp add: mid_write_def)
  have mid: "\<forall>s\<in>set (fs # write_prefixes tmp bs n fs). mid_write tmp path fs s" for n
    using write_prefixes_mid by blast
  have fin: "fs(tmp := None, path \<mapsto> bs) = fs(path \<mapsto> bs)" if "fs tmp = None"
    using that neq by auto
  have twist: "(fs(tmp \<mapsto> c))(tmp := None, path \<mapsto> bs) = fs(tmp := None, path \<mapsto> bs)" for c
    using neq by auto
  have lst: "last (fs # write_prefixes tmp bs (length bs) fs) = fs(tmp \<mapsto> bs)"
    using last_write_prefixes [of fs tmp bs "length bs"] by simp
  show ?thesis
    using w mid [of "length bs"] mid self fin twist neq
    unfolding write_temp_then_replace_def Let_def lst replace_file_def
    by (auto split: option.splits if_splits prod.splits simp del: fun_upd_apply)
       (auto simp: mid_write_def)
qed

lemma write_atomic_spec:
  assumes w: "write_atomic flt uuid path bs fs = (tr, r)"
  defines "tmp \<equiv> temp_path_for uuid path"
  shows "tr \<noteq> [] \<and>
    (case r of
       Inl e \<Rightarrow> (\<forall>s\<in>set tr. mid_write tmp path fs s)
     | Inr u \<Rightarrow> fs tmp = None \<and> last tr = fs(path \<mapsto> bs)
         \<and> (\<forall>s\<in>set (butlast tr). mid_write tmp path fs s))"
proof (cases "create_parent flt path")
  case (Inl e)
  with w have "tr = [fs]" "r = Inl e" by (auto simp: write_atomic_def)
  then show ?thesis by (simp add: mid_write_def)
next
  case (Inr u)
  obtain tr0 r0 where w0: "write_temp_then_replace flt tmp path bs fs = (tr0, r0)" by fastforce
  note spec = write_temp_then_replace_spec [OF w0 temp_path_neq [of uuid path, folded tmp_def]]
  show ?thesis
  proof (cases r0)
    case (Inl e)
    with w Inr w0 have tr: "tr = tr0 @ [fst (remove_file flt tmp (last tr0))]" "r = Inl e"
      by (auto simp: write_atomic_def tmp_def)
    have "mid_write tmp path fs (last tr0)" using spec Inl by auto
    then have "mid_write tmp path fs (fst (remove_file flt tmp (last tr0)))"
      by (auto simp: remove_file_def mid_write_def split: option.splits)
    with spec Inl tr show ?thesis by auto
  next
    case (Inr v)
    with w \<open>create_parent flt path = Inr u\<close> w0 have "tr = tr0" "r = Inr v"
      by (auto simp: write_atomic_def tmp_def)
    with spec Inr show ?thesis by auto
  qed
qed

lemma write_atomic_target:
  "write_atomic flt uuid path bs fs = (tr, Inr u) \<Longrightarrow> last tr = fs(path \<mapsto> bs)"
  "write_atomic flt uuid path bs fs = (tr, Inl e) \<Longrightarrow> (last tr) path = fs path"
  using write_atomic_spec [of flt uuid path bs fs tr "Inr u"]
    write_atomic_spec [of flt uuid path bs fs tr "Inl e"] temp_path_neq [of uuid path]
  by (auto simp: mid_write_def)

text \<open>C4: \<open>write\_atomic\<close> never exposes a half-written target. In every file system observable
  while it runs the target holds either its old or exactly the new content, and every file but
  the target and the temporary one is untouched; when it succeeds the target holds the new
  content and no temporary file is left; when it fails the target holds the old content.\<close>

theorem write_atomic_all_or_nothing:
  assumes "write_atomic flt uuid path bs fs = (tr, r)"
  shows "(\<forall>s\<in>set tr. (s path = fs path \<or> s path = Some bs)
            \<and> (\<forall>q. q \<noteq> path \<and> q \<noteq> temp_path_for uuid path \<longrightarrow> s q = fs q))
    \<and> (r = Inr () \<longrightarrow> last tr = fs(path \<mapsto> bs) \<and> fs (temp_path_for uuid path) = None)
    \<and> (r \<noteq> Inr () \<longrightarrow> (last tr) path = fs path)"
proof (cases r)
  case (Inl e)
  with write_atomic_spec [OF assms] have "tr \<noteq> []"
    "\<forall>s\<in>set tr. mid_write (temp_path_for uuid path) path fs s" by auto
  with Inl show ?thesis using temp_path_neq [of uuid path] by (auto simp: mid_write_def)
next
  case (Inr u)
  with write_atomic_spec [OF assms] have ok: "tr \<noteq> []" "fs (temp_path_for uuid path) = None"
    "last tr = fs(path \<mapsto> bs)"
    "\<forall>s\<in>set (butlast tr). mid_write (temp_path_for uuid path) path fs s" by auto
  have "set tr = insert (last tr) (set (butlast tr))"
    using ok(1) by (metis append_butlast_last_id Un_insert_right list.simps(15) set_append
        set_empty2 sup_bot_right list.set(1))
  with ok Inr show ?thesis using temp_path_neq [of uuid path] by (auto simp: mid_write_def)
qed

theorem write_atomic_all_or_nothing_witness:
  "\<exists>tr. write_atomic no_faults ''u'' [Normal ''v''] [1, 2] [[Normal ''v''] \<mapsto> [7::nat]]
          = (tr, Inr ())
    \<and> last tr = [[Normal ''v''] \<mapsto> [1, 2]]
    \<and> (\<forall>s\<in>set tr. s [Normal ''v''] = Some [7] \<or> s [Normal ''v''] = Some [1, 2])"
proof -
  let ?fs = "[[Normal ''v''] \<mapsto> [7::nat]]"
  obtain tr r where w: "write_atomic no_faults ''u'' [Normal ''v''] [1, 2] ?fs = (tr, r)" by fastforce
  then have "r = Inr ()"
    by (auto simp: write_atomic_def create_parent_def no_faults_def path_parent_def Let_def
        temp_path_for_def path_file_name_def with_file_name_def write_temp_then_replace_def
        write_prefixes_def replace_file_def)
  with w write_atomic_all_or_nothing [OF w] show ?thesis by auto
qed

text \<open>\<open>move\_file\_no\_replace\_async\<close> never overwrites: an existing target keeps its content
  in every observable state, and after success the target holds what the source held.\<close>

theorem move_file_no_replace_safe:
  assumes "move_file_no_replace_async flt src target fs = (tr, r)"
  shows "(fs target \<noteq> None \<longrightarrow> r \<noteq> Inr () \<and> (\<forall>s\<in>set tr. s = fs))
    \<and> (r = Inr () \<longrightarrow> fs target = None \<and> fs src \<noteq> None
         \<and> last tr = fs(target := fs src, src := None))"
  using assms
  by (auto simp: move_file_no_replace_async_def remove_file_def Let_def
      split: option.splits if_splits prod.splits)

theorem move_file_no_replace_safe_witness:
  "\<exists>tr r. move_file_no_replace_async no_faults [Normal ''a''] [Normal ''b'']
            [[Normal ''a''] \<mapsto> [1::nat], [Normal ''b''] \<mapsto> [2]] = (tr, r) \<and> r \<noteq> Inr ()"
proof -
  let ?fs = "[[Normal ''a''] \<mapsto> [1::nat], [Normal ''b''] \<mapsto> [2]]"
  obtain tr r where w: "move_file_no_replace_async no_faults [Normal ''a''] [Normal ''b''] ?fs
                          = (tr, r)" by fastforce
  have "?fs [Normal ''b''] \<noteq> None" by simp
  with w move_file_no_replace_safe [OF w] show ?thesis by blast
qed

end
