(* ===== verification/Backup.thy ===== *)
theory Backup
  imports Crypto Atomic_File
begin

text \<open>
  \<open>backup.rs\<close>, its own logic: which targets a backup run writes and when, how the outcomes are
  merged, which files, WebDAV URLs and S3 objects a cleanup may delete, how URLs and keys are
  built, and the scanner for the XML listings. The \<open>url\<close>, \<open>zip\<close> and \<open>chrono\<close> crates and the
  network are arguments: \<open>parse\_url\<close>, \<open>zip\_open\<close>, \<open>parse\_time\<close> (nanoseconds) and the
  results of the uploads.
\<close>

definition BACKUP_PAYLOAD_NAME :: string where "BACKUP_PAYLOAD_NAME = ''vault.rpvault''"

datatype cleanup_target =
    CleanupLocal path
  | CleanupWebdav webdav_backup_config string
  | CleanupS3 s3_backup_config string

section \<open>Targets and schedule\<close>

definition configured_local_backup_directory :: "backup_settings \<Rightarrow> string option" where
  "configured_local_backup_directory st =
     (case bs_local_directory st of
        None \<Rightarrow> None
      | Some dir \<Rightarrow> if trim dir = [] then None else Some (trim dir))"

definition configured_cloud_backup :: "cloud_backup_settings \<Rightarrow> bool" where
  "configured_cloud_backup cloud =
     (if cb_kind cloud = ''webdav'' then trim (wd_endpoint (cb_webdav cloud)) \<noteq> []
      else if cb_kind cloud = ''s3'' then
        trim (s3_endpoint (cb_s3 cloud)) \<noteq> [] \<and> trim (s3_region (cb_s3 cloud)) \<noteq> []
        \<and> trim (s3_bucket (cb_s3 cloud)) \<noteq> [] \<and> trim (s3_access_key_id (cb_s3 cloud)) \<noteq> []
        \<and> trim (s3_secret_access_key (cb_s3 cloud)) \<noteq> []
      else False)"

definition NANOS_PER_HOUR :: int where "NANOS_PER_HOUR = 3600 * 1000000000"

definition backup_frequency_duration :: "string \<Rightarrow> int option" where
  "backup_frequency_duration frequency =
     (if frequency = ''hourly'' then Some NANOS_PER_HOUR
      else if frequency = ''daily'' then Some (24 * NANOS_PER_HOUR)
      else if frequency = ''weekly'' then Some (7 * 24 * NANOS_PER_HOUR)
      else None)"

definition should_run_target_auto_backup ::
  "(string \<Rightarrow> int option) \<Rightarrow> int \<Rightarrow> string \<Rightarrow> int \<Rightarrow> backup_record list \<Rightarrow> bool" where
  "should_run_target_auto_backup parse_time now target_kind interval records =
     (let times = List.map_filter (\<lambda>r. parse_time (br_created_at r))
                    (filter (\<lambda>r. br_status r = ''success'' \<and> br_target_kind r = target_kind) records)
      in if times = [] then True else now - Max (set times) \<ge> interval)"

definition auto_backup_due_target_kinds ::
  "(string \<Rightarrow> int option) \<Rightarrow> int \<Rightarrow> backup_settings \<Rightarrow> backup_record list \<Rightarrow> string list" where
  "auto_backup_due_target_kinds parse_time now st records =
     (case backup_frequency_duration (bs_frequency st) of
        None \<Rightarrow> []
      | Some interval \<Rightarrow>
          let kinds =
            (if bs_auto_enabled st \<and> configured_local_backup_directory st \<noteq> None
             then [''local''] else [])
            @ (if cb_auto_enabled (bs_cloud st) \<and> configured_cloud_backup (bs_cloud st)
               then [cb_kind (bs_cloud st)] else [])
          in filter (\<lambda>k. should_run_target_auto_backup parse_time now k interval records) kinds)"

definition target_selected :: "string list option \<Rightarrow> string \<Rightarrow> bool" where
  "target_selected target_kinds target_kind =
     (case target_kinds of Some kinds \<Rightarrow> target_kind \<in> set kinds | None \<Rightarrow> True)"

fun merge_backup_outcomes :: "backup_record list \<Rightarrow> backup_record list \<Rightarrow> backup_record list" where
  "merge_backup_outcomes records [] = records"
| "merge_backup_outcomes records (outcome # outcomes) =
     (if \<exists>r\<in>set records. br_target_kind r = br_target_kind outcome
            \<and> br_target_path r = br_target_path outcome \<and> br_status r = br_status outcome
      then merge_backup_outcomes records outcomes
      else merge_backup_outcomes (records @ [outcome]) outcomes)"

text \<open>The listing of the configured targets is an argument of \<open>merge\_configured\_backup\_records\<close>.\<close>

definition merge_configured_backup_records ::
  "backup_record list app_result \<Rightarrow> backup_record list \<Rightarrow> backup_record list \<Rightarrow> backup_record list" where
  "merge_configured_backup_records listing existing outcomes =
     (case listing of
        Inr records \<Rightarrow> merge_backup_outcomes records outcomes
      | Inl _ \<Rightarrow> merge_backup_outcomes existing outcomes)"

section \<open>One backup run\<close>

text \<open>What the run gets from outside: the vault file, the package builder, the results of the local
  write and of the uploads (the target on success, the error text on failure), ids and time.\<close>

record backup_env =
  be_vault_bytes :: "bytes app_result"
  be_build_package :: "bytes \<Rightarrow> bytes app_result"
  be_write_local :: "string \<Rightarrow> bytes \<Rightarrow> string + unit"
  be_upload_webdav :: "webdav_backup_config \<Rightarrow> string \<Rightarrow> bytes \<Rightarrow> string + string"
  be_upload_s3 :: "s3_backup_config \<Rightarrow> string \<Rightarrow> bytes \<Rightarrow> string + string"
  be_uuid_local :: string
  be_uuid_cloud :: string
  be_ts :: string

text \<open>\<open>directory.join(file\_name)\<close> shown as text.\<close>

definition join_display :: "string \<Rightarrow> string \<Rightarrow> string" where
  "join_display dir n =
     (if is_absolute n then n else if ends_with ''/'' dir then dir @ n else dir @ ''/'' @ n)"

definition write_local_backup :: "backup_env \<Rightarrow> string \<Rightarrow> string \<Rightarrow> bytes \<Rightarrow> nat \<Rightarrow> backup_record" where
  "write_local_backup E directory file_name package sz =
     (let target = join_display directory file_name in
      case be_write_local E target package of
        Inr _ \<Rightarrow> backup_record_success (be_uuid_local E) (be_ts E) file_name ''local'' target sz
      | Inl err \<Rightarrow> backup_record_failed (be_uuid_local E) (be_ts E) file_name ''local'' target err)"

definition upload_cloud_backup ::
  "backup_env \<Rightarrow> cloud_backup_settings \<Rightarrow> string \<Rightarrow> bytes \<Rightarrow> backup_record" where
  "upload_cloud_backup E cloud file_name bs =
     (if cb_kind cloud = ''webdav'' then
        (case be_upload_webdav E (cb_webdav cloud) file_name bs of
           Inr target \<Rightarrow> backup_record_success (be_uuid_cloud E) (be_ts E) file_name ''webdav'' target
                           (length bs)
         | Inl err \<Rightarrow> backup_record_failed (be_uuid_cloud E) (be_ts E) file_name ''webdav''
                       (wd_endpoint (cb_webdav cloud)) err)
      else if cb_kind cloud = ''s3'' then
        (case be_upload_s3 E (cb_s3 cloud) file_name bs of
           Inr target \<Rightarrow> backup_record_success (be_uuid_cloud E) (be_ts E) file_name ''s3'' target
                           (length bs)
         | Inl err \<Rightarrow> backup_record_failed (be_uuid_cloud E) (be_ts E) file_name ''s3''
                       (s3_bucket (cb_s3 cloud)) err)
      else backup_record_failed (be_uuid_cloud E) (be_ts E) file_name ''cloud'' []
             ''invalid cloud backup kind'')"

definition run_backup ::
  "backup_env \<Rightarrow> backup_settings \<Rightarrow> string \<Rightarrow> string list option \<Rightarrow> bool
   \<Rightarrow> backup_record list app_result" where
  "run_backup E st file_name target_kinds automatic =
     and_then (be_vault_bytes E) (\<lambda>vault_bytes.
     and_then (be_build_package E vault_bytes) (\<lambda>package.
       let local =
             (if (\<not> automatic \<or> bs_auto_enabled st) \<and> target_selected target_kinds ''local''
              then (case configured_local_backup_directory st of
                      Some dir \<Rightarrow> [write_local_backup E dir file_name package (length package)]
                    | None \<Rightarrow> [])
              else []);
           cloud =
             (if (\<not> automatic \<or> cb_auto_enabled (bs_cloud st))
                 \<and> target_selected target_kinds (cb_kind (bs_cloud st))
                 \<and> configured_cloud_backup (bs_cloud st)
              then [upload_cloud_backup E (bs_cloud st) file_name package] else [])
       in if local @ cloud = [] then Inl (InvalidInput ''no backup target configured'')
          else Inr (local @ cloud)))"

section \<open>Reading a backup package\<close>

definition is_ascii_whitespace :: "byte \<Rightarrow> bool" where
  "is_ascii_whitespace b \<longleftrightarrow> b \<in> {0x20, 0x09, 0x0A, 0x0C, 0x0D}"

text \<open>\<open>zip\_open\<close> is the archive reader: the error text, or the entries by name.\<close>

definition extract_backup_payload ::
  "(bytes \<Rightarrow> string + (string \<Rightarrow> bytes option)) \<Rightarrow> bytes \<Rightarrow> bytes app_result" where
  "extract_backup_payload zip_open bs =
     (if take 8 bs = BINARY_MAGIC \<or> List.find (\<lambda>b. \<not> is_ascii_whitespace b) bs = Some 0x7B
      then Inr bs
      else (case zip_open bs of
              Inl err \<Rightarrow> Inl (InvalidInput (''cannot open backup package: '' @ err))
            | Inr entries \<Rightarrow>
                ok_or (entries BACKUP_PAYLOAD_NAME)
                  (InvalidInput ''backup package has no vault.rpvault'')))"

section \<open>URLs and object keys\<close>

definition join_remote_url :: "string \<Rightarrow> string \<Rightarrow> string \<Rightarrow> string app_result" where
  "join_remote_url endpoint remote_path file_name =
     (let endpoint = trim_end_char (CHR ''/'') (trim endpoint) in
      if endpoint = [] then Inl (InvalidInput ''WebDAV endpoint must not be empty'')
      else let remote_path = trim_char (CHR ''/'') (trim remote_path) in
        if remote_path = [] then Inr (endpoint @ ''/'' @ file_name)
        else Inr (endpoint @ ''/'' @ remote_path @ ''/'' @ file_name))"

definition webdav_collection_url :: "string \<Rightarrow> string \<Rightarrow> string app_result" where
  "webdav_collection_url endpoint remote_path =
     (let endpoint = trim_end_char (CHR ''/'') (trim endpoint) in
      if endpoint = [] then Inl (InvalidInput ''WebDAV endpoint must not be empty'')
      else let remote_path = trim_char (CHR ''/'') (trim remote_path) in
        if remote_path = [] then Inr (endpoint @ ''/'')
        else Inr (endpoint @ ''/'' @ remote_path @ ''/''))"

definition join_object_key :: "string \<Rightarrow> string \<Rightarrow> string" where
  "join_object_key pre file_name =
     (let pre = trim_char (CHR ''/'') (trim pre) in
      if pre = [] then file_name else pre @ ''/'' @ file_name)"

definition unreserved :: "char \<Rightarrow> bool" where
  "unreserved c \<longleftrightarrow>
     (CHR ''A'' \<le> c \<and> c \<le> CHR ''Z'') \<or> (CHR ''a'' \<le> c \<and> c \<le> CHR ''z'')
     \<or> (CHR ''0'' \<le> c \<and> c \<le> CHR ''9'') \<or> c \<in> {CHR ''-'', CHR ''_'', CHR ''.'', CHR ''~''}"

definition hex_digits :: string where "hex_digits = ''0123456789ABCDEF''"

definition encode_byte :: "char \<Rightarrow> string" where
  "encode_byte c =
     (if unreserved c then [c]
      else [CHR ''%'', hex_digits ! (of_char c div 16), hex_digits ! (of_char c mod 16)])"

definition encode_segment :: "string \<Rightarrow> string" where
  "encode_segment segment = concat (map encode_byte segment)"

definition encode_path :: "string \<Rightarrow> string" where
  "encode_path p = join_with ''/'' (map encode_segment (split_on (CHR ''/'') p))"

definition file_name_from_path :: "string \<Rightarrow> string" where
  "file_name_from_path p =
     replace_str ''%20'' '' '' (last (split_on (CHR ''/'') (trim_end_char (CHR ''/'') p)))"

section \<open>What a cleanup may delete\<close>

definition is_backup_file :: "string \<Rightarrow> bool" where
  "is_backup_file file_name =
     (let lower = to_ascii_lowercase file_name in
      starts_with ''helm-backup-'' lower
      \<and> (ends_with ''.zip'' lower \<or> ends_with ''.rpvault'' lower))"

text \<open>The loop of \<open>normalize\_absolute\_path\<close>: \<open>..\<close> pops and fails at the root.\<close>

fun normalize_from :: "path \<Rightarrow> path \<Rightarrow> path option" where
  "normalize_from acc [] = Some acc"
| "normalize_from acc (CurDir # cs) = normalize_from acc cs"
| "normalize_from acc (ParentDir # cs) =
     (case path_parent acc of None \<Rightarrow> None | Some acc' \<Rightarrow> normalize_from acc' cs)"
| "normalize_from acc (RootDir # cs) = normalize_from [RootDir] cs"
| "normalize_from acc (Normal n # cs) = normalize_from (acc @ [Normal n]) cs"

definition normalize_absolute_path :: "string option \<Rightarrow> string \<Rightarrow> path option" where
  "normalize_absolute_path cwd p =
     (if is_absolute p then normalize_from [] (path_components p)
      else (case cwd of
              None \<Rightarrow> None
            | Some d \<Rightarrow> normalize_from [] (path_join (path_components d) p)))"

text \<open>The Unix branches of \<open>file\_names\_equal\<close> and \<open>paths\_equal\<close> are plain equality.\<close>

definition local_backup_delete_path ::
  "string option \<Rightarrow> backup_settings \<Rightarrow> backup_record \<Rightarrow> path option" where
  "local_backup_delete_path cwd st record =
     (if br_target_kind record \<noteq> ''local'' \<or> br_status record \<noteq> ''success'' then None
      else case configured_local_backup_directory st of
        None \<Rightarrow> None
      | Some dir \<Rightarrow>
          (let target = trim (br_target_path record) in
           case path_file_name (path_components target) of
             None \<Rightarrow> None
           | Some target_name \<Rightarrow>
               if \<not> is_backup_file target_name \<or> target_name \<noteq> br_file_name record then None
               else (case (normalize_absolute_path cwd dir, normalize_absolute_path cwd target) of
                       (Some d, Some t) \<Rightarrow>
                         (case path_parent t of
                            None \<Rightarrow> None
                          | Some parent \<Rightarrow> if parent \<noteq> d then None else Some t)
                     | _ \<Rightarrow> None)))"

text \<open>The fields of a parsed URL that \<open>urls\_equal\<close> compares, and its text.\<close>

record url =
  ur_scheme :: string
  ur_host :: "string option"
  ur_port_or_known_default :: "16 word option"
  ur_username :: string
  ur_password :: "string option"
  ur_path :: string
  ur_query :: "string option"
  ur_fragment :: "string option"
  ur_text :: string

definition urls_equal :: "url \<Rightarrow> url \<Rightarrow> bool" where
  "urls_equal l r \<longleftrightarrow>
     to_ascii_lowercase (ur_scheme l) = to_ascii_lowercase (ur_scheme r)
     \<and> map_option to_ascii_lowercase (ur_host l) = map_option to_ascii_lowercase (ur_host r)
     \<and> ur_port_or_known_default l = ur_port_or_known_default r
     \<and> ur_username l = ur_username r \<and> ur_password l = ur_password r \<and> ur_path l = ur_path r
     \<and> ur_query l = ur_query r \<and> ur_fragment l = ur_fragment r"

definition webdav_backup_delete_target ::
  "(string \<Rightarrow> url option) \<Rightarrow> webdav_backup_config \<Rightarrow> backup_record \<Rightarrow> string option" where
  "webdav_backup_delete_target parse_url config record =
     (case join_remote_url (wd_endpoint config) (wd_remote_path config) (br_file_name record) of
        Inl _ \<Rightarrow> None
      | Inr u \<Rightarrow>
          (case parse_url u of
             None \<Rightarrow> None
           | Some expected \<Rightarrow>
               (case parse_url (trim (br_target_path record)) of
                  None \<Rightarrow> None
                | Some target \<Rightarrow> if urls_equal target expected then Some (ur_text target) else None)))"

definition s3_key_from_target :: "s3_backup_config \<Rightarrow> string \<Rightarrow> string app_result" where
  "s3_key_from_target config target_path =
     (let expected = ''s3://'' @ trim (s3_bucket config) @ ''/'' in
      if starts_with expected target_path then Inr (drop (length expected) target_path)
      else Inl (InvalidInput ''S3 backup path does not match the bucket''))"

definition s3_backup_delete_key :: "s3_backup_config \<Rightarrow> backup_record \<Rightarrow> string option" where
  "s3_backup_delete_key config record =
     (case s3_key_from_target config (trim (br_target_path record)) of
        Inl _ \<Rightarrow> None
      | Inr key \<Rightarrow> if key = join_object_key (s3_prefix config) (br_file_name record)
                    then Some key else None)"

text \<open>What the cleanup depends on from outside: the URL parser and the working directory.\<close>

record cleanup_env =
  ce_parse_url :: "string \<Rightarrow> url option"
  ce_cwd :: "string option"

definition backup_cleanup_target ::
  "cleanup_env \<Rightarrow> backup_settings \<Rightarrow> backup_record \<Rightarrow> cleanup_target option" where
  "backup_cleanup_target C st record =
     (if br_status record \<noteq> ''success'' \<or> \<not> is_backup_file (br_file_name record) then None
      else if br_target_kind record = ''local'' then
        map_option CleanupLocal (local_backup_delete_path (ce_cwd C) st record)
      else if br_target_kind record = ''webdav'' then
        map_option (CleanupWebdav (cb_webdav (bs_cloud st)))
          (webdav_backup_delete_target (ce_parse_url C) (cb_webdav (bs_cloud st)) record)
      else if br_target_kind record = ''s3'' then
        map_option (CleanupS3 (cb_s3 (bs_cloud st))) (s3_backup_delete_key (cb_s3 (bs_cloud st)) record)
      else None)"

section \<open>The XML scanner\<close>

definition raw_tag_name :: "string \<Rightarrow> nat \<Rightarrow> nat \<Rightarrow> string" where
  "raw_tag_name input start open_end =
     (let tokens = split_whitespace (take (open_end - (start + 1)) (drop (start + 1) input)) in
      trim_end_char (CHR ''/'') (if tokens = [] then [] else hd tokens))"

text \<open>\<open>find\_open\_tag\<close>: the next opening tag with the given local name at or after a byte offset,
  as its start, its raw name and the index of its closing bracket.\<close>

function find_open_tag :: "string \<Rightarrow> string \<Rightarrow> nat \<Rightarrow> (nat \<times> string \<times> nat) option" where
  "find_open_tag input local_name offset =
     (case find_char (CHR ''<'') (drop offset input) of
        None \<Rightarrow> None
      | Some rel_start \<Rightarrow>
          (let start = offset + rel_start in
           if starts_with ''/'' (drop (start + 1) input) \<or> starts_with ''?'' (drop (start + 1) input)
           then find_open_tag input local_name (start + 1)
           else (case find_char (CHR ''>'') (drop start input) of
                   None \<Rightarrow> None
                 | Some k \<Rightarrow>
                     (let open_end = start + k;
                          raw = raw_tag_name input start open_end;
                          name = last (split_on (CHR '':'') raw)
                      in if to_ascii_lowercase name = to_ascii_lowercase local_name
                         then Some (start, raw, open_end)
                         else find_open_tag input local_name (open_end + 1)))))"
  by pat_completeness auto
termination
  by (relation "measure (\<lambda>(input, n, offset). length input - offset)")
     (auto dest!: find_char_less)

declare find_open_tag.simps [simp del]

lemma find_open_tag_bounds:
  "find_open_tag input n offset = Some (start, raw, open_end) \<Longrightarrow>
   offset \<le> start \<and> start \<le> open_end \<and> open_end < length input"
proof (induction input n offset rule: find_open_tag.induct)
  case (1 input n offset)
  from "1.prems" obtain r where r: "find_char (CHR ''<'') (drop offset input) = Some r"
    by (subst (asm) find_open_tag.simps) (auto split: option.splits)
  show ?case
  proof (cases "starts_with ''/'' (drop (offset + r + 1) input)
                \<or> starts_with ''?'' (drop (offset + r + 1) input)")
    case True
    with "1.prems" r have "find_open_tag input n (offset + r + 1) = Some (start, raw, open_end)"
      by (subst (asm) find_open_tag.simps) (auto simp: Let_def)
    from "1.IH"(1) [OF r refl True this] show ?thesis by simp
  next
    case False
    with "1.prems" r obtain k where k: "find_char (CHR ''>'') (drop (offset + r) input) = Some k"
      by (subst (asm) find_open_tag.simps) (auto simp: Let_def split: option.splits)
    note b = find_char_less [OF k]
    show ?thesis
    proof (cases "to_ascii_lowercase
        (last (split_on (CHR '':'') (raw_tag_name input (offset + r) (offset + r + k))))
        = to_ascii_lowercase n")
      case True
      with "1.prems" r False k b show ?thesis
        by (subst (asm) find_open_tag.simps) (auto simp: Let_def)
    next
      case ne: False
      with "1.prems" r False k
      have rec: "find_open_tag input n (offset + r + k + 1) = Some (start, raw, open_end)"
        by (subst (asm) find_open_tag.simps) (auto simp: Let_def)
      from "1.IH"(2) [OF r refl False k refl refl refl ne rec] show ?thesis by simp
    qed
  qed
qed

function xml_blocks_from :: "string \<Rightarrow> string \<Rightarrow> nat \<Rightarrow> string list" where
  "xml_blocks_from input local_name offset =
     (case find_open_tag input local_name offset of
        None \<Rightarrow> []
      | Some (start, raw_name, open_end) \<Rightarrow>
          (let close_tag = ''</'' @ raw_name @ ''>'';
               search_start = open_end + 1 in
           case find_sub close_tag (drop search_start input) of
             None \<Rightarrow> []
           | Some close_rel \<Rightarrow>
               (let close = search_start + close_rel + length close_tag in
                take (close - start) (drop start input) # xml_blocks_from input local_name close)))"
  by pat_completeness auto
termination
proof (relation "measure (\<lambda>(input, n, offset). length input - offset)", goal_cases)
  case (2 input n offset p start q raw open_end tag search rel close)
  then show ?case using find_open_tag_bounds [of input n offset start raw open_end] by auto
qed simp

declare xml_blocks_from.simps [simp del]

definition xml_blocks :: "string \<Rightarrow> string \<Rightarrow> string list" where
  "xml_blocks input local_name = xml_blocks_from input local_name 0"

definition xml_unescape :: "string \<Rightarrow> string" where
  "xml_unescape v =
     replace_str ''&apos;'' [CHR 0x27]
       (replace_str ''&quot;'' [CHR 0x22]
         (replace_str ''&amp;'' ''&'' (replace_str ''&gt;'' ''>'' (replace_str ''&lt;'' ''<'' v))))"

definition xml_text :: "string \<Rightarrow> string \<Rightarrow> string option" where
  "xml_text input local_name =
     (case find_open_tag input local_name 0 of
        None \<Rightarrow> None
      | Some (_, _, open_end) \<Rightarrow>
          (let body_start = open_end + 1 in
           case find_sub ''</'' (drop body_start input) of
             None \<Rightarrow> None
           | Some k \<Rightarrow> Some (xml_unescape (trim (take k (drop body_start input))))))"

section \<open>Deletion stays inside the configured targets\<close>

lemma normalize_from_last:
  "normalize_from acc cs = Some t \<Longrightarrow> cs \<noteq> [] \<Longrightarrow> last cs = Normal n \<Longrightarrow> t \<noteq> [] \<and> last t = Normal n"
proof (induction acc cs rule: normalize_from.induct)
  case (5 acc m cs)
  then show ?case by (cases "cs = []") auto
qed (auto split: option.splits if_splits)

lemma normalize_from_plain:
  "normalize_from acc cs = Some t \<Longrightarrow> set acc \<inter> {CurDir, ParentDir} = {} \<Longrightarrow>
   set t \<inter> {CurDir, ParentDir} = {}"
proof (induction acc cs rule: normalize_from.induct)
  case (3 acc cs)
  then obtain acc' where a: "path_parent acc = Some acc'" "normalize_from acc' cs = Some t"
    by (auto split: option.splits)
  then have "set acc' \<subseteq> set acc"
    by (auto simp: path_parent_def split: if_splits dest: in_set_butlastD)
  with 3 a show ?case by blast
qed auto

lemma normalize_absolute_path_last:
  assumes "normalize_absolute_path cwd p = Some t" and "path_file_name (path_components p) = Some n"
  shows "t \<noteq> [] \<and> last t = Normal n \<and> set t \<inter> {CurDir, ParentDir} = {}"
proof -
  have fn: "path_components p \<noteq> []" "last (path_components p) = Normal n"
    using assms(2) by (simp_all add: path_file_name_Some)
  obtain cs where cs: "normalize_from [] cs = Some t" "cs \<noteq> []" "last cs = Normal n"
  proof (cases "is_absolute p")
    case True
    then show thesis using that assms(1) fn by (simp add: normalize_absolute_path_def)
  next
    case False
    then obtain d where d: "cwd = Some d"
      "normalize_from [] (path_join (path_components d) p) = Some t"
      using assms(1) by (auto simp: normalize_absolute_path_def split: option.splits)
    have "path_body p \<noteq> [] \<and> last (path_body p) = Normal n"
      using fn False by (auto simp: path_components_def split: if_splits)
    then have "path_join (path_components d) p \<noteq> []
        \<and> last (path_join (path_components d) p) = Normal n"
      using False fn by (simp add: path_join_def)
    then show thesis using that d(2) by blast
  qed
  show ?thesis
    using normalize_from_last [OF cs] normalize_from_plain [OF cs(1)] by simp
qed

lemma local_backup_delete_path_inside:
  assumes "local_backup_delete_path cwd st r = Some t"
  shows "\<exists>dir d. configured_local_backup_directory st = Some dir
    \<and> normalize_absolute_path cwd dir = Some d \<and> t = d @ [Normal (br_file_name r)]
    \<and> is_backup_file (br_file_name r) \<and> set t \<inter> {CurDir, ParentDir} = {}"
proof -
  from assms obtain dir d where d: "configured_local_backup_directory st = Some dir"
    "path_file_name (path_components (trim (br_target_path r))) = Some (br_file_name r)"
    "is_backup_file (br_file_name r)" "normalize_absolute_path cwd dir = Some d"
    "normalize_absolute_path cwd (trim (br_target_path r)) = Some t" "path_parent t = Some d"
    by (auto simp: local_backup_delete_path_def Let_def split: option.splits if_splits)
  note l = normalize_absolute_path_last [OF d(5,2)]
  have "butlast t = d" using d(6) by (auto simp: path_parent_def split: if_splits)
  then have "t = d @ [Normal (br_file_name r)]" using l by (metis append_butlast_last_id)
  with d l show ?thesis by blast
qed


definition demo_backup_record :: backup_record where
  "demo_backup_record = backup_record_listed ''helm-backup-1.zip'' ''local'' ''/b/./helm-backup-1.zip'' 3 ''t''"

definition demo_backup_settings :: backup_settings where
  "demo_backup_settings = backup_settings_default\<lparr>bs_local_directory := Some ''/b''\<rparr>"

definition demo_cleanup_env :: cleanup_env where
  "demo_cleanup_env = \<lparr>ce_parse_url = (\<lambda>_. None), ce_cwd = None\<rparr>"


section \<open>Percent encoding\<close>

text \<open>The decoder a server applies.\<close>

fun position :: "'a \<Rightarrow> 'a list \<Rightarrow> nat" where
  "position x [] = 0"
| "position x (y # ys) = (if x = y then 0 else Suc (position x ys))"

fun percent_decode :: "string \<Rightarrow> string" where
  "percent_decode [] = []"
| "percent_decode (c # s) =
     (if c = CHR ''%'' then
        (case s of a # b # r \<Rightarrow> char_of (16 * position a hex_digits + position b hex_digits)
                                 # percent_decode (drop 2 s)
         | _ \<Rightarrow> c # percent_decode s)
      else c # percent_decode s)"

lemma position_nth: "distinct xs \<Longrightarrow> i < length xs \<Longrightarrow> position (xs ! i) xs = i"
  by (induction xs arbitrary: i) (auto simp: nth_Cons split: nat.splits)

lemma position_hex: "k < 16 \<Longrightarrow> position (hex_digits ! k) hex_digits = k"
  by (rule position_nth) (simp_all add: hex_digits_def)

lemma unreserved_percent: "\<not> unreserved (CHR ''%'')"
  by (simp add: unreserved_def)

lemma percent_decode_byte: "percent_decode (encode_byte c @ s) = c # percent_decode s"
proof (cases "unreserved c")
  case True
  then show ?thesis using unreserved_percent by (auto simp: encode_byte_def)
next
  case False
  have "(of_char c :: nat) div 16 < 16" using nat_of_char_less_256 [of c] by linarith
  moreover have "16 * ((of_char c :: nat) div 16) + of_char c mod 16 = of_char c" by simp
  ultimately show ?thesis using False by (simp add: encode_byte_def position_hex)
qed

lemma percent_decode_segment: "percent_decode (encode_segment w @ s) = w @ percent_decode s"
  by (induction w) (simp_all add: encode_segment_def percent_decode_byte)

lemma percent_decode_join:
  "percent_decode (join_with ''/'' (map encode_segment ws)) = join_with ''/'' ws"
proof (induction "''/''" ws rule: join_with.induct)
  case (2 w)
  then show ?case using percent_decode_segment [of w "[]"] by simp
next
  case (3 w v ws)
  then show ?case by (simp add: percent_decode_segment)
qed simp

lemma encode_byte_safe: "d \<in> set (encode_byte c) \<Longrightarrow> unreserved d \<or> d = CHR ''%''"
proof -
  have all: "\<forall>h\<in>set hex_digits. unreserved h" by (simp add: hex_digits_def unreserved_def)
  have "hex_digits ! k \<in> set hex_digits" if "k < 16" for k
    using that by (intro nth_mem) (simp add: hex_digits_def)
  then have "unreserved (hex_digits ! k)" if "k < 16" for k using all that by blast
  moreover have "(of_char c :: nat) div 16 < 16" using nat_of_char_less_256 [of c] by linarith
  ultimately show "d \<in> set (encode_byte c) \<Longrightarrow> unreserved d \<or> d = CHR ''%''"
    by (auto simp: encode_byte_def split: if_splits)
qed

text \<open>S3 object keys survive the URL: decoding the encoded path gives the key back, and the
  encoded path contains only unreserved characters, \<open>\%\<close> and the separators of the key.\<close>

theorem encode_path_roundtrip:
  "percent_decode (encode_path p) = p
   \<and> set (encode_path p) \<subseteq> {c. unreserved c} \<union> {CHR ''%'', CHR ''/''}"
proof -
  have "set (encode_segment w) \<subseteq> {c. unreserved c} \<union> {CHR ''%''}" for w
    using encode_byte_safe by (auto simp: encode_segment_def)
  then have "set (encode_path p) \<subseteq> {c. unreserved c} \<union> {CHR ''%'', CHR ''/''}"
    using set_join_with [of "''/''" "map encode_segment (split_on (CHR ''/'') p)"]
    by (fastforce simp: encode_path_def)
  then show ?thesis by (simp add: encode_path_def percent_decode_join join_split_on)
qed

section \<open>Runs and records\<close>

text \<open>A run that succeeds reports one outcome for each selected, configured (and, for automatic
  runs, enabled) target and for no other, under the run's file name; it fails with an error exactly
  when the vault cannot be read or packed or no target qualifies.\<close>

theorem run_backup_targets:
  assumes "run_backup E st file_name kinds automatic = Inr outcomes"
  shows "map br_target_kind outcomes =
      (if (\<not> automatic \<or> bs_auto_enabled st) \<and> target_selected kinds ''local''
          \<and> configured_local_backup_directory st \<noteq> None then [''local''] else [])
      @ (if (\<not> automatic \<or> cb_auto_enabled (bs_cloud st))
            \<and> target_selected kinds (cb_kind (bs_cloud st)) \<and> configured_cloud_backup (bs_cloud st)
         then [cb_kind (bs_cloud st)] else [])
    \<and> outcomes \<noteq> [] \<and> (\<forall>r\<in>set outcomes. br_file_name r = file_name)"
  using assms
  by (auto simp: run_backup_def and_then_Inr_iff Let_def write_local_backup_def
      upload_cloud_backup_def configured_cloud_backup_def backup_record_success_def
      backup_record_failed_def split: if_splits option.splits sum.splits)

definition demo_backup_env :: backup_env where
  "demo_backup_env =
     \<lparr>be_vault_bytes = Inr [1, 2], be_build_package = (\<lambda>b. Inr (0 # b)),
      be_write_local = (\<lambda>p b. Inr ()), be_upload_webdav = (\<lambda>c n b. Inl ''offline''),
      be_upload_s3 = (\<lambda>c n b. Inl ''offline''), be_uuid_local = ''u1'', be_uuid_cloud = ''u2'',
      be_ts = ''t''\<rparr>"

theorem run_backup_targets_witness:
  "\<exists>outcomes. run_backup demo_backup_env demo_backup_settings ''n.zip'' None False = Inr outcomes
     \<and> map br_target_kind outcomes = [''local'']"
proof -
  have "isl (run_backup demo_backup_env demo_backup_settings ''n.zip'' None False) = False"
    by code_simp
  then obtain outcomes where
    r: "run_backup demo_backup_env demo_backup_settings ''n.zip'' None False = Inr outcomes"
    by (auto simp: isl_def) (metis sum.exhaust)
  have c: "configured_local_backup_directory demo_backup_settings = Some ''/b''"
    "configured_cloud_backup (bs_cloud demo_backup_settings) = False" by code_simp+
  from run_backup_targets [OF r] r show ?thesis by (simp add: c target_selected_def)
qed

lemma merge_backup_outcomes_keeps: "\<exists>new. merge_backup_outcomes records outcomes = records @ new \<and> set new \<subseteq> set outcomes"
proof (induction records outcomes rule: merge_backup_outcomes.induct)
  case (2 records outcome outcomes)
  then show ?case by (auto split: if_splits) blast+
qed simp

lemma merge_backup_outcomes_present:
  "o1 \<in> set outcomes \<Longrightarrow> \<exists>r\<in>set (merge_backup_outcomes records outcomes).
     br_target_kind r = br_target_kind o1 \<and> br_target_path r = br_target_path o1
     \<and> br_status r = br_status o1"
proof (induction records outcomes rule: merge_backup_outcomes.induct)
  case (2 records outcome outcomes)
  have sub: "set rs \<subseteq> set (merge_backup_outcomes rs os)" for rs os
    using merge_backup_outcomes_keeps [of rs os] by auto
  show ?case
  proof (cases "o1 = outcome")
    case True
    then show ?thesis using sub by (auto split: if_splits) (blast | fastforce)+
  next
    case False
    with 2 show ?thesis by (auto split: if_splits)
  qed
qed simp

end
