(* ===== verification/Vault.thy ===== *)
theory Vault
  imports Backup
begin

text \<open>
  \<open>vault.rs\<close>: the store that owns the workspace. Every change goes through \<open>mutate\<close>, which works
  on a copy, encrypts it, replaces the file and only then commits to memory. An operation takes the
  store and the file system and returns its result with the new ones; \<open>vault\_io\<close> holds what it
  gets from outside: the crates' functions, the faults of the file system, fresh random values and
  the readings of the clock (\<open>vi\_now\<close> by \<open>touch\<close>, \<open>vi\_now\_in\<close> inside the update).
\<close>

section \<open>State\<close>

definition AUTO_PASSWORD :: string where "AUTO_PASSWORD = ''helm-internal-auto-key-2024''"

record unlocked_vault =
  uv_data :: vault_data
  uv_crypto :: crypto_session

record vault_store =
  vs_path :: path
  vs_unlocked :: "unlocked_vault option"
  vs_revision :: nat

type_synonym vault_state = "vault_store \<times> byte fs"
type_synonym 'a vault_op = "vault_state \<Rightarrow> 'a app_result \<times> vault_state"

datatype auto_open_result = Ready | NeedsMigration

record ai_api_settings_update =
  aiu_session_ids :: "string list"
  aiu_port :: "16 word option"
  aiu_auto_start :: bool

record vault_io =
  vi_lib :: crypto_lib
  vi_faults :: io_faults
  vi_tmp :: string
  vi_salt :: bytes
  vi_nonce :: bytes
  vi_uuid :: string
  vi_now :: string
  vi_now_in :: string
  vi_utc_now :: int
  vi_parse_time :: "string \<Rightarrow> int option"
  vi_cleanup :: cleanup_env
  vi_zip_open :: "bytes \<Rightarrow> string + (string \<Rightarrow> bytes option)"
  vi_read_error :: "string option"

definition vault_store_new :: "path \<Rightarrow> vault_store" where
  "vault_store_new path = \<lparr>vs_path = path, vs_unlocked = None, vs_revision = 0\<rparr>"

section \<open>Files\<close>

definition read_encrypted_bytes :: "vault_io \<Rightarrow> bytes \<Rightarrow> encrypted_vault app_result" where
  "read_encrypted_bytes io bs = decode_vault (vi_lib io) bs"

text \<open>\<open>path.exists()\<close> and \<open>fs::read\<close>.\<close>

definition read_file :: "vault_io \<Rightarrow> path \<Rightarrow> byte fs \<Rightarrow> bytes app_result" where
  "read_file io p fs =
     (case fs p of
        None \<Rightarrow> Inl VaultNotFound
      | Some content \<Rightarrow> (case vi_read_error io of Some e \<Rightarrow> Inl (Io e) | None \<Rightarrow> Inr content))"

definition read_encrypted :: "vault_io \<Rightarrow> path \<Rightarrow> byte fs \<Rightarrow> encrypted_vault app_result" where
  "read_encrypted io p fs = and_then (read_file io p fs) (read_encrypted_bytes io)"

definition read_backup_payload :: "vault_io \<Rightarrow> path \<Rightarrow> byte fs \<Rightarrow> bytes app_result" where
  "read_backup_payload io p fs =
     and_then (read_file io p fs) (extract_backup_payload (vi_zip_open io))"

definition write_encrypted ::
  "vault_io \<Rightarrow> path \<Rightarrow> encrypted_vault \<Rightarrow> byte fs \<Rightarrow> byte fs \<times> unit app_result" where
  "write_encrypted io p v fs =
     (case encode_vault v of
        Inl e \<Rightarrow> (fs, Inl e)
      | Inr bs \<Rightarrow> let (tr, r) = write_atomic (vi_faults io) (vi_tmp io) p bs fs in (last tr, r))"

definition backup_decrypt_error :: "app_error \<Rightarrow> app_error" where
  "backup_decrypt_error e =
     (case e of
        InvalidMasterPassword \<Rightarrow> InvalidInput ''backup does not match this workspace or is damaged''
      | other \<Rightarrow> other)"

section \<open>The transaction\<close>

definition snapshot_for :: "vault_store \<Rightarrow> vault_data \<Rightarrow> config_snapshot" where
  "snapshot_for st d = \<lparr>cs_data = d, cs_revision = vs_revision st\<rparr>"

definition vault_unlocked :: "vault_store \<Rightarrow> unlocked_vault app_result" where
  "vault_unlocked st = ok_or (vs_unlocked st) VaultLocked"

text \<open>\<open>mutate\<close>. The closure may also set a variable of the caller, here its second result.\<close>

definition mutate_with ::
  "vault_io \<Rightarrow> (vault_data \<Rightarrow> (vault_data \<times> 'x) app_result) \<Rightarrow> (config_snapshot \<times> 'x) vault_op" where
  "mutate_with io update s =
     (let (st, fs) = s in
      case vault_unlocked st of
        Inl e \<Rightarrow> (Inl e, s)
      | Inr u \<Rightarrow>
          (case update (uv_data u) of
             Inl e \<Rightarrow> (Inl e, s)
           | Inr (d, x) \<Rightarrow>
               (let next_data = vault_touch (vi_now io) d in
                case encrypt_with_session (vi_lib io) (vi_nonce io) (uv_crypto u) next_data of
                  Inl e \<Rightarrow> (Inl e, s)
                | Inr v \<Rightarrow>
                    (case write_encrypted io (vs_path st) v fs of
                       (fs', Inl e) \<Rightarrow> (Inl e, (st, fs'))
                     | (fs', Inr _) \<Rightarrow>
                         (let st' = st\<lparr>vs_unlocked := Some (u\<lparr>uv_data := next_data\<rparr>),
                                       vs_revision := sat_add64 (vs_revision st) 1\<rparr>
                          in (Inr (snapshot_for st' next_data, x), (st', fs')))))))"

definition mutate :: "vault_io \<Rightarrow> (vault_data \<Rightarrow> vault_data app_result) \<Rightarrow> config_snapshot vault_op" where
  "mutate io update s =
     (let (r, s') = mutate_with io (\<lambda>d. and_then (update d) (\<lambda>d'. Inr (d', ()))) s in
      (map_sum id fst r, s'))"

section \<open>Opening\<close>

definition vault_create :: "vault_io \<Rightarrow> string \<Rightarrow> config_snapshot vault_op" where
  "vault_create io master_password s =
     (let (st, fs) = s in
      if fs (vs_path st) \<noteq> None then (Inl VaultAlreadyExists, s)
      else let d = vault_with_default_group (vi_uuid io) (vi_now io) (vi_now io) (vi_now io) in
        (case (if master_password = AUTO_PASSWORD
               then encrypt_with_password_fast (vi_lib io) (vi_salt io) (vi_nonce io) master_password d
               else encrypt_with_password (vi_lib io) (vi_salt io) (vi_nonce io) master_password d) of
           Inl e \<Rightarrow> (Inl e, s)
         | Inr (v, cs) \<Rightarrow>
             (case write_encrypted io (vs_path st) v fs of
                (fs', Inl e) \<Rightarrow> (Inl e, (st, fs'))
              | (fs', Inr _) \<Rightarrow>
                  (Inr (snapshot_for st d),
                   (st\<lparr>vs_unlocked := Some \<lparr>uv_data = d, uv_crypto = cs\<rparr>\<rparr>, fs')))))"

definition vault_unlock :: "vault_io \<Rightarrow> string \<Rightarrow> config_snapshot vault_op" where
  "vault_unlock io master_password s =
     (let (st, fs) = s in
      case and_then (read_encrypted io (vs_path st) fs)
             (decrypt_with_password (vi_lib io) master_password) of
        Inl e \<Rightarrow> (Inl e, s)
      | Inr (d0, cs) \<Rightarrow>
          (let (d, migrated) = migrate_vault_data (vi_now io) d0;
               opened = (Inr (snapshot_for st d),
                         st\<lparr>vs_unlocked := Some \<lparr>uv_data = d, uv_crypto = cs\<rparr>\<rparr>)
           in if migrated then
                (case encrypt_with_session (vi_lib io) (vi_nonce io) cs d of
                   Inl e \<Rightarrow> (Inl e, s)
                 | Inr v \<Rightarrow>
                     (case write_encrypted io (vs_path st) v fs of
                        (fs', Inl e) \<Rightarrow> (Inl e, (st, fs'))
                      | (fs', Inr _) \<Rightarrow> (fst opened, (snd opened, fs'))))
              else (fst opened, (snd opened, fs))))"

definition upgrade_to_fast_kdf_if_needed :: "vault_io \<Rightarrow> vault_state \<Rightarrow> vault_state" where
  "upgrade_to_fast_kdf_if_needed io s =
     (let (st, fs) = s in
      case vs_unlocked st of
        None \<Rightarrow> s
      | Some u \<Rightarrow>
          if \<not> crypto_session_is_slow (uv_crypto u) then s
          else (case encrypt_with_password_fast (vi_lib io) (vi_salt io) (vi_nonce io)
                       AUTO_PASSWORD (uv_data u) of
                  Inl e \<Rightarrow> s
                | Inr (v, cs) \<Rightarrow>
                    (case write_encrypted io (vs_path st) v fs of
                       (fs', Inl e) \<Rightarrow> (st, fs')
                     | (fs', Inr _) \<Rightarrow>
                         (st\<lparr>vs_unlocked := Some \<lparr>uv_data = uv_data u, uv_crypto = cs\<rparr>\<rparr>, fs'))))"

definition auto_open :: "vault_io \<Rightarrow> vault_io \<Rightarrow> auto_open_result vault_op" where
  "auto_open io io2 s =
     (let (st, fs) = s in
      if fs (vs_path st) = None then
        (case vault_create io AUTO_PASSWORD s of
           (Inl e, s') \<Rightarrow> (Inl e, s')
         | (Inr _, s') \<Rightarrow> (Inr Ready, s'))
      else (case vault_unlock io AUTO_PASSWORD s of
              (Inr _, s') \<Rightarrow> (Inr Ready, upgrade_to_fast_kdf_if_needed io2 s')
            | (Inl e, s') \<Rightarrow>
                (if e = InvalidMasterPassword then Inr NeedsMigration else Inl e, s')))"

definition vault_migrate :: "vault_io \<Rightarrow> vault_io \<Rightarrow> string \<Rightarrow> config_snapshot vault_op" where
  "vault_migrate io io2 old_password s =
     (case vault_unlock io old_password s of
        (Inl e, s') \<Rightarrow> (Inl e, s')
      | (Inr _, (st, fs)) \<Rightarrow>
          (case vault_unlocked st of
             Inl e \<Rightarrow> (Inl e, (st, fs))
           | Inr u \<Rightarrow>
               (case encrypt_with_password_fast (vi_lib io2) (vi_salt io2) (vi_nonce io2)
                       AUTO_PASSWORD (uv_data u) of
                  Inl e \<Rightarrow> (Inl e, (st, fs))
                | Inr (v, cs) \<Rightarrow>
                    (case write_encrypted io2 (vs_path st) v fs of
                       (fs', Inl e) \<Rightarrow> (Inl e, (st, fs'))
                     | (fs', Inr _) \<Rightarrow>
                         (Inr (snapshot_for st (uv_data u)),
                          (st\<lparr>vs_unlocked := Some \<lparr>uv_data = uv_data u, uv_crypto = cs\<rparr>\<rparr>, fs'))))))"

section \<open>Reading\<close>

definition vault_snapshot :: "vault_store \<Rightarrow> config_snapshot app_result" where
  "vault_snapshot st = and_then (vault_unlocked st) (\<lambda>u. Inr (snapshot_for st (uv_data u)))"

definition ensure_unlocked :: "vault_store \<Rightarrow> unit app_result" where
  "ensure_unlocked st = and_then (vault_unlocked st) (\<lambda>_. Inr ())"

definition vault_tunnels :: "vault_store \<Rightarrow> tunnel_config list app_result" where
  "vault_tunnels st = and_then (vault_unlocked st) (\<lambda>u. Inr (vd_tunnels (uv_data u)))"

definition vault_sessions :: "vault_store \<Rightarrow> session_config list app_result" where
  "vault_sessions st = and_then (vault_unlocked st) (\<lambda>u. Inr (vd_sessions (uv_data u)))"

definition vault_backup_settings :: "vault_store \<Rightarrow> backup_settings app_result" where
  "vault_backup_settings st =
     and_then (vault_unlocked st) (\<lambda>u. Inr (as_backup (vd_settings (uv_data u))))"

definition vault_backup_records :: "vault_store \<Rightarrow> backup_record list app_result" where
  "vault_backup_records st =
     and_then (vault_unlocked st) (\<lambda>u. Inr (vd_backup_records (uv_data u)))"

definition validate_tunnel_update :: "string \<Rightarrow> tunnel_input \<Rightarrow> vault_store \<Rightarrow> unit app_result" where
  "validate_tunnel_update tunnel_id input st =
     and_then (vault_unlocked st) (\<lambda>u.
       if \<not> (\<exists>t\<in>set (vd_tunnels (uv_data u)). tc_id t = tunnel_id)
       then Inl (NotFound (''tunnel '' @ tunnel_id))
       else validate_tunnel_input (uv_data u) input)"

definition vault_session :: "string \<Rightarrow> vault_store \<Rightarrow> session_config app_result" where
  "vault_session session_id st =
     and_then (vault_unlocked st) (\<lambda>u.
       ok_or (List.find (\<lambda>s. sc_id s = session_id) (vd_sessions (uv_data u)))
         (NotFound (''session '' @ session_id)))"

definition ensure_session_exists :: "string \<Rightarrow> vault_store \<Rightarrow> unit app_result" where
  "ensure_session_exists session_id st =
     and_then (vault_unlocked st) (\<lambda>u.
       if \<exists>s\<in>set (vd_sessions (uv_data u)). sc_id s = session_id then Inr ()
       else Inl (NotFound (''session '' @ session_id)))"

definition vault_known_host ::
  "string \<Rightarrow> 16 word \<Rightarrow> vault_store \<Rightarrow> known_host_entry option app_result" where
  "vault_known_host host port st =
     and_then (vault_unlocked st) (\<lambda>u.
       Inr (List.find (\<lambda>k. kh_host k = host \<and> kh_port k = port) (vd_known_hosts (uv_data u))))"

section \<open>Settings\<close>

abbreviation map_settings :: "(app_settings \<Rightarrow> app_settings) \<Rightarrow> vault_data \<Rightarrow> vault_data" where
  "map_settings f d \<equiv> d\<lparr>vd_settings := f (vd_settings d)\<rparr>"

definition validated :: "vault_data \<Rightarrow> vault_data app_result" where
  "validated d = and_then (validate_settings (vd_settings d)) (\<lambda>_. Inr d)"

definition settings_proxy_update ::
  "vault_io \<Rightarrow> app_proxy_options option \<Rightarrow> config_snapshot vault_op" where
  "settings_proxy_update io proxy =
     mutate io (\<lambda>d. validated (map_settings (\<lambda>st. st\<lparr>as_proxy := proxy\<rparr>) d))"

text \<open>The stable sort by descending \<open>created\_at\<close>, and the retention loop.\<close>

definition sort_newest_first :: "backup_record list \<Rightarrow> backup_record list" where
  "sort_newest_first rs = rev (sort_key br_created_at (rev rs))"

record prune_state =
  ps_success :: "string \<Rightarrow> nat"
  ps_failure :: "string \<Rightarrow> nat"
  ps_remove :: "string list"
  ps_targets :: "cleanup_target list"

definition prune_too_old :: "vault_io \<Rightarrow> backup_settings \<Rightarrow> backup_record \<Rightarrow> bool" where
  "prune_too_old io bset r =
     (bs_retention_days bset \<noteq> 0 \<and>
      (case vi_parse_time io (br_created_at r) of
         None \<Rightarrow> False
       | Some created \<Rightarrow>
           created < vi_utc_now io - int (unat (bs_retention_days bset)) * 24 * NANOS_PER_HOUR))"

definition prune_step ::
  "vault_io \<Rightarrow> backup_settings \<Rightarrow> backup_settings option \<Rightarrow> prune_state \<Rightarrow> backup_record \<Rightarrow> prune_state" where
  "prune_step io bset prev p r =
     (let ok = br_status r = ''success'';
          k = br_target_kind r;
          count = Suc (if ok then ps_success p k else ps_failure p k);
          p' = (if ok then p\<lparr>ps_success := (ps_success p)(k := count)\<rparr>
                else p\<lparr>ps_failure := (ps_failure p)(k := count)\<rparr>);
          too_many = count > unat (max (bs_retention_count bset) 1)
      in if too_many \<or> prune_too_old io bset r then
           p'\<lparr>ps_remove := ps_remove p' @ [br_id r],
              ps_targets := ps_targets p' @
                (case backup_cleanup_target (vi_cleanup io) bset r of
                   Some t \<Rightarrow> [t]
                 | None \<Rightarrow> (case prev of
                     None \<Rightarrow> []
                   | Some old \<Rightarrow> (case backup_cleanup_target (vi_cleanup io) old r of
                       Some t \<Rightarrow> [t] | None \<Rightarrow> [])))\<rparr>
         else p')"

definition prune_init :: prune_state where
  "prune_init = \<lparr>ps_success = (\<lambda>_. 0), ps_failure = (\<lambda>_. 0), ps_remove = [], ps_targets = []\<rparr>"

definition prune_backup_records ::
  "vault_io \<Rightarrow> backup_settings option \<Rightarrow> vault_data \<Rightarrow> vault_data \<times> cleanup_target list" where
  "prune_backup_records io prev d =
     (let bset = as_backup (vd_settings d);
          records = sort_newest_first (vd_backup_records d);
          p = foldl (prune_step io bset prev) prune_init records
      in (d\<lparr>vd_backup_records := filter (\<lambda>r. br_id r \<notin> set (ps_remove p)) records\<rparr>, ps_targets p))"

definition settings_backup_update ::
  "vault_io \<Rightarrow> backup_settings \<Rightarrow> (config_snapshot \<times> cleanup_target list) vault_op" where
  "settings_backup_update io backup =
     mutate_with io (\<lambda>d.
       let previous = as_backup (vd_settings d) in
       and_then (validated (map_settings (\<lambda>st. st\<lparr>as_backup := backup\<rparr>) d)) (\<lambda>d'.
         Inr (prune_backup_records io (Some previous) d')))"

definition quick_command_upsert_update :: "quick_command \<Rightarrow> vault_data \<Rightarrow> vault_data app_result" where
  "quick_command_upsert_update command d =
     (let cs = as_quick_commands (vd_settings d);
          cs' = (case update_first (\<lambda>c. qc_id c = qc_id command) (\<lambda>_. command) cs of
                   Some updated \<Rightarrow> updated
                 | None \<Rightarrow>
                     (let pushed = cs @ [command] in
                      if length pushed > 100 then drop (length pushed - 100) pushed else pushed))
      in validated (map_settings (\<lambda>st. st\<lparr>as_quick_commands := cs'\<rparr>) d))"

definition quick_command_upsert :: "vault_io \<Rightarrow> quick_command \<Rightarrow> config_snapshot vault_op" where
  "quick_command_upsert io command0 s =
     (let command = command0\<lparr>qc_id := trim (qc_id command0), qc_name := trim (qc_name command0),
                             qc_command := trim (qc_command command0)\<rparr> in
      if qc_id command = [] then (Inl (InvalidInput ''quick command id must not be empty''), s)
      else mutate io (quick_command_upsert_update command) s)"

definition quick_command_delete_update :: "string \<Rightarrow> vault_data \<Rightarrow> vault_data app_result" where
  "quick_command_delete_update command_id d =
     (let cs = as_quick_commands (vd_settings d);
          cs' = filter (\<lambda>c. qc_id c \<noteq> command_id) cs in
      if length cs' = length cs then Inl (NotFound (''quick command '' @ command_id))
      else validated (map_settings (\<lambda>st. st\<lparr>as_quick_commands := cs'\<rparr>) d))"

definition quick_command_delete :: "vault_io \<Rightarrow> string \<Rightarrow> config_snapshot vault_op" where
  "quick_command_delete io command_id0 s =
     (let command_id = trim command_id0 in
      if command_id = [] then (Inl (InvalidInput ''quick command id must not be empty''), s)
      else mutate io (quick_command_delete_update command_id) s)"

text \<open>The loop that collects the authorised session ids.\<close>

fun collect_session_ids ::
  "vault_data \<Rightarrow> string list \<Rightarrow> string list \<Rightarrow> string list app_result" where
  "collect_session_ids d acc [] = Inr acc"
| "collect_session_ids d acc (raw # rest) =
     (let session_id = trim raw in
      if session_id = [] \<or> session_id \<in> set acc then collect_session_ids d acc rest
      else if length acc \<ge> 20 then Inl (InvalidInput ''at most 20 AI API sessions'')
      else if \<not> (\<exists>s\<in>set (vd_sessions d). sc_id s = session_id)
      then Inl (NotFound (''session '' @ session_id))
      else collect_session_ids d (acc @ [session_id]) rest)"

definition settings_ai_api_update_data ::
  "ai_api_settings_update \<Rightarrow> vault_data \<Rightarrow> vault_data app_result" where
  "settings_ai_api_update_data u d =
     (if (case aiu_port u of Some port \<Rightarrow> port < 1024 | None \<Rightarrow> False)
      then Inl (InvalidInput ''AI API port must be 1024-65535'')
      else and_then (collect_session_ids d [] (aiu_session_ids u)) (\<lambda>ids.
        if aiu_auto_start u \<and> (ids = [] \<or> aiu_port u = None)
        then Inl (InvalidInput ''AI API auto start needs a port and a session'')
        else validated (map_settings (\<lambda>st. st\<lparr>as_ai_api_session_id := head_option ids,
               as_ai_api_session_ids := ids, as_ai_api_port := aiu_port u,
               as_ai_api_auto_start := aiu_auto_start u\<rparr>) d)))"

definition settings_ai_api_update ::
  "vault_io \<Rightarrow> ai_api_settings_update \<Rightarrow> config_snapshot vault_op" where
  "settings_ai_api_update io u = mutate io (settings_ai_api_update_data u)"

definition settings_ai_api_key_update :: "vault_io \<Rightarrow> string option \<Rightarrow> config_snapshot vault_op" where
  "settings_ai_api_key_update io api_key =
     mutate io (\<lambda>d. validated (map_settings (\<lambda>st. st\<lparr>as_ai_api_key := api_key\<rparr>) d))"

definition ignore_update_version_data :: "string \<Rightarrow> vault_data \<Rightarrow> vault_data app_result" where
  "ignore_update_version_data version d =
     validated (map_settings (\<lambda>st.
       if version \<in> set (as_ignored_update_versions st) then st
       else st\<lparr>as_ignored_update_versions := as_ignored_update_versions st @ [version]\<rparr>) d)"

definition settings_ignore_update_version :: "vault_io \<Rightarrow> string \<Rightarrow> config_snapshot vault_op" where
  "settings_ignore_update_version io version0 s =
     (let version = dropWhile (\<lambda>c. c = CHR ''v'' \<or> c = CHR ''V'') (trim version0) in
      if version = [] then (Inl (InvalidInput ''ignored version must not be empty''), s)
      else mutate io (ignore_update_version_data version) s)"

fun normalize_section_ids :: "vault_data \<Rightarrow> string list \<Rightarrow> string list \<Rightarrow> string list" where
  "normalize_section_ids d acc [] = acc"
| "normalize_section_ids d acc (raw # rest) =
     (let section_id = trim raw;
          allowed = section_id \<in> {''favorites'', ''recent'', ''ungrouped'', ''all''}
            \<or> (\<exists>g\<in>set (vd_groups d). sg_id g = section_id)
      in if allowed \<and> section_id \<notin> set acc then normalize_section_ids d (acc @ [section_id]) rest
         else normalize_section_ids d acc rest)"

definition connection_section_state_data :: "string list \<Rightarrow> vault_data \<Rightarrow> vault_data app_result" where
  "connection_section_state_data ids d =
     (let normalized = normalize_section_ids d [] ids in
      and_then (validate_collapsed_connection_section_ids normalized) (\<lambda>_.
        Inr (map_settings (\<lambda>st. st\<lparr>as_collapsed_connection_section_ids := normalized\<rparr>) d)))"

definition connection_section_state_update ::
  "vault_io \<Rightarrow> string list \<Rightarrow> config_snapshot vault_op" where
  "connection_section_state_update io ids = mutate io (connection_section_state_data ids)"

section \<open>Tunnels\<close>

definition create_tunnel_data :: "vault_io \<Rightarrow> tunnel_input \<Rightarrow> vault_data \<Rightarrow> vault_data app_result" where
  "create_tunnel_data io input d =
     and_then (validate_tunnel_input d input) (\<lambda>_.
       Inr (d\<lparr>vd_tunnels := vd_tunnels d @ [tunnel_config_new (vi_uuid io) (vi_now_in io) input]\<rparr>))"

definition create_tunnel :: "vault_io \<Rightarrow> tunnel_input \<Rightarrow> config_snapshot vault_op" where
  "create_tunnel io input = mutate io (create_tunnel_data io input)"

definition set_tunnel_enabled_data ::
  "vault_io \<Rightarrow> string \<Rightarrow> bool \<Rightarrow> vault_data \<Rightarrow> vault_data app_result" where
  "set_tunnel_enabled_data io tunnel_id enabled d =
     and_then (ok_or (update_first (\<lambda>t. tc_id t = tunnel_id)
                  (\<lambda>t. t\<lparr>tc_enabled := enabled, tc_updated_at := vi_now_in io\<rparr>) (vd_tunnels d))
                (NotFound (''tunnel '' @ tunnel_id)))
       (\<lambda>ts. Inr (d\<lparr>vd_tunnels := ts\<rparr>))"

definition set_tunnel_enabled :: "vault_io \<Rightarrow> string \<Rightarrow> bool \<Rightarrow> config_snapshot vault_op" where
  "set_tunnel_enabled io tunnel_id enabled s =
     (case vault_unlocked (fst s) of
        Inl e \<Rightarrow> (Inl e, s)
      | Inr u \<Rightarrow>
          if \<exists>t\<in>set (vd_tunnels (uv_data u)). tc_id t = tunnel_id \<and> tc_enabled t = enabled
          then (vault_snapshot (fst s), s)
          else mutate io (set_tunnel_enabled_data io tunnel_id enabled) s)"

definition update_tunnel_data ::
  "vault_io \<Rightarrow> string \<Rightarrow> tunnel_input \<Rightarrow> vault_data \<Rightarrow> vault_data app_result" where
  "update_tunnel_data io tunnel_id input d =
     and_then (validate_tunnel_input d input) (\<lambda>_.
     and_then (ok_or (update_first (\<lambda>t. tc_id t = tunnel_id)
                  (tunnel_config_update (vi_now_in io) input) (vd_tunnels d))
                (NotFound (''tunnel '' @ tunnel_id)))
       (\<lambda>ts. Inr (d\<lparr>vd_tunnels := ts\<rparr>)))"

definition update_tunnel :: "vault_io \<Rightarrow> string \<Rightarrow> tunnel_input \<Rightarrow> config_snapshot vault_op" where
  "update_tunnel io tunnel_id input = mutate io (update_tunnel_data io tunnel_id input)"

definition delete_tunnel_data :: "string \<Rightarrow> vault_data \<Rightarrow> vault_data app_result" where
  "delete_tunnel_data tunnel_id d =
     (let ts = filter (\<lambda>t. tc_id t \<noteq> tunnel_id) (vd_tunnels d) in
      if length (vd_tunnels d) = length ts then Inl (NotFound (''tunnel '' @ tunnel_id))
      else Inr (d\<lparr>vd_tunnels := ts\<rparr>))"

definition delete_tunnel :: "vault_io \<Rightarrow> string \<Rightarrow> config_snapshot vault_op" where
  "delete_tunnel io tunnel_id = mutate io (delete_tunnel_data tunnel_id)"

section \<open>Backups\<close>

definition validate_backup_bytes :: "vault_io \<Rightarrow> bytes \<Rightarrow> vault_store \<Rightarrow> config_snapshot app_result" where
  "validate_backup_bytes io bs st =
     and_then (extract_backup_payload (vi_zip_open io) bs) (\<lambda>payload.
     and_then (vault_unlocked st) (\<lambda>u.
     and_then (read_encrypted_bytes io payload) (\<lambda>v.
       case decrypt_with_key (vi_lib io) (cr_key (uv_crypto u)) v of
         Inl e \<Rightarrow> Inl (backup_decrypt_error e)
       | Inr d \<Rightarrow> Inr (snapshot_for st (fst (migrate_vault_data (vi_now io) d))))))"

definition validate_backup :: "vault_io \<Rightarrow> path \<Rightarrow> vault_state \<Rightarrow> config_snapshot app_result" where
  "validate_backup io p s =
     and_then (read_backup_payload io p (snd s)) (\<lambda>payload. validate_backup_bytes io payload (fst s))"

definition backup_import_bytes :: "vault_io \<Rightarrow> bytes \<Rightarrow> config_snapshot vault_op" where
  "backup_import_bytes io bs s =
     (let (st, fs) = s in
      case and_then (extract_backup_payload (vi_zip_open io) bs) (read_encrypted_bytes io) of
        Inl e \<Rightarrow> (Inl e, s)
      | Inr v0 \<Rightarrow>
          (case vault_unlocked st of
             Inl e \<Rightarrow> (Inl e, s)
           | Inr u \<Rightarrow>
               (case decrypt_with_key (vi_lib io) (cr_key (uv_crypto u)) v0 of
                  Inl e \<Rightarrow> (Inl (backup_decrypt_error e), s)
                | Inr d0 \<Rightarrow>
                    (let d = fst (migrate_vault_data (vi_now io) d0) in
                     case encrypt_with_session (vi_lib io) (vi_nonce io) (uv_crypto u) d of
                       Inl e \<Rightarrow> (Inl e, s)
                     | Inr v \<Rightarrow>
                         (case write_encrypted io (vs_path st) v fs of
                            (fs', Inl e) \<Rightarrow> (Inl e, (st, fs'))
                          | (fs', Inr _) \<Rightarrow>
                              (let st' = st\<lparr>vs_unlocked := Some (u\<lparr>uv_data := d\<rparr>),
                                            vs_revision := sat_add64 (vs_revision st) 1\<rparr>
                               in (Inr (snapshot_for st' d), (st', fs'))))))))"

definition backup_import :: "vault_io \<Rightarrow> path \<Rightarrow> config_snapshot vault_op" where
  "backup_import io p s =
     (case read_backup_payload io p (snd s) of
        Inl e \<Rightarrow> (Inl e, s)
      | Inr payload \<Rightarrow> backup_import_bytes io payload s)"

definition replace_backup_records ::
  "vault_io \<Rightarrow> backup_record list \<Rightarrow> (config_snapshot \<times> cleanup_target list) vault_op" where
  "replace_backup_records io records =
     mutate_with io (\<lambda>d. Inr (prune_backup_records io None (d\<lparr>vd_backup_records := records\<rparr>)))"

definition delete_backup_record_data ::
  "vault_io \<Rightarrow> string \<Rightarrow> bool \<Rightarrow> vault_data
   \<Rightarrow> (vault_data \<times> cleanup_target option) app_result" where
  "delete_backup_record_data io record_id delete_file d =
     and_then (ok_or (remove_first (\<lambda>r. br_id r = record_id) (vd_backup_records d))
                (NotFound (''backup record '' @ record_id)))
       (\<lambda>(r, rest). Inr (d\<lparr>vd_backup_records := rest\<rparr>,
          if delete_file then backup_cleanup_target (vi_cleanup io) (as_backup (vd_settings d)) r
          else None))"

definition delete_backup_record ::
  "vault_io \<Rightarrow> string \<Rightarrow> bool \<Rightarrow> (config_snapshot \<times> cleanup_target option) vault_op" where
  "delete_backup_record io record_id delete_file =
     mutate_with io (delete_backup_record_data io record_id delete_file)"

section \<open>Host keys, groups and sessions\<close>

definition trust_host_key_data ::
  "vault_io \<Rightarrow> string \<Rightarrow> string \<Rightarrow> 16 word \<Rightarrow> string \<Rightarrow> string \<Rightarrow> vault_data \<Rightarrow> vault_data app_result" where
  "trust_host_key_data io session_id host port algorithm fingerprint d =
     (case List.find (\<lambda>s. sc_id s = session_id) (vd_sessions d) of
        None \<Rightarrow> Inl (NotFound (''session '' @ session_id))
      | Some session \<Rightarrow>
          if sc_host session \<noteq> host \<or> sc_port session \<noteq> port
          then Inl (InvalidInput ''session address changed, confirm the host key again'')
          else
            (let ss = the (update_first (\<lambda>s. sc_id s = session_id)
                   (\<lambda>s. s\<lparr>sc_ssh := (sc_ssh s)\<lparr>so_host_key_fingerprint := Some fingerprint\<rparr>\<rparr>)
                   (vd_sessions d));
                 entry = \<lparr>kh_host = sc_host session, kh_port = port, kh_algorithm = algorithm,
                          kh_fingerprint = fingerprint, kh_trusted_at = vi_now_in io\<rparr>;
                 ks = (case update_first (\<lambda>k. kh_host k = sc_host session \<and> kh_port k = port)
                              (\<lambda>_. entry) (vd_known_hosts d) of
                         Some ks' \<Rightarrow> ks'
                       | None \<Rightarrow> vd_known_hosts d @ [entry])
             in Inr (d\<lparr>vd_sessions := ss, vd_known_hosts := ks\<rparr>)))"

definition trust_host_key ::
  "vault_io \<Rightarrow> string \<Rightarrow> string \<Rightarrow> 16 word \<Rightarrow> string \<Rightarrow> string \<Rightarrow> config_snapshot vault_op" where
  "trust_host_key io session_id host port algorithm fingerprint =
     mutate io (trust_host_key_data io session_id host port algorithm fingerprint)"

definition create_group_data :: "vault_io \<Rightarrow> group_input \<Rightarrow> vault_data \<Rightarrow> vault_data app_result" where
  "create_group_data io input d =
     and_then (validate_group_input d None input) (\<lambda>_.
       Inr (d\<lparr>vd_groups := vd_groups d @
         [session_group_new (vi_uuid io) (vi_now_in io) input (of_nat (length (vd_groups d)))]\<rparr>))"

definition create_group :: "vault_io \<Rightarrow> group_input \<Rightarrow> config_snapshot vault_op" where
  "create_group io input = mutate io (create_group_data io input)"

definition update_group_data ::
  "vault_io \<Rightarrow> string \<Rightarrow> group_input \<Rightarrow> vault_data \<Rightarrow> vault_data app_result" where
  "update_group_data io group_id input d =
     and_then (validate_group_input d (Some group_id) input) (\<lambda>_.
     and_then (ok_or (update_first (\<lambda>g. sg_id g = group_id)
                  (session_group_update (vi_now_in io) input) (vd_groups d))
                (NotFound (''group '' @ group_id)))
       (\<lambda>gs. Inr (d\<lparr>vd_groups := gs\<rparr>)))"

definition update_group :: "vault_io \<Rightarrow> string \<Rightarrow> group_input \<Rightarrow> config_snapshot vault_op" where
  "update_group io group_id input = mutate io (update_group_data io group_id input)"

definition delete_group_data :: "string \<Rightarrow> vault_data \<Rightarrow> vault_data app_result" where
  "delete_group_data group_id d =
     (if is_default_group_id d group_id
      then Inl (InvalidInput ''the default group cannot be deleted'')
      else
        (let gs = filter (\<lambda>g. sg_id g \<noteq> group_id) (vd_groups d) in
         if length (vd_groups d) = length gs then Inl (NotFound (''group '' @ group_id))
         else Inr (d\<lparr>
           vd_groups := map (\<lambda>g. if sg_parent_id g = Some group_id
                                   then g\<lparr>sg_parent_id := None\<rparr> else g) gs,
           vd_sessions := map (\<lambda>s. if sc_group_id s = Some group_id
                                     then s\<lparr>sc_group_id := default_group_id d\<rparr> else s)
                            (vd_sessions d),
           vd_settings := (vd_settings d)\<lparr>as_collapsed_connection_section_ids :=
             filter (\<lambda>i. i \<noteq> group_id)
               (as_collapsed_connection_section_ids (vd_settings d))\<rparr>\<rparr>)))"

definition delete_group :: "vault_io \<Rightarrow> string \<Rightarrow> config_snapshot vault_op" where
  "delete_group io group_id = mutate io (delete_group_data group_id)"

definition create_session_data :: "vault_io \<Rightarrow> session_input \<Rightarrow> vault_data \<Rightarrow> vault_data app_result" where
  "create_session_data io input d =
     and_then (validate_session_input d None input) (\<lambda>_.
       Inr (d\<lparr>vd_sessions := vd_sessions d @ [session_config_new (vi_uuid io) (vi_now_in io) input]\<rparr>))"

definition create_session :: "vault_io \<Rightarrow> session_input \<Rightarrow> config_snapshot vault_op" where
  "create_session io input = mutate io (create_session_data io input)"

definition edit_session ::
  "string \<Rightarrow> (session_config \<Rightarrow> session_config) \<Rightarrow> vault_data \<Rightarrow> vault_data app_result" where
  "edit_session session_id f d =
     and_then (ok_or (update_first (\<lambda>s. sc_id s = session_id) f (vd_sessions d))
                (NotFound (''session '' @ session_id)))
       (\<lambda>ss. Inr (d\<lparr>vd_sessions := ss\<rparr>))"

definition update_session_data ::
  "vault_io \<Rightarrow> string \<Rightarrow> session_input \<Rightarrow> vault_data \<Rightarrow> vault_data app_result" where
  "update_session_data io session_id input d =
     and_then (validate_session_input d (Some session_id) input) (\<lambda>_.
       edit_session session_id (session_config_update (vi_now_in io) input) d)"

definition update_session :: "vault_io \<Rightarrow> string \<Rightarrow> session_input \<Rightarrow> config_snapshot vault_op" where
  "update_session io session_id input = mutate io (update_session_data io session_id input)"

definition set_session_favorite :: "vault_io \<Rightarrow> string \<Rightarrow> bool \<Rightarrow> config_snapshot vault_op" where
  "set_session_favorite io session_id favorite =
     mutate io (edit_session session_id
       (\<lambda>s. s\<lparr>sc_favorite := favorite, sc_updated_at := vi_now_in io\<rparr>))"

definition mark_session_recent :: "vault_io \<Rightarrow> string \<Rightarrow> config_snapshot vault_op" where
  "mark_session_recent io session_id =
     mutate io (edit_session session_id
       (\<lambda>s. s\<lparr>sc_last_connected_at := Some (vi_now_in io),
               sc_connection_count := sat_add64 (sc_connection_count s) 1\<rparr>))"

definition clear_session_recent :: "vault_io \<Rightarrow> string \<Rightarrow> config_snapshot vault_op" where
  "clear_session_recent io session_id =
     mutate io (edit_session session_id
       (\<lambda>s. s\<lparr>sc_last_connected_at := None, sc_connection_count := 0\<rparr>))"

definition delete_session_settings ::
  "string \<Rightarrow> session_config list \<Rightarrow> app_settings \<Rightarrow> app_settings" where
  "delete_session_settings session_id remaining st =
     (let ids = filter (\<lambda>i. i \<noteq> session_id) (as_ai_api_session_ids st);
          ids' = (if ids = [] \<and> as_ai_api_session_id st \<noteq> Some session_id
                  then (case as_ai_api_session_id st of
                          Some legacy_id \<Rightarrow>
                            if \<exists>s\<in>set remaining. sc_id s = legacy_id then [legacy_id] else []
                        | None \<Rightarrow> [])
                  else ids)
      in st\<lparr>as_ai_api_session_ids := ids', as_ai_api_session_id := head_option ids',
            as_ai_api_auto_start := (ids' \<noteq> [] \<and> as_ai_api_auto_start st)\<rparr>)"

definition delete_session_data :: "string \<Rightarrow> vault_data \<Rightarrow> vault_data app_result" where
  "delete_session_data session_id d =
     (let ss = filter (\<lambda>s. sc_id s \<noteq> session_id) (vd_sessions d) in
      if length (vd_sessions d) = length ss then Inl (NotFound (''session '' @ session_id))
      else Inr (d\<lparr>vd_sessions := ss,
                  vd_tunnels := filter (\<lambda>t. tc_session_id t \<noteq> session_id) (vd_tunnels d),
                  vd_settings := delete_session_settings session_id ss (vd_settings d)\<rparr>))"

definition delete_session :: "vault_io \<Rightarrow> string \<Rightarrow> config_snapshot vault_op" where
  "delete_session io session_id = mutate io (delete_session_data session_id)"

end
