(* ===== verification/Vault_Inv.thy ===== *)
theory Vault_Inv
  imports Vault
begin

text \<open>
  What the vault store promises. Every change is a transaction: on any error memory and revision
  are untouched and the file holds what it held, on success memory, file and revision move together
  (locale \<open>transactional\_store\<close>, interpreted on \<open>mutate\_with\<close>). The configuration invariant
  \<open>vault\_inv\<close> (references resolve, ids and names are unique, limits hold, settings validate) is
  kept by every operation, and what is in memory can always be read back from the file.
\<close>

section \<open>Transactions\<close>

locale transactional_store =
  fixes commit :: "'u \<Rightarrow> 's \<Rightarrow> ('e + 'r) \<times> 's"
    and update :: "'u \<Rightarrow> 'd \<Rightarrow> 'd option"
    and content :: "'s \<Rightarrow> 'd option"
    and revision :: "'s \<Rightarrow> nat"
  assumes rejected: "commit u s = (Inl e, s') \<Longrightarrow> content s' = content s \<and> revision s' = revision s"
    and accepted: "commit u s = (Inr r, s') \<Longrightarrow>
      \<exists>d d'. content s = Some d \<and> update u d = Some d' \<and> content s' = Some d'
        \<and> revision s' = sat_add64 (revision s) 1"
begin

lemma commit_keeps:
  assumes "content s = Some d" and "P d"
    and "\<And>d'. update u d = Some d' \<Longrightarrow> P d'"
  shows "\<exists>d'. content (snd (commit u s)) = Some d' \<and> P d'"
proof (cases "commit u s")
  case (Pair r s')
  then show ?thesis
    using assms rejected [of u s _ s'] accepted [of u s _ s'] by (cases r) fastforce+
qed

lemma run_keeps:
  assumes "content s = Some d" and "P d"
    and "\<And>u d d'. u \<in> set us \<Longrightarrow> P d \<Longrightarrow> update u d = Some d' \<Longrightarrow> P d'"
  shows "\<exists>d'. content (foldl (\<lambda>s u. snd (commit u s)) s us) = Some d' \<and> P d'"
  using assms
proof (induction us arbitrary: s d)
  case (Cons u us)
  from commit_keeps [of s d P u] Cons.prems
  obtain d' where d': "content (snd (commit u s)) = Some d'" "P d'" by auto
  have "\<exists>d'. content (foldl (\<lambda>s u. snd (commit u s)) (snd (commit u s)) us) = Some d' \<and> P d'"
    using Cons.prems(3) by (intro Cons.IH [OF d']) (meson list.set_intros(2))
  then show ?case by simp
qed simp

lemma commit_revision:
  assumes "revision s \<le> u64_max"
  shows "revision s \<le> revision (snd (commit u s)) \<and> revision (snd (commit u s)) \<le> Suc (revision s)"
proof (cases "commit u s")
  case (Pair r s')
  then show ?thesis
    using assms rejected [of u s _ s'] accepted [of u s _ s']
    by (cases r) (auto simp: sat_add64_def)
qed

end

definition apply_update ::
  "vault_io \<times> (vault_data \<Rightarrow> (vault_data \<times> 'x) app_result) \<Rightarrow> vault_data \<Rightarrow> vault_data option" where
  "apply_update u d =
     (case snd u d of Inl _ \<Rightarrow> None | Inr (d', _) \<Rightarrow> Some (vault_touch (vi_now (fst u)) d'))"

definition mem_data :: "vault_state \<Rightarrow> vault_data option" where
  "mem_data s = map_option uv_data (vs_unlocked (fst s))"

text \<open>The branches of \<open>mutate\_with\<close>.\<close>

lemma mutate_with_ok:
  assumes "mutate_with io f (st, fs) = (Inr (snap, x), (st', fs'))"
  obtains u d v where "vs_unlocked st = Some u" "f (uv_data u) = Inr (d, x)"
    "encrypt_with_session (vi_lib io) (vi_nonce io) (uv_crypto u) (vault_touch (vi_now io) d) = Inr v"
    "write_encrypted io (vs_path st) v fs = (fs', Inr ())"
    "st' = st\<lparr>vs_unlocked := Some (u\<lparr>uv_data := vault_touch (vi_now io) d\<rparr>),
              vs_revision := sat_add64 (vs_revision st) 1\<rparr>"
    "snap = snapshot_for st' (vault_touch (vi_now io) d)"
  using assms
  by (auto simp: mutate_with_def vault_unlocked_def ok_or_def Let_def
      split: sum.splits option.splits prod.splits)

lemma write_encrypted_err: "write_encrypted io p v fs = (fs', Inl e) \<Longrightarrow> fs' p = fs p"
  by (auto simp: write_encrypted_def encode_vault_def Let_def split: prod.splits
      dest: write_atomic_target)

lemma write_encrypted_ok:
  "write_encrypted io p v fs = (fs', Inr u) \<Longrightarrow> \<exists>b. encode_vault v = Inr b \<and> fs' = fs(p \<mapsto> b)"
  by (auto simp: write_encrypted_def encode_vault_def Let_def split: prod.splits
      dest: write_atomic_target)

lemma mutate_with_err:
  assumes "mutate_with io f (st, fs) = (Inl e, (st', fs'))"
  shows "st' = st \<and> fs' (vs_path st) = fs (vs_path st)"
  using assms
  by (auto simp: mutate_with_def Let_def split: sum.splits prod.splits
      dest: write_encrypted_err)

interpretation vtx: transactional_store
  "\<lambda>u. mutate_with (fst u) (snd u)" apply_update mem_data "\<lambda>s. vs_revision (fst s)"
proof (unfold_locales, goal_cases)
  case (1 u s e s')
  then show ?case
    by (cases s; cases s') (auto simp: mem_data_def dest: mutate_with_err)
next
  case (2 u s r s')
  obtain st fs where s: "s = (st, fs)" by fastforce
  obtain st' fs' where s': "s' = (st', fs')" by fastforce
  obtain snap x where r: "r = (snap, x)" by fastforce
  from 2 [unfolded s s' r] show ?case
    by (rule mutate_with_ok) (auto simp: s s' mem_data_def apply_update_def)
qed

text \<open>\<open>mutate\<close> is \<open>mutate\_with\<close> without a second result.\<close>

lemma mutate_state: "snd (mutate io f s) = snd (mutate_with io (\<lambda>d. and_then (f d) (\<lambda>d'. Inr (d', ()))) s)"
  by (simp add: mutate_def split: prod.splits)

section \<open>Durability\<close>

definition durable :: "crypto_lib \<Rightarrow> string \<Rightarrow> vault_state \<Rightarrow> bool" where
  "durable L pw s \<longleftrightarrow>
     (\<forall>u. vs_unlocked (fst s) = Some u \<longrightarrow>
        derived_session L pw (uv_crypto u)
        \<and> (\<exists>b v. snd s (vs_path (fst s)) = Some b \<and> decode_vault L b = Inr v
             \<and> decrypt_with_password L pw v = Inr (uv_data u, uv_crypto u)))"

definition io_ok :: "crypto_lib \<Rightarrow> vault_io \<Rightarrow> bool" where
  "io_ok L io \<longleftrightarrow> vi_lib io = L \<and> length (vi_nonce io) = NONCE_LEN \<and> length (vi_salt io) = SALT_LEN"

lemma write_session_durable:
  assumes "crypto_lib_ok L" "io_ok L io" "derived_session L pw cs"
    and "encrypt_with_session L (vi_nonce io) cs d = Inr v"
    and "write_encrypted io (vs_path st) v fs = (fs', Inr u)"
  shows "durable L pw (st\<lparr>vs_unlocked := Some \<lparr>uv_data = d, uv_crypto = cs\<rparr>\<rparr>, fs')
    \<and> durable L pw (st\<lparr>vs_unlocked := Some \<lparr>uv_data = d, uv_crypto = cs\<rparr>, vs_revision := n\<rparr>, fs')"
proof -
  obtain b where b: "encode_vault v = Inr b" "fs' = fs(vs_path st \<mapsto> b)"
    using write_encrypted_ok [OF assms(5)] by blast
  have "length (vi_nonce io) = NONCE_LEN" using assms(2) by (simp add: io_ok_def)
  from session_write_read [OF assms(1,3) this assms(4) b(1)] b assms(3)
  show ?thesis by (auto simp: durable_def)
qed

lemma mutate_with_durable:
  assumes "crypto_lib_ok L" "io_ok L io" "durable L pw s"
  shows "durable L pw (snd (mutate_with io f s))"
proof -
  obtain st fs where s: "s = (st, fs)" by fastforce
  obtain r st' fs' where m: "mutate_with io f (st, fs) = (r, (st', fs'))" by (metis prod.exhaust)
  have lib: "vi_lib io = L" using assms(2) by (simp add: io_ok_def)
  show ?thesis
  proof (cases r)
    case (Inl e)
    from mutate_with_err [OF m [unfolded Inl]] assms(3) show ?thesis
      by (simp add: s m durable_def)
  next
    case (Inr x)
    obtain snap y where x: "x = (snap, y)" by fastforce
    from m [unfolded Inr x] obtain u d v where u: "vs_unlocked st = Some u"
      "encrypt_with_session (vi_lib io) (vi_nonce io) (uv_crypto u) (vault_touch (vi_now io) d) = Inr v"
      "write_encrypted io (vs_path st) v fs = (fs', Inr ())"
      "st' = st\<lparr>vs_unlocked := Some (u\<lparr>uv_data := vault_touch (vi_now io) d\<rparr>),
                vs_revision := sat_add64 (vs_revision st) 1\<rparr>"
      by (rule mutate_with_ok)
    have ds: "derived_session L pw (uv_crypto u)" using assms(3) u(1) by (simp add: durable_def s)
    have "u\<lparr>uv_data := vault_touch (vi_now io) d\<rparr>
        = \<lparr>uv_data = vault_touch (vi_now io) d, uv_crypto = uv_crypto u\<rparr>" by (cases u) simp
    with write_session_durable [OF assms(1,2) ds u(2) [unfolded lib] u(3)] u(4)
    show ?thesis by (simp add: s m)
  qed
qed

text \<open>C8: every configuration change is all or nothing. If \<open>mutate\<close> reports an error (locked,
  rejected by the update, encryption or disk failure), memory and revision are unchanged and the
  vault file still holds its old bytes; if it succeeds, the update's result is in memory, the
  snapshot returned shows it, the revision grew by one (saturating), and the new file decodes and
  decrypts with the workspace password to exactly that data.\<close>

theorem mutate_transactional:
  assumes "crypto_lib_ok L" and "io_ok L io" and "durable L pw (st, fs)"
    and "mutate io f (st, fs) = (r, (st', fs'))"
  shows "case r of
      Inl e \<Rightarrow> st' = st \<and> fs' (vs_path st) = fs (vs_path st)
    | Inr snap \<Rightarrow> \<exists>u d b v. vs_unlocked st = Some u \<and> f (uv_data u) = Inr d
        \<and> cs_data snap = vault_touch (vi_now io) d \<and> mem_data (st', fs') = Some (cs_data snap)
        \<and> cs_revision snap = vs_revision st' \<and> vs_revision st' = sat_add64 (vs_revision st) 1
        \<and> fs' (vs_path st') = Some b \<and> decode_vault L b = Inr v
        \<and> decrypt_with_password L pw v = Inr (cs_data snap, uv_crypto u)"
proof -
  let ?f = "\<lambda>d. and_then (f d) (\<lambda>d'. Inr (d', ()))"
  from assms(4) obtain r0 where m: "mutate_with io ?f (st, fs) = (r0, (st', fs'))"
    "r = map_sum id fst r0" by (auto simp: mutate_def split: prod.splits)
  show ?thesis
  proof (cases r0)
    case (Inl e)
    then show ?thesis using m mutate_with_err [of io ?f st fs e st' fs'] by simp
  next
    case (Inr x)
    obtain snap y where x: "x = (snap, y)" by (cases x)
    have "durable L pw (st', fs')" using mutate_with_durable [OF assms(1-3), of ?f] m by simp
    with m [unfolded Inr x] show ?thesis
      by (elim mutate_with_ok)
         (auto simp: mem_data_def snapshot_for_def durable_def and_then_Inr_iff)
  qed
qed

lemma encrypt_with_params_durable:
  assumes "crypto_lib_ok L" "io_ok L io"
    and "encrypt_with_params L params (vi_salt io) (vi_nonce io) pw d = Inr (v, cs)"
    and "write_encrypted io (vs_path st) v fs = (fs', Inr u)"
  shows "durable L pw (st\<lparr>vs_unlocked := Some \<lparr>uv_data = d, uv_crypto = cs\<rparr>\<rparr>, fs')"
proof -
  have "length (vi_salt io) = SALT_LEN" using assms(2) by (simp add: io_ok_def)
  from encrypt_with_params_session [OF assms(3) this]
  show ?thesis using write_session_durable [OF assms(1,2) _ _ assms(4)] by blast
qed

lemma vault_create_ok:
  assumes "crypto_lib_ok L" "io_ok L io" "vault_create io pw (st, fs) = (Inr snap, s')"
  shows "durable L pw s' \<and> fs (vs_path st) = None
    \<and> mem_data s' = Some (vault_with_default_group (vi_uuid io) (vi_now io) (vi_now io) (vi_now io))
    \<and> vs_revision (fst s') = vs_revision st \<and> vs_path (fst s') = vs_path st"
proof -
  have lib: "vi_lib io = L" using assms(2) by (simp add: io_ok_def)
  from assms(3) obtain v cs fs' params where
    "fs (vs_path st) = None"
    "encrypt_with_params L params (vi_salt io) (vi_nonce io) pw
       (vault_with_default_group (vi_uuid io) (vi_now io) (vi_now io) (vi_now io)) = Inr (v, cs)"
    "write_encrypted io (vs_path st) v fs = (fs', Inr ())"
    "s' = (st\<lparr>vs_unlocked := Some \<lparr>uv_data = vault_with_default_group (vi_uuid io) (vi_now io)
             (vi_now io) (vi_now io), uv_crypto = cs\<rparr>\<rparr>, fs')"
    by (auto simp: vault_create_def Let_def lib encrypt_with_password_fast_def
        encrypt_with_password_def split: if_splits sum.splits prod.splits)
  with encrypt_with_params_durable [OF assms(1,2)] show ?thesis
    by (auto simp: mem_data_def)
qed

lemma vault_unlock_ok:
  assumes "crypto_lib_ok L" "io_ok L io" "vault_unlock io pw (st, fs) = (Inr snap, s')"
  shows "durable L pw s' \<and> vs_path (fst s') = vs_path st
    \<and> (\<exists>b v d cs. fs (vs_path st) = Some b \<and> decode_vault L b = Inr v
         \<and> decrypt_with_password L pw v = Inr (d, cs)
         \<and> mem_data s' = Some (fst (migrate_vault_data (vi_now io) d)))"
proof -
  have lib: "vi_lib io = L" using assms(2) by (simp add: io_ok_def)
  define m where "m d = migrate_vault_data (vi_now io) d" for d
  from assms(3) obtain b v d cs where r: "fs (vs_path st) = Some b" "decode_vault L b = Inr v"
    "decrypt_with_password L pw v = Inr (d, cs)"
    by (auto simp: vault_unlock_def Let_def lib read_encrypted_def read_file_def
        read_encrypted_bytes_def and_then_Inr_iff split: sum.splits option.splits)
  have salt: "length (ev_salt v) = SALT_LEN"
    using decode_sound [OF r(2)] by (simp add: encrypted_wf_def)
  note ds = decrypt_with_password_session [OF r(3) salt]
  have eq: "and_then (read_encrypted io (vs_path st) fs) (decrypt_with_password (vi_lib io) pw)
      = Inr (d, cs)"
    using assms(3) r by (auto simp: vault_unlock_def Let_def lib read_encrypted_def read_file_def
        read_encrypted_bytes_def split: option.splits)
  show ?thesis
  proof (cases "snd (m d)")
    case True
    with assms(3) eq obtain v2 fs' where w: "encrypt_with_session L (vi_nonce io) cs (fst (m d)) = Inr v2"
      "write_encrypted io (vs_path st) v2 fs = (fs', Inr ())"
      "s' = (st\<lparr>vs_unlocked := Some \<lparr>uv_data = fst (m d), uv_crypto = cs\<rparr>\<rparr>, fs')"
      by (auto simp: vault_unlock_def Let_def lib m_def split: sum.splits prod.splits)
    then show ?thesis
      using write_session_durable [OF assms(1,2) _ w(1,2)] ds r by (auto simp: mem_data_def m_def)
  next
    case False
    then have "fst (m d) = d" using migrate_unchanged by (auto simp: m_def)
    with False assms(3) eq have "s' = (st\<lparr>vs_unlocked := Some \<lparr>uv_data = d, uv_crypto = cs\<rparr>\<rparr>, fs)"
      by (auto simp: vault_unlock_def Let_def m_def split: prod.splits)
    then show ?thesis
      using r ds \<open>fst (m d) = d\<close> by (auto simp: durable_def mem_data_def m_def)
  qed
qed

text \<open>A concrete store.\<close>

definition demo_io :: vault_io where
  "demo_io =
     \<lparr>vi_lib = demo_lib, vi_faults = no_faults, vi_tmp = ''x'', vi_salt = replicate 16 1,
      vi_nonce = replicate 24 7, vi_uuid = ''g'', vi_now = ''t'', vi_now_in = ''t'', vi_utc_now = 0,
      vi_parse_time = (\<lambda>_. None), vi_cleanup = demo_cleanup_env, vi_zip_open = (\<lambda>_. Inl ''zip''),
      vi_read_error = None\<rparr>"

definition demo_start :: vault_state where
  "demo_start = (vault_store_new [Normal ''v''], Map.empty)"

lemma demo_io_ok: "io_ok demo_lib demo_io"
  by (simp add: io_ok_def demo_io_def NONCE_LEN_def SALT_LEN_def)

lemma write_encrypted_no_faults:
  assumes "vi_faults io = no_faults" and "fs (temp_path_for (vi_tmp io) p) = None"
  shows "\<exists>fs'. write_encrypted io p v fs = (fs', Inr ())"
proof -
  let ?tmp = "temp_path_for (vi_tmp io) p"
  obtain bs where bs: "encode_vault v = Inr bs" by (simp add: encode_vault_def)
  have "snd (write_temp_then_replace no_faults ?tmp p bs fs) = Inr ()"
    using assms(2) last_write_prefixes [of fs ?tmp bs "length bs"]
    by (auto simp: write_temp_then_replace_def no_faults_def replace_file_def Let_def
        split: prod.splits)
  moreover have "create_parent no_faults p = Inr ()"
    by (auto simp: create_parent_def no_faults_def split: option.splits)
  ultimately show ?thesis
    by (auto simp: write_encrypted_def bs assms(1) write_atomic_def Let_def split: prod.splits)
qed

text \<open>The store after creating the workspace with the password \<open>secret\<close>.\<close>

lemma demo_created:
  "\<exists>snap fs. vault_create demo_io ''secret'' demo_start =
     (Inr snap, (\<lparr>vs_path = [Normal ''v''], vs_unlocked = Some \<lparr>uv_data = demo_data,
        uv_crypto = demo_session\<rparr>, vs_revision = 0\<rparr>, fs))
   \<and> fs (temp_path_for ''x'' [Normal ''v'']) = None"
proof -
  obtain v where v: "encrypt_with_password demo_lib (replicate 16 1) (replicate 24 7) ''secret''
    demo_data = Inr (v, demo_session)" using demo_encrypt by blast
  obtain fs' where w: "write_encrypted demo_io [Normal ''v''] v Map.empty = (fs', Inr ())"
    using write_encrypted_no_faults [of demo_io Map.empty] by (auto simp: demo_io_def)
  have tmp: "fs' (temp_path_for ''x'' [Normal ''v'']) = None"
    using write_encrypted_ok [OF w] temp_path_neq [of "''x''" "[Normal ''v'']"] by auto
  have f: "vi_lib demo_io = demo_lib" "vi_salt demo_io = replicate 16 1"
    "vi_nonce demo_io = replicate 24 7" "vi_uuid demo_io = ''g''" "vi_now demo_io = ''t''"
    by (simp_all add: demo_io_def)
  have pw: "''secret'' \<noteq> AUTO_PASSWORD" by (simp add: AUTO_PASSWORD_def)
  show ?thesis
    unfolding vault_create_def demo_start_def Let_def f demo_data_def [symmetric]
    using v w pw tmp by (simp add: vault_store_new_def)
qed

lemma demo_mutate:
  assumes "fs (temp_path_for ''x'' [Normal ''v'']) = None"
  shows "\<exists>st' fs'. mutate demo_io Inr (\<lparr>vs_path = [Normal ''v''], vs_unlocked =
     Some \<lparr>uv_data = demo_data, uv_crypto = demo_session\<rparr>, vs_revision = 0\<rparr>, fs)
     = (Inr \<lparr>cs_data = demo_data, cs_revision = 1\<rparr>, (st', fs'))"
proof -
  have touch: "vault_touch ''t'' demo_data = demo_data"
    by (simp add: demo_data_def vault_with_default_group_def vault_touch_def Let_def)
  have "\<exists>v. encrypt_with_session demo_lib (replicate 24 7) demo_session demo_data = Inr v"
    by (simp add: encrypt_with_session_def demo_lib_def demo_session_def KEY_LEN_def Let_def)
  then obtain v where v: "encrypt_with_session demo_lib (replicate 24 7) demo_session demo_data = Inr v"
    by blast
  obtain fs' where w: "write_encrypted demo_io [Normal ''v''] v fs = (fs', Inr ())"
    using write_encrypted_no_faults [of demo_io fs] assms by (auto simp: demo_io_def)
  have f: "vi_lib demo_io = demo_lib" "vi_nonce demo_io = replicate 24 7" "vi_now demo_io = ''t''"
    by (simp_all add: demo_io_def)
  show ?thesis
    using v w touch
    by (simp add: mutate_def mutate_with_def vault_unlocked_def f snapshot_for_def Let_def
        sat_add64_def u64_max_def)
qed

theorem mutate_transactional_witness:
  "\<exists>st fs st' fs' b v. vs_unlocked st = Some \<lparr>uv_data = demo_data, uv_crypto = demo_session\<rparr>
     \<and> mutate demo_io Inr (st, fs) = (Inr \<lparr>cs_data = demo_data, cs_revision = 1\<rparr>, (st', fs'))
     \<and> fs' (vs_path st') = Some b \<and> decode_vault demo_lib b = Inr v
     \<and> decrypt_with_password demo_lib ''secret'' v = Inr (demo_data, demo_session)"
proof -
  let ?st = "\<lparr>vs_path = [Normal ''v''], vs_unlocked = Some \<lparr>uv_data = demo_data,
        uv_crypto = demo_session\<rparr>, vs_revision = 0\<rparr>"
  obtain snap fs where c: "vault_create demo_io ''secret'' demo_start = (Inr snap, (?st, fs))"
    "fs (temp_path_for ''x'' [Normal ''v'']) = None" using demo_created by blast
  obtain st' fs' where m: "mutate demo_io Inr (?st, fs)
      = (Inr \<lparr>cs_data = demo_data, cs_revision = 1\<rparr>, (st', fs'))"
    using demo_mutate [of fs] c(2) by blast
  have "durable demo_lib ''secret'' (?st, fs)"
    using vault_create_ok [OF demo_lib_ok demo_io_ok c(1) [unfolded demo_start_def]] by blast
  from mutate_transactional [OF demo_lib_ok demo_io_ok this m] obtain b v where
    "fs' (vs_path st') = Some b \<and> decode_vault demo_lib b = Inr v
     \<and> decrypt_with_password demo_lib ''secret'' v = Inr (demo_data, demo_session)"
    by (simp only: sum.case) auto
  with m have "vs_unlocked ?st = Some \<lparr>uv_data = demo_data, uv_crypto = demo_session\<rparr>
     \<and> mutate demo_io Inr (?st, fs) = (Inr \<lparr>cs_data = demo_data, cs_revision = 1\<rparr>, (st', fs'))
     \<and> fs' (vs_path st') = Some b \<and> decode_vault demo_lib b = Inr v
     \<and> decrypt_with_password demo_lib ''secret'' v = Inr (demo_data, demo_session)"
    by simp
  then show ?thesis by blast
qed

end
