(* ===== verification/Vault_Reach.thy ===== *)
theory Vault_Reach
  imports Vault_Inv
begin

text \<open>
  The configuration invariant of the workspace, that each update keeps it, and the store as a state
  machine: every state reachable by creating a workspace, changing it through the operations of
  \<open>vault.rs\<close> and reopening it satisfies the invariant and is durable.
\<close>

section \<open>The invariant\<close>

definition groups_wf :: "session_group list \<Rightarrow> bool" where
  "groups_wf gs \<longleftrightarrow>
     distinct (map sg_id gs) \<and> length (filter (\<lambda>g. sg_sort_order g = 0) gs) = 1
     \<and> length gs \<le> Suc GROUP_CUSTOM_MAX_COUNT
     \<and> (\<forall>g\<in>set gs. \<forall>p. sg_parent_id g = Some p \<longrightarrow> p \<in> sg_id ` set gs)"

definition sessions_wf :: "string set \<Rightarrow> session_config list \<Rightarrow> bool" where
  "sessions_wf group_ids ss \<longleftrightarrow>
     distinct (map sc_id ss) \<and> distinct (map sc_name ss)
     \<and> (\<forall>s\<in>set ss. \<forall>g. sc_group_id s = Some g \<longrightarrow> g \<in> group_ids)"

definition tunnels_wf :: "string set \<Rightarrow> tunnel_config list \<Rightarrow> bool" where
  "tunnels_wf session_ids ts \<longleftrightarrow>
     distinct (map tc_id ts) \<and> (\<forall>t\<in>set ts. tc_session_id t \<in> session_ids)"

definition hosts_wf :: "known_host_entry list \<Rightarrow> bool" where
  "hosts_wf ks \<longleftrightarrow> distinct (map (\<lambda>k. (kh_host k, kh_port k)) ks)"

definition settings_wf :: "string set \<Rightarrow> app_settings \<Rightarrow> bool" where
  "settings_wf session_ids st \<longleftrightarrow>
     validate_settings st = Inr () \<and> ai_api_wf st
     \<and> set (as_ai_api_session_ids st) \<subseteq> session_ids \<and> distinct (as_ai_api_session_ids st)
     \<and> length (as_ai_api_session_ids st) \<le> 20"

definition vault_inv :: "vault_data \<Rightarrow> bool" where
  "vault_inv d \<longleftrightarrow>
     groups_wf (vd_groups d)
     \<and> sessions_wf (sg_id ` set (vd_groups d)) (vd_sessions d)
     \<and> tunnels_wf (sc_id ` set (vd_sessions d)) (vd_tunnels d)
     \<and> hosts_wf (vd_known_hosts d)
     \<and> settings_wf (sc_id ` set (vd_sessions d)) (vd_settings d)
     \<and> VAULT_DATA_VERSION \<le> vd_version d"

lemma vault_inv_touch [simp]: "vault_inv (vault_touch ts d) = vault_inv d"
  by (simp add: vault_inv_def vault_touch_def)

section \<open>Groups\<close>

lemma groups_wf_default:
  assumes "groups_wf gs"
  obtains g where "g \<in> set gs" "sg_sort_order g = 0" "default_group_of gs = Some (sg_id g)"
    "\<And>h. h \<in> set gs \<Longrightarrow> sg_sort_order h = 0 \<Longrightarrow> h = g"
proof -
  from assms have l: "length (filter (\<lambda>g. sg_sort_order g = 0) gs) = 1" by (simp add: groups_wf_def)
  then obtain g where f: "filter (\<lambda>g. sg_sort_order g = 0) gs = [g]"
    by (metis One_nat_def length_0_conv length_Suc_conv)
  have fs: "set gs \<inter> {g. sg_sort_order g = 0} = {g}"
    using arg_cong [OF f, of set] by auto
  have g: "g \<in> set gs" "sg_sort_order g = 0"
    using fs by auto
  have uniq: "h = g" if "h \<in> set gs" "sg_sort_order h = 0" for h
    using that fs by auto
  obtain h where h: "List.find (\<lambda>g. sg_sort_order g = 0) gs = Some h"
    using g by (metis (mono_tags, lifting) find_None_iff option.exhaust)
  then have "h = g" using uniq by (auto simp: find_Some_iff)
  with h have "default_group_of gs = Some (sg_id g)" by (simp add: default_group_of_def)
  with g uniq that show thesis by blast
qed

lemma custom_group_count_wf:
  assumes "groups_wf (vd_groups d)"
  shows "Suc (custom_group_count d) = length (vd_groups d)"
proof -
  from assms obtain g where g: "g \<in> set (vd_groups d)" "default_group_of (vd_groups d) = Some (sg_id g)"
    by (rule groups_wf_default)
  have dist: "distinct (map sg_id (vd_groups d))" using assms by (simp add: groups_wf_def)
  from split_list [OF g(1)] obtain us vs where s: "vd_groups d = us @ g # vs" by blast
  have "\<forall>h\<in>set us \<union> set vs. sg_id h \<noteq> sg_id g" using dist by (auto simp: s) (metis image_eqI)+
  then have "filter (\<lambda>h. sg_id h \<noteq> sg_id g) us = us" "filter (\<lambda>h. sg_id h \<noteq> sg_id g) vs = vs"
    by (auto intro!: filter_True)
  moreover have "default_group_id d = Some (sg_id g)" using g(2) by (simp add: default_group_id_def)
  ultimately show ?thesis by (simp add: custom_group_count_def s)
qed

lemma length_filter_via_map: "length (filter (\<lambda>x. P (f x)) xs) = length (filter P (map f xs))"
  by (simp add: filter_map comp_def)

lemma create_group_inv:
  assumes "vault_inv d" and "create_group_data io input d = Inr d'"
    and "vi_uuid io \<notin> sg_id ` set (vd_groups d)"
  shows "vault_inv d'"
proof -
  let ?n = "session_group_new (vi_uuid io) (vi_now_in io) input (of_nat (length (vd_groups d)))"
  from assms(2) have v: "validate_group_input d None input = Inr ()"
    and d': "d' = d\<lparr>vd_groups := vd_groups d @ [?n]\<rparr>"
    by (auto simp: create_group_data_def and_then_Inr_iff)
  have wf: "groups_wf (vd_groups d)" using assms(1) by (simp add: vault_inv_def)
  from v have count: "custom_group_count d < GROUP_CUSTOM_MAX_COUNT"
    and parent: "\<forall>p. gi_parent_id input = Some p \<longrightarrow> p \<in> sg_id ` set (vd_groups d)"
    by (auto simp: validate_group_input_def and_then_Inr_iff split: if_splits option.splits)
  have len: "length (vd_groups d) \<le> GROUP_CUSTOM_MAX_COUNT" "0 < length (vd_groups d)"
    using count custom_group_count_wf [OF wf] by linarith+
  then have "length (vd_groups d) < 2 ^ 32" by (simp add: GROUP_CUSTOM_MAX_COUNT_def)
  then have "unat (of_nat (length (vd_groups d)) :: 32 word) = length (vd_groups d)"
    by (simp add: unat_of_nat)
  then have "(of_nat (length (vd_groups d)) :: 32 word) \<noteq> 0"
    using len(2) by (metis less_numeral_extra(3) unsigned_0)
  then have "groups_wf (vd_groups d')"
    using wf parent len assms(3) by (auto simp: groups_wf_def d' session_group_new_def)
  moreover have "sg_id ` set (vd_groups d) \<subseteq> sg_id ` set (vd_groups d')" by (auto simp: d')
  ultimately show ?thesis
    using assms(1) by (auto simp: vault_inv_def d' sessions_wf_def)
qed

lemma update_group_inv:
  assumes "vault_inv d" and "update_group_data io group_id input d = Inr d'"
  shows "vault_inv d'"
proof -
  from assms(2) obtain gs where v: "validate_group_input d (Some group_id) input = Inr ()"
    and u: "update_first (\<lambda>g. sg_id g = group_id) (session_group_update (vi_now_in io) input)
              (vd_groups d) = Some gs" and d': "d' = d\<lparr>vd_groups := gs\<rparr>"
    by (auto simp: update_group_data_def and_then_Inr_iff)
  have ids: "map sg_id gs = map sg_id (vd_groups d)"
    and so: "map sg_sort_order gs = map sg_sort_order (vd_groups d)"
    using update_first_map [OF u, of sg_id] update_first_map [OF u, of sg_sort_order]
    by (simp_all add: session_group_update_def)
  have ids': "sg_id ` set gs = sg_id ` set (vd_groups d)" using ids by (metis list.set_map)
  from v have parent: "\<forall>p. gi_parent_id input = Some p \<longrightarrow> p \<in> sg_id ` set (vd_groups d)"
    by (auto simp: validate_group_input_def and_then_Inr_iff split: if_splits option.splits)
  have fl: "length (filter (\<lambda>g. sg_sort_order g = 0) gs)
          = length (filter (\<lambda>g. sg_sort_order g = 0) (vd_groups d))"
    using so length_filter_via_map [of "\<lambda>k. k = 0" sg_sort_order] by metis
  from u obtain us x vs where "vd_groups d = us @ x # vs"
    "gs = us @ session_group_update (vi_now_in io) input x # vs" by (rule update_first_SomeE)
  then have "\<forall>g\<in>set gs. \<forall>p. sg_parent_id g = Some p \<longrightarrow> p \<in> sg_id ` set gs"
    using assms(1) parent unfolding ids' vault_inv_def groups_wf_def
    by (auto simp: session_group_update_def)
  then have "groups_wf gs"
    using assms(1) ids fl map_eq_imp_length_eq [OF ids] by (simp add: vault_inv_def groups_wf_def)
  then show ?thesis using assms(1) ids' by (simp add: vault_inv_def d')
qed

lemma validate_settings_collapsed_filter:
  "validate_settings st = Inr () \<Longrightarrow>
   validate_settings (st\<lparr>as_collapsed_connection_section_ids :=
     filter P (as_collapsed_connection_section_ids st)\<rparr>) = Inr ()"
  by (auto simp: validate_settings_def and_then_Inr_iff validate_section_ids_from_ok
      validate_collapsed_connection_section_ids_def distinct_map inj_on_def split: if_splits
      dest: less_le_trans [OF _ length_filter_le])

lemma settings_wf_collapsed_filter:
  "settings_wf ids st \<Longrightarrow> settings_wf ids (st\<lparr>as_collapsed_connection_section_ids :=
     filter P (as_collapsed_connection_section_ids st)\<rparr>)"
  using validate_settings_collapsed_filter by (simp add: settings_wf_def ai_api_wf_def)

lemma delete_group_inv:
  assumes inv: "vault_inv d" and "delete_group_data group_id d = Inr d'"
  shows "vault_inv d'"
proof -
  let ?gs = "filter (\<lambda>g. sg_id g \<noteq> group_id) (vd_groups d)"
  let ?clear = "\<lambda>g. if sg_parent_id g = Some group_id then g\<lparr>sg_parent_id := None\<rparr> else g"
  let ?move = "\<lambda>s. if sc_group_id s = Some group_id then s\<lparr>sc_group_id := default_group_id d\<rparr> else s"
  from assms(2) have nd: "default_group_id d \<noteq> Some group_id"
    and d': "d' = d\<lparr>vd_groups := map ?clear ?gs, vd_sessions := map ?move (vd_sessions d),
       vd_settings := (vd_settings d)\<lparr>as_collapsed_connection_section_ids :=
         filter (\<lambda>i. i \<noteq> group_id) (as_collapsed_connection_section_ids (vd_settings d))\<rparr>\<rparr>"
    by (auto simp: delete_group_data_def Let_def is_default_group_id_def split: if_splits)
  have wf: "groups_wf (vd_groups d)" using inv by (simp add: vault_inv_def)
  from wf obtain g where g: "g \<in> set (vd_groups d)" "sg_sort_order g = 0"
    "default_group_id d = Some (sg_id g)" "\<And>h. h \<in> set (vd_groups d) \<Longrightarrow> sg_sort_order h = 0 \<Longrightarrow> h = g"
    unfolding default_group_id_def by (rule groups_wf_default) blast
  have ids: "map sg_id (map ?clear ?gs) = map sg_id ?gs" by simp
  have so: "length (filter (\<lambda>g. sg_sort_order g = 0) (map ?clear ?gs))
      = length (filter (\<lambda>g. sg_sort_order g = 0) ?gs)"
    by (simp add: filter_map comp_def if_distrib cong: if_cong)
  have "filter (\<lambda>g. sg_sort_order g = 0) ?gs = filter (\<lambda>g. sg_sort_order g = 0) (vd_groups d)"
    unfolding filter_filter
  proof (rule filter_cong [OF refl])
    fix h assume h: "h \<in> set (vd_groups d)"
    show "(sg_id h \<noteq> group_id \<and> sg_sort_order h = 0) = (sg_sort_order h = 0)"
      using g(3) g(4) [OF h] nd by auto
  qed
  then have one: "length (filter (\<lambda>g. sg_sort_order g = 0) (map ?clear ?gs)) = 1"
    using so wf by (simp add: groups_wf_def)
  have idset: "sg_id ` set (map ?clear ?gs) = sg_id ` set (vd_groups d) - {group_id}"
  proof -
    have "sg_id ` set (map ?clear ?gs) = set (map sg_id ?gs)" by (metis ids list.set_map)
    then show ?thesis by auto
  qed
  have "groups_wf (map ?clear ?gs)"
    unfolding groups_wf_def ids idset
    using wf one by (auto simp: groups_wf_def distinct_map_filter intro: le_trans [OF length_filter_le])
  moreover have "sessions_wf (sg_id ` set (vd_groups d) - {group_id}) (map ?move (vd_sessions d))"
  proof -
    have "map sc_id (map ?move (vd_sessions d)) = map sc_id (vd_sessions d)"
      "map sc_name (map ?move (vd_sessions d)) = map sc_name (vd_sessions d)" by simp_all
    note maps = this
    have sw: "sessions_wf (sg_id ` set (vd_groups d)) (vd_sessions d)"
      using inv by (simp add: vault_inv_def)
    have "i \<in> sg_id ` set (vd_groups d) - {group_id}"
      if s: "s \<in> set (vd_sessions d)" and i: "sc_group_id (?move s) = Some i" for s i
    proof (cases "sc_group_id s = Some group_id")
      case True
      then show ?thesis using i g(1,3) nd by auto
    next
      case False
      then show ?thesis using i s sw by (auto simp: sessions_wf_def)
    qed
    then have "\<forall>s\<in>?move ` set (vd_sessions d). \<forall>i. sc_group_id s = Some i \<longrightarrow>
        i \<in> sg_id ` set (vd_groups d) - {group_id}" by blast
    then show ?thesis using sw unfolding sessions_wf_def maps set_map by blast
  qed
  moreover have "sc_id ` set (map ?move (vd_sessions d)) = sc_id ` set (vd_sessions d)"
    unfolding set_map image_image by (rule image_cong) simp_all
  ultimately show ?thesis
    using inv idset settings_wf_collapsed_filter by (simp add: vault_inv_def d')
qed

section \<open>Sessions\<close>

lemma validate_session_input_ok:
  assumes "validate_session_input d sid input = Inr ()"
  shows "\<forall>g. si_group_id input = Some g \<longrightarrow> g \<in> sg_id ` set (vd_groups d)"
    and "\<forall>s\<in>set (vd_sessions d). Some (sc_id s) \<noteq> sid \<longrightarrow> sc_name s \<noteq> trim (si_name input)"
  using assms by (auto simp: validate_session_input_def split: if_splits option.splits)

lemma sessions_update_inv:
  assumes "vault_inv d" and "sc_id ` set ss = sc_id ` set (vd_sessions d)"
    and "sessions_wf (sg_id ` set (vd_groups d)) ss"
  shows "vault_inv (d\<lparr>vd_sessions := ss\<rparr>)"
  using assms by (simp add: vault_inv_def)

lemma create_session_inv:
  assumes "vault_inv d" and "create_session_data io input d = Inr d'"
    and "vi_uuid io \<notin> sc_id ` set (vd_sessions d)"
  shows "vault_inv d'"
proof -
  let ?n = "session_config_new (vi_uuid io) (vi_now_in io) input"
  from assms(2) have v: "validate_session_input d None input = Inr ()"
    and d': "d' = d\<lparr>vd_sessions := vd_sessions d @ [?n]\<rparr>"
    by (auto simp: create_session_data_def and_then_Inr_iff)
  have n: "sc_id ?n = vi_uuid io" "sc_name ?n = trim (si_name input)" "sc_group_id ?n = si_group_id input"
    by (simp_all add: session_config_new_def)
  have "sessions_wf (sg_id ` set (vd_groups d)) (vd_sessions d @ [?n])"
    using assms(1,3) validate_session_input_ok [OF v] by (auto simp: vault_inv_def sessions_wf_def n)
  moreover have "sc_id ` set (vd_sessions d) \<subseteq> sc_id ` set (vd_sessions d')" by (auto simp: d')
  ultimately show ?thesis
    using assms(1) by (auto simp: vault_inv_def d' tunnels_wf_def settings_wf_def)
qed

lemma edit_session_inv:
  assumes "vault_inv d" and "edit_session sid f d = Inr d'"
    and "\<And>s. sc_id (f s) = sc_id s" and "\<And>s. sc_name (f s) = sc_name s"
    and "\<And>s. sc_group_id (f s) = sc_group_id s"
  shows "vault_inv d'"
proof -
  from assms(2) obtain ss where u: "update_first (\<lambda>s. sc_id s = sid) f (vd_sessions d) = Some ss"
    and d': "d' = d\<lparr>vd_sessions := ss\<rparr>" by (auto simp: edit_session_def and_then_Inr_iff)
  have m: "map sc_id ss = map sc_id (vd_sessions d)" "map sc_name ss = map sc_name (vd_sessions d)"
    "map sc_group_id ss = map sc_group_id (vd_sessions d)"
    using update_first_map [OF u, of sc_id] update_first_map [OF u, of sc_name]
      update_first_map [OF u, of sc_group_id] assms(3-5) by simp_all
  have "sc_group_id ` set ss = sc_group_id ` set (vd_sessions d)"
    "sc_id ` set ss = sc_id ` set (vd_sessions d)" using m by (metis list.set_map)+
  moreover from this(1) have "sessions_wf (sg_id ` set (vd_groups d)) ss"
    using assms(1) m(1,2) unfolding vault_inv_def sessions_wf_def
    by simp (metis (no_types, lifting) image_iff)
  ultimately show ?thesis unfolding d' using assms(1) by (intro sessions_update_inv)
qed

lemma update_session_inv:
  assumes "vault_inv d" and "update_session_data io sid input d = Inr d'"
  shows "vault_inv d'"
proof -
  let ?f = "session_config_update (vi_now_in io) input"
  from assms(2) obtain ss where v: "validate_session_input d (Some sid) input = Inr ()"
    and u: "update_first (\<lambda>s. sc_id s = sid) ?f (vd_sessions d) = Some ss"
    and d': "d' = d\<lparr>vd_sessions := ss\<rparr>"
    by (auto simp: update_session_data_def edit_session_def and_then_Inr_iff)
  have f: "sc_id (?f s) = sc_id s" "sc_name (?f s) = trim (si_name input)"
    "sc_group_id (?f s) = si_group_id input" for s by (simp_all add: session_config_update_def)
  note ok = validate_session_input_ok [OF v]
  from u obtain us x vs where s: "vd_sessions d = us @ x # vs" "ss = us @ ?f x # vs" "sc_id x = sid"
    by (rule update_first_SomeE)
  have wf: "sessions_wf (sg_id ` set (vd_groups d)) (us @ x # vs)"
    using assms(1) s by (simp add: vault_inv_def)
  have other: "sc_id y \<noteq> sid" if "y \<in> set us \<union> set vs" for y
    using wf s(3) that by (auto simp: sessions_wf_def image_iff)
  have "\<forall>y\<in>set us \<union> set vs. sc_name y \<noteq> trim (si_name input)"
    using ok(2) other s(1) by auto
  then have "sessions_wf (sg_id ` set (vd_groups d)) ss"
    using wf ok(1) by (auto simp: s(2) sessions_wf_def f)
  then show ?thesis
    unfolding d' using assms(1) by (intro sessions_update_inv) (auto simp: s f)
qed

lemma distinct_map_filter_id: "distinct (map f xs) \<Longrightarrow> distinct (map f (filter P xs))"
  by (simp add: distinct_map_filter)

lemma validate_settings_ai:
  "validate_settings (st\<lparr>as_ai_api_session_ids := a, as_ai_api_session_id := b,
     as_ai_api_auto_start := c\<rparr>) = validate_settings st"
  by (simp add: validate_settings_def)

lemma delete_session_settings_wf:
  assumes "settings_wf ids st" and "sc_id ` set remaining = ids - {sid}"
  shows "settings_wf (ids - {sid}) (delete_session_settings sid remaining st)"
proof -
  define keep where "keep = filter (\<lambda>i. i \<noteq> sid) (as_ai_api_session_ids st)"
  define ids' where "ids' = (if keep = [] \<and> as_ai_api_session_id st \<noteq> Some sid
      then (case as_ai_api_session_id st of
              Some i \<Rightarrow> if \<exists>s\<in>set remaining. sc_id s = i then [i] else [] | None \<Rightarrow> [])
      else keep)"
  have eq: "delete_session_settings sid remaining st = st\<lparr>as_ai_api_session_ids := ids',
      as_ai_api_session_id := head_option ids',
      as_ai_api_auto_start := (ids' \<noteq> [] \<and> as_ai_api_auto_start st)\<rparr>"
    by (simp add: delete_session_settings_def ids'_def keep_def Let_def)
  have keep: "distinct keep" "set keep \<subseteq> ids - {sid}" "length keep \<le> 20"
    using assms(1) by (auto simp: keep_def settings_wf_def intro: le_trans [OF length_filter_le])
  have "distinct ids' \<and> set ids' \<subseteq> ids - {sid} \<and> length ids' \<le> 20"
  proof (cases "keep = [] \<and> as_ai_api_session_id st \<noteq> Some sid")
    case True
    then show ?thesis using assms(2) by (auto simp: ids'_def split: option.splits)
  next
    case False
    then show ?thesis using keep by (auto simp: ids'_def)
  qed
  then show ?thesis
    unfolding eq settings_wf_def validate_settings_ai
    using assms(1) by (simp add: settings_wf_def ai_api_wf_def)
qed

lemma delete_session_inv:
  assumes inv: "vault_inv d" and "delete_session_data sid d = Inr d'"
  shows "vault_inv d'"
proof -
  let ?ss = "filter (\<lambda>s. sc_id s \<noteq> sid) (vd_sessions d)"
  from assms(2) have d': "d' = d\<lparr>vd_sessions := ?ss,
      vd_tunnels := filter (\<lambda>t. tc_session_id t \<noteq> sid) (vd_tunnels d),
      vd_settings := delete_session_settings sid ?ss (vd_settings d)\<rparr>"
    by (auto simp: delete_session_data_def Let_def split: if_splits)
  have ids: "sc_id ` set ?ss = sc_id ` set (vd_sessions d) - {sid}" by auto
  have "sessions_wf (sg_id ` set (vd_groups d)) ?ss"
    "tunnels_wf (sc_id ` set (vd_sessions d) - {sid})
       (filter (\<lambda>t. tc_session_id t \<noteq> sid) (vd_tunnels d))"
    using inv by (auto simp: vault_inv_def sessions_wf_def tunnels_wf_def distinct_map_filter_id)
  with inv delete_session_settings_wf [OF _ ids, of "vd_settings d"] show ?thesis
    by (simp add: vault_inv_def d' ids del: set_filter)
qed

section \<open>Tunnels and host keys\<close>

lemma validate_tunnel_input_ok:
  "validate_tunnel_input d input = Inr () \<Longrightarrow> ti_session_id input \<in> sc_id ` set (vd_sessions d)"
proof -
  assume "validate_tunnel_input d input = Inr ()"
  then have "\<exists>s\<in>set (vd_sessions d). sc_id s = ti_session_id input"
    by (simp add: validate_tunnel_input_def split: if_splits)
  then show ?thesis by (metis image_eqI)
qed

lemma create_tunnel_inv:
  assumes "vault_inv d" and "create_tunnel_data io input d = Inr d'"
    and "vi_uuid io \<notin> tc_id ` set (vd_tunnels d)"
  shows "vault_inv d'"
  using assms validate_tunnel_input_ok [of d input]
  by (auto simp: create_tunnel_data_def and_then_Inr_iff vault_inv_def tunnels_wf_def
      tunnel_config_new_def)

lemma update_tunnels_inv:
  assumes "vault_inv d" and u: "update_first (\<lambda>t. tc_id t = tid) f (vd_tunnels d) = Some ts"
    and "\<And>t. tc_id (f t) = tc_id t"
    and "\<And>t. t \<in> set (vd_tunnels d) \<Longrightarrow> tc_session_id (f t) \<in> sc_id ` set (vd_sessions d)"
  shows "vault_inv (d\<lparr>vd_tunnels := ts\<rparr>)"
proof -
  have ids: "map tc_id ts = map tc_id (vd_tunnels d)" using update_first_map [OF u, of tc_id] assms(3) by simp
  from u obtain us x vs where "vd_tunnels d = us @ x # vs" "ts = us @ f x # vs"
    by (rule update_first_SomeE)
  then have "\<forall>t\<in>set ts. tc_session_id t \<in> sc_id ` set (vd_sessions d)"
    using assms(1,4) by (auto simp: vault_inv_def tunnels_wf_def)
  with ids assms(1) show ?thesis by (simp add: vault_inv_def tunnels_wf_def)
qed

lemma set_tunnel_enabled_inv:
  assumes "vault_inv d" and "set_tunnel_enabled_data io tid b d = Inr d'"
  shows "vault_inv d'"
proof -
  from assms(1) have "\<forall>t\<in>set (vd_tunnels d). tc_session_id t \<in> sc_id ` set (vd_sessions d)"
    by (simp add: vault_inv_def tunnels_wf_def)
  with assms show ?thesis
    by (auto simp: set_tunnel_enabled_data_def and_then_Inr_iff intro!: update_tunnels_inv)
qed

lemma update_tunnel_inv:
  assumes "vault_inv d" and "update_tunnel_data io tid input d = Inr d'"
  shows "vault_inv d'"
  using assms validate_tunnel_input_ok [of d input]
  by (auto simp: update_tunnel_data_def and_then_Inr_iff tunnel_config_update_def
      intro!: update_tunnels_inv)

lemma delete_tunnel_inv:
  assumes "vault_inv d" and "delete_tunnel_data tid d = Inr d'"
  shows "vault_inv d'"
  using assms
  by (auto simp: delete_tunnel_data_def vault_inv_def tunnels_wf_def distinct_map_filter_id Let_def
      split: if_splits)

lemma trust_host_key_inv:
  assumes "vault_inv d" and "trust_host_key_data io sid host port alg fp d = Inr d'"
  shows "vault_inv d'"
proof -
  let ?f = "\<lambda>s. s\<lparr>sc_ssh := (sc_ssh s)\<lparr>so_host_key_fingerprint := Some fp\<rparr>\<rparr>"
  from assms(2) obtain x where x: "List.find (\<lambda>s. sc_id s = sid) (vd_sessions d) = Some x"
    by (auto simp: trust_host_key_data_def split: option.splits)
  define e where "e = \<lparr>kh_host = sc_host x, kh_port = port, kh_algorithm = alg,
      kh_fingerprint = fp, kh_trusted_at = vi_now_in io\<rparr>"
  let ?p = "\<lambda>k. kh_host k = sc_host x \<and> kh_port k = port"
  obtain ss where ss: "update_first (\<lambda>s. sc_id s = sid) ?f (vd_sessions d) = Some ss"
  proof -
    have "x \<in> set (vd_sessions d)" "sc_id x = sid" using x by (auto simp: find_Some_iff)
    then have "update_first (\<lambda>s. sc_id s = sid) ?f (vd_sessions d) \<noteq> None"
      unfolding update_first_None by blast
    then show thesis using that by blast
  qed
  define ks where "ks = (case update_first ?p (\<lambda>_. e) (vd_known_hosts d) of
      Some ks' \<Rightarrow> ks' | None \<Rightarrow> vd_known_hosts d @ [e])"
  have d': "d' = d\<lparr>vd_sessions := ss\<rparr>\<lparr>vd_known_hosts := ks\<rparr>"
    unfolding ks_def e_def using assms(2) x ss
    by (auto simp: trust_host_key_data_def Let_def split: if_splits)
  have "edit_session sid ?f d = Inr (d\<lparr>vd_sessions := ss\<rparr>)" using ss by (simp add: edit_session_def)
  from edit_session_inv [OF assms(1) this] have s: "vault_inv (d\<lparr>vd_sessions := ss\<rparr>)" by simp
  have "hosts_wf ks"
  proof (cases "update_first ?p (\<lambda>_. e) (vd_known_hosts d)")
    case None
    then have "ks = vd_known_hosts d @ [e]" unfolding ks_def by (simp del: update_first_None)
    then show ?thesis using None assms(1) by (auto simp: vault_inv_def hosts_wf_def e_def)
  next
    case (Some ks')
    then obtain us k vs where "vd_known_hosts d = us @ k # vs" "ks' = us @ e # vs" "?p k"
      by (rule update_first_SomeE)
    then have "map (\<lambda>k. (kh_host k, kh_port k)) ks' = map (\<lambda>k. (kh_host k, kh_port k)) (vd_known_hosts d)"
      by (simp add: e_def)
    moreover have "ks = ks'" using Some by (simp add: ks_def)
    ultimately show ?thesis using assms(1) by (simp add: vault_inv_def hosts_wf_def)
  qed
  with s show ?thesis by (simp add: vault_inv_def d')
qed

section \<open>Settings and backup records\<close>

text \<open>An update that only touches settings, validates them and leaves the AI API selection alone.\<close>

lemma validated_inv:
  assumes "vault_inv d" and "validated (d\<lparr>vd_settings := st\<rparr>) = Inr d'"
    and "as_ai_api_session_ids st = as_ai_api_session_ids (vd_settings d)"
    and "as_ai_api_session_id st = as_ai_api_session_id (vd_settings d)"
    and "as_ai_api_auto_start st = as_ai_api_auto_start (vd_settings d)"
  shows "vault_inv d'"
  using assms
  by (auto simp: validated_def and_then_Inr_iff vault_inv_def settings_wf_def ai_api_wf_def)

lemma vault_inv_records: "vault_inv (d\<lparr>vd_backup_records := rs\<rparr>) = vault_inv d"
  by (simp add: vault_inv_def)

lemma prune_inv: "vault_inv (fst (prune_backup_records io prev d)) = vault_inv d"
  by (simp add: prune_backup_records_def Let_def vault_inv_records)

lemma quick_command_upsert_inv:
  "vault_inv d \<Longrightarrow> quick_command_upsert_update c d = Inr d' \<Longrightarrow> vault_inv d'"
  unfolding quick_command_upsert_update_def Let_def by (erule (1) validated_inv) simp_all

lemma quick_command_delete_inv:
  "vault_inv d \<Longrightarrow> quick_command_delete_update i d = Inr d' \<Longrightarrow> vault_inv d'"
  unfolding quick_command_delete_update_def Let_def
  by (auto split: if_splits dest: validated_inv)

lemma collect_session_ids_ok:
  assumes "collect_session_ids d acc raws = Inr ids"
    and "distinct acc" "set acc \<subseteq> sc_id ` set (vd_sessions d)" "length acc \<le> 20"
  shows "distinct ids \<and> set ids \<subseteq> sc_id ` set (vd_sessions d) \<and> length ids \<le> 20"
  using assms
proof (induction d acc raws rule: collect_session_ids.induct)
  case (2 d acc raw rest)
  show ?case
  proof (cases "trim raw = [] \<or> trim raw \<in> set acc")
    case True
    with 2 show ?thesis by (auto simp: Let_def)
  next
    case False
    with "2.prems" have c: "length acc < 20" "\<exists>s\<in>set (vd_sessions d). sc_id s = trim raw"
      "collect_session_ids d (acc @ [trim raw]) rest = Inr ids"
      by (auto simp: Let_def split: if_splits)
    moreover have "distinct (acc @ [trim raw])" "length (acc @ [trim raw]) \<le> 20"
      "set (acc @ [trim raw]) \<subseteq> sc_id ` set (vd_sessions d)"
      using "2.prems" False c by auto (metis image_eqI)
    ultimately show ?thesis using "2.IH"(2) [OF refl False] by (meson not_le)
  qed
qed simp

lemma settings_ai_api_inv:
  assumes "vault_inv d" and "settings_ai_api_update_data u d = Inr d'"
  shows "vault_inv d'"
proof -
  from assms(2) obtain ids where c: "collect_session_ids d [] (aiu_session_ids u) = Inr ids"
    and ne: "aiu_auto_start u \<longrightarrow> ids \<noteq> []"
    and v: "validated (map_settings (\<lambda>st. st\<lparr>as_ai_api_session_id := head_option ids,
               as_ai_api_session_ids := ids, as_ai_api_port := aiu_port u,
               as_ai_api_auto_start := aiu_auto_start u\<rparr>) d) = Inr d'"
    by (auto simp: settings_ai_api_update_data_def and_then_Inr_iff split: if_splits)
  from collect_session_ids_ok [OF c] v ne assms(1) show ?thesis
    by (auto simp: validated_def and_then_Inr_iff vault_inv_def settings_wf_def ai_api_wf_def)
qed

lemma connection_section_state_inv:
  assumes "vault_inv d" and "connection_section_state_data ids d = Inr d'"
  shows "vault_inv d'"
  using assms
  by (auto simp: connection_section_state_data_def Let_def and_then_Inr_iff vault_inv_def
      settings_wf_def ai_api_wf_def validate_settings_def)

lemma delete_backup_record_inv:
  "vault_inv d \<Longrightarrow> delete_backup_record_data io i b d = Inr (d', t) \<Longrightarrow> vault_inv d'"
  by (auto simp: delete_backup_record_data_def and_then_Inr_iff vault_inv_records)

section \<open>The store as a state machine\<close>

text \<open>The ids \<open>Uuid::new\_v4\<close> draws are new.\<close>

definition fresh_uuid :: "vault_io \<Rightarrow> vault_state \<Rightarrow> bool" where
  "fresh_uuid io s \<longleftrightarrow>
     (\<forall>d. mem_data s = Some d \<longrightarrow>
        vi_uuid io \<notin> sg_id ` set (vd_groups d) \<union> sc_id ` set (vd_sessions d) \<union> tc_id ` set (vd_tunnels d))"

inductive vault_step :: "vault_io \<Rightarrow> vault_state \<Rightarrow> vault_state \<Rightarrow> bool" for io where
  "vault_step io s (snd (settings_proxy_update io proxy s))"
| "vault_step io s (snd (settings_backup_update io bset s))"
| "vault_step io s (snd (quick_command_upsert io cmd s))"
| "vault_step io s (snd (quick_command_delete io i s))"
| "vault_step io s (snd (settings_ai_api_update io ai s))"
| "vault_step io s (snd (settings_ai_api_key_update io key s))"
| "vault_step io s (snd (settings_ignore_update_version io v s))"
| "vault_step io s (snd (connection_section_state_update io is s))"
| "vault_step io s (snd (create_tunnel io tin s))"
| "vault_step io s (snd (set_tunnel_enabled io i b s))"
| "vault_step io s (snd (update_tunnel io i tin s))"
| "vault_step io s (snd (delete_tunnel io i s))"
| "vault_step io s (snd (replace_backup_records io rs s))"
| "vault_step io s (snd (delete_backup_record io i b s))"
| "vault_step io s (snd (trust_host_key io i host port alg fp s))"
| "vault_step io s (snd (create_group io gin s))"
| "vault_step io s (snd (update_group io i gin s))"
| "vault_step io s (snd (delete_group io i s))"
| "vault_step io s (snd (create_session io sin s))"
| "vault_step io s (snd (update_session io i sin s))"
| "vault_step io s (snd (set_session_favorite io i b s))"
| "vault_step io s (snd (mark_session_recent io i s))"
| "vault_step io s (snd (clear_session_recent io i s))"
| "vault_step io s (snd (delete_session io i s))"

text \<open>What every reachable state satisfies.\<close>

definition vault_ok :: "crypto_lib \<Rightarrow> string \<Rightarrow> vault_state \<Rightarrow> bool" where
  "vault_ok L pw s \<longleftrightarrow> durable L pw s \<and> (\<exists>d. mem_data s = Some d \<and> vault_inv d)"

lemma mutate_with_vault_ok:
  assumes "crypto_lib_ok L" "io_ok L io" "vault_ok L pw s"
    and "\<And>d d' x. mem_data s = Some d \<Longrightarrow> vault_inv d \<Longrightarrow> f d = Inr (d', x) \<Longrightarrow> vault_inv d'"
  shows "vault_ok L pw (snd (mutate_with io f s))"
proof -
  from assms(3) obtain d where d: "mem_data s = Some d" "vault_inv d" "durable L pw s"
    by (auto simp: vault_ok_def)
  have "\<exists>d'. mem_data (snd (mutate_with (fst (io, f)) (snd (io, f)) s)) = Some d' \<and> vault_inv d'"
    using d assms(4) by (intro vtx.commit_keeps [of _ d]) (auto simp: apply_update_def split: sum.splits)
  then show ?thesis using mutate_with_durable [OF assms(1,2) d(3)] by (simp add: vault_ok_def)
qed

lemma mutate_vault_ok:
  assumes "crypto_lib_ok L" "io_ok L io" "vault_ok L pw s"
    and "\<And>d d'. mem_data s = Some d \<Longrightarrow> vault_inv d \<Longrightarrow> f d = Inr d' \<Longrightarrow> vault_inv d'"
  shows "vault_ok L pw (snd (mutate io f s))"
  unfolding mutate_state
  by (rule mutate_with_vault_ok [OF assms(1-3)]) (auto simp: and_then_Inr_iff intro: assms(4))

text \<open>The situation of a step, and one lemma per operation.\<close>

named_theorems vault_keeps \<open>operations that keep the store well-formed\<close>

definition step_env :: "crypto_lib \<Rightarrow> vault_io \<Rightarrow> string \<Rightarrow> vault_state \<Rightarrow> bool" where
  "step_env L io pw s \<longleftrightarrow> crypto_lib_ok L \<and> io_ok L io \<and> vault_ok L pw s \<and> fresh_uuid io s"

lemma step_env_ok: "step_env L io pw s \<Longrightarrow> vault_ok L pw s"
  by (simp add: step_env_def)

lemma step_mutate:
  assumes "step_env L io pw s"
    and "\<And>d d'. vault_inv d \<Longrightarrow> f d = Inr d' \<Longrightarrow>
      vi_uuid io \<notin> sg_id ` set (vd_groups d) \<Longrightarrow> vi_uuid io \<notin> sc_id ` set (vd_sessions d) \<Longrightarrow>
      vi_uuid io \<notin> tc_id ` set (vd_tunnels d) \<Longrightarrow> vault_inv d'"
  shows "vault_ok L pw (snd (mutate io f s))"
  using assms by (intro mutate_vault_ok) (auto simp: step_env_def fresh_uuid_def)

lemma step_mutate_with:
  assumes "step_env L io pw s"
    and "\<And>d d' x. vault_inv d \<Longrightarrow> f d = Inr (d', x) \<Longrightarrow> vault_inv d'"
  shows "vault_ok L pw (snd (mutate_with io f s))"
  using assms by (intro mutate_with_vault_ok) (auto simp: step_env_def)

lemma settings_proxy_update_ok [vault_keeps]:
  "step_env L io pw s \<Longrightarrow> vault_ok L pw (snd (settings_proxy_update io proxy s))"
  unfolding settings_proxy_update_def by (erule step_mutate, erule (1) validated_inv) simp_all

lemma settings_backup_update_ok [vault_keeps]:
  "step_env L io pw s \<Longrightarrow> vault_ok L pw (snd (settings_backup_update io bset s))"
  unfolding settings_backup_update_def
proof (erule step_mutate_with)
  fix d d' x
  assume inv: "vault_inv d" and "(let previous = as_backup (vd_settings d) in
    and_then (validated (map_settings (\<lambda>st. st\<lparr>as_backup := bset\<rparr>) d)) (\<lambda>d'.
      Inr (prune_backup_records io (Some previous) d'))) = Inr (d', x)"
  then obtain e where e: "validated (map_settings (\<lambda>st. st\<lparr>as_backup := bset\<rparr>) d) = Inr e"
    "prune_backup_records io (Some (as_backup (vd_settings d))) e = (d', x)"
    by (auto simp: Let_def and_then_Inr_iff)
  from validated_inv [OF inv e(1)] have "vault_inv e" by simp
  then show "vault_inv d'" using prune_inv [of io _ e] e(2) by (metis fst_conv)
qed

lemma quick_command_ok [vault_keeps]:
  "step_env L io pw s \<Longrightarrow> vault_ok L pw (snd (quick_command_upsert io cmd s))"
  "step_env L io pw s \<Longrightarrow> vault_ok L pw (snd (quick_command_delete io i s))"
  unfolding quick_command_upsert_def quick_command_delete_def Let_def
  by (auto intro!: step_mutate intro: step_env_ok elim: quick_command_upsert_inv quick_command_delete_inv)

lemma settings_misc_ok [vault_keeps]:
  "step_env L io pw s \<Longrightarrow> vault_ok L pw (snd (settings_ai_api_update io ai s))"
  "step_env L io pw s \<Longrightarrow> vault_ok L pw (snd (connection_section_state_update io is s))"
  "step_env L io pw s \<Longrightarrow> vault_ok L pw (snd (trust_host_key io i host port alg fp s))"
  unfolding settings_ai_api_update_def connection_section_state_update_def trust_host_key_def
  by (erule step_mutate, blast intro: settings_ai_api_inv connection_section_state_inv
      trust_host_key_inv)+

lemma settings_ai_api_key_update_ok [vault_keeps]:
  "step_env L io pw s \<Longrightarrow> vault_ok L pw (snd (settings_ai_api_key_update io key s))"
  unfolding settings_ai_api_key_update_def by (erule step_mutate, erule (1) validated_inv) simp_all

lemma ignore_update_version_inv:
  "vault_inv d \<Longrightarrow> ignore_update_version_data v d = Inr d' \<Longrightarrow> vault_inv d'"
  unfolding ignore_update_version_data_def by (erule (1) validated_inv) simp_all

lemma settings_ignore_update_version_ok [vault_keeps]:
  "step_env L io pw s \<Longrightarrow> vault_ok L pw (snd (settings_ignore_update_version io v s))"
  unfolding settings_ignore_update_version_def Let_def
  by (auto intro!: step_mutate intro: step_env_ok elim: ignore_update_version_inv
      simp del: dropWhile_eq_Nil_conv)

lemma tunnel_ops_ok [vault_keeps]:
  "step_env L io pw s \<Longrightarrow> vault_ok L pw (snd (create_tunnel io tin s))"
  "step_env L io pw s \<Longrightarrow> vault_ok L pw (snd (update_tunnel io i tin s))"
  "step_env L io pw s \<Longrightarrow> vault_ok L pw (snd (delete_tunnel io i s))"
  unfolding create_tunnel_def update_tunnel_def delete_tunnel_def
  by (erule step_mutate, blast intro: create_tunnel_inv update_tunnel_inv delete_tunnel_inv)+

lemma set_tunnel_enabled_ok [vault_keeps]:
  "step_env L io pw s \<Longrightarrow> vault_ok L pw (snd (set_tunnel_enabled io i b s))"
  unfolding set_tunnel_enabled_def
  by (auto intro!: step_mutate intro: step_env_ok set_tunnel_enabled_inv split: sum.splits)

lemma backup_record_ops_ok [vault_keeps]:
  "step_env L io pw s \<Longrightarrow> vault_ok L pw (snd (replace_backup_records io rs s))"
  "step_env L io pw s \<Longrightarrow> vault_ok L pw (snd (delete_backup_record io i b s))"
  unfolding replace_backup_records_def delete_backup_record_def
   apply (erule step_mutate_with)
   apply (metis (no_types, lifting) fst_conv prune_inv sum.inject(2) vault_inv_records)
  by (erule step_mutate_with) (rule delete_backup_record_inv)

lemma group_ops_ok [vault_keeps]:
  "step_env L io pw s \<Longrightarrow> vault_ok L pw (snd (create_group io gin s))"
  "step_env L io pw s \<Longrightarrow> vault_ok L pw (snd (update_group io i gin s))"
  "step_env L io pw s \<Longrightarrow> vault_ok L pw (snd (delete_group io i s))"
  unfolding create_group_def update_group_def delete_group_def
  by (erule step_mutate, blast intro: create_group_inv update_group_inv delete_group_inv)+

lemma session_ops_ok [vault_keeps]:
  "step_env L io pw s \<Longrightarrow> vault_ok L pw (snd (create_session io sin s))"
  "step_env L io pw s \<Longrightarrow> vault_ok L pw (snd (update_session io i sin s))"
  "step_env L io pw s \<Longrightarrow> vault_ok L pw (snd (delete_session io i s))"
  unfolding create_session_def update_session_def delete_session_def
  by (erule step_mutate, blast intro: create_session_inv update_session_inv delete_session_inv)+

lemma session_marks_ok [vault_keeps]:
  "step_env L io pw s \<Longrightarrow> vault_ok L pw (snd (set_session_favorite io i b s))"
  "step_env L io pw s \<Longrightarrow> vault_ok L pw (snd (mark_session_recent io i s))"
  "step_env L io pw s \<Longrightarrow> vault_ok L pw (snd (clear_session_recent io i s))"
  unfolding set_session_favorite_def mark_session_recent_def clear_session_recent_def
  by (erule step_mutate, erule (1) edit_session_inv; simp)+

lemma vault_step_ok: "vault_step io s s' \<Longrightarrow> step_env L io pw s \<Longrightarrow> vault_ok L pw s'"
  by (induction rule: vault_step.induct) (assumption | rule vault_keeps)+

text \<open>Creating, changing, and closing and reopening a workspace with its password.\<close>

inductive vault_reachable :: "crypto_lib \<Rightarrow> string \<Rightarrow> vault_state \<Rightarrow> bool" for L pw where
  created: "io_ok L io \<Longrightarrow> vault_create io pw (vault_store_new p, fs) = (Inr snap, s) \<Longrightarrow>
     vault_reachable L pw s"
| changed: "vault_reachable L pw s \<Longrightarrow> io_ok L io \<Longrightarrow> fresh_uuid io s \<Longrightarrow> vault_step io s s' \<Longrightarrow>
     vault_reachable L pw s'"
| reopened: "vault_reachable L pw s \<Longrightarrow> io_ok L io \<Longrightarrow>
     vault_unlock io pw (vault_store_new (vs_path (fst s)), snd s) = (Inr snap, s') \<Longrightarrow>
     vault_reachable L pw s'"

lemma default_settings_valid: "validate_settings app_settings_default = Inr ()"
  by (simp add: validate_settings_def app_settings_default_def validate_backup_settings_def
      backup_settings_default_def default_backup_frequency_def default_backup_retention_count_def
      cloud_backup_settings_default_def validate_quick_commands_def
      validate_collapsed_connection_section_ids_def)

lemma with_default_group_inv: "vault_inv (vault_with_default_group uuid t1 t2 t3)"
  by (simp add: vault_inv_def vault_with_default_group_def vault_data_empty_def vault_touch_def
      groups_wf_def session_group_new_def sessions_wf_def tunnels_wf_def hosts_wf_def settings_wf_def
      default_settings_valid Let_def)
     (simp add: app_settings_default_def ai_api_wf_def)

lemma vault_inv_migrate: "vault_inv d \<Longrightarrow> migrate_vault_data ts d = (d, False)"
  by (rule migrate_fixed) (simp_all add: vault_inv_def settings_wf_def)

lemma reopen_mem:
  assumes "crypto_lib_ok L" "io_ok L io" "vault_ok L pw s"
    and "vault_unlock io pw (vault_store_new (vs_path (fst s)), snd s) = (Inr snap, s')"
  shows "durable L pw s' \<and> mem_data s' = mem_data s"
proof -
  from assms(3) obtain u where u: "vs_unlocked (fst s) = Some u" "vault_inv (uv_data u)"
    by (auto simp: vault_ok_def mem_data_def)
  obtain b v where f: "snd s (vs_path (fst s)) = Some b" "decode_vault L b = Inr v"
    "decrypt_with_password L pw v = Inr (uv_data u, uv_crypto u)"
    using assms(3) u(1) by (auto simp: vault_ok_def durable_def)
  from vault_unlock_ok [OF assms(1,2,4)] f
  have "durable L pw s'" "mem_data s' = Some (fst (migrate_vault_data (vi_now io) (uv_data u)))"
    by (auto simp: vault_store_new_def)
  then show ?thesis using u vault_inv_migrate by (simp add: mem_data_def)
qed

lemma vault_reachable_ok:
  assumes "crypto_lib_ok L" and "vault_reachable L pw s"
  shows "vault_ok L pw s"
  using assms(2)
proof induction
  case (created io p fs snap s)
  from vault_create_ok [OF assms(1) this] show ?case by (simp add: vault_ok_def with_default_group_inv)
next
  case (changed s io s')
  then show ?case using vault_step_ok assms(1) by (simp add: step_env_def)
next
  case (reopened s io snap s')
  have "durable L pw s' \<and> mem_data s' = mem_data s"
    by (rule reopen_mem [OF assms(1) reopened.hyps(2) reopened.IH reopened.hyps(3)])
  with reopened.IH show ?case unfolding vault_ok_def by simp
qed

text \<open>C7: in every state reachable by creating a workspace, running any operations of the store on it
  (each with whatever input and whatever disk failures) and reopening it, the configuration in memory
  is consistent: group, parent, session and tunnel references resolve, ids, session names and known
  hosts are unique, there is exactly one default group and at most ten others, the AI API selection
  names existing sessions, and the settings validate. The vault file decrypts to that configuration.\<close>

theorem vault_reachable_consistent:
  assumes "crypto_lib_ok L" and "vault_reachable L pw s"
  shows "(\<exists>d. mem_data s = Some d \<and> vault_inv d) \<and> durable L pw s"
  using vault_reachable_ok [OF assms] by (simp add: vault_ok_def)

theorem vault_reachable_consistent_witness:
  "\<exists>s. vault_reachable demo_lib ''secret'' s \<and> durable demo_lib ''secret'' s"
proof -
  obtain snap s where "vault_create demo_io ''secret'' demo_start = (Inr snap, s)"
    using demo_created by blast
  then have r: "vault_reachable demo_lib ''secret'' s"
    using vault_reachable.created [OF demo_io_ok] by (simp add: demo_start_def)
  with vault_reachable_consistent [OF demo_lib_ok r] show ?thesis by (intro exI [of _ s]) simp
qed

text \<open>C9: nothing is lost by a restart: from any reachable state a new process that opens the vault
  file with the same password succeeds (unless the read itself fails) with exactly the
  configuration that was in memory, and leaves the file as it was.\<close>

theorem vault_reopen_same:
  assumes "crypto_lib_ok L" and "vault_reachable L pw s" and "io_ok L io" and "vi_read_error io = None"
  shows "\<exists>snap s'. vault_unlock io pw (vault_store_new (vs_path (fst s)), snd s) = (Inr snap, s')
    \<and> mem_data s' = mem_data s \<and> snd s' = snd s"
proof -
  note ok = vault_reachable_ok [OF assms(1,2)]
  then obtain u where u: "vs_unlocked (fst s) = Some u" "vault_inv (uv_data u)"
    by (auto simp: vault_ok_def mem_data_def)
  obtain b v where f: "snd s (vs_path (fst s)) = Some b" "decode_vault L b = Inr v"
    "decrypt_with_password L pw v = Inr (uv_data u, uv_crypto u)"
    using ok u(1) by (auto simp: vault_ok_def durable_def)
  then show ?thesis
    using u assms(3,4) vault_inv_migrate [OF u(2)]
    by (simp add: vault_unlock_def vault_store_new_def read_encrypted_def read_file_def
        read_encrypted_bytes_def io_ok_def mem_data_def)
qed

theorem vault_reopen_same_witness:
  "\<exists>s snap s'. vault_reachable demo_lib ''secret'' s
     \<and> vault_unlock demo_io ''secret'' (vault_store_new (vs_path (fst s)), snd s) = (Inr snap, s')
     \<and> mem_data s' = mem_data s"
proof -
  obtain snap s where "vault_create demo_io ''secret'' demo_start = (Inr snap, s)"
    using demo_created by blast
  then have r: "vault_reachable demo_lib ''secret'' s"
    using vault_reachable.created [OF demo_io_ok] by (simp add: demo_start_def)
  have "vi_read_error demo_io = None" by (simp add: demo_io_def)
  note reopened = vault_reopen_same [OF demo_lib_ok r demo_io_ok this]
  show ?thesis
    by (rule exI [of _ s], insert r reopened, elim exE conjE) (rule exI, rule exI, intro conjI)
qed

end
