(* ===== verification/Vault_Backup.thy ===== *)
theory Vault_Backup
  imports Vault_Reach
begin

text \<open>
  Three further promises of \<open>vault.rs\<close>: the retention rule for backup records, what importing a
  backup does to the store, and the automatic opening at start-up with its upgrade to the cheap key
  derivation.
\<close>

section \<open>Retention\<close>

definition record_class :: "string \<Rightarrow> bool \<Rightarrow> backup_record \<Rightarrow> bool" where
  "record_class k ok r \<longleftrightarrow> br_target_kind r = k \<and> (br_status r = ''success'') = ok"

definition class_count :: "string \<Rightarrow> bool \<Rightarrow> prune_state \<Rightarrow> nat" where
  "class_count k ok p = (if ok then ps_success p k else ps_failure p k)"

definition retention_limit :: "backup_settings \<Rightarrow> nat" where
  "retention_limit bset = unat (max (bs_retention_count bset) 1)"

lemma class_count_step:
  "class_count k ok (prune_step io bset prev p r) =
     (if record_class k ok r then Suc (class_count k ok p) else class_count k ok p)"
  by (auto simp: prune_step_def class_count_def record_class_def Let_def)

lemma prune_step_remove:
  "ps_remove (prune_step io bset prev p r) =
     (if class_count (br_target_kind r) (br_status r = ''success'') p \<ge> retention_limit bset
         \<or> prune_too_old io bset r
      then ps_remove p @ [br_id r] else ps_remove p)"
  by (auto simp: prune_step_def class_count_def retention_limit_def Let_def)

lemma prune_remove_mono: "set (ps_remove p) \<subseteq> set (ps_remove (foldl (prune_step io bset prev) p rs))"
proof (induction rs arbitrary: p)
  case (Cons r rs)
  have "set (ps_remove p) \<subseteq> set (ps_remove (prune_step io bset prev p r))"
    by (auto simp: prune_step_remove)
  with Cons show ?case by (metis foldl_Cons order_trans)
qed simp

lemma prune_keeps_few:
  "length (filter (\<lambda>r. record_class k ok r \<and> br_id r \<notin> set (ps_remove (foldl (prune_step io bset prev) p rs))) rs)
   \<le> retention_limit bset - class_count k ok p"
proof (induction rs arbitrary: p)
  case (Cons r rs)
  let ?p = "prune_step io bset prev p r"
  let ?R = "set (ps_remove (foldl (prune_step io bset prev) ?p rs))"
  note ih = Cons [of ?p]
  show ?case
  proof (cases "record_class k ok r")
    case False
    then show ?thesis using ih by (simp add: class_count_step)
  next
    case True
    then have c: "class_count k ok ?p = Suc (class_count k ok p)" by (simp add: class_count_step)
    show ?thesis
    proof (cases "class_count k ok p \<ge> retention_limit bset")
      case over: True
      then have "br_id r \<in> set (ps_remove ?p)"
        using True by (auto simp: prune_step_remove record_class_def)
      then have "br_id r \<in> ?R" using prune_remove_mono by blast
      then show ?thesis using ih c over by simp
    next
      case False
      have "length (filter (\<lambda>x. record_class k ok x \<and> br_id x \<notin> ?R) (r # rs))
          \<le> Suc (length (filter (\<lambda>x. record_class k ok x \<and> br_id x \<notin> ?R) rs))" by simp
      then show ?thesis using ih c False unfolding foldl_Cons by linarith
    qed
  qed
qed simp

lemma prune_removes_old:
  "r \<in> set rs \<Longrightarrow> prune_too_old io bset r \<Longrightarrow>
   br_id r \<in> set (ps_remove (foldl (prune_step io bset prev) p rs))"
proof (induction rs arbitrary: p)
  case (Cons x rs)
  then show ?case
  proof (cases "r = x")
    case True
    then have "br_id r \<in> set (ps_remove (prune_step io bset prev p x))"
      using Cons.prems by (simp add: prune_step_remove)
    then show ?thesis using prune_remove_mono by fastforce
  qed auto
qed simp

lemma set_sort_newest_first [simp]: "set (sort_newest_first rs) = set rs"
  by (simp add: sort_newest_first_def)

text \<open>After pruning, at most \<open>retention\_count\<close> (at least one) successful and as many failed
  records are left per target kind, none of them older than the retention period, all of them records
  that were there before, newest first; groups, sessions, tunnels and settings are untouched.\<close>

theorem prune_backup_records_retention:
  "let d' = fst (prune_backup_records io prev d); bset = as_backup (vd_settings d) in
     length (filter (record_class k ok) (vd_backup_records d')) \<le> retention_limit bset
     \<and> set (vd_backup_records d')
         \<subseteq> {r \<in> set (vd_backup_records d). \<not> prune_too_old io bset r}
     \<and> sorted (rev (map br_created_at (vd_backup_records d')))
     \<and> d' = d\<lparr>vd_backup_records := vd_backup_records d'\<rparr>"
proof -
  define bset where "bset = as_backup (vd_settings d)"
  define rs where "rs = sort_newest_first (vd_backup_records d)"
  define R where "R = set (ps_remove (foldl (prune_step io bset prev) prune_init rs))"
  have d': "fst (prune_backup_records io prev d)
      = d\<lparr>vd_backup_records := filter (\<lambda>r. br_id r \<notin> R) rs\<rparr>"
    by (simp add: prune_backup_records_def Let_def bset_def rs_def R_def)
  have "length (filter (record_class k ok) (filter (\<lambda>r. br_id r \<notin> R) rs)) \<le> retention_limit bset"
    using prune_keeps_few [of k ok io bset prev prune_init rs]
    by (simp add: R_def class_count_def prune_init_def conj_commute split: if_splits)
  moreover have "set (filter (\<lambda>r. br_id r \<notin> R) rs)
      \<subseteq> {r \<in> set (vd_backup_records d). \<not> prune_too_old io bset r}"
    using prune_removes_old [of _ rs io bset prev prune_init] by (auto simp: R_def rs_def)
  moreover have "sorted (rev (map br_created_at (filter (\<lambda>r. br_id r \<notin> R) rs)))"
    unfolding rs_def sort_newest_first_def rev_map [symmetric] rev_filter [symmetric] rev_rev_ident
    by (rule sorted_filter) simp
  ultimately show ?thesis by (simp add: d' bset_def Let_def)
qed

section \<open>Importing a backup\<close>

text \<open>C10: importing a backup is a transaction too: an error (bad package, foreign key, disk failure)
  leaves memory, revision and vault file as they were; on success the backup's data, migrated, is in
  memory, the vault file decrypts to it with the workspace password, and the revision grew by one.\<close>

theorem backup_import_transactional:
  assumes "crypto_lib_ok L" and "io_ok L io" and "durable L pw (st, fs)"
    and "backup_import_bytes io bs (st, fs) = (r, (st', fs'))"
  shows "case r of
      Inl e \<Rightarrow> st' = st \<and> fs' (vs_path st) = fs (vs_path st)
    | Inr snap \<Rightarrow> \<exists>u payload v d. vs_unlocked st = Some u
        \<and> extract_backup_payload (vi_zip_open io) bs = Inr payload \<and> decode_vault L payload = Inr v
        \<and> decrypt_with_key L (cr_key (uv_crypto u)) v = Inr d
        \<and> cs_data snap = fst (migrate_vault_data (vi_now io) d)
        \<and> mem_data (st', fs') = Some (cs_data snap) \<and> durable L pw (st', fs')
        \<and> cs_revision snap = sat_add64 (vs_revision st) 1 \<and> vs_revision st' = cs_revision snap"
proof (cases r)
  case (Inl e)
  with assms(4) show ?thesis
    by (auto simp: backup_import_bytes_def Let_def split: sum.splits prod.splits
        dest: write_encrypted_err)
next
  case (Inr snap)
  have lib: "vi_lib io = L" using assms(2) by (simp add: io_ok_def)
  from assms(4) Inr obtain u payload v d v2 where i:
    "extract_backup_payload (vi_zip_open io) bs = Inr payload" "decode_vault L payload = Inr v"
    "vs_unlocked st = Some u" "decrypt_with_key L (cr_key (uv_crypto u)) v = Inr d"
    "encrypt_with_session L (vi_nonce io) (uv_crypto u) (fst (migrate_vault_data (vi_now io) d)) = Inr v2"
    "write_encrypted io (vs_path st) v2 fs = (fs', Inr ())"
    "st' = st\<lparr>vs_unlocked := Some (u\<lparr>uv_data := fst (migrate_vault_data (vi_now io) d)\<rparr>),
              vs_revision := sat_add64 (vs_revision st) 1\<rparr>"
    "snap = snapshot_for st' (fst (migrate_vault_data (vi_now io) d))"
    by (auto simp: backup_import_bytes_def Let_def lib read_encrypted_bytes_def and_then_Inr_iff
        vault_unlocked_def ok_or_def split: sum.splits prod.splits option.splits)
  have ds: "derived_session L pw (uv_crypto u)" using assms(3) i(3) by (simp add: durable_def)
  have "u\<lparr>uv_data := x\<rparr> = \<lparr>uv_data = x, uv_crypto = uv_crypto u\<rparr>" for x by (cases u) simp
  with write_session_durable [OF assms(1,2) ds i(5,6)] i(7) have "durable L pw (st', fs')" by simp
  with i Inr show ?thesis by (simp add: mem_data_def snapshot_for_def)
qed

theorem backup_import_transactional_witness:
  "\<exists>st fs b r st' fs'. vs_unlocked st = Some \<lparr>uv_data = demo_data, uv_crypto = demo_session\<rparr>
     \<and> fs (vs_path st) = Some b \<and> backup_import_bytes demo_io b (st, fs) = (r, (st', fs'))
     \<and> durable demo_lib ''secret'' (st', fs')"
proof -
  let ?st = "\<lparr>vs_path = [Normal ''v''], vs_unlocked = Some \<lparr>uv_data = demo_data,
        uv_crypto = demo_session\<rparr>, vs_revision = 0\<rparr>"
  obtain snap fs where c: "vault_create demo_io ''secret'' demo_start = (Inr snap, (?st, fs))"
    using demo_created by blast
  have d: "durable demo_lib ''secret'' (?st, fs)"
    using vault_create_ok [OF demo_lib_ok demo_io_ok c [unfolded demo_start_def]] by blast
  then obtain b where b: "fs (vs_path ?st) = Some b" by (auto simp: durable_def)
  obtain r st' fs' where i: "backup_import_bytes demo_io b (?st, fs) = (r, (st', fs'))"
    by (metis prod.exhaust)
  from backup_import_transactional [OF demo_lib_ok demo_io_ok d i]
  have "durable demo_lib ''secret'' (st', fs')"
    using d by (cases r) (auto simp: durable_def)
  with b i have "vs_unlocked ?st = Some \<lparr>uv_data = demo_data, uv_crypto = demo_session\<rparr>
     \<and> fs (vs_path ?st) = Some b \<and> backup_import_bytes demo_io b (?st, fs) = (r, (st', fs'))
     \<and> durable demo_lib ''secret'' (st', fs')" by simp
  then show ?thesis by blast
qed

section \<open>Opening at start-up\<close>

lemma upgrade_ok:
  assumes "crypto_lib_ok L" "io_ok L io" "durable L AUTO_PASSWORD s"
  shows "durable L AUTO_PASSWORD (upgrade_to_fast_kdf_if_needed io s)
    \<and> mem_data (upgrade_to_fast_kdf_if_needed io s) = mem_data s"
proof -
  obtain st fs where s: "s = (st, fs)" by fastforce
  have lib: "vi_lib io = L" using assms(2) by (simp add: io_ok_def)
  show ?thesis
  proof (cases "\<exists>u. vs_unlocked st = Some u \<and> crypto_session_is_slow (uv_crypto u)")
    case False
    then have "upgrade_to_fast_kdf_if_needed io s = s"
      by (auto simp: upgrade_to_fast_kdf_if_needed_def s split: option.splits)
    then show ?thesis using assms(3) by simp
  next
    case True
    then obtain u where u: "vs_unlocked st = Some u" "crypto_session_is_slow (uv_crypto u)" by blast
    define enc where "enc = encrypt_with_params L KDF_PARAMS_FAST (vi_salt io) (vi_nonce io)
      AUTO_PASSWORD (uv_data u)"
    have up: "upgrade_to_fast_kdf_if_needed io s = (case enc of Inl e \<Rightarrow> s | Inr (v, cs) \<Rightarrow>
        (case write_encrypted io (vs_path st) v fs of (fs', Inl e) \<Rightarrow> (st, fs')
         | (fs', Inr _) \<Rightarrow> (st\<lparr>vs_unlocked := Some \<lparr>uv_data = uv_data u, uv_crypto = cs\<rparr>\<rparr>, fs')))"
      using u by (simp add: upgrade_to_fast_kdf_if_needed_def s lib encrypt_with_password_fast_def
          enc_def split: sum.splits)
    show ?thesis
    proof (cases enc)
      case (Inl e)
      then show ?thesis using assms(3) up by simp
    next
      case (Inr x)
      obtain v cs where x: "x = (v, cs)" by (cases x)
      obtain fs' w where w: "write_encrypted io (vs_path st) v fs = (fs', w)"
        by (cases "write_encrypted io (vs_path st) v fs")
      show ?thesis
      proof (cases w)
        case (Inl e)
        with up Inr x w \<open>enc = Inr x\<close> have "upgrade_to_fast_kdf_if_needed io s = (st, fs')"
          "fs' (vs_path st) = fs (vs_path st)" by (simp_all add: write_encrypted_err)
        then show ?thesis using assms(3) by (simp add: s durable_def mem_data_def)
      next
        case (Inr y)
        then show ?thesis
          using up w x \<open>enc = Inr x\<close> u encrypt_with_params_durable [OF assms(1,2)]
          by (simp add: enc_def s mem_data_def)
      qed
    qed
  qed
qed

text \<open>C11: opening at start-up never damages the workspace. \<open>Ready\<close> means a durable, unlocked store
  holding either a fresh workspace (no file existed) or the migrated content of the file, also when
  the upgrade to the cheap key derivation ran or failed half-way; \<open>NeedsMigration\<close> and errors leave
  the store locked as it was and the file's bytes unchanged.\<close>

theorem auto_open_safe:
  assumes "crypto_lib_ok L" and "io_ok L io" and "io_ok L io2" and "vs_unlocked st = None"
    and "auto_open io io2 (st, fs) = (r, s')"
  shows "case r of
      Inr Ready \<Rightarrow> durable L AUTO_PASSWORD s' \<and>
        (case fs (vs_path st) of
           None \<Rightarrow> mem_data s' =
             Some (vault_with_default_group (vi_uuid io) (vi_now io) (vi_now io) (vi_now io))
         | Some b \<Rightarrow> \<exists>v d cs. decode_vault L b = Inr v
             \<and> decrypt_with_password L AUTO_PASSWORD v = Inr (d, cs)
             \<and> mem_data s' = Some (fst (migrate_vault_data (vi_now io) d)))
    | _ \<Rightarrow> fst s' = st \<and> snd s' (vs_path st) = fs (vs_path st)"
proof (cases "fs (vs_path st)")
  case None
  obtain rc sc where c: "vault_create io AUTO_PASSWORD (st, fs) = (rc, sc)"
    by (cases "vault_create io AUTO_PASSWORD (st, fs)")
  show ?thesis
  proof (cases rc)
    case (Inl e)
    with c assms(5) None show ?thesis
      by (auto simp: auto_open_def vault_create_def Let_def split: sum.splits prod.splits if_splits
          dest: write_encrypted_err)
  next
    case (Inr snap)
    with c assms(5) None vault_create_ok [OF assms(1,2), of AUTO_PASSWORD st fs snap sc]
    show ?thesis by (auto simp: auto_open_def)
  qed
next
  case (Some b)
  obtain ru su where c: "vault_unlock io AUTO_PASSWORD (st, fs) = (ru, su)"
    by (cases "vault_unlock io AUTO_PASSWORD (st, fs)")
  show ?thesis
  proof (cases ru)
    case (Inl e)
    with c have "fst su = st \<and> snd su (vs_path st) = fs (vs_path st)"
      by (auto simp: vault_unlock_def Let_def split: sum.splits prod.splits if_splits
          dest: write_encrypted_err)
    with Inl c assms(5) Some show ?thesis by (auto simp: auto_open_def split: if_splits)
  next
    case (Inr snap)
    with c have u: "vault_unlock io AUTO_PASSWORD (st, fs) = (Inr snap, su)" by simp
    note ok = vault_unlock_ok [OF assms(1,2) u]
    with upgrade_ok [OF assms(1,3), of su] u assms(5) Some show ?thesis
      by (auto simp: auto_open_def)
  qed
qed

lemma demo_auto_created:
  "\<exists>snap s. vault_create demo_io AUTO_PASSWORD demo_start = (Inr snap, s)"
proof -
  have "char_count AUTO_PASSWORD \<ge> 6"
    by (simp add: AUTO_PASSWORD_def char_count_def is_cont_def byte_of_def)
  then have "\<exists>v cs. encrypt_with_password_fast demo_lib (replicate 16 1) (replicate 24 7)
      AUTO_PASSWORD demo_data = Inr (v, cs)"
    by (simp add: encrypt_with_password_fast_def encrypt_with_params_def validate_master_password_def
        MIN_MASTER_PASSWORD_LEN_def derive_key_def kdf_params_argon2_def KDF_PARAMS_FAST_def
        demo_lib_def encrypt_with_session_def Let_def KEY_LEN_def guard_that_def)
  then obtain v cs where v: "encrypt_with_password_fast demo_lib (replicate 16 1) (replicate 24 7)
      AUTO_PASSWORD demo_data = Inr (v, cs)" by blast
  obtain fs' where w: "write_encrypted demo_io [Normal ''v''] v Map.empty = (fs', Inr ())"
    using write_encrypted_no_faults [of demo_io Map.empty] by (auto simp: demo_io_def)
  have f: "vi_lib demo_io = demo_lib" "vi_salt demo_io = replicate 16 1"
    "vi_nonce demo_io = replicate 24 7" "vi_uuid demo_io = ''g''" "vi_now demo_io = ''t''"
    by (simp_all add: demo_io_def)
  show ?thesis
    unfolding vault_create_def demo_start_def Let_def f demo_data_def [symmetric]
    using v w by (simp add: vault_store_new_def)
qed

theorem auto_open_safe_witness:
  "\<exists>s. auto_open demo_io demo_io demo_start = (Inr Ready, s) \<and> mem_data s = Some demo_data
     \<and> durable demo_lib AUTO_PASSWORD s"
proof -
  obtain snap s where c: "vault_create demo_io AUTO_PASSWORD demo_start = (Inr snap, s)"
    using demo_auto_created by blast
  then have a: "auto_open demo_io demo_io (vault_store_new [Normal ''v''], Map.empty) = (Inr Ready, s)"
    by (simp add: auto_open_def demo_start_def)
  have "vs_unlocked (vault_store_new [Normal ''v'']) = None" by (simp add: vault_store_new_def)
  from auto_open_safe [OF demo_lib_ok demo_io_ok demo_io_ok this a] a
  have "auto_open demo_io demo_io demo_start = (Inr Ready, s) \<and> mem_data s = Some demo_data
     \<and> durable demo_lib AUTO_PASSWORD s"
    by (simp add: demo_start_def demo_data_def demo_io_def)
  then show ?thesis by (rule exI)
qed

end
