(* ===== verification/Config_Mutation.thy ===== *)
theory Config_Mutation
  imports App_Errors
begin

text \<open>
  \<open>config\_mutation.rs\<close>: the epoch coordinator that serialises configuration changes and
  invalidates the ones accepted before a whole-configuration replacement. The asynchronous code is
  a step relation: each await point and each atomic access is a step of its own, so tickets may be
  read between any two steps of a replacement. The \<open>AtomicU64\<close> epoch is a 64-bit word and wraps.
\<close>

type_synonym ticket_value = "64 word"

text \<open>Who owns the mutex, and how far it has come.\<close>

datatype gate_owner =
    Locking nat      \<comment> \<open>\<open>lock\<close>: mutex taken, epoch not yet checked\<close>
  | Mutating nat     \<comment> \<open>\<open>lock\<close> returned its guard\<close>
  | Preparing nat    \<comment> \<open>\<open>begin\_replacement\<close>: mutex taken, epoch not yet advanced\<close>
  | Replacing nat    \<comment> \<open>the replacement guard is alive\<close>
  | Finishing nat    \<comment> \<open>the guard's \<open>drop\<close> has run, the mutex is not yet released\<close>

record coordinator =
  co_gate :: "gate_owner option"
  co_epoch :: ticket_value

definition coordinator_default :: coordinator where
  "coordinator_default = \<lparr>co_gate = None, co_epoch = 0\<rparr>"

definition stale_config_error :: app_error where
  "stale_config_error = ConfigConflict ''configuration was replaced by a restored backup''"

definition coordinator_ticket :: "coordinator \<Rightarrow> ticket_value" where
  "coordinator_ticket co = co_epoch co"

text \<open>The check \<open>lock\<close> makes once it holds the mutex; on an error the guard is dropped.\<close>

definition lock_checked :: "nat \<Rightarrow> ticket_value \<Rightarrow> coordinator \<Rightarrow> coordinator \<times> unit app_result" where
  "lock_checked client t co =
     (if co_epoch co \<noteq> t \<or> \<not> even (unat (co_epoch co))
      then (co\<lparr>co_gate := None\<rparr>, Inl stale_config_error)
      else (co\<lparr>co_gate := Some (Mutating client)\<rparr>, Inr ()))"

definition begin_replacement_bump :: "nat \<Rightarrow> coordinator \<Rightarrow> coordinator" where
  "begin_replacement_bump client co =
     co\<lparr>co_gate := Some (Replacing client), co_epoch := co_epoch co + 1\<rparr>"

definition replacement_drop :: "nat \<Rightarrow> coordinator \<Rightarrow> coordinator" where
  "replacement_drop client co =
     co\<lparr>co_gate := Some (Finishing client), co_epoch := co_epoch co + 1\<rparr>"

text \<open>The system: the coordinator, each client's last ticket, and two history variables, the number
  of replacements begun so far and, per client, that number when its ticket was read.\<close>

record coord_sys =
  cy_co :: coordinator
  cy_tickets :: "nat \<rightharpoonup> ticket_value"
  cy_begun :: nat
  cy_begun_at_ticket :: "nat \<rightharpoonup> nat"

definition coord_init :: coord_sys where
  "coord_init = \<lparr>cy_co = coordinator_default, cy_tickets = Map.empty, cy_begun = 0,
                 cy_begun_at_ticket = Map.empty\<rparr>"

datatype coord_event =
    TakeTicket nat | AcquireForLock nat | LockGranted nat | LockRefused nat | MutationEnds nat
  | AcquireForReplacement nat | ReplacementBegins nat | ReplacementEnds nat | ReplacementReleases nat

inductive coord_step :: "coord_sys \<Rightarrow> coord_event \<Rightarrow> coord_sys \<Rightarrow> bool" where
  take_ticket: "coord_step s (TakeTicket c)
     (s\<lparr>cy_tickets := (cy_tickets s)(c \<mapsto> coordinator_ticket (cy_co s)),
        cy_begun_at_ticket := (cy_begun_at_ticket s)(c \<mapsto> cy_begun s)\<rparr>)"
| acquire_for_lock: "co_gate (cy_co s) = None \<Longrightarrow>
     coord_step s (AcquireForLock c) (s\<lparr>cy_co := (cy_co s)\<lparr>co_gate := Some (Locking c)\<rparr>\<rparr>)"
| lock_granted: "co_gate (cy_co s) = Some (Locking c) \<Longrightarrow> cy_tickets s c = Some t \<Longrightarrow>
     lock_checked c t (cy_co s) = (co', Inr ()) \<Longrightarrow>
     coord_step s (LockGranted c) (s\<lparr>cy_co := co'\<rparr>)"
| lock_refused: "co_gate (cy_co s) = Some (Locking c) \<Longrightarrow> cy_tickets s c = Some t \<Longrightarrow>
     lock_checked c t (cy_co s) = (co', Inl e) \<Longrightarrow>
     coord_step s (LockRefused c) (s\<lparr>cy_co := co'\<rparr>)"
| mutation_ends: "co_gate (cy_co s) = Some (Mutating c) \<Longrightarrow>
     coord_step s (MutationEnds c) (s\<lparr>cy_co := (cy_co s)\<lparr>co_gate := None\<rparr>\<rparr>)"
| acquire_for_replacement: "co_gate (cy_co s) = None \<Longrightarrow>
     coord_step s (AcquireForReplacement c) (s\<lparr>cy_co := (cy_co s)\<lparr>co_gate := Some (Preparing c)\<rparr>\<rparr>)"
| replacement_begins: "co_gate (cy_co s) = Some (Preparing c) \<Longrightarrow>
     coord_step s (ReplacementBegins c)
       (s\<lparr>cy_co := begin_replacement_bump c (cy_co s), cy_begun := Suc (cy_begun s)\<rparr>)"
| replacement_ends: "co_gate (cy_co s) = Some (Replacing c) \<Longrightarrow>
     coord_step s (ReplacementEnds c) (s\<lparr>cy_co := replacement_drop c (cy_co s)\<rparr>)"
| replacement_releases: "co_gate (cy_co s) = Some (Finishing c) \<Longrightarrow>
     coord_step s (ReplacementReleases c) (s\<lparr>cy_co := (cy_co s)\<lparr>co_gate := None\<rparr>\<rparr>)"

inductive_cases lock_grantedE: "coord_step s (LockGranted c) s'"
inductive_cases replacement_beginsE: "coord_step s (ReplacementBegins c) s'"
inductive_cases replacement_endsE: "coord_step s (ReplacementEnds c) s'"

inductive coord_reachable :: "coord_sys \<Rightarrow> bool" where
  init: "coord_reachable coord_init"
| step: "coord_reachable s \<Longrightarrow> coord_step s ev s' \<Longrightarrow> coord_reachable s'"

section \<open>Invariant\<close>

text \<open>The epoch counts two per replacement begun, less the one still owed while one is running.
  A ticket was at most that value when it was read.\<close>

definition is_replacing :: "coordinator \<Rightarrow> bool" where
  "is_replacing co = (case co_gate co of Some (Replacing c) \<Rightarrow> True | _ \<Rightarrow> False)"

definition epoch_of :: "nat \<Rightarrow> bool \<Rightarrow> ticket_value" where
  "epoch_of begun running = of_nat (2 * begun) - (if running then 1 else 0)"

definition coord_inv :: "coord_sys \<Rightarrow> bool" where
  "coord_inv s \<longleftrightarrow>
     co_epoch (cy_co s) = epoch_of (cy_begun s) (is_replacing (cy_co s))
     \<and> (is_replacing (cy_co s) \<longrightarrow> 0 < cy_begun s)
     \<and> (\<forall>c t. cy_tickets s c = Some t \<longrightarrow>
          (\<exists>b running. cy_begun_at_ticket s c = Some b \<and> b \<le> cy_begun s
             \<and> (running \<longrightarrow> 0 < b) \<and> t = epoch_of b running))"

lemma epoch_bump:
  "epoch_of b False + 1 = epoch_of (Suc b) True"
  "epoch_of b True + 1 = epoch_of b False"
  by (simp_all add: epoch_of_def)

lemma coord_inv_step: "coord_step s ev s' \<Longrightarrow> coord_inv s \<Longrightarrow> coord_inv s'"
proof (induction rule: coord_step.induct)
  case (take_ticket s c)
  then show ?case
    by (auto simp: coord_inv_def coordinator_ticket_def)
next
  case (lock_granted s c t co')
  then show ?case by (auto simp: coord_inv_def lock_checked_def is_replacing_def split: if_splits)
next
  case (lock_refused s c t co' e)
  then show ?case by (auto simp: coord_inv_def lock_checked_def is_replacing_def split: if_splits)
next
  case (replacement_begins s c)
  then have "co_epoch (cy_co s) = epoch_of (cy_begun s) False"
    by (simp add: coord_inv_def is_replacing_def)
  with replacement_begins show ?case
    unfolding coord_inv_def begin_replacement_bump_def
    by (auto simp: is_replacing_def epoch_bump) (metis le_SucI)
next
  case (replacement_ends s c)
  then show ?case
    unfolding coord_inv_def replacement_drop_def
    by (auto simp: is_replacing_def epoch_bump)
qed (auto simp: coord_inv_def is_replacing_def)

lemma coord_reachable_inv: "coord_reachable s \<Longrightarrow> coord_inv s"
proof (induction rule: coord_reachable.induct)
  case init
  then show ?case
    by (simp add: coord_inv_def coord_init_def coordinator_default_def is_replacing_def epoch_of_def)
qed (rule coord_inv_step)

lemma epoch_of_unat:
  assumes "b < 2 ^ 63" and "running \<longrightarrow> 0 < b"
  shows "unat (epoch_of b running) = 2 * b - (if running then 1 else 0)"
proof -
  have "epoch_of b running = of_nat (2 * b - (if running then 1 else 0))"
    using assms(2) by (auto simp: epoch_of_def of_nat_diff)
  then show ?thesis using assms(1) by (simp add: unat_of_nat)
qed

lemma lock_granted_fresh:
  assumes inv: "coord_inv s" and st: "coord_step s (LockGranted c) s'" and b: "cy_begun s < 2 ^ 63"
  shows "cy_begun_at_ticket s c = Some (cy_begun s) \<and> \<not> is_replacing (cy_co s)"
  using st
proof (rule lock_grantedE)
  fix t co'
  assume l: "s' = s\<lparr>cy_co := co'\<rparr>" "co_gate (cy_co s) = Some (Locking c)" "cy_tickets s c = Some t"
    "lock_checked c t (cy_co s) = (co', Inr ())"
  then have r: "\<not> is_replacing (cy_co s)" by (simp add: is_replacing_def)
  from l(4) have t: "t = co_epoch (cy_co s)" by (auto simp: lock_checked_def split: if_splits)
  from inv l(3) obtain b' running where tb: "cy_begun_at_ticket s c = Some b'" "b' \<le> cy_begun s"
    "running \<longrightarrow> 0 < b'" "t = epoch_of b' running" unfolding coord_inv_def by blast
  have "epoch_of b' running = epoch_of (cy_begun s) False"
    using inv r t tb(4) by (simp add: coord_inv_def)
  then have "2 * b' - (if running then 1 else 0) = 2 * cy_begun s"
    using epoch_of_unat [of b' running] epoch_of_unat [of "cy_begun s" False] tb(2,3) b by simp
  then have "b' = cy_begun s" using tb(2,3) by (cases running) auto
  with tb(1) r show ?thesis by simp
qed

text \<open>C5: a configuration change is let through only when no replacement has begun since its ticket
  was read, and none is running: a change accepted before or during a backup restore never
  overwrites the restored configuration. (The 64-bit epoch repeats after 2^63 replacements.)\<close>

theorem replacement_invalidates_tickets:
  assumes "coord_reachable s" and "coord_step s (LockGranted c) s'" and "cy_begun s < 2 ^ 63"
  shows "cy_begun_at_ticket s c = Some (cy_begun s) \<and> \<not> is_replacing (cy_co s)"
  using lock_granted_fresh [OF coord_reachable_inv] assms by blast

text \<open>The two debug assertions of the coordinator hold in every reachable state: a replacement
  begins at an even epoch and ends at an odd one.\<close>

theorem replacement_asserts_hold:
  assumes "coord_reachable s" and "cy_begun s < 2 ^ 63"
  shows "(coord_step s (ReplacementBegins c) s' \<longrightarrow> even (unat (co_epoch (cy_co s))))
    \<and> (coord_step s (ReplacementEnds c) s' \<longrightarrow> odd (unat (co_epoch (cy_co s))))"
proof -
  note inv = coord_reachable_inv [OF assms(1)]
  have "unat (co_epoch (cy_co s)) = 2 * cy_begun s - (if is_replacing (cy_co s) then 1 else 0)"
    using inv epoch_of_unat [OF assms(2), of "is_replacing (cy_co s)"] by (simp add: coord_inv_def)
  moreover have "is_replacing (cy_co s) \<longrightarrow> 0 < cy_begun s" using inv by (simp add: coord_inv_def)
  ultimately show ?thesis
    by (auto simp: is_replacing_def elim!: replacement_beginsE replacement_endsE)
qed

section \<open>A concrete run\<close>

definition demo_ticketed :: coord_sys where
  "demo_ticketed = coord_init\<lparr>cy_tickets := [0 \<mapsto> 0], cy_begun_at_ticket := [0 \<mapsto> 0]\<rparr>"

definition demo_locking :: coord_sys where
  "demo_locking = demo_ticketed\<lparr>cy_co := coordinator_default\<lparr>co_gate := Some (Locking 0)\<rparr>\<rparr>"

definition demo_preparing :: coord_sys where
  "demo_preparing = demo_ticketed\<lparr>cy_co := coordinator_default\<lparr>co_gate := Some (Preparing 1)\<rparr>\<rparr>"

lemmas demo_coord_defs = demo_ticketed_def demo_locking_def demo_preparing_def coord_init_def
  coordinator_default_def coordinator_ticket_def lock_checked_def

lemma demo_ticketed_reachable: "coord_reachable demo_ticketed"
  using coord_reachable.step [OF coord_reachable.init coord_step.take_ticket [of coord_init 0]]
  by (simp add: demo_coord_defs)

lemma demo_locking_reachable: "coord_reachable demo_locking"
  using coord_reachable.step [OF demo_ticketed_reachable coord_step.acquire_for_lock [of demo_ticketed 0]]
  by (simp add: demo_coord_defs)

lemma demo_preparing_reachable: "coord_reachable demo_preparing"
  using coord_reachable.step [OF demo_ticketed_reachable
      coord_step.acquire_for_replacement [of demo_ticketed 1]]
  by (simp add: demo_coord_defs)

theorem replacement_invalidates_tickets_witness:
  "\<exists>s'. coord_step demo_locking (LockGranted 0) s' \<and> cy_begun_at_ticket demo_locking 0 = Some 0"
proof -
  have st: "coord_step demo_locking (LockGranted 0)
      (demo_locking\<lparr>cy_co := coordinator_default\<lparr>co_gate := Some (Mutating 0)\<rparr>\<rparr>)"
    by (rule coord_step.lock_granted [where t = 0]) (simp_all add: demo_coord_defs)
  have "cy_begun demo_locking < 2 ^ 63" by (simp add: demo_coord_defs)
  from replacement_invalidates_tickets [OF demo_locking_reachable st this] st
  show ?thesis by (auto simp: demo_coord_defs)
qed

theorem replacement_asserts_hold_witness:
  "\<exists>s'. coord_step demo_preparing (ReplacementBegins 1) s'
        \<and> even (unat (co_epoch (cy_co demo_preparing)))"
proof -
  have st: "coord_step demo_preparing (ReplacementBegins 1)
      (demo_preparing\<lparr>cy_co := begin_replacement_bump 1 (cy_co demo_preparing),
                       cy_begun := Suc (cy_begun demo_preparing)\<rparr>)"
    by (rule coord_step.replacement_begins) (simp add: demo_coord_defs)
  have "cy_begun demo_preparing < 2 ^ 63" by (simp add: demo_coord_defs)
  from replacement_asserts_hold [OF demo_preparing_reachable this] st show ?thesis by blast
qed

end
