(* ===== verification/Guard.thy ===== *)
theory Guard
  imports App_Errors
begin

text \<open>
  \<open>api\_server/guard.rs\<close>, the filter that refuses dangerous commands before the API runs them. The
  Unicode lower-casing of \<open>str::to\_lowercase\<close> is the argument \<open>lower\<close>; everything after it works on
  bytes. The main facts: the option and target scan of \<open>rm\<close> is exactly the set of commands described
  by \<open>rm\_attack\<close>, every lexical alias of a protected directory is recognised, and the strict mode
  refuses at least what the balanced mode refuses.
\<close>

section \<open>Recursive deletion\<close>

definition normalize_delete_target :: "string \<Rightarrow> string" where
  "normalize_delete_target value =
     (let segments = norm_parts value in
      if starts_with ''/'' value
      then (if segments = [] then ''/'' else ''/'' @ join_with ''/'' segments)
      else if segments = [] then ''.'' else join_with ''/'' segments)"

definition DANGEROUS_TARGETS :: "string list" where
  "DANGEROUS_TARGETS =
     [''/'', ''/*'', ''/.'', ''/..'', ''~'', ''~/'', ''$home'', ''${home}'', ''/home'', ''/home/*'', ''/root'',
      ''/root/*'', ''/usr'', ''/usr/*'', ''/etc'', ''/etc/*'', ''/var'', ''/var/*'', ''/boot'', ''/boot/*'',
      ''/sys'', ''/sys/*'', ''/proc'', ''/proc/*'', ''/dev'', ''/dev/*'', ''/run'', ''/run/*'', ''/lib'', ''/lib/*'',
      ''/lib64'', ''/lib64/*'', ''/opt'', ''/opt/*'', ''/sbin'', ''/sbin/*'', ''/bin'', ''/bin/*'']"

definition trim_matches :: "(char \<Rightarrow> bool) \<Rightarrow> string \<Rightarrow> string" where
  "trim_matches p s = rev (dropWhile p (rev (dropWhile p s)))"

definition is_dangerous_recursive_delete_target :: "string \<Rightarrow> bool" where
  "is_dangerous_recursive_delete_target v0 =
     (let v = trim_matches (\<lambda>ch. ch \<in> set ''(){};'') v0 in
      if starts_with ''~/..'' v \<or> starts_with ''$home/..'' v \<or> starts_with ''${home}/..'' v then True
      else let target = normalize_delete_target v in
           list_ex (\<lambda>dangerous. target = normalize_delete_target dangerous) DANGEROUS_TARGETS)"

definition is_separator :: "string \<Rightarrow> bool" where
  "is_separator arg \<longleftrightarrow> arg \<in> set ['';'', ''&&'', ''||'', ''|'', ''('', '')'', ''{'', ''}'']"

text \<open>The loop over the arguments of one \<open>rm\<close>: the recursive flag, whether options are still parsed,
  and the targets so far.\<close>

fun scan_rm_args :: "string list \<Rightarrow> bool \<Rightarrow> bool \<Rightarrow> string list \<Rightarrow> bool \<times> string list" where
  "scan_rm_args [] recursive parse_options targets = (recursive, targets)"
| "scan_rm_args (arg # args) recursive parse_options targets =
     (if is_separator arg then (recursive, targets)
      else if arg = ''--'' then scan_rm_args args recursive False targets
      else if parse_options \<and> starts_with ''--'' arg
      then scan_rm_args args (recursive \<or> arg = ''--recursive'' \<or> arg = ''--dir'') parse_options targets
      else if parse_options \<and> starts_with ''-'' arg
      then scan_rm_args args (recursive \<or> CHR ''r'' \<in> set (drop 1 arg) \<or> CHR ''R'' \<in> set (drop 1 arg))
             parse_options targets
      else scan_rm_args args recursive parse_options (targets @ [arg]))"

fun has_dangerous_recursive_rm :: "string list \<Rightarrow> bool" where
  "has_dangerous_recursive_rm [] = False"
| "has_dangerous_recursive_rm (token # rest) =
     (if token \<noteq> ''rm'' then has_dangerous_recursive_rm rest
      else let (recursive, targets) = scan_rm_args rest False True [] in
           if recursive \<and> list_ex is_dangerous_recursive_delete_target targets then True
           else has_dangerous_recursive_rm rest)"

section \<open>The filter\<close>

definition guard_normalized :: "(string \<Rightarrow> string) \<Rightarrow> string \<Rightarrow> string" where
  "guard_normalized lower command =
     replace_str ''}'' '' } '' (replace_str ''{'' '' { '' (replace_str '')'' '' ) '' (replace_str ''('' '' ( ''
      (replace_str ''|'' '' | '' (replace_str '';'' '' ; '' (replace_str ''||'' '' || '' (replace_str ''&&'' '' && ''
        (replace_str [CHR 0x5C] [] (filter (\<lambda>ch. ch \<notin> {CHR 0x27, CHR 0x22, CHR 0x60}) (lower (trim command)))))))))))"

abbreviation any_in :: "string \<Rightarrow> string list \<Rightarrow> bool" where
  "any_in s ps \<equiv> list_ex (\<lambda>p. contains p s) ps"

text \<open>The ten groups of rules, in the order of the source; each group returns the reason it gives.\<close>

definition rule_fork_bomb :: "string \<Rightarrow> string \<Rightarrow> string option" where
  "rule_fork_bomb normalized squeezed =
     (if any_in squeezed ['':(){ :|:& };:'', '':(){:|:&};:''] \<or> contains '':(){'' normalized
      then Some ''fork bomb'' else None)"

definition rule_rm :: "string \<Rightarrow> string list \<Rightarrow> string option" where
  "rule_rm normalized parts =
     (if contains ''--no-preserve-root'' normalized then Some ''no-preserve-root''
      else if has_dangerous_recursive_rm parts then Some ''recursive rm'' else None)"

definition rule_find :: "bool \<Rightarrow> string \<Rightarrow> string list \<Rightarrow> string option" where
  "rule_find strict squeezed parts =
     (if strict \<and> (''find'' \<in> set parts \<or> contains '' find '' squeezed) then
        (if contains '' -delete'' squeezed \<or> ends_with '' -delete'' squeezed then Some ''find -delete''
         else if any_in squeezed [''-exec rm'', ''-execdir rm''] then Some ''find -exec rm'' else None)
      else None)"

definition rule_disk :: "string \<Rightarrow> string \<Rightarrow> string option" where
  "rule_disk normalized squeezed =
     (if (contains ''mkfs.'' squeezed \<or> starts_with ''mkfs '' squeezed \<or> contains '' mkfs '' squeezed)
         \<and> any_in normalized [''/dev/sd'', ''/dev/nvme'', ''/dev/vd'', ''/dev/hd'', ''/dev/mmc'']
      then Some ''format disk''
      else if contains ''wipefs '' squeezed \<or> starts_with ''wipefs'' squeezed then Some ''wipefs''
      else if contains ''shred '' squeezed
         \<and> any_in normalized [''/dev/sd'', ''/dev/nvme'', ''/dev/vd'', ''/dev/hd'']
      then Some ''shred'' else None)"

definition rule_dd :: "string \<Rightarrow> string \<Rightarrow> string list \<Rightarrow> string option" where
  "rule_dd normalized squeezed parts =
     (if ((case parts of p # _ \<Rightarrow> p = ''dd'' | [] \<Rightarrow> False)
          \<or> any_in squeezed ['' dd '', '';dd '', ''&& dd ''])
         \<and> any_in normalized [''of=/dev/sd'', ''of=/dev/nvme'', ''of=/dev/vd'', ''of=/dev/hd'']
      then Some ''dd to block device'' else None)"

definition rule_redirect :: "string \<Rightarrow> string option" where
  "rule_redirect normalized =
     (if any_in normalized [''> /dev/sd'', ''>/dev/sd'', ''> /dev/nvme'', ''>/dev/nvme'', ''> /dev/vd'',
           ''>/dev/vd'', ''> /dev/hd'', ''>/dev/hd'']
      then Some ''write to block device'' else None)"

definition rule_permissions :: "string \<Rightarrow> string option" where
  "rule_permissions squeezed =
     (let touches_perm = any_in squeezed [''chmod '', ''chown ''];
          recursive_flag = any_in squeezed ['' -r '', '' -rf '', '' -fr '', '' --recursive '', '' -r'' @ [CHR 0x09]]
            \<or> ends_with '' -r'' squeezed \<or> ends_with '' --recursive'' squeezed;
          system_dirs = ['' /'', '' /*'', '' /etc'', '' /usr'', '' /var'', '' /bin'', '' /sbin'', '' /lib'',
            '' /lib64'', '' /boot'', '' /home'', '' /root'', '' ~'']
      in if touches_perm \<and> recursive_flag then
           (if list_ex (\<lambda>d. contains (d @ '' '') squeezed \<or> ends_with d squeezed
                        \<or> contains (d @ '';'') squeezed) system_dirs
            then Some ''recursive permissions''
            else if ends_with '' /'' squeezed then Some ''recursive permissions'' else None)
         else None)"

definition rule_download :: "bool \<Rightarrow> string \<Rightarrow> string option" where
  "rule_download strict squeezed =
     (let uses_downloader = any_in squeezed [''curl '', ''curl'' @ [CHR 0x09], ''wget '', ''wget'' @ [CHR 0x09]];
          pipes_to_shell = any_in squeezed [''| sh'', ''|sh'', ''| bash'', ''|bash'', ''| zsh'', ''|zsh'',
            ''| /bin/sh'', ''|/bin/sh'', ''| /bin/bash'', ''|/bin/bash'']
      in if strict \<and> uses_downloader \<and> pipes_to_shell then Some ''download and run'' else None)"

definition powerstate_tokens :: "string list" where
  "powerstate_tokens = [''shutdown'', ''reboot'', ''halt'', ''poweroff'']"

definition rule_power :: "bool \<Rightarrow> string \<Rightarrow> string list \<Rightarrow> string option" where
  "rule_power strict squeezed parts =
     (if strict \<and> (case parts of p # _ \<Rightarrow> p \<in> set powerstate_tokens | [] \<Rightarrow> False) then Some ''power''
      else if strict \<and> list_ex (\<lambda>tok.
           any_in squeezed ['' '' @ tok @ '' '', '';'' @ tok @ '' '', ''&& '' @ tok @ '' '', '' '' @ tok @ '';'']
           \<or> ends_with ('' '' @ tok) squeezed
           \<or> any_in squeezed [[CHR 0x22] @ tok @ '' '', [CHR 0x27] @ tok @ '' '']) powerstate_tokens
      then Some ''power''
      else if strict \<and> (any_in squeezed [''init 0'', ''init 6'']
           \<or> (case parts of p # q # _ \<Rightarrow> p = ''init'' \<and> (q = ''0'' \<or> q = ''6'') | _ \<Rightarrow> False))
      then Some ''power'' else None)"

definition critical_files :: "string list" where
  "critical_files = [''/etc/passwd'', ''/etc/shadow'', ''/etc/sudoers'', ''/etc/fstab'', ''/etc/hosts'',
     ''/etc/ssh/sshd_config'', ''/boot/grub/grub.cfg'']"

definition rule_critical :: "string \<Rightarrow> string option" where
  "rule_critical normalized =
     (if list_ex (\<lambda>cf.
           (contains (''> '' @ cf) normalized \<and> \<not> contains (''>> '' @ cf) normalized)
           \<or> (contains (''>'' @ cf) normalized \<and> \<not> contains (''>>'' @ cf) normalized)) critical_files
      then Some ''critical file'' else None)"

fun first_reason :: "string option list \<Rightarrow> string option" where
  "first_reason [] = None"
| "first_reason (Some r # rs) = Some r"
| "first_reason (None # rs) = first_reason rs"

definition check_dangerous_command :: "(string \<Rightarrow> string) \<Rightarrow> string \<Rightarrow> bool \<Rightarrow> string option" where
  "check_dangerous_command lower command strict =
     (if lower (trim command) = [] then None
      else
        (let normalized = guard_normalized lower command;
             parts = split_whitespace normalized;
             squeezed = join_with '' '' parts
         in first_reason
              [rule_fork_bomb normalized squeezed, rule_rm normalized parts,
               rule_find strict squeezed parts, rule_disk normalized squeezed,
               rule_dd normalized squeezed parts, rule_redirect normalized, rule_permissions squeezed,
               rule_download strict squeezed, rule_power strict squeezed parts,
               rule_critical normalized]))"

section \<open>What the \<open>rm\<close> scan accepts\<close>

text \<open>The specification: an \<open>rm\<close> token, its arguments up to a separator, an option before any \<open>--\<close>
  that makes it recursive, and a target that is protected.\<close>

definition recursive_option :: "string \<Rightarrow> bool" where
  "recursive_option a \<longleftrightarrow> a = ''--recursive'' \<or> a = ''--dir''
     \<or> starts_with ''-'' a \<and> \<not> starts_with ''--'' a \<and> (CHR ''r'' \<in> set (drop 1 a) \<or> CHR ''R'' \<in> set (drop 1 a))"

definition rm_attack :: "string list \<Rightarrow> bool" where
  "rm_attack post \<longleftrightarrow>
     (let args = takeWhile (\<lambda>a. \<not> is_separator a) post;
          opts = takeWhile (\<lambda>a. a \<noteq> ''--'') args;
          after = dropWhile (\<lambda>a. a \<noteq> ''--'') args
      in (\<exists>a\<in>set opts. recursive_option a)
         \<and> (\<exists>t. (t \<in> set opts \<and> \<not> starts_with ''-'' t \<or> t \<in> set after \<and> t \<noteq> ''--'')
               \<and> is_dangerous_recursive_delete_target t))"

lemma scan_rm_after:
  "scan_rm_args args rec False ts =
     (rec, ts @ filter (\<lambda>a. a \<noteq> ''--'') (takeWhile (\<lambda>a. \<not> is_separator a) args))"
  by (induction args arbitrary: ts) auto

lemma scan_rm_before:
  "scan_rm_args args rec True ts =
     (let as = takeWhile (\<lambda>a. \<not> is_separator a) args;
          opts = takeWhile (\<lambda>a. a \<noteq> ''--'') as
      in (rec \<or> (\<exists>a\<in>set opts. recursive_option a),
          ts @ filter (\<lambda>a. \<not> starts_with ''-'' a) opts
             @ filter (\<lambda>a. a \<noteq> ''--'') (dropWhile (\<lambda>a. a \<noteq> ''--'') as)))"
proof (induction args arbitrary: rec ts)
  case (Cons a args)
  consider "is_separator a" | "\<not> is_separator a" "a = ''--''"
    | "\<not> is_separator a" "a \<noteq> ''--''" "starts_with ''--'' a"
    | "\<not> is_separator a" "a \<noteq> ''--''" "\<not> starts_with ''--'' a" "starts_with ''-'' a"
    | "\<not> is_separator a" "\<not> starts_with ''-'' a" "a \<noteq> ''--''" "\<not> starts_with ''--'' a" by blast
  then show ?case
  proof cases
    case 3
    then have "starts_with ''-'' a" by (cases a) auto
    with 3 Cons.IH show ?thesis by (auto simp: Let_def recursive_option_def)
  next
    case 5
    then show ?thesis using Cons.IH by (auto simp: Let_def recursive_option_def)
  qed (use Cons.IH in \<open>auto simp: Let_def scan_rm_after recursive_option_def\<close>)
qed simp

lemma has_dangerous_recursive_rm_iff:
  "has_dangerous_recursive_rm parts \<longleftrightarrow> (\<exists>pre post. parts = pre @ ''rm'' # post \<and> rm_attack post)"
proof (induction parts)
  case (Cons token rest)
  have scan: "(\<exists>pre post. token # rest = pre @ ''rm'' # post \<and> rm_attack post)
      \<longleftrightarrow> token = ''rm'' \<and> rm_attack rest \<or> (\<exists>pre post. rest = pre @ ''rm'' # post \<and> rm_attack post)"
    by (auto simp: Cons_eq_append_conv)
  show ?case
  proof (cases "token = ''rm''")
    case True
    have "rm_attack rest \<longleftrightarrow> (case scan_rm_args rest False True [] of (r, ts) \<Rightarrow>
        r \<and> list_ex is_dangerous_recursive_delete_target ts)"
      by (auto simp: rm_attack_def scan_rm_before Let_def list_ex_iff)
    then show ?thesis using True Cons.IH scan by (auto split: prod.splits)
  next
    case False
    then show ?thesis using Cons.IH scan by simp
  qed
qed simp

section \<open>Protected directories\<close>

definition protected_dirs :: "string list" where
  "protected_dirs = [''home'', ''root'', ''usr'', ''etc'', ''var'', ''boot'', ''sys'', ''proc'', ''dev'', ''run'',
     ''lib'', ''lib64'', ''opt'', ''sbin'', ''bin'']"

definition protected_parts :: "string list \<Rightarrow> bool" where
  "protected_parts ps \<longleftrightarrow> ps = [] \<or> ps = [''*''] \<or> (\<exists>d\<in>set protected_dirs. ps = [d] \<or> ps = [d, ''*''])"

lemma dangerous_normal_forms:
  "map normalize_delete_target DANGEROUS_TARGETS =
     [''/'', ''/*'', ''/'', ''/'', ''~'', ''~'', ''$home'', ''${home}'', ''/home'', ''/home/*'', ''/root'',
      ''/root/*'', ''/usr'', ''/usr/*'', ''/etc'', ''/etc/*'', ''/var'', ''/var/*'', ''/boot'', ''/boot/*'',
      ''/sys'', ''/sys/*'', ''/proc'', ''/proc/*'', ''/dev'', ''/dev/*'', ''/run'', ''/run/*'', ''/lib'', ''/lib/*'',
      ''/lib64'', ''/lib64/*'', ''/opt'', ''/opt/*'', ''/sbin'', ''/sbin/*'', ''/bin'', ''/bin/*'']"
  by code_simp

lemma dangerous_target_mem:
  "normalize_delete_target v \<in> set (map normalize_delete_target DANGEROUS_TARGETS) \<Longrightarrow>
   v = trim_matches (\<lambda>ch. ch \<in> set ''(){};'') v0 \<Longrightarrow> is_dangerous_recursive_delete_target v0"
  by (auto simp: is_dangerous_recursive_delete_target_def Let_def list_ex_iff)

text \<open>Every lexical alias of a protected directory (\<open>//etc/\<close>, \<open>/tmp/../etc\<close>, \<open>/usr/./*\<close>) counts.\<close>

lemma protected_alias_dangerous:
  assumes "v = trim_matches (\<lambda>ch. ch \<in> set ''(){};'') v0" "starts_with ''/'' v" "protected_parts (norm_parts v)"
  shows "is_dangerous_recursive_delete_target v0"
proof (rule dangerous_target_mem [OF _ assms(1)])
  show "normalize_delete_target v \<in> set (map normalize_delete_target DANGEROUS_TARGETS)"
    using assms(2,3) unfolding dangerous_normal_forms normalize_delete_target_def protected_parts_def
    by (auto simp: Let_def protected_dirs_def)
qed

section \<open>Properties\<close>

lemma first_reason_None_iff: "first_reason rs = None \<longleftrightarrow> (\<forall>r\<in>set rs. r = None)"
  by (induction rs rule: first_reason.induct) auto

lemma first_reason_Some: "Some r \<in> set rs \<Longrightarrow> \<exists>q. first_reason rs = Some q"
  by (metis first_reason_None_iff not_Some_eq)


text \<open>The command \<open>rm -r /x/../etc\<close>, tokenised.\<close>

lemma demo_command:
  "to_ascii_lowercase (trim ''rm -r /x/../etc'') = ''rm -r /x/../etc''"
  "split_whitespace (guard_normalized to_ascii_lowercase ''rm -r /x/../etc'') = [''rm'', ''-r'', ''/x/../etc'']"
  "trim_matches (\<lambda>ch. ch \<in> set ''(){};'') ''/x/../etc'' = ''/x/../etc''"
  "norm_parts ''/x/../etc'' = [''etc'']"
proof -
  show l: "to_ascii_lowercase (trim ''rm -r /x/../etc'') = ''rm -r /x/../etc''" by code_simp
  have "guard_normalized to_ascii_lowercase ''rm -r /x/../etc'' = ''rm -r /x/../etc''"
    unfolding guard_normalized_def l by code_simp
  moreover have "split_whitespace ''rm -r /x/../etc'' = [''rm'', ''-r'', ''/x/../etc'']" by code_simp
  ultimately show "split_whitespace (guard_normalized to_ascii_lowercase ''rm -r /x/../etc'')
    = [''rm'', ''-r'', ''/x/../etc'']" by simp
  show "trim_matches (\<lambda>ch. ch \<in> set ''(){};'') ''/x/../etc'' = ''/x/../etc''" by code_simp
  show "norm_parts ''/x/../etc'' = [''etc'']" by code_simp
qed


text \<open>The strict mode refuses at least every command that the balanced mode refuses.\<close>

theorem guard_strict_extends_balanced:
  assumes "check_dangerous_command lower command False = Some reason"
  shows "\<exists>reason'. check_dangerous_command lower command True = Some reason'"
proof -
  have ne: "lower (trim command) \<noteq> []"
    using assms unfolding check_dangerous_command_def by (cases "lower (trim command) = []") simp_all
  have off: "rule_find False q p = None" "rule_download False q = None" "rule_power False q p = None"
    for q p by (simp_all add: rule_find_def rule_download_def rule_power_def Let_def)
  have "first_reason [a, b, None, d, e, f, g, None, None, j] = Some r
      \<Longrightarrow> \<exists>q. first_reason [a, b, c, d, e, f, g, h, i, j] = Some q" for a b c d e f g h i j r
    using first_reason_None_iff [of "[a, b, c, d, e, f, g, h, i, j]"]
      first_reason_None_iff [of "[a, b, None, d, e, f, g, None, None, j]"]
    by (metis list.set_intros(1,2) option.exhaust_sel option.simps(3))
  then show ?thesis
    using assms ne unfolding check_dangerous_command_def Let_def off by (simp only: if_False)
qed

theorem guard_strict_extends_balanced_witness:
  "\<exists>reason. check_dangerous_command to_ascii_lowercase ''rm -r /x/../etc'' True = Some reason"
proof -
  have t: "split_whitespace (guard_normalized to_ascii_lowercase ''rm -r /x/../etc'') = [''rm'', ''-r'', ''/x/../etc'']"
    by (simp add: demo_command)
  have "rm_attack [''-r'', ''/x/../etc'']"
    using protected_alias_dangerous [OF demo_command(3) [symmetric]] demo_command(4)
    by (auto simp: rm_attack_def Let_def is_separator_def recursive_option_def protected_parts_def
        protected_dirs_def)
  then have "has_dangerous_recursive_rm [''rm'', ''-r'', ''/x/../etc'']"
    by (subst has_dangerous_recursive_rm_iff) (metis append_Nil)
  then have "check_dangerous_command to_ascii_lowercase ''rm -r /x/../etc'' False \<noteq> None"
    unfolding check_dangerous_command_def t Let_def
    by (simp add: demo_command first_reason_None_iff rule_rm_def)
  then obtain r where "check_dangerous_command to_ascii_lowercase ''rm -r /x/../etc'' False = Some r" by blast
  from guard_strict_extends_balanced [OF this] show ?thesis .
qed

text \<open>A harmless command passes.\<close>

lemma ls_passes: "check_dangerous_command to_ascii_lowercase ''ls'' False = None"
proof -
  have l: "to_ascii_lowercase (trim ''ls'') = ''ls''" by code_simp
  have n: "guard_normalized to_ascii_lowercase ''ls'' = ''ls''" unfolding guard_normalized_def l by code_simp
  have p: "split_whitespace ''ls'' = [''ls'']" by code_simp
  have rules: "rule_fork_bomb ''ls'' ''ls'' = None" "rule_rm ''ls'' [''ls''] = None" "rule_find False ''ls'' [''ls''] = None"
    "rule_disk ''ls'' ''ls'' = None" "rule_dd ''ls'' ''ls'' [''ls''] = None" "rule_redirect ''ls'' = None"
    "rule_permissions ''ls'' = None" "rule_download False ''ls'' = None" "rule_power False ''ls'' [''ls''] = None"
    "rule_critical ''ls'' = None" by code_simp+
  show ?thesis by (simp add: check_dangerous_command_def l n p rules Let_def)
qed

end
