(* ===== verification/Terminal_Bytes.thy ===== *)
theory Terminal_Bytes
  imports Rust_Prelude
begin

text \<open>
  \<open>remote/terminal\_bytes.rs\<close>: the header byte of a terminal frame and the search for a bare carriage
  return. The vector scanners read whole registers through raw pointers; a read outside the slice is
  the result \<open>None\<close> of the model, so the equivalence theorem also states that no read is out of bounds.
\<close>

unbundle bit_operations_syntax

type_synonym byte = "8 word"

definition FRAME_PAYLOAD_BYTES :: nat where "FRAME_PAYLOAD_BYTES = 64 * 1024"
definition FRAME_METADATA :: byte where "FRAME_METADATA = 0x80"
definition FRAME_BARE_CR :: byte where "FRAME_BARE_CR = 0x04"

definition new_frame :: "byte \<Rightarrow> byte list \<Rightarrow> byte list" where
  "new_frame kind bs = kind # bs"

section \<open>Scanning\<close>

text \<open>\<open>slice::get\<close>, \<open>memchr\<close> and \<open>memchr\_iter\<close>.\<close>

definition get_at :: "'a list \<Rightarrow> nat \<Rightarrow> 'a option" where
  "get_at xs i = (if i < length xs then Some (xs ! i) else None)"

definition memchr_iter :: "'a \<Rightarrow> 'a list \<Rightarrow> nat list" where
  "memchr_iter c bs = filter (\<lambda>i. bs ! i = c) [0..<length bs]"

definition memchr :: "'a \<Rightarrow> 'a list \<Rightarrow> nat option" where
  "memchr c bs = (case memchr_iter c bs of [] \<Rightarrow> None | i # _ \<Rightarrow> Some i)"

definition portable_scan :: "byte list \<Rightarrow> bool" where
  "portable_scan bs = list_ex (\<lambda>position. get_at bs (position + 1) \<noteq> Some 10) (memchr_iter 13 bs)"

text \<open>An unaligned load of \<open>w\<close> bytes at an offset, a lane-wise comparison, and \<open>a \& \textasciitilde{}b != 0\<close> on the two
  lane masks.\<close>

definition load_lanes :: "nat \<Rightarrow> byte list \<Rightarrow> nat \<Rightarrow> byte list option" where
  "load_lanes w bs offset =
     (if offset + w \<le> length bs then Some (take w (drop offset bs)) else None)"

definition cmpeq :: "byte \<Rightarrow> byte list \<Rightarrow> bool list" where
  "cmpeq x v = map (\<lambda>b. b = x) v"

definition any_and_not :: "bool list \<Rightarrow> bool list \<Rightarrow> bool" where
  "any_and_not a b = list_ex (\<lambda>(p, q). p \<and> \<not> q) (zip a b)"

text \<open>The loop of the three vector scanners, with \<open>w\<close> lanes; \<open>None\<close> is an out-of-bounds read.\<close>

function scan_lanes :: "nat \<Rightarrow> byte list \<Rightarrow> nat \<Rightarrow> bool option" where
  "scan_lanes w bs offset =
     (if 0 < w \<and> length bs - offset \<ge> w + 1 then
        (case (load_lanes w bs offset, load_lanes w bs (offset + 1)) of
           (Some current, Some next_lanes) \<Rightarrow>
             if any_and_not (cmpeq 13 current) (cmpeq 10 next_lanes) then Some True
             else scan_lanes w bs (offset + w)
         | _ \<Rightarrow> None)
      else if offset \<le> length bs then Some (portable_scan (drop offset bs)) else None)"
  by pat_completeness auto
termination
  by (relation "measure (\<lambda>(w, bs, offset). length bs - offset)") auto

declare scan_lanes.simps [simp del]

definition scan_avx2 :: "byte list \<Rightarrow> bool option" where
  "scan_avx2 bs = scan_lanes 32 bs 0"

definition scan_sse2 :: "byte list \<Rightarrow> bool option" where
  "scan_sse2 bs = scan_lanes 16 bs 0"

definition scan_neon :: "byte list \<Rightarrow> bool option" where
  "scan_neon bs = scan_lanes 16 bs 0"

text \<open>The features the processor reports at run time decide which scanner is used.\<close>

record cpu_features =
  cpu_avx2 :: bool
  cpu_sse2 :: bool
  cpu_neon :: bool

definition select_scan :: "cpu_features \<Rightarrow> byte list \<Rightarrow> bool option" where
  "select_scan cpu =
     (if cpu_avx2 cpu then scan_avx2 else if cpu_sse2 cpu then scan_sse2
      else if cpu_neon cpu then scan_neon else (\<lambda>bs. Some (portable_scan bs)))"

definition has_bare_cr :: "cpu_features \<Rightarrow> byte list \<Rightarrow> bool option" where
  "has_bare_cr cpu bs =
     (if length bs < 64 then Some (portable_scan bs)
      else case memchr 13 bs of
        None \<Rightarrow> Some False
      | Some first_cr \<Rightarrow>
          (let rest = drop first_cr bs in
           if get_at rest 1 \<noteq> Some 10 then Some True else select_scan cpu rest))"

text \<open>\<open>None\<close>: the slice \<open>frame[1..]\<close> of an empty frame panics.\<close>

definition annotate_frame :: "cpu_features \<Rightarrow> byte list \<Rightarrow> byte list option" where
  "annotate_frame cpu frame =
     (case frame of
        [] \<Rightarrow> None
      | kind # body \<Rightarrow>
          map_option (\<lambda>bare_cr.
             (((kind AND 3) OR FRAME_METADATA) OR (if bare_cr then FRAME_BARE_CR else 0)) # body)
            (has_bare_cr cpu body))"

section \<open>All scanners agree\<close>

text \<open>The reference: some carriage return is not followed by a line feed.\<close>

definition bare_cr_from :: "nat \<Rightarrow> byte list \<Rightarrow> bool" where
  "bare_cr_from k bs \<longleftrightarrow>
     (\<exists>p. k \<le> p \<and> p < length bs \<and> bs ! p = 13 \<and> \<not> (p + 1 < length bs \<and> bs ! (p + 1) = 10))"

lemma portable_scan_iff: "portable_scan bs \<longleftrightarrow> bare_cr_from 0 bs"
  by (auto simp: portable_scan_def memchr_iter_def list_ex_iff get_at_def bare_cr_from_def)

lemma portable_scan_drop:
  assumes "k \<le> length bs"
  shows "portable_scan (drop k bs) \<longleftrightarrow> bare_cr_from k bs"
proof
  assume "portable_scan (drop k bs)"
  then obtain p where "p < length bs - k" "bs ! (k + p) = 13"
    "\<not> (p + 1 < length bs - k \<and> bs ! (k + (p + 1)) = 10)"
    by (auto simp: portable_scan_iff bare_cr_from_def assms)
  then show "bare_cr_from k bs"
    unfolding bare_cr_from_def by (intro exI [of _ "k + p"]) (auto simp: add.assoc)
next
  assume "bare_cr_from k bs"
  then obtain p where "k \<le> p" "p < length bs" "bs ! p = 13" "\<not> (p + 1 < length bs \<and> bs ! (p + 1) = 10)"
    by (auto simp: bare_cr_from_def)
  then show "portable_scan (drop k bs)"
    unfolding portable_scan_iff bare_cr_from_def using assms
    by (intro exI [of _ "p - k"]) auto
qed

lemma block_iff:
  assumes "offset + w < length bs"
  shows "any_and_not (cmpeq 13 (take w (drop offset bs))) (cmpeq 10 (take w (drop (offset + 1) bs)))
     \<longleftrightarrow> (\<exists>p. offset \<le> p \<and> p < offset + w \<and> bs ! p = 13 \<and> bs ! (p + 1) \<noteq> 10)"
proof -
  have "zip (cmpeq 13 (take w (drop offset bs))) (cmpeq 10 (take w (drop (offset + 1) bs)))
      = map (\<lambda>i. (bs ! (offset + i) = 13, bs ! (offset + i + 1) = 10)) [0..<w]"
    using assms by (intro nth_equalityI) (auto simp: cmpeq_def)
  then have "any_and_not (cmpeq 13 (take w (drop offset bs))) (cmpeq 10 (take w (drop (offset + 1) bs)))
     \<longleftrightarrow> (\<exists>i<w. bs ! (offset + i) = 13 \<and> bs ! (offset + i + 1) \<noteq> 10)"
    by (auto simp: any_and_not_def list_ex_iff)
  also have "\<dots> \<longleftrightarrow> (\<exists>p. offset \<le> p \<and> p < offset + w \<and> bs ! p = 13 \<and> bs ! (p + 1) \<noteq> 10)"
    by (metis le_add1 le_add_diff_inverse nat_add_left_cancel_less)
  finally show ?thesis .
qed

lemma bare_cr_block:
  assumes "offset + w < length bs"
  shows "bare_cr_from offset bs \<longleftrightarrow>
    (\<exists>p. offset \<le> p \<and> p < offset + w \<and> bs ! p = 13 \<and> bs ! (p + 1) \<noteq> 10) \<or> bare_cr_from (offset + w) bs"
proof
  assume "bare_cr_from offset bs"
  then obtain p where p: "offset \<le> p" "p < length bs" "bs ! p = 13" "\<not> (p + 1 < length bs \<and> bs ! (p + 1) = 10)"
    by (auto simp: bare_cr_from_def)
  show "(\<exists>p. offset \<le> p \<and> p < offset + w \<and> bs ! p = 13 \<and> bs ! (p + 1) \<noteq> 10) \<or> bare_cr_from (offset + w) bs"
  proof (cases "p < offset + w")
    case True
    then have "bs ! (p + 1) \<noteq> 10" using p assms by auto
    then show ?thesis using True p by blast
  next
    case False
    then show ?thesis using p by (auto simp: bare_cr_from_def)
  qed
next
  assume "(\<exists>p. offset \<le> p \<and> p < offset + w \<and> bs ! p = 13 \<and> bs ! (p + 1) \<noteq> 10) \<or> bare_cr_from (offset + w) bs"
  then show "bare_cr_from offset bs"
  proof
    assume "\<exists>p. offset \<le> p \<and> p < offset + w \<and> bs ! p = 13 \<and> bs ! (p + 1) \<noteq> 10"
    then obtain p where "offset \<le> p" "p < offset + w" "bs ! p = 13" "bs ! (p + 1) \<noteq> 10" by blast
    then show ?thesis unfolding bare_cr_from_def using assms by (intro exI [of _ p]) auto
  next
    assume "bare_cr_from (offset + w) bs"
    then show ?thesis unfolding bare_cr_from_def using add_leD1 by blast
  qed
qed

lemma scan_lanes_correct:
  "0 < w \<Longrightarrow> offset \<le> length bs \<Longrightarrow> scan_lanes w bs offset = Some (bare_cr_from offset bs)"
proof (induction w bs offset rule: scan_lanes.induct)
  case (1 w bs offset)
  show ?case
  proof (cases "length bs - offset \<ge> w + 1")
    case True
    then have lt: "offset + w < length bs" by simp
    let ?hit = "any_and_not (cmpeq 13 (take w (drop offset bs))) (cmpeq 10 (take w (drop (offset + 1) bs)))"
    have loads: "load_lanes w bs offset = Some (take w (drop offset bs))"
      "load_lanes w bs (offset + 1) = Some (take w (drop (offset + 1) bs))"
      using lt by (simp_all add: load_lanes_def)
    have step: "scan_lanes w bs offset = (if ?hit then Some True else scan_lanes w bs (offset + w))"
      using True 1(2) loads by (subst scan_lanes.simps) simp
    have blk: "bare_cr_from offset bs \<longleftrightarrow> ?hit \<or> bare_cr_from (offset + w) bs"
      unfolding block_iff [OF lt] by (rule bare_cr_block [OF lt])
    show ?thesis
    proof (cases ?hit)
      case True
      then show ?thesis using step blk by (simp only: if_True simp_thms)
    next
      case False
      have "scan_lanes w bs (offset + w) = Some (bare_cr_from (offset + w) bs)"
        using "1.IH" [OF _ _ loads(1) loads(2) False] True 1(2) lt loads by simp
      then show ?thesis using step False blk by (simp only: if_False simp_thms)
    qed
  next
    case False
    then show ?thesis using 1(2,3) by (subst scan_lanes.simps) (simp add: portable_scan_drop)
  qed
qed

lemma select_scan_correct: "select_scan cpu bs = Some (bare_cr_from 0 bs)"
  by (simp add: select_scan_def scan_avx2_def scan_sse2_def scan_neon_def scan_lanes_correct
      portable_scan_iff)

lemma memchr_cases:
  "memchr c bs = None \<Longrightarrow> c \<notin> set bs"
  "memchr c bs = Some i \<Longrightarrow> i < length bs \<and> bs ! i = c \<and> (\<forall>j<i. bs ! j \<noteq> c)"
proof -
  assume "memchr c bs = None"
  then have "memchr_iter c bs = []" by (simp add: memchr_def split: list.splits)
  then show "c \<notin> set bs" by (auto simp: memchr_iter_def filter_empty_conv in_set_conv_nth)
next
  assume "memchr c bs = Some i"
  then obtain js where it: "filter (\<lambda>i. bs ! i = c) [0..<length bs] = i # js"
    by (auto simp: memchr_def memchr_iter_def split: list.splits)
  then obtain us vs where sp: "[0..<length bs] = us @ i # vs" "\<forall>u\<in>set us. bs ! u \<noteq> c" "bs ! i = c"
    by (auto simp: filter_eq_Cons_iff)
  have "i < length bs" using arg_cong [OF sp(1), of set] by (metis atLeastLessThan_iff in_set_conv_decomp set_upt)
  moreover have "length us = i"
  proof -
    have "length us < length bs" using arg_cong [OF sp(1), of length] by simp
    then have "[0..<length bs] ! length us = length us" by simp
    then show ?thesis by (simp add: sp(1))
  qed
  then have "us = [0..<i]" using arg_cong [OF sp(1), of "take i"] calculation by simp
  ultimately show "i < length bs \<and> bs ! i = c \<and> (\<forall>j<i. bs ! j \<noteq> c)" using sp by simp
qed

lemma has_bare_cr_portable: "has_bare_cr cpu bs = Some (bare_cr_from 0 bs)"
proof (cases "length bs < 64")
  case True
  then show ?thesis by (simp add: has_bare_cr_def portable_scan_iff)
next
  case long: False
  show ?thesis
  proof (cases "memchr 13 bs")
    case None
    then have "\<not> bare_cr_from 0 bs" using memchr_cases(1) [OF None] unfolding bare_cr_from_def by (metis nth_mem)
    then show ?thesis using long None by (simp add: has_bare_cr_def)
  next
    case (Some i)
    note i = memchr_cases(2) [OF Some]
    have from_i: "bare_cr_from 0 bs \<longleftrightarrow> bare_cr_from i bs"
      unfolding bare_cr_from_def using i by (metis le0 not_le_imp_less)
    have drop_i: "bare_cr_from 0 (drop i bs) \<longleftrightarrow> bare_cr_from i bs"
      using portable_scan_drop [of i bs] i by (simp add: portable_scan_iff)
    have hit: "bare_cr_from i bs" if "get_at (drop i bs) 1 \<noteq> Some 10"
      unfolding bare_cr_from_def using i that by (intro exI [of _ i]) (auto simp: get_at_def less_diff_conv)
    show ?thesis
      using long Some hit by (auto simp: has_bare_cr_def Let_def select_scan_correct from_i drop_i)
  qed
qed

text \<open>C18: whichever vector instructions the processor offers, the search for a bare carriage return
  reads no byte outside the slice and gives the answer of the byte-by-byte definition: some carriage
  return is last or followed by something other than a line feed.\<close>

theorem has_bare_cr_equivalent:
  "has_bare_cr cpu bs =
     Some (\<exists>p<length bs. bs ! p = 13 \<and> \<not> (p + 1 < length bs \<and> bs ! (p + 1) = 10))"
  unfolding has_bare_cr_portable bare_cr_from_def by (auto simp: Suc_lessI)

text \<open>What the client reads from a header: the stream, the metadata mark, the bare-CR mark; the
  payload is untouched.\<close>

lemma annotate_frame_spec:
  "annotate_frame cpu (kind # body) =
     Some ((((kind AND 3) OR 0x80) OR (if portable_scan body then 4 else 0)) # body)"
  by (simp add: annotate_frame_def FRAME_METADATA_def FRAME_BARE_CR_def has_bare_cr_portable portable_scan_iff)

end
