(* ===== verification/Permits.thy ===== *)
theory Permits
  imports Rust_Prelude
begin

text \<open>
  The documented behaviour of a counting semaphore as the code uses it (\<open>tokio::sync::Semaphore\<close>:
  acquire that waits, forget, add, close), and the interface of a system of steps with an invariant
  that the components with permits and queues share.
\<close>

record semaphore =
  sem_available :: nat
  sem_closed :: bool

definition sem_new :: "nat \<Rightarrow> semaphore" where
  "sem_new n = \<lparr>sem_available = n, sem_closed = False\<rparr>"

datatype acquire = Acquired semaphore | MustWait | SemClosed

definition sem_acquire :: "nat \<Rightarrow> semaphore \<Rightarrow> acquire" where
  "sem_acquire n s =
     (if sem_closed s then SemClosed
      else if n \<le> sem_available s then Acquired (s\<lparr>sem_available := sem_available s - n\<rparr>)
      else MustWait)"

definition sem_add :: "nat \<Rightarrow> semaphore \<Rightarrow> semaphore" where
  "sem_add n s = s\<lparr>sem_available := sem_available s + n\<rparr>"

definition sem_close :: "semaphore \<Rightarrow> semaphore" where
  "sem_close s = s\<lparr>sem_closed := True\<rparr>"

lemma sem_acquire_Acquired:
  "sem_acquire n s = Acquired s' \<longleftrightarrow>
     \<not> sem_closed s \<and> n \<le> sem_available s \<and> s' = s\<lparr>sem_available := sem_available s - n\<rparr>"
  by (auto simp: sem_acquire_def)

lemma sem_simps [simp]:
  "sem_available (sem_new n) = n" "\<not> sem_closed (sem_new n)"
  "sem_available (sem_add n s) = sem_available s + n" "sem_closed (sem_add n s) = sem_closed s"
  "sem_available (sem_close s) = sem_available s" "sem_closed (sem_close s)"
  by (simp_all add: sem_new_def sem_add_def sem_close_def)

section \<open>Systems with an invariant\<close>

locale invariant_system =
  fixes step :: "'s \<Rightarrow> 's \<Rightarrow> bool" and initial :: "'s \<Rightarrow> bool" and inv :: "'s \<Rightarrow> bool"
  assumes init_inv: "initial s \<Longrightarrow> inv s"
    and step_inv: "inv s \<Longrightarrow> step s s' \<Longrightarrow> inv s'"
begin

lemma star_inv: "step\<^sup>*\<^sup>* s s' \<Longrightarrow> inv s \<Longrightarrow> inv s'"
  by (induction rule: rtranclp_induct) (auto intro: step_inv)

lemma reach_inv: "initial s \<Longrightarrow> step\<^sup>*\<^sup>* s s' \<Longrightarrow> inv s'"
  using star_inv init_inv by blast

end

end
