(* ===== verification/Terminal_Flow.thy ===== *)
theory Terminal_Flow
  imports Terminal_Bytes Permits App_Errors
begin

text \<open>
  \<open>remote/terminal\_stream.rs\<close>: consumption credit of one terminal. A frame is sent only for permits
  that are given back once the client has acknowledged that it consumed the bytes. The operations
  are given as the code has them, and as a step relation over their atomic accesses, in which sends
  and acknowledgements interleave. \<open>sent\<close> and \<open>acknowledged\<close> are 64-bit counters.
\<close>

definition TERMINAL_IN_FLIGHT_BYTES :: nat where "TERMINAL_IN_FLIGHT_BYTES = 1024 * 1024"
definition TERMINAL_FRAME_BYTES :: nat where "TERMINAL_FRAME_BYTES = FRAME_PAYLOAD_BYTES"

record terminal_flow =
  fl_slots :: semaphore
  fl_sent :: nat
  fl_acknowledged :: nat
  fl_urgent :: bool

definition terminal_flow_default :: terminal_flow where
  "terminal_flow_default =
     \<lparr>fl_slots = sem_new TERMINAL_IN_FLIGHT_BYTES, fl_sent = 0, fl_acknowledged = 0, fl_urgent = True\<rparr>"

definition acknowledge :: "nat \<Rightarrow> terminal_flow \<Rightarrow> terminal_flow \<times> unit app_result" where
  "acknowledge consumed f =
     (if consumed > fl_sent f
      then (f, Inl (InvalidInput ''acknowledgement beyond the data sent''))
      else let previous = fl_acknowledged f;
               f1 = f\<lparr>fl_acknowledged := max previous consumed\<rparr>
           in (if consumed > previous
               then (f1\<lparr>fl_slots := sem_add (consumed - previous) (fl_slots f)\<rparr>, Inr ())
               else (f1, Inr ())))"

definition flow_close :: "terminal_flow \<Rightarrow> terminal_flow" where
  "flow_close f = f\<lparr>fl_slots := sem_close (fl_slots f)\<rparr>"

text \<open>What sending a frame does: it is refused, it waits for credit, or it goes through; \<open>delivered\<close>
  says whether the channel accepted it.\<close>

datatype send_outcome =
  SendRefused app_error terminal_flow
| SendWaits
| SendDone "byte list" terminal_flow

definition send_frame :: "cpu_features \<Rightarrow> string option \<Rightarrow> byte list \<Rightarrow> terminal_flow \<Rightarrow> send_outcome" where
  "send_frame cpu channel_error frame f =
     (if length frame \<le> 1 \<or> length frame > TERMINAL_FRAME_BYTES + 1
      then SendRefused (InvalidInput ''invalid terminal frame length'') f
      else
        (let payload_bytes = length frame - 1 in
         case annotate_frame cpu frame of
           None \<Rightarrow> SendRefused (InvalidInput ''panic'') f
         | Some frame' \<Rightarrow>
             (case sem_acquire payload_bytes (fl_slots f) of
                SemClosed \<Rightarrow> SendRefused (Remote ''semaphore closed'') f
              | MustWait \<Rightarrow> SendWaits
              | Acquired slots \<Rightarrow>
                  (let f1 = f\<lparr>fl_slots := slots, fl_sent := (fl_sent f + payload_bytes) mod 2 ^ 64\<rparr> in
                   case channel_error of
                     Some e \<Rightarrow> SendRefused (Remote e) (flow_close f1)
                   | None \<Rightarrow> SendDone frame' f1))))"

section \<open>Interleaved accesses\<close>

text \<open>The shared counters and what the running calls hold: permits taken but not yet counted as sent,
  acknowledgements that passed their check, credit not yet given back. The last field, the number of
  bytes ever counted, is for reasoning only.\<close>

record flow_sys =
  ft_flow :: terminal_flow
  ft_acquired :: "nat list"
  ft_checked :: "nat list"
  ft_credits :: "nat list"
  ft_total :: nat

definition flow_sys_init :: flow_sys where
  "flow_sys_init =
     \<lparr>ft_flow = terminal_flow_default, ft_acquired = [], ft_checked = [], ft_credits = [], ft_total = 0\<rparr>"

inductive flow_step :: "flow_sys \<Rightarrow> flow_sys \<Rightarrow> bool" where
  send_acquire: "sem_acquire n (fl_slots (ft_flow s)) = Acquired slots \<Longrightarrow> 0 < n \<Longrightarrow> n \<le> TERMINAL_FRAME_BYTES \<Longrightarrow>
    flow_step s (s\<lparr>ft_flow := (ft_flow s)\<lparr>fl_slots := slots\<rparr>, ft_acquired := n # ft_acquired s\<rparr>)"
| send_count: "ft_acquired s = xs @ n # ys \<Longrightarrow>
    flow_step s (s\<lparr>ft_flow := (ft_flow s)\<lparr>fl_sent := (fl_sent (ft_flow s) + n) mod 2 ^ 64\<rparr>,
      ft_acquired := xs @ ys, ft_total := ft_total s + n\<rparr>)"
| ack_check: "consumed \<le> fl_sent (ft_flow s) \<Longrightarrow>
    flow_step s (s\<lparr>ft_checked := consumed # ft_checked s\<rparr>)"
| ack_max: "ft_checked s = xs @ consumed # ys \<Longrightarrow> previous = fl_acknowledged (ft_flow s) \<Longrightarrow>
    flow_step s (s\<lparr>ft_flow := (ft_flow s)\<lparr>fl_acknowledged := max previous consumed\<rparr>,
      ft_checked := xs @ ys,
      ft_credits := (if consumed > previous then (consumed - previous) # ft_credits s else ft_credits s)\<rparr>)"
| ack_credit: "ft_credits s = xs @ c # ys \<Longrightarrow>
    flow_step s (s\<lparr>ft_flow := (ft_flow s)\<lparr>fl_slots := sem_add c (fl_slots (ft_flow s))\<rparr>,
      ft_credits := xs @ ys\<rparr>)"
| closed: "flow_step s (s\<lparr>ft_flow := flow_close (ft_flow s)\<rparr>)"
| urgent: "flow_step s (s\<lparr>ft_flow := (ft_flow s)\<lparr>fl_urgent := b\<rparr>\<rparr>)"

text \<open>As long as fewer than \<open>2 ^ 64\<close> bytes have been sent, no credit is lost or made up.\<close>

definition flow_inv :: "flow_sys \<Rightarrow> bool" where
  "flow_inv s \<longleftrightarrow>
     (ft_total s < 2 ^ 64 \<longrightarrow>
        (let f = ft_flow s in
         fl_sent f = ft_total s \<and> fl_acknowledged f \<le> fl_sent f
         \<and> (\<forall>c\<in>set (ft_checked s). c \<le> fl_sent f)
         \<and> sem_available (fl_slots f) + sum_list (ft_acquired s) + (fl_sent f - fl_acknowledged f)
             + sum_list (ft_credits s) = TERMINAL_IN_FLIGHT_BYTES))"

lemma flow_step_inv: "flow_step s s' \<Longrightarrow> flow_inv s \<Longrightarrow> flow_inv s'"
proof (induction rule: flow_step.induct)
  case (send_count s xs n ys)
  then show ?case by (auto simp: flow_inv_def Let_def)
next
  case (ack_max s xs consumed ys previous)
  then show ?case by (auto simp: flow_inv_def Let_def max_def)
next
  case (ack_check consumed s)
  then show ?case by (auto simp: flow_inv_def Let_def)
qed (auto simp: flow_inv_def Let_def sem_acquire_Acquired flow_close_def)

interpretation flow: invariant_system flow_step "\<lambda>s. s = flow_sys_init" flow_inv
proof
  show "flow_inv s" if "s = flow_sys_init" for s
    using that by (simp add: flow_inv_def flow_sys_init_def terminal_flow_default_def)
qed (rule flow_step_inv)

text \<open>C19: however sends and acknowledgements interleave, while fewer than \<open>2 ^ 64\<close> bytes are sent no
  credit is lost or invented: the free permits, those held by running sends, the bytes sent and not
  acknowledged and the credit being returned always add up to 1 MiB. So at most 1 MiB is in flight,
  and the client never acknowledges more than was sent.\<close>

theorem terminal_credit_conserved:
  assumes "flow_step\<^sup>*\<^sup>* flow_sys_init s" and "ft_total s < 2 ^ 64"
  shows "sem_available (fl_slots (ft_flow s)) + sum_list (ft_acquired s)
      + (fl_sent (ft_flow s) - fl_acknowledged (ft_flow s)) + sum_list (ft_credits s) = 1024 * 1024
    \<and> fl_acknowledged (ft_flow s) \<le> fl_sent (ft_flow s)"
  using flow.reach_inv [OF refl assms(1)] assms(2)
  by (auto simp: flow_inv_def Let_def TERMINAL_IN_FLIGHT_BYTES_def)

theorem terminal_credit_conserved_witness:
  "\<exists>s. flow_step\<^sup>*\<^sup>* flow_sys_init s \<and> ft_acquired s = [5]
     \<and> sem_available (fl_slots (ft_flow s)) + 5 = 1024 * 1024"
proof -
  let ?f = "terminal_flow_default"
  let ?slots = "(fl_slots ?f)\<lparr>sem_available := TERMINAL_IN_FLIGHT_BYTES - 5\<rparr>"
  let ?s = "flow_sys_init\<lparr>ft_flow := ?f\<lparr>fl_slots := ?slots\<rparr>, ft_acquired := [5]\<rparr>"
  have "flow_step flow_sys_init ?s"
    using flow_step.send_acquire [of 5 flow_sys_init ?slots]
    by (simp add: flow_sys_init_def terminal_flow_default_def sem_acquire_def sem_new_def
        TERMINAL_IN_FLIGHT_BYTES_def TERMINAL_FRAME_BYTES_def FRAME_PAYLOAD_BYTES_def)
  then have r: "flow_step\<^sup>*\<^sup>* flow_sys_init ?s" by simp
  have "ft_total ?s < 2 ^ 64" by (simp add: flow_sys_init_def)
  from terminal_credit_conserved [OF r this] r show ?thesis
    by (intro exI [of _ ?s]) (simp add: flow_sys_init_def terminal_flow_default_def)
qed

text \<open>The calls themselves are paths of these steps.\<close>

lemma acknowledge_steps:
  assumes "acknowledge consumed (ft_flow s) = (f', Inr ())"
  shows "flow_step\<^sup>*\<^sup>* s (s\<lparr>ft_flow := f'\<rparr>)"
proof -
  let ?f = "ft_flow s" and ?p = "fl_acknowledged (ft_flow s)"
  let ?s1 = "s\<lparr>ft_checked := consumed # ft_checked s\<rparr>"
  let ?s2 = "?s1\<lparr>ft_flow := ?f\<lparr>fl_acknowledged := max ?p consumed\<rparr>, ft_checked := ft_checked s,
    ft_credits := (if consumed > ?p then (consumed - ?p) # ft_credits s else ft_credits s)\<rparr>"
  have le: "consumed \<le> fl_sent ?f" using assms by (auto simp: acknowledge_def split: if_splits)
  have 1: "flow_step s ?s1" using le by (rule flow_step.ack_check)
  show ?thesis
  proof (cases "consumed > ?p")
    case True
    have 2: "flow_step ?s1 ?s2"
      using flow_step.ack_max [of ?s1 "[]" consumed "ft_checked s" ?p] True by simp
    have "flow_step ?s2 (s\<lparr>ft_flow := f'\<rparr>)"
      using flow_step.ack_credit [of ?s2 "[]" "consumed - ?p" "ft_credits s"] True assms le
      by (auto simp: acknowledge_def Let_def)
    with 1 2 show ?thesis by (meson converse_rtranclp_into_rtranclp r_into_rtranclp)
  next
    case False
    have 2: "flow_step ?s1 ?s2"
      using flow_step.ack_max [of ?s1 "[]" consumed "ft_checked s" ?p] False by simp
    have "?s2 = s\<lparr>ft_flow := f'\<rparr>" using False assms le by (auto simp: acknowledge_def Let_def)
    with 1 2 show ?thesis by (metis converse_rtranclp_into_rtranclp r_into_rtranclp)
  qed
qed

end
