(* ===== verification/Terminal_Output.thy ===== *)
theory Terminal_Output
  imports Terminal_Flow
begin

text \<open>
  The path of terminal output from the SSH channel to the client: \<open>PendingTerminalOutput\<close> and
  \<open>TerminalOutputGate\<close> (\<open>remote.rs\<close>), \<open>TerminalOutputBatch\<close>, the reader task, \<open>terminal\_start\<close> and
  \<open>emit\_or\_buffer\_terminal\_output\<close> (\<open>remote/runtime\_terminal.rs\<close>), the closing frame
  (\<open>remote/event\_emitters.rs\<close>). Whether a frame can be sent is decided by the flow control of
  \<open>Terminal\_Flow\<close>; here it is the argument \<open>ok\<close> of the emitting functions.
\<close>

definition MAX_TERMINAL_STARTUP_OUTPUT_BYTES :: nat where
  "MAX_TERMINAL_STARTUP_OUTPUT_BYTES = 4 * 1024 * 1024"

definition TERMINAL_BATCH_BYTES :: nat where "TERMINAL_BATCH_BYTES = 64 * 1024"

section \<open>One output\<close>

record pending_output =
  po_data :: "byte list"

definition pending_output_new :: "string \<Rightarrow> byte list \<Rightarrow> pending_output" where
  "pending_output_new kind bs =
     \<lparr>po_data = new_frame (if kind = ''error'' then 1 else if kind = ''system'' then 2 else 0) bs\<rparr>"

definition po_kind :: "pending_output \<Rightarrow> string" where
  "po_kind p = (let k = hd (po_data p) AND 3 in
     if k = 1 then ''error'' else if k = 2 then ''system'' else ''output'')"

definition po_payload :: "pending_output \<Rightarrow> byte list" where
  "po_payload p = tl (po_data p)"

section \<open>The startup buffer\<close>

record output_gate =
  og_channel :: bool
  og_streaming :: bool
  og_pending :: "pending_output list"
  og_pending_bytes :: nat
  og_max_pending_bytes :: nat

definition output_gate_new :: "nat \<Rightarrow> output_gate" where
  "output_gate_new max_bytes = \<lparr>og_channel = False, og_streaming = False, og_pending = [],
     og_pending_bytes = 0, og_max_pending_bytes = max_bytes\<rparr>"

definition output_gate_default :: output_gate where
  "output_gate_default = output_gate_new MAX_TERMINAL_STARTUP_OUTPUT_BYTES"

definition output_gate_start :: "output_gate \<Rightarrow> output_gate \<times> pending_output list" where
  "output_gate_start g =
     (if og_streaming g then (g, [])
      else (g\<lparr>og_streaming := True, og_pending_bytes := 0, og_pending := []\<rparr>, og_pending g))"

text \<open>The eviction loop of \<open>push\_pending\<close>.\<close>

fun evict_pending :: "nat \<Rightarrow> nat \<Rightarrow> pending_output list \<Rightarrow> nat \<Rightarrow> pending_output list \<times> nat" where
  "evict_pending n max_bytes [] pending_bytes = ([], pending_bytes)"
| "evict_pending n max_bytes (p # ps) pending_bytes =
     (if sat_add64 pending_bytes n > max_bytes
      then evict_pending n max_bytes ps (pending_bytes - length (po_payload p))
      else (p # ps, pending_bytes))"

definition push_pending :: "pending_output \<Rightarrow> output_gate \<Rightarrow> output_gate" where
  "push_pending out g =
     (if og_max_pending_bytes g = 0 \<or> po_payload out = [] then g
      else
        (let m = og_max_pending_bytes g;
             out' = (if length (po_payload out) > m
                     then \<lparr>po_data = take 1 (po_data out) @ drop (length (po_data out) - m) (po_data out)\<rparr>
                     else out);
             (ps, b) = evict_pending (length (po_payload out')) m (og_pending g) (og_pending_bytes g)
         in g\<lparr>og_pending := ps @ [out'], og_pending_bytes := b + length (po_payload out')\<rparr>))"

section \<open>Batching\<close>

function chunks :: "nat \<Rightarrow> 'a list \<Rightarrow> 'a list list" where
  "chunks n xs = (if n = 0 \<or> xs = [] then [] else take n xs # chunks n (drop n xs))"
  by pat_completeness auto
termination
  by (relation "measure (\<lambda>(n, xs). length xs)") auto

declare chunks.simps [simp del]

type_synonym output_batch = "pending_output option"

text \<open>One turn of the loop over the chunks.\<close>

definition batch_chunk ::
  "string \<Rightarrow> output_batch \<times> pending_output list \<Rightarrow> byte list \<Rightarrow> output_batch \<times> pending_output list" where
  "batch_chunk kind b chunk =
     (let (pending, ready) = b;
          p = (case pending of Some p \<Rightarrow> \<lparr>po_data = po_data p @ chunk\<rparr>
                             | None \<Rightarrow> pending_output_new kind chunk)
      in if length (po_payload p) \<ge> TERMINAL_BATCH_BYTES then (None, ready @ [p]) else (Some p, ready))"

definition batch_push ::
  "string \<Rightarrow> byte list \<Rightarrow> output_batch \<Rightarrow> output_batch \<times> pending_output list" where
  "batch_push kind data pending =
     (let (pending1, ready1) =
            (case pending of
               None \<Rightarrow> (None, [])
             | Some p \<Rightarrow> if po_kind p \<noteq> kind \<or> length (po_payload p) + length data > TERMINAL_BATCH_BYTES
                         then (None, [p]) else (Some p, []))
      in if data = [] then (pending1, ready1)
         else foldl (batch_chunk kind) (pending1, ready1) (chunks TERMINAL_BATCH_BYTES data))"

section \<open>The reader\<close>

text \<open>The reader's batch, the gate, and the outputs that went into the channel, oldest first.\<close>

record term_reader =
  tr_batch :: output_batch
  tr_gate :: output_gate
  tr_sent :: "pending_output list"

definition reader_init :: term_reader where
  "reader_init = \<lparr>tr_batch = None, tr_gate = output_gate_default, tr_sent = []\<rparr>"

definition emit_or_buffer :: "bool \<Rightarrow> pending_output \<Rightarrow> term_reader \<Rightarrow> term_reader \<times> bool" where
  "emit_or_buffer ok out t =
     (if og_channel (tr_gate t) then
        (if ok then (t\<lparr>tr_sent := tr_sent t @ [out]\<rparr>, True) else (t, False))
      else if \<not> og_streaming (tr_gate t) then (t\<lparr>tr_gate := push_pending out (tr_gate t)\<rparr>, True)
      else (t, True))"

fun emit_all :: "bool \<Rightarrow> pending_output list \<Rightarrow> term_reader \<Rightarrow> term_reader \<times> bool" where
  "emit_all ok [] t = (t, True)"
| "emit_all ok (o1 # os) t =
     (case emit_or_buffer ok o1 t of
        (t', True) \<Rightarrow> emit_all ok os t'
      | (t', False) \<Rightarrow> (t', False))"

definition take_pending :: "term_reader \<Rightarrow> term_reader \<times> pending_output list" where
  "take_pending t = (t\<lparr>tr_batch := None\<rparr>, (case tr_batch t of None \<Rightarrow> [] | Some p \<Rightarrow> [p]))"

text \<open>What wakes the reader: the flush tick, data on one of the two streams (with the decision that it
  is urgent), the exit status (with its message), anything else.\<close>

datatype reader_event =
  FlushTick
| DataMsg bool "byte list" bool
| ExitStatusMsg "byte list"
| OtherMsg

text \<open>The second component is false when the read loop is left.\<close>

fun reader_on :: "bool \<Rightarrow> reader_event \<Rightarrow> term_reader \<Rightarrow> term_reader \<times> bool" where
  "reader_on ok FlushTick t =
     (let (t1, ready) = take_pending t in emit_all ok ready t1)"
| "reader_on ok (DataMsg is_error data urgent) t =
     (let (b, ready) = batch_push (if is_error then ''error'' else ''output'') data (tr_batch t);
          t1 = t\<lparr>tr_batch := b\<rparr>;
          (t2, extra) = (if urgent then take_pending t1 else (t1, []))
      in emit_all ok (ready @ extra) t2)"
| "reader_on ok (ExitStatusMsg message) t =
     (let (t1, ready) = take_pending t in
      emit_all ok (ready @ [pending_output_new ''system'' message]) t1)"
| "reader_on ok OtherMsg t = (t, True)"

text \<open>The reader loop over a sequence of events, and what it does after leaving the loop.\<close>

fun reader_run :: "bool \<Rightarrow> reader_event list \<Rightarrow> term_reader \<Rightarrow> term_reader" where
  "reader_run ok [] t = t"
| "reader_run ok (e # es) t =
     (case reader_on ok e t of (t', True) \<Rightarrow> reader_run ok es t' | (t', False) \<Rightarrow> t')"

definition reader_finish :: "bool \<Rightarrow> term_reader \<Rightarrow> term_reader" where
  "reader_finish ok t = (let (t1, ready) = take_pending t in fst (emit_all ok ready t1))"

text \<open>\<open>terminal\_start\<close>: a second start is refused; the buffered outputs go first.\<close>

definition terminal_start :: "bool \<Rightarrow> term_reader \<Rightarrow> term_reader \<times> unit app_result" where
  "terminal_start ok t =
     (if og_streaming (tr_gate t) then (t, Inl (InvalidInput ''terminal output already started''))
      else
        (let (g, outs) = output_gate_start ((tr_gate t)\<lparr>og_channel := True\<rparr>);
             (t1, sent) = emit_all ok outs (t\<lparr>tr_gate := g\<rparr>)
         in (t1, if sent then Inr () else Inl (Remote ''send failed''))))"

text \<open>\<open>emit\_terminal\_closed\<close>: the close frame \<open>[3]\<close> goes through the output channel, after which the
  channel is gone; otherwise an event is broadcast, unless output had been streaming.\<close>

datatype close_notice = CloseFrame | CloseEvent | NoNotice

definition emit_terminal_closed :: "term_reader \<Rightarrow> term_reader \<times> close_notice" where
  "emit_terminal_closed t =
     (if og_channel (tr_gate t) then (t\<lparr>tr_gate := (tr_gate t)\<lparr>og_channel := False\<rparr>\<rparr>, CloseFrame)
      else if og_streaming (tr_gate t) then (t, NoNotice) else (t, CloseEvent))"

end
