(* ===== verification/Terminal_Exact.thy ===== *)
theory Terminal_Exact
  imports Terminal_Output
begin

text \<open>
  What the client sees of a terminal: exactly the bytes the remote side wrote, in order and on the
  right stream, in frames of at most 64 KiB. Only output from before the client attached can be
  missing, and then only its beginning, when it was longer than the startup buffer.
\<close>

section \<open>Outputs as tagged bytes\<close>

abbreviation out_kinds :: "string set" where
  "out_kinds \<equiv> {''output'', ''error'', ''system''}"

definition tagged :: "pending_output list \<Rightarrow> (string \<times> byte) list" where
  "tagged ps = concat (map (\<lambda>p. map (Pair (po_kind p)) (po_payload p)) ps)"

definition batch_list :: "output_batch \<Rightarrow> pending_output list" where
  "batch_list b = (case b of None \<Rightarrow> [] | Some p \<Rightarrow> [p])"

definition po_wf :: "pending_output \<Rightarrow> bool" where
  "po_wf p \<longleftrightarrow> (\<exists>k bs. k \<in> out_kinds \<and> bs \<noteq> [] \<and> length bs \<le> TERMINAL_BATCH_BYTES \<and> p = pending_output_new k bs)"

lemma tagged_simps [simp]:
  "tagged [] = []" "tagged (p # ps) = map (Pair (po_kind p)) (po_payload p) @ tagged ps"
  "tagged (ps @ qs) = tagged ps @ tagged qs"
  by (simp_all add: tagged_def)

lemma batch_list_simps [simp]: "batch_list None = []" "batch_list (Some p) = [p]"
  by (simp_all add: batch_list_def)

lemma pending_output_new_payload [simp]: "po_payload (pending_output_new k bs) = bs"
  by (simp add: po_payload_def pending_output_new_def new_frame_def)

lemma pending_output_new_kind [simp]:
  "k \<in> out_kinds \<Longrightarrow> po_kind (pending_output_new k bs) = k"
  by (auto simp: po_kind_def pending_output_new_def new_frame_def Let_def)

lemma pending_output_new_append:
  "\<lparr>po_data = po_data (pending_output_new k bs) @ chunk\<rparr> = pending_output_new k (bs @ chunk)"
  by (simp add: pending_output_new_def new_frame_def)

lemma po_wf_new: "k \<in> out_kinds \<Longrightarrow> bs \<noteq> [] \<Longrightarrow> length bs \<le> TERMINAL_BATCH_BYTES \<Longrightarrow> po_wf (pending_output_new k bs)"
  unfolding po_wf_def by blast

lemma po_wf_payload: "po_wf p \<Longrightarrow> 0 < length (po_payload p) \<and> length (po_payload p) \<le> TERMINAL_BATCH_BYTES"
  by (auto simp: po_wf_def)

lemma batch_positive [simp]: "0 < TERMINAL_BATCH_BYTES"
  by (simp add: TERMINAL_BATCH_BYTES_def)

section \<open>The batch loses nothing\<close>

lemma batch_fold:
  assumes "k \<in> out_kinds"
  shows "foldl (batch_chunk k) (None, ready) (chunks TERMINAL_BATCH_BYTES data) = (b', ready') \<Longrightarrow>
    \<exists>outs. ready' = ready @ outs \<and> tagged outs @ tagged (batch_list b') = map (Pair k) data
      \<and> (\<forall>p\<in>set (outs @ batch_list b'). po_wf p)"
proof (induction TERMINAL_BATCH_BYTES data arbitrary: ready rule: chunks.induct)
  case (1 data)
  show ?case
  proof (cases "data = []")
    case True
    then show ?thesis using "1.prems" by (simp add: chunks.simps [of _ "[]"])
  next
    case False
    let ?B = TERMINAL_BATCH_BYTES
    let ?p = "pending_output_new k (take ?B data)"
    have ne: "take ?B data \<noteq> []" using False by simp
    have wf: "po_wf ?p" using assms ne by (intro po_wf_new) simp_all
    have ch: "chunks ?B data = take ?B data # chunks ?B (drop ?B data)"
      using False by (subst chunks.simps) simp
    have one: "batch_chunk k (None, ready) (take ?B data)
        = (if length (take ?B data) \<ge> ?B then (None, ready @ [?p]) else (Some ?p, ready))"
      by (simp add: batch_chunk_def Let_def)
    show ?thesis
    proof (cases "length data \<ge> ?B")
      case True
      then have "foldl (batch_chunk k) (None, ready @ [?p]) (chunks ?B (drop ?B data)) = (b', ready')"
        using "1.prems" ch one by simp
      then obtain outs where "ready' = (ready @ [?p]) @ outs"
        "tagged outs @ tagged (batch_list b') = map (Pair k) (drop ?B data)"
        "\<forall>p\<in>set (outs @ batch_list b'). po_wf p"
        using "1.hyps" False by fastforce
      then show ?thesis
        using wf assms
        by (intro exI [of _ "?p # outs"]) (simp add: map_append [symmetric] del: map_append)
    next
      case less: False
      then have "(b', ready') = (Some ?p, ready)"
        using "1.prems" ch one by (simp add: chunks.simps [of _ "[]"])
      then show ?thesis using wf assms less by simp
    qed
  qed
qed

definition batch_wf :: "output_batch \<Rightarrow> bool" where
  "batch_wf b \<longleftrightarrow> (\<forall>p\<in>set (batch_list b). po_wf p)"

lemma batch_push_spec:
  assumes k: "k \<in> out_kinds" and b: "batch_wf b" and push: "batch_push k data b = (b', ready)"
  shows "tagged (batch_list b) @ map (Pair k) data = tagged ready @ tagged (batch_list b')
    \<and> batch_wf b' \<and> (\<forall>p\<in>set ready. po_wf p)"
proof (cases "b = None \<or> (\<exists>p. b = Some p \<and> (po_kind p \<noteq> k \<or> length (po_payload p) + length data > TERMINAL_BATCH_BYTES))")
  case True
  define r1 where "r1 = batch_list b"
  have start: "(case b of None \<Rightarrow> (None, []) | Some p \<Rightarrow>
      if po_kind p \<noteq> k \<or> length (po_payload p) + length data > TERMINAL_BATCH_BYTES then (None, [p]) else (Some p, []))
      = (None, r1)" using True by (auto simp: r1_def)
  show ?thesis
  proof (cases "data = []")
    case True
    then show ?thesis
      using push b unfolding batch_push_def start r1_def by (auto simp: batch_wf_def)
  next
    case False
    then have "foldl (batch_chunk k) (None, r1) (chunks TERMINAL_BATCH_BYTES data) = (b', ready)"
      using push unfolding batch_push_def start by simp
    from batch_fold [OF k this] show ?thesis
      using b by (auto simp: r1_def batch_wf_def)
  qed
next
  case False
  then obtain p where p: "b = Some p" "po_kind p = k" "length (po_payload p) + length data \<le> TERMINAL_BATCH_BYTES"
    by (cases b) auto
  then obtain bs where bs: "p = pending_output_new k bs" "bs \<noteq> []"
    using b k by (auto simp: batch_wf_def po_wf_def)
  let ?q = "pending_output_new k (bs @ data)"
  have wf: "po_wf ?q" using bs p k by (intro po_wf_new) auto
  show ?thesis
  proof (cases "data = []")
    case True
    then show ?thesis using push p b by (auto simp: batch_push_def)
  next
    case ne: False
    have "length data \<le> TERMINAL_BATCH_BYTES" using p by simp
    then have "chunks TERMINAL_BATCH_BYTES data = [data]"
      using ne by (subst chunks.simps) (simp add: chunks.simps [of _ "[]"])
    then have "(b', ready) = (if length (bs @ data) \<ge> TERMINAL_BATCH_BYTES then (None, [?q]) else (Some ?q, []))"
      using push p ne unfolding batch_push_def bs(1)
      by (simp add: batch_chunk_def Let_def pending_output_new_append k split: if_splits)
    then show ?thesis using p bs k wf by (auto simp: batch_wf_def split: if_splits)
  qed
qed

section \<open>The startup buffer keeps the end\<close>

abbreviation out_bytes :: "pending_output list \<Rightarrow> nat" where
  "out_bytes ps \<equiv> sum_list (map (\<lambda>p. length (po_payload p)) ps)"

lemma length_tagged: "length (tagged ps) = out_bytes ps"
  by (induction ps) auto

lemma evict_pending_spec:
  assumes "out_bytes ps + n \<le> u64_max" "n \<le> m"
  shows "\<exists>k. evict_pending n m ps (out_bytes ps) = (drop k ps, out_bytes (drop k ps))
     \<and> out_bytes (drop k ps) + n \<le> m \<and> (out_bytes ps + n \<le> m \<longrightarrow> k = 0)"
  using assms(1)
proof (induction ps)
  case Nil
  then show ?case using assms(2) by simp
next
  case (Cons p ps)
  have sat: "sat_add64 (out_bytes (p # ps)) n = out_bytes (p # ps) + n"
    using Cons.prems by (simp add: sat_add64_exact)
  show ?case
  proof (cases "out_bytes (p # ps) + n \<le> m")
    case True
    then show ?thesis using sat by (intro exI [of _ 0]) simp
  next
    case False
    have "out_bytes ps + n \<le> u64_max" using Cons.prems by simp
    then obtain k where "evict_pending n m ps (out_bytes ps) = (drop k ps, out_bytes (drop k ps))"
      "out_bytes (drop k ps) + n \<le> m" using Cons.IH by blast
    then show ?thesis using False sat by (intro exI [of _ "Suc k"]) simp
  qed
qed

definition gate_wf :: "output_gate \<Rightarrow> bool" where
  "gate_wf g \<longleftrightarrow> og_pending_bytes g = out_bytes (og_pending g)
     \<and> og_max_pending_bytes g = MAX_TERMINAL_STARTUP_OUTPUT_BYTES
     \<and> og_pending_bytes g \<le> og_max_pending_bytes g \<and> (\<forall>p\<in>set (og_pending g). po_wf p)"

lemma push_pending_spec:
  assumes g: "gate_wf g" and out: "po_wf out"
  shows "gate_wf (push_pending out g)
    \<and> og_channel (push_pending out g) = og_channel g \<and> og_streaming (push_pending out g) = og_streaming g
    \<and> (\<exists>d. tagged (og_pending g) @ tagged [out] = d @ tagged (og_pending (push_pending out g))
         \<and> (length (tagged (og_pending g) @ tagged [out]) \<le> MAX_TERMINAL_STARTUP_OUTPUT_BYTES \<longrightarrow> d = []))"
proof -
  let ?n = "length (po_payload out)" and ?M = "MAX_TERMINAL_STARTUP_OUTPUT_BYTES"
  have M: "?n \<le> ?M" "?M + ?M \<le> u64_max" "0 < ?M"
    using po_wf_payload [OF out]
    by (simp_all add: MAX_TERMINAL_STARTUP_OUTPUT_BYTES_def TERMINAL_BATCH_BYTES_def u64_max_def)
  note gs = g [unfolded gate_wf_def]
  have "out_bytes (og_pending g) + ?n \<le> u64_max" using gs M by simp
  from evict_pending_spec [OF this M(1)] obtain k where
    k: "evict_pending ?n ?M (og_pending g) (out_bytes (og_pending g))
          = (drop k (og_pending g), out_bytes (drop k (og_pending g)))"
      "out_bytes (drop k (og_pending g)) + ?n \<le> ?M" "out_bytes (og_pending g) + ?n \<le> ?M \<longrightarrow> k = 0" by blast
  have "po_payload out \<noteq> []" using po_wf_payload [OF out] by auto
  then have p: "push_pending out g = g\<lparr>og_pending := drop k (og_pending g) @ [out],
      og_pending_bytes := out_bytes (drop k (og_pending g)) + ?n\<rparr>"
    using gs M k(1) by (simp add: push_pending_def Let_def)
  have wf: "gate_wf (push_pending out g)"
    using gs k(2) out by (auto simp: p gate_wf_def dest: in_set_dropD)
  have "tagged (og_pending g) = tagged (take k (og_pending g)) @ tagged (drop k (og_pending g))"
    by (metis append_take_drop_id tagged_simps(3))
  then have "tagged (og_pending g) @ tagged [out]
      = tagged (take k (og_pending g)) @ tagged (og_pending (push_pending out g))" by (simp add: p)
  moreover have "tagged (take k (og_pending g)) = []"
    if "length (tagged (og_pending g) @ tagged [out]) \<le> ?M"
    using that k(3) by (simp add: length_tagged)
  ultimately show ?thesis using wf by (auto simp: p)
qed

section \<open>The reader\<close>

text \<open>What the remote side wrote, and the invariant: everything is dropped, sent, buffered at the gate
  or in the batch, in this order.\<close>

fun event_bytes :: "reader_event \<Rightarrow> (string \<times> byte) list" where
  "event_bytes (DataMsg is_error data urgent) = map (Pair (if is_error then ''error'' else ''output'')) data"
| "event_bytes (ExitStatusMsg message) = map (Pair ''system'') message"
| "event_bytes _ = []"

fun event_ok :: "reader_event \<Rightarrow> bool" where
  "event_ok (ExitStatusMsg message) = (message \<noteq> [] \<and> length message \<le> TERMINAL_BATCH_BYTES)"
| "event_ok _ = True"

definition input_bytes :: "reader_event list \<Rightarrow> (string \<times> byte) list" where
  "input_bytes es = concat (map event_bytes es)"

definition reader_wf :: "term_reader \<Rightarrow> bool" where
  "reader_wf t \<longleftrightarrow> batch_wf (tr_batch t) \<and> gate_wf (tr_gate t) \<and> (\<forall>p\<in>set (tr_sent t). po_wf p)
     \<and> og_streaming (tr_gate t) = og_channel (tr_gate t)
     \<and> (if og_channel (tr_gate t) then og_pending (tr_gate t) = [] else tr_sent t = [])"

definition held :: "term_reader \<Rightarrow> (string \<times> byte) list" where
  "held t = tagged (tr_sent t) @ tagged (og_pending (tr_gate t))"

text \<open>One step from \<open>t\<close> to \<open>t'\<close> that takes in the bytes \<open>x\<close>: something at the front may be dropped,
  but only while the client is not attached and more than the buffer holds has come in.\<close>

definition takes_in :: "(string \<times> byte) list \<Rightarrow> term_reader \<Rightarrow> term_reader \<Rightarrow> bool" where
  "takes_in x t t' \<longleftrightarrow> reader_wf t' \<and> og_channel (tr_gate t') = og_channel (tr_gate t)
     \<and> (\<exists>d. held t @ x = d @ held t'
          \<and> (og_channel (tr_gate t) \<or> length (held t @ x) \<le> MAX_TERMINAL_STARTUP_OUTPUT_BYTES \<longrightarrow> d = []))"

lemma takes_in_Nil: "reader_wf t \<Longrightarrow> takes_in [] t t"
  by (simp add: takes_in_def)

lemma takes_in_trans: "takes_in x t t1 \<Longrightarrow> takes_in y t1 t2 \<Longrightarrow> takes_in (x @ y) t t2"
proof -
  assume a: "takes_in x t t1" "takes_in y t1 t2"
  have c: "og_channel (tr_gate t1) = og_channel (tr_gate t)" using a(1) unfolding takes_in_def by blast
  obtain d where d1: "held t @ x = d @ held t1"
    "og_channel (tr_gate t) \<or> length (held t @ x) \<le> MAX_TERMINAL_STARTUP_OUTPUT_BYTES \<longrightarrow> d = []"
    using a(1) unfolding takes_in_def by blast
  obtain e where d2: "held t1 @ y = e @ held t2"
    "og_channel (tr_gate t) \<or> length (held t1 @ y) \<le> MAX_TERMINAL_STARTUP_OUTPUT_BYTES \<longrightarrow> e = []"
    using a(2) c unfolding takes_in_def by metis
  note d = d1(1) d2(1) d1(2) d2(2)
  have eq: "held t @ x @ y = (d @ e) @ held t2" using d(1,2) by (metis append.assoc)
  have none: "d @ e = []"
    if o: "og_channel (tr_gate t) \<or> length (held t @ x @ y) \<le> MAX_TERMINAL_STARTUP_OUTPUT_BYTES"
  proof -
    have "d = []" using o d(3) by auto
    moreover have "length (held t) + length x = length d + length (held t1)"
      using arg_cong [OF d(1), of length] unfolding length_append .
    then have "length (held t1 @ y) \<le> length (held t @ x @ y)" by simp
    ultimately show ?thesis using o d(4) by auto
  qed
  have "held t @ (x @ y) = (d @ e) @ held t2" using eq by simp
  moreover have "reader_wf t2 \<and> og_channel (tr_gate t2) = og_channel (tr_gate t)"
    using a(2) c unfolding takes_in_def by simp
  ultimately show ?thesis using none unfolding takes_in_def by (metis append.assoc)
qed

lemma emit_one:
  assumes "reader_wf t" "po_wf out" "emit_or_buffer True out t = (t', go)"
  shows "go \<and> tr_batch t' = tr_batch t \<and> takes_in (tagged [out]) t t'"
proof (cases "og_channel (tr_gate t)")
  case True
  then have "t' = t\<lparr>tr_sent := tr_sent t @ [out]\<rparr>" "go" using assms(3) by (auto simp: emit_or_buffer_def)
  then show ?thesis using assms(1,2) True by (auto simp: takes_in_def reader_wf_def held_def)
next
  case False
  then have t': "t' = t\<lparr>tr_gate := push_pending out (tr_gate t)\<rparr>" "go"
    using assms(1,3) by (auto simp: emit_or_buffer_def reader_wf_def)
  have g: "gate_wf (tr_gate t)" and s: "tr_sent t = []" using assms(1) False by (auto simp: reader_wf_def)
  from push_pending_spec [OF g assms(2)] show ?thesis
    using assms(1) False s t'(2) unfolding t'(1) takes_in_def reader_wf_def held_def by auto
qed

lemma emit_all_spec:
  "reader_wf t \<Longrightarrow> \<forall>p\<in>set os. po_wf p \<Longrightarrow> emit_all True os t = (t', go) \<Longrightarrow>
     go \<and> tr_batch t' = tr_batch t \<and> takes_in (tagged os) t t'"
proof (induction os arbitrary: t)
  case Nil
  then show ?case by (simp add: takes_in_Nil)
next
  case (Cons o1 os)
  obtain t1 g1 where e: "emit_or_buffer True o1 t = (t1, g1)" by (cases "emit_or_buffer True o1 t")
  have o1: "po_wf o1" using Cons.prems(2) by simp
  note one = emit_one [OF Cons.prems(1) o1 e]
  then have "emit_all True os t1 = (t', go)" "reader_wf t1"
    using Cons.prems(3) e by (auto simp: takes_in_def)
  then have "go \<and> tr_batch t' = tr_batch t1 \<and> takes_in (tagged os) t1 t'"
    using Cons.IH [of t1] Cons.prems(2) by simp
  moreover have "tagged (o1 # os) = tagged [o1] @ tagged os" by simp
  ultimately show ?case using one takes_in_trans by metis
qed

lemma reader_wf_batch: "reader_wf t \<Longrightarrow> batch_wf b \<Longrightarrow> reader_wf (t\<lparr>tr_batch := b\<rparr>)"
  by (simp add: reader_wf_def)

lemma takes_in_batch: "takes_in x (t\<lparr>tr_batch := b\<rparr>) t' = takes_in x t t'"
  by (simp add: takes_in_def held_def)

text \<open>One event, with the bytes left in the batch.\<close>

lemma reader_on_spec:
  assumes wf: "reader_wf t" and ok: "event_ok e" and on: "reader_on True e t = (t', go)"
  shows "go \<and> (\<exists>x. tagged (batch_list (tr_batch t)) @ event_bytes e = x @ tagged (batch_list (tr_batch t'))
    \<and> takes_in x t t')"
proof -
  have b: "batch_wf (tr_batch t)" using wf by (simp add: reader_wf_def)
  have empty: "reader_wf (t\<lparr>tr_batch := None\<rparr>)" using wf by (intro reader_wf_batch) (simp_all add: batch_wf_def)
  have tp: "take_pending t = (t\<lparr>tr_batch := None\<rparr>, batch_list (tr_batch t))"
    by (simp add: take_pending_def batch_list_def)
  have lb: "\<forall>p\<in>set (batch_list (tr_batch t)). po_wf p" using b by (simp add: batch_wf_def)
  show ?thesis
  proof (cases e)
    case FlushTick
    then show ?thesis
      using on emit_all_spec [OF empty lb] by (auto simp: tp takes_in_batch)
  next
    case (DataMsg is_error data urgent)
    let ?k = "if is_error then ''error'' else ''output''"
    obtain b' ready where p: "batch_push ?k data (tr_batch t) = (b', ready)"
      by (cases "batch_push ?k data (tr_batch t)")
    have k: "?k \<in> out_kinds" by simp
    note sp = batch_push_spec [OF k b p]
    have wf': "reader_wf (t\<lparr>tr_batch := b'\<rparr>)" using sp wf by (intro reader_wf_batch) simp_all
    show ?thesis
    proof (cases urgent)
      case True
      have "emit_all True (ready @ batch_list b') (t\<lparr>tr_batch := None\<rparr>) = (t', go)"
        using on DataMsg p True by (simp add: take_pending_def batch_list_def split: option.splits)
      moreover have "\<forall>q\<in>set (ready @ batch_list b'). po_wf q" using sp by (auto simp: batch_wf_def)
      ultimately show ?thesis
        using emit_all_spec [OF empty, of "ready @ batch_list b'" t' go] sp DataMsg
        by (auto simp: takes_in_batch)
    next
      case False
      then have "emit_all True ready (t\<lparr>tr_batch := b'\<rparr>) = (t', go)"
        using on DataMsg p by (simp split: if_splits)
      from emit_all_spec [OF wf' _ this] sp DataMsg show ?thesis by (auto simp: takes_in_batch)
    qed
  next
    case (ExitStatusMsg message)
    let ?o = "pending_output_new ''system'' message"
    have "\<forall>q\<in>set (batch_list (tr_batch t) @ [?o]). po_wf q"
      using lb ok ExitStatusMsg by (auto intro: po_wf_new)
    moreover have "emit_all True (batch_list (tr_batch t) @ [?o]) (t\<lparr>tr_batch := None\<rparr>) = (t', go)"
      using on ExitStatusMsg by (simp add: tp)
    ultimately show ?thesis
      using emit_all_spec [OF empty, of "batch_list (tr_batch t) @ [?o]" t' go] ExitStatusMsg
      by (auto simp: takes_in_batch)
  next
    case OtherMsg
    then show ?thesis using on takes_in_Nil [OF wf] by (intro conjI exI [of _ "[]"]) auto
  qed
qed

lemma input_bytes_Cons [simp]: "input_bytes (e # es) = event_bytes e @ input_bytes es"
  by (simp add: input_bytes_def)

lemma reader_run_spec:
  "reader_wf t \<Longrightarrow> \<forall>e\<in>set es. event_ok e \<Longrightarrow>
   \<exists>x. tagged (batch_list (tr_batch t)) @ input_bytes es
         = x @ tagged (batch_list (tr_batch (reader_run True es t)))
     \<and> takes_in x t (reader_run True es t)"
proof (induction es arbitrary: t)
  case Nil
  then show ?case using takes_in_Nil by (simp add: input_bytes_def)
next
  case (Cons e es)
  obtain t1 go where on: "reader_on True e t = (t1, go)" by (cases "reader_on True e t")
  have ok: "event_ok e" "\<forall>e\<in>set es. event_ok e" using Cons.prems(2) by simp_all
  from reader_on_spec [OF Cons.prems(1) ok(1) on] obtain x where x: "go"
    "tagged (batch_list (tr_batch t)) @ event_bytes e = x @ tagged (batch_list (tr_batch t1))"
    "takes_in x t t1" by blast
  have "reader_wf t1" using x(3) by (simp add: takes_in_def)
  from Cons.IH [OF this ok(2)] obtain y where y:
    "tagged (batch_list (tr_batch t1)) @ input_bytes es
       = y @ tagged (batch_list (tr_batch (reader_run True es t1)))"
    "takes_in y t1 (reader_run True es t1)" by blast
  have "tagged (batch_list (tr_batch t)) @ input_bytes (e # es)
      = (x @ y) @ tagged (batch_list (tr_batch (reader_run True es t1)))"
    using x(2) y(1) by (metis append.assoc input_bytes_Cons)
  moreover have "reader_run True (e # es) t = reader_run True es t1" using on x(1) by simp
  ultimately show ?case using takes_in_trans [OF x(3) y(2)] by metis
qed

lemma reader_init_wf: "reader_wf reader_init"
  by (simp add: reader_wf_def reader_init_def output_gate_default_def output_gate_new_def batch_wf_def gate_wf_def)

text \<open>Attaching the client sends the buffered outputs and changes nothing else.\<close>

lemma terminal_start_spec:
  assumes wf: "reader_wf t" and not_yet: "\<not> og_channel (tr_gate t)" and st: "terminal_start True t = (t', r)"
  shows "r = Inr () \<and> reader_wf t' \<and> og_channel (tr_gate t') \<and> tr_batch t' = tr_batch t \<and> held t' = held t"
proof -
  let ?g = "(tr_gate t)\<lparr>og_channel := True, og_streaming := True, og_pending_bytes := 0, og_pending := []\<rparr>"
  let ?t = "t\<lparr>tr_gate := ?g\<rparr>"
  have ns: "\<not> og_streaming (tr_gate t)" and sent: "tr_sent t = []" using wf not_yet by (auto simp: reader_wf_def)
  have wf': "reader_wf ?t" using wf by (simp add: reader_wf_def gate_wf_def)
  have po: "\<forall>p\<in>set (og_pending (tr_gate t)). po_wf p" using wf by (simp add: reader_wf_def gate_wf_def)
  obtain t1 go where e: "emit_all True (og_pending (tr_gate t)) ?t = (t1, go)" by fastforce
  note sp = emit_all_spec [OF wf' po e]
  have "t' = t1" "r = Inr ()"
    using st ns e sp by (auto simp: terminal_start_def output_gate_start_def split: if_splits)
  then show ?thesis using sp sent by (auto simp: takes_in_def held_def)
qed

lemma reader_finish_spec:
  assumes "reader_wf t"
  shows "takes_in (tagged (batch_list (tr_batch t))) t (reader_finish True t)"
proof -
  have empty: "reader_wf (t\<lparr>tr_batch := None\<rparr>)" using assms by (intro reader_wf_batch) (simp_all add: batch_wf_def)
  have lb: "\<forall>p\<in>set (batch_list (tr_batch t)). po_wf p" using assms by (simp add: reader_wf_def batch_wf_def)
  obtain t1 go where e: "emit_all True (batch_list (tr_batch t)) (t\<lparr>tr_batch := None\<rparr>) = (t1, go)" by fastforce
  have "reader_finish True t = t1"
    using e by (simp add: reader_finish_def take_pending_def batch_list_def split: option.splits)
  then show ?thesis using emit_all_spec [OF empty lb e] by (simp add: takes_in_batch)
qed

text \<open>C20: end to end, a terminal delivers what the remote side wrote: let output \<open>es1\<close> arrive, then the
  client attach, then \<open>es2\<close> arrive and the channel end. Attaching succeeds, and the frames sent hold
  exactly the bytes written, each on its stream and in order, except possibly a beginning of
  \<open>es1\<close>, and that only when \<open>es1\<close> alone was more than 4 MiB; every frame has between 1 byte and 64 KiB.\<close>

theorem terminal_output_exact:
  assumes "\<forall>e\<in>set (es1 @ es2). event_ok e"
    and "terminal_start True (reader_run True es1 reader_init) = (t2, r)"
    and "t = reader_finish True (reader_run True es2 t2)"
  shows "r = Inr ()
    \<and> (\<exists>d. input_bytes es1 @ input_bytes es2 = d @ tagged (tr_sent t) \<and> length d \<le> length (input_bytes es1)
         \<and> (length (input_bytes es1) \<le> 4 * 1024 * 1024 \<longrightarrow> d = []))
    \<and> (\<forall>p\<in>set (tr_sent t). 0 < length (po_payload p) \<and> length (po_payload p) \<le> 64 * 1024)"
proof -
  let ?t1 = "reader_run True es1 reader_init" and ?t3 = "reader_run True es2 t2"
  have ok: "\<forall>e\<in>set es1. event_ok e" "\<forall>e\<in>set es2. event_ok e" using assms(1) by auto
  have i0: "held reader_init = []" "batch_list (tr_batch reader_init) = []" "\<not> og_channel (tr_gate reader_init)"
    by (simp_all add: held_def reader_init_def output_gate_default_def output_gate_new_def)
  obtain x where x: "input_bytes es1 = x @ tagged (batch_list (tr_batch ?t1))" "takes_in x reader_init ?t1"
    using reader_run_spec [OF reader_init_wf ok(1)] i0(2) by auto
  obtain d where d: "x = d @ held ?t1" "length x \<le> MAX_TERMINAL_STARTUP_OUTPUT_BYTES \<longrightarrow> d = []"
    using x(2) i0(1) unfolding takes_in_def by auto
  have wf1: "reader_wf ?t1" "\<not> og_channel (tr_gate ?t1)" using x(2) i0(3) by (auto simp: takes_in_def)
  note st = terminal_start_spec [OF wf1 assms(2)]
  obtain y where y: "tagged (batch_list (tr_batch t2)) @ input_bytes es2 = y @ tagged (batch_list (tr_batch ?t3))"
    "takes_in y t2 ?t3" using reader_run_spec [of t2 es2] st ok(2) by blast
  have wf3: "reader_wf ?t3" "og_channel (tr_gate ?t3)" using y(2) st by (auto simp: takes_in_def)
  note fin = reader_finish_spec [OF wf3(1), folded assms(3)]
  have h3: "held t2 @ y = held ?t3" using y(2) st by (auto simp: takes_in_def)
  have h4: "held ?t3 @ tagged (batch_list (tr_batch ?t3)) = held t" using fin wf3(2) by (auto simp: takes_in_def)
  have wft: "reader_wf t" "og_channel (tr_gate t)" using fin wf3(2) by (auto simp: takes_in_def)
  then have ht: "held t = tagged (tr_sent t)" by (auto simp: held_def reader_wf_def)
  have "input_bytes es1 @ input_bytes es2
      = d @ held ?t1 @ tagged (batch_list (tr_batch ?t1)) @ input_bytes es2" using x(1) d(1) by simp
  also have "\<dots> = d @ held t2 @ y @ tagged (batch_list (tr_batch ?t3))" using st y(1) by simp
  also have "\<dots> = d @ (held t2 @ y) @ tagged (batch_list (tr_batch ?t3))" by simp
  also have "\<dots> = d @ tagged (tr_sent t)" unfolding h3 using h4 ht by simp
  finally have eq: "input_bytes es1 @ input_bytes es2 = d @ tagged (tr_sent t)" .
  have "length x \<le> length (input_bytes es1)" using arg_cong [OF x(1), of length] by simp
  then have "length (input_bytes es1) \<le> 4 * 1024 * 1024 \<longrightarrow> d = []"
    using d(2) by (simp add: MAX_TERMINAL_STARTUP_OUTPUT_BYTES_def)
  moreover have "length d \<le> length (input_bytes es1)"
    using \<open>length x \<le> length (input_bytes es1)\<close> arg_cong [OF d(1), of length] by simp
  moreover have "\<forall>p\<in>set (tr_sent t). 0 < length (po_payload p) \<and> length (po_payload p) \<le> 64 * 1024"
    using wft po_wf_payload unfolding reader_wf_def TERMINAL_BATCH_BYTES_def by blast
  ultimately show ?thesis using st eq by blast
qed

theorem terminal_output_exact_witness:
  "\<exists>t2 t. terminal_start True (reader_run True [DataMsg False [65, 66] False] reader_init) = (t2, Inr ())
     \<and> t = reader_finish True (reader_run True [DataMsg True [67] True] t2)
     \<and> tagged (tr_sent t) = [(''output'', 65), (''output'', 66), (''error'', 67)]"
proof -
  obtain t2 r where st: "terminal_start True (reader_run True [DataMsg False [65, 66] False] reader_init) = (t2, r)"
    by fastforce
  have ok: "\<forall>e\<in>set ([DataMsg False [65, 66] False] @ [DataMsg True [67] True]). event_ok e" by simp
  from terminal_output_exact [OF ok st refl] st show ?thesis
    by (intro exI [of _ t2] exI conjI [OF _ conjI [OF refl]]) (auto simp: input_bytes_def)
qed

end
