(* ===== verification/Transfer_Copy.thy ===== *)
theory Transfer_Copy
  imports App_Errors
begin

text \<open>
  The data path of file transfers in \<open>remote/transfer.rs\<close>: the copy loops, the ranges of a parallel
  transfer, the prefix kept when one is interrupted, and the staging file a retry continues from.
  Files are lists of bytes. What the environment does in one turn of a loop (cancel and pause flags,
  short reads, failures) is one \<open>copy\_turn\<close>; running out of turns means that the task was dropped at
  an await point.
\<close>

definition PARALLEL_DOWNLOAD_THRESHOLD :: nat where "PARALLEL_DOWNLOAD_THRESHOLD = 16 * 1024 * 1024"
definition PARALLEL_DOWNLOAD_PARTS :: nat where "PARALLEL_DOWNLOAD_PARTS = 4"
definition PARALLEL_UPLOAD_THRESHOLD :: nat where "PARALLEL_UPLOAD_THRESHOLD = 16 * 1024 * 1024"
definition PARALLEL_UPLOAD_PARTS :: nat where "PARALLEL_UPLOAD_PARTS = 4"
definition MAX_SFTP_TRANSFER_CONCURRENCY :: nat where "MAX_SFTP_TRANSFER_CONCURRENCY = 4"

section \<open>Copy loops\<close>

text \<open>\<open>ct\_cancel\<close> is the flag at the first check, \<open>ct\_pause1\<close> and \<open>ct\_pause2\<close> whether a wait for resume
  ended in a cancellation, \<open>ct\_read\<close> how much a read may return (\<open>None\<close>: it fails), \<open>ct\_cancel2\<close> the flag
  at the check after the read, \<open>ct\_write\<close> an error of the write and how much of the chunk it had
  written by then, \<open>ct\_flush\<close> an error of the closing flush.\<close>

record copy_turn =
  ct_cancel :: bool
  ct_pause1 :: bool
  ct_read :: "nat option"
  ct_cancel2 :: bool
  ct_pause2 :: bool
  ct_write :: "(string \<times> nat) option"
  ct_flush :: "string option"

datatype copy_end = CopyDone | CopyFailed app_error | CopyDropped

definition flushed :: "string option \<Rightarrow> copy_end" where
  "flushed f = (case f of None \<Rightarrow> CopyDone | Some e \<Rightarrow> CopyFailed (Remote e))"

definition transfer_canceled :: app_error where
  "transfer_canceled = Remote ''transfer canceled''"

text \<open>\<open>copy\_async\<close>: the arguments are what is left of the source, and what has been written.\<close>

fun copy_async :: "nat \<Rightarrow> copy_turn list \<Rightarrow> 'a list \<Rightarrow> 'a list \<Rightarrow> 'a list \<times> copy_end" where
  "copy_async buffer_size [] src dst = (dst, CopyDropped)"
| "copy_async buffer_size (c # cs) src dst =
     (if ct_cancel c \<or> ct_pause1 c then (dst, CopyFailed transfer_canceled)
      else case ct_read c of
        None \<Rightarrow> (dst, CopyFailed (Remote ''read''))
      | Some k \<Rightarrow>
          (let got = take (min (max k 1) buffer_size) src in
           if got = [] then (dst, flushed (ct_flush c))
           else if ct_cancel2 c \<or> ct_pause2 c then (dst, CopyFailed transfer_canceled)
           else (case ct_write c of
                   Some (e, k) \<Rightarrow> (dst @ take k got, CopyFailed (Remote e))
                 | None \<Rightarrow> copy_async buffer_size cs (drop (length got) src) (dst @ got))))"

definition read_chunk_len :: "nat \<Rightarrow> nat \<Rightarrow> nat" where
  "read_chunk_len remaining buffer_len = min remaining buffer_len"

text \<open>\<open>copy\_n\_async\_inner\<close>: exactly \<open>remaining\<close> bytes; an early end of the source is an error.\<close>

fun copy_n :: "bool \<Rightarrow> nat \<Rightarrow> copy_turn list \<Rightarrow> nat \<Rightarrow> 'a list \<Rightarrow> 'a list \<Rightarrow> 'a list \<times> copy_end" where
  "copy_n flush_destination buffer_size [] remaining src dst =
     (if remaining = 0 then (dst, CopyDone) else (dst, CopyDropped))"
| "copy_n flush_destination buffer_size (c # cs) remaining src dst =
     (if remaining = 0 then (dst, if flush_destination then flushed (ct_flush c) else CopyDone)
      else if ct_cancel c \<or> ct_pause1 c then (dst, CopyFailed transfer_canceled)
      else case ct_read c of
        None \<Rightarrow> (dst, CopyFailed (Remote ''read''))
      | Some k \<Rightarrow>
          (let to_read = read_chunk_len remaining buffer_size;
               got = take (min (max k 1) to_read) src in
           if got = [] then (dst, CopyFailed (Remote ''early end of the remote file''))
           else if ct_pause2 c then (dst, CopyFailed transfer_canceled)
           else (case ct_write c of
                   Some (e, k) \<Rightarrow> (dst @ take k got, CopyFailed (Remote e))
                 | None \<Rightarrow> copy_n flush_destination buffer_size cs (remaining - length got) (drop (length got) src) (dst @ got))))"

text \<open>\<open>copy\_async\_limited\<close>: each turn gathers reads up to \<open>coalesce\_target\<close> bytes or the end of the
  source, with a time limit per read and a cancel check after it; the total may not pass \<open>max\_bytes\<close>.\<close>

datatype read_result = ReadTimeout | ReadError | ReadUpTo nat

datatype 'a gathered = Gathered "'a list" "'a list" bool | GatherFailed app_error | GatherDropped

fun gather :: "nat \<Rightarrow> nat \<Rightarrow> (read_result \<times> bool) list \<Rightarrow> 'a list \<Rightarrow> 'a list \<Rightarrow> 'a gathered" where
  "gather target buffer_size [] src acc =
     (if length acc \<ge> target then Gathered acc src False else GatherDropped)"
| "gather target buffer_size ((r, canceled) # rs) src acc =
     (if length acc \<ge> target then Gathered acc src False
      else case r of
        ReadTimeout \<Rightarrow> GatherFailed (Remote ''upload data timed out'')
      | ReadError \<Rightarrow> GatherFailed (Remote ''read'')
      | ReadUpTo k \<Rightarrow>
          (let got = take (min (max k 1) (buffer_size - length acc)) src in
           if got = [] then Gathered acc src True
           else if canceled then GatherFailed transfer_canceled
           else gather target buffer_size rs (drop (length got) src) (acc @ got)))"

record limited_turn =
  lt_cancel :: bool
  lt_pause1 :: bool
  lt_reads :: "(read_result \<times> bool) list"
  lt_cancel2 :: bool
  lt_pause2 :: bool
  lt_write :: "(string \<times> nat) option"
  lt_flush :: "string option"

fun copy_limited ::
  "nat \<Rightarrow> nat \<Rightarrow> limited_turn list \<Rightarrow> nat \<Rightarrow> 'a list \<Rightarrow> 'a list \<Rightarrow> ('a list \<times> nat) \<times> copy_end" where
  "copy_limited buffer_size max_bytes [] bytes_done src dst = ((dst, bytes_done), CopyDropped)"
| "copy_limited buffer_size max_bytes (c # cs) bytes_done src dst =
     (if lt_cancel c \<or> lt_pause1 c then ((dst, bytes_done), CopyFailed transfer_canceled)
      else case gather (min (max buffer_size 1) (256 * 1024)) buffer_size (lt_reads c) src [] of
        GatherDropped \<Rightarrow> ((dst, bytes_done), CopyDropped)
      | GatherFailed e \<Rightarrow> ((dst, bytes_done), CopyFailed e)
      | Gathered got rest reached_eof \<Rightarrow>
          (if got = [] \<and> reached_eof then ((dst, bytes_done), flushed (lt_flush c))
           else if sat_add64 bytes_done (length got) > max_bytes
           then ((dst, bytes_done), CopyFailed (InvalidInput (''upload '' @ ZH_EXCEEDS)))
           else if lt_cancel2 c \<or> lt_pause2 c then ((dst, bytes_done), CopyFailed transfer_canceled)
           else (case lt_write c of
                   Some (e, k) \<Rightarrow> ((dst @ take k got, bytes_done), CopyFailed (Remote e))
                 | None \<Rightarrow>
                     (if reached_eof then ((dst @ got, bytes_done + length got), flushed (lt_flush c))
                      else copy_limited buffer_size max_bytes cs (bytes_done + length got) rest (dst @ got)))))"

section \<open>Parallel ranges\<close>

definition parallel_part_range :: "nat \<Rightarrow> nat \<Rightarrow> nat \<Rightarrow> nat \<times> nat" where
  "parallel_part_range total_size parts i =
     (let chunk_size = total_size div parts; start = i * chunk_size in
      (start, if i = parts - 1 then total_size - start else chunk_size))"

fun prefix_from :: "nat \<Rightarrow> nat \<Rightarrow> nat list \<Rightarrow> nat list \<Rightarrow> nat \<Rightarrow> nat" where
  "prefix_from total_size parts progress [] pre = pre"
| "prefix_from total_size parts progress (i # is) pre =
     (let part_len = snd (parallel_part_range total_size parts i);
          completed = min (progress ! i) part_len
      in if completed < part_len then pre + completed
         else prefix_from total_size parts progress is (pre + completed))"

definition contiguous_parallel_prefix :: "nat \<Rightarrow> nat \<Rightarrow> nat list \<Rightarrow> nat" where
  "contiguous_parallel_prefix total_size parts progress =
     prefix_from total_size parts progress [0..<parts] 0"

section \<open>Staging files\<close>

text \<open>What the metadata of a staging path say, and the decision of \<open>prepare\_local\_staging\<close> and
  \<open>prepare\_remote\_staging\<close>: continue after its length, or remove it and start at 0.\<close>

datatype staging_meta = StagingAbsent | StagingFile nat | StagingOther | StagingUnknown app_error

definition prepare_staging :: "staging_meta \<Rightarrow> nat \<Rightarrow> bool \<Rightarrow> string option \<Rightarrow> nat app_result" where
  "prepare_staging st src_size resume remove_error =
     (case st of
        StagingAbsent \<Rightarrow> Inr 0
      | StagingFile n \<Rightarrow>
          if resume \<and> n \<le> src_size then Inr n
          else (case remove_error of Some e \<Rightarrow> Inl (Remote e) | None \<Rightarrow> Inr 0)
      | StagingOther \<Rightarrow> (case remove_error of Some e \<Rightarrow> Inl (Remote e) | None \<Rightarrow> Inr 0)
      | StagingUnknown e \<Rightarrow> Inl e)"

definition prepare_local_staging :: "staging_meta \<Rightarrow> nat \<Rightarrow> bool \<Rightarrow> string option \<Rightarrow> nat app_result" where
  "prepare_local_staging = prepare_staging"

definition prepare_remote_staging :: "staging_meta \<Rightarrow> nat \<Rightarrow> bool \<Rightarrow> string option \<Rightarrow> nat app_result" where
  "prepare_remote_staging = prepare_staging"

datatype transfer_direction = Upload | Download

definition transfer_worker_parts :: "transfer_direction \<Rightarrow> bool \<Rightarrow> nat \<Rightarrow> nat" where
  "transfer_worker_parts direction resume bytes_total =
     (if resume \<or> bytes_total = 0 then 1
      else
        (let configured =
               (case direction of
                  Upload \<Rightarrow> if bytes_total \<ge> PARALLEL_UPLOAD_THRESHOLD then PARALLEL_UPLOAD_PARTS else 1
                | Download \<Rightarrow> if bytes_total \<ge> PARALLEL_DOWNLOAD_THRESHOLD then PARALLEL_DOWNLOAD_PARTS else 1)
         in max (min (min configured MAX_SFTP_TRANSFER_CONCURRENCY) (max bytes_total 1)) 1))"

section \<open>Parallel and sequential transfers\<close>

text \<open>A staging file written by the parts of a parallel transfer: what part \<open>i\<close> wrote lies from the start of
  its range. What the positions nobody wrote hold (zeros after \<open>set\_len\<close>, or a piece of the chunk a
  failing write was busy with) is the argument \<open>rest\<close>.\<close>

definition written_at :: "nat \<Rightarrow> nat \<Rightarrow> 'a list list \<Rightarrow> nat \<Rightarrow> 'a option" where
  "written_at total_size parts outs p =
     (case List.find (\<lambda>i. let start = fst (parallel_part_range total_size parts i) in
                          start \<le> p \<and> p < start + length (outs ! i)) [0..<parts] of
        None \<Rightarrow> None
      | Some i \<Rightarrow> Some (outs ! i ! (p - fst (parallel_part_range total_size parts i))))"

definition parallel_file :: "(nat \<Rightarrow> 'a) \<Rightarrow> nat \<Rightarrow> nat \<Rightarrow> 'a list list \<Rightarrow> 'a list" where
  "parallel_file rest total_size parts outs =
     map (\<lambda>p. case written_at total_size parts outs p of Some x \<Rightarrow> x | None \<Rightarrow> rest p) [0..<total_size]"

text \<open>\<open>run\_parallel\_upload\<close> and \<open>run\_parallel\_download\<close>: every part copies its range; when one fails the file
  is cut to the contiguous prefix of what was counted (at most what was written), or removed if that
  fails; the first error in the order of the parts is returned. A task dropped meanwhile does neither.\<close>

definition run_parallel ::
  "bool \<Rightarrow> nat \<Rightarrow> (nat \<Rightarrow> copy_turn list) \<Rightarrow> (nat \<Rightarrow> 'a) \<Rightarrow> nat list \<Rightarrow> bool \<Rightarrow> nat \<Rightarrow> 'a list
   \<Rightarrow> 'a list option \<times> copy_end" where
  "run_parallel flush_destination buffer_size turns rest counted truncated parts src =
     (let total_size = length src;
          results = map (\<lambda>i. let (start, len) = parallel_part_range total_size parts i in
              copy_n flush_destination buffer_size (turns i) len (drop start src) []) [0..<parts];
          file = parallel_file rest total_size parts (map fst results);
          progress = map (\<lambda>i. min (counted ! i) (length (fst (results ! i)))) [0..<parts]
      in if list_ex (\<lambda>r. snd r = CopyDropped) results then (Some file, CopyDropped)
         else (case filter (\<lambda>r. snd r \<noteq> CopyDone) results of
                 [] \<Rightarrow> (Some file, CopyDone)
               | r # _ \<Rightarrow>
                   (if truncated
                    then Some (take (contiguous_parallel_prefix total_size parts progress) file)
                    else None, snd r)))"

text \<open>A download flushes each part; an upload closes its parts and syncs the whole file once.\<close>

definition run_parallel_download ::
  "nat \<Rightarrow> (nat \<Rightarrow> copy_turn list) \<Rightarrow> (nat \<Rightarrow> 'a) \<Rightarrow> nat list \<Rightarrow> bool \<Rightarrow> nat \<Rightarrow> 'a list
   \<Rightarrow> 'a list option \<times> copy_end" where
  "run_parallel_download = run_parallel True"

definition run_parallel_upload ::
  "nat \<Rightarrow> (nat \<Rightarrow> copy_turn list) \<Rightarrow> (nat \<Rightarrow> 'a) \<Rightarrow> nat list \<Rightarrow> bool \<Rightarrow> nat \<Rightarrow> 'a list
   \<Rightarrow> 'a list option \<times> copy_end" where
  "run_parallel_upload = run_parallel False"

definition staging_of :: "'a list option \<Rightarrow> staging_meta" where
  "staging_of f = (case f of None \<Rightarrow> StagingAbsent | Some xs \<Rightarrow> StagingFile (length xs))"

text \<open>The sequential branch of \<open>run\_transfer\<close>: with \<open>resume\_from = 0\<close> the staging file is truncated, else
  both files are read and written from there on.\<close>

definition run_sequential ::
  "nat \<Rightarrow> copy_turn list \<Rightarrow> 'a list \<Rightarrow> 'a list option \<Rightarrow> nat \<Rightarrow> 'a list option \<times> copy_end" where
  "run_sequential buffer_size turns src staging resume_from =
     (let old = (if resume_from > 0 then (case staging of None \<Rightarrow> [] | Some xs \<Rightarrow> xs) else []);
          (written, r) = copy_async buffer_size turns (drop resume_from src) []
      in (Some (take resume_from old @ written @ drop (resume_from + length written) old), r))"

section \<open>The loops copy a prefix\<close>

lemma flushed_CopyDone [simp]: "flushed f = CopyDone \<longleftrightarrow> f = None" "flushed f \<noteq> CopyDropped"
  by (auto simp: flushed_def split: option.splits)

lemma min_max_zero [simp]: "min (max k (Suc 0)) r = 0 \<longleftrightarrow> r = 0"
  by (auto simp: min_def max_def)

lemma take_take_length: "take j (take m xs) = take (min j (length (take m xs))) xs"
  by (cases "m \<le> length xs") (auto simp: min_def)

lemma copy_async_spec:
  "copy_async b cs src dst = (dst', r) \<Longrightarrow>
   \<exists>n\<le>length src. dst' = dst @ take n src \<and> (r = CopyDone \<and> 0 < b \<longrightarrow> n = length src)"
proof (induction b cs src dst rule: copy_async.induct)
  case (1 b src dst)
  then show ?case by (intro exI [of _ 0]) auto
next
  case (2 b c cs src dst)
  show ?case
  proof (cases "ct_cancel c \<or> ct_pause1 c \<or> ct_read c = None")
    case True
    then show ?thesis using "2.prems" by (intro exI [of _ 0]) (auto split: if_splits)
  next
    case False
    then obtain k where k: "ct_read c = Some k" "\<not> (ct_cancel c \<or> ct_pause1 c)" by auto
    define got where "got = take (min (max k 1) b) src"
    have step: "copy_async b (c # cs) src dst =
        (if got = [] then (dst, flushed (ct_flush c))
         else if ct_cancel2 c \<or> ct_pause2 c then (dst, CopyFailed transfer_canceled)
         else (case ct_write c of
                 Some (e, k) \<Rightarrow> (dst @ take k got, CopyFailed (Remote e))
               | None \<Rightarrow> copy_async b cs (drop (length got) src) (dst @ got)))"
      by (simp only: copy_async.simps k if_False option.case Let_def got_def)
    have pre: "take j got = take (min j (length got)) src" for j unfolding got_def by (rule take_take_length)
    consider "got = [] \<or> ct_cancel2 c \<or> ct_pause2 c"
      | e j where "got \<noteq> []" "\<not> (ct_cancel2 c \<or> ct_pause2 c)" "ct_write c = Some (e, j)"
      | "got \<noteq> []" "\<not> (ct_cancel2 c \<or> ct_pause2 c)" "ct_write c = None" by fastforce
    then show ?thesis
    proof cases
      case 1
      then show ?thesis using "2.prems" step
        by (intro exI [of _ 0]) (auto simp: got_def split: if_splits)
    next
      case w: 2
      then have "dst' = dst @ take j got" "r \<noteq> CopyDone" using "2.prems" step by auto
      then show ?thesis using pre [of j] by (intro exI [of _ "min j (length got)"]) (auto simp: got_def)
    next
      case go: 3
      then have rec: "copy_async b cs (drop (length got) src) (dst @ got) = (dst', r)"
        using "2.prems" step by simp
      have conds: "got \<noteq> []" "\<not> (ct_cancel2 c \<or> ct_pause2 c)" "ct_write c = None" using go by auto
      from "2.IH" [OF k(2) k(1) got_def conds rec] obtain n where
        n: "n \<le> length (drop (length got) src)" "dst' = (dst @ got) @ take n (drop (length got) src)"
          "r = CopyDone \<and> 0 < b \<longrightarrow> n = length (drop (length got) src)" by blast
      have "got = take (length got) src" by (simp add: got_def min_def)
      then have "dst' = dst @ take (length got + n) src" using n(2) by (metis append.assoc take_add)
      moreover have "length got \<le> length src" by (simp add: got_def)
      ultimately show ?thesis using n(1,3) by (intro exI [of _ "length got + n"]) auto
    qed
  qed
qed

lemma copy_n_spec:
  "copy_n fl b cs remaining src dst = (dst', r) \<Longrightarrow>
   \<exists>n\<le>min remaining (length src). dst' = dst @ take n src \<and> (r = CopyDone \<longrightarrow> n = remaining)"
proof (induction fl b cs remaining src dst rule: copy_n.induct)
  case (1 fl b remaining src dst)
  then show ?case by (intro exI [of _ 0]) (auto split: if_splits)
next
  case (2 fl b c cs remaining src dst)
  show ?case
  proof (cases "remaining = 0 \<or> ct_cancel c \<or> ct_pause1 c \<or> ct_read c = None")
    case True
    then show ?thesis using "2.prems" by (intro exI [of _ 0]) (auto split: if_splits)
  next
    case False
    then obtain k where k: "ct_read c = Some k" "\<not> (ct_cancel c \<or> ct_pause1 c)" "remaining \<noteq> 0" by auto
    define got where "got = take (min (max k 1) (read_chunk_len remaining b)) src"
    have step: "copy_n fl b (c # cs) remaining src dst =
        (if got = [] then (dst, CopyFailed (Remote ''early end of the remote file''))
         else if ct_pause2 c then (dst, CopyFailed transfer_canceled)
         else (case ct_write c of
                 Some (e, k) \<Rightarrow> (dst @ take k got, CopyFailed (Remote e))
               | None \<Rightarrow> copy_n fl b cs (remaining - length got) (drop (length got) src) (dst @ got)))"
      by (simp only: copy_n.simps k if_False option.case Let_def got_def)
    have pre: "take j got = take (min j (length got)) src" for j unfolding got_def by (rule take_take_length)
    have le: "length got \<le> remaining" "length got \<le> length src"
      by (simp_all add: got_def read_chunk_len_def)
    consider "got = [] \<or> ct_pause2 c"
      | e j where "got \<noteq> []" "\<not> ct_pause2 c" "ct_write c = Some (e, j)"
      | "got \<noteq> []" "\<not> ct_pause2 c" "ct_write c = None" by fastforce
    then show ?thesis
    proof cases
      case 1
      then show ?thesis using "2.prems" step
        by (intro exI [of _ 0]) (auto split: if_splits)
    next
      case w: 2
      then have "dst' = dst @ take j got" "r \<noteq> CopyDone" using "2.prems" step by auto
      then show ?thesis using pre [of j] le by (intro exI [of _ "min j (length got)"]) auto
    next
      case go: 3
      have rec: "copy_n fl b cs (remaining - length got) (drop (length got) src) (dst @ got) = (dst', r)"
        using go "2.prems" step by simp
      have conds: "got \<noteq> []" "\<not> ct_pause2 c" "ct_write c = None" using go by auto
      from "2.IH" [OF k(3) k(2) k(1) refl got_def conds rec] obtain n where
        n: "n \<le> min (remaining - length got) (length (drop (length got) src))"
          "dst' = (dst @ got) @ take n (drop (length got) src)"
          "r = CopyDone \<longrightarrow> n = remaining - length got" by blast
      have "got = take (length got) src" by (simp add: got_def min_def)
      then have "dst' = dst @ take (length got + n) src" using n(2) by (metis append.assoc take_add)
      moreover have "length got + n \<le> min remaining (length src)"
        using n(1) le by (simp add: le_diff_conv2 add.commute)
      moreover have "r = CopyDone \<longrightarrow> length got + n = remaining" using n(3) le by simp
      ultimately show ?thesis by blast
    qed
  qed
qed

lemma gather_spec:
  "gather target b rs src acc = Gathered got rest eof \<Longrightarrow> target \<le> max b 1 \<Longrightarrow> length acc \<le> b \<Longrightarrow>
   acc @ src = got @ rest \<and> (eof \<and> 0 < b \<longrightarrow> rest = []) \<and> (\<not> eof \<longrightarrow> target \<le> length got)"
proof (induction rs arbitrary: src acc)
  case Nil
  then show ?case by (auto split: if_splits)
next
  case (Cons x rs)
  obtain rr canceled where x: "x = (rr, canceled)" by (cases x)
  show ?case
  proof (cases "length acc \<ge> target")
    case True
    then show ?thesis using Cons.prems x by auto
  next
    case False
    then obtain k where k: "rr = ReadUpTo k" using Cons.prems x by (auto split: read_result.splits)
    let ?got = "take (min (max k 1) (b - length acc)) src"
    show ?thesis
    proof (cases "?got = []")
      case True
      then have g: "got = acc" "rest = src" "eof" using Cons.prems x k False by (auto simp: Let_def)
      have "src = []" if "0 < b"
      proof -
        have "length acc < b" using False Cons.prems(2) that by simp
        then show ?thesis using True by simp
      qed
      then show ?thesis using g by simp
    next
      case ne: False
      then have "gather target b rs (drop (length ?got) src) (acc @ ?got) = Gathered got rest eof"
        using Cons.prems x k False by (simp add: Let_def split: if_splits)
      moreover have "length (acc @ ?got) \<le> b" using Cons.prems(3) by simp
      ultimately have "(acc @ ?got) @ drop (length ?got) src = got @ rest
          \<and> (eof \<and> 0 < b \<longrightarrow> rest = []) \<and> (\<not> eof \<longrightarrow> target \<le> length got)"
        using Cons.IH Cons.prems(2) by blast
      moreover have "?got @ drop (length ?got) src = src" by (simp add: min_def)
      ultimately show ?thesis by simp
    qed
  qed
qed

end
