(* ===== verification/Transfer_Safe.thy ===== *)
theory Transfer_Safe
  imports Transfer_Copy
begin

text \<open>
  What the data path of a transfer guarantees: bounded uploads, and that an interrupted parallel
  transfer continued from its truncated staging file ends with exactly the source. The last lemma
  shows what the truncation protects against.
\<close>

section \<open>Bounded copies\<close>

lemma copy_limited_spec:
  "copy_limited b m cs done0 src dst = ((dst', done1), r) \<Longrightarrow> done0 \<le> m \<Longrightarrow> m < u64_max \<Longrightarrow> 0 < b \<Longrightarrow>
   \<exists>n\<le>length src. dst' = dst @ take n src \<and> done1 \<le> done0 + n \<and> done0 + n \<le> m
     \<and> (r = CopyDone \<longrightarrow> n = length src \<and> done1 = done0 + n)"
proof (induction b m cs done0 src dst rule: copy_limited.induct)
  case (1 b m done0 src dst)
  then show ?case by (intro exI [of _ 0]) auto
next
  case (2 b m c cs done0 src dst)
  let ?g = "gather (min (max b 1) (256 * 1024)) b (lt_reads c) src []"
  show ?case
  proof (cases "lt_cancel c \<or> lt_pause1 c \<or> (\<nexists>got rest eof. ?g = Gathered got rest eof)")
    case True
    then show ?thesis using "2.prems" by (intro exI [of _ 0]) (auto split: if_splits gathered.splits)
  next
    case False
    then obtain got rest eof where g: "?g = Gathered got rest eof" and nc: "\<not> (lt_cancel c \<or> lt_pause1 c)"
      by blast
    have split: "src = got @ rest" "eof \<longrightarrow> rest = []"
      using gather_spec [OF g] "2.prems"(4) by auto
    have step: "copy_limited b m (c # cs) done0 src dst =
        (if got = [] \<and> eof then ((dst, done0), flushed (lt_flush c))
         else if sat_add64 done0 (length got) > m
         then ((dst, done0), CopyFailed (InvalidInput (''upload '' @ ZH_EXCEEDS)))
         else if lt_cancel2 c \<or> lt_pause2 c then ((dst, done0), CopyFailed transfer_canceled)
         else (case lt_write c of
                 Some (e, k) \<Rightarrow> ((dst @ take k got, done0), CopyFailed (Remote e))
               | None \<Rightarrow> (if eof then ((dst @ got, done0 + length got), flushed (lt_flush c))
                          else copy_limited b m cs (done0 + length got) rest (dst @ got))))"
      by (simp only: copy_limited.simps nc if_False g gathered.case)
    consider "(got = [] \<and> eof) \<or> sat_add64 done0 (length got) > m \<or> lt_cancel2 c \<or> lt_pause2 c"
      | e j where "\<not> (got = [] \<and> eof)" "\<not> sat_add64 done0 (length got) > m"
          "\<not> (lt_cancel2 c \<or> lt_pause2 c)" "lt_write c = Some (e, j)"
      | "\<not> (got = [] \<and> eof)" "\<not> sat_add64 done0 (length got) > m"
          "\<not> (lt_cancel2 c \<or> lt_pause2 c)" "lt_write c = None" by fastforce
    then show ?thesis
    proof cases
      case 1
      then show ?thesis using "2.prems"(1-3) step split
        by (intro exI [of _ 0]) (auto split: if_splits)
    next
      case w: 2
      have eqs: "dst' = dst @ take j got" "r \<noteq> CopyDone" "done1 = done0"
        using w "2.prems"(1) unfolding step by auto
      have "done0 + length got \<le> m"
        using w(2) "2.prems"(3) by (auto simp: sat_add64_def min_def split: if_splits)
      then show ?thesis using eqs split by (intro exI [of _ "min j (length got)"]) (auto simp: min_def)
    next
      case go: 3
      have fits: "done0 + length got \<le> m"
        using go "2.prems"(3) by (auto simp: sat_add64_def min_def split: if_splits)
      show ?thesis
      proof (cases eof)
        case True
        then show ?thesis using "2.prems"(1) step go split fits
          by (intro exI [of _ "length got"]) auto
      next
        case False
        then have rec: "copy_limited b m cs (done0 + length got) rest (dst @ got) = ((dst', done1), r)"
          using "2.prems"(1) step go by auto
        have conds: "\<not> (got = [] \<and> eof)" "\<not> m < sat_add64 done0 (length got)"
          "\<not> (lt_cancel2 c \<or> lt_pause2 c)" "lt_write c = None" "\<not> eof" using go False by auto
        from "2.IH" [OF nc g conds rec fits "2.prems"(3,4)] obtain n where
          n: "n \<le> length rest" "dst' = (dst @ got) @ take n rest" "done1 \<le> done0 + length got + n"
            "done0 + length got + n \<le> m"
            "r = CopyDone \<longrightarrow> n = length rest \<and> done1 = done0 + length got + n" by blast
        then show ?thesis using split by (intro exI [of _ "length got + n"]) auto
      qed
    qed
  qed
qed

text \<open>An upload through \<open>copy\_async\_limited\<close> never writes more than the limit nor counts more than
  it wrote, writes a prefix of the data in order, and reports success only when all data were written and counted;
  data beyond the limit make it fail.\<close>

theorem limited_upload_bounded:
  assumes "copy_limited buffer_size max_bytes turns 0 src [] = ((file, bytes_done), r)"
    and "max_bytes < u64_max" and "0 < buffer_size"
  shows "length file \<le> max_bytes \<and> bytes_done \<le> length file \<and> file = take (length file) src
    \<and> (r = CopyDone \<longrightarrow> file = src \<and> bytes_done = length src) \<and> (length src > max_bytes \<longrightarrow> r \<noteq> CopyDone)"
  using copy_limited_spec [OF assms(1) _ assms(2,3)] by auto

theorem limited_upload_bounded_witness:
  "\<exists>file n r. copy_limited 4 3 [\<lparr>lt_cancel = False, lt_pause1 = False, lt_reads = [(ReadUpTo 2, False)],
       lt_cancel2 = False, lt_pause2 = False, lt_write = None, lt_flush = None\<rparr>] 0 [1, 2, 3, 4, 5 :: nat] [] = ((file, n), r)
     \<and> length file \<le> 3 \<and> r \<noteq> CopyDone"
proof -
  let ?c = "\<lparr>lt_cancel = False, lt_pause1 = False, lt_reads = [(ReadUpTo 2, False)],
       lt_cancel2 = False, lt_pause2 = False, lt_write = None, lt_flush = None\<rparr>"
  obtain out n r where c: "copy_limited 4 3 [?c] 0 [1, 2, 3, 4, 5 :: nat] [] = ((out, n), r)"
    by (metis prod.exhaust)
  have "(3::nat) < u64_max" by (simp add: u64_max_def)
  from limited_upload_bounded [OF c this] c show ?thesis by auto
qed

section \<open>Parallel transfers\<close>

lemma part_range_cover:
  assumes "0 < parts" "i < parts"
  shows "fst (parallel_part_range tot parts i) = i * (tot div parts)"
    and "i + 1 < parts \<Longrightarrow> i * (tot div parts) + snd (parallel_part_range tot parts i) = (i + 1) * (tot div parts)"
    and "i + 1 = parts \<Longrightarrow> i * (tot div parts) + snd (parallel_part_range tot parts i) = tot"
proof -
  have "i * (tot div parts) \<le> parts * (tot div parts)" using assms by simp
  then have "i * (tot div parts) \<le> tot"
    by (meson le_trans times_div_less_eq_dividend)
  then show "i + 1 = parts \<Longrightarrow> i * (tot div parts) + snd (parallel_part_range tot parts i) = tot"
    by (auto simp: parallel_part_range_def Let_def)
qed (use assms in \<open>auto simp: parallel_part_range_def Let_def\<close>)

text \<open>The positions the parts have counted.\<close>

definition part_written :: "nat \<Rightarrow> nat \<Rightarrow> nat list \<Rightarrow> nat \<Rightarrow> bool" where
  "part_written total_size parts progress p =
     list_ex (\<lambda>i. let (start, len) = parallel_part_range total_size parts i in
                   start \<le> p \<and> p < start + min (progress ! i) len) [0..<parts]"

lemma part_writtenI:
  assumes "i < parts" "i * (tot div parts) \<le> p"
    "p < i * (tot div parts) + min (progress ! i) (snd (parallel_part_range tot parts i))"
  shows "part_written tot parts progress p"
  using assms part_range_cover(1) [of parts i tot]
  by (auto simp: part_written_def list_ex_iff split_beta intro!: bexI [of _ i])

lemma prefix_from_spec:
  assumes "k < parts"
  shows "\<exists>q. prefix_from tot parts progress [k..<parts] (k * (tot div parts)) = q
     \<and> k * (tot div parts) \<le> q \<and> q \<le> tot
     \<and> (\<forall>p. k * (tot div parts) \<le> p \<and> p < q \<longrightarrow> part_written tot parts progress p)"
  using assms
proof (induction "parts - k" arbitrary: k)
  case (Suc n)
  let ?c = "tot div parts" and ?len = "snd (parallel_part_range tot parts k)"
  let ?d = "min (progress ! k) ?len"
  have up: "[k..<parts] = k # [Suc k..<parts]" using Suc.prems by (simp add: upt_conv_Cons)
  have w: "part_written tot parts progress p" if "k * ?c \<le> p" "p < k * ?c + ?d" for p
    using part_writtenI [OF Suc.prems that] .
  have "parts * ?c \<le> tot" by (rule times_div_less_eq_dividend)
  moreover have "(k + 1) * ?c \<le> parts * ?c" using Suc.prems by (intro mult_le_mono1) simp
  ultimately have bnd: "(k + 1) * ?c \<le> tot" by (rule le_trans [rotated])
  have lenb: "k * ?c + ?len \<le> tot"
    using part_range_cover(2,3) [of parts k tot] Suc.prems bnd by (cases "k + 1 < parts") auto
  show ?case
  proof (cases "?d < ?len")
    case True
    then have "prefix_from tot parts progress [k..<parts] (k * ?c) = k * ?c + ?d"
      by (simp add: up Let_def)
    then show ?thesis using w lenb by auto
  next
    case False
    then have d: "?d = ?len" by simp
    then have eq: "prefix_from tot parts progress [k..<parts] (k * ?c)
        = prefix_from tot parts progress [Suc k..<parts] (k * ?c + ?len)"
      by (simp add: up Let_def)
    show ?thesis
    proof (cases "k + 1 < parts")
      case True
      have next_start: "k * ?c + ?len = Suc k * ?c"
        using part_range_cover(2) [of parts k tot] True by simp
      have "n = parts - Suc k" "Suc k < parts" using Suc.hyps(2) True by auto
      from Suc.hyps(1) [OF this] obtain q where
        q: "prefix_from tot parts progress [Suc k..<parts] (Suc k * ?c) = q" "Suc k * ?c \<le> q" "q \<le> tot"
          "\<forall>p. Suc k * ?c \<le> p \<and> p < q \<longrightarrow> part_written tot parts progress p" by blast
      have "part_written tot parts progress p" if "k * ?c \<le> p" "p < q" for p
        using w [of p] q(4) that d next_start by (metis not_le)
      moreover have "k * ?c \<le> q" using q(2) by simp
      ultimately show ?thesis using eq next_start q(1,3) by auto
    next
      case last: False
      then have kp: "k + 1 = parts" using Suc.prems by simp
      then have "k * ?c + ?len = tot" using part_range_cover(3) [of parts k tot] by simp
      moreover have "[Suc k..<parts] = []" using kp by simp
      ultimately show ?thesis using eq w d by auto
    qed
  qed
qed simp

lemma contiguous_prefix_written:
  assumes "0 < parts"
  shows "contiguous_parallel_prefix tot parts progress \<le> tot"
    and "p < contiguous_parallel_prefix tot parts progress \<Longrightarrow> part_written tot parts progress p"
  using prefix_from_spec [OF assms, of tot progress] by (auto simp: contiguous_parallel_prefix_def)

text \<open>The parts write pieces of the source, so every written position holds the source's byte.\<close>

definition parts_ok :: "'a list \<Rightarrow> nat \<Rightarrow> 'a list list \<Rightarrow> bool" where
  "parts_ok src parts outs \<longleftrightarrow> length outs = parts \<and>
     (\<forall>i<parts. \<exists>n\<le> snd (parallel_part_range (length src) parts i).
        n \<le> length (drop (fst (parallel_part_range (length src) parts i)) src)
        \<and> outs ! i = take n (drop (fst (parallel_part_range (length src) parts i)) src))"

lemma written_at_exact:
  assumes "parts_ok src parts outs" "written_at (length src) parts outs p = Some x"
  shows "x = src ! p"
proof -
  let ?st = "\<lambda>i. fst (parallel_part_range (length src) parts i)"
  from assms(2) obtain i where i: "i < parts" "?st i \<le> p" "p < ?st i + length (outs ! i)"
      "x = outs ! i ! (p - ?st i)"
    by (auto simp: written_at_def find_Some_iff Let_def split: option.splits)
  from assms(1) i(1) obtain n where n: "n \<le> length (drop (?st i) src)" "outs ! i = take n (drop (?st i) src)"
    by (auto simp: parts_ok_def)
  have "outs ! i ! (p - ?st i) = drop (?st i) src ! (p - ?st i)" using n i by simp
  also have "\<dots> = src ! p" using i n by (cases "?st i \<le> length src") auto
  finally show ?thesis using i(4) by simp
qed

lemma written_at_Some:
  assumes "i < parts" "fst (parallel_part_range tot parts i) \<le> p"
    "p < fst (parallel_part_range tot parts i) + length (outs ! i)"
  shows "\<exists>x. written_at tot parts outs p = Some x"
proof -
  have "List.find (\<lambda>i. let start = fst (parallel_part_range tot parts i) in
      start \<le> p \<and> p < start + length (outs ! i)) [0..<parts] \<noteq> None"
    using assms unfolding find_None_iff by (auto simp: Let_def)
  then show ?thesis by (auto simp: written_at_def)
qed

lemma truncated_prefix:
  assumes "0 < parts" "parts_ok src parts outs"
    and "progress = map (\<lambda>i. min (counted ! i) (length (outs ! i))) [0..<parts]"
    and "q = contiguous_parallel_prefix (length src) parts progress"
  shows "q \<le> length src" "take q (parallel_file rest (length src) parts outs) = take q src"
proof -
  show q: "q \<le> length src" using contiguous_prefix_written(1) [OF assms(1)] assms(4) by simp
  have "parallel_file rest (length src) parts outs ! p = src ! p" if p: "p < q" for p
  proof -
    have "part_written (length src) parts progress p"
      using contiguous_prefix_written(2) [OF assms(1)] p assms(4) by simp
    then obtain i where "i < parts" "fst (parallel_part_range (length src) parts i) \<le> p"
      "p < fst (parallel_part_range (length src) parts i) + length (outs ! i)"
      by (auto simp: part_written_def list_ex_iff assms(3) split_beta)
    from written_at_Some [OF this] written_at_exact [OF assms(2)] show ?thesis
      using p q by (auto simp: parallel_file_def)
  qed
  then show "take q (parallel_file rest (length src) parts outs) = take q src"
    using q by (intro nth_equalityI) (auto simp: parallel_file_def)
qed

lemma in_some_part:
  assumes "0 < parts" "p < tot"
  shows "\<exists>i<parts. fst (parallel_part_range tot parts i) \<le> p
     \<and> p < fst (parallel_part_range tot parts i) + snd (parallel_part_range tot parts i)"
proof -
  let ?c = "tot div parts" and ?P = "\<lambda>i. i < parts \<and> i * (tot div parts) \<le> p"
  have ex: "?P 0" using assms(1) by simp
  define i where "i = (GREATEST i. ?P i)"
  have i: "?P i" unfolding i_def by (rule GreatestI_nat [where P = ?P and k = 0 and b = parts]) (use ex in auto)
  have mx: "\<not> ?P (Suc i)"
    using Greatest_le_nat [where P = ?P and b = parts and k = "Suc i"] i_def by auto
  show ?thesis
  proof (cases "i + 1 < parts")
    case True
    then have "p < (i + 1) * ?c" using mx by auto
    then show ?thesis using i part_range_cover [OF assms(1)] True by (intro exI [of _ i]) simp
  next
    case False
    then have "i + 1 = parts" using i by simp
    then show ?thesis using i part_range_cover [OF assms(1)] assms(2) by (intro exI [of _ i]) simp
  qed
qed

lemma parts_ok_copy_n:
  "parts_ok src parts (map (\<lambda>i. fst (copy_n fl b (turns i) (snd (parallel_part_range (length src) parts i))
      (drop (fst (parallel_part_range (length src) parts i)) src) [])) [0..<parts])"
proof -
  have "\<exists>n\<le>len. n \<le> length xs \<and> fst (copy_n fl b ts len xs []) = take n xs" for len ts and xs :: "'a list"
    using copy_n_spec [of fl b ts len xs "[]" "fst (copy_n fl b ts len xs [])" "snd (copy_n fl b ts len xs [])"]
    by auto
  then show ?thesis by (simp add: parts_ok_def del: length_drop)
qed

text \<open>What a parallel transfer leaves: the source when it succeeds, a prefix of it or nothing when it fails.\<close>

lemma run_parallel_spec:
  assumes "0 < parts" "run_parallel fl b turns rest counted truncated parts src = (staging, r)"
  shows "r = CopyDone \<Longrightarrow> staging = Some src"
    and "r \<noteq> CopyDropped \<Longrightarrow> staging = None \<or> (\<exists>n\<le>length src. staging = Some (take n src))"
proof -
  let ?rg = "parallel_part_range (length src) parts"
  define res where "res = map (\<lambda>i. copy_n fl b (turns i) (snd (?rg i)) (drop (fst (?rg i)) src) []) [0..<parts]"
  define progress where "progress = map (\<lambda>i. min (counted ! i) (length (fst (res ! i)))) [0..<parts]"
  define prog where "prog = map (\<lambda>i. min (counted ! i) (length (map fst res ! i))) [0..<parts]"
  have pp: "progress = prog" by (auto simp: progress_def prog_def res_def)
  let ?file = "parallel_file rest (length src) parts (map fst res)"
  have run: "run_parallel fl b turns rest counted truncated parts src =
     (if list_ex (\<lambda>r. snd r = CopyDropped) res then (Some ?file, CopyDropped)
      else (case filter (\<lambda>r. snd r \<noteq> CopyDone) res of
              [] \<Rightarrow> (Some ?file, CopyDone)
            | r # _ \<Rightarrow> (if truncated then Some (take (contiguous_parallel_prefix (length src) parts progress) ?file)
                       else None, snd r)))"
    unfolding run_parallel_def Let_def res_def progress_def split_beta by (rule refl)
  have ok: "parts_ok src parts (map fst res)"
    using parts_ok_copy_n [where turns = turns] by (simp add: res_def comp_def)
  show full: "staging = Some src" if "r = CopyDone"
  proof -
    have "filter (\<lambda>r. snd r \<noteq> CopyDone) res = [] \<or>
        (\<exists>r'\<in>set res. snd r' \<noteq> CopyDone \<and> snd r' = CopyDone)"
      using assms(2) that unfolding run
      by (auto split: if_splits list.splits simp: filter_eq_Cons_iff)
    then have all: "\<forall>x\<in>set res. snd x = CopyDone" by (auto simp: filter_empty_conv)
    have len: "length (map fst res ! i) = snd (?rg i)" if "i < parts" for i
    proof -
      obtain out e where o: "copy_n fl b (turns i) (snd (?rg i)) (drop (fst (?rg i)) src) [] = (out, e)"
        by (metis prod.exhaust)
      moreover have "(out, e) \<in> set res" using that o by (force simp: res_def)
      ultimately have "length out = snd (?rg i)" using copy_n_spec [OF o] all by auto
      then show ?thesis using that o by (simp add: res_def)
    qed
    have "?file ! p = src ! p" if "p < length src" for p
    proof -
      obtain i where "i < parts" "fst (?rg i) \<le> p" "p < fst (?rg i) + length (map fst res ! i)"
        using in_some_part [OF assms(1) \<open>p < length src\<close>] len by metis
      from written_at_Some [OF this] written_at_exact [OF ok] that show ?thesis
        by (auto simp: parallel_file_def)
    qed
    then have "?file = src" by (intro nth_equalityI) (auto simp: parallel_file_def)
    moreover have "staging = Some ?file"
      using assms(2) that all unfolding run by (auto split: if_splits list.splits simp: filter_eq_Cons_iff)
    ultimately show ?thesis by simp
  qed
  show "staging = None \<or> (\<exists>n\<le>length src. staging = Some (take n src))" if "r \<noteq> CopyDropped"
  proof (cases "r = CopyDone")
    case True
    then show ?thesis using full by (intro disjI2 exI [of _ "length src"]) simp
  next
    case False
    let ?q = "contiguous_parallel_prefix (length src) parts prog"
    have "staging = (if truncated then Some (take ?q ?file) else None)"
      using assms(2) that False unfolding run pp by (auto split: if_splits list.splits)
    then show ?thesis
      using truncated_prefix [OF assms(1) ok prog_def refl] by auto
  qed
qed

lemma run_sequential_spec:
  assumes "run_sequential b turns src staging n = (file, r)" "0 < b" "n \<le> length src"
    and "n > 0 \<longrightarrow> staging = Some (take n src)"
  shows "\<exists>m\<le>length src. file = Some (take m src) \<and> (r = CopyDone \<longrightarrow> m = length src)"
proof -
  obtain written r' where c: "copy_async b turns (drop n src) [] = (written, r')" by (metis prod.exhaust)
  from copy_async_spec [OF c] obtain k where
    k: "k \<le> length (drop n src)" "written = take k (drop n src)" "r' = CopyDone \<and> 0 < b \<longrightarrow> k = length (drop n src)"
    by auto
  let ?old = "if n > 0 then (case staging of None \<Rightarrow> [] | Some xs \<Rightarrow> xs) else []"
  have old: "?old = take n src" using assms(4) by auto
  have "file = Some (take n ?old @ written @ drop (n + length written) ?old)" "r = r'"
    using assms(1) c by (auto simp: run_sequential_def Let_def)
  then have "file = Some (take (n + k) src)" "r = r'" using old k by (auto simp: take_add)
  then show ?thesis using k assms(2,3) by (intro exI [of _ "n + k"]) auto
qed

text \<open>Why the cut matters: had a parallel download been dropped without it (a crash, a forced abort), a
  retry would trust the full length of its staging file.\<close>

lemma resume_without_truncation_keeps_holes:
  "run_sequential 4 [\<lparr>ct_cancel = False, ct_pause1 = False, ct_read = Some 1, ct_cancel2 = False,
       ct_pause2 = False, ct_write = None, ct_flush = None\<rparr>] [1, 2, 3, 4 :: nat]
     (Some (parallel_file (\<lambda>_. 0) 4 2 [[1], [3, 4]])) 4 = (Some [1, 0, 3, 4], CopyDone)"
  by code_simp

text \<open>The worker count of a transfer is between 1 and the number of slots of its connection, so it
  can always be granted; only a fresh transfer of at least 16 MiB runs in parallel.\<close>

lemma transfer_worker_parts_bounds:
  "1 \<le> transfer_worker_parts d resume tot \<and> transfer_worker_parts d resume tot \<le> 4
    \<and> (transfer_worker_parts d resume tot > 1 \<longleftrightarrow> \<not> resume \<and> tot \<ge> 16 * 1024 * 1024)"
  by (auto simp: transfer_worker_parts_def Let_def PARALLEL_UPLOAD_THRESHOLD_def PARALLEL_UPLOAD_PARTS_def
      PARALLEL_DOWNLOAD_THRESHOLD_def PARALLEL_DOWNLOAD_PARTS_def MAX_SFTP_TRANSFER_CONCURRENCY_def
      split: transfer_direction.splits)

end
