(* ===== verification/Str_Lines.thy ===== *)
theory Str_Lines
  imports Rust_Prelude
begin

text \<open>Lines of a text as Rust's \<open>str\<close> cuts them.\<close>

text \<open>\<open>str::split\_inclusive('\n')\<close>: every line with its end.\<close>

fun split_inclusive :: "string \<Rightarrow> string list" where
  "split_inclusive [] = []"
| "split_inclusive (c # cs) =
     (if c = CHR 0x0A then [c] # split_inclusive cs
      else (case split_inclusive cs of [] \<Rightarrow> [[c]] | l # ls \<Rightarrow> (c # l) # ls))"

text \<open>\<open>str::lines\<close>: a line loses its end, and a carriage return only in front of one.\<close>

definition strip_line_end :: "string \<Rightarrow> string" where
  "strip_line_end l =
     (if l \<noteq> [] \<and> last l = CHR 0x0A
      then (let m = butlast l in if m \<noteq> [] \<and> last m = CHR 0x0D then butlast m else m)
      else l)"

definition str_lines :: "string \<Rightarrow> string list" where
  "str_lines s = map strip_line_end (split_inclusive s)"

lemma concat_split_inclusive: "concat (split_inclusive s) = s"
  by (induction s rule: split_inclusive.induct) (auto split: list.splits)

lemma split_inclusive_Nil [simp]: "split_inclusive s = [] \<longleftrightarrow> s = []"
  by (cases s) (auto split: list.splits)

lemma split_inclusive_hd: "s \<noteq> [] \<Longrightarrow> hd (split_inclusive s) \<noteq> [] \<and> hd (hd (split_inclusive s)) = hd s"
  by (cases s) (auto split: list.splits)

end
