(* ===== verification/Sftp_Commands.thy ===== *)
theory Sftp_Commands
  imports App_Errors Str_Lines
begin

text \<open>
  \<open>remote/sftp.rs\<close>: remote paths, and the shell commands the SFTP operations run on the server. The
  messages inside the scripts are glosses. Beside the code stands the part of POSIX word splitting the
  commands rely on: single quotes, and a backslash outside them.
\<close>

section \<open>Remote paths\<close>

definition normalize_remote_path :: "string \<Rightarrow> string" where
  "normalize_remote_path path =
     (let parts = norm_parts path in
      if parts = [] then ''/'' else ''/'' @ join_with ''/'' parts)"

definition ensure_not_root_path :: "string \<Rightarrow> string \<Rightarrow> unit app_result" where
  "ensure_not_root_path path message =
     (if normalize_remote_path path = ''/'' then Inl (InvalidInput message) else Inr ())"

definition is_same_or_child_remote_path :: "string \<Rightarrow> string \<Rightarrow> bool" where
  "is_same_or_child_remote_path parent0 candidate0 =
     (let parent = normalize_remote_path parent0; candidate = normalize_remote_path candidate0 in
      parent = candidate \<or> (parent \<noteq> ''/'' \<and> starts_with (parent @ ''/'') candidate))"

definition ensure_not_same_or_child_path :: "string \<Rightarrow> string \<Rightarrow> string \<Rightarrow> unit app_result" where
  "ensure_not_same_or_child_path src target message =
     (if is_same_or_child_remote_path src target then Inl (InvalidInput message) else Inr ())"

definition join_remote_path :: "string \<Rightarrow> string \<Rightarrow> string" where
  "join_remote_path parent name =
     (if parent = ''/'' then ''/'' @ name else trim_end_char (CHR ''/'') parent @ ''/'' @ name)"

definition remote_base_name :: "string \<Rightarrow> string" where
  "remote_base_name path =
     (case filter (\<lambda>part. part \<noteq> []) (split_on (CHR ''/'') (normalize_remote_path path)) of
        [] \<Rightarrow> [] | ps \<Rightarrow> last ps)"

definition resolve_remote_target_path :: "string \<Rightarrow> string \<Rightarrow> string" where
  "resolve_remote_target_path current_path value =
     (let trimmed = trim value in
      if trimmed = [] then normalize_remote_path current_path
      else if starts_with ''/'' trimmed then normalize_remote_path trimmed
      else normalize_remote_path (join_remote_path (normalize_remote_path current_path) trimmed))"

section \<open>Commands\<close>

definition shell_quote :: "string \<Rightarrow> string" where
  "shell_quote value =
     [CHR 0x27] @ replace_str [CHR 0x27] [CHR 0x27, CHR 0x5C, CHR 0x27, CHR 0x27] value @ [CHR 0x27]"

definition remote_file_command :: "string \<Rightarrow> string list \<Rightarrow> string" where
  "remote_file_command script args =
     foldl (\<lambda>command arg. command @ '' '' @ shell_quote arg)
       (''sh -lc '' @ shell_quote script @ '' sh'') args"

definition REMOTE_TARGET_EXISTS_MARKER :: string where
  "REMOTE_TARGET_EXISTS_MARKER = ''__HELM_TARGET_EXISTS__''"

text \<open>The two ways a script reports: one line, and one line followed by the marker.\<close>

definition report :: "string \<Rightarrow> string" where
  "report t = ''printf \"%s'' @ [CHR 0x5C] @ ''n\" \"'' @ t @ ''\" >&2''"

definition report_marked :: "string \<Rightarrow> string" where
  "report_marked t =
     ''printf \"%s'' @ [CHR 0x5C] @ ''n%s'' @ [CHR 0x5C] @ ''n\" \"'' @ t @ ''\" \"''
       @ REMOTE_TARGET_EXISTS_MARKER @ ''\" >&2''"

definition source_exists_check :: string where
  "source_exists_check = ''[ -e \"$1\" ] || [ -L \"$1\" ] || { '' @ report ''no such path: $1'' @ ''; exit 1; }; ''"

definition target_not_directory_check :: string where
  "target_not_directory_check =
     ''if [ -d \"$2\" ] && [ ! -L \"$2\" ]; then '' @ report ''target is a directory: $2'' @ ''; exit 1; fi; ''"

definition build_remote_mkdir_command :: "string \<Rightarrow> string" where
  "build_remote_mkdir_command path =
     remote_file_command ''mkdir -p -- \"$1\"'' [normalize_remote_path path]"

definition build_remote_create_file_command :: "string \<Rightarrow> string" where
  "build_remote_create_file_command path =
     remote_file_command '': > \"$1\"'' [normalize_remote_path path]"

definition build_remote_delete_command :: "string \<Rightarrow> bool \<Rightarrow> string" where
  "build_remote_delete_command path recursive =
     (let script =
        (if recursive then source_exists_check @ ''rm -rf -- \"$1\"''
         else source_exists_check @
           ''if [ -d \"$1\" ] && [ ! -L \"$1\" ]; then rmdir -- \"$1\"; else rm -f -- \"$1\"; fi'')
      in remote_file_command script [normalize_remote_path path])"

definition build_remote_rename_command :: "string \<Rightarrow> string \<Rightarrow> string" where
  "build_remote_rename_command src target =
     remote_file_command (source_exists_check @ target_not_directory_check @ ''mv -- \"$1\" \"$2\"'')
       [normalize_remote_path src, normalize_remote_path target]"

definition staging_file_check :: string where
  "staging_file_check =
     ''[ -f \"$1\" ] && [ ! -L \"$1\" ] || { '' @ report ''staging file missing or not regular: $1'' @ ''; exit 1; }; ''"

definition target_not_symlink_check :: string where
  "target_not_symlink_check =
     ''if [ -L \"$2\" ]; then '' @ report ''target is a symlink: $2'' @ ''; exit 1; fi; ''"

definition target_absent_check :: string where
  "target_absent_check = ''if [ -e \"$2\" ]; then '' @ report_marked ''target exists: $2'' @ ''; exit 17; fi; ''"

definition build_remote_replace_command :: "string \<Rightarrow> string \<Rightarrow> bool \<Rightarrow> string" where
  "build_remote_replace_command src target overwrite =
     (let script =
        (if overwrite then
           staging_file_check @ target_not_symlink_check @
           ''if [ -e \"$2\" ]; then [ -f \"$2\" ] || { '' @ report ''target is not a regular file: $2'' @ ''; exit 1; }; '' @
           ''chmod --reference=\"$2\" \"$1\" 2>/dev/null || true; chown --reference=\"$2\" \"$1\" 2>/dev/null || true; '' @
           ''if command -v getfacl >/dev/null 2>&1 && command -v setfacl >/dev/null 2>&1; then '' @
           ''getfacl -cp -- \"$2\" 2>/dev/null | setfacl --set-file=- -- \"$1\" 2>/dev/null || true; fi; '' @
           ''cp --attributes-only --preserve=xattr -- \"$2\" \"$1\" 2>/dev/null || true; fi; '' @
           ''touch -m -- \"$1\" && mv -f -- \"$1\" \"$2\"''
         else
           staging_file_check @ target_not_symlink_check @ target_absent_check @
           ''touch -m -- \"$1\" || exit 1; if ln -- \"$1\" \"$2\" 2>/dev/null; then rm -f -- \"$1\"; exit 0; fi; '' @
           target_not_symlink_check @ target_absent_check @
           report ''cannot commit the staging file atomically: $1'' @ ''; exit 1'')
      in remote_file_command script [normalize_remote_path src, normalize_remote_path target])"

definition build_remote_copy_command :: "string \<Rightarrow> string \<Rightarrow> string" where
  "build_remote_copy_command src target =
     remote_file_command
       (source_exists_check @
        ''if [ -d \"$1\" ] && [ ! -L \"$1\" ]; then mkdir -p -- \"$2\" && cp -a -- \"$1\"/. \"$2\"/; else '' @
        target_not_directory_check @ ''cp -a -- \"$1\" \"$2\"; fi'')
       [normalize_remote_path src, normalize_remote_path target]"

definition build_remote_find_command :: "string \<Rightarrow> string \<Rightarrow> string" where
  "build_remote_find_command base_path keyword =
     (let pattern = ''*'' @ keyword @ ''*'' in
      ''command -v find >/dev/null 2>&1 && find '' @ shell_quote (normalize_remote_path base_path) @
      '' -iname '' @ shell_quote pattern @ '' -print -quit 2>/dev/null'')"

record command_output =
  co_stdout :: string
  co_stderr :: string
  co_exit_status :: "32 word option"
  co_timed_out :: bool

definition ensure_remote_file_command_success :: "command_output \<Rightarrow> string \<Rightarrow> unit app_result" where
  "ensure_remote_file_command_success result action =
     (if co_timed_out result then Inl (Remote (action @ '' timed out''))
      else if (case co_exit_status result of Some n \<Rightarrow> n | None \<Rightarrow> 1) = 0 then Inr ()
      else
        (let first = (case str_lines (trim (co_stderr result)) of
                        l # _ \<Rightarrow> Some l
                      | [] \<Rightarrow> (case str_lines (trim (co_stdout result)) of l # _ \<Rightarrow> Some l | [] \<Rightarrow> None));
             detail = (case first of
                         Some l \<Rightarrow> if l \<noteq> [] then l else ''command failed''
                       | None \<Rightarrow> ''command failed'')
         in Inl (Remote (action @ '' failed: '' @ detail))))"

definition search_remote_file_with_find :: "command_output app_result \<Rightarrow> string option app_result" where
  "search_remote_file_with_find r =
     (case r of
        Inl e \<Rightarrow> Inl e
      | Inr result \<Rightarrow>
          if co_timed_out result then Inr None
          else Inr (map_option normalize_remote_path
                 (List.find (\<lambda>line. line \<noteq> []) (map trim (str_lines (co_stdout result))))))"

section \<open>POSIX words\<close>

text \<open>The words of a simple command, by the quoting rules of the shell. \<open>None\<close>: a quote is not closed,
  or a character that is special to the shell (an operator, an expansion, a glob) stands outside quotes.
  The second argument is the word read so far, if one has begun.\<close>

definition sh_plain :: "char \<Rightarrow> bool" where
  "sh_plain c \<longleftrightarrow> c \<in> set ''abcdefghijklmnopqrstuvwxyzABCDEFGHIJKLMNOPQRSTUVWXYZ0123456789-._/,:+@%''"

definition end_word :: "string option \<Rightarrow> string list \<Rightarrow> string list" where
  "end_word w ws = (case w of None \<Rightarrow> ws | Some u \<Rightarrow> u # ws)"

definition add_char :: "string option \<Rightarrow> char \<Rightarrow> string option" where
  "add_char w c = Some ((case w of None \<Rightarrow> [] | Some u \<Rightarrow> u) @ [c])"

fun sh_lex :: "bool \<Rightarrow> string option \<Rightarrow> string \<Rightarrow> string list option" where
  "sh_lex True w [] = None"
| "sh_lex False w [] = Some (end_word w [])"
| "sh_lex True w (c # cs) =
     (if c = CHR 0x27 then sh_lex False w cs else sh_lex True (add_char w c) cs)"
| "sh_lex False w (c # cs) =
     (if c = CHR '' '' then map_option (end_word w) (sh_lex False None cs)
      else if c = CHR 0x27 then sh_lex True (Some (case w of None \<Rightarrow> [] | Some u \<Rightarrow> u)) cs
      else if c = CHR 0x5C
      then (case cs of [] \<Rightarrow> None | d # ds \<Rightarrow> sh_lex False (add_char w d) ds)
      else if sh_plain c then sh_lex False (add_char w c) cs
      else None)"

definition sh_words :: "string \<Rightarrow> string list option" where
  "sh_words s = sh_lex False None s"

lemma lex_quoted_body:
  "sh_lex True (Some u) (replace_str [CHR 0x27] [CHR 0x27, CHR 0x5C, CHR 0x27, CHR 0x27] v @ CHR 0x27 # rest)
   = sh_lex False (Some (u @ v)) rest"
  unfolding replace_char by (induction v arbitrary: u) (simp_all add: add_char_def)

lemma lex_shell_quote:
  "sh_lex False w (shell_quote v @ rest) = sh_lex False (Some ((case w of None \<Rightarrow> [] | Some u \<Rightarrow> u) @ v)) rest"
  unfolding shell_quote_def by (simp add: lex_quoted_body)

lemma lex_plain: "(\<forall>c\<in>set p. sh_plain c) \<Longrightarrow>
   sh_lex False (Some u) (p @ rest) = sh_lex False (Some (u @ p)) rest"
  by (induction p arbitrary: u) (auto simp: sh_plain_def add_char_def)

lemma lex_args:
  "sh_lex False (Some u) (concat (map (\<lambda>a. '' '' @ shell_quote a) args)) = Some (u # args)"
  by (induction args arbitrary: u) (simp_all add: end_word_def lex_shell_quote)

lemmas lex_args' = lex_args [simplified]

lemma foldl_concat: "foldl (\<lambda>c a. c @ f a) z xs = z @ concat (map f xs)"
  by (induction xs arbitrary: z) auto

lemma remote_file_command_words_eq:
  "sh_words (remote_file_command script args) = Some ([''sh'', ''-lc'', script, ''sh''] @ args)"
proof -
  have "sh_words (''sh -lc '' @ shell_quote script @ '' sh'' @ rest)
      = map_option (\<lambda>ws. ''sh'' # ''-lc'' # script # ws) (sh_lex False (Some ''sh'') rest)" for rest
    by (simp add: sh_words_def sh_plain_def add_char_def end_word_def lex_shell_quote option.map_comp comp_def)
  then show ?thesis
    unfolding remote_file_command_def foldl_concat by (simp add: lex_args')
qed

text \<open>C22: a remote file command reads back, word by word, as what was meant, whatever quotes, operators,
  expansions or newlines the paths contain: the server's shell runs \<open>sh -lc script sh\<close> with exactly the
  given arguments, and nothing of an argument is interpreted.\<close>

theorem remote_file_command_words:
  "sh_words (remote_file_command script args) = Some ([''sh'', ''-lc'', script, ''sh''] @ args)"
  by (rule remote_file_command_words_eq)

lemma find_command_words:
  "\<exists>pre post. build_remote_find_command base keyword = pre @ mid @ post
     \<and> pre = ''command -v find >/dev/null 2>&1 && '' \<and> post = '' 2>/dev/null''
     \<and> sh_words mid = Some [''find'', normalize_remote_path base, ''-iname'', ''*'' @ keyword @ ''*'',
          ''-print'', ''-quit'']"
  if "mid = ''find '' @ shell_quote (normalize_remote_path base) @ '' -iname ''
        @ shell_quote (''*'' @ keyword @ ''*'') @ '' -print -quit''"
  using that
  by (simp add: build_remote_find_command_def Let_def sh_words_def sh_plain_def add_char_def end_word_def
      lex_shell_quote)

section \<open>Paths, by their components\<close>

lemma normalize_parts: "normalize_remote_path p = ''/'' @ join_with ''/'' (norm_parts p)"
  by (simp add: normalize_remote_path_def Let_def)

lemma norm_parts_normalize [simp]: "norm_parts (normalize_remote_path p) = norm_parts p"
  unfolding normalize_parts by (rule norm_parts_rooted) (blast intro: norm_parts_plain)

lemma normalize_idem [simp]: "normalize_remote_path (normalize_remote_path p) = normalize_remote_path p"
  by (metis norm_parts_normalize normalize_parts)

lemma join_nonempty: "(\<forall>w\<in>set ws. w \<noteq> []) \<Longrightarrow> join_with sep ws = [] \<longleftrightarrow> ws = []"
  by (cases "(sep, ws)" rule: join_with.cases) auto

lemma normalize_root_iff [simp]: "normalize_remote_path p = ''/'' \<longleftrightarrow> norm_parts p = []"
  using join_nonempty [of "norm_parts p" "''/''"] norm_parts_plain [of _ p]
  by (auto simp: normalize_parts plain_part_def)

lemma normalize_eq_iff: "normalize_remote_path p = normalize_remote_path q \<longleftrightarrow> norm_parts p = norm_parts q"
  by (metis norm_parts_normalize normalize_parts)

lemma join_with_append:
  "us \<noteq> [] \<Longrightarrow> vs \<noteq> [] \<Longrightarrow> join_with sep (us @ vs) = join_with sep us @ sep @ join_with sep vs"
proof (induction us)
  case (Cons u us)
  then show ?case by (cases us; cases vs) auto
qed simp

lemma join_prefix_split:
  assumes "ps \<noteq> []" "\<forall>w\<in>set ps. CHR ''/'' \<notin> set w" "\<forall>w\<in>set qs. CHR ''/'' \<notin> set w"
    and "join_with ''/'' qs = join_with ''/'' ps @ ''/'' @ r"
  shows "\<exists>rs. qs = ps @ rs \<and> rs \<noteq> []"
proof -
  have "qs \<noteq> []" using assms(4) by auto
  then have "qs = split_on (CHR ''/'') (join_with ''/'' ps @ ''/'' @ r)"
    using split_on_join [of qs "CHR ''/''"] assms(3,4) by metis
  also have "\<dots> = ps @ split_on (CHR ''/'') r"
    using assms(1,2)
  proof (induction ps)
    case (Cons w ws)
    show ?case
    proof (cases "ws = []")
      case True
      then show ?thesis using Cons.prems split_on_append [of "CHR ''/''" w r] by simp
    next
      case False
      then obtain v vs where ws: "ws = v # vs" by (cases ws) auto
      have "join_with ''/'' (w # ws) @ ''/'' @ r = w @ CHR ''/'' # (join_with ''/'' ws @ ''/'' @ r)"
        by (simp add: ws)
      moreover have "split_on (CHR ''/'') (join_with ''/'' ws @ ''/'' @ r) = ws @ split_on (CHR ''/'') r"
        using Cons.IH Cons.prems False by simp
      ultimately show ?thesis
        using split_on_append [of "CHR ''/''" w "join_with ''/'' ws @ ''/'' @ r"] Cons.prems by simp
    qed
  qed simp
  finally show ?thesis using split_on_not_Nil by blast
qed

text \<open>The string test for a child is the prefix relation on components.\<close>

lemma is_same_or_child_iff:
  "is_same_or_child_remote_path parent candidate \<longleftrightarrow>
     norm_parts parent = norm_parts candidate
     \<or> (norm_parts parent \<noteq> [] \<and> prefix (norm_parts parent) (norm_parts candidate))"
proof -
  let ?p = "norm_parts parent" and ?c = "norm_parts candidate"
  have noslash: "\<forall>w\<in>set ?p. CHR ''/'' \<notin> set w" "\<forall>w\<in>set ?c. CHR ''/'' \<notin> set w"
    using norm_parts_plain by (auto simp: plain_part_def)
  have "starts_with (normalize_remote_path parent @ ''/'') (normalize_remote_path candidate)
      \<longleftrightarrow> (\<exists>rs. ?c = ?p @ rs \<and> rs \<noteq> [])" if ne: "?p \<noteq> []"
  proof
    assume "starts_with (normalize_remote_path parent @ ''/'') (normalize_remote_path candidate)"
    then obtain r where "join_with ''/'' ?c = join_with ''/'' ?p @ ''/'' @ r"
      by (auto simp: starts_with_iff normalize_parts)
    from join_prefix_split [OF ne noslash this] show "\<exists>rs. ?c = ?p @ rs \<and> rs \<noteq> []" .
  next
    assume "\<exists>rs. ?c = ?p @ rs \<and> rs \<noteq> []"
    then obtain rs where "?c = ?p @ rs" "rs \<noteq> []" by blast
    then show "starts_with (normalize_remote_path parent @ ''/'') (normalize_remote_path candidate)"
      using join_with_append [OF ne] by (auto simp: starts_with_iff normalize_parts)
  qed
  moreover have "prefix ?p ?c \<longleftrightarrow> ?p = ?c \<or> (\<exists>rs. ?c = ?p @ rs \<and> rs \<noteq> [])"
    by (auto simp: prefix_def)
  ultimately show ?thesis
    by (auto simp: is_same_or_child_remote_path_def Let_def normalize_eq_iff)
qed

end
