(* ===== verification/Sftp_Search.thy ===== *)
theory Sftp_Search
  imports Sftp_Commands
begin

text \<open>
  The directory search of \<open>RemoteRuntime::sftp\_search\_file\<close> (\<open>remote/runtime\_sftp.rs\<close>): breadth first, in
  batches of concurrent reads, with limits on directories and entries. The server is the function
  \<open>read\_dir\<close>, which is asked at most once for a directory; \<open>lower\<close> is \<open>str::to\_lowercase\<close>.
\<close>

definition MAX_SFTP_SEARCH_CONCURRENCY :: nat where "MAX_SFTP_SEARCH_CONCURRENCY = 12"
definition MAX_SFTP_SEARCH_DIRS :: nat where "MAX_SFTP_SEARCH_DIRS = 800"
definition MAX_SFTP_SEARCH_ENTRIES :: nat where "MAX_SFTP_SEARCH_ENTRIES = 6000"

datatype remote_file_type = FtDirectory | FtFile | FtSymlink | FtOther

record search_entry =
  sx_name :: string
  sx_path :: string
  sx_is_directory :: bool

definition new_search_entry :: "string \<Rightarrow> string \<times> remote_file_type \<Rightarrow> search_entry" where
  "new_search_entry parent e =
     \<lparr>sx_name = fst e, sx_path = join_remote_path parent (fst e), sx_is_directory = (snd e = FtDirectory)\<rparr>"

type_synonym read_dir = "string \<Rightarrow> (string \<times> remote_file_type) list option"

text \<open>The inner loop: up to \<open>n\<close> directories not visited yet leave the queue.\<close>

fun take_batch :: "nat \<Rightarrow> string list \<Rightarrow> string list \<Rightarrow> string list \<times> string list \<times> string list" where
  "take_batch 0 queue visited = ([], queue, visited)"
| "take_batch (Suc n) [] visited = ([], [], visited)"
| "take_batch (Suc n) (d # queue) visited =
     (if d \<in> set visited then take_batch (Suc n) queue visited
      else (case take_batch n queue (visited @ [d]) of (batch, q, v) \<Rightarrow> (d # batch, q, v)))"

text \<open>The entries of one directory: a match ends the search, else subdirectories are queued.\<close>

fun scan_entries ::
  "(string \<Rightarrow> string) \<Rightarrow> string \<Rightarrow> string list \<Rightarrow> string \<Rightarrow> search_entry list \<Rightarrow> string list \<Rightarrow> nat
   \<Rightarrow> string option \<times> string list \<times> nat" where
  "scan_entries lower keyword visited directory [] queue scanned = (None, queue, scanned)"
| "scan_entries lower keyword visited directory (e # es) queue scanned =
     (if contains keyword (lower (sx_name e)) then (Some (sx_path e), queue, scanned + 1)
      else
        (let queue' = (if sx_is_directory e \<and> sx_path e \<noteq> directory \<and> sx_path e \<notin> set visited
                       then queue @ [sx_path e] else queue)
         in if scanned + 1 \<ge> MAX_SFTP_SEARCH_ENTRIES then (None, queue', scanned + 1)
            else scan_entries lower keyword visited directory es queue' (scanned + 1)))"

fun scan_batch ::
  "(string \<Rightarrow> string) \<Rightarrow> read_dir \<Rightarrow> string \<Rightarrow> string list \<Rightarrow> string list \<Rightarrow> string list \<Rightarrow> nat
   \<Rightarrow> string option \<times> string list \<times> nat" where
  "scan_batch lower read_dir keyword visited [] queue scanned = (None, queue, scanned)"
| "scan_batch lower read_dir keyword visited (d # ds) queue scanned =
     (case read_dir d of
        None \<Rightarrow> scan_batch lower read_dir keyword visited ds queue scanned
      | Some es \<Rightarrow>
          (case scan_entries lower keyword visited d (map (new_search_entry d) es) queue scanned of
             (Some p, q, s) \<Rightarrow> (Some p, q, s)
           | (None, q, s) \<Rightarrow> scan_batch lower read_dir keyword visited ds q s))"

lemma take_batch_length:
  "take_batch n queue visited = (batch, q, v) \<Longrightarrow>
     v = visited @ batch \<and> length batch \<le> n \<and> distinct batch \<and> set batch \<inter> set visited = {}
     \<and> set queue \<subseteq> set v \<union> set q \<and> set q \<subseteq> set queue \<and> set batch \<subseteq> set queue \<and> (batch = [] \<and> 0 < n \<longrightarrow> q = [])"
proof (induction n queue visited arbitrary: batch q v rule: take_batch.induct)
  case (3 n d queue visited)
  show ?case
  proof (cases "d \<in> set visited")
    case True
    then have t: "take_batch (Suc n) queue visited = (batch, q, v)" using "3.prems" by simp
    from "3.IH"(1) [OF True t] show ?thesis using True by auto
  next
    case False
    obtain b' where b: "take_batch n queue (visited @ [d]) = (b', q, v)" "batch = d # b'"
      using "3.prems" False by (auto split: prod.splits)
    from "3.IH"(2) [OF False b(1)] show ?thesis using b(2) False by auto
  qed
qed auto

lemma batch_shrinks:
  assumes "b \<noteq> []" and "\<not> m \<le> length v"
  shows "m - (length v + length b) < m - length v"
  using assms by (cases b) auto

text \<open>The loop, with the directories read and the number of entries seen beside the result.\<close>

function search_loop ::
  "(string \<Rightarrow> string) \<Rightarrow> read_dir \<Rightarrow> string \<Rightarrow> string list \<Rightarrow> string list \<Rightarrow> nat
   \<Rightarrow> string option \<times> string list \<times> nat" where
  "search_loop lower read_dir keyword queue visited scanned =
     (if queue = [] \<or> length visited \<ge> MAX_SFTP_SEARCH_DIRS \<or> scanned \<ge> MAX_SFTP_SEARCH_ENTRIES
      then (None, visited, scanned)
      else
        (case take_batch MAX_SFTP_SEARCH_CONCURRENCY queue visited of
           (batch, q, v) \<Rightarrow>
             if batch = [] then search_loop lower read_dir keyword q v scanned
             else
               (case scan_batch lower read_dir keyword v batch q scanned of
                  (Some p, q', s) \<Rightarrow> (Some p, v, s)
                | (None, q', s) \<Rightarrow> search_loop lower read_dir keyword q' v s)))"
  by pat_completeness auto
termination
proof (relation "measures [\<lambda>(l, r, k, queue, visited, s). MAX_SFTP_SEARCH_DIRS - length visited,
                           \<lambda>(l, r, k, queue, visited, s). length queue]")
qed (auto dest!: take_batch_length [OF sym] simp: MAX_SFTP_SEARCH_CONCURRENCY_def batch_shrinks)

declare search_loop.simps [simp del]

definition search_keyword :: "(string \<Rightarrow> string) \<Rightarrow> string \<Rightarrow> string" where
  "search_keyword lower query = lower (trim query)"

text \<open>\<open>sftp\_search\_file\<close>: an empty query finds nothing; then \<open>find\<close> on the server (if it gives a path), then
  the walk. \<open>with\_find\<close> is \<open>None\<close> when the connection is gone.\<close>

definition sftp_search_file ::
  "(string \<Rightarrow> string) \<Rightarrow> read_dir \<Rightarrow> command_output app_result option \<Rightarrow> bool \<Rightarrow> string \<Rightarrow> string
   \<Rightarrow> string option app_result" where
  "sftp_search_file lower read_dir with_find live base_path query =
     (let keyword = search_keyword lower query in
      if keyword = [] then Inr None
      else if \<not> live then Inl missing_sftp
      else
        (let base = normalize_remote_path base_path;
             found = (case with_find of
                        None \<Rightarrow> None
                      | Some r \<Rightarrow> (case search_remote_file_with_find r of Inr p \<Rightarrow> p | Inl e \<Rightarrow> None))
         in case found of
              Some path \<Rightarrow> Inr (Some path)
            | None \<Rightarrow> Inr (fst (search_loop lower read_dir keyword [base] [] 0))))"

section \<open>Bounds and completeness\<close>

definition matches_in :: "(string \<Rightarrow> string) \<Rightarrow> read_dir \<Rightarrow> string \<Rightarrow> string \<Rightarrow> string \<Rightarrow> bool" where
  "matches_in lower read_dir keyword d p \<longleftrightarrow>
     (\<exists>es n t. read_dir d = Some es \<and> (n, t) \<in> set es \<and> p = join_remote_path d n \<and> contains keyword (lower n))"

definition subdirectory :: "read_dir \<Rightarrow> string \<Rightarrow> string \<Rightarrow> bool" where
  "subdirectory read_dir d p \<longleftrightarrow>
     (\<exists>es n. read_dir d = Some es \<and> (n, FtDirectory) \<in> set es \<and> p = join_remote_path d n)"

text \<open>Nothing in \<open>d\<close> matches, and its subdirectories are known.\<close>

definition dir_done :: "(string \<Rightarrow> string) \<Rightarrow> read_dir \<Rightarrow> string \<Rightarrow> string set \<Rightarrow> string \<Rightarrow> bool" where
  "dir_done lower read_dir keyword known d \<longleftrightarrow>
     (\<forall>p. \<not> matches_in lower read_dir keyword d p) \<and>
     (\<forall>p. subdirectory read_dir d p \<longrightarrow> p = d \<or> p \<in> known)"

lemma dir_done_mono: "dir_done l rd k S d \<Longrightarrow> S \<subseteq> T \<Longrightarrow> dir_done l rd k T d"
  by (auto simp: dir_done_def)

lemma scan_entries_spec:
  "scan_entries lower keyword visited d es queue scanned = (r, q, s) \<Longrightarrow>
     s \<le> max (scanned + 1) MAX_SFTP_SEARCH_ENTRIES \<and> scanned \<le> s \<and> set queue \<subseteq> set q
     \<and> (\<forall>p. r = Some p \<longrightarrow> (\<exists>e\<in>set es. p = sx_path e \<and> contains keyword (lower (sx_name e))))
     \<and> (r = None \<and> s < MAX_SFTP_SEARCH_ENTRIES \<longrightarrow>
          (\<forall>e\<in>set es. \<not> contains keyword (lower (sx_name e)) \<and>
             (sx_is_directory e \<longrightarrow> sx_path e = d \<or> sx_path e \<in> set visited \<union> set q)))"
proof (induction lower keyword visited d es queue scanned rule: scan_entries.induct)
  case (2 lower keyword visited d e es queue scanned)
  let ?q = "if sx_is_directory e \<and> sx_path e \<noteq> d \<and> sx_path e \<notin> set visited then queue @ [sx_path e] else queue"
  consider "contains keyword (lower (sx_name e))"
    | "\<not> contains keyword (lower (sx_name e))" "scanned + 1 \<ge> MAX_SFTP_SEARCH_ENTRIES"
    | "\<not> contains keyword (lower (sx_name e))" "\<not> scanned + 1 \<ge> MAX_SFTP_SEARCH_ENTRIES" by blast
  then show ?case
  proof cases
    case 3
    then have rec: "scan_entries lower keyword visited d es ?q (scanned + 1) = (r, q, s)"
      using "2.prems" by (simp add: Let_def)
    from "2.IH" [OF 3(1) refl 3(2) rec] 3 show ?thesis
      by (auto split: if_splits)
  qed (use "2.prems" in \<open>auto simp: Let_def split: if_splits\<close>)
qed auto

lemma scan_batch_spec:
  "scan_batch lower rd keyword visited ds queue scanned = (r, q, s) \<Longrightarrow>
     s \<le> max scanned MAX_SFTP_SEARCH_ENTRIES + length ds \<and> scanned \<le> s \<and> set queue \<subseteq> set q
     \<and> (scanned < MAX_SFTP_SEARCH_ENTRIES \<longrightarrow> s < MAX_SFTP_SEARCH_ENTRIES + max 1 (length ds))
     \<and> (\<forall>p. r = Some p \<longrightarrow> (\<exists>d\<in>set ds. matches_in lower rd keyword d p))
     \<and> (r = None \<and> s < MAX_SFTP_SEARCH_ENTRIES \<longrightarrow>
          (\<forall>d\<in>set ds. dir_done lower rd keyword (set visited \<union> set q) d))"
proof (induction lower rd keyword visited ds queue scanned rule: scan_batch.induct)
  case (2 lower rd keyword visited d ds queue scanned)
  show ?case
  proof (cases "rd d")
    case None
    then have rec: "scan_batch lower rd keyword visited ds queue scanned = (r, q, s)" using "2.prems" by simp
    have "dir_done lower rd keyword T d" for T
      using None by (simp add: dir_done_def matches_in_def subdirectory_def)
    with "2.IH"(1) [OF None rec] show ?thesis by auto
  next
    case (Some es)
    obtain r1 q1 s1 where e: "scan_entries lower keyword visited d (map (new_search_entry d) es) queue scanned = (r1, q1, s1)"
      by (metis prod.exhaust)
    note sp = scan_entries_spec [OF e]
    show ?thesis
    proof (cases r1)
      case None
      then have rec: "scan_batch lower rd keyword visited ds q1 s1 = (r, q, s)" using "2.prems" Some e by simp
      have ih: "s \<le> max s1 MAX_SFTP_SEARCH_ENTRIES + length ds \<and> s1 \<le> s \<and> set q1 \<subseteq> set q
         \<and> (s1 < MAX_SFTP_SEARCH_ENTRIES \<longrightarrow> s < MAX_SFTP_SEARCH_ENTRIES + max 1 (length ds))
         \<and> (\<forall>p. r = Some p \<longrightarrow> (\<exists>d\<in>set ds. matches_in lower rd keyword d p))
         \<and> (r = None \<and> s < MAX_SFTP_SEARCH_ENTRIES \<longrightarrow>
              (\<forall>d\<in>set ds. dir_done lower rd keyword (set visited \<union> set q) d))"
        using "2.IH"(2) [OF Some _ _ _ rec] e None by auto
      have dd: "dir_done lower rd keyword (set visited \<union> set q) d" if "s < MAX_SFTP_SEARCH_ENTRIES"
      proof -
        have "s1 < MAX_SFTP_SEARCH_ENTRIES" using that ih by linarith
        then have "\<forall>x\<in>set es. \<not> contains keyword (lower (fst x)) \<and>
            (snd x = FtDirectory \<longrightarrow> join_remote_path d (fst x) = d \<or> join_remote_path d (fst x) \<in> set visited \<union> set q1)"
          using sp None by (auto simp: new_search_entry_def)
        then show ?thesis
          using Some ih unfolding dir_done_def matches_in_def subdirectory_def by fastforce
      qed
      have len: "s < MAX_SFTP_SEARCH_ENTRIES + max 1 (length (d # ds))" if "scanned < MAX_SFTP_SEARCH_ENTRIES"
      proof -
        have "s1 \<le> MAX_SFTP_SEARCH_ENTRIES" using sp that by simp
        then show ?thesis using ih by simp
      qed
      have "s \<le> max s1 MAX_SFTP_SEARCH_ENTRIES + length ds" "s1 \<le> max (scanned + 1) MAX_SFTP_SEARCH_ENTRIES"
        using ih sp by blast+
      then have "s \<le> max scanned MAX_SFTP_SEARCH_ENTRIES + length (d # ds)"
        by (auto simp: max_def split: if_splits)
      moreover have "scanned \<le> s" "set queue \<subseteq> set q" using ih sp by auto
      ultimately show ?thesis using ih len dd by auto
    next
      case found: (Some p)
      then have "r = Some p" "q = q1" "s = s1" using "2.prems" Some e by auto
      moreover have "matches_in lower rd keyword d p"
        using sp found Some unfolding matches_in_def by (auto simp: new_search_entry_def)
      ultimately show ?thesis using sp by auto
    qed
  qed
qed auto

lemma search_loop_spec:
  "search_loop lower rd keyword queue visited scanned = (r, v, s) \<Longrightarrow>
   distinct visited \<Longrightarrow> length visited < MAX_SFTP_SEARCH_DIRS + 12 \<Longrightarrow> scanned < MAX_SFTP_SEARCH_ENTRIES + 12 \<Longrightarrow>
   (scanned < MAX_SFTP_SEARCH_ENTRIES \<longrightarrow>
      (\<forall>d\<in>set visited. dir_done lower rd keyword (set visited \<union> set queue) d)) \<Longrightarrow>
   distinct v \<and> length v < MAX_SFTP_SEARCH_DIRS + 12 \<and> s < MAX_SFTP_SEARCH_ENTRIES + 12
   \<and> set visited \<subseteq> set v
   \<and> (\<forall>p. r = Some p \<longrightarrow> (\<exists>d\<in>set v. matches_in lower rd keyword d p))
   \<and> (r = None \<and> length v < MAX_SFTP_SEARCH_DIRS \<and> s < MAX_SFTP_SEARCH_ENTRIES \<longrightarrow>
        set queue \<subseteq> set v \<and> (\<forall>d\<in>set v. dir_done lower rd keyword (set v) d))"
proof (induction lower rd keyword queue visited scanned rule: search_loop.induct)
  case (1 lower rd keyword queue visited scanned)
  let ?stop = "queue = [] \<or> length visited \<ge> MAX_SFTP_SEARCH_DIRS \<or> scanned \<ge> MAX_SFTP_SEARCH_ENTRIES"
  show ?case
  proof (cases ?stop)
    case True
    then have "r = None" "v = visited" "s = scanned" using "1.prems"(1) by (auto simp: search_loop.simps)
    then show ?thesis using "1.prems" True by auto
  next
    case go: False
    obtain batch q1 v1 where tb: "take_batch MAX_SFTP_SEARCH_CONCURRENCY queue visited = (batch, q1, v1)"
      by (metis prod.exhaust)
    note b = take_batch_length [OF tb]
    have v1: "distinct v1" "length v1 < MAX_SFTP_SEARCH_DIRS + 12" "set visited \<subseteq> set v1"
      using b "1.prems"(2) go by (auto simp: MAX_SFTP_SEARCH_CONCURRENCY_def)
    have sub: "set visited \<union> set queue \<subseteq> set v1 \<union> set q1" using b by auto
    have old: "\<forall>d\<in>set visited. dir_done lower rd keyword (set v1 \<union> set q1) d"
      using "1.prems"(5) go dir_done_mono [OF _ sub] by auto
    show ?thesis
    proof (cases "batch = []")
      case True
      then have rec: "search_loop lower rd keyword q1 v1 scanned = (r, v, s)"
        using "1.prems"(1) go tb by (simp add: search_loop.simps [of lower rd keyword queue])
      have "v1 = visited" using b True by simp
      with "1.IH"(1) [OF go _ refl True rec] tb v1 old "1.prems" b True show ?thesis
        by (auto simp: MAX_SFTP_SEARCH_CONCURRENCY_def)
    next
      case False
      obtain r2 q2 s2 where sb: "scan_batch lower rd keyword v1 batch q1 scanned = (r2, q2, s2)"
        by (metis prod.exhaust)
      note sp = scan_batch_spec [OF sb]
      have s2: "s2 < MAX_SFTP_SEARCH_ENTRIES + 12"
        using sp go b by (auto simp: MAX_SFTP_SEARCH_CONCURRENCY_def)
      show ?thesis
      proof (cases r2)
        case (Some p)
        then have "r = Some p" "v = v1" "s = s2"
          using "1.prems"(1) go tb False sb by (auto simp: search_loop.simps [of lower rd keyword queue])
        then show ?thesis using sp Some v1 s2 b by auto
      next
        case None
        then have rec: "search_loop lower rd keyword q2 v1 s2 = (r, v, s)"
          using "1.prems"(1) go tb False sb by (simp add: search_loop.simps [of lower rd keyword queue])
        have inv: "s2 < MAX_SFTP_SEARCH_ENTRIES \<longrightarrow>
            (\<forall>d\<in>set v1. dir_done lower rd keyword (set v1 \<union> set q2) d)"
          using old sp None b by (auto intro: dir_done_mono [where S = "set v1 \<union> set q1"])
        have ih: "distinct v \<and> length v < MAX_SFTP_SEARCH_DIRS + 12 \<and> s < MAX_SFTP_SEARCH_ENTRIES + 12
           \<and> set v1 \<subseteq> set v
           \<and> (\<forall>p. r = Some p \<longrightarrow> (\<exists>d\<in>set v. matches_in lower rd keyword d p))
           \<and> (r = None \<and> length v < MAX_SFTP_SEARCH_DIRS \<and> s < MAX_SFTP_SEARCH_ENTRIES \<longrightarrow>
                set q2 \<subseteq> set v \<and> (\<forall>d\<in>set v. dir_done lower rd keyword (set v) d))"
          using "1.IH"(2) [OF go tb [symmetric] refl False sb [symmetric] None refl rec v1(1,2) s2 inv] .
        moreover have "set visited \<subseteq> set v" using v1(3) ih by blast
        moreover have "set queue \<subseteq> set v1 \<union> set q2" using b sp by blast
        ultimately show ?thesis by blast
      qed
    qed
  qed
qed

text \<open>C24: the directory walk always ends; it reads no directory twice and at most 811 of them, looks at
  at most 6011 entries, and a path it gives is a matching entry of a directory it read. When it gives
  none and kept below its limits, the directories it read are closed under subdirectories, contain the
  start, and hold no match.\<close>

theorem sftp_search_bounded_complete:
  assumes "search_loop lower rd keyword [base] [] 0 = (r, v, s)"
  shows "distinct v \<and> length v \<le> 811 \<and> s \<le> 6011
    \<and> (\<forall>p. r = Some p \<longrightarrow> (\<exists>d\<in>set v. matches_in lower rd keyword d p))
    \<and> (r = None \<and> length v < 800 \<and> s < 6000 \<longrightarrow>
         base \<in> set v \<and> (\<forall>d\<in>set v. (\<forall>p. \<not> matches_in lower rd keyword d p)
           \<and> (\<forall>p. subdirectory rd d p \<longrightarrow> p \<in> set v)))"
  using search_loop_spec [OF assms]
  by (auto simp: MAX_SFTP_SEARCH_DIRS_def MAX_SFTP_SEARCH_ENTRIES_def dir_done_def)

definition demo_dirs :: read_dir where
  "demo_dirs d = (if d = ''/'' then Some [(''srv'', FtDirectory), (''a.txt'', FtFile)]
                  else if d = ''/srv'' then Some [(''notes.md'', FtFile)] else None)"

theorem sftp_search_bounded_complete_witness:
  "search_loop id demo_dirs ''note'' [''/''] [] 0 = (Some ''/srv/notes.md'', [''/'', ''/srv''], 3)
   \<and> (\<exists>d\<in>set [''/'', ''/srv'']. matches_in id demo_dirs ''note'' d ''/srv/notes.md'')"
proof -
  have s: "search_loop id demo_dirs ''note'' [''/''] [] 0 = (Some ''/srv/notes.md'', [''/'', ''/srv''], 3)"
    by code_simp
  from sftp_search_bounded_complete [OF s] s show ?thesis by blast
qed

end
