(* ===== verification/Sftp_Ops.thy ===== *)
theory Sftp_Ops
  imports Sftp_Search Utf8 Decimal
begin

text \<open>
  The file operations of \<open>remote/runtime\_sftp.rs\<close>. What the server answers is the argument \<open>sftp\_env\<close>; an
  operation returns the commands it ran, in order, the paths it announced as changed, and its result.
\<close>

definition MAX_TEXT_EDIT_BYTES :: nat where "MAX_TEXT_EDIT_BYTES = 10 * 1024 * 1024"

record file_attributes =
  fa_type :: remote_file_type
  fa_size :: nat
  fa_uid :: "nat option"
  fa_gid :: "nat option"
  fa_user :: "string option"
  fa_group :: "string option"
  fa_permissions :: "32 word option"
  fa_permission_text :: string
  fa_modified :: "string option"

record sftp_env =
  se_record :: "string app_result"
  se_exec :: "string \<Rightarrow> command_output app_result"
  se_metadata :: "string \<Rightarrow> file_attributes app_result"
  se_symlink_metadata :: "string \<Rightarrow> file_attributes app_result"
  se_try_exists :: "string \<Rightarrow> bool app_result"
  se_set_metadata :: "string \<Rightarrow> unit app_result"
  se_read :: "string \<Rightarrow> string app_result"
  se_write :: "string \<Rightarrow> string \<Rightarrow> unit app_result"

type_synonym 'a op_result = "(string list \<times> string list) \<times> 'a app_result"

section \<open>Directory entries\<close>

record remote_file_entry =
  re_key :: string
  re_name :: string
  re_path :: string
  re_file_type :: remote_file_type
  re_size :: nat
  re_modified_at :: string
  re_permissions :: string
  re_owner :: string

definition remote_entry :: "string \<Rightarrow> string \<Rightarrow> file_attributes \<Rightarrow> remote_file_entry" where
  "remote_entry parent name m =
     (let permissions =
            (case fa_type m of FtDirectory \<Rightarrow> ''d'' | FtSymlink \<Rightarrow> ''l'' | _ \<Rightarrow> ''-'') @ fa_permission_text m;
          id_text = (\<lambda>n. case n of None \<Rightarrow> ''-'' | Some k \<Rightarrow> dec_string k);
          user = (case fa_user m of Some u \<Rightarrow> u | None \<Rightarrow> id_text (fa_uid m));
          grp = (case fa_group m of Some g \<Rightarrow> g | None \<Rightarrow> id_text (fa_gid m))
      in \<lparr>re_key = join_remote_path parent name, re_name = name, re_path = join_remote_path parent name,
          re_file_type = fa_type m, re_size = fa_size m,
          re_modified_at = (case fa_modified m of None \<Rightarrow> [] | Some t \<Rightarrow> t),
          re_permissions = permissions, re_owner = user @ ''/'' @ grp\<rparr>)"

definition sftp_list ::
  "sftp_env \<Rightarrow> (string \<Rightarrow> (string \<times> file_attributes) list app_result) \<Rightarrow> string \<Rightarrow> remote_file_entry list app_result"
where
  "sftp_list env read_dir path =
     and_then (se_record env) (\<lambda>_.
       (let normalized = normalize_remote_path path in
        and_then (read_dir normalized) (\<lambda>entries.
          Inr (map (\<lambda>(name, m). remote_entry normalized name m) entries))))"

definition sftp_resolve_target :: "sftp_env \<Rightarrow> string \<Rightarrow> string \<Rightarrow> string \<Rightarrow> string app_result" where
  "sftp_resolve_target env current_path source_path value =
     and_then (se_record env) (\<lambda>_.
       (let target = resolve_remote_target_path current_path value;
            is_directory = (target = ''/'' \<or>
              (case se_symlink_metadata env target of Inr m \<Rightarrow> fa_type m = FtDirectory | Inl _ \<Rightarrow> False))
        in if is_directory
           then (let name = remote_base_name source_path in
                 if name = [] then Inr target
                 else Inr (normalize_remote_path (join_remote_path target name)))
           else Inr target))"

section \<open>Commands\<close>

definition run_sftp_file_command :: "sftp_env \<Rightarrow> string \<Rightarrow> string \<Rightarrow> string list \<times> unit app_result" where
  "run_sftp_file_command env command action =
     (case se_record env of
        Inl e \<Rightarrow> ([], Inl e)
      | Inr connection_id \<Rightarrow>
          ([command], and_then (se_exec env command) (\<lambda>out. ensure_remote_file_command_success out action)))"

definition then_changed :: "string list \<Rightarrow> string list \<times> unit app_result \<Rightarrow> unit op_result" where
  "then_changed paths r = (case r of
       (cmds, Inl e) \<Rightarrow> ((cmds, []), Inl e)
     | (cmds, Inr u) \<Rightarrow> ((cmds, paths), Inr u))"

definition sftp_mkdir :: "sftp_env \<Rightarrow> string \<Rightarrow> unit op_result" where
  "sftp_mkdir env path0 =
     (let path = normalize_remote_path path0 in
      then_changed [path] (run_sftp_file_command env (build_remote_mkdir_command path) ''create directory''))"

definition sftp_create_file :: "sftp_env \<Rightarrow> string \<Rightarrow> unit op_result" where
  "sftp_create_file env path0 =
     (let path = normalize_remote_path path0 in
      then_changed [path] (run_sftp_file_command env (build_remote_create_file_command path) ''create file''))"

definition sftp_delete :: "sftp_env \<Rightarrow> string \<Rightarrow> bool \<Rightarrow> unit op_result" where
  "sftp_delete env path0 recursive =
     (let path = normalize_remote_path path0 in
      case ensure_not_root_path path ''cannot delete the root'' of
        Inl e \<Rightarrow> (([], []), Inl e)
      | Inr _ \<Rightarrow> then_changed [path]
          (run_sftp_file_command env (build_remote_delete_command path recursive) ''delete''))"

definition sftp_rename :: "sftp_env \<Rightarrow> string \<Rightarrow> string \<Rightarrow> unit op_result" where
  "sftp_rename env from0 to0 =
     (let src = normalize_remote_path from0; target = normalize_remote_path to0 in
      case ensure_not_root_path src ''cannot move the root'' of
        Inl e \<Rightarrow> (([], []), Inl e)
      | Inr _ \<Rightarrow>
          if src = target then (([], []), Inr ())
          else (case ensure_not_same_or_child_path src target ''cannot move into itself'' of
                  Inl e \<Rightarrow> (([], []), Inl e)
                | Inr _ \<Rightarrow> then_changed [src, target]
                    (run_sftp_file_command env (build_remote_rename_command src target) ''move'')))"

definition sftp_copy :: "sftp_env \<Rightarrow> string \<Rightarrow> string \<Rightarrow> unit op_result" where
  "sftp_copy env from0 to0 =
     (let src = normalize_remote_path from0; target = normalize_remote_path to0 in
      case ensure_not_root_path src ''cannot copy the root'' of
        Inl e \<Rightarrow> (([], []), Inl e)
      | Inr _ \<Rightarrow>
          if src = target then (([], []), Inr ())
          else (case ensure_not_same_or_child_path src target ''cannot copy into itself'' of
                  Inl e \<Rightarrow> (([], []), Inl e)
                | Inr _ \<Rightarrow> then_changed [src, target]
                    (run_sftp_file_command env (build_remote_copy_command src target) ''copy'')))"

section \<open>Committing a staging file\<close>

text \<open>The result also says whether the attributes of the target were given to the staging file, and which.\<close>

definition preserved_attributes :: "file_attributes \<Rightarrow> nat option \<times> nat option \<times> 32 word option" where
  "preserved_attributes m = (fa_uid m, fa_gid m, map_option (\<lambda>mode. and mode 0xFFF) (fa_permissions m))"

definition replace_remote_file ::
  "sftp_env \<Rightarrow> string \<Rightarrow> string \<Rightarrow> bool
   \<Rightarrow> (string list \<times> (nat option \<times> nat option \<times> 32 word option) option) \<times> unit app_result" where
  "replace_remote_file env src target overwrite =
     (let commit = (\<lambda>attrs.
            let command = build_remote_replace_command src target overwrite in
            (([command], attrs),
             and_then (se_exec env command) (\<lambda>result.
               if \<not> overwrite \<and> (contains REMOTE_TARGET_EXISTS_MARKER (co_stderr result)
                                  \<or> contains REMOTE_TARGET_EXISTS_MARKER (co_stdout result))
               then Inl (TransferNeedsOverwrite target)
               else ensure_remote_file_command_success result ''replace remote file'')))
      in case se_record env of
           Inl e \<Rightarrow> (([], None), Inl e)
         | Inr _ \<Rightarrow>
        (case se_symlink_metadata env src of
           Inl e \<Rightarrow> (([], None), Inl e)
         | Inr staging \<Rightarrow>
             if fa_type staging \<noteq> FtFile
             then (([], None), Inl (Remote ''staging file is not a regular file''))
             else
               (case (case se_symlink_metadata env target of
                        Inr m \<Rightarrow> Inr (Some m)
                      | Inl metadata_error \<Rightarrow>
                          (case se_try_exists env target of
                             Inr False \<Rightarrow> Inr None
                           | Inr True \<Rightarrow> Inl metadata_error
                           | Inl exists_error \<Rightarrow> Inl exists_error)) of
                  Inl e \<Rightarrow> (([], None), Inl e)
                | Inr None \<Rightarrow> commit None
                | Inr (Some m) \<Rightarrow>
                    if fa_type m = FtSymlink
                    then (([], None), Inl (InvalidInput (''target is a symlink: '' @ target)))
                    else if fa_type m \<noteq> FtFile
                    then (([], None), Inl (InvalidInput (''target is not a regular file: '' @ target)))
                    else if \<not> overwrite then (([], None), Inl (TransferNeedsOverwrite target))
                    else (case se_set_metadata env src of
                            Inl e \<Rightarrow> (([], None), Inl e)
                          | Inr _ \<Rightarrow> commit (Some (preserved_attributes m))))))"

section \<open>Text files\<close>

definition sftp_read_text :: "sftp_env \<Rightarrow> string \<Rightarrow> string app_result" where
  "sftp_read_text env path0 =
     and_then (se_record env) (\<lambda>_.
       (let path = normalize_remote_path path0 in
        and_then (se_metadata env path) (\<lambda>m.
          if fa_size m > MAX_TEXT_EDIT_BYTES then Inl (InvalidInput ''file over 10MB'')
          else and_then (se_read env path) (\<lambda>bytes.
            (let text = take (fa_size m) bytes in
             if valid_utf8 text then Inr text else Inl (InvalidInput ''only UTF-8 text''))))))"

definition sftp_exists :: "sftp_env \<Rightarrow> string \<Rightarrow> bool app_result" where
  "sftp_exists env path =
     and_then (se_record env) (\<lambda>_. se_try_exists env (normalize_remote_path path))"

text \<open>The trace names the temporary file when it was removed again.\<close>

definition sftp_write_text ::
  "sftp_env \<Rightarrow> string \<Rightarrow> string \<Rightarrow> string \<Rightarrow> string option \<times> unit op_result" where
  "sftp_write_text env uuid path0 content =
     (case se_record env of
        Inl e \<Rightarrow> (None, (([], []), Inl e))
      | Inr _ \<Rightarrow>
          (let path = normalize_remote_path path0 in
           if length content > MAX_TEXT_EDIT_BYTES then (None, (([], []), Inl (InvalidInput ''file over 10MB'')))
           else
             (let temp_path = path @ ''.helm-'' @ uuid @ ''.part'';
                  (cmds, r) =
                    (case se_write env temp_path content of
                       Inl e \<Rightarrow> ([], Inl e)
                     | Inr _ \<Rightarrow>
                         (case se_metadata env temp_path of
                            Inl e \<Rightarrow> ([], Inl e)
                          | Inr m \<Rightarrow>
                              if fa_size m \<noteq> length content then ([], Inl (Remote ''size check failed''))
                              else (case replace_remote_file env temp_path path True of
                                      ((cs, _), res) \<Rightarrow> (cs, res))))
              in case r of
                   Inl e \<Rightarrow> (Some temp_path, ((cmds, []), Inl e))
                 | Inr u \<Rightarrow> (None, ((cmds, [path]), Inr u)))))"

section \<open>What the operations may do\<close>

lemma run_command_set:
  "cmd \<in> set (fst (fst (then_changed ps (run_sftp_file_command env command action)))) \<Longrightarrow> cmd = command"
  by (auto simp: then_changed_def run_sftp_file_command_def split: sum.splits)

lemma delete_words: "\<exists>script. sh_words (build_remote_delete_command p recursive)
    = Some [''sh'', ''-lc'', script, ''sh'', normalize_remote_path p]"
  by (simp add: build_remote_delete_command_def Let_def remote_file_command_words_eq)

lemma rename_words: "\<exists>script. sh_words (build_remote_rename_command p q)
    = Some [''sh'', ''-lc'', script, ''sh'', normalize_remote_path p, normalize_remote_path q]"
  by (simp add: build_remote_rename_command_def remote_file_command_words_eq)

lemma copy_words: "\<exists>script. sh_words (build_remote_copy_command p q)
    = Some [''sh'', ''-lc'', script, ''sh'', normalize_remote_path p, normalize_remote_path q]"
  by (simp add: build_remote_copy_command_def remote_file_command_words_eq)

text \<open>C23: a delete runs only a command whose one path argument is the canonical path it was asked for and
  is not the root; a move or copy runs only one whose source is not the root and whose target is neither
  the source nor inside it. However the paths are spelled (\<open>..\<close>, doubled slashes, quotes), the shell
  sees them as these arguments.\<close>

theorem sftp_destructive_commands_safe:
  "(cmd \<in> set (fst (fst (sftp_delete env p recursive))) \<longrightarrow>
      norm_parts p \<noteq> [] \<and>
      (\<exists>script. sh_words cmd = Some [''sh'', ''-lc'', script, ''sh'', normalize_remote_path p]))
   \<and> (cmd \<in> set (fst (fst (sftp_rename env a b))) \<union> set (fst (fst (sftp_copy env a b))) \<longrightarrow>
      norm_parts a \<noteq> [] \<and> \<not> prefix (norm_parts a) (norm_parts b) \<and>
      (\<exists>script. sh_words cmd = Some [''sh'', ''-lc'', script, ''sh'',
                                     normalize_remote_path a, normalize_remote_path b]))"
proof (intro conjI impI)
  assume d: "cmd \<in> set (fst (fst (sftp_delete env p recursive)))"
  then show "norm_parts p \<noteq> []"
    by (auto simp: sftp_delete_def Let_def ensure_not_root_path_def split: if_splits)
  from d have "cmd = build_remote_delete_command (normalize_remote_path p) recursive"
    by (auto simp: sftp_delete_def Let_def dest: run_command_set split: sum.splits)
  then show "\<exists>script. sh_words cmd = Some [''sh'', ''-lc'', script, ''sh'', normalize_remote_path p]"
    using delete_words [of "normalize_remote_path p"] by simp
next
  assume m: "cmd \<in> set (fst (fst (sftp_rename env a b))) \<union> set (fst (fst (sftp_copy env a b)))"
  then show "norm_parts a \<noteq> []"
    by (auto simp: sftp_rename_def sftp_copy_def Let_def ensure_not_root_path_def split: if_splits)
  with m show "\<not> prefix (norm_parts a) (norm_parts b)"
    by (auto simp: sftp_rename_def sftp_copy_def Let_def ensure_not_same_or_child_path_def
        is_same_or_child_iff split: if_splits sum.splits)
  from m have "cmd = build_remote_rename_command (normalize_remote_path a) (normalize_remote_path b)
      \<or> cmd = build_remote_copy_command (normalize_remote_path a) (normalize_remote_path b)"
    by (auto simp: sftp_rename_def sftp_copy_def Let_def dest: run_command_set split: sum.splits if_splits)
  then show "\<exists>script. sh_words cmd = Some [''sh'', ''-lc'', script, ''sh'',
      normalize_remote_path a, normalize_remote_path b]"
    using rename_words [of "normalize_remote_path a" "normalize_remote_path b"]
      copy_words [of "normalize_remote_path a" "normalize_remote_path b"] by auto
qed

definition demo_sftp :: sftp_env where
  "demo_sftp = \<lparr>se_record = Inr ''c1'', se_exec = (\<lambda>_. Inl (Remote ''down'')),
     se_metadata = (\<lambda>_. Inl (Remote ''down'')), se_symlink_metadata = (\<lambda>_. Inl (Remote ''down'')),
     se_try_exists = (\<lambda>_. Inr False), se_set_metadata = (\<lambda>_. Inr ()), se_read = (\<lambda>_. Inr []),
     se_write = (\<lambda>_ _. Inr ())\<rparr>"

theorem sftp_destructive_commands_safe_witness:
  "\<exists>cmd script. fst (fst (sftp_rename demo_sftp ''/a/./b'' ''//a/c;rm'')) = [cmd]
     \<and> sh_words cmd = Some [''sh'', ''-lc'', script, ''sh'', ''/a/b'', ''/a/c;rm'']
     \<and> \<not> prefix (norm_parts ''/a/./b'') (norm_parts ''//a/c;rm'')"
proof -
  have n: "normalize_remote_path ''/a/./b'' = ''/a/b''" "normalize_remote_path ''//a/c;rm'' = ''/a/c;rm''"
    by code_simp+
  let ?cmd = "build_remote_rename_command ''/a/b'' ''/a/c;rm''"
  have c: "fst (fst (sftp_rename demo_sftp ''/a/./b'' ''//a/c;rm'')) = [?cmd]"
    unfolding sftp_rename_def Let_def n ensure_not_root_path_def ensure_not_same_or_child_path_def
      is_same_or_child_iff
    by (simp add: demo_sftp_def run_sftp_file_command_def then_changed_def norm_parts_def push_part_def)
  then have "?cmd \<in> set (fst (fst (sftp_rename demo_sftp ''/a/./b'' ''//a/c;rm'')))" by simp
  with sftp_destructive_commands_safe [of ?cmd demo_sftp "''x''" False "''/a/./b''" "''//a/c;rm''"]
  show ?thesis using c n by auto
qed

text \<open>The commit command runs only when the staging file is regular and the target is absent or a regular
  file that may be overwritten; then the mode bits handed on are within 07777.\<close>

lemma replace_remote_file_guarded:
  assumes "replace_remote_file env src target overwrite = ((cmds, attrs), r)" "cmds \<noteq> []"
  shows "(\<exists>m. se_symlink_metadata env src = Inr m \<and> fa_type m = FtFile)
    \<and> ((\<exists>m. se_symlink_metadata env target = Inr m \<and> fa_type m = FtFile \<and> overwrite
            \<and> attrs = Some (preserved_attributes m))
       \<or> (\<exists>e. se_symlink_metadata env target = Inl e \<and> se_try_exists env target = Inr False \<and> attrs = None))"
  using assms by (auto simp: replace_remote_file_def Let_def split: sum.splits if_splits bool.splits)

lemma write_text_bounded:
  assumes "sftp_write_text env uuid path content = (tmp, ((cmds, changed), r))" "cmds \<noteq> []"
  shows "length content \<le> MAX_TEXT_EDIT_BYTES
    \<and> (\<exists>m. se_metadata env (normalize_remote_path path @ ''.helm-'' @ uuid @ ''.part'') = Inr m
           \<and> fa_size m = length content)"
  using assms
  by (auto simp: sftp_write_text_def Let_def split: sum.splits if_splits prod.splits)

end
