(* ===== verification/Byte_Strings.thy ===== *)
theory Byte_Strings
  imports Crypto Utf8
begin

text \<open>
  Text as bytes on the wire: \<open>as\_bytes\<close>, \<open>String::from\_utf8\<close>, \<open>String::from\_utf8\_lossy\<close> and big-endian
  numbers, for the components that speak a byte protocol.
\<close>

definition str_bytes :: "string \<Rightarrow> bytes" where
  "str_bytes s = map (\<lambda>c. of_nat (of_char c)) s"

definition bytes_str :: "bytes \<Rightarrow> string" where
  "bytes_str bs = map (\<lambda>b. char_of (unat b)) bs"

definition from_utf8 :: "bytes \<Rightarrow> string option" where
  "from_utf8 bs = (if valid_utf8 (bytes_str bs) then Some (bytes_str bs) else None)"

text \<open>How many bytes one replacement character stands for: the longest start of a well-formed character.\<close>

fun lossy_skip :: "string \<Rightarrow> nat" where
  "lossy_skip [] = 0"
| "lossy_skip (a # s) =
    (if byte_in 224 239 a then
       (case s of b # _ \<Rightarrow>
          if is_cont b \<and> (byte_of a = 224 \<longrightarrow> 160 \<le> byte_of b) \<and> (byte_of a = 237 \<longrightarrow> byte_of b \<le> 159)
          then 2 else 1
        | [] \<Rightarrow> 1)
     else if byte_in 240 244 a then
       (case s of b # t \<Rightarrow>
          if is_cont b \<and> (byte_of a = 240 \<longrightarrow> 144 \<le> byte_of b) \<and> (byte_of a = 244 \<longrightarrow> byte_of b \<le> 143)
          then (case t of c # _ \<Rightarrow> if is_cont c then 3 else 2 | [] \<Rightarrow> 2) else 1
        | [] \<Rightarrow> 1)
     else 1)"

function lossy :: "string \<Rightarrow> string" where
  "lossy [] = []"
| "lossy (a # s) =
    (let n = utf8_width (a # s) in
     if n > 0 then take n (a # s) @ lossy (drop n (a # s))
     else [CHR 0xEF, CHR 0xBF, CHR 0xBD] @ lossy (drop (max 1 (lossy_skip (a # s))) (a # s)))"
  by pat_completeness auto
termination
  by (relation "measure length") (auto simp: max_def)

declare lossy.simps(2) [simp del]

definition from_utf8_lossy :: "bytes \<Rightarrow> string" where
  "from_utf8_lossy bs = lossy (bytes_str bs)"

definition be16 :: "16 word \<Rightarrow> bytes" where
  "be16 n = [of_nat (unat n div 256), of_nat (unat n mod 256)]"

definition from_be16 :: "bytes \<Rightarrow> 16 word" where
  "from_be16 bs = of_nat (foldl (\<lambda>v b. v * 256 + unat b) 0 bs)"

lemma byte_char_inverse [simp]: "char_of (unat (of_nat (of_char c) :: byte)) = c"
proof -
  have "unat (of_nat (of_char c) :: byte) = of_char c"
    using nat_of_char_less_256 [of c] by (simp add: unat_of_nat)
  then show ?thesis by simp
qed

lemma bytes_str_bytes [simp]: "bytes_str (str_bytes s) = s"
  by (simp add: bytes_str_def str_bytes_def comp_def)

lemma str_bytes_inject [simp]: "str_bytes s = str_bytes t \<longleftrightarrow> s = t"
  by (metis bytes_str_bytes)

lemma length_str_bytes [simp]: "length (str_bytes s) = length s"
  by (simp add: str_bytes_def)

lemma length_be16 [simp]: "length (be16 n) = 2"
  by (simp add: be16_def)

lemma from_be16_be16 [simp]: "from_be16 (be16 n) = n"
proof -
  have "unat n < 2 ^ 16" using unsigned_less [where 'a = nat and w = n] by simp
  then have "unat (of_nat (unat n div 256) :: byte) = unat n div 256"
    "unat (of_nat (unat n mod 256) :: byte) = unat n mod 256"
    by (auto simp: unat_of_nat)
  then have "foldl (\<lambda>v b. v * 256 + unat b) 0 (be16 n) = unat n"
    by (simp add: be16_def)
  then show ?thesis by (simp add: from_be16_def)
qed

lemma from_utf8_str: "valid_utf8 s \<Longrightarrow> from_utf8 (str_bytes s) = Some s"
  by (simp add: from_utf8_def)

lemma lossy_valid: "valid_utf8 s \<Longrightarrow> lossy s = s"
proof (induction s rule: valid_utf8.induct)
  case (2 a s)
  let ?n = "utf8_width (a # s)"
  have n: "?n \<noteq> 0" "valid_utf8 (drop ?n (a # s))"
    using "2.prems" by (auto simp: valid_utf8.simps(2) Let_def split: if_splits)
  from "2.IH" [OF refl n] n(1) show ?case
    by (simp add: lossy.simps(2) Let_def del: drop_Cons' take_Cons')
qed simp

end
