(* ===== verification/Transfer_Run.thy ===== *)
theory Transfer_Run
  imports Transfer_Safe Sftp_Ops Byte_Strings Paths
begin

text \<open>
  One transfer task from its checks to the commit (\<open>remote/transfer.rs\<close>): the state of the source, the
  name of the staging file, and \<open>run\_transfer\<close>. What files and connections do in one attempt is the
  record \<open>run_env\<close>. Attempts follow one another on the same staging file.
\<close>

definition TRANSFER_BUFFER_BYTES :: nat where "TRANSFER_BUFFER_BYTES = 1024 * 1024"
definition TRANSFER_ACCELERATED_BUFFER_BYTES :: nat where "TRANSFER_ACCELERATED_BUFFER_BYTES = 4 * 1024 * 1024"

record transfer_request =
  tq_sftp_id :: string
  tq_direction :: transfer_direction
  tq_local_path :: string
  tq_remote_path :: string
  tq_overwrite :: bool
  tq_accelerated :: bool
  tq_resume :: bool

section \<open>Source and target\<close>

record source_state =
  ss_bytes_total :: nat
  ss_modified_marker :: string

record local_metadata =
  lm_is_file :: bool
  lm_len :: nat
  lm_modified :: "(nat \<times> nat) option"

definition transfer_source_state ::
  "transfer_request \<Rightarrow> local_metadata app_result \<Rightarrow> (file_attributes \<times> nat option) app_result
   \<Rightarrow> source_state app_result" where
  "transfer_source_state request local_file remote_file =
     (case tq_direction request of
        Upload \<Rightarrow>
          and_then local_file (\<lambda>m.
            if \<not> lm_is_file m then Inl (InvalidInput (''not a regular file: '' @ tq_local_path request))
            else Inr \<lparr>ss_bytes_total = lm_len m,
                      ss_modified_marker = (case lm_modified m of
                          None \<Rightarrow> ''unknown''
                        | Some (secs, nanos) \<Rightarrow> dec_string secs @ '':'' @ dec_string nanos)\<rparr>)
      | Download \<Rightarrow>
          and_then remote_file (\<lambda>(m, mtime).
            if fa_type m \<noteq> FtFile then Inl (InvalidInput (''not a regular file: '' @ tq_remote_path request))
            else Inr \<lparr>ss_bytes_total = fa_size m,
                      ss_modified_marker = (case mtime of None \<Rightarrow> ''unknown'' | Some t \<Rightarrow> dec_string t)\<rparr>))"

datatype target_lookup = TargetFound | TargetMissing | TargetError app_error

definition ensure_transfer_overwrite :: "transfer_request \<Rightarrow> target_lookup \<Rightarrow> unit app_result" where
  "ensure_transfer_overwrite request target =
     (if tq_overwrite request then Inr ()
      else (case target of
              TargetError e \<Rightarrow> Inl e
            | TargetMissing \<Rightarrow> Inr ()
            | TargetFound \<Rightarrow> Inl (TransferNeedsOverwrite (case tq_direction request of
                  Upload \<Rightarrow> tq_remote_path request | Download \<Rightarrow> tq_local_path request))))"

section \<open>The staging name\<close>

definition staging_parts :: "transfer_request \<Rightarrow> string \<Rightarrow> source_state \<Rightarrow> string list" where
  "staging_parts request session_id src =
     [session_id, (case tq_direction request of Upload \<Rightarrow> ''upload'' | Download \<Rightarrow> ''download''),
      tq_local_path request, tq_remote_path request, dec_string (ss_bytes_total src), ss_modified_marker src]"

text \<open>What is hashed: every part after its length in eight bytes.\<close>

definition hash_input :: "string list \<Rightarrow> bytes" where
  "hash_input ps = concat (map (\<lambda>p. le_bytes 8 (length p) @ str_bytes p) ps)"

definition hex_chars :: string where "hex_chars = ''0123456789abcdef''"

definition hex_byte :: "byte \<Rightarrow> string" where
  "hex_byte b = [hex_chars ! (unat b div 16), hex_chars ! (unat b mod 16)]"

text \<open>Only the file name is given for a download; its directory is the one of the target.\<close>

definition rsplit_parent :: "string \<Rightarrow> string" where
  "rsplit_parent path =
     (if CHR ''/'' \<notin> set path then ''/''
      else (let parent = join_with ''/'' (butlast (split_on (CHR ''/'') path)) in
            if parent = [] then ''/'' else parent))"

definition transfer_staging_name :: "(bytes \<Rightarrow> bytes) \<Rightarrow> transfer_request \<Rightarrow> string \<Rightarrow> source_state \<Rightarrow> string" where
  "transfer_staging_name sha256 request session_id src =
     ''.helm-'' @ concat (map hex_byte (take 16 (sha256 (hash_input (staging_parts request session_id src)))))
     @ ''.part''"

definition path_text :: "path \<Rightarrow> string" where
  "path_text p =
     (let name = (\<lambda>c. case c of RootDir \<Rightarrow> [] | CurDir \<Rightarrow> ''.'' | ParentDir \<Rightarrow> ''..'' | Normal n \<Rightarrow> n) in
      if p = [RootDir] then ''/'' else join_with ''/'' (map name p))"

definition transfer_staging_path :: "(bytes \<Rightarrow> bytes) \<Rightarrow> transfer_request \<Rightarrow> string \<Rightarrow> source_state \<Rightarrow> string" where
  "transfer_staging_path sha256 request session_id src =
     (let file_name = transfer_staging_name sha256 request session_id src in
      case tq_direction request of
        Upload \<Rightarrow> join_remote_path (rsplit_parent (tq_remote_path request)) file_name
      | Download \<Rightarrow> path_text (with_file_name (path_components (tq_local_path request)) file_name))"

lemma le8_inject:
  assumes "m \<le> u64_max" "n \<le> u64_max"
  shows "le_bytes 8 m = le_bytes 8 n \<longleftrightarrow> m = n"
proof
  assume "le_bytes 8 m = le_bytes 8 n"
  then have "m mod 256 ^ 8 = n mod 256 ^ 8" by (metis from_le_le_bytes)
  moreover have "m < 256 ^ 8" "n < 256 ^ 8" using assms by (simp_all add: u64_max_def)
  ultimately show "m = n" by (metis mod_less)
qed simp

lemma hash_input_inject:
  "length ps = length qs \<Longrightarrow> (\<forall>p\<in>set ps \<union> set qs. length p \<le> u64_max) \<Longrightarrow>
   hash_input ps = hash_input qs \<longleftrightarrow> ps = qs"
proof (induction ps qs rule: list_induct2)
  case (Cons p ps q qs)
  have "hash_input (p # ps) = hash_input (q # qs) \<longleftrightarrow>
      le_bytes 8 (length p) = le_bytes 8 (length q) \<and> str_bytes p @ hash_input ps = str_bytes q @ hash_input qs"
    by (simp add: hash_input_def)
  also have "\<dots> \<longleftrightarrow> length p = length q \<and> str_bytes p = str_bytes q \<and> hash_input ps = hash_input qs"
    using Cons.prems le8_inject by (auto simp: append_eq_append_conv)
  also have "\<dots> \<longleftrightarrow> p # ps = q # qs" using Cons by auto
  finally show ?case .
qed (simp add: hash_input_def)

text \<open>Two transfers hash the same bytes for their staging name only if session, direction, both paths,
  source size and modification marker agree: no boundary between the parts can be shifted.\<close>

theorem staging_hash_input_injective:
  assumes "hash_input (staging_parts q1 s1 src1) = hash_input (staging_parts q2 s2 src2)"
    and "\<forall>p\<in>set (staging_parts q1 s1 src1) \<union> set (staging_parts q2 s2 src2). length p \<le> u64_max"
  shows "s1 = s2 \<and> tq_direction q1 = tq_direction q2 \<and> tq_local_path q1 = tq_local_path q2
    \<and> tq_remote_path q1 = tq_remote_path q2 \<and> src1 = src2"
proof -
  have "staging_parts q1 s1 src1 = staging_parts q2 s2 src2"
    using hash_input_inject [OF _ assms(2)] assms(1) by (simp add: staging_parts_def)
  then show ?thesis
    by (auto simp: staging_parts_def split: transfer_direction.splits)
qed

definition demo_request :: transfer_request where
  "demo_request = \<lparr>tq_sftp_id = ''s'', tq_direction = Download, tq_local_path = ''/tmp/a'',
     tq_remote_path = ''/srv/a'', tq_overwrite = False, tq_accelerated = False, tq_resume = False\<rparr>"

theorem staging_hash_input_injective_witness:
  "hash_input (staging_parts demo_request ''x'' \<lparr>ss_bytes_total = 12, ss_modified_marker = ''3''\<rparr>)
     = hash_input (staging_parts (demo_request\<lparr>tq_sftp_id := ''t''\<rparr>) ''x'' \<lparr>ss_bytes_total = 12, ss_modified_marker = ''3''\<rparr>)
   \<and> tq_local_path demo_request = tq_local_path (demo_request\<lparr>tq_sftp_id := ''t''\<rparr>)"
proof -
  let ?src = "\<lparr>ss_bytes_total = 12, ss_modified_marker = ''3''\<rparr>" and ?q = "demo_request\<lparr>tq_sftp_id := ''t''\<rparr>"
  have eq: "staging_parts demo_request ''x'' ?src = staging_parts ?q ''x'' ?src" by (simp add: staging_parts_def)
  have "\<forall>p\<in>set (staging_parts demo_request ''x'' ?src) \<union> set (staging_parts ?q ''x'' ?src). length p \<le> u64_max"
    by (simp add: staging_parts_def demo_request_def u64_max_def dec_string.simps)
  with staging_hash_input_injective [of demo_request "''x''" ?src ?q "''x''" ?src] eq show ?thesis by simp
qed

section \<open>One attempt\<close>

text \<open>What happens to the target when a complete staging file is committed (\<open>sync\_and\_replace\_local\<close>,
  \<open>replace\_remote\_file\<close>): it is replaced in one step or not at all; an error may be reported either way.\<close>

datatype commit_outcome = Committed | NotCommitted app_error | CommittedWithError app_error

record 'a run_env =
  rv_live :: bool
  rv_source_before :: "source_state app_result"
  rv_staging_error :: "app_error option"
  rv_remove_error :: "string option"
  rv_open_error :: "app_error option"
  rv_turns :: "copy_turn list"
  rv_part_turns :: "nat \<Rightarrow> copy_turn list"
  rv_rest :: "nat \<Rightarrow> 'a"
  rv_counted :: "nat list"
  rv_truncated :: bool
  rv_close_error :: "app_error option"
  rv_size_error :: "app_error option"
  rv_source_after :: "source_state app_result"
  rv_commit :: commit_outcome

definition check_source :: "source_state app_result \<Rightarrow> source_state \<Rightarrow> string \<Rightarrow> unit app_result" where
  "check_source found expected message =
     (case found of Inl e \<Rightarrow> Inl e
      | Inr s \<Rightarrow> if s \<noteq> expected then Inl (Remote message) else Inr ())"

text \<open>The copy phase on a prepared staging file: parallel or sequential. A failing open leaves the file as
  it is, or empty when it was to be truncated.\<close>

definition copy_phase ::
  "'a run_env \<Rightarrow> transfer_request \<Rightarrow> nat \<Rightarrow> nat \<Rightarrow> 'a list \<Rightarrow> 'a list option \<Rightarrow> 'a list option \<times> copy_end" where
  "copy_phase env request worker_parts resume_from src staging =
     (let buffer_size = (if tq_accelerated request then TRANSFER_ACCELERATED_BUFFER_BYTES
                         else TRANSFER_BUFFER_BYTES);
          kept = (if resume_from = 0 then None else staging)
      in case rv_open_error env of
           Some e \<Rightarrow> (kept, CopyFailed e)
         | None \<Rightarrow>
             if resume_from = 0 \<and> worker_parts \<ge> 2
             then (case tq_direction request of
                     Upload \<Rightarrow> run_parallel_upload buffer_size (rv_part_turns env) (rv_rest env)
                       (rv_counted env) (rv_truncated env) worker_parts src
                   | Download \<Rightarrow> run_parallel_download buffer_size (rv_part_turns env) (rv_rest env)
                       (rv_counted env) (rv_truncated env) worker_parts src)
             else run_sequential buffer_size (rv_turns env) src kept resume_from)"

text \<open>\<open>run\_transfer\<close> on the contents of the source, the staging file and the target.\<close>

definition run_transfer ::
  "'a run_env \<Rightarrow> transfer_request \<Rightarrow> source_state \<Rightarrow> nat \<Rightarrow> 'a list \<Rightarrow> 'a list option \<Rightarrow> 'a list option
   \<Rightarrow> 'a list option \<times> 'a list option \<times> copy_end" where
  "run_transfer env request expected worker_parts src staging target =
     (if \<not> rv_live env then (staging, target, CopyFailed missing_sftp)
      else case check_source (rv_source_before env) expected ''source changed while queued'' of
        Inl e \<Rightarrow> (staging, target, CopyFailed e)
      | Inr _ \<Rightarrow>
     (let meta = (case rv_staging_error env of Some e \<Rightarrow> StagingUnknown e | None \<Rightarrow> staging_of staging) in
      case (case tq_direction request of Upload \<Rightarrow> prepare_remote_staging | Download \<Rightarrow> prepare_local_staging)
             meta (length src) (tq_resume request) (rv_remove_error env) of
        Inl e \<Rightarrow> (staging, target, CopyFailed e)
      | Inr resume_from \<Rightarrow>
     (case copy_phase env request worker_parts resume_from src staging of
        (staging', CopyDropped) \<Rightarrow> (staging', target, CopyDropped)
      | (staging', CopyFailed e) \<Rightarrow> (staging', target, CopyFailed e)
      | (staging', CopyDone) \<Rightarrow>
          (case rv_close_error env of
             Some e \<Rightarrow> (staging', target, CopyFailed e)
           | None \<Rightarrow>
          (case rv_size_error env of
             Some e \<Rightarrow> (staging', target, CopyFailed e)
           | None \<Rightarrow>
          (case staging' of
             None \<Rightarrow> (staging', target, CopyFailed (Remote ''metadata''))
           | Some file \<Rightarrow>
               if length file \<noteq> length src
               then (staging', target, CopyFailed (Remote ''size check failed''))
               else
          (case check_source (rv_source_after env) expected ''source changed during the transfer'' of
             Inl e \<Rightarrow> (staging', target, CopyFailed e)
           | Inr _ \<Rightarrow>
          (case rv_commit env of
             Committed \<Rightarrow> (None, Some file, CopyDone)
           | NotCommitted e \<Rightarrow> (staging', target, CopyFailed e)
           | CommittedWithError e \<Rightarrow> (staging', Some file, CopyFailed e)))))))))"

text \<open>Attempts in a row: the first as asked, the others retries with \<open>resume\<close>. They end with the first
  success. An attempt is the environment and its worker count.\<close>

fun run_attempts ::
  "('a run_env \<times> nat) list \<Rightarrow> transfer_request \<Rightarrow> source_state \<Rightarrow> 'a list \<Rightarrow> 'a list option \<Rightarrow> 'a list option
   \<Rightarrow> 'a list option \<times> 'a list option \<times> copy_end" where
  "run_attempts [] request expected src staging target = (staging, target, CopyDropped)"
| "run_attempts ((env, parts) # es) request expected src staging target =
     (case run_transfer env request expected parts src staging target of
        (staging', target', CopyDone) \<Rightarrow> (staging', target', CopyDone)
      | (staging', target', r) \<Rightarrow>
          if es = [] then (staging', target', r)
          else run_attempts es (request\<lparr>tq_resume := True\<rparr>) expected src staging' target')"

section \<open>A committed target is the source\<close>

definition staging_ok :: "'a list \<Rightarrow> 'a list option \<Rightarrow> bool" where
  "staging_ok src staging \<longleftrightarrow> staging = None \<or> (\<exists>n\<le>length src. staging = Some (take n src))"

lemma staging_okI: "n \<le> length src \<Longrightarrow> staging_ok src (Some (take n src))"
  by (auto simp: staging_ok_def)

lemma staging_ok_None [simp]: "staging_ok src None"
  by (simp add: staging_ok_def)

lemma copy_phase_spec:
  assumes c: "copy_phase env request parts n src staging = (staging', r)"
    and n: "n \<le> length src" "n > 0 \<longrightarrow> staging = Some (take n src)"
    and par: "parts \<ge> 2 \<longrightarrow> r \<noteq> CopyDropped"
  shows "staging_ok src staging' \<and> (r = CopyDone \<longrightarrow> staging' = Some src)"
proof -
  let ?b = "if tq_accelerated request then TRANSFER_ACCELERATED_BUFFER_BYTES else TRANSFER_BUFFER_BYTES"
  have b: "0 < ?b" by (simp add: TRANSFER_ACCELERATED_BUFFER_BYTES_def TRANSFER_BUFFER_BYTES_def)
  have kept: "staging_ok src (if n = 0 then None else staging)" using n by (auto intro: staging_okI)
  show ?thesis
  proof (cases "rv_open_error env")
    case (Some e)
    then show ?thesis using c kept by (auto simp: copy_phase_def Let_def)
  next
    case None
    show ?thesis
    proof (cases "n = 0 \<and> parts \<ge> 2")
      case True
      then have "run_parallel (tq_direction request = Download) ?b (rv_part_turns env) (rv_rest env)
          (rv_counted env) (rv_truncated env) parts src = (staging', r)"
        using c None by (cases "tq_direction request")
          (simp_all add: copy_phase_def Let_def run_parallel_upload_def run_parallel_download_def)
      from run_parallel_spec [OF _ this] True par show ?thesis
        by (auto simp: staging_ok_def)
    next
      case False
      then have "run_sequential ?b (rv_turns env) src (if n = 0 then None else staging) n = (staging', r)"
        using c None by (auto simp: copy_phase_def Let_def)
      from run_sequential_spec [OF this b n(1)] n(2) show ?thesis
        by (auto intro: staging_okI)
    qed
  qed
qed

lemma prepare_ok:
  assumes "prepare_staging meta (length src) resume re = Inr n"
    and "meta = (case se of Some e \<Rightarrow> StagingUnknown e | None \<Rightarrow> staging_of staging)" "staging_ok src staging"
  shows "n \<le> length src \<and> (n > 0 \<longrightarrow> staging = Some (take n src))"
  using assms by (auto simp: prepare_staging_def staging_of_def staging_ok_def split: option.splits if_splits)

lemma prepare_by_direction [simp]:
  "(case d of Upload \<Rightarrow> prepare_remote_staging | Download \<Rightarrow> prepare_local_staging) = prepare_staging"
  by (cases d) (simp_all add: prepare_remote_staging_def prepare_local_staging_def)

lemma run_transfer_spec:
  assumes "run_transfer env request expected parts src staging target = (staging', target', r)"
    and "staging_ok src staging" and "parts \<ge> 2 \<longrightarrow> r \<noteq> CopyDropped"
  shows "(r = CopyDone \<longrightarrow> target' = Some src) \<and> (target' = target \<or> target' = Some src) \<and> staging_ok src staging'"
proof -
  let ?meta = "case rv_staging_error env of Some e \<Rightarrow> StagingUnknown e | None \<Rightarrow> staging_of staging"
  consider "(staging', target') = (staging, target) \<and> r \<noteq> CopyDone"
    | n where "prepare_staging ?meta (length src) (tq_resume request) (rv_remove_error env) = Inr n"
    using assms(1) by (fastforce simp: run_transfer_def Let_def split: if_splits sum.splits)
  then show ?thesis
  proof cases
    case 1
    then show ?thesis using assms(2) by auto
  next
    case (2 n)
    note n = prepare_ok [OF 2 refl assms(2)]
    obtain st e where c: "copy_phase env request parts n src staging = (st, e)" by (metis prod.exhaust)
    have par: "parts \<ge> 2 \<longrightarrow> e \<noteq> CopyDropped \<or> (staging' = staging \<and> target' = target \<and> r \<noteq> CopyDone)"
      using assms(1,3) 2 c by (auto simp: run_transfer_def Let_def split: if_splits sum.splits)
    show ?thesis
    proof (cases "staging' = staging \<and> target' = target \<and> r \<noteq> CopyDone")
      case True
      then show ?thesis using assms(2) by auto
    next
      case False
      then have cp: "staging_ok src st" "e = CopyDone \<longrightarrow> st = Some src"
        using copy_phase_spec [OF c] n par by auto
      show ?thesis
      proof (cases "e = CopyDone")
        case True
        then have "st = Some src" using cp by simp
        with assms(1,2) 2 c True cp show ?thesis
          by (auto simp: run_transfer_def Let_def split: if_splits sum.splits option.splits commit_outcome.splits)
      next
        case failed: False
        then have "staging' = st \<and> target' = target \<and> r = e"
          using assms(1) 2 c False
          by (auto simp: run_transfer_def Let_def split: if_splits sum.splits copy_end.splits)
        then show ?thesis using cp failed by simp
      qed
    qed
  qed
qed


definition demo_turn :: copy_turn where
  "demo_turn = \<lparr>ct_cancel = False, ct_pause1 = False, ct_read = Some 2, ct_cancel2 = False,
     ct_pause2 = False, ct_write = None, ct_flush = None\<rparr>"

definition demo_run_env :: "nat run_env" where
  "demo_run_env = \<lparr>rv_live = True, rv_source_before = Inr \<lparr>ss_bytes_total = 4, ss_modified_marker = ''1''\<rparr>,
     rv_staging_error = None, rv_remove_error = None, rv_open_error = None,
     rv_turns = [demo_turn, demo_turn\<lparr>ct_cancel := True\<rparr>], rv_part_turns = (\<lambda>_. []), rv_rest = (\<lambda>_. 0),
     rv_counted = [], rv_truncated = True, rv_close_error = None, rv_size_error = None,
     rv_source_after = Inr \<lparr>ss_bytes_total = 4, ss_modified_marker = ''1''\<rparr>, rv_commit = Committed\<rparr>"


end
