(* ===== verification/Transfer_State.thy ===== *)
theory Transfer_State
  imports Complex_Main Transfer_Run "HOL-Library.Product_Lexorder"
begin

text \<open>
  The transfer records of the runtime (\<open>remote/runtime\_transfer.rs\<close>, \<open>remote/transfer\_history.rs\<close>). The
  maps stand behind locks, so an operation is a sequence of lock sections; each section is a function on
  the store below, and any interleaving of them is a run. The store also holds what is between sections:
  cancellations waiting for their task, records taken out whose staging file is still to be cleaned up,
  and the sweep that follows the closing of an SFTP session. \<open>tm\_removed\<close> logs the staging files whose
  removal was ordered. A speed is a real number; the code only stores it or resets it to 0.
\<close>

definition MAX_PENDING_TRANSFERS_PER_SFTP :: nat where "MAX_PENDING_TRANSFERS_PER_SFTP = 128"
definition MAX_TRANSFER_HISTORY :: nat where "MAX_TRANSFER_HISTORY = 100"

datatype task_status = Queued | Running | Paused | Completed | Failed | Canceled

record transfer_info =
  ti_transfer_id :: string
  ti_session_id :: string
  ti_sftp_id :: string
  ti_direction :: transfer_direction
  ti_local_path :: string
  ti_remote_path :: string
  ti_status :: task_status
  ti_bytes_done :: nat
  ti_bytes_total :: nat
  ti_speed :: real
  ti_error :: "string option"
  ti_created_at :: string
  ti_updated_at :: string

record transfer_record =
  tx_info :: transfer_info
  tx_request :: transfer_request
  tx_staging :: string
  tx_parts :: nat
  tx_cleanup_sftp :: bool
  tx_cancel :: bool
  tx_paused :: bool
  tx_started :: bool
  tx_handle :: bool

record transfer_store =
  tm_transfers :: "(string \<times> transfer_record) list"
  tm_live :: "string list"
  tm_closing :: "string list"
  tm_doomed :: "string list"
  tm_cancels :: "transfer_record list"
  tm_orphans :: "transfer_record list"
  tm_removed :: "(transfer_direction \<times> string) list"

section \<open>States\<close>

definition accepts_transfer_activity :: "task_status \<Rightarrow> bool" where
  "accepts_transfer_activity st \<longleftrightarrow> st \<in> {Queued, Running, Paused}"

definition is_retryable_transfer_state :: "task_status \<Rightarrow> bool" where
  "is_retryable_transfer_state st \<longleftrightarrow> st \<in> {Failed, Canceled}"

definition is_removable_transfer_state :: "task_status \<Rightarrow> bool" where
  "is_removable_transfer_state st \<longleftrightarrow> st \<in> {Completed, Failed, Canceled}"

abbreviation tx_status :: "transfer_record \<Rightarrow> task_status" where
  "tx_status r \<equiv> ti_status (tx_info r)"

abbreviation tx_active :: "transfer_record \<Rightarrow> bool" where
  "tx_active r \<equiv> accepts_transfer_activity (tx_status r)"

abbreviation tx_sftp :: "transfer_record \<Rightarrow> string" where
  "tx_sftp r \<equiv> ti_sftp_id (tx_info r)"

definition find_tx :: "string \<Rightarrow> transfer_store \<Rightarrow> transfer_record option" where
  "find_tx i s = map_of (tm_transfers s) i"

definition update_tx :: "string \<Rightarrow> (transfer_record \<Rightarrow> transfer_record) \<Rightarrow> transfer_store \<Rightarrow> transfer_store" where
  "update_tx i f s = s\<lparr>tm_transfers := map (\<lambda>(k, r). if k = i then (k, f r) else (k, r)) (tm_transfers s)\<rparr>"

definition drop_tx :: "(string \<Rightarrow> transfer_record \<Rightarrow> bool) \<Rightarrow> transfer_store \<Rightarrow> transfer_store" where
  "drop_tx p s = s\<lparr>tm_transfers := filter (\<lambda>(k, r). \<not> p k r) (tm_transfers s),
                    tm_orphans := tm_orphans s @ map snd (filter (\<lambda>(k, r). p k r) (tm_transfers s))\<rparr>"

text \<open>\<open>info\<close> with a new status, its speed and time.\<close>

definition touch :: "task_status \<Rightarrow> real \<Rightarrow> string \<Rightarrow> transfer_info \<Rightarrow> transfer_info" where
  "touch st speed t i = i\<lparr>ti_status := st, ti_speed := speed, ti_updated_at := t\<rparr>"

section \<open>Starting\<close>

definition new_transfer ::
  "transfer_request \<Rightarrow> string \<Rightarrow> source_state \<Rightarrow> string \<Rightarrow> string \<Rightarrow> string \<Rightarrow> transfer_record" where
  "new_transfer request session_id src staging transfer_id t =
     \<lparr>tx_info = \<lparr>ti_transfer_id = transfer_id, ti_session_id = session_id, ti_sftp_id = tq_sftp_id request,
        ti_direction = tq_direction request, ti_local_path = tq_local_path request,
        ti_remote_path = tq_remote_path request, ti_status = Queued, ti_bytes_done = 0,
        ti_bytes_total = ss_bytes_total src, ti_speed = 0, ti_error = None, ti_created_at = t, ti_updated_at = t\<rparr>,
      tx_request = request, tx_staging = staging,
      tx_parts = transfer_worker_parts (tq_direction request) (tq_resume request) (ss_bytes_total src),
      tx_cleanup_sftp = (tq_direction request = Upload), tx_cancel = False, tx_paused = False,
      tx_started = False, tx_handle = True\<rparr>"

definition active_on :: "string \<Rightarrow> transfer_store \<Rightarrow> nat" where
  "active_on sftp_id s = length (filter (\<lambda>(k, r). tx_sftp r = sftp_id \<and> tx_active r) (tm_transfers s))"

definition insert_transfer :: "transfer_record \<Rightarrow> transfer_store \<Rightarrow> unit app_result \<times> transfer_store" where
  "insert_transfer r s =
     (if tx_sftp r \<notin> set (tm_live s) then (Inl missing_sftp, s)
      else if active_on (tx_sftp r) s \<ge> MAX_PENDING_TRANSFERS_PER_SFTP
      then (Inl (InvalidInput ''transfer queue full''), s)
      else if list_ex (\<lambda>(k, x). tx_staging x = tx_staging r \<and> tx_active x) (tm_transfers s)
      then (Inl (InvalidInput ''same transfer in progress''), s)
      else (Inr (), s\<lparr>tm_transfers := tm_transfers s @ [(ti_transfer_id (tx_info r), r)]\<rparr>))"

text \<open>What \<open>start\_transfer\<close> asks of its surroundings before it takes the lock.\<close>

record start_env =
  st_sftp :: "string app_result"
  st_session :: "string app_result"
  st_target :: target_lookup
  st_source :: "source_state app_result"
  st_closed_since :: bool

definition start_transfer ::
  "(bytes \<Rightarrow> bytes) \<Rightarrow> start_env \<Rightarrow> transfer_request \<Rightarrow> string \<Rightarrow> string \<Rightarrow> transfer_store
   \<Rightarrow> transfer_info app_result \<times> transfer_store" where
  "start_transfer sha256 env request0 transfer_id t s =
     (let request = request0\<lparr>tq_remote_path := normalize_remote_path (tq_remote_path request0)\<rparr> in
      case and_then (st_sftp env) (\<lambda>_. and_then (st_session env) (\<lambda>session_id.
             and_then (ensure_transfer_overwrite request (st_target env)) (\<lambda>_.
             and_then (st_source env) (\<lambda>src. Inr (session_id, src))))) of
        Inl e \<Rightarrow> (Inl e, s)
      | Inr (session_id, src) \<Rightarrow>
          if st_closed_since env then (Inl missing_sftp, s)
          else
            (let r = new_transfer request session_id src (transfer_staging_path sha256 request session_id src)
                       transfer_id t
             in case insert_transfer r s of
                  (Inl e, s') \<Rightarrow> (Inl e, s')
                | (Inr _, s') \<Rightarrow> (Inr (tx_info r), s')))"

section \<open>Progress and control\<close>

definition mark_transfer_progress :: "string \<Rightarrow> nat \<Rightarrow> real \<Rightarrow> string \<Rightarrow> transfer_store \<Rightarrow> transfer_store" where
  "mark_transfer_progress i bytes_done speed t s = update_tx i (\<lambda>r.
     if \<not> tx_active r then r
     else r\<lparr>tx_info := (touch (if tx_paused r then Paused else Running) (if tx_paused r then 0 else speed) t
                          (tx_info r))\<lparr>ti_bytes_done := bytes_done\<rparr>\<rparr>) s"

definition mark_transfer_running :: "string \<Rightarrow> string \<Rightarrow> transfer_store \<Rightarrow> transfer_store" where
  "mark_transfer_running i t s = update_tx i (\<lambda>r.
     if \<not> tx_active r then r
     else r\<lparr>tx_started := True,
            tx_info := touch (if tx_paused r then Paused else Running) 0 t (tx_info r)\<rparr>) s"

definition mark_transfer_completed :: "string \<Rightarrow> nat \<Rightarrow> string \<Rightarrow> transfer_store \<Rightarrow> transfer_store" where
  "mark_transfer_completed i completed_bytes t s = update_tx i (\<lambda>r.
     if \<not> tx_active r then r
     else r\<lparr>tx_info := (touch Completed 0 t (tx_info r))\<lparr>ti_bytes_done := completed_bytes,
                                                          ti_bytes_total := completed_bytes\<rparr>\<rparr>) s"

definition mark_transfer_failed :: "string \<Rightarrow> string \<Rightarrow> string \<Rightarrow> transfer_store \<Rightarrow> transfer_store" where
  "mark_transfer_failed i err t s = update_tx i (\<lambda>r.
     if \<not> tx_active r then r
     else r\<lparr>tx_info := (touch Failed 0 t (tx_info r))\<lparr>ti_error := Some err\<rparr>\<rparr>) s"

definition transfer_pause :: "string \<Rightarrow> string \<Rightarrow> transfer_store \<Rightarrow> transfer_info app_result \<times> transfer_store" where
  "transfer_pause i t s =
     (case find_tx i s of
        None \<Rightarrow> (Inl missing_transfer, s)
      | Some r \<Rightarrow>
          if tx_status r \<notin> {Queued, Running} then (Inr (tx_info r), s)
          else (let r' = r\<lparr>tx_paused := True, tx_info := touch Paused 0 t (tx_info r)\<rparr>
                in (Inr (tx_info r'), update_tx i (\<lambda>_. r') s)))"

definition transfer_resume :: "string \<Rightarrow> string \<Rightarrow> transfer_store \<Rightarrow> transfer_info app_result \<times> transfer_store" where
  "transfer_resume i t s =
     (case find_tx i s of
        None \<Rightarrow> (Inl missing_transfer, s)
      | Some r \<Rightarrow>
          if tx_status r \<noteq> Paused then (Inr (tx_info r), s)
          else (let r' = r\<lparr>tx_paused := False,
                           tx_info := (tx_info r)\<lparr>ti_status := (if tx_started r then Running else Queued),
                                                   ti_updated_at := t\<rparr>\<rparr>
                in (Inr (tx_info r'), update_tx i (\<lambda>_. r') s)))"

section \<open>Staging files and removal\<close>

definition cleanup_transfer_staging :: "transfer_direction \<Rightarrow> string \<Rightarrow> bool \<Rightarrow> transfer_store \<Rightarrow> transfer_store" where
  "cleanup_transfer_staging direction staging_path cleanup_sftp s =
     (if staging_path = [] then s
      else (case direction of
              Upload \<Rightarrow> if cleanup_sftp then s\<lparr>tm_removed := (Upload, staging_path) # tm_removed s\<rparr> else s
            | Download \<Rightarrow> s\<lparr>tm_removed := (Download, staging_path) # tm_removed s\<rparr>))"

definition cleanup_transfer_record_staging :: "transfer_record \<Rightarrow> transfer_store \<Rightarrow> transfer_store" where
  "cleanup_transfer_record_staging r s =
     (if tx_staging r = [] then s
      else if list_ex (\<lambda>(k, x). k \<noteq> ti_transfer_id (tx_info r) \<and> tx_staging x = tx_staging r) (tm_transfers s)
      then s
      else cleanup_transfer_staging (tq_direction (tx_request r)) (tx_staging r) (tx_cleanup_sftp r) s)"

text \<open>The first section of \<open>cancel\_transfer\_in\_place\<close>, and what follows when the task has ended:
  \<open>forced\<close> says that it had to be aborted after three seconds.\<close>

definition cancel_begin ::
  "string \<Rightarrow> string \<Rightarrow> string \<Rightarrow> transfer_store \<Rightarrow> transfer_info app_result \<times> transfer_store" where
  "cancel_begin i reason t s =
     (case find_tx i s of
        None \<Rightarrow> (Inl missing_transfer, s)
      | Some r \<Rightarrow>
          if \<not> tx_active r then (Inr (tx_info r), s)
          else (let r' = r\<lparr>tx_cancel := True, tx_handle := False,
                           tx_info := (touch Canceled 0 t (tx_info r))\<lparr>ti_error := Some reason\<rparr>\<rparr>
                in (Inr (tx_info r'),
                    (update_tx i (\<lambda>_. r') s)\<lparr>tm_cancels := r # tm_cancels s\<rparr>)))"

definition cancel_finish :: "transfer_record \<Rightarrow> bool \<Rightarrow> transfer_store \<Rightarrow> transfer_store" where
  "cancel_finish r forced s =
     (let s' = s\<lparr>tm_cancels := remove1 r (tm_cancels s)\<rparr> in
      if forced \<and> tx_handle r \<and> tx_parts r > 1
      then cleanup_transfer_staging (tq_direction (tx_request r)) (tx_staging r) (tx_cleanup_sftp r) s'
      else s')"

definition transfer_remove :: "string \<Rightarrow> transfer_store \<Rightarrow> unit app_result \<times> transfer_store" where
  "transfer_remove i s =
     (case find_tx i s of
        None \<Rightarrow> (Inr (), s)
      | Some r \<Rightarrow>
          if \<not> is_removable_transfer_state (tx_status r) then (Inl (InvalidInput ''stop it first''), s)
          else (Inr (), drop_tx (\<lambda>k _. k = i) s))"

definition retry_request :: "string \<Rightarrow> transfer_store \<Rightarrow> transfer_request app_result" where
  "retry_request i s =
     (case find_tx i s of
        None \<Rightarrow> Inl missing_transfer
      | Some r \<Rightarrow>
          if \<not> is_retryable_transfer_state (tx_status r)
          then Inl (InvalidInput ''only failed or canceled transfers'')
          else Inr ((tx_request r)\<lparr>tq_resume := True\<rparr>))"

definition retry_drop :: "string \<Rightarrow> transfer_store \<Rightarrow> transfer_store" where
  "retry_drop i s = drop_tx (\<lambda>k _. k = i) s"

definition transfer_retry ::
  "(bytes \<Rightarrow> bytes) \<Rightarrow> start_env \<Rightarrow> string \<Rightarrow> string \<Rightarrow> string \<Rightarrow> transfer_store
   \<Rightarrow> transfer_info app_result \<times> transfer_store" where
  "transfer_retry sha256 env i transfer_id t s =
     (case retry_request i s of
        Inl e \<Rightarrow> (Inl e, s)
      | Inr request \<Rightarrow>
          (case start_transfer sha256 env request transfer_id t s of
             (Inl e, s') \<Rightarrow> (Inl e, s')
           | (Inr info, s') \<Rightarrow> (Inr info, retry_drop i s')))"

definition clear_finished :: "transfer_store \<Rightarrow> transfer_store" where
  "clear_finished s = drop_tx (\<lambda>_ r. \<not> tx_active r) s"

text \<open>\<open>prune\_transfer\_history\<close>: the oldest finished records beyond the limit.\<close>

definition prune_ids :: "transfer_store \<Rightarrow> string list" where
  "prune_ids s =
     (let finished = map (\<lambda>(k, r). (k, ti_updated_at (tx_info r)))
                       (filter (\<lambda>(k, r). is_removable_transfer_state (tx_status r)) (tm_transfers s))
      in map fst (take (length finished - MAX_TRANSFER_HISTORY) (sort_key snd finished)))"

definition prune_transfer_history :: "transfer_store \<Rightarrow> transfer_store" where
  "prune_transfer_history s = (let ids = prune_ids s in drop_tx (\<lambda>k _. k \<in> set ids) s)"

definition cleanup_next_orphan :: "transfer_store \<Rightarrow> transfer_store" where
  "cleanup_next_orphan s =
     (case tm_orphans s of
        [] \<Rightarrow> s
      | r # rs \<Rightarrow> cleanup_transfer_record_staging r (s\<lparr>tm_orphans := rs\<rparr>))"

section \<open>History\<close>

definition normalize_loaded_transfer :: "string \<Rightarrow> transfer_info \<Rightarrow> transfer_info" where
  "normalize_loaded_transfer t i =
     (if accepts_transfer_activity (ti_status i)
      then (touch Canceled 0 t i)\<lparr>ti_error := Some ''stopped: the program was closed''\<rparr>
      else if ti_status i = Completed then i\<lparr>ti_speed := 0\<rparr> else i)"

record persisted_transfer =
  pt_info :: transfer_info
  pt_overwrite :: bool
  pt_accelerated :: bool
  pt_staging :: string
  pt_parts :: nat

definition request_from_transfer :: "transfer_info \<Rightarrow> bool \<Rightarrow> bool \<Rightarrow> transfer_request" where
  "request_from_transfer i overwrite accelerated =
     \<lparr>tq_sftp_id = ti_sftp_id i, tq_direction = ti_direction i, tq_local_path = ti_local_path i,
      tq_remote_path = ti_remote_path i, tq_overwrite = overwrite, tq_accelerated = accelerated, tq_resume = False\<rparr>"

definition loaded_record :: "string \<Rightarrow> persisted_transfer \<Rightarrow> transfer_record" where
  "loaded_record t p =
     (let i = normalize_loaded_transfer t (pt_info p) in
      \<lparr>tx_info = i, tx_request = request_from_transfer i (pt_overwrite p) (pt_accelerated p),
       tx_staging = pt_staging p, tx_parts = max (pt_parts p) 1, tx_cleanup_sftp = False, tx_cancel = False,
       tx_paused = False, tx_started = False, tx_handle = False\<rparr>)"

fun load_transfers :: "string \<Rightarrow> persisted_transfer list \<Rightarrow> transfer_store \<Rightarrow> transfer_store" where
  "load_transfers t [] s = s"
| "load_transfers t (p # ps) s =
     (let r = loaded_record t p; i = ti_transfer_id (tx_info r) in
      load_transfers t ps
        (if find_tx i s = None then s\<lparr>tm_transfers := tm_transfers s @ [(i, r)]\<rparr> else s))"

definition transfer_timestamp :: "transfer_info \<Rightarrow> string" where
  "transfer_timestamp i = (if ti_updated_at i = [] then ti_created_at i else ti_updated_at i)"

text \<open>Newest first, then by id, at most 100.\<close>

definition history_views :: "transfer_store \<Rightarrow> transfer_info list \<times> persisted_transfer list" where
  "history_views s =
     (let records = take MAX_TRANSFER_HISTORY
            (rev (sort_key (\<lambda>r. (transfer_timestamp (tx_info r), ti_transfer_id (tx_info r)))
               (map snd (tm_transfers s))))
      in (map tx_info records,
          map (\<lambda>r. \<lparr>pt_info = tx_info r, pt_overwrite = tq_overwrite (tx_request r),
             pt_accelerated = tq_accelerated (tx_request r), pt_staging = tx_staging r,
             pt_parts = max (tx_parts r) 1\<rparr>) records))"

section \<open>Closing an SFTP session\<close>

definition publish_sftp :: "string \<Rightarrow> transfer_store \<Rightarrow> transfer_store" where
  "publish_sftp i s = s\<lparr>tm_live := i # tm_live s\<rparr>"

definition unpublish_sftp :: "string \<Rightarrow> transfer_store \<Rightarrow> transfer_store" where
  "unpublish_sftp i s = s\<lparr>tm_live := filter (\<lambda>j. j \<noteq> i) (tm_live s), tm_closing := i # tm_closing s\<rparr>"

text \<open>\<open>cancel\_transfers\_for\_sftp\_ids\<close> collects the active transfers, then cancels them one by one.\<close>

definition collect_transfers :: "string list \<Rightarrow> transfer_store \<Rightarrow> transfer_store" where
  "collect_transfers sftp_ids s =
     s\<lparr>tm_doomed := map fst (filter (\<lambda>(k, r). tx_sftp r \<in> set sftp_ids \<and> tx_active r) (tm_transfers s))
                     @ tm_doomed s,
       tm_closing := filter (\<lambda>i. i \<notin> set sftp_ids) (tm_closing s)\<rparr>"

definition cancel_doomed :: "string \<Rightarrow> string \<Rightarrow> string \<Rightarrow> transfer_store \<Rightarrow> transfer_store" where
  "cancel_doomed i reason t s =
     (let s' = snd (cancel_begin i reason t s) in s'\<lparr>tm_doomed := filter (\<lambda>j. j \<noteq> i) (tm_doomed s')\<rparr>)"

section \<open>Runs\<close>

datatype tx_op =
    OpInsert transfer_record
  | OpAbandon string
  | OpProgress string nat real string
  | OpRunning string string
  | OpCompleted string nat string
  | OpFailed string string string
  | OpPause string string
  | OpResume string string
  | OpCancel string string string
  | OpCancelFinish transfer_record bool
  | OpRemove string
  | OpRetryDrop string
  | OpClear
  | OpPrune
  | OpCleanup
  | OpLoad string "persisted_transfer list"
  | OpPublish string
  | OpUnpublish string
  | OpCollect "string list"
  | OpCancelDoomed string string string

fun apply_op :: "tx_op \<Rightarrow> transfer_store \<Rightarrow> transfer_store" where
  "apply_op (OpInsert r) s = snd (insert_transfer r s)"
| "apply_op (OpAbandon i) s = drop_tx (\<lambda>k _. k = i) s"
| "apply_op (OpProgress i n v t) s = mark_transfer_progress i n v t s"
| "apply_op (OpRunning i t) s = mark_transfer_running i t s"
| "apply_op (OpCompleted i n t) s = mark_transfer_completed i n t s"
| "apply_op (OpFailed i e t) s = mark_transfer_failed i e t s"
| "apply_op (OpPause i t) s = snd (transfer_pause i t s)"
| "apply_op (OpResume i t) s = snd (transfer_resume i t s)"
| "apply_op (OpCancel i e t) s = snd (cancel_begin i e t s)"
| "apply_op (OpCancelFinish r forced) s = cancel_finish r forced s"
| "apply_op (OpRemove i) s = snd (transfer_remove i s)"
| "apply_op (OpRetryDrop i) s = retry_drop i s"
| "apply_op OpClear s = clear_finished s"
| "apply_op OpPrune s = prune_transfer_history s"
| "apply_op OpCleanup s = cleanup_next_orphan s"
| "apply_op (OpLoad t ps) s = load_transfers t ps s"
| "apply_op (OpPublish i) s = publish_sftp i s"
| "apply_op (OpUnpublish i) s = unpublish_sftp i s"
| "apply_op (OpCollect is) s = collect_transfers is s"
| "apply_op (OpCancelDoomed i e t) s = cancel_doomed i e t s"

text \<open>A record is inserted under a fresh id, as \<open>new\_transfer\<close> made it.\<close>

definition op_allowed :: "tx_op \<Rightarrow> transfer_store \<Rightarrow> bool" where
  "op_allowed p s =
     (case p of
        OpInsert r \<Rightarrow> find_tx (ti_transfer_id (tx_info r)) s = None \<and> tx_status r = Queued \<and> \<not> tx_paused r
      | _ \<Rightarrow> True)"

inductive tx_step :: "transfer_store \<Rightarrow> transfer_store \<Rightarrow> bool" where
  "op_allowed p s \<Longrightarrow> tx_step s (apply_op p s)"

inductive_cases tx_stepE: "tx_step s s'"

definition tx_initial :: "transfer_store \<Rightarrow> bool" where
  "tx_initial s \<longleftrightarrow> s = \<lparr>tm_transfers = [], tm_live = [], tm_closing = [], tm_doomed = [], tm_cancels = [],
                       tm_orphans = [], tm_removed = []\<rparr>"

end
