(* ===== verification/Transfer_Inv.thy ===== *)
theory Transfer_Inv
  imports Transfer_State Permits
begin

text \<open>
  The invariant of the transfer store under every interleaving of its lock sections. All operations
  but the insertion only shrink the list of active transfers, seen as id, staging path and session;
  what the insertion checks is then kept.
\<close>

definition view :: "string \<times> transfer_record \<Rightarrow> string \<times> string \<times> string" where
  "view x = (fst x, tx_staging (snd x), tx_sftp (snd x))"

definition active_view :: "transfer_store \<Rightarrow> (string \<times> string \<times> string) list" where
  "active_view s = map view (filter (\<lambda>x. tx_active (snd x)) (tm_transfers s))"

definition tx_inv :: "transfer_store \<Rightarrow> bool" where
  "tx_inv s \<longleftrightarrow>
     distinct (map fst (tm_transfers s))
     \<and> (\<forall>(k, r)\<in>set (tm_transfers s). ti_transfer_id (tx_info r) = k
          \<and> (tx_active r \<longrightarrow> (tx_status r = Paused \<longleftrightarrow> tx_paused r)))
     \<and> distinct (map (\<lambda>v. fst (snd v)) (active_view s))
     \<and> (\<forall>i. length (filter (\<lambda>v. snd (snd v) = i) (active_view s)) \<le> MAX_PENDING_TRANSFERS_PER_SFTP)
     \<and> (\<forall>v\<in>set (active_view s). snd (snd v) \<in> set (tm_live s) \<union> set (tm_closing s) \<or> fst v \<in> set (tm_doomed s))"

lemma activity_simps [simp]:
  "accepts_transfer_activity Queued" "accepts_transfer_activity Running" "accepts_transfer_activity Paused"
  "\<not> accepts_transfer_activity Completed" "\<not> accepts_transfer_activity Failed"
  "\<not> accepts_transfer_activity Canceled"
  by (simp_all add: accepts_transfer_activity_def)

lemma removable_iff [simp]: "is_removable_transfer_state st \<longleftrightarrow> \<not> accepts_transfer_activity st"
  by (cases st) (simp_all add: is_removable_transfer_state_def)

lemma touch_simps [simp]:
  "ti_status (touch st v t i) = st" "ti_sftp_id (touch st v t i) = ti_sftp_id i"
  "ti_transfer_id (touch st v t i) = ti_transfer_id i"
  by (simp_all add: touch_def)

section \<open>Updates and removals\<close>

lemma fst_update [simp]: "map fst (map (\<lambda>(k, r). if k = i then (k, f r) else (k, r)) xs) = map fst xs"
  by (induction xs) auto

lemma tm_update [simp]:
  "tm_live (update_tx i f s) = tm_live s" "tm_closing (update_tx i f s) = tm_closing s"
  "tm_doomed (update_tx i f s) = tm_doomed s" "tm_removed (update_tx i f s) = tm_removed s"
  "tm_cancels (update_tx i f s) = tm_cancels s" "tm_orphans (update_tx i f s) = tm_orphans s"
  by (simp_all add: update_tx_def)

lemma map_of_update:
  "map_of (map (\<lambda>(k, r). if k = i then (k, f r) else (k, r)) xs) j
   = (if j = i then map_option f (map_of xs j) else map_of xs j)"
  by (induction xs) auto

lemma find_update: "find_tx j (update_tx i f s) = (if j = i then map_option f (find_tx j s) else find_tx j s)"
  by (simp add: find_tx_def update_tx_def map_of_update)

lemma find_drop:
  "find_tx j (drop_tx p s) = (case find_tx j s of None \<Rightarrow> None | Some r \<Rightarrow> if p j r then None else Some r)"
  if "distinct (map fst (tm_transfers s))"
  using that unfolding find_tx_def drop_tx_def transfer_store.simps
proof (induction "tm_transfers s" arbitrary: s)
  case (Cons x xs)
  have "map_of (filter (\<lambda>(k, r). \<not> p k r) ys) j =
      (case map_of ys j of None \<Rightarrow> None | Some r \<Rightarrow> if p j r then None else Some r)"
    if "distinct (map fst ys)" for ys
    using that by (induction ys) (auto split: option.splits simp: map_of_eq_None_iff)
  with Cons.prems show ?case by simp
qed simp

lemma active_view_update:
  assumes "\<And>r. tx_active (f r) \<Longrightarrow> tx_active r"
    and "\<And>r. tx_staging (f r) = tx_staging r" "\<And>r. tx_sftp (f r) = tx_sftp r"
  shows "subseq (active_view (update_tx i f s)) (active_view s)"
proof -
  have "subseq (map view (filter (\<lambda>x. tx_active (snd x)) (map (\<lambda>(k, r). if k = i then (k, f r) else (k, r)) xs)))
          (map view (filter (\<lambda>x. tx_active (snd x)) xs))" for xs
  proof (induction xs)
    case (Cons x xs)
    obtain k r where x: "x = (k, r)" by (cases x)
    show ?case
    proof (cases "k = i \<and> tx_active r \<and> \<not> tx_active (f r)")
      case True
      then show ?thesis using Cons x by (auto intro: list_emb_Cons)
    next
      case False
      then have "tx_active (if k = i then f r else r) = tx_active r" using assms(1) [of r] by auto
      then show ?thesis using Cons x by (auto simp: view_def assms(2,3) split: if_splits)
    qed
  qed simp
  then show ?thesis by (simp add: active_view_def update_tx_def)
qed

lemma active_view_drop: "subseq (active_view (drop_tx p s)) (active_view s)"
proof -
  have "filter (\<lambda>x. tx_active (snd x)) (tm_transfers (drop_tx p s))
      = filter (\<lambda>(k, r). \<not> p k r) (filter (\<lambda>x. tx_active (snd x)) (tm_transfers s))"
    by (simp add: drop_tx_def filter_filter conj_commute split_beta)
  then show ?thesis unfolding active_view_def by (metis subseq_filter_left subseq_map)
qed

lemma subseq_set: "subseq xs ys \<Longrightarrow> set xs \<subseteq> set ys"
  by (induction rule: list_emb.induct) auto

lemma subseq_distinct: "subseq xs ys \<Longrightarrow> distinct ys \<Longrightarrow> distinct xs"
proof (induction rule: list_emb.induct)
  case (list_emb_Cons2 x y xs ys)
  then show ?case by (auto dest: list_emb_set)
qed auto

text \<open>What keeps the invariant when nothing is inserted.\<close>

lemma tx_inv_shrink:
  assumes inv: "tx_inv s" and sub: "subseq (active_view s') (active_view s)"
    and keys: "distinct (map fst (tm_transfers s'))"
    and recs: "\<forall>(k, r)\<in>set (tm_transfers s'). ti_transfer_id (tx_info r) = k
                 \<and> (tx_active r \<longrightarrow> (tx_status r = Paused \<longleftrightarrow> tx_paused r))"
    and live: "\<And>v. v \<in> set (active_view s') \<Longrightarrow>
                 snd (snd v) \<in> set (tm_live s) \<union> set (tm_closing s) \<or> fst v \<in> set (tm_doomed s) \<Longrightarrow>
                 snd (snd v) \<in> set (tm_live s') \<union> set (tm_closing s') \<or> fst v \<in> set (tm_doomed s')"
  shows "tx_inv s'"
proof -
  have "distinct (map (\<lambda>v. fst (snd v)) (active_view s'))"
    using inv subseq_distinct [OF subseq_map [OF sub]] by (auto simp: tx_inv_def)
  moreover have "length (filter (\<lambda>v. snd (snd v) = i) (active_view s')) \<le> MAX_PENDING_TRANSFERS_PER_SFTP" for i
    using inv list_emb_length [OF subseq_filter [OF sub]] unfolding tx_inv_def by (meson le_trans)
  moreover have "set (active_view s') \<subseteq> set (active_view s)"
    using sub by (rule subseq_set)
  ultimately show ?thesis
    using inv keys recs live unfolding tx_inv_def by blast
qed

lemma tx_inv_update:
  assumes "tx_inv s"
    and "\<And>r. tx_active (f r) \<Longrightarrow> tx_active r" "\<And>r. tx_staging (f r) = tx_staging r"
    and "\<And>r. tx_sftp (f r) = tx_sftp r" "\<And>r. ti_transfer_id (tx_info (f r)) = ti_transfer_id (tx_info r)"
    and "\<And>r. tx_active (f r) \<Longrightarrow> (tx_status r = Paused \<longleftrightarrow> tx_paused r) \<Longrightarrow> (tx_status (f r) = Paused \<longleftrightarrow> tx_paused (f r))"
  shows "tx_inv (update_tx i f s)"
proof (rule tx_inv_shrink [OF assms(1) active_view_update])
  show "distinct (map fst (tm_transfers (update_tx i f s)))"
    using assms(1) by (simp add: tx_inv_def update_tx_def del: map_map)
  show "\<forall>(k, r)\<in>set (tm_transfers (update_tx i f s)). ti_transfer_id (tx_info r) = k
      \<and> (tx_active r \<longrightarrow> (tx_status r = Paused \<longleftrightarrow> tx_paused r))"
  proof -
    have "ti_transfer_id (tx_info (if k = i then f r else r)) = k
        \<and> (tx_active (if k = i then f r else r) \<longrightarrow>
             (tx_status (if k = i then f r else r) = Paused \<longleftrightarrow> tx_paused (if k = i then f r else r)))"
      if m: "(k, r) \<in> set (tm_transfers s)" for k r
    proof -
      have old: "ti_transfer_id (tx_info r) = k" "tx_active r \<longrightarrow> (tx_status r = Paused \<longleftrightarrow> tx_paused r)"
        using assms(1) m by (auto simp: tx_inv_def)
      show ?thesis using old assms(2,5,6) [of r] by (cases "k = i") auto
    qed
    moreover have "\<exists>r\<^sub>0. (k, r\<^sub>0) \<in> set (tm_transfers s) \<and> r = (if k = i then f r\<^sub>0 else r\<^sub>0)"
      if "(k, r) \<in> set (tm_transfers (update_tx i f s))" for k r
      using that by (auto simp: update_tx_def split: if_splits)
    ultimately show ?thesis by blast
  qed
qed (use assms in auto)

lemma tx_inv_drop: "tx_inv s \<Longrightarrow> tx_inv (drop_tx p s)"
  by (rule tx_inv_shrink [OF _ active_view_drop])
     (auto simp: tx_inv_def drop_tx_def distinct_map_filter)

text \<open>Fields the invariant does not mention.\<close>

lemma tx_inv_fields [simp]:
  "tx_inv (s\<lparr>tm_cancels := x\<rparr>) = tx_inv s" "tx_inv (s\<lparr>tm_orphans := y\<rparr>) = tx_inv s"
  "tx_inv (s\<lparr>tm_removed := z\<rparr>) = tx_inv s"
  by (simp_all add: tx_inv_def active_view_def)

lemma tx_inv_cleanup [simp]:
  "tx_inv (cleanup_transfer_staging d p b s) = tx_inv s"
  "tx_inv (cleanup_transfer_record_staging r s) = tx_inv s"
  by (simp_all add: cleanup_transfer_record_staging_def cleanup_transfer_staging_def split: transfer_direction.split)

section \<open>Every section keeps the invariant\<close>

lemma tx_inv_marks:
  assumes "tx_inv s"
  shows "tx_inv (mark_transfer_progress i n v t s)" "tx_inv (mark_transfer_running i t s)"
    "tx_inv (mark_transfer_completed i n t s)" "tx_inv (mark_transfer_failed i e t s)"
  unfolding mark_transfer_progress_def mark_transfer_running_def mark_transfer_completed_def mark_transfer_failed_def
  by (rule tx_inv_update [OF assms]; simp split: if_splits)+

text \<open>Writing back a changed copy of the record found is an update.\<close>

lemma update_found:
  assumes "tx_inv s" "find_tx i s = Some r"
  shows "update_tx i (\<lambda>_. g r) s = update_tx i g s"
proof -
  have "(i, r') \<in> set (tm_transfers s) \<Longrightarrow> r' = r" for r'
    using assms by (metis find_tx_def map_of_eq_Some_iff option.inject tx_inv_def)
  then have "map (\<lambda>(k, x). if k = i then (k, g r) else (k, x)) (tm_transfers s)
      = map (\<lambda>(k, x). if k = i then (k, g x) else (k, x)) (tm_transfers s)"
    by (intro map_cong) auto
  then show ?thesis by (simp add: update_tx_def)
qed

lemma tx_inv_pause: "tx_inv s \<Longrightarrow> tx_inv (snd (transfer_pause i t s))"
proof (cases "find_tx i s")
  case (Some r)
  assume inv: "tx_inv s"
  let ?g = "\<lambda>r. if tx_status r \<in> {Queued, Running} then r\<lparr>tx_paused := True, tx_info := touch Paused 0 t (tx_info r)\<rparr> else r"
  have eq: "update_tx i (\<lambda>_. ?g r) s = update_tx i ?g s" by (rule update_found [OF inv Some])
  have upd: "tx_inv (update_tx i (\<lambda>_. ?g r) s)"
    unfolding eq by (rule tx_inv_update [OF inv]) (auto split: if_splits)
  have "snd (transfer_pause i t s) = s \<or> snd (transfer_pause i t s) = update_tx i (\<lambda>_. ?g r) s"
    using Some by (simp add: transfer_pause_def Let_def)
  then show ?thesis
  proof
    assume e: "snd (transfer_pause i t s) = s"
    show ?thesis unfolding e by (rule inv)
  next
    assume e: "snd (transfer_pause i t s) = update_tx i (\<lambda>_. ?g r) s"
    show ?thesis unfolding e by (rule upd)
  qed
qed (simp add: transfer_pause_def)

lemma tx_inv_resume: "tx_inv s \<Longrightarrow> tx_inv (snd (transfer_resume i t s))"
proof (cases "find_tx i s")
  case (Some r)
  assume inv: "tx_inv s"
  let ?g = "\<lambda>r. if tx_status r = Paused then r\<lparr>tx_paused := False, tx_info := (tx_info r)\<lparr>ti_status :=
      (if tx_started r then Running else Queued), ti_updated_at := t\<rparr>\<rparr> else r"
  have eq: "update_tx i (\<lambda>_. ?g r) s = update_tx i ?g s" by (rule update_found [OF inv Some])
  have upd: "tx_inv (update_tx i (\<lambda>_. ?g r) s)"
    unfolding eq by (rule tx_inv_update [OF inv]) (auto split: if_splits)
  have "snd (transfer_resume i t s) = s \<or> snd (transfer_resume i t s) = update_tx i (\<lambda>_. ?g r) s"
    using Some by (simp add: transfer_resume_def Let_def)
  then show ?thesis
  proof
    assume e: "snd (transfer_resume i t s) = s"
    show ?thesis unfolding e by (rule inv)
  next
    assume e: "snd (transfer_resume i t s) = update_tx i (\<lambda>_. ?g r) s"
    show ?thesis unfolding e by (rule upd)
  qed
qed (simp add: transfer_resume_def)

lemma cancel_begin_update:
  assumes inv: "tx_inv s" and f: "find_tx i s = Some r" "tx_active r"
  shows "snd (cancel_begin i reason t s) = (update_tx i (\<lambda>r. r\<lparr>tx_cancel := True, tx_handle := False,
      tx_info := (touch Canceled 0 t (tx_info r))\<lparr>ti_error := Some reason\<rparr>\<rparr>) s)\<lparr>tm_cancels := r # tm_cancels s\<rparr>"
  using f(2) update_found [OF inv f(1), of "\<lambda>r. r\<lparr>tx_cancel := True, tx_handle := False,
      tx_info := (touch Canceled 0 t (tx_info r))\<lparr>ti_error := Some reason\<rparr>\<rparr>"]
  by (simp add: cancel_begin_def f(1) Let_def)

lemma cancel_begin_unchanged:
  "find_tx i s = None \<or> (\<exists>r. find_tx i s = Some r \<and> \<not> tx_active r) \<Longrightarrow> snd (cancel_begin i reason t s) = s"
  by (auto simp: cancel_begin_def)

lemma tx_inv_cancel: "tx_inv s \<Longrightarrow> tx_inv (snd (cancel_begin i reason t s))"
proof (cases "\<exists>r. find_tx i s = Some r \<and> tx_active r")
  case True
  assume inv: "tx_inv s"
  from True obtain r where r: "find_tx i s = Some r" "tx_active r" by blast
  show ?thesis unfolding cancel_begin_update [OF inv r] tx_inv_fields
    by (rule tx_inv_update [OF inv]) simp_all
next
  case False
  then show "tx_inv s \<Longrightarrow> ?thesis" using cancel_begin_unchanged [of i s] by (cases "find_tx i s") auto
qed

lemma tx_inv_insert:
  assumes inv: "tx_inv s" and ok: "op_allowed (OpInsert r) s"
  shows "tx_inv (snd (insert_transfer r s))"
proof (cases "\<exists>u. fst (insert_transfer r s) = Inr u")
  case False
  then have "snd (insert_transfer r s) = s" by (auto simp: insert_transfer_def split: if_splits)
  then show ?thesis using inv by simp
next
  case True
  let ?i = "ti_transfer_id (tx_info r)"
  have live: "tx_sftp r \<in> set (tm_live s)" and cnt: "active_on (tx_sftp r) s < MAX_PENDING_TRANSFERS_PER_SFTP"
    and uniq: "\<not> list_ex (\<lambda>(k, x). tx_staging x = tx_staging r \<and> tx_active x) (tm_transfers s)"
    using True by (auto simp: insert_transfer_def split: if_splits)
  have s': "snd (insert_transfer r s) = s\<lparr>tm_transfers := tm_transfers s @ [(?i, r)]\<rparr>"
    using True by (auto simp: insert_transfer_def split: if_splits)
  have queued: "tx_status r = Queued" "\<not> tx_paused r" and fresh: "?i \<notin> fst ` set (tm_transfers s)"
    using ok by (auto simp: op_allowed_def find_tx_def map_of_eq_None_iff)
  have av: "active_view (snd (insert_transfer r s)) = active_view s @ [(?i, tx_staging r, tx_sftp r)]"
    using queued by (simp add: s' active_view_def view_def)
  have "length (filter (\<lambda>v. snd (snd v) = tx_sftp r) (active_view s)) = active_on (tx_sftp r) s"
    unfolding active_view_def active_on_def
    by (auto simp: filter_map comp_def view_def split_beta intro!: arg_cong [where f = length] filter_cong)
  moreover have "tx_staging r \<notin> (\<lambda>v. fst (snd v)) ` set (active_view s)"
    using uniq by (auto simp: active_view_def view_def list_ex_iff)
  ultimately show ?thesis
    using inv live cnt fresh queued unfolding tx_inv_def av by (auto simp: s')
qed

lemma load_shape:
  "\<exists>new. tm_transfers (load_transfers t ps s) = tm_transfers s @ new \<and> (\<forall>(k, r)\<in>set new. \<not> tx_active r
      \<and> ti_transfer_id (tx_info r) = k)
    \<and> (distinct (map fst (tm_transfers s)) \<longrightarrow> distinct (map fst (tm_transfers s @ new)))
    \<and> tm_live (load_transfers t ps s) = tm_live s \<and> tm_closing (load_transfers t ps s) = tm_closing s
    \<and> tm_doomed (load_transfers t ps s) = tm_doomed s"
proof (induction t ps s rule: load_transfers.induct)
  case (2 t p ps s)
  let ?r = "loaded_record t p"
  let ?i = "ti_transfer_id (tx_info ?r)"
  have fin: "\<not> tx_active ?r"
    by (auto simp: loaded_record_def normalize_loaded_transfer_def Let_def split: if_splits)
  show ?case
  proof (cases "find_tx ?i s = None")
    case True
    then have fresh: "?i \<notin> fst ` set (tm_transfers s)" by (simp add: find_tx_def map_of_eq_None_iff)
    from 2 [OF refl refl] True obtain new where
      "tm_transfers (load_transfers t (p # ps) s) = (tm_transfers s @ [(?i, ?r)]) @ new"
      "\<forall>(k, r)\<in>set new. \<not> tx_active r \<and> ti_transfer_id (tx_info r) = k"
      "distinct (map fst (tm_transfers s @ [(?i, ?r)])) \<longrightarrow> distinct (map fst ((tm_transfers s @ [(?i, ?r)]) @ new))"
      "tm_live (load_transfers t (p # ps) s) = tm_live s" "tm_closing (load_transfers t (p # ps) s) = tm_closing s"
      "tm_doomed (load_transfers t (p # ps) s) = tm_doomed s"
      by (auto simp: Let_def)
    then show ?thesis using fin fresh by (intro exI [of _ "(?i, ?r) # new"]) auto
  next
    case False
    with 2 [OF refl refl] show ?thesis by (auto simp: Let_def)
  qed
qed (auto intro: exI [of _ "[]"])

lemma tx_inv_load: "tx_inv s \<Longrightarrow> tx_inv (load_transfers t ps s)"
proof -
  assume inv: "tx_inv s"
  obtain new where new: "tm_transfers (load_transfers t ps s) = tm_transfers s @ new"
    "\<forall>(k, r)\<in>set new. \<not> tx_active r \<and> ti_transfer_id (tx_info r) = k"
    "distinct (map fst (tm_transfers s)) \<longrightarrow> distinct (map fst (tm_transfers s @ new))"
    "tm_live (load_transfers t ps s) = tm_live s" "tm_closing (load_transfers t ps s) = tm_closing s"
    "tm_doomed (load_transfers t ps s) = tm_doomed s"
    using load_shape [of t ps s] by blast
  have "filter (\<lambda>x. tx_active (snd x)) new = []" using new(2) by (auto simp: filter_empty_conv)
  then have av: "active_view (load_transfers t ps s) = active_view s" by (simp add: active_view_def new(1))
  show ?thesis
  proof (rule tx_inv_shrink [OF inv])
    show "distinct (map fst (tm_transfers (load_transfers t ps s)))" using inv new by (simp add: tx_inv_def)
    show "\<forall>(k, r)\<in>set (tm_transfers (load_transfers t ps s)). ti_transfer_id (tx_info r) = k
        \<and> (tx_active r \<longrightarrow> (tx_status r = Paused \<longleftrightarrow> tx_paused r))"
      using inv new(1,2) by (auto simp: tx_inv_def)
  qed (simp_all add: av new)
qed

lemma tx_inv_doomed:
  assumes inv: "tx_inv s"
  shows "tx_inv (cancel_doomed i reason t s)"
proof -
  let ?s = "snd (cancel_begin i reason t s)"
  have inv': "tx_inv ?s" by (rule tx_inv_cancel [OF inv])
  have gone: "v \<in> set (active_view ?s) \<Longrightarrow> fst v \<noteq> i" for v
  proof -
    assume v: "v \<in> set (active_view ?s)"
    show "fst v \<noteq> i"
    proof
      assume i: "fst v = i"
      from v obtain r where r: "(i, r) \<in> set (tm_transfers ?s)" "tx_active r"
        using i by (auto simp: active_view_def view_def)
      then have f: "find_tx i ?s = Some r"
        using inv' by (simp add: find_tx_def tx_inv_def)
      show False
      proof (cases "\<exists>r0. find_tx i s = Some r0 \<and> tx_active r0")
        case True
        then obtain r0 where r0: "find_tx i s = Some r0" "tx_active r0" by blast
        have "\<not> tx_active r"
          using f r0 unfolding cancel_begin_update [OF inv r0]
          by (auto simp: find_tx_def update_tx_def map_of_update)
        then show False using r by simp
      next
        case False
        then have "?s = s" using cancel_begin_unchanged by (metis option.exhaust)
        then show False using False f r by auto
      qed
    qed
  qed
  show ?thesis
    unfolding cancel_doomed_def Let_def
    by (rule tx_inv_shrink [OF inv'])
       (use inv' gone in \<open>auto simp: tx_inv_def active_view_def\<close>)
qed

lemma tx_inv_collect:
  assumes inv: "tx_inv s"
  shows "tx_inv (collect_transfers ids s)"
proof (rule tx_inv_shrink [OF inv])
  fix v assume v: "v \<in> set (active_view (collect_transfers ids s))"
    and old: "snd (snd v) \<in> set (tm_live s) \<union> set (tm_closing s) \<or> fst v \<in> set (tm_doomed s)"
  obtain k r where kr: "(k, r) \<in> set (tm_transfers s)" "tx_active r" "v = (k, tx_staging r, tx_sftp r)"
    using v by (auto simp: active_view_def view_def collect_transfers_def)
  show "snd (snd v) \<in> set (tm_live (collect_transfers ids s)) \<union> set (tm_closing (collect_transfers ids s))
      \<or> fst v \<in> set (tm_doomed (collect_transfers ids s))"
    using old kr by (cases "tx_sftp r \<in> set ids") (force simp: collect_transfers_def)+
qed (use inv in \<open>auto simp: tx_inv_def active_view_def collect_transfers_def\<close>)

lemma tx_inv_apply:
  assumes inv: "tx_inv s" and ok: "op_allowed p s"
  shows "tx_inv (apply_op p s)"
proof (cases p)
  case (OpRemove i)
  then show ?thesis using inv by (auto simp: transfer_remove_def intro: tx_inv_drop split: option.splits)
next
  case OpCleanup
  then show ?thesis using inv by (auto simp: cleanup_next_orphan_def split: list.splits)
next
  case (OpPublish i)
  then show ?thesis using inv
    by (auto simp: publish_sftp_def intro!: tx_inv_shrink [OF inv] simp: tx_inv_def active_view_def)
next
  case (OpUnpublish i)
  then show ?thesis using inv
    by (auto simp: unpublish_sftp_def intro!: tx_inv_shrink [OF inv] simp: tx_inv_def active_view_def)
qed (use inv ok in \<open>auto simp: tx_inv_insert tx_inv_marks tx_inv_pause tx_inv_resume tx_inv_cancel tx_inv_drop
      tx_inv_load tx_inv_doomed tx_inv_collect cancel_finish_def Let_def retry_drop_def clear_finished_def
      prune_transfer_history_def\<close>)

lemma tx_inv_initial: "tx_initial s \<Longrightarrow> tx_inv s"
  by (simp add: tx_initial_def tx_inv_def active_view_def)

interpretation transfers: invariant_system tx_step tx_initial tx_inv
  by unfold_locales (auto intro: tx_inv_initial tx_inv_apply elim: tx_stepE)

lemma distinct_view:
  assumes "distinct (map (\<lambda>v. fst (snd v)) (map view (filter P xs)))"
    and "(a, x) \<in> set xs" "(b, y) \<in> set xs" "P (a, x)" "P (b, y)" "tx_staging x = tx_staging y"
  shows "a = b"
  using assms by (induction xs) (force simp: view_def split: if_splits)+

text \<open>C25: in every reachable state, under any interleaving of starts, pauses, progress reports, cancellations,
  retries, history loading and closing sessions: two active transfers never share a staging file, a session
  has at most 128 of them, the pause flag of an active one is what its status says, and once no closing of
  a session is under way every active transfer belongs to a live session.\<close>

theorem transfer_store_safe:
  assumes "tx_initial s0" and "tx_step\<^sup>*\<^sup>* s0 s"
  shows "(\<forall>a x b y. (a, x) \<in> set (tm_transfers s) \<and> (b, y) \<in> set (tm_transfers s) \<and> tx_active x \<and> tx_active y
            \<and> tx_staging x = tx_staging y \<longrightarrow> a = b)
    \<and> active_on i s \<le> 128
    \<and> (\<forall>(k, r)\<in>set (tm_transfers s). tx_active r \<longrightarrow> (tx_status r = Paused \<longleftrightarrow> tx_paused r))
    \<and> (tm_closing s = [] \<and> tm_doomed s = [] \<longrightarrow>
         (\<forall>(k, r)\<in>set (tm_transfers s). tx_active r \<longrightarrow> tx_sftp r \<in> set (tm_live s)))"
proof -
  have inv: "tx_inv s" by (rule transfers.reach_inv [OF assms])
  have uniq: "a = b" if "(a, x) \<in> set (tm_transfers s)" "(b, y) \<in> set (tm_transfers s)" "tx_active x" "tx_active y"
      "tx_staging x = tx_staging y" for a x b y
    using distinct_view [OF _ that(1,2)] inv that by (auto simp: tx_inv_def active_view_def)
  have "active_on i s = length (filter (\<lambda>v. snd (snd v) = i) (active_view s))"
    unfolding active_view_def active_on_def
    by (auto simp: filter_map comp_def view_def split_beta intro!: arg_cong [where f = length] filter_cong)
  then have cnt: "active_on i s \<le> 128"
    using inv by (simp add: tx_inv_def MAX_PENDING_TRANSFERS_PER_SFTP_def)
  have view: "(k, tx_staging r, tx_sftp r) \<in> set (active_view s)"
    if "(k, r) \<in> set (tm_transfers s)" "tx_active r" for k r
    using that by (force simp: active_view_def view_def)
  have "tx_sftp r \<in> set (tm_live s)"
    if "tm_closing s = []" "tm_doomed s = []" "(k, r) \<in> set (tm_transfers s)" "tx_active r" for k r
    using inv view [OF that(3,4)] that(1,2) unfolding tx_inv_def by fastforce
  with uniq cnt inv show ?thesis by (auto simp: tx_inv_def)
qed

definition demo_tx :: "string \<Rightarrow> transfer_record" where
  "demo_tx i = new_transfer (demo_request\<lparr>tq_sftp_id := ''s''\<rparr>) ''c'' \<lparr>ss_bytes_total = 32 * 1024 * 1024, ss_modified_marker = ''1''\<rparr>
     ''/tmp/.helm.part'' i ''t0''"

definition demo_store :: transfer_store where
  "demo_store = \<lparr>tm_transfers = [], tm_live = [], tm_closing = [], tm_doomed = [], tm_cancels = [],
     tm_orphans = [], tm_removed = []\<rparr>"

definition run_ops :: "tx_op list \<Rightarrow> transfer_store \<Rightarrow> transfer_store" where
  "run_ops ps s = foldl (\<lambda>s p. apply_op p s) s ps"

fun ops_allowed :: "tx_op list \<Rightarrow> transfer_store \<Rightarrow> bool" where
  "ops_allowed [] s = True"
| "ops_allowed (p # ps) s = (op_allowed p s \<and> ops_allowed ps (apply_op p s))"

lemma run_ops_reach: "ops_allowed ps s \<Longrightarrow> tx_step\<^sup>*\<^sup>* s (run_ops ps s)"
proof (induction ps arbitrary: s)
  case (Cons p ps)
  then have "tx_step s (apply_op p s)" by (auto intro: tx_step.intros)
  moreover have "tx_step\<^sup>*\<^sup>* (apply_op p s) (run_ops ps (apply_op p s))" using Cons by simp
  ultimately show ?case by (simp add: run_ops_def)
qed (simp add: run_ops_def)

theorem transfer_store_safe_witness:
  "\<exists>s. tx_step\<^sup>*\<^sup>* demo_store s \<and> length (tm_transfers s) = 1 \<and> active_on ''s'' s \<le> 128"
proof -
  let ?ps = "[OpPublish ''s'', OpInsert (demo_tx ''a'')]"
  let ?s = "run_ops ?ps demo_store"
  have ok: "ops_allowed ?ps demo_store"
    by (simp add: op_allowed_def demo_tx_def new_transfer_def demo_store_def publish_sftp_def find_tx_def)
  have "tx_initial demo_store" by (simp add: tx_initial_def demo_store_def)
  moreover have "length (tm_transfers ?s) = 1"
    by (simp add: run_ops_def demo_tx_def new_transfer_def demo_store_def publish_sftp_def insert_transfer_def
        active_on_def demo_request_def MAX_PENDING_TRANSFERS_PER_SFTP_def)
  ultimately show ?thesis using run_ops_reach [OF ok] transfer_store_safe by blast
qed

section \<open>Finished transfers\<close>

lemma apply_keeps_finished:
  assumes inv: "tx_inv s" and ok: "op_allowed p s" and f: "find_tx i s = Some r" "\<not> tx_active r"
  shows "find_tx i (apply_op p s) = None \<or> find_tx i (apply_op p s) = Some r"
proof -
  have dist: "distinct (map fst (tm_transfers s))" using inv by (simp add: tx_inv_def)
  have upd: "find_tx i (update_tx j g s) = Some r" if "\<not> tx_active r \<Longrightarrow> g r = r" for j g
    using f that by (auto simp: find_update)
  have drop: "find_tx i (drop_tx P s) = None \<or> find_tx i (drop_tx P s) = Some r" for P
    using f by (simp add: find_drop [OF dist])
  have cancel: "find_tx i (snd (cancel_begin j e t s)) = Some r" for j e t
    using f by (auto simp: cancel_begin_def Let_def find_tx_def update_tx_def map_of_update split: option.splits)
  have load: "find_tx i (load_transfers t ps s) = Some r" for t ps
    using load_shape [of t ps s] f by (auto simp: find_tx_def map_add_def)
  show ?thesis
  proof (cases p)
    case (OpPause j t)
    then show ?thesis using f by (auto simp: transfer_pause_def Let_def find_update split: option.splits if_splits)
  next
    case (OpResume j t)
    then show ?thesis using f by (auto simp: transfer_resume_def Let_def find_update split: option.splits if_splits)
  next
    case (OpCancelDoomed j e t)
    then show ?thesis using cancel [of j e t] by (simp add: cancel_doomed_def Let_def find_tx_def)
  next
    case (OpInsert x)
    then show ?thesis using f by (auto simp: insert_transfer_def find_tx_def map_add_def)
  next
    case (OpRemove j)
    then show ?thesis using f drop by (auto simp: transfer_remove_def split: option.splits)
  next
    case OpCleanup
    then show ?thesis using f
      by (auto simp: cleanup_next_orphan_def cleanup_transfer_record_staging_def cleanup_transfer_staging_def find_tx_def
          split: list.splits transfer_direction.splits)
  next
    case (OpCancelFinish x b)
    then show ?thesis using f
      by (auto simp: cancel_finish_def Let_def cleanup_transfer_staging_def find_tx_def split: transfer_direction.splits)
  next
    case (OpLoad t ps)
    then show ?thesis using load by simp
  next
    case (OpCancel j e t)
    then show ?thesis using cancel by simp
  qed (use f drop upd in \<open>auto simp: mark_transfer_progress_def mark_transfer_running_def mark_transfer_completed_def
        mark_transfer_failed_def find_update retry_drop_def clear_finished_def prune_transfer_history_def Let_def
        publish_sftp_def unpublish_sftp_def collect_transfers_def find_tx_def\<close>)
qed

text \<open>A finished transfer is final: whatever arrives late (progress, completion, failure, pause, resume,
  cancellation, a reload of the history), its record stays as it is until it is removed.\<close>

theorem transfer_finished_final:
  assumes "tx_initial s0" "tx_step\<^sup>*\<^sup>* s0 s" "tx_step s s'" "find_tx i s = Some r" "\<not> tx_active r"
  shows "find_tx i s' = None \<or> find_tx i s' = Some r"
proof -
  obtain p where "op_allowed p s" "s' = apply_op p s" using assms(3) by (rule tx_stepE)
  then show ?thesis using apply_keeps_finished [OF transfers.reach_inv [OF assms(1,2)] _ assms(4,5)] by simp
qed

theorem transfer_finished_final_witness:
  "\<exists>s r. find_tx ''a'' s = Some r \<and> tx_status r = Canceled
     \<and> (find_tx ''a'' (apply_op (OpCompleted ''a'' 5 ''t2'') s) = None
        \<or> find_tx ''a'' (apply_op (OpCompleted ''a'' 5 ''t2'') s) = Some r)"
proof -
  let ?ps = "[OpPublish ''s'', OpInsert (demo_tx ''a''), OpCancel ''a'' ''stop'' ''t1'']"
  let ?s = "run_ops ?ps demo_store"
  have ok: "ops_allowed ?ps demo_store"
    by (simp add: op_allowed_def demo_tx_def new_transfer_def demo_store_def publish_sftp_def find_tx_def)
  have "tx_initial demo_store" by (simp add: tx_initial_def demo_store_def)
  moreover obtain r where r: "find_tx ''a'' ?s = Some r" "tx_status r = Canceled"
    by (simp add: run_ops_def demo_tx_def new_transfer_def demo_store_def publish_sftp_def insert_transfer_def
        active_on_def demo_request_def MAX_PENDING_TRANSFERS_PER_SFTP_def find_tx_def cancel_begin_def Let_def
        update_tx_def touch_def)
  moreover have "tx_step ?s (apply_op (OpCompleted ''a'' 5 ''t2'') ?s)"
    by (rule tx_step.intros) (simp add: op_allowed_def)
  moreover have "\<not> tx_active r" using r(2) by simp
  ultimately show ?thesis using transfer_finished_final [OF _ run_ops_reach [OF ok]] by blast
qed

section \<open>Staging files\<close>

text \<open>Cleaning up after a removed record never touches the staging file of a registered one.\<close>

lemma cleanup_spares_registered:
  assumes "(d, p) \<in> set (tm_removed (cleanup_transfer_record_staging r s))" "(d, p) \<notin> set (tm_removed s)"
    and "(k, x) \<in> set (tm_transfers s)" "k \<noteq> ti_transfer_id (tx_info r)"
  shows "tx_staging x \<noteq> p"
  using assms
  by (auto simp: cleanup_transfer_record_staging_def cleanup_transfer_staging_def list_ex_iff
      split: if_splits transfer_direction.splits)

text \<open>A forced cancellation does: it marks the record as canceled at once, so within the three seconds it
  waits for the old task a retry may start on the same staging file, which it then removes.\<close>

lemma forced_cancel_removes_active_staging:
  "let s = run_ops [OpPublish ''s'', OpInsert (demo_tx ''a''), OpCancel ''a'' ''stop'' ''t1'', OpInsert (demo_tx ''b''),
             OpRetryDrop ''a'', OpCleanup] demo_store;
       s' = apply_op (OpCancelFinish (demo_tx ''a'') True) s
   in (\<exists>r. find_tx ''b'' s' = Some r \<and> tx_active r \<and> (Download, tx_staging r) \<in> set (tm_removed s'))
      \<and> tm_removed s = [] \<and> demo_tx ''a'' \<in> set (tm_cancels s)"
  by (simp add: run_ops_def demo_tx_def new_transfer_def demo_store_def publish_sftp_def insert_transfer_def
        active_on_def demo_request_def MAX_PENDING_TRANSFERS_PER_SFTP_def find_tx_def cancel_begin_def Let_def
        update_tx_def touch_def retry_drop_def drop_tx_def cleanup_next_orphan_def cleanup_transfer_record_staging_def
        cancel_finish_def cleanup_transfer_staging_def transfer_worker_parts_def PARALLEL_DOWNLOAD_THRESHOLD_def
        PARALLEL_DOWNLOAD_PARTS_def MAX_SFTP_TRANSFER_CONCURRENCY_def)

end
