(* ===== verification/Api_Limits.thy ===== *)
theory Api_Limits
  imports App_Errors Permits
begin

text \<open>
  \<open>ApiExecutionLimiter\<close> (\<open>api\_server/mod.rs\<close>): one semaphore per session and a global one. The semaphores
  live on a heap, named by their index, because a session can lose its entry in the map and get a new
  semaphore later while tasks still hold the old one; \<open>Arc::strong\_count\<close> is 1 for the map plus the tasks
  that hold a clone. A step is one atomic access by one task, or an update of the authorised sessions.
\<close>

definition MAX_API_EXEC_CONCURRENCY :: nat where "MAX_API_EXEC_CONCURRENCY = 16"
definition MAX_API_EXEC_CONCURRENCY_PER_SESSION :: nat where "MAX_API_EXEC_CONCURRENCY_PER_SESSION = 4"

datatype exec_phase = WaitSession | WaitGlobal | Executing

record exec_task =
  et_session :: string
  et_sem :: nat
  et_phase :: exec_phase

record limiter =
  lm_sessions :: "(string \<times> nat) list"
  lm_sems :: "semaphore list"
  lm_global :: semaphore
  lm_tasks :: "exec_task list"

text \<open>\<open>entry(..).or\_insert\_with(..)\<close>.\<close>

definition session_entry :: "string \<Rightarrow> limiter \<Rightarrow> nat \<times> limiter" where
  "session_entry sid l =
     (case map_of (lm_sessions l) sid of
        Some k \<Rightarrow> (k, l)
      | None \<Rightarrow>
          (length (lm_sems l),
           l\<lparr>lm_sessions := lm_sessions l @ [(sid, length (lm_sems l))],
             lm_sems := lm_sems l @ [sem_new MAX_API_EXEC_CONCURRENCY_PER_SESSION]\<rparr>))"

definition limiter_empty :: limiter where
  "limiter_empty = \<lparr>lm_sessions = [], lm_sems = [], lm_global = sem_new MAX_API_EXEC_CONCURRENCY, lm_tasks = []\<rparr>"

definition add_entries :: "string list \<Rightarrow> limiter \<Rightarrow> limiter" where
  "add_entries ids l = foldl (\<lambda>l sid. snd (session_entry sid l)) l ids"

definition limiter_new :: "string list \<Rightarrow> limiter" where
  "limiter_new allowed_session_ids = add_entries allowed_session_ids limiter_empty"

definition strong_count :: "nat \<Rightarrow> limiter \<Rightarrow> nat" where
  "strong_count k l = 1 + length (filter (\<lambda>t. et_sem t = k) (lm_tasks l))"

definition update_sessions :: "string list \<Rightarrow> limiter \<Rightarrow> limiter" where
  "update_sessions allowed_session_ids l =
     add_entries allowed_session_ids
       (l\<lparr>lm_sessions := filter (\<lambda>(sid, k). sid \<in> set allowed_session_ids \<or> strong_count k l > 1) (lm_sessions l)\<rparr>)"

section \<open>The steps of \<open>acquire\<close> and of a permit\<close>

definition acquire_enter :: "string \<Rightarrow> limiter \<Rightarrow> limiter" where
  "acquire_enter sid l =
     (case session_entry sid l of
        (k, l') \<Rightarrow> l'\<lparr>lm_tasks := lm_tasks l' @ [\<lparr>et_session = sid, et_sem = k, et_phase = WaitSession\<rparr>]\<rparr>)"

definition set_phase :: "nat \<Rightarrow> exec_phase \<Rightarrow> limiter \<Rightarrow> limiter" where
  "set_phase i ph l = l\<lparr>lm_tasks := (lm_tasks l)[i := (lm_tasks l ! i)\<lparr>et_phase := ph\<rparr>]\<rparr>"

definition drop_task :: "nat \<Rightarrow> limiter \<Rightarrow> limiter" where
  "drop_task i l = l\<lparr>lm_tasks := take i (lm_tasks l) @ drop (Suc i) (lm_tasks l)\<rparr>"

definition acquire_session :: "nat \<Rightarrow> limiter \<Rightarrow> limiter" where
  "acquire_session i l =
     (let t = lm_tasks l ! i in
      case sem_acquire 1 (lm_sems l ! et_sem t) of
        Acquired s \<Rightarrow> (set_phase i WaitGlobal l)\<lparr>lm_sems := (lm_sems l)[et_sem t := s]\<rparr>
      | _ \<Rightarrow> l)"

definition acquire_global :: "nat \<Rightarrow> limiter \<Rightarrow> limiter" where
  "acquire_global i l =
     (case sem_acquire 1 (lm_global l) of
        Acquired s \<Rightarrow> (set_phase i Executing l)\<lparr>lm_global := s\<rparr>
      | _ \<Rightarrow> l)"

text \<open>Dropping a waiting or executing task gives back the permits it holds; the timeout of three seconds
  drops a waiting one.\<close>

definition finish_task :: "nat \<Rightarrow> limiter \<Rightarrow> limiter" where
  "finish_task i l =
     (let t = lm_tasks l ! i;
          l1 = (if et_phase t = WaitSession then l
                else l\<lparr>lm_sems := (lm_sems l)[et_sem t := sem_add 1 (lm_sems l ! et_sem t)]\<rparr>);
          l2 = (if et_phase t = Executing then l1\<lparr>lm_global := sem_add 1 (lm_global l1)\<rparr> else l1)
      in drop_task i l2)"

inductive limiter_step :: "limiter \<Rightarrow> limiter \<Rightarrow> bool" where
  enter: "limiter_step l (acquire_enter sid l)"
| session: "i < length (lm_tasks l) \<Longrightarrow> et_phase (lm_tasks l ! i) = WaitSession \<Longrightarrow>
    limiter_step l (acquire_session i l)"
| global: "i < length (lm_tasks l) \<Longrightarrow> et_phase (lm_tasks l ! i) = WaitGlobal \<Longrightarrow>
    limiter_step l (acquire_global i l)"
| finish: "i < length (lm_tasks l) \<Longrightarrow> limiter_step l (finish_task i l)"
| update: "limiter_step l (update_sessions ids l)"

inductive_cases limiter_stepE: "limiter_step l l'"

section \<open>Invariant\<close>

definition holds_session :: "nat \<Rightarrow> exec_task \<Rightarrow> bool" where
  "holds_session k t \<longleftrightarrow> et_sem t = k \<and> et_phase t \<noteq> WaitSession"

definition executing :: "exec_task \<Rightarrow> bool" where
  "executing t \<longleftrightarrow> et_phase t = Executing"

definition count :: "('a \<Rightarrow> bool) \<Rightarrow> 'a list \<Rightarrow> nat" where
  "count p xs = length (filter p xs)"

lemma count_simps [simp]:
  "count p [] = 0" "count p (x # xs) = (if p x then 1 else 0) + count p xs"
  "count p (xs @ ys) = count p xs + count p ys"
  by (simp_all add: count_def)

lemma count_update:
  assumes "i < length xs"
  shows "count p (xs[i := y]) + (if p (xs ! i) then 1 else 0) = count p xs + (if p y then 1 else 0)"
proof -
  have new: "xs[i := y] = take i xs @ y # drop (Suc i) xs" and old: "xs = take i xs @ xs ! i # drop (Suc i) xs"
    using assms by (simp_all add: upd_conv_take_nth_drop id_take_nth_drop)
  have "count p xs = count p (take i xs) + ((if p (xs ! i) then 1 else 0) + count p (drop (Suc i) xs))"
    by (subst old) (simp only: count_simps)
  then show ?thesis by (simp add: new)
qed

lemma count_drop:
  assumes "i < length xs"
  shows "count p (take i xs @ drop (Suc i) xs) + (if p (xs ! i) then 1 else 0) = count p xs"
proof -
  have "xs = take i xs @ xs ! i # drop (Suc i) xs" using assms by (simp add: id_take_nth_drop)
  then have "count p xs = count p (take i xs) + ((if p (xs ! i) then 1 else 0) + count p (drop (Suc i) xs))"
    by (metis count_simps(2,3))
  then show ?thesis by simp
qed

text \<open>The map and the tasks of a session name the same semaphore; permits out and available add up.\<close>

definition limiter_inv :: "limiter \<Rightarrow> bool" where
  "limiter_inv l \<longleftrightarrow>
     distinct (map fst (lm_sessions l)) \<and> distinct (map snd (lm_sessions l))
     \<and> (\<forall>(sid, k)\<in>set (lm_sessions l). k < length (lm_sems l))
     \<and> (\<forall>t\<in>set (lm_tasks l). (et_session t, et_sem t) \<in> set (lm_sessions l))
     \<and> (\<forall>k<length (lm_sems l). \<not> sem_closed (lm_sems l ! k) \<and>
          sem_available (lm_sems l ! k) + count (holds_session k) (lm_tasks l) = MAX_API_EXEC_CONCURRENCY_PER_SESSION)
     \<and> \<not> sem_closed (lm_global l)
     \<and> sem_available (lm_global l) + count executing (lm_tasks l) = MAX_API_EXEC_CONCURRENCY"

lemma no_holders:
  assumes "limiter_inv l" "length (lm_sems l) \<le> k"
  shows "count (holds_session k) (lm_tasks l) = 0"
  using assms by (fastforce simp: limiter_inv_def count_def filter_empty_conv holds_session_def)

lemma entry_inv:
  assumes inv: "limiter_inv l" and e: "session_entry sid l = (k, l')"
  shows "limiter_inv l'" "(sid, k) \<in> set (lm_sessions l')" "k < length (lm_sems l')" "lm_tasks l' = lm_tasks l"
proof -
  show "lm_tasks l' = lm_tasks l" using e by (auto simp: session_entry_def split: option.splits)
  show "(sid, k) \<in> set (lm_sessions l')" using e by (auto simp: session_entry_def map_of_SomeD split: option.splits)
  show i': "limiter_inv l'"
  proof (cases "map_of (lm_sessions l) sid")
    case (Some k')
    then show ?thesis using e inv by (simp add: session_entry_def)
  next
    case None
    then have l': "l' = l\<lparr>lm_sessions := lm_sessions l @ [(sid, length (lm_sems l))],
        lm_sems := lm_sems l @ [sem_new MAX_API_EXEC_CONCURRENCY_PER_SESSION]\<rparr>"
      using e by (auto simp: session_entry_def)
    have "sid \<notin> fst ` set (lm_sessions l)" using None by (simp add: map_of_eq_None_iff)
    moreover have "length (lm_sems l) \<notin> snd ` set (lm_sessions l)"
      using inv by (auto simp: limiter_inv_def)
    ultimately show ?thesis
      using inv no_holders [OF inv order.refl] unfolding l' limiter_inv_def
      by (auto simp: nth_append less_Suc_eq)
  qed
  show "k < length (lm_sems l')"
    using i' \<open>(sid, k) \<in> set (lm_sessions l')\<close> by (auto simp: limiter_inv_def)
qed

lemma add_entries_inv: "limiter_inv l \<Longrightarrow> limiter_inv (add_entries ids l)"
  unfolding add_entries_def
proof (induction ids arbitrary: l)
  case (Cons sid ids)
  obtain k l' where e: "session_entry sid l = (k, l')" by (metis prod.exhaust)
  then show ?case using Cons entry_inv(1) [OF Cons.prems e] by simp
qed simp

lemma enter_inv:
  assumes inv: "limiter_inv l"
  shows "limiter_inv (acquire_enter sid l)"
proof -
  obtain k l' where e: "session_entry sid l = (k, l')" by (metis prod.exhaust)
  note f = entry_inv [OF inv e]
  then show ?thesis using e
    by (auto simp: acquire_enter_def limiter_inv_def holds_session_def executing_def)
qed

lemma task_facts:
  assumes inv: "limiter_inv l" and i: "i < length (lm_tasks l)" "t = lm_tasks l ! i"
  shows "(et_session t, et_sem t) \<in> set (lm_sessions l)" "et_sem t < length (lm_sems l)"
  using assms by (fastforce simp: limiter_inv_def)+

lemma set_phase_tasks:
  assumes "i < length (lm_tasks l)" "t \<in> set (lm_tasks (set_phase i ph l))"
  shows "\<exists>u\<in>set (lm_tasks l). et_session t = et_session u \<and> et_sem t = et_sem u"
  using assms set_update_subset_insert [of "lm_tasks l" i] by (fastforce simp: set_phase_def)

lemma session_inv:
  assumes inv: "limiter_inv l" and i: "i < length (lm_tasks l)" and ph: "et_phase (lm_tasks l ! i) = WaitSession"
  shows "limiter_inv (acquire_session i l)"
proof (cases "sem_acquire 1 (lm_sems l ! et_sem (lm_tasks l ! i))")
  case (Acquired s)
  let ?t = "lm_tasks l ! i"
  let ?k = "et_sem ?t"
  note tf = task_facts [OF inv i refl]
  have s: "sem_available s + 1 = sem_available (lm_sems l ! ?k)" "\<not> sem_closed s"
    using Acquired by (auto simp: sem_acquire_Acquired)
  have l': "acquire_session i l = (set_phase i WaitGlobal l)\<lparr>lm_sems := (lm_sems l)[?k := s]\<rparr>"
    using Acquired by (simp add: acquire_session_def Let_def)
  have cs: "count (holds_session k) (lm_tasks (set_phase i WaitGlobal l))
      = count (holds_session k) (lm_tasks l) + (if k = ?k then 1 else 0)" for k
    using count_update [OF i, of "holds_session k" "?t\<lparr>et_phase := WaitGlobal\<rparr>"] ph
    by (simp add: set_phase_def holds_session_def split: if_splits)
  have ce: "count executing (lm_tasks (set_phase i WaitGlobal l)) = count executing (lm_tasks l)"
    using count_update [OF i, of executing "?t\<lparr>et_phase := WaitGlobal\<rparr>"] ph
    by (simp add: set_phase_def executing_def split: if_splits)
  have fr: "lm_sessions (set_phase i WaitGlobal l) = lm_sessions l" "lm_global (set_phase i WaitGlobal l) = lm_global l"
    by (simp_all add: set_phase_def)
  show ?thesis
    unfolding l' limiter_inv_def
    using inv set_phase_tasks [OF i, where ph = WaitGlobal] s tf(2)
    by (auto simp: limiter_inv_def cs ce fr nth_list_update) fastforce+
qed (use inv in \<open>simp_all add: acquire_session_def Let_def\<close>)

lemma global_inv:
  assumes inv: "limiter_inv l" and i: "i < length (lm_tasks l)" and ph: "et_phase (lm_tasks l ! i) = WaitGlobal"
  shows "limiter_inv (acquire_global i l)"
proof (cases "sem_acquire 1 (lm_global l)")
  case (Acquired s)
  let ?t = "lm_tasks l ! i"
  have s: "sem_available s + 1 = sem_available (lm_global l)" "\<not> sem_closed s"
    using Acquired by (auto simp: sem_acquire_Acquired)
  have l': "acquire_global i l = (set_phase i Executing l)\<lparr>lm_global := s\<rparr>"
    using Acquired by (simp add: acquire_global_def)
  have cs: "count (holds_session k) (lm_tasks (set_phase i Executing l)) = count (holds_session k) (lm_tasks l)" for k
    using count_update [OF i, of "holds_session k" "?t\<lparr>et_phase := Executing\<rparr>"] ph
    by (simp add: set_phase_def holds_session_def split: if_splits)
  have ce: "count executing (lm_tasks (set_phase i Executing l)) = count executing (lm_tasks l) + 1"
    using count_update [OF i, of executing "?t\<lparr>et_phase := Executing\<rparr>"] ph
    by (simp add: set_phase_def executing_def split: if_splits)
  have fr: "lm_sessions (set_phase i Executing l) = lm_sessions l" "lm_sems (set_phase i Executing l) = lm_sems l"
    by (simp_all add: set_phase_def)
  show ?thesis
    unfolding l' limiter_inv_def
    using inv set_phase_tasks [OF i, where ph = Executing] s
    by (auto simp: limiter_inv_def cs ce fr) fastforce+
qed (use inv in \<open>simp_all add: acquire_global_def\<close>)

lemma finish_inv:
  assumes inv: "limiter_inv l" and i: "i < length (lm_tasks l)"
  shows "limiter_inv (finish_task i l)"
proof -
  let ?t = "lm_tasks l ! i"
  let ?k = "et_sem ?t"
  let ?ts = "take i (lm_tasks l) @ drop (Suc i) (lm_tasks l)"
  note tf = task_facts [OF inv i refl]
  have tasks: "lm_tasks (finish_task i l) = ?ts" and sess: "lm_sessions (finish_task i l) = lm_sessions l"
    and sems: "lm_sems (finish_task i l) = (if et_phase ?t = WaitSession then lm_sems l
        else (lm_sems l)[?k := sem_add 1 (lm_sems l ! ?k)])"
    and glob: "lm_global (finish_task i l) = (if et_phase ?t = Executing then sem_add 1 (lm_global l) else lm_global l)"
    by (simp_all add: finish_task_def drop_task_def Let_def)
  have sub: "set ?ts \<subseteq> set (lm_tasks l)" by (auto dest: in_set_takeD in_set_dropD)
  have cs: "count (holds_session k) ?ts + (if holds_session k ?t then 1 else 0) = count (holds_session k) (lm_tasks l)" for k
    by (rule count_drop [OF i])
  have ce: "count executing ?ts + (if executing ?t then 1 else 0) = count executing (lm_tasks l)"
    by (rule count_drop [OF i])
  have old: "\<not> sem_closed (lm_sems l ! k)"
      "sem_available (lm_sems l ! k) + count (holds_session k) (lm_tasks l) = MAX_API_EXEC_CONCURRENCY_PER_SESSION"
    if "k < length (lm_sems l)" for k using inv that by (auto simp: limiter_inv_def)
  have "\<not> sem_closed (lm_sems (finish_task i l) ! k)
      \<and> sem_available (lm_sems (finish_task i l) ! k) + count (holds_session k) ?ts = MAX_API_EXEC_CONCURRENCY_PER_SESSION"
    if k: "k < length (lm_sems l)" for k
    using old [OF k] cs [of k] tf(2) by (cases "k = ?k") (auto simp: sems holds_session_def split: if_splits)
  moreover have "\<not> sem_closed (lm_global (finish_task i l))
      \<and> sem_available (lm_global (finish_task i l)) + count executing ?ts = MAX_API_EXEC_CONCURRENCY"
    using inv ce by (auto simp: limiter_inv_def glob executing_def split: if_splits)
  ultimately show ?thesis
    using inv sub unfolding limiter_inv_def tasks sess by (auto simp: sems)
qed

lemma update_inv:
  assumes inv: "limiter_inv l"
  shows "limiter_inv (update_sessions ids l)"
proof -
  let ?keep = "\<lambda>(sid, k). sid \<in> set ids \<or> strong_count k l > 1"
  let ?l = "l\<lparr>lm_sessions := filter ?keep (lm_sessions l)\<rparr>"
  have "strong_count (et_sem t) l > 1" if "t \<in> set (lm_tasks l)" for t
    using that by (auto simp: strong_count_def filter_empty_conv)
  then have "\<forall>t\<in>set (lm_tasks l). (et_session t, et_sem t) \<in> set (filter ?keep (lm_sessions l))"
    using inv by (auto simp: limiter_inv_def)
  then have "limiter_inv ?l"
    using inv by (auto simp: limiter_inv_def distinct_map_filter)
  then show ?thesis unfolding update_sessions_def by (rule add_entries_inv)
qed

lemma new_inv: "limiter_inv (limiter_new ids)"
  unfolding limiter_new_def
  by (rule add_entries_inv) (simp add: limiter_inv_def limiter_empty_def)

interpretation limits: invariant_system limiter_step "\<lambda>l. \<exists>ids. l = limiter_new ids" limiter_inv
  by unfold_locales (auto intro: new_inv enter_inv session_inv global_inv finish_inv update_inv elim: limiter_stepE)

lemma same_semaphore:
  assumes "limiter_inv l" "t \<in> set (lm_tasks l)" "u \<in> set (lm_tasks l)" "et_session t = et_session u"
  shows "et_sem t = et_sem u"
  using assms by (metis (no_types, lifting) eq_key_imp_eq_value limiter_inv_def)

text \<open>C26: at most 16 API commands execute at a time and at most four of any one session, however requests
  arrive, wait, time out and finish, and however the set of authorised sessions changes meanwhile: revoking
  a session and authorising it again does not give it a second allowance.\<close>

theorem api_execution_bounded:
  assumes "limiter_step\<^sup>*\<^sup>* (limiter_new ids) l"
  shows "length (filter executing (lm_tasks l)) \<le> 16
    \<and> length (filter (\<lambda>t. executing t \<and> et_session t = sid) (lm_tasks l)) \<le> 4"
proof -
  have inv: "limiter_inv l" by (rule limits.reach_inv [OF _ assms]) blast
  then have g: "count executing (lm_tasks l) \<le> 16"
    by (simp add: limiter_inv_def MAX_API_EXEC_CONCURRENCY_def)
  let ?mine = "filter (\<lambda>t. executing t \<and> et_session t = sid) (lm_tasks l)"
  have "length ?mine \<le> 4"
  proof (cases "?mine")
    case (Cons t ts)
    then have "t \<in> set ?mine" by simp
    then have t: "t \<in> set (lm_tasks l)" "et_session t = sid" by auto
    have "length ?mine \<le> length (filter (holds_session (et_sem t)) (lm_tasks l))"
    proof -
      have "?mine = filter (\<lambda>u. executing u \<and> et_session u = sid) (filter (holds_session (et_sem t)) (lm_tasks l))"
        using same_semaphore [OF inv _ t(1)] t(2)
        by (auto simp: holds_session_def executing_def intro!: filter_cong)
      then show ?thesis by (metis length_filter_le)
    qed
    also have "\<dots> \<le> 4"
      using inv task_facts(2) [OF inv] t(1)
      by (auto simp: limiter_inv_def count_def MAX_API_EXEC_CONCURRENCY_PER_SESSION_def in_set_conv_nth)
         (metis add_leD2 eq_refl)
    finally show ?thesis .
  qed simp
  with g show ?thesis by (simp add: count_def)
qed

theorem api_execution_bounded_witness:
  "\<exists>l. limiter_step\<^sup>*\<^sup>* (limiter_new [''a'']) l \<and> length (lm_tasks l) = 1
     \<and> length (filter (\<lambda>t. executing t \<and> et_session t = ''a'') (lm_tasks l)) \<le> 4"
proof -
  let ?l = "acquire_enter ''a'' (limiter_new [''a''])"
  have r: "limiter_step\<^sup>*\<^sup>* (limiter_new [''a'']) ?l" by (rule r_into_rtranclp) (rule limiter_step.enter)
  moreover have "length (lm_tasks ?l) = 1"
    by (simp add: acquire_enter_def session_entry_def limiter_new_def add_entries_def limiter_empty_def)
  ultimately show ?thesis using api_execution_bounded [OF r, of "''a''"] by blast
qed

end
