(* ===== verification/Jobs.thy ===== *)
theory Jobs
  imports App_Errors Utf8
begin

text \<open>
  \<open>api\_server/jobs.rs\<close>, the record of one API job: its status machine, the bounded output tails and
  the bounded, replayable event history. Each section the code runs under the record's write lock is
  one atomic function; the step relation interleaves these sections in any order, including the reads
  of the cancel flag outside the lock. The clock and the length of a serialised summary
  (\<open>serde\_json::to\_vec\<close>) come from the argument \<open>job\_env\<close>.
\<close>

definition MAX_JOB_EVENTS :: nat where "MAX_JOB_EVENTS = 1024"
definition MAX_JOB_EVENT_BYTES :: nat where "MAX_JOB_EVENT_BYTES = 4 * 1024 * 1024"
definition MAX_JOB_OUTPUT_BYTES :: nat where "MAX_JOB_OUTPUT_BYTES = 1024 * 1024"

section \<open>Data\<close>

datatype job_status =
  Queued | Connecting | Running | Canceling | Completed | Failed | Canceled | TimedOut

definition job_is_terminal :: "job_status \<Rightarrow> bool" where
  "job_is_terminal s \<longleftrightarrow> s \<in> {Completed, Failed, Canceled, TimedOut}"

definition job_is_active :: "job_status \<Rightarrow> bool" where
  "job_is_active s \<longleftrightarrow> \<not> job_is_terminal s"

record job_summary =
  jb_job_id :: string
  jb_session_id :: string
  jb_command_preview :: string
  jb_status :: job_status
  jb_timeout_ms :: nat
  jb_created_at :: string
  jb_started_at :: "string option"
  jb_completed_at :: "string option"
  jb_exit_status :: "32 word option"
  jb_duration_ms :: "nat option"
  jb_queue_ms :: "nat option"
  jb_connection_ms :: "nat option"
  jb_channel_open_ms :: "nat option"
  jb_execution_ms :: "nat option"
  jb_timed_out :: bool
  jb_error :: "string option"
  jb_stdout_bytes :: nat
  jb_stderr_bytes :: nat
  jb_output_truncated :: bool
  jb_last_event_id :: nat

text \<open>A snapshot has the fields of a summary and the two output texts.\<close>

record job_snapshot = job_summary +
  jb_stdout :: string
  jb_stderr :: string

definition summary_from :: "job_snapshot \<Rightarrow> job_summary" where
  "summary_from s = job_summary.truncate s"

datatype job_event_data = JobData job_summary | SnapshotData job_snapshot | TextData string

record job_event =
  ev_id :: nat
  ev_event :: string
  ev_timestamp :: string
  ev_data :: job_event_data

record stored_job_event =
  se_event :: job_event
  se_bytes :: nat

record bounded_text_tail =
  bt_bytes :: string
  bt_max_bytes :: nat

record job_state =
  js_snapshot :: job_snapshot
  js_stdout :: bounded_text_tail
  js_stderr :: bounded_text_tail
  js_events :: "stored_job_event list"
  js_event_bytes :: nat
  js_next_event_id :: nat
  js_created_at_instant :: nat
  js_completed_at_instant :: "nat option"

text \<open>The record: the locked state, the watch channel's flag, whether a task handle is attached.\<close>

record job_record =
  jr_state :: job_state
  jr_cancel :: bool
  jr_handle :: bool

record exec_result =
  xr_stdout_bytes :: nat
  xr_stderr_bytes :: nat
  xr_output_truncated :: bool
  xr_exit_status :: "32 word option"
  xr_duration_ms :: nat
  xr_execution_ms :: nat
  xr_channel_open_ms :: nat
  xr_connection_ms :: nat
  xr_queue_ms :: nat
  xr_timed_out :: bool

record job_env =
  je_now :: string
  je_instant :: nat
  je_json_len :: "job_event_data \<Rightarrow> nat"

section \<open>Bounded output tails\<close>

definition text_tail_new :: "nat \<Rightarrow> bounded_text_tail" where
  "text_tail_new max_bytes = \<lparr>bt_bytes = [], bt_max_bytes = max max_bytes 1\<rparr>"

function skip_to_boundary :: "string \<Rightarrow> nat \<Rightarrow> nat" where
  "skip_to_boundary text k =
     (if k < length text \<and> \<not> is_boundary text k then skip_to_boundary text (k + 1) else k)"
  by pat_completeness auto
termination
  by (relation "measure (\<lambda>(text, k). length text - k)") auto

declare skip_to_boundary.simps [simp del]

definition text_tail_push :: "string \<Rightarrow> bounded_text_tail \<Rightarrow> bounded_text_tail \<times> bool" where
  "text_tail_push text t =
     (if length text \<ge> bt_max_bytes t then
        (let keep_from = skip_to_boundary text (length text - bt_max_bytes t) in
         (t\<lparr>bt_bytes := drop keep_from text\<rparr>, True))
      else
        (let bytes = bt_bytes t @ text;
             overflow = length bytes - bt_max_bytes t in
         if overflow = 0 then (t\<lparr>bt_bytes := bytes\<rparr>, False)
         else (t\<lparr>bt_bytes := dropWhile is_cont (drop overflow bytes)\<rparr>, True)))"

text \<open>\<open>as\_string\<close>: \<open>None\<close> stands for the lossy conversion after \<open>from\_utf8\<close> failed.\<close>

definition text_tail_as_string :: "bounded_text_tail \<Rightarrow> string option" where
  "text_tail_as_string t = (if valid_utf8 (bt_bytes t) then Some (bt_bytes t) else None)"

section \<open>Events\<close>

definition estimate_event_bytes :: "job_env \<Rightarrow> job_event \<Rightarrow> nat option \<Rightarrow> nat" where
  "estimate_event_bytes E ev hint =
     sat_add64 (sat_add64 (sat_add64 (length (ev_event ev)) (length (ev_timestamp ev)))
       (case hint of Some n \<Rightarrow> n | None \<Rightarrow> je_json_len E (ev_data ev))) 64"

fun trim_events :: "stored_job_event list \<Rightarrow> nat \<Rightarrow> stored_job_event list \<times> nat" where
  "trim_events [] sz = ([], sz)"
| "trim_events (e # es) sz =
     (if length (e # es) > MAX_JOB_EVENTS \<or> sz > MAX_JOB_EVENT_BYTES
      then trim_events es (sz - se_bytes e) else (e # es, sz))"

definition push_event ::
  "job_env \<Rightarrow> string \<Rightarrow> job_event_data option \<Rightarrow> nat option \<Rightarrow> job_state \<Rightarrow> job_state" where
  "push_event E event_name d hint st =
     (let i = js_next_event_id st;
          snap = (js_snapshot st)\<lparr>jb_last_event_id := i\<rparr>;
          ev = \<lparr>ev_id = i, ev_event = event_name, ev_timestamp = je_now E,
                ev_data = (case d of Some v \<Rightarrow> v | None \<Rightarrow> JobData (summary_from snap))\<rparr>;
          bytes = estimate_event_bytes E ev hint;
          (es, sz) = trim_events (js_events st @ [\<lparr>se_event = ev, se_bytes = bytes\<rparr>])
                          (sat_add64 (js_event_bytes st) bytes)
      in st\<lparr>js_snapshot := snap, js_events := es, js_event_bytes := sz,
            js_next_event_id := sat_add64 i 1\<rparr>)"

section \<open>Operations\<close>

text \<open>\<open>JobRecord::new\<close>; \<open>json!\<close> of the first event is the summary.\<close>

definition job_record_new :: "job_env \<Rightarrow> string \<Rightarrow> string \<Rightarrow> string \<Rightarrow> nat \<Rightarrow> job_record" where
  "job_record_new E uuid session_id command_preview timeout_ms =
     (let snap = \<lparr>jb_job_id = ''job_'' @ uuid, jb_session_id = session_id,
            jb_command_preview = command_preview, jb_status = Queued, jb_timeout_ms = timeout_ms,
            jb_created_at = je_now E, jb_started_at = None, jb_completed_at = None,
            jb_exit_status = None, jb_duration_ms = None, jb_queue_ms = None,
            jb_connection_ms = None, jb_channel_open_ms = None, jb_execution_ms = None,
            jb_timed_out = False, jb_error = None, jb_stdout_bytes = 0, jb_stderr_bytes = 0,
            jb_output_truncated = False, jb_last_event_id = 1, jb_stdout = [], jb_stderr = []\<rparr>;
          ev = \<lparr>ev_id = 1, ev_event = ''queued'', ev_timestamp = je_now E,
                ev_data = JobData (summary_from snap)\<rparr>;
          bytes = estimate_event_bytes E ev None
      in \<lparr>jr_state = \<lparr>js_snapshot = snap, js_stdout = text_tail_new MAX_JOB_OUTPUT_BYTES,
            js_stderr = text_tail_new MAX_JOB_OUTPUT_BYTES,
            js_events = [\<lparr>se_event = ev, se_bytes = bytes\<rparr>], js_event_bytes = bytes,
            js_next_event_id = 2, js_created_at_instant = je_instant E,
            js_completed_at_instant = None\<rparr>,
          jr_cancel = False, jr_handle = False\<rparr>)"

abbreviation status_of :: "job_record \<Rightarrow> job_status" where
  "status_of r \<equiv> jb_status (js_snapshot (jr_state r))"

definition map_snapshot :: "(job_snapshot \<Rightarrow> job_snapshot) \<Rightarrow> job_state \<Rightarrow> job_state" where
  "map_snapshot f st = st\<lparr>js_snapshot := f (js_snapshot st)\<rparr>"

definition elapsed_ms :: "job_env \<Rightarrow> job_state \<Rightarrow> nat" where
  "elapsed_ms E st = min (je_instant E - js_created_at_instant st) u64_max"

definition finish_canceled :: "job_env \<Rightarrow> job_record \<Rightarrow> job_record" where
  "finish_canceled E r =
     (let st = jr_state r in
      if job_is_terminal (jb_status (js_snapshot st)) then r
      else r\<lparr>jr_state := push_event E ''canceled'' None None
             ((map_snapshot (\<lambda>s. s\<lparr>jb_status := Canceled,
                 jb_duration_ms := (case jb_duration_ms s of
                    None \<Rightarrow> Some (elapsed_ms E st) | Some d \<Rightarrow> Some d),
                 jb_completed_at := Some (je_now E)\<rparr>) st)
               \<lparr>js_completed_at_instant := Some (je_instant E)\<rparr>)\<rparr>)"

text \<open>What a guarded section decides once it holds the lock: run the cancel path, return, or go on.\<close>

datatype section_verdict = GiveUp | AlreadyDone | Proceed

definition lock_verdict :: "job_record \<Rightarrow> section_verdict" where
  "lock_verdict r =
     (if jr_cancel r \<or> status_of r = Canceling then GiveUp
      else if job_is_terminal (status_of r) then AlreadyDone else Proceed)"

text \<open>The locked section of a guarded operation, and the operation as a task runs it when nothing
  interferes: \<open>GiveUp\<close> releases the lock and calls \<open>finish\_canceled\<close>.\<close>

definition mark_running_locked :: "job_env \<Rightarrow> job_record \<Rightarrow> job_record" where
  "mark_running_locked E r =
     (if lock_verdict r \<noteq> Proceed then r
      else r\<lparr>jr_state := push_event E ''running'' None None
             (map_snapshot (\<lambda>s. s\<lparr>jb_status := Running,
                jb_started_at := (case jb_started_at s of
                   None \<Rightarrow> Some (je_now E) | Some t \<Rightarrow> Some t)\<rparr>) (jr_state r))\<rparr>)"

definition mark_connecting_locked :: "job_env \<Rightarrow> job_record \<Rightarrow> job_record" where
  "mark_connecting_locked E r =
     (if lock_verdict r \<noteq> Proceed then r
      else r\<lparr>jr_state := push_event E ''connecting'' None None
             (map_snapshot (\<lambda>s. s\<lparr>jb_status := Connecting, jb_started_at := Some (je_now E)\<rparr>)
                (jr_state r))\<rparr>)"

definition append_output_locked :: "job_env \<Rightarrow> bool \<Rightarrow> string \<Rightarrow> job_record \<Rightarrow> job_record" where
  "append_output_locked E is_stdout text r =
     (if text = [] \<or> lock_verdict r \<noteq> Proceed then r
      else
        (let st = jr_state r;
             n = length text;
             (tail, truncated) =
               text_tail_push text (if is_stdout then js_stdout st else js_stderr st);
             st1 = (if is_stdout
                    then (map_snapshot (\<lambda>s. s\<lparr>jb_stdout_bytes := sat_add64 (jb_stdout_bytes s) n\<rparr>) st)
                           \<lparr>js_stdout := tail\<rparr>
                    else (map_snapshot (\<lambda>s. s\<lparr>jb_stderr_bytes := sat_add64 (jb_stderr_bytes s) n\<rparr>) st)
                           \<lparr>js_stderr := tail\<rparr>);
             st2 = map_snapshot (\<lambda>s. s\<lparr>jb_output_truncated := (jb_output_truncated s \<or> truncated)\<rparr>) st1
         in r\<lparr>jr_state := push_event E (if is_stdout then ''stdout'' else ''stderr'')
                (Some (TextData text)) (Some (sat_add64 (sat_mul64 n 7) 128)) st2\<rparr>))"

definition finish_result_locked :: "job_env \<Rightarrow> exec_result \<Rightarrow> job_record \<Rightarrow> job_record" where
  "finish_result_locked E x r =
     (if lock_verdict r \<noteq> Proceed then r
      else
        (let (status, event_name) =
               (if xr_timed_out x then (TimedOut, ''timedOut'')
                else if xr_exit_status x = Some 0 then (Completed, ''completed'')
                else (Failed, ''failed''))
         in r\<lparr>jr_state := push_event E event_name None None
              ((map_snapshot (\<lambda>s. s\<lparr>jb_stdout_bytes := xr_stdout_bytes x,
                  jb_stderr_bytes := xr_stderr_bytes x,
                  jb_output_truncated := (jb_output_truncated s \<or> xr_output_truncated x),
                  jb_exit_status := xr_exit_status x,
                  jb_duration_ms := Some (min (xr_duration_ms x) u64_max),
                  jb_queue_ms := Some (min (xr_queue_ms x) u64_max),
                  jb_connection_ms := Some (min (xr_connection_ms x) u64_max),
                  jb_channel_open_ms := Some (min (xr_channel_open_ms x) u64_max),
                  jb_execution_ms := Some (min (xr_execution_ms x) u64_max),
                  jb_timed_out := xr_timed_out x, jb_completed_at := Some (je_now E),
                  jb_status := status\<rparr>) (jr_state r))
                \<lparr>js_completed_at_instant := Some (je_instant E)\<rparr>)\<rparr>))"

definition finish_error_locked :: "job_env \<Rightarrow> string \<Rightarrow> job_record \<Rightarrow> job_record" where
  "finish_error_locked E err r =
     (if lock_verdict r \<noteq> Proceed then r
      else r\<lparr>jr_state := push_event E ''failed'' None None
             ((map_snapshot (\<lambda>s. s\<lparr>jb_status := Failed, jb_error := Some err,
                 jb_duration_ms := (case jb_duration_ms s of
                    None \<Rightarrow> Some (elapsed_ms E (jr_state r)) | Some d \<Rightarrow> Some d),
                 jb_completed_at := Some (je_now E)\<rparr>) (jr_state r))
               \<lparr>js_completed_at_instant := Some (je_instant E)\<rparr>)\<rparr>)"

text \<open>\<open>request\_cancel\<close>: the locked section, then, outside the lock, the flag.\<close>

definition request_cancel_locked :: "job_env \<Rightarrow> job_record \<Rightarrow> job_record \<times> bool" where
  "request_cancel_locked E r =
     (if job_is_terminal (status_of r) \<or> status_of r = Canceling then (r, False)
      else (r\<lparr>jr_state := push_event E ''canceling'' None None
               (map_snapshot (\<lambda>s. s\<lparr>jb_status := Canceling\<rparr>) (jr_state r))\<rparr>, True))"

definition raise_cancel_flag :: "job_record \<Rightarrow> job_record" where
  "raise_cancel_flag r = r\<lparr>jr_cancel := True\<rparr>"

definition request_cancel :: "job_env \<Rightarrow> job_record \<Rightarrow> job_record \<times> bool" where
  "request_cancel E r =
     (case request_cancel_locked E r of
        (r', True) \<Rightarrow> (raise_cancel_flag r', True)
      | (r', False) \<Rightarrow> (r', False))"

text \<open>The operations as one task runs them without interference.\<close>

definition guarded :: "job_env \<Rightarrow> (job_record \<Rightarrow> job_record) \<Rightarrow> job_record \<Rightarrow> job_record" where
  "guarded E body r =
     (if jr_cancel r \<or> lock_verdict r = GiveUp then finish_canceled E r else body r)"

definition mark_running :: "job_env \<Rightarrow> job_record \<Rightarrow> job_record \<times> bool" where
  "mark_running E r = (guarded E (mark_running_locked E) r, lock_verdict r = Proceed)"

definition mark_connecting :: "job_env \<Rightarrow> job_record \<Rightarrow> job_record \<times> bool" where
  "mark_connecting E r = (guarded E (mark_connecting_locked E) r, lock_verdict r = Proceed)"

definition append_output :: "job_env \<Rightarrow> bool \<Rightarrow> string \<Rightarrow> job_record \<Rightarrow> job_record" where
  "append_output E is_stdout text r =
     (if text = [] then r else guarded E (append_output_locked E is_stdout text) r)"

definition finish_result :: "job_env \<Rightarrow> exec_result \<Rightarrow> job_record \<Rightarrow> job_record" where
  "finish_result E x r = guarded E (finish_result_locked E x) r"

definition finish_error :: "job_env \<Rightarrow> string \<Rightarrow> job_record \<Rightarrow> job_record" where
  "finish_error E err r = guarded E (finish_error_locked E err) r"

definition set_connection_ms :: "nat \<Rightarrow> job_record \<Rightarrow> job_record" where
  "set_connection_ms v r = r\<lparr>jr_state :=
     map_snapshot (\<lambda>s. s\<lparr>jb_connection_ms := Some (min v u64_max)\<rparr>) (jr_state r)\<rparr>"

definition set_queue_ms :: "nat \<Rightarrow> job_record \<Rightarrow> job_record" where
  "set_queue_ms v r = r\<lparr>jr_state :=
     map_snapshot (\<lambda>s. s\<lparr>jb_queue_ms := Some (min v u64_max)\<rparr>) (jr_state r)\<rparr>"

definition attach_handle_record :: "job_record \<Rightarrow> job_record" where
  "attach_handle_record r = r\<lparr>jr_handle := True\<rparr>"

section \<open>Reading\<close>

text \<open>\<open>None\<close>: one of the tails needed the lossy conversion (it never does, see below).\<close>

definition snapshot_from_state :: "job_state \<Rightarrow> job_snapshot option" where
  "snapshot_from_state st =
     (case (text_tail_as_string (js_stdout st), text_tail_as_string (js_stderr st)) of
        (Some out, Some err) \<Rightarrow> Some ((js_snapshot st)\<lparr>jb_stdout := out, jb_stderr := err\<rparr>)
      | _ \<Rightarrow> None)"

record job_subscription =
  sub_initial :: "job_event list"
  sub_terminal :: bool
  sub_last_event_id :: nat

definition job_subscribe :: "nat \<Rightarrow> job_record \<Rightarrow> job_subscription" where
  "job_subscribe after_event_id r =
     (let st = jr_state r in
      \<lparr>sub_initial = map se_event (filter (\<lambda>e. ev_id (se_event e) > after_event_id) (js_events st)),
       sub_terminal = job_is_terminal (jb_status (js_snapshot st)),
       sub_last_event_id = max (jb_last_event_id (js_snapshot st)) after_event_id\<rparr>)"

definition snapshot_event :: "job_env \<Rightarrow> job_record \<Rightarrow> (job_event \<times> bool) option" where
  "snapshot_event E r =
     (let st = jr_state r in
      case snapshot_from_state st of
        None \<Rightarrow> None
      | Some snap \<Rightarrow>
          Some (\<lparr>ev_id = jb_last_event_id (js_snapshot st), ev_event = ''snapshot'',
                 ev_timestamp = je_now E, ev_data = SnapshotData snap\<rparr>,
                job_is_terminal (jb_status (js_snapshot st))))"

end
