(* ===== verification/Job_Machine.thy ===== *)
theory Job_Machine
  imports Jobs
begin

text \<open>
  What a job record promises, under any interleaving of the sections of its operations: the output
  tails are valid UTF-8 suffixes of bounded length, the event history is bounded and gap-free, the
  status follows the abstract machine \<open>job\_next\<close>, and a finished job never changes again.
\<close>

section \<open>Output tails\<close>

definition tail_wf :: "bounded_text_tail \<Rightarrow> bool" where
  "tail_wf t \<longleftrightarrow> valid_utf8 (bt_bytes t) \<and> length (bt_bytes t) \<le> bt_max_bytes t \<and> 0 < bt_max_bytes t"

lemma skip_to_boundary_spec:
  assumes "k \<le> length s"
  shows "k \<le> skip_to_boundary s k \<and> skip_to_boundary s k \<le> length s
    \<and> is_boundary s (skip_to_boundary s k)"
  using assms
proof (induction s k rule: skip_to_boundary.induct)
  case (1 s k)
  show ?case
  proof (cases "k < length s \<and> \<not> is_boundary s k")
    case True
    then have eq: "skip_to_boundary s k = skip_to_boundary s (k + 1)"
      by (simp add: skip_to_boundary.simps [of s k])
    with "1.IH" [OF True] True show ?thesis by auto
  next
    case False
    with 1 show ?thesis by (auto simp: skip_to_boundary.simps [of s k] is_boundary_def)
  qed
qed

lemma dropWhile_cont_boundary:
  assumes "k \<le> length s"
  shows "\<exists>i. k \<le> i \<and> dropWhile is_cont (drop k s) = drop i s \<and> is_boundary s i"
proof -
  let ?d = "drop k s"
  let ?n = "length (takeWhile is_cont ?d)"
  have "dropWhile is_cont ?d = drop ?n ?d" by (rule dropWhile_eq_drop)
  moreover have "is_boundary s (k + ?n)"
  proof (cases "k + ?n < length s")
    case True
    then have "?n < length ?d" by simp
    then have "\<not> is_cont (?d ! ?n)" using nth_length_takeWhile by blast
    with True show ?thesis by (simp add: is_boundary_def)
  next
    case False
    have "?n \<le> length ?d" by (rule length_takeWhile_le)
    with False assms show ?thesis by (simp add: is_boundary_def)
  qed
  ultimately show ?thesis by (intro exI [of _ "k + ?n"]) (simp add: add.commute)
qed

lemma text_tail_push_spec:
  assumes "tail_wf t" and "valid_utf8 text" and "text_tail_push text t = (t', b)"
  shows "tail_wf t' \<and> bt_max_bytes t' = bt_max_bytes t
    \<and> (\<exists>i. bt_bytes t' = drop i (bt_bytes t @ text))
    \<and> (\<not> b \<longrightarrow> bt_bytes t' = bt_bytes t @ text)"
proof (cases "length text \<ge> bt_max_bytes t")
  case True
  define k where "k = skip_to_boundary text (length text - bt_max_bytes t)"
  have k: "length text - bt_max_bytes t \<le> k" "k \<le> length text" "is_boundary text k"
    using skip_to_boundary_spec [of "length text - bt_max_bytes t" "text"] by (auto simp: k_def)
  have t': "t' = t\<lparr>bt_bytes := drop k text\<rparr>" "b"
    using assms(3) True by (auto simp: text_tail_push_def k_def Let_def)
  have "valid_utf8 (drop k text)" using valid_utf8_drop [OF assms(2) k(3)] .
  then have "tail_wf t'" using t' k assms(1) by (simp add: tail_wf_def)
  moreover have "bt_bytes t' = drop (length (bt_bytes t) + k) (bt_bytes t @ text)"
    by (simp add: t')
  then have "\<exists>i. bt_bytes t' = drop i (bt_bytes t @ text)" by blast
  ultimately show ?thesis using t' by simp
next
  case False
  let ?s = "bt_bytes t @ text"
  have vs: "valid_utf8 ?s" using assms(1,2) by (simp add: tail_wf_def valid_utf8_append)
  show ?thesis
  proof (cases "length ?s \<le> bt_max_bytes t")
    case True
    then have "t' = t\<lparr>bt_bytes := ?s\<rparr>" using assms(3) False by (auto simp: text_tail_push_def Let_def)
    moreover have "?s = drop 0 ?s" by simp
    ultimately show ?thesis using vs True assms(1) by (auto simp: tail_wf_def intro: exI [of _ 0])
  next
    case over: False
    let ?k = "length ?s - bt_max_bytes t"
    have t': "t' = t\<lparr>bt_bytes := dropWhile is_cont (drop ?k ?s)\<rparr>" "b"
      using assms(3) False over by (auto simp: text_tail_push_def Let_def)
    obtain i where i: "?k \<le> i" "dropWhile is_cont (drop ?k ?s) = drop i ?s" "is_boundary ?s i"
      using dropWhile_cont_boundary [of ?k ?s] by auto
    have "valid_utf8 (drop i ?s)" using valid_utf8_drop [OF vs i(3)] .
    then show ?thesis using t' i assms(1) by (auto simp: tail_wf_def)
  qed
qed

text \<open>A job's output tail stays valid UTF-8 of at most its limit of bytes, whatever chunks arrive:
  it is always a suffix of everything pushed, cut at a character boundary, it is complete as long as
  no truncation was reported, and \<open>as\_string\<close> never needs the lossy conversion.\<close>

theorem text_tail_bounded_suffix:
  assumes "\<forall>x\<in>set chunks. valid_utf8 x"
    and "fold (\<lambda>x (t, b). let (t', b') = text_tail_push x t in (t', b \<or> b')) chunks
           (text_tail_new m, False) = (t, b)"
  shows "length (bt_bytes t) \<le> max m 1 \<and> (\<exists>i. bt_bytes t = drop i (concat chunks))
    \<and> (\<not> b \<longrightarrow> bt_bytes t = concat chunks) \<and> text_tail_as_string t = Some (bt_bytes t)"
proof -
  let ?f = "\<lambda>x (t, b). let (t', b') = text_tail_push x t in (t', b \<or> b')"
  have gen: "tail_wf t \<and> bt_max_bytes t = M \<and> (\<exists>i. bt_bytes t = drop i (pre @ concat cs))
      \<and> (\<not> b \<longrightarrow> bt_bytes t = pre @ concat cs)"
    if "\<forall>x\<in>set cs. valid_utf8 x" "tail_wf t0" "bt_max_bytes t0 = M" "\<exists>i. bt_bytes t0 = drop i pre"
      "\<not> b0 \<longrightarrow> bt_bytes t0 = pre" "fold ?f cs (t0, b0) = (t, b)" for cs t0 b0 pre t b M
    using that
  proof (induction cs arbitrary: t0 b0 pre)
    case (Cons x cs)
    obtain t1 b1 where p: "text_tail_push x t0 = (t1, b1)" by (cases "text_tail_push x t0")
    have sp: "tail_wf t1" "bt_max_bytes t1 = M" "\<exists>i. bt_bytes t1 = drop i (bt_bytes t0 @ x)"
      "\<not> b1 \<longrightarrow> bt_bytes t1 = bt_bytes t0 @ x"
      using text_tail_push_spec [OF Cons.prems(2) _ p] Cons.prems(1,3) by auto
    obtain i j where ij: "bt_bytes t1 = drop i (bt_bytes t0 @ x)" "bt_bytes t0 = drop j pre"
      using sp(3) Cons.prems(4) by blast
    have "bt_bytes t0 @ x = drop (min j (length pre)) (pre @ x)" using ij(2) by (auto simp: min_def)
    then have suf: "\<exists>i. bt_bytes t1 = drop i (pre @ x)" using ij(1) by (metis drop_drop)
    have full: "\<not> (b0 \<or> b1) \<longrightarrow> bt_bytes t1 = pre @ x" using sp(4) Cons.prems(5) by auto
    have r: "fold ?f cs (t1, b0 \<or> b1) = (t, b)" using Cons.prems(6) p by simp
    have "\<forall>x\<in>set cs. valid_utf8 x" using Cons.prems(1) by simp
    from Cons.IH [OF this sp(1,2) suf full r] show ?case by simp
  qed auto
  have "tail_wf (text_tail_new m)" "bt_max_bytes (text_tail_new m) = max m 1"
    "bt_bytes (text_tail_new m) = []"
    by (auto simp: tail_wf_def text_tail_new_def)
  from gen [OF assms(1) this(1,2) _ _ assms(2), of "[]"] this(3)
  show ?thesis by (auto simp: tail_wf_def text_tail_as_string_def)
qed

theorem text_tail_bounded_suffix_witness:
  "\<exists>t b. fold (\<lambda>x (t, b). let (t', b') = text_tail_push x t in (t', b \<or> b'))
           [''abc'', ''defg''] (text_tail_new 5, False) = (t, b)
     \<and> length (bt_bytes t) \<le> 5 \<and> text_tail_as_string t = Some (bt_bytes t)"
proof -
  have v: "\<forall>x\<in>set [''abc'', ''defg'']. valid_utf8 x"
    by (simp add: valid_utf8.simps(2) utf8_width.simps(2) byte_in_def byte_of_def)
  obtain t b where f: "fold (\<lambda>x (t, b). let (t', b') = text_tail_push x t in (t', b \<or> b'))
           [''abc'', ''defg''] (text_tail_new 5, False) = (t, b)" by (metis prod.exhaust)
  from text_tail_bounded_suffix [OF v f] f show ?thesis by auto
qed

section \<open>The event history\<close>

abbreviation event_sum :: "stored_job_event list \<Rightarrow> nat" where
  "event_sum es \<equiv> sum_list (map se_bytes es)"

lemma trim_events_exact:
  "\<exists>k. trim_events es (event_sum es) = (drop k es, event_sum (drop k es))
     \<and> length (drop k es) \<le> MAX_JOB_EVENTS \<and> event_sum (drop k es) \<le> MAX_JOB_EVENT_BYTES"
proof (induction es)
  case Nil
  then show ?case by simp
next
  case (Cons e es)
  show ?case
  proof (cases "length (e # es) > MAX_JOB_EVENTS \<or> event_sum (e # es) > MAX_JOB_EVENT_BYTES")
    case True
    then have "trim_events (e # es) (event_sum (e # es)) = trim_events es (event_sum es)"
      by simp
    with Cons show ?thesis by (metis drop_Suc_Cons)
  next
    case False
    then show ?thesis by (intro exI [of _ 0]) auto
  qed
qed

text \<open>When the byte count saturates, every event is evicted.\<close>

lemma trim_events_saturated:
  "sz > MAX_JOB_EVENT_BYTES + event_sum es \<Longrightarrow> sz \<le> event_sum es + se_bytes x \<Longrightarrow>
   trim_events (es @ [x]) sz = ([], 0)"
proof (induction es arbitrary: sz)
  case Nil
  then show ?case by simp
next
  case (Cons e es)
  have "trim_events (es @ [x]) (sz - se_bytes e) = ([], 0)"
    using Cons.prems by (intro Cons.IH) simp_all
  with Cons.prems show ?case by simp
qed

definition events_wf :: "job_state \<Rightarrow> bool" where
  "events_wf st \<longleftrightarrow>
     js_event_bytes st = event_sum (js_events st) \<and> js_event_bytes st \<le> MAX_JOB_EVENT_BYTES
     \<and> length (js_events st) \<le> MAX_JOB_EVENTS
     \<and> js_next_event_id st = Suc (jb_last_event_id (js_snapshot st))
     \<and> length (js_events st) < js_next_event_id st
     \<and> map (ev_id \<circ> se_event) (js_events st)
         = [js_next_event_id st - length (js_events st) ..< js_next_event_id st]"

lemma trim_events_append:
  assumes "event_sum es \<le> MAX_JOB_EVENT_BYTES" and "sz = sat_add64 (event_sum es) (se_bytes x)"
  shows "\<exists>k. trim_events (es @ [x]) sz = (drop k (es @ [x]), event_sum (drop k (es @ [x])))
     \<and> length (drop k (es @ [x])) \<le> MAX_JOB_EVENTS
     \<and> event_sum (drop k (es @ [x])) \<le> MAX_JOB_EVENT_BYTES"
proof (cases "event_sum es + se_bytes x \<le> u64_max")
  case True
  then have "sz = event_sum (es @ [x])" using assms(2) by (simp add: sat_add64_def)
  then show ?thesis using trim_events_exact [of "es @ [x]"] by simp
next
  case False
  then have sz: "sz = u64_max" using assms(2) by (simp add: sat_add64_def)
  have "trim_events (es @ [x]) sz = ([], 0)"
    by (rule trim_events_saturated)
       (use assms(1) False sz in \<open>simp_all add: u64_max_def MAX_JOB_EVENT_BYTES_def\<close>)
  then show ?thesis by (intro exI [of _ "length (es @ [x])"]) simp
qed

lemma upt_drop: "drop k [m..<n] = [m + k..<n]"
  by (rule drop_upt)

lemma push_event_wf:
  assumes wf: "events_wf st" and lim: "js_next_event_id st < u64_max"
  shows "events_wf (push_event E n d h st)
    \<and> js_next_event_id (push_event E n d h st) = Suc (js_next_event_id st)"
proof -
  define i where "i = js_next_event_id st"
  define snap where "snap = (js_snapshot st)\<lparr>jb_last_event_id := i\<rparr>"
  define ev where "ev = \<lparr>ev_id = i, ev_event = n, ev_timestamp = je_now E,
      ev_data = (case d of Some v \<Rightarrow> v | None \<Rightarrow> JobData (summary_from snap))\<rparr>"
  define x where "x = \<lparr>se_event = ev, se_bytes = estimate_event_bytes E ev h\<rparr>"
  let ?es = "js_events st @ [x]"
  let ?sz = "sat_add64 (js_event_bytes st) (se_bytes x)"
  have "event_sum (js_events st) \<le> MAX_JOB_EVENT_BYTES" "?sz = sat_add64 (event_sum (js_events st)) (se_bytes x)"
    using wf by (simp_all add: events_wf_def)
  from trim_events_append [OF this] obtain k where
    k: "trim_events ?es ?sz = (drop k ?es, event_sum (drop k ?es))"
      "length (drop k ?es) \<le> MAX_JOB_EVENTS" "event_sum (drop k ?es) \<le> MAX_JOB_EVENT_BYTES" by blast
  have p: "push_event E n d h st = st\<lparr>js_snapshot := snap, js_events := drop k ?es,
      js_event_bytes := event_sum (drop k ?es), js_next_event_id := Suc i\<rparr>"
  proof -
    have sb: "estimate_event_bytes E ev h = se_bytes x" by (simp add: x_def)
    have xe: "\<lparr>se_event = ev, se_bytes = se_bytes x\<rparr> = x" by (simp add: x_def)
    have next_id: "sat_add64 i 1 = Suc i" using lim by (simp add: sat_add64_def i_def)
    show ?thesis
      unfolding push_event_def Let_def i_def [symmetric] snap_def [symmetric] ev_def [symmetric]
        sb xe k(1) next_id by simp
  qed
  let ?m = "length (js_events st)"
  have ids: "map (ev_id \<circ> se_event) ?es = [i - ?m..<Suc i]"
    using wf by (simp add: events_wf_def x_def ev_def i_def)
  have len: "?m < i" using wf by (simp add: events_wf_def i_def)
  have "map (ev_id \<circ> se_event) (drop k ?es) = [i - ?m + k..<Suc i]"
    unfolding drop_map [symmetric] ids by simp
  moreover have "length (drop k ?es) = Suc ?m - k" by simp
  moreover have "[i - ?m + k..<Suc i] = [Suc i - (Suc ?m - k)..<Suc i]"
    using len by (cases "k \<le> Suc ?m") auto
  ultimately have "map (ev_id \<circ> se_event) (drop k ?es) = [Suc i - length (drop k ?es)..<Suc i]"
    by simp
  then show ?thesis using k(2,3) len by (simp add: p events_wf_def snap_def i_def)
qed

lemma push_event_frame [simp]:
  "js_snapshot (push_event E n d h st) = (js_snapshot st)\<lparr>jb_last_event_id := js_next_event_id st\<rparr>"
  "js_stdout (push_event E n d h st) = js_stdout st"
  "js_stderr (push_event E n d h st) = js_stderr st"
  "js_completed_at_instant (push_event E n d h st) = js_completed_at_instant st"
  "js_created_at_instant (push_event E n d h st) = js_created_at_instant st"
  by (simp_all add: push_event_def Let_def split: prod.splits)

lemma events_wf_cong:
  assumes "js_events st' = js_events st" "js_event_bytes st' = js_event_bytes st"
    "js_next_event_id st' = js_next_event_id st"
    "jb_last_event_id (js_snapshot st') = jb_last_event_id (js_snapshot st)"
  shows "events_wf st' = events_wf st"
  using assms by (simp add: events_wf_def)

section \<open>Interleavings\<close>

text \<open>A record together with a cancel request that has passed its locked section but not yet raised
  the flag.\<close>

type_synonym job_sys = "job_record \<times> bool"

inductive job_step :: "job_sys \<Rightarrow> job_sys \<Rightarrow> bool" where
  running: "job_step (r, p) (mark_running_locked E r, p)"
| connecting: "job_step (r, p) (mark_connecting_locked E r, p)"
| appended: "valid_utf8 chunk \<Longrightarrow> job_step (r, p) (append_output_locked E out chunk r, p)"
| result: "job_step (r, p) (finish_result_locked E x r, p)"
| error: "job_step (r, p) (finish_error_locked E err r, p)"
| cancel_requested: "request_cancel_locked E r = (r', True) \<Longrightarrow> job_step (r, p) (r', True)"
| cancel_raised: "job_step (r, True) (raise_cancel_flag r, False)"
| canceled: "jr_cancel r \<or> status_of r = Canceling \<or> job_is_terminal (status_of r) \<Longrightarrow>
    job_step (r, p) (finish_canceled E r, p)"
| connection_ms: "job_step (r, p) (set_connection_ms v r, p)"
| queue_ms: "job_step (r, p) (set_queue_ms v r, p)"
| handle: "job_step (r, p) (attach_handle_record r, p)"

text \<open>The abstract status machine.\<close>

definition job_next :: "job_status \<Rightarrow> job_status \<Rightarrow> bool" where
  "job_next s s' \<longleftrightarrow>
     s \<in> {Queued, Connecting, Running}
       \<and> s' \<in> {Connecting, Running, Canceling, Completed, Failed, TimedOut}
     \<or> s = Canceling \<and> s' = Canceled"

definition job_inv :: "job_sys \<Rightarrow> bool" where
  "job_inv s \<longleftrightarrow>
     (let st = jr_state (fst s) in
      events_wf st \<and> tail_wf (js_stdout st) \<and> tail_wf (js_stderr st)
      \<and> bt_max_bytes (js_stdout st) = MAX_JOB_OUTPUT_BYTES
      \<and> bt_max_bytes (js_stderr st) = MAX_JOB_OUTPUT_BYTES
      \<and> (js_completed_at_instant st \<noteq> None \<longleftrightarrow> job_is_terminal (status_of (fst s)))
      \<and> (snd s \<or> jr_cancel (fst s) \<longrightarrow> status_of (fst s) \<in> {Canceling, Canceled}))"

lemma push_map_wf:
  assumes "events_wf st" "js_next_event_id st < u64_max"
    "js_events st' = js_events st" "js_event_bytes st' = js_event_bytes st"
    "js_next_event_id st' = js_next_event_id st"
    "jb_last_event_id (js_snapshot st') = jb_last_event_id (js_snapshot st)"
  shows "events_wf (push_event E n d h st')
    \<and> js_next_event_id (push_event E n d h st') = Suc (js_next_event_id st)"
  using push_event_wf [of st' E n d h] events_wf_cong [OF assms(3-6)] assms(1,2,5) by simp

lemmas verdict_simps = lock_verdict_def job_is_terminal_def

text \<open>Each step keeps the invariant, follows the abstract machine and advances the event counter by
  at most one.\<close>

definition job_step_ok :: "job_sys \<Rightarrow> job_sys \<Rightarrow> bool" where
  "job_step_ok s s' \<longleftrightarrow>
     job_inv s'
     \<and> (status_of (fst s') = status_of (fst s) \<or> job_next (status_of (fst s)) (status_of (fst s')))
     \<and> js_next_event_id (jr_state (fst s')) \<le> Suc (js_next_event_id (jr_state (fst s)))"

lemma job_step_ok_refl: "job_inv s \<Longrightarrow> job_step_ok s s"
  by (simp add: job_step_ok_def)

lemma job_step_ok_push:
  assumes "job_inv (r, p)" "js_next_event_id (jr_state r) < u64_max"
    "js_events st' = js_events (jr_state r)" "js_event_bytes st' = js_event_bytes (jr_state r)"
    "js_next_event_id st' = js_next_event_id (jr_state r)"
    "jb_last_event_id (js_snapshot st') = jb_last_event_id (js_snapshot (jr_state r))"
    "tail_wf (js_stdout st')" "tail_wf (js_stderr st')"
    "bt_max_bytes (js_stdout st') = MAX_JOB_OUTPUT_BYTES"
    "bt_max_bytes (js_stderr st') = MAX_JOB_OUTPUT_BYTES"
    "js_completed_at_instant st' \<noteq> None \<longleftrightarrow> job_is_terminal (jb_status (js_snapshot st'))"
    "jb_status (js_snapshot st') = status_of r \<or> job_next (status_of r) (jb_status (js_snapshot st'))"
    "p' \<or> jr_cancel r \<longrightarrow> jb_status (js_snapshot st') \<in> {Canceling, Canceled}"
  shows "job_step_ok (r, p) (r\<lparr>jr_state := push_event E n d h st'\<rparr>, p')"
  using push_map_wf [OF _ assms(2-6), of E n d h] assms by (auto simp: job_step_ok_def job_inv_def Let_def)

lemma proceed_active:
  assumes "lock_verdict r = Proceed"
  shows "status_of r \<in> {Queued, Connecting, Running} \<and> \<not> jr_cancel r"
  using assms by (cases "status_of r") (auto simp: verdict_simps split: if_splits)

lemma proceed_inv:
  assumes "job_inv (r, p)" "lock_verdict r = Proceed"
  shows "\<not> p" "js_completed_at_instant (jr_state r) = None"
    "tail_wf (js_stdout (jr_state r))" "tail_wf (js_stderr (jr_state r))"
    "bt_max_bytes (js_stdout (jr_state r)) = MAX_JOB_OUTPUT_BYTES"
    "bt_max_bytes (js_stderr (jr_state r)) = MAX_JOB_OUTPUT_BYTES"
  using assms proceed_active [OF assms(2)] by (auto simp: job_inv_def Let_def job_is_terminal_def)

text \<open>A guarded section that goes on and pushes an event.\<close>

lemma proceed_push:
  assumes "job_inv (r, p)" "js_next_event_id (jr_state r) < u64_max" "lock_verdict r = Proceed"
    "js_events st' = js_events (jr_state r)" "js_event_bytes st' = js_event_bytes (jr_state r)"
    "js_next_event_id st' = js_next_event_id (jr_state r)"
    "jb_last_event_id (js_snapshot st') = jb_last_event_id (js_snapshot (jr_state r))"
    "tail_wf (js_stdout st')" "tail_wf (js_stderr st')"
    "bt_max_bytes (js_stdout st') = MAX_JOB_OUTPUT_BYTES"
    "bt_max_bytes (js_stderr st') = MAX_JOB_OUTPUT_BYTES"
    "js_completed_at_instant st' \<noteq> None \<longleftrightarrow> job_is_terminal (jb_status (js_snapshot st'))"
    "jb_status (js_snapshot st') = status_of r
     \<or> jb_status (js_snapshot st') \<in> {Connecting, Running, Completed, Failed, TimedOut}"
  shows "job_step_ok (r, p) (r\<lparr>jr_state := push_event E n d h st'\<rparr>, p)"
proof -
  have "jb_status (js_snapshot st') = status_of r \<or> job_next (status_of r) (jb_status (js_snapshot st'))"
    using proceed_active [OF assms(3)] assms(13) by (auto simp: job_next_def)
  moreover have "p \<or> jr_cancel r \<longrightarrow> jb_status (js_snapshot st') \<in> {Canceling, Canceled}"
    using proceed_active [OF assms(3)] proceed_inv(1) [OF assms(1,3)] by simp
  ultimately show ?thesis by (rule job_step_ok_push [OF assms(1,2,4-12)])
qed

lemma guarded_ok:
  assumes "job_inv (r, p)"
    and "lock_verdict r = Proceed \<Longrightarrow> job_step_ok (r, p) (r', p)"
  shows "job_step_ok (r, p) (if lock_verdict r \<noteq> Proceed then r else r', p)"
  using assms job_step_ok_refl by auto

lemma mark_ok:
  assumes "job_inv (r, p)" "js_next_event_id (jr_state r) < u64_max"
  shows "job_step_ok (r, p) (mark_running_locked E r, p)"
    "job_step_ok (r, p) (mark_connecting_locked E r, p)"
    "job_step_ok (r, p) (finish_error_locked E err r, p)"
    "job_step_ok (r, p) (finish_result_locked E x r, p)"
  unfolding mark_running_locked_def mark_connecting_locked_def finish_error_locked_def
    finish_result_locked_def
  by (rule guarded_ok [OF assms(1)];
      auto intro!: proceed_push [OF assms] simp: proceed_inv(2-6) [OF assms(1)] map_snapshot_def
        job_is_terminal_def split: prod.splits if_splits)+

lemma append_output_ok:
  assumes "job_inv (r, p)" "js_next_event_id (jr_state r) < u64_max" "valid_utf8 chunk"
  shows "job_step_ok (r, p) (append_output_locked E out chunk r, p)"
proof (cases "chunk = [] \<or> lock_verdict r \<noteq> Proceed")
  case True
  then show ?thesis using job_step_ok_refl [OF assms(1)] by (auto simp: append_output_locked_def)
next
  case False
  then have v: "lock_verdict r = Proceed" "chunk \<noteq> []" by simp_all
  let ?t = "if out then js_stdout (jr_state r) else js_stderr (jr_state r)"
  obtain t' b where t: "text_tail_push chunk ?t = (t', b)" by (cases "text_tail_push chunk ?t")
  note pi = proceed_inv [OF assms(1) v(1)]
  have t': "tail_wf t'" "bt_max_bytes t' = MAX_JOB_OUTPUT_BYTES"
    using text_tail_push_spec [OF _ assms(3) t] pi by (auto split: if_splits)
  have act: "\<not> job_is_terminal (status_of r)"
    using proceed_active [OF v(1)] by (auto simp: job_is_terminal_def)
  show ?thesis
    using v t unfolding append_output_locked_def
    by (cases out)
       (auto intro!: proceed_push [OF assms(1,2) v(1)] simp: Let_def map_snapshot_def pi(2-6) t' act)
qed

lemma cancel_ok:
  assumes "job_inv (r, p)" "js_next_event_id (jr_state r) < u64_max"
  shows "request_cancel_locked E r = (r', True) \<Longrightarrow> job_step_ok (r, p) (r', True)"
    and "jr_cancel r \<or> status_of r = Canceling \<or> job_is_terminal (status_of r) \<Longrightarrow>
      job_step_ok (r, p) (finish_canceled E r, p)"
proof -
  note inv = assms(1) [unfolded job_inv_def Let_def]
  assume "request_cancel_locked E r = (r', True)"
  then have st: "\<not> job_is_terminal (status_of r)" "status_of r \<noteq> Canceling"
    and r': "r' = r\<lparr>jr_state := push_event E ''canceling'' None None
               (map_snapshot (\<lambda>s. s\<lparr>jb_status := Canceling\<rparr>) (jr_state r))\<rparr>"
    by (auto simp: request_cancel_locked_def split: if_splits)
  have "job_next (status_of r) Canceling"
    using st by (cases "status_of r") (auto simp: job_next_def job_is_terminal_def)
  then show "job_step_ok (r, p) (r', True)"
    unfolding r' using inv st
    by (intro job_step_ok_push [OF assms]) (auto simp: map_snapshot_def job_is_terminal_def)
next
  note inv = assms(1) [unfolded job_inv_def Let_def]
  assume c: "jr_cancel r \<or> status_of r = Canceling \<or> job_is_terminal (status_of r)"
  show "job_step_ok (r, p) (finish_canceled E r, p)"
  proof (cases "job_is_terminal (status_of r)")
    case True
    then show ?thesis using job_step_ok_refl [OF assms(1)] by (simp add: finish_canceled_def)
  next
    case False
    then have "status_of r = Canceling" using c inv by (auto simp: job_is_terminal_def)
    then show ?thesis
      using False inv unfolding finish_canceled_def Let_def
      by (auto intro!: job_step_ok_push [OF assms] simp: map_snapshot_def job_next_def job_is_terminal_def)
  qed
qed

lemma job_step_all_ok:
  assumes "job_step s s'" "job_inv s" "js_next_event_id (jr_state (fst s)) < u64_max"
  shows "job_step_ok s s'"
  using assms
proof induction
  case (cancel_raised r)
  then show ?case by (auto simp: job_step_ok_def job_inv_def Let_def raise_cancel_flag_def)
next
  case (connection_ms r p v)
  then show ?case
    by (auto simp: job_step_ok_def job_inv_def Let_def set_connection_ms_def map_snapshot_def
        events_wf_def)
next
  case (queue_ms r p v)
  then show ?case
    by (auto simp: job_step_ok_def job_inv_def Let_def set_queue_ms_def map_snapshot_def events_wf_def)
next
  case (handle r p)
  then show ?case by (auto simp: job_step_ok_def job_inv_def Let_def attach_handle_record_def)
qed (auto intro: mark_ok append_output_ok cancel_ok)

section \<open>Reachable records\<close>

text \<open>The creation of a record, with an initial event within the history's limit, and \<open>n\<close> steps.\<close>

inductive job_reach :: "nat \<Rightarrow> job_sys \<Rightarrow> bool" where
  new: "js_event_bytes (jr_state (job_record_new E uuid sid preview tmo)) \<le> MAX_JOB_EVENT_BYTES \<Longrightarrow>
    job_reach 0 (job_record_new E uuid sid preview tmo, False)"
| step: "job_reach n s \<Longrightarrow> job_step s s' \<Longrightarrow> job_reach (Suc n) s'"

lemma text_tail_new_wf:
  "tail_wf (text_tail_new MAX_JOB_OUTPUT_BYTES)"
  "bt_max_bytes (text_tail_new MAX_JOB_OUTPUT_BYTES) = MAX_JOB_OUTPUT_BYTES"
  by (simp_all add: tail_wf_def text_tail_new_def MAX_JOB_OUTPUT_BYTES_def)

lemma job_record_new_inv:
  assumes "js_event_bytes (jr_state (job_record_new E uuid sid preview tmo)) \<le> MAX_JOB_EVENT_BYTES"
  shows "job_inv (job_record_new E uuid sid preview tmo, False)"
  using assms
  by (auto simp: job_inv_def job_record_new_def Let_def events_wf_def text_tail_new_wf
      job_is_terminal_def MAX_JOB_EVENTS_def upt_rec)

lemma job_reach_inv:
  "job_reach n s \<Longrightarrow> n + 2 \<le> u64_max \<Longrightarrow>
   job_inv s \<and> js_next_event_id (jr_state (fst s)) \<le> n + 2"
proof (induction rule: job_reach.induct)
  case (new E uuid sid preview tmo)
  then show ?case using job_record_new_inv by (simp add: job_record_new_def Let_def)
next
  case (step n s s')
  then have "job_inv s" "js_next_event_id (jr_state (fst s)) < u64_max" by simp_all
  with job_step_all_ok [OF step.hyps(2)] step show ?case by (auto simp: job_step_ok_def)
qed

text \<open>A concrete job for the witnesses: created, started, failed.\<close>

definition demo_env :: job_env where
  "demo_env = \<lparr>je_now = ''t0'', je_instant = 5, je_json_len = (\<lambda>_. 10)\<rparr>"

definition demo_job :: job_record where
  "demo_job = job_record_new demo_env ''1'' ''s1'' ''ls'' 1000"

lemma demo_job_reach: "job_reach 0 (demo_job, False)"
  unfolding demo_job_def
  by (rule job_reach.new)
     (simp add: job_record_new_def Let_def estimate_event_bytes_def demo_env_def sat_add64_def
       u64_max_def MAX_JOB_EVENT_BYTES_def)

lemma demo_job_steps:
  "job_step (demo_job, False) (mark_running_locked demo_env demo_job, False)"
  "job_step (demo_job, False) (finish_error_locked demo_env ''x'' demo_job, False)"
  by (rule job_step.running) (rule job_step.error)

lemma demo_job_status [simp]:
  "status_of demo_job = Queued"
  "status_of (mark_running_locked demo_env demo_job) = Running"
  "status_of (finish_error_locked demo_env ''x'' demo_job) = Failed"
  by (simp_all add: demo_job_def job_record_new_def mark_running_locked_def finish_error_locked_def
      lock_verdict_def job_is_terminal_def map_snapshot_def Let_def)

text \<open>C12: in every reachable state of a job record, under any interleaving of its operations, the
  history holds at most 1024 events and 4 MiB, with consecutive ids ending at \<open>last\_event\_id\<close>; both
  output texts are valid UTF-8 of at most 1 MiB, so a snapshot can always be taken; and a completion
  time is recorded exactly for finished jobs.\<close>

theorem job_record_bounded:
  assumes "job_reach n (r, p)" and "n + 2 \<le> u64_max"
  shows "(let st = jr_state r in
      length (js_events st) \<le> 1024 \<and> sum_list (map se_bytes (js_events st)) \<le> 4 * 1024 * 1024
      \<and> map (ev_id \<circ> se_event) (js_events st)
          = [Suc (jb_last_event_id (js_snapshot st)) - length (js_events st)
             ..< Suc (jb_last_event_id (js_snapshot st))]
      \<and> (\<exists>snap. snapshot_from_state st = Some snap \<and> length (jb_stdout snap) \<le> 1024 * 1024
           \<and> length (jb_stderr snap) \<le> 1024 * 1024)
      \<and> (js_completed_at_instant st \<noteq> None \<longleftrightarrow> job_is_terminal (status_of r)))"
  using job_reach_inv [OF assms]
  by (auto simp: job_inv_def events_wf_def tail_wf_def Let_def snapshot_from_state_def
      text_tail_as_string_def MAX_JOB_EVENTS_def MAX_JOB_EVENT_BYTES_def MAX_JOB_OUTPUT_BYTES_def)

theorem job_record_bounded_witness:
  "job_reach 0 (demo_job, False) \<and> length (js_events (jr_state demo_job)) \<le> 1024
    \<and> (\<exists>snap. snapshot_from_state (jr_state demo_job) = Some snap)"
  using job_record_bounded [OF demo_job_reach] demo_job_reach by (auto simp: Let_def u64_max_def)

text \<open>C13: the status of a job refines the abstract machine: it goes from queued, connecting or
  running to connecting, running, canceling, completed, failed or timed out; from canceling only to
  canceled; and nowhere from a finished state. In particular a job whose cancellation was accepted
  never completes.\<close>

theorem job_status_refines:
  assumes "job_reach n s" and "n + 2 < u64_max" and "job_step s s'"
  shows "status_of (fst s') = status_of (fst s) \<or> job_next (status_of (fst s)) (status_of (fst s'))"
proof -
  have "job_inv s" "js_next_event_id (jr_state (fst s)) < u64_max"
    using job_reach_inv [OF assms(1)] assms(2) by auto
  from job_step_all_ok [OF assms(3) this] show ?thesis by (simp add: job_step_ok_def)
qed

theorem job_status_refines_witness:
  "job_next (status_of demo_job) (status_of (mark_running_locked demo_env demo_job))"
  using job_status_refines [OF demo_job_reach _ demo_job_steps(1)] by (simp add: u64_max_def)

section \<open>Finished jobs\<close>

text \<open>The interface a registry relies on: once final, a state keeps what it shows.\<close>

locale absorbing =
  fixes step :: "'s \<Rightarrow> 's \<Rightarrow> bool" and final :: "'s \<Rightarrow> bool" and view :: "'s \<Rightarrow> 'v"
  assumes stays: "final s \<Longrightarrow> step s s' \<Longrightarrow> final s' \<and> view s' = view s"
begin

lemma stays_star: "step\<^sup>*\<^sup>* s s' \<Longrightarrow> final s \<Longrightarrow> final s' \<and> view s' = view s"
proof (induction rule: rtranclp_induct)
  case (step t u)
  then show ?case using stays [of t u] by simp
qed simp

end

text \<open>Everything a client can see of a record but the queue and connection times, which the handlers
  may still fill in.\<close>

definition job_view :: "job_sys \<Rightarrow> job_snapshot \<times> bounded_text_tail \<times> bounded_text_tail
    \<times> stored_job_event list \<times> nat option" where
  "job_view s =
     (let st = jr_state (fst s) in
      ((js_snapshot st)\<lparr>jb_queue_ms := None, jb_connection_ms := None\<rparr>, js_stdout st, js_stderr st,
       js_events st, js_completed_at_instant st))"

lemma terminal_not_proceed: "job_is_terminal (status_of r) \<Longrightarrow> lock_verdict r \<noteq> Proceed"
  by (simp add: lock_verdict_def)

lemma job_terminal_stays:
  "job_step s s' \<Longrightarrow> job_is_terminal (status_of (fst s)) \<Longrightarrow>
   job_is_terminal (status_of (fst s')) \<and> job_view s' = job_view s"
proof (induction rule: job_step.induct)
  case (cancel_requested E r r' p)
  then show ?case by (auto simp: request_cancel_locked_def)
qed (auto simp: mark_running_locked_def mark_connecting_locked_def append_output_locked_def
    finish_result_locked_def finish_error_locked_def terminal_not_proceed raise_cancel_flag_def
    finish_canceled_def set_connection_ms_def set_queue_ms_def attach_handle_record_def
    map_snapshot_def job_view_def Let_def)

interpretation job: absorbing job_step "\<lambda>s. job_is_terminal (status_of (fst s))" job_view
  by unfold_locales (rule job_terminal_stays)

text \<open>C14: a finished job is final: whatever operations run afterwards, in any order, its status,
  result, output, events and completion time never change.\<close>

theorem job_terminal_final:
  assumes "job_step\<^sup>*\<^sup>* s s'" and "job_is_terminal (status_of (fst s))"
  shows "status_of (fst s') = status_of (fst s) \<and> job_view s' = job_view s"
proof -
  have v: "job_view s' = job_view s" using job.stays_star [OF assms] by blast
  then have "jb_status (fst (job_view s')) = jb_status (fst (job_view s))" by simp
  then have "status_of (fst s') = status_of (fst s)" by (simp add: job_view_def Let_def)
  with v show ?thesis by simp
qed

theorem job_terminal_final_witness:
  "let s = (finish_error_locked demo_env ''x'' demo_job, False);
       s' = (mark_running_locked demo_env (fst s), False)
   in job_step\<^sup>*\<^sup>* s s' \<and> status_of (fst s') = Failed \<and> job_view s' = job_view s"
proof -
  let ?s = "(finish_error_locked demo_env ''x'' demo_job, False)"
  let ?s' = "(mark_running_locked demo_env (fst ?s), False)"
  have st: "job_step\<^sup>*\<^sup>* ?s ?s'" by (simp add: r_into_rtranclp job_step.running)
  have "job_is_terminal (status_of (fst ?s))" by (simp add: job_is_terminal_def)
  from job_terminal_final [OF st this] st show ?thesis by (simp add: Let_def)
qed

end
