(* ===== verification/Job_Registry.thy ===== *)
theory Job_Registry
  imports Job_Machine
begin

text \<open>
  \<open>api\_server/jobs.rs\<close>, the registry of API jobs. The map from ids to records is an association list
  in the order in which the hash map is iterated; the theorems hold for every order. The operations
  under the mutation lock are atomic, and the steps of the records themselves interleave with them.
\<close>

definition MAX_RETAINED_JOBS :: nat where "MAX_RETAINED_JOBS = 100"
definition MAX_ACTIVE_JOBS_PER_SESSION :: nat where "MAX_ACTIVE_JOBS_PER_SESSION = 4"

text \<open>In milliseconds.\<close>

definition COMPLETED_JOB_RETENTION :: nat where "COMPLETED_JOB_RETENTION = 30 * 60 * 1000"

datatype job_registry_error = JobNotFound | JobCapacity string | JobConflict string

type_synonym job_registry = "(string \<times> job_record) list"

section \<open>The map\<close>

text \<open>\<open>HashMap::remove\<close> and \<open>HashMap::insert\<close>; an insert under a present key replaces the record.\<close>

definition jobs_remove :: "string \<Rightarrow> job_registry \<Rightarrow> job_registry" where
  "jobs_remove i m = filter (\<lambda>(k, _). k \<noteq> i) m"

definition jobs_insert :: "string \<Rightarrow> job_record \<Rightarrow> job_registry \<Rightarrow> job_registry" where
  "jobs_insert i r m = (if i \<in> fst ` set m then map (\<lambda>(k, x). if k = i then (k, r) else (k, x)) m
     else m @ [(i, r)])"

section \<open>Reading a record\<close>

abbreviation snap_of :: "job_record \<Rightarrow> job_snapshot" where
  "snap_of r \<equiv> js_snapshot (jr_state r)"

definition record_job_id :: "job_record \<Rightarrow> string" where
  "record_job_id r = jb_job_id (snap_of r)"

definition record_session_id :: "job_record \<Rightarrow> string" where
  "record_session_id r = jb_session_id (snap_of r)"

definition record_summary :: "job_record \<Rightarrow> job_summary" where
  "record_summary r = summary_from (snap_of r)"

definition is_active_for_session :: "string \<Rightarrow> job_record \<Rightarrow> bool" where
  "is_active_for_session sid r \<longleftrightarrow> jb_session_id (snap_of r) = sid \<and> job_is_active (jb_status (snap_of r))"

definition authorization_state :: "job_record \<Rightarrow> string \<times> bool" where
  "authorization_state r = (jb_session_id (snap_of r), job_is_active (jb_status (snap_of r)))"

section \<open>Eviction\<close>

definition job_expired :: "nat \<Rightarrow> job_record \<Rightarrow> bool" where
  "job_expired instant r \<longleftrightarrow>
     (case js_completed_at_instant (jr_state r) of
        None \<Rightarrow> False
      | Some completed \<Rightarrow> instant - completed \<ge> COMPLETED_JOB_RETENTION)"

definition prune_expired :: "nat \<Rightarrow> job_registry \<Rightarrow> job_registry" where
  "prune_expired instant m =
     foldl (\<lambda>jobs i. jobs_remove i jobs) m (map fst (filter (\<lambda>(_, r). job_expired instant r) m))"

text \<open>The candidate loop: the first finished record with the least creation time.\<close>

definition evict_candidate :: "job_record list \<Rightarrow> (string \<times> string) option" where
  "evict_candidate records =
     foldl (\<lambda>candidate r.
        if \<not> job_is_terminal (jb_status (snap_of r)) then candidate
        else if (case candidate of None \<Rightarrow> True | Some (_, oldest) \<Rightarrow> jb_created_at (snap_of r) < oldest)
        then Some (jb_job_id (snap_of r), jb_created_at (snap_of r)) else candidate)
       None records"

definition evict_oldest_terminal :: "job_record list \<Rightarrow> job_registry \<Rightarrow> job_registry \<times> bool" where
  "evict_oldest_terminal records m =
     (case evict_candidate records of
        None \<Rightarrow> (m, False)
      | Some (i, _) \<Rightarrow> (jobs_remove i m, i \<in> fst ` set m))"

section \<open>Operations\<close>

definition registry_create ::
  "job_env \<Rightarrow> string \<Rightarrow> string \<Rightarrow> string \<Rightarrow> nat \<Rightarrow> job_registry
     \<Rightarrow> job_registry \<times> (job_registry_error + job_record)" where
  "registry_create E uuid session_id command_preview timeout_ms m0 =
     (let m = prune_expired (je_instant E) m0;
          records = map snd m;
          (m1, room) = (if length records \<ge> MAX_RETAINED_JOBS
                        then evict_oldest_terminal records m else (m, True))
      in if \<not> room then (m1, Inl (JobCapacity ''job records are at the limit 100''))
         else if length (filter (is_active_for_session session_id) records)
                   \<ge> MAX_ACTIVE_JOBS_PER_SESSION
         then (m1, Inl (JobCapacity ''at most 4 jobs of a session at once''))
         else (let r = job_record_new E uuid session_id command_preview timeout_ms in
               (jobs_insert (record_job_id r) r m1, Inr r)))"

definition registry_get :: "nat \<Rightarrow> string \<Rightarrow> job_registry \<Rightarrow> job_registry \<times> job_record option" where
  "registry_get instant i m0 = (let m = prune_expired instant m0 in (m, map_of m i))"

definition registry_list :: "nat \<Rightarrow> job_registry \<Rightarrow> job_registry \<times> job_summary list" where
  "registry_list instant m0 =
     (let m = prune_expired instant m0 in
      (m, rev (sort_key jb_created_at (rev (map (record_summary \<circ> snd) m)))))"

text \<open>An update of the record a key leads to; the records are shared, so it is seen in the map.\<close>

definition update_job :: "string \<Rightarrow> (job_record \<Rightarrow> job_record) \<Rightarrow> job_registry \<Rightarrow> job_registry" where
  "update_job i f m = map (\<lambda>(k, r). if k = i then (k, f r) else (k, r)) m"

definition registry_cancel ::
  "job_env \<Rightarrow> string \<Rightarrow> job_registry \<Rightarrow> job_registry \<times> (job_registry_error + job_snapshot option)" where
  "registry_cancel E i m0 =
     (let (m, found) = registry_get (je_instant E) i m0 in
      case found of
        None \<Rightarrow> (m, Inl JobNotFound)
      | Some r \<Rightarrow>
          (case request_cancel E r of
             (r', False) \<Rightarrow> (m, Inl (JobConflict ''the job has ended''))
           | (r', True) \<Rightarrow> (update_job i (\<lambda>_. r') m, Inr (snapshot_from_state (jr_state r')))))"

text \<open>The result tells whether the handle was kept; otherwise the task is aborted.\<close>

definition registry_attach_handle :: "string \<Rightarrow> job_registry \<Rightarrow> job_registry \<times> bool" where
  "registry_attach_handle i m =
     (if i \<in> fst ` set m then (update_job i attach_handle_record m, True) else (m, False))"

definition registry_cancel_disallowed ::
  "job_env \<Rightarrow> string set \<Rightarrow> job_registry \<Rightarrow> job_registry" where
  "registry_cancel_disallowed E allowed m =
     map (\<lambda>(k, r). let (sid, active) = authorization_state r in
                    if active \<and> sid \<notin> allowed then (k, fst (request_cancel E r)) else (k, r)) m"

text \<open>\<open>shutdown\<close>: cancel everything, then collect the handles of the tasks to wait for (second
  component: their job ids) and finish the jobs that have none. Waiting for and aborting the tasks
  changes no record except by the steps of the tasks themselves.\<close>

definition registry_shutdown :: "job_env \<Rightarrow> job_registry \<Rightarrow> job_registry \<times> string list" where
  "registry_shutdown E m =
     (let m1 = map (\<lambda>(k, r). (k, fst (request_cancel E r))) m in
      (map (\<lambda>(k, r). if jr_handle r then (k, r\<lparr>jr_handle := False\<rparr>) else (k, finish_canceled E r)) m1,
       map fst (filter (\<lambda>(_, r). jr_handle r) m1)))"

end
