(* ===== verification/Job_Registry_Inv.thy ===== *)
theory Job_Registry_Inv
  imports Job_Registry
begin

text \<open>
  The promises of the job registry: it never holds more than 100 records or more than four active
  jobs of a session, it never forgets an active job, creation fails exactly when one of the limits is
  reached, listing is newest first, and a shutdown leaves no job that could still complete.
\<close>

section \<open>How a record may evolve\<close>

abbreviation active :: "job_record \<Rightarrow> bool" where
  "active r \<equiv> job_is_active (status_of r)"

definition completion_ok :: "job_record \<Rightarrow> bool" where
  "completion_ok r \<longleftrightarrow> (js_completed_at_instant (jr_state r) \<noteq> None \<longrightarrow> \<not> active r)"

definition job_evolves :: "job_record \<Rightarrow> job_record \<Rightarrow> bool" where
  "job_evolves r r' \<longleftrightarrow>
     jb_job_id (snap_of r') = jb_job_id (snap_of r)
     \<and> jb_session_id (snap_of r') = jb_session_id (snap_of r)
     \<and> jb_created_at (snap_of r') = jb_created_at (snap_of r)
     \<and> (active r' \<longrightarrow> active r) \<and> (completion_ok r \<longrightarrow> completion_ok r')"

lemma job_evolves_refl [simp]: "job_evolves r r"
  by (simp add: job_evolves_def)

lemma job_evolves_trans: "job_evolves r s \<Longrightarrow> job_evolves s t \<Longrightarrow> job_evolves r t"
  by (auto simp: job_evolves_def)

text \<open>The identity of a job never changes, and its completion time goes with its status.\<close>

lemma job_step_keeps:
  "job_step s s' \<Longrightarrow>
     jb_job_id (snap_of (fst s')) = jb_job_id (snap_of (fst s))
     \<and> jb_session_id (snap_of (fst s')) = jb_session_id (snap_of (fst s))
     \<and> jb_created_at (snap_of (fst s')) = jb_created_at (snap_of (fst s))
     \<and> (completion_ok (fst s) \<longrightarrow> completion_ok (fst s'))"
proof (induction rule: job_step.induct)
  case (cancel_requested E r r' p)
  then show ?case
    by (auto simp: request_cancel_locked_def map_snapshot_def completion_ok_def job_is_active_def
        split: if_splits)
qed (auto simp: mark_running_locked_def mark_connecting_locked_def append_output_locked_def
    finish_result_locked_def finish_error_locked_def raise_cancel_flag_def
    finish_canceled_def set_connection_ms_def set_queue_ms_def attach_handle_record_def
    map_snapshot_def Let_def completion_ok_def verdict_simps job_is_active_def
    split: prod.splits if_splits)

lemma job_step_evolves:
  assumes "job_step s s'"
  shows "job_evolves (fst s) (fst s')"
  using job_step_keeps [OF assms] job.stays [OF _ assms]
  by (auto simp: job_evolves_def job_is_active_def)

lemma request_cancel_evolves: "job_evolves r (fst (request_cancel E r))"
proof (cases "request_cancel_locked E r")
  case (Pair r' b)
  show ?thesis
  proof (cases b)
    case True
    have "job_step (r, False) (r', True)" "job_step (r', True) (raise_cancel_flag r', False)"
      using Pair True by (auto intro: job_step.intros)
    from this [THEN job_step_evolves] have "job_evolves r (raise_cancel_flag r')"
      by (auto intro: job_evolves_trans)
    then show ?thesis using Pair True by (simp add: request_cancel_def)
  next
    case False
    then have "r' = r" using Pair by (auto simp: request_cancel_locked_def split: if_splits)
    then show ?thesis using Pair False by (simp add: request_cancel_def)
  qed
qed

text \<open>After a cancel request, no job is left that could still complete.\<close>

lemma request_cancel_status:
  "status_of (fst (request_cancel E r)) = Canceling \<or> job_is_terminal (status_of (fst (request_cancel E r)))"
  by (auto simp: request_cancel_def request_cancel_locked_def raise_cancel_flag_def map_snapshot_def)

lemma finish_canceled_after_cancel:
  assumes "status_of r = Canceling \<or> job_is_terminal (status_of r)"
  shows "job_evolves r (finish_canceled E r)" "job_is_terminal (status_of (finish_canceled E r))"
proof -
  have "job_step (r, False) (finish_canceled E r, False)"
    by (rule job_step.canceled) (use assms in auto)
  from job_step_evolves [OF this] show "job_evolves r (finish_canceled E r)" by simp
  show "job_is_terminal (status_of (finish_canceled E r))"
    by (auto simp: finish_canceled_def Let_def map_snapshot_def job_is_terminal_def)
qed

section \<open>The invariant\<close>

definition active_count :: "string \<Rightarrow> job_registry \<Rightarrow> nat" where
  "active_count sid m = length (filter (is_active_for_session sid) (map snd m))"

definition registry_inv :: "job_registry \<Rightarrow> bool" where
  "registry_inv m \<longleftrightarrow>
     distinct (map fst m) \<and> length m \<le> MAX_RETAINED_JOBS
     \<and> (\<forall>(k, r)\<in>set m. k = record_job_id r \<and> completion_ok r)
     \<and> (\<forall>sid. active_count sid m \<le> MAX_ACTIVE_JOBS_PER_SESSION)"

lemma registry_invI:
  assumes "distinct (map fst m)" "length m \<le> MAX_RETAINED_JOBS"
    "\<And>k r. (k, r) \<in> set m \<Longrightarrow> k = record_job_id r \<and> completion_ok r"
    "\<And>sid. active_count sid m \<le> MAX_ACTIVE_JOBS_PER_SESSION"
  shows "registry_inv m"
  using assms by (auto simp: registry_inv_def)

lemma registry_invD:
  assumes "registry_inv m"
  shows "distinct (map fst m)" "length m \<le> MAX_RETAINED_JOBS"
    "(k, r) \<in> set m \<Longrightarrow> k = record_job_id r" "(k, r) \<in> set m \<Longrightarrow> completion_ok r"
    "active_count sid m \<le> MAX_ACTIVE_JOBS_PER_SESSION"
  using assms by (auto simp: registry_inv_def)

lemma active_count_simps [simp]:
  "active_count sid [] = 0"
  "active_count sid (x # m) = (if is_active_for_session sid (snd x) then 1 else 0) + active_count sid m"
  "active_count sid (m @ m') = active_count sid m + active_count sid m'"
  by (simp_all add: active_count_def)

lemma active_count_filter: "active_count sid (filter p m) \<le> active_count sid m"
  by (induction m) auto

lemma registry_inv_filter:
  assumes "registry_inv m"
  shows "registry_inv (filter p m)"
proof (rule registry_invI)
  show "distinct (map fst (filter p m))"
    using registry_invD(1) [OF assms] by (rule distinct_map_filter)
  show "length (filter p m) \<le> MAX_RETAINED_JOBS"
    by (rule order_trans [OF length_filter_le registry_invD(2) [OF assms]])
  show "k = record_job_id r \<and> completion_ok r" if "(k, r) \<in> set (filter p m)" for k r
    using that registry_invD(3,4) [OF assms, of k r] by simp
  show "active_count sid (filter p m) \<le> MAX_ACTIVE_JOBS_PER_SESSION" for sid
    using active_count_filter [of sid p m] registry_invD(5) [OF assms, of sid] by simp
qed

lemma foldl_jobs_remove: "foldl (\<lambda>jobs i. jobs_remove i jobs) m is = filter (\<lambda>(k, _). k \<notin> set is) m"
  by (induction "is" arbitrary: m) (auto simp: jobs_remove_def intro!: filter_cong)

lemma prune_expired_eq:
  assumes "distinct (map fst m)"
  shows "prune_expired t m = filter (\<lambda>(_, r). \<not> job_expired t r) m"
proof -
  define ids where "ids = map fst (filter (\<lambda>(_, r). job_expired t r) m)"
  have "k \<in> set ids \<longleftrightarrow> job_expired t r" if kr: "(k, r) \<in> set m" for k r
  proof
    assume "k \<in> set ids"
    then obtain r' where "(k, r') \<in> set m" "job_expired t r'" by (auto simp: ids_def)
    then show "job_expired t r" using eq_key_imp_eq_value [OF assms kr] by simp
  next
    assume "job_expired t r"
    then have "fst (k, r) \<in> set ids" unfolding ids_def set_map using kr by (intro imageI) simp
    then show "k \<in> set ids" by simp
  qed
  then show ?thesis
    unfolding prune_expired_def foldl_jobs_remove ids_def [symmetric] by (intro filter_cong) auto
qed

lemma registry_inv_prune: "registry_inv m \<Longrightarrow> registry_inv (prune_expired t m)"
  using registry_inv_filter [of m] by (simp add: registry_inv_def prune_expired_eq)

lemma registry_inv_remove: "registry_inv m \<Longrightarrow> registry_inv (jobs_remove i m)"
  unfolding jobs_remove_def by (rule registry_inv_filter)

abbreviation registry_evolves :: "job_registry \<Rightarrow> job_registry \<Rightarrow> bool" where
  "registry_evolves \<equiv> list_all2 (\<lambda>x y. fst x = fst y \<and> job_evolves (snd x) (snd y))"

lemma registry_evolves_facts:
  assumes "registry_evolves m m'"
  shows "map fst m' = map fst m" "active_count sid m' \<le> active_count sid m"
    "(k, r) \<in> set m' \<Longrightarrow> \<exists>r0. (k, r0) \<in> set m \<and> job_evolves r0 r"
  using assms
  by (induction rule: list_all2_induct)
     (auto simp: is_active_for_session_def job_evolves_def)

lemma registry_inv_evolve:
  assumes "registry_inv m" "registry_evolves m m'"
  shows "registry_inv m'"
proof (rule registry_invI)
  show "distinct (map fst m')" using registry_invD(1) [OF assms(1)] registry_evolves_facts(1) [OF assms(2)] by simp
  show "length m' \<le> MAX_RETAINED_JOBS"
    using registry_invD(2) [OF assms(1)] list_all2_lengthD [OF assms(2)] by simp
  show "active_count sid m' \<le> MAX_ACTIVE_JOBS_PER_SESSION" for sid
    using registry_invD(5) [OF assms(1), of sid] registry_evolves_facts(2) [OF assms(2), of sid] by simp
  show "k = record_job_id r \<and> completion_ok r" if k: "(k, r) \<in> set m'" for k r
  proof -
    obtain r0 where "(k, r0) \<in> set m" "job_evolves r0 r"
      using registry_evolves_facts(3) [OF assms(2) k] by blast
    then show ?thesis
      using registry_invD(3,4) [OF assms(1), of k r0] by (auto simp: job_evolves_def record_job_id_def)
  qed
qed

lemma map_evolves:
  assumes "\<And>k r. (k, r) \<in> set m \<Longrightarrow> job_evolves r (f k r)"
  shows "registry_evolves m (map (\<lambda>(k, r). (k, f k r)) m)"
  using assms by (induction m) auto


section \<open>Every operation keeps it\<close>

text \<open>The record the eviction picks: finished, and no finished record is older.\<close>

lemma evict_candidate_fold:
  fixes c :: "(string \<times> string) option"
  defines "step \<equiv> \<lambda>candidate r.
        if \<not> job_is_terminal (jb_status (snap_of r)) then candidate
        else if (case candidate of None \<Rightarrow> True | Some (_, oldest) \<Rightarrow> jb_created_at (snap_of r) < oldest)
        then Some (jb_job_id (snap_of r), jb_created_at (snap_of r)) else candidate"
  shows "foldl step c rs = None \<longleftrightarrow> c = None \<and> (\<forall>r\<in>set rs. active r)"
    and "foldl step c rs = Some (i, t) \<Longrightarrow>
      (c = Some (i, t) \<or> (\<exists>r\<in>set rs. \<not> active r \<and> jb_job_id (snap_of r) = i \<and> jb_created_at (snap_of r) = t))
      \<and> (\<forall>r\<in>set rs. active r \<or> t \<le> jb_created_at (snap_of r)) \<and> (\<forall>j u. c = Some (j, u) \<longrightarrow> t \<le> u)"
proof (induction rs arbitrary: c)
  case (Cons r rs)
  {
    case 1
    show ?case using Cons.IH(1) [of "step c r"]
      by (auto simp: step_def job_is_active_def split: option.splits if_splits)
  next
    case 2
    then have "foldl step (step c r) rs = Some (i, t)" by simp
    from Cons.IH(2) [OF this] show ?case
      by (auto simp: step_def job_is_active_def split: option.splits if_splits)
  }
qed auto

lemmas evict_candidate_None = evict_candidate_fold(1) [of None, folded evict_candidate_def, simplified]

lemma evict_candidate_Some:
  "evict_candidate rs = Some (i, t) \<Longrightarrow>
     (\<exists>r\<in>set rs. \<not> active r \<and> jb_job_id (snap_of r) = i \<and> jb_created_at (snap_of r) = t)
     \<and> (\<forall>r\<in>set rs. active r \<or> t \<le> jb_created_at (snap_of r))"
  using evict_candidate_fold(2) [of None rs i t] by (auto simp: evict_candidate_def)

lemma jobs_remove_length:
  assumes "i \<in> fst ` set m"
  shows "length (jobs_remove i m) < length m"
proof -
  obtain x where "x \<in> set m" "fst x = i" using assms by blast
  then show ?thesis unfolding jobs_remove_def by (intro length_filter_less [of x]) auto
qed

definition jobs_replace :: "string \<Rightarrow> job_record \<Rightarrow> job_registry \<Rightarrow> job_registry" where
  "jobs_replace i r m = map (\<lambda>(k, x). if k = i then (k, r) else (k, x)) m"

lemma jobs_replace_keys [simp]: "map fst (jobs_replace i r m) = map fst m"
  by (auto simp: jobs_replace_def)

lemma jobs_replace_other: "i \<notin> fst ` set m \<Longrightarrow> jobs_replace i r m = m"
  by (induction m) (auto simp: jobs_replace_def)

lemma jobs_replace_set: "(k, x) \<in> set (jobs_replace i r m) \<Longrightarrow> (k, x) \<in> set m \<or> k = i \<and> x = r"
  by (auto simp: jobs_replace_def split: if_splits)

lemma jobs_replace_count:
  "distinct (map fst m) \<Longrightarrow> active_count sid (jobs_replace i r m)
     \<le> active_count sid m + (if is_active_for_session sid r then 1 else 0)"
proof (induction m)
  case (Cons a m)
  then show ?case
    using jobs_replace_other [of i m r] by (cases "fst a = i") (auto simp: jobs_replace_def split_beta)
qed (simp add: jobs_replace_def)

lemma jobs_insert_eq:
  "jobs_insert i r m = (if i \<in> fst ` set m then jobs_replace i r m else m @ [(i, r)])"
  by (simp add: jobs_insert_def jobs_replace_def)

lemma jobs_insert_inv:
  assumes inv: "registry_inv m" and len: "length m < MAX_RETAINED_JOBS"
    and r: "completion_ok r" "i = record_job_id r"
    and act: "active_count (record_session_id r) m < MAX_ACTIVE_JOBS_PER_SESSION"
  shows "registry_inv (jobs_insert i r m)"
proof (rule registry_invI)
  show "distinct (map fst (jobs_insert i r m))"
    using registry_invD(1) [OF inv] by (simp add: jobs_insert_eq)
  show "length (jobs_insert i r m) \<le> MAX_RETAINED_JOBS"
    using len by (simp add: jobs_insert_def)
  show "k = record_job_id x \<and> completion_ok x" if "(k, x) \<in> set (jobs_insert i r m)" for k x
    using that r jobs_replace_set [of k x i r m] registry_invD(3,4) [OF inv, of k x]
    by (auto simp: jobs_insert_eq split: if_splits)
  fix sid
  have one: "active_count sid (jobs_insert i r m)
      \<le> active_count sid m + (if is_active_for_session sid r then 1 else 0)"
    using jobs_replace_count [OF registry_invD(1) [OF inv], of sid i r] by (auto simp: jobs_insert_eq)
  show "active_count sid (jobs_insert i r m) \<le> MAX_ACTIVE_JOBS_PER_SESSION"
  proof (cases "is_active_for_session sid r")
    case True
    then have "sid = record_session_id r" by (simp add: is_active_for_session_def record_session_id_def)
    then show ?thesis using one act True by simp
  next
    case False
    then show ?thesis using one registry_invD(5) [OF inv, of sid] by simp
  qed
qed

lemma job_record_new_ok:
  "completion_ok (job_record_new E u sid pv t)" "active (job_record_new E u sid pv t)"
  "record_session_id (job_record_new E u sid pv t) = sid"
  "record_job_id (job_record_new E u sid pv t) = ''job_'' @ u"
  by (simp_all add: job_record_new_def Let_def completion_ok_def record_session_id_def
      record_job_id_def job_is_active_def job_is_terminal_def)

text \<open>The state in which \<open>create\<close> decides: after the expired and possibly the oldest finished record
  are gone.\<close>

lemma evict_inv:
  assumes inv: "registry_inv m" and ev: "evict_oldest_terminal (map snd m) m = (m1, room)"
  shows "registry_inv m1"
    and "room \<longleftrightarrow> (\<exists>x\<in>set m. \<not> active (snd x))"
    and "room \<Longrightarrow> length m1 < length m"
    and "x \<in> set m \<Longrightarrow> active (snd x) \<Longrightarrow> x \<in> set m1"
    and "set m1 \<subseteq> set m"
proof -
  have all: "registry_inv m1 \<and> (room \<longleftrightarrow> (\<exists>x\<in>set m. \<not> active (snd x)))
      \<and> (room \<longrightarrow> length m1 < length m) \<and> (x \<in> set m \<and> active (snd x) \<longrightarrow> x \<in> set m1)
      \<and> set m1 \<subseteq> set m"
  proof (cases "evict_candidate (map snd m)")
    case None
    then have "\<forall>x\<in>set m. active (snd x)" using evict_candidate_None [of "map snd m"] by auto
    then show ?thesis using ev inv None by (auto simp: evict_oldest_terminal_def)
  next
    case (Some c)
    then obtain i t where c: "evict_candidate (map snd m) = Some (i, t)" by (cases c) simp
    then obtain k r where kr: "(k, r) \<in> set m" "\<not> active r" "jb_job_id (snap_of r) = i"
      using evict_candidate_Some [OF c] by auto
    have ki: "k = i" using registry_invD(3) [OF inv kr(1)] kr(3) by (simp add: record_job_id_def)
    have i: "i \<in> fst ` set m" using imageI [OF kr(1), of fst] ki by simp
    have m1: "m1 = jobs_remove i m" "room" using ev c i by (auto simp: evict_oldest_terminal_def)
    have "x \<in> set m1" if "x \<in> set m" "active (snd x)"
    proof -
      have "fst x \<noteq> i"
        using eq_key_imp_eq_value [OF registry_invD(1) [OF inv], of i r "snd x"] kr that ki
        by (cases x) auto
      then show ?thesis using that m1 by (auto simp: jobs_remove_def split_beta)
    qed
    moreover have "set m1 \<subseteq> set m" by (auto simp: m1 jobs_remove_def)
    moreover have "\<exists>x\<in>set m. \<not> active (snd x)" using kr(1,2) by (intro bexI [of _ "(k, r)"]) simp_all
    ultimately show ?thesis
      using m1 registry_inv_remove [OF inv, of i] jobs_remove_length [OF i] by blast
  qed
  then show "registry_inv m1" "room \<longleftrightarrow> (\<exists>x\<in>set m. \<not> active (snd x))" "room \<Longrightarrow> length m1 < length m"
    "x \<in> set m \<Longrightarrow> active (snd x) \<Longrightarrow> x \<in> set m1" "set m1 \<subseteq> set m" by blast+
qed

lemma expired_not_active: "completion_ok r \<Longrightarrow> job_expired t r \<Longrightarrow> \<not> active r"
  by (auto simp: completion_ok_def job_expired_def split: option.splits)

lemma active_count_sub:
  assumes "registry_inv m" "registry_inv m1" "set m1 \<subseteq> set m"
  shows "active_count sid m1 \<le> active_count sid m"
proof -
  have eq: "active_count sid m = card {x \<in> set m. is_active_for_session sid (snd x)}"
    if "registry_inv m" for m
  proof -
    have "distinct m" using registry_invD(1) [OF that] by (simp add: distinct_map)
    then show ?thesis
      by (simp add: active_count_def filter_map distinct_card [symmetric] o_def)
  qed
  show ?thesis unfolding eq [OF assms(1)] eq [OF assms(2)] using assms(3) by (intro card_mono) auto
qed

lemma registry_create_cases:
  assumes inv: "registry_inv m0"
    and cr: "registry_create E uuid sid pv tmo m0 = (m', res)"
  defines "m \<equiv> filter (\<lambda>(_, r). \<not> job_expired (je_instant E) r) m0"
  obtains (rejected) e where "res = Inl e" "registry_inv m'" "set m' \<subseteq> set m"
      "\<forall>x\<in>set m. active (snd x) \<longrightarrow> x \<in> set m'"
      "length m \<ge> MAX_RETAINED_JOBS \<and> (\<forall>x\<in>set m. active (snd x))
       \<or> active_count sid m \<ge> MAX_ACTIVE_JOBS_PER_SESSION"
    | (created) m1 r where "res = Inr r" "r = job_record_new E uuid sid pv tmo"
      "m' = jobs_insert (''job_'' @ uuid) r m1" "registry_inv m'" "registry_inv m1" "set m1 \<subseteq> set m"
      "\<forall>x\<in>set m. active (snd x) \<longrightarrow> x \<in> set m1"
      "length m < MAX_RETAINED_JOBS \<or> (\<exists>x\<in>set m. \<not> active (snd x))"
      "active_count sid m < MAX_ACTIVE_JOBS_PER_SESSION"
proof -
  have m: "prune_expired (je_instant E) m0 = m"
    using registry_invD(1) [OF inv] by (simp add: m_def prune_expired_eq)
  have invm: "registry_inv m" unfolding m_def using inv by (rule registry_inv_filter)
  obtain m1 room where ev: "(if length (map snd m) \<ge> MAX_RETAINED_JOBS
      then evict_oldest_terminal (map snd m) m else (m, True)) = (m1, room)" by fastforce
  have all: "registry_inv m1 \<and> set m1 \<subseteq> set m \<and> (\<forall>x\<in>set m. active (snd x) \<longrightarrow> x \<in> set m1)
        \<and> (room \<longleftrightarrow> length m < MAX_RETAINED_JOBS \<or> (\<exists>x\<in>set m. \<not> active (snd x)))
        \<and> (room \<longrightarrow> length m1 < MAX_RETAINED_JOBS)"
  proof (cases "length m \<ge> MAX_RETAINED_JOBS")
    case True
    then have e: "evict_oldest_terminal (map snd m) m = (m1, room)" using ev by simp
    have "\<forall>x\<in>set m. active (snd x) \<longrightarrow> x \<in> set m1" using evict_inv(4) [OF invm e] by blast
    moreover have "room \<longleftrightarrow> length m < MAX_RETAINED_JOBS \<or> (\<exists>x\<in>set m. \<not> active (snd x))"
      using evict_inv(2) [OF invm e] True by (meson leD)
    moreover have "room \<longrightarrow> length m1 < MAX_RETAINED_JOBS"
      using evict_inv(3) [OF invm e] registry_invD(2) [OF invm] by (meson less_le_trans)
    ultimately show ?thesis using evict_inv(1,5) [OF invm e] by blast
  next
    case False
    then show ?thesis using ev invm by simp
  qed
  then have m1: "registry_inv m1" "set m1 \<subseteq> set m" "\<forall>x\<in>set m. active (snd x) \<longrightarrow> x \<in> set m1"
    "room \<longleftrightarrow> length m < MAX_RETAINED_JOBS \<or> (\<exists>x\<in>set m. \<not> active (snd x))"
    "room \<Longrightarrow> length m1 < MAX_RETAINED_JOBS" by blast+
  have ac: "length (filter (is_active_for_session sid) (map snd m)) = active_count sid m"
    by (simp add: active_count_def)
  note c = cr [unfolded registry_create_def m Let_def ev split ac job_record_new_ok(4)]
  let ?r = "job_record_new E uuid sid pv tmo"
  show ?thesis
  proof (cases "room \<and> active_count sid m < MAX_ACTIVE_JOBS_PER_SESSION")
    case False
    then obtain e where "m' = m1" "res = Inl e" using c by (auto split: if_splits)
    moreover have "length m \<ge> MAX_RETAINED_JOBS \<and> (\<forall>x\<in>set m. active (snd x))
       \<or> active_count sid m \<ge> MAX_ACTIVE_JOBS_PER_SESSION"
      using False m1(4) by (meson not_less)
    ultimately show ?thesis using m1(1-3) by (intro rejected) simp_all
  next
    case True
    then have m': "m' = jobs_insert (''job_'' @ uuid) ?r m1" "res = Inr ?r"
      using c by auto
    have "active_count sid m1 < MAX_ACTIVE_JOBS_PER_SESSION"
      using active_count_sub [OF invm m1(1,2), of sid] True by simp
    then have "registry_inv m'"
      unfolding m'(1) using m1(1,5) True
      by (intro jobs_insert_inv) (simp_all add: job_record_new_ok)
    then show ?thesis using True m' m1 by (intro created [of ?r m1]) auto
  qed
qed

section \<open>Reachable registries\<close>

text \<open>A new v4 UUID is not the id of a present job.\<close>

inductive registry_step :: "job_registry \<Rightarrow> job_registry \<Rightarrow> bool" where
  created: "''job_'' @ uuid \<notin> fst ` set m \<Longrightarrow>
    registry_step m (fst (registry_create E uuid sid pv tmo m))"
| got: "registry_step m (fst (registry_get t i m))"
| listed: "registry_step m (fst (registry_list t m))"
| canceled: "registry_step m (fst (registry_cancel E i m))"
| attached: "registry_step m (fst (registry_attach_handle i m))"
| disallowed: "registry_step m (registry_cancel_disallowed E allowed m)"
| shutdown: "registry_step m (fst (registry_shutdown E m))"
| job: "(k, r) \<in> set m \<Longrightarrow> job_step (r, p) (r', p') \<Longrightarrow> registry_step m (update_job k (\<lambda>_. r') m)"

inductive registry_reach :: "job_registry \<Rightarrow> bool" where
  empty: "registry_reach []"
| step: "registry_reach m \<Longrightarrow> registry_step m m' \<Longrightarrow> registry_reach m'"

lemma update_job_evolves:
  assumes "distinct (map fst m)" "map_of m k = Some r" "job_evolves r r'"
  shows "registry_evolves m (update_job k (\<lambda>_. r') m)"
proof -
  have "update_job k (\<lambda>_. r') m = map (\<lambda>(i, x). (i, if i = k then r' else x)) m"
    by (auto simp: update_job_def)
  moreover have "job_evolves x (if i = k then r' else x)" if "(i, x) \<in> set m" for i x
    using map_of_is_SomeI [OF assms(1) that] assms(2,3) by auto
  ultimately show ?thesis using map_evolves [of m "\<lambda>i x. if i = k then r' else x"] by simp
qed

lemma attach_evolves: "registry_evolves m (fst (registry_attach_handle i m))"
proof -
  have "job_evolves r (attach_handle_record r)" for r
    using job_step_evolves [OF job_step.handle [of r False]] by simp
  moreover have "update_job i attach_handle_record m
      = map (\<lambda>(k, x). (k, if k = i then attach_handle_record x else x)) m"
    by (auto simp: update_job_def)
  ultimately show ?thesis
    using map_evolves [of m "\<lambda>k x. if k = i then attach_handle_record x else x"]
      map_evolves [of m "\<lambda>k x. x"]
    by (simp add: registry_attach_handle_def)
qed

lemma disallowed_evolves: "registry_evolves m (registry_cancel_disallowed E allowed m)"
proof -
  have "registry_cancel_disallowed E allowed m = map (\<lambda>(k, r). (k,
      if active r \<and> jb_session_id (snap_of r) \<notin> allowed then fst (request_cancel E r) else r)) m"
    by (auto simp: registry_cancel_disallowed_def authorization_state_def)
  then show ?thesis
    using map_evolves [of m "\<lambda>_ r. if active r \<and> jb_session_id (snap_of r) \<notin> allowed
        then fst (request_cancel E r) else r"] request_cancel_evolves by simp
qed

definition shutdown_job :: "job_env \<Rightarrow> job_record \<Rightarrow> job_record" where
  "shutdown_job E r = (let r1 = fst (request_cancel E r) in
     if jr_handle r1 then r1\<lparr>jr_handle := False\<rparr> else finish_canceled E r1)"

lemma shutdown_job_evolves: "job_evolves r (shutdown_job E r)"
proof -
  let ?r = "fst (request_cancel E r)"
  have "job_evolves ?r (?r\<lparr>jr_handle := False\<rparr>)"
    by (simp add: job_evolves_def completion_ok_def)
  then show ?thesis
    using request_cancel_evolves [of r E]
      finish_canceled_after_cancel(1) [OF request_cancel_status, of E r E]
    by (auto simp: shutdown_job_def Let_def intro: job_evolves_trans)
qed

lemma shutdown_eq:
  "fst (registry_shutdown E m) = map (\<lambda>(k, r). (k, shutdown_job E r)) m"
  "snd (registry_shutdown E m) = map fst (filter (\<lambda>(_, r). jr_handle r) m)"
proof -
  have "jr_handle (fst (request_cancel E r)) = jr_handle r" for r
    by (simp add: request_cancel_def request_cancel_locked_def raise_cancel_flag_def)
  then show "snd (registry_shutdown E m) = map fst (filter (\<lambda>(_, r). jr_handle r) m)"
    by (induction m) (auto simp: registry_shutdown_def Let_def)
qed (auto simp: registry_shutdown_def shutdown_job_def Let_def)

text \<open>What a step leaves of a job: every active one is still there.\<close>

definition keeps_active :: "job_registry \<Rightarrow> job_registry \<Rightarrow> bool" where
  "keeps_active m m' \<longleftrightarrow>
     (\<forall>(k, r)\<in>set m. active r \<longrightarrow> (\<exists>r'. (k, r') \<in> set m' \<and> job_evolves r r'))"

lemma registry_evolves_fwd:
  "registry_evolves m m' \<Longrightarrow> (k, r) \<in> set m \<Longrightarrow> \<exists>r'. (k, r') \<in> set m' \<and> job_evolves r r'"
  by (induction rule: list_all2_induct) fastforce+

lemma evolves_keeps: "registry_evolves m m' \<Longrightarrow> keeps_active m m'"
  unfolding keeps_active_def using registry_evolves_fwd by blast

lemma prune_keeps:
  assumes "registry_inv m"
  shows "keeps_active m (prune_expired t m)"
proof -
  have "(k, r) \<in> set (prune_expired t m)" if "(k, r) \<in> set m" "active r" for k r
    using that expired_not_active [OF registry_invD(4) [OF assms that(1)]]
    by (auto simp: prune_expired_eq [OF registry_invD(1) [OF assms]])
  then show ?thesis unfolding keeps_active_def using job_evolves_refl by blast
qed

lemma keeps_evolves:
  assumes "keeps_active m m'" "registry_evolves m' m''"
  shows "keeps_active m m''"
proof -
  have "\<exists>r''. (k, r'') \<in> set m'' \<and> job_evolves r r''" if kr: "(k, r) \<in> set m" "active r" for k r
  proof -
    obtain r' where r': "(k, r') \<in> set m'" "job_evolves r r'"
      using assms(1) kr unfolding keeps_active_def by blast
    then show ?thesis
      using registry_evolves_fwd [OF assms(2) r'(1)] job_evolves_trans [OF r'(2)] by blast
  qed
  then show ?thesis unfolding keeps_active_def by blast
qed

lemma cancel_shape:
  assumes "registry_inv m"
  shows "registry_evolves (prune_expired (je_instant E) m) (fst (registry_cancel E i m))"
proof -
  let ?m = "prune_expired (je_instant E) m"
  have d: "distinct (map fst ?m)" using registry_invD(1) [OF registry_inv_prune [OF assms]] .
  have refl: "registry_evolves ?m ?m" by (simp add: list_all2_refl)
  show ?thesis
  proof (cases "map_of ?m i")
    case None
    then show ?thesis using refl by (simp add: registry_cancel_def registry_get_def Let_def)
  next
    case (Some r)
    obtain r' b where rc: "request_cancel E r = (r', b)" by (cases "request_cancel E r")
    have "job_evolves r r'" using request_cancel_evolves [of r E] rc by simp
    with update_job_evolves [OF d Some] refl show ?thesis
      by (cases b) (simp_all add: registry_cancel_def registry_get_def Let_def Some rc)
  qed
qed

lemma create_keeps:
  assumes inv: "registry_inv m" and fresh: "''job_'' @ uuid \<notin> fst ` set m"
  shows "keeps_active m (fst (registry_create E uuid sid pv tmo m))"
proof -
  obtain m' res where c: "registry_create E uuid sid pv tmo m = (m', res)"
    by (cases "registry_create E uuid sid pv tmo m")
  define n where "n = filter (\<lambda>(_, r). \<not> job_expired (je_instant E) r) m"
  have n: "(k, r) \<in> set n" if "(k, r) \<in> set m" "active r" for k r
    using that expired_not_active [OF registry_invD(4) [OF inv that(1)]] by (auto simp: n_def)
  have "x \<in> set m'" if x: "x \<in> set n" "active (snd x)" for x
    using inv c
  proof (cases rule: registry_create_cases)
    case (rejected e)
    from rejected(4) [folded n_def] x show ?thesis by blast
  next
    case (created m1 r)
    have "set n \<subseteq> set m" by (auto simp: n_def)
    then have "set m1 \<subseteq> set m" using created(6) [folded n_def] by blast
    then have "''job_'' @ uuid \<notin> fst ` set m1" using fresh by blast
    moreover have "x \<in> set m1" using created(7) [folded n_def] x by blast
    ultimately show ?thesis by (simp add: created(3) jobs_insert_def)
  qed
  then show ?thesis unfolding keeps_active_def c using n job_evolves_refl by fastforce
qed

lemma registry_step_ok:
  assumes "registry_step m m'" "registry_inv m"
  shows "registry_inv m' \<and> keeps_active m m'"
  using assms
proof (induction rule: registry_step.induct)
  case (created uuid m E sid pv tmo)
  obtain m' res where c: "registry_create E uuid sid pv tmo m = (m', res)"
    by (cases "registry_create E uuid sid pv tmo m")
  have "registry_inv m'" using created(2) c by (cases rule: registry_create_cases) auto
  then show ?case using create_keeps [OF created(2,1), of E sid pv tmo] c by simp
next
  case (got m t i)
  then show ?case using registry_inv_prune prune_keeps by (simp add: registry_get_def Let_def)
next
  case (listed m t)
  then show ?case using registry_inv_prune prune_keeps by (simp add: registry_list_def Let_def)
next
  case (canceled m E i)
  then show ?case
    using cancel_shape [OF canceled] registry_inv_evolve [OF registry_inv_prune]
      keeps_evolves [OF prune_keeps] by blast
next
  case (attached m i)
  then show ?case using attach_evolves registry_inv_evolve evolves_keeps by blast
next
  case (disallowed m E allowed)
  then show ?case using disallowed_evolves registry_inv_evolve evolves_keeps by blast
next
  case (shutdown m E)
  have "registry_evolves m (fst (registry_shutdown E m))"
    unfolding shutdown_eq by (rule map_evolves) (rule shutdown_job_evolves)
  then show ?case using shutdown registry_inv_evolve evolves_keeps by blast
next
  case (job k r m p r' p')
  have "job_evolves r r'" using job_step_evolves [OF job(2)] by simp
  moreover have "map_of m k = Some r"
    using map_of_is_SomeI [OF registry_invD(1) [OF job(3)] job(1)] .
  ultimately have "registry_evolves m (update_job k (\<lambda>_. r') m)"
    using update_job_evolves [OF registry_invD(1) [OF job(3)]] by blast
  then show ?case using job registry_inv_evolve evolves_keeps by blast
qed

lemma registry_reach_inv: "registry_reach m \<Longrightarrow> registry_inv m"
proof (induction rule: registry_reach.induct)
  case empty
  then show ?case by (simp add: registry_inv_def)
qed (use registry_step_ok in blast)

section \<open>Properties\<close>

text \<open>A registry with one queued job, for the witnesses.\<close>

definition demo_registry :: job_registry where
  "demo_registry = [(''job_1'', demo_job)]"

lemma demo_create: "registry_create demo_env ''1'' ''s1'' ''ls'' 1000 [] = (demo_registry, Inr demo_job)"
  by (simp add: registry_create_def prune_expired_def MAX_RETAINED_JOBS_def MAX_ACTIVE_JOBS_PER_SESSION_def
      job_record_new_ok jobs_insert_def demo_registry_def demo_job_def Let_def)

lemma demo_registry_reach: "registry_reach demo_registry"
  using registry_reach.step [OF registry_reach.empty registry_step.created [of "''1''" "[]" demo_env "''s1''" "''ls''" 1000]]
  by (simp add: demo_create)

text \<open>C15: in every reachable registry, whatever jobs are created, canceled, pruned or finished in
  whatever order, there are at most 100 records with distinct ids, each filed under its own id, and
  at most four unfinished jobs of any session.\<close>

theorem registry_bounded:
  assumes "registry_reach m"
  shows "distinct (map fst m) \<and> length m \<le> 100 \<and> (\<forall>x\<in>set m. fst x = record_job_id (snd x))
    \<and> length (filter (is_active_for_session sid) (map snd m)) \<le> 4"
proof -
  note inv = registry_reach_inv [OF assms]
  have "fst x = record_job_id (snd x)" if "x \<in> set m" for x
    using that registry_invD(3) [OF inv, of "fst x" "snd x"] by simp
  then show ?thesis
    using registry_invD(1,2) [OF inv] registry_invD(5) [OF inv, of sid]
    by (simp add: active_count_def MAX_RETAINED_JOBS_def MAX_ACTIVE_JOBS_PER_SESSION_def)
qed

theorem registry_bounded_witness:
  "registry_reach demo_registry \<and> length demo_registry \<le> 100
    \<and> length (filter (is_active_for_session ''s1'') (map snd demo_registry)) \<le> 4"
  using registry_bounded [OF demo_registry_reach, of "''s1''"] demo_registry_reach by blast

text \<open>No operation of the registry, and no step of a job, loses a job that has not finished: it
  is still found under its id, for the same session and with the same creation time.\<close>

theorem registry_keeps_active_jobs:
  assumes "registry_reach m" and "registry_step m m'" and "(k, r) \<in> set m"
    and "job_is_active (status_of r)"
  shows "\<exists>r'. map_of m' k = Some r' \<and> record_job_id r' = record_job_id r
    \<and> record_session_id r' = record_session_id r \<and> jb_created_at (snap_of r') = jb_created_at (snap_of r)"
proof -
  note ok = registry_step_ok [OF assms(2) registry_reach_inv [OF assms(1)]]
  then obtain r' where "(k, r') \<in> set m'" "job_evolves r r'"
    using assms(3,4) unfolding keeps_active_def by blast
  then show ?thesis
    using map_of_is_SomeI [OF registry_invD(1)] ok
    by (auto simp: job_evolves_def record_job_id_def record_session_id_def)
qed

theorem registry_keeps_active_jobs_witness:
  "\<exists>r'. map_of (fst (registry_get 99999999 ''x'' demo_registry)) ''job_1'' = Some r'
     \<and> record_session_id r' = record_session_id demo_job"
proof -
  have "(''job_1'', demo_job) \<in> set demo_registry" "job_is_active (status_of demo_job)"
    by (simp_all add: demo_registry_def job_is_active_def job_is_terminal_def)
  from registry_keeps_active_jobs [OF demo_registry_reach
      registry_step.got [of demo_registry 99999999 "''x''"] this]
  show ?thesis by blast
qed

lemma map_of_jobs_insert: "map_of (jobs_insert i r m) i = Some r"
proof (cases "i \<in> fst ` set m")
  case True
  then have "map_of (map (\<lambda>(k, x). if k = i then (k, r) else (k, x)) m) i = Some r"
    by (induction m) auto
  with True show ?thesis by (simp add: jobs_insert_def)
next
  case False
  then show ?thesis by (simp add: jobs_insert_def map_add_Some_iff map_of_eq_None_iff)
qed

text \<open>C16: creating a job fails exactly when the session already has four unfinished jobs or the
  registry holds 100 unexpired records of which none is finished; on success the new job is queued,
  belongs to the session and is found under its id.\<close>

theorem registry_create_outcome:
  assumes "registry_reach m0" and "registry_create E uuid sid pv tmo m0 = (m', res)"
    and "m = filter (\<lambda>(_, r). \<not> job_expired (je_instant E) r) m0"
  shows "((\<exists>e. res = Inl e) \<longleftrightarrow>
      length m \<ge> 100 \<and> (\<forall>x\<in>set m. job_is_active (status_of (snd x)))
      \<or> length (filter (is_active_for_session sid) (map snd m)) \<ge> 4)
    \<and> (\<forall>r. res = Inr r \<longrightarrow> map_of m' (''job_'' @ uuid) = Some r \<and> status_of r = Queued
         \<and> record_session_id r = sid)"
  using registry_reach_inv [OF assms(1)] assms(2)
proof (cases rule: registry_create_cases)
  case (rejected e)
  then show ?thesis
    by (simp add: assms(3) active_count_def MAX_RETAINED_JOBS_def MAX_ACTIVE_JOBS_PER_SESSION_def)
next
  case (created m1 r)
  have "status_of r = Queued" by (simp add: created(2) job_record_new_def Let_def)
  moreover have "\<not> (length m \<ge> 100 \<and> (\<forall>x\<in>set m. active (snd x)))"
    using created(8) unfolding assms(3) [symmetric] MAX_RETAINED_JOBS_def by (meson leD)
  moreover have "length (filter (is_active_for_session sid) (map snd m)) < 4"
    using created(9) unfolding assms(3) [symmetric] active_count_def MAX_ACTIVE_JOBS_PER_SESSION_def .
  ultimately show ?thesis
    using created(1-3) map_of_jobs_insert job_record_new_ok(3) by simp
qed

theorem registry_create_outcome_witness:
  "\<exists>m' res. registry_create demo_env ''2'' ''s1'' ''ls'' 1000 demo_registry = (m', res)
     \<and> (\<exists>r. res = Inr r \<and> map_of m' ''job_2'' = Some r)"
proof -
  obtain m' res where c: "registry_create demo_env ''2'' ''s1'' ''ls'' 1000 demo_registry = (m', res)"
    by (cases "registry_create demo_env ''2'' ''s1'' ''ls'' 1000 demo_registry")
  define m where "m = filter (\<lambda>(_, r). \<not> job_expired (je_instant demo_env) r) demo_registry"
  have "length m \<le> 1" unfolding m_def by (rule order_trans [OF length_filter_le]) (simp add: demo_registry_def)
  moreover have "length (filter (is_active_for_session ''s1'') (map snd m)) \<le> length m"
    by (rule order_trans [OF length_filter_le]) simp
  ultimately have "\<not> 100 \<le> length m" "\<not> 4 \<le> length (filter (is_active_for_session ''s1'') (map snd m))"
    by linarith+
  then have "\<not> (\<exists>e. res = Inl e)"
    using registry_create_outcome [OF demo_registry_reach c m_def] by blast
  then obtain r where "res = Inr r" by (cases res) auto
  with registry_create_outcome [OF demo_registry_reach c m_def] c show ?thesis by auto
qed

text \<open>After \<open>shutdown\<close> no job can complete any more: every record is finished, or is being
  canceled and its task is among those the shutdown waits for.\<close>

theorem registry_shutdown_cancels:
  assumes "registry_shutdown E m = (m', waits)"
  shows "map fst m' = map fst m
    \<and> (\<forall>x\<in>set m'. job_is_terminal (status_of (snd x)) \<or> status_of (snd x) = Canceling \<and> fst x \<in> set waits)"
proof -
  have m': "m' = map (\<lambda>(k, r). (k, shutdown_job E r)) m" "waits = map fst (filter (\<lambda>(_, r). jr_handle r) m)"
    using shutdown_eq [of E m] assms by simp_all
  have "job_is_terminal (status_of (shutdown_job E r)) \<or> status_of (shutdown_job E r) = Canceling \<and> jr_handle r" for r
  proof (cases "jr_handle r")
    case True
    then show ?thesis
      using request_cancel_status [of E r] by (auto simp: shutdown_job_def Let_def finish_canceled_after_cancel)
  next
    case False
    then have "\<not> jr_handle (fst (request_cancel E r))"
      by (simp add: request_cancel_def request_cancel_locked_def raise_cancel_flag_def)
    then show ?thesis
      using finish_canceled_after_cancel(2) [OF request_cancel_status] by (simp add: shutdown_job_def Let_def)
  qed
  then show ?thesis by (force simp: m')
qed

theorem registry_shutdown_cancels_witness:
  "\<exists>m' waits. registry_shutdown demo_env demo_registry = (m', waits) \<and> map fst m' = [''job_1'']"
proof -
  obtain m' waits where c: "registry_shutdown demo_env demo_registry = (m', waits)"
    by (cases "registry_shutdown demo_env demo_registry")
  from registry_shutdown_cancels [OF c] c show ?thesis by (auto simp: demo_registry_def)
qed

end
