(* ===== verification/Api_Log.thy ===== *)
theory Api_Log
  imports Utf8 Str_Lines
begin

text \<open>
  What the API server writes to its log (\<open>api\_server/mod.rs\<close>): the redaction of commands and outputs that
  may hold secrets, the bound on the number of entries, the record of an execution; and the origins a
  browser may call the server from. The placeholder texts are glosses without any marker, as in the source.
\<close>

section \<open>Redaction\<close>

definition SENSITIVE_MARKERS :: "string list" where
  "SENSITIVE_MARKERS =
    [''password'', ''passwd'', ''passphrase'', ''secret'', ''token'', ''authorization'', ''bearer '',
     ''api_key'', ''apikey'', ''access_key'', ''private_key'', ''private key'', ''id_rsa'', ''id_ed25519'',
     ''/etc/shadow'', ''.env'', ''credential'', ''cookie'']"

definition contains_sensitive_log_marker :: "string \<Rightarrow> bool" where
  "contains_sensitive_log_marker value =
     (let lower = to_ascii_lowercase value in list_ex (\<lambda>marker. contains marker lower) SENSITIVE_MARKERS)"

text \<open>\<open>chars().take(n).collect()\<close>: everything before the character number \<open>n\<close>. A character starts at every
  byte that does not continue one.\<close>

fun take_chars :: "string \<Rightarrow> nat \<Rightarrow> string" where
  "take_chars [] n = []"
| "take_chars (c # cs) n =
     (if is_cont c then c # take_chars cs n
      else (case n of 0 \<Rightarrow> [] | Suc k \<Rightarrow> c # take_chars cs k))"

definition truncate_for_log :: "string \<Rightarrow> nat \<Rightarrow> string" where
  "truncate_for_log value max_chars =
     (if char_count value > max_chars then take_chars value max_chars @ ''...'' else value)"

definition HIDDEN_ARGUMENTS :: string where "HIDDEN_ARGUMENTS = '' [arguments hidden]''"

definition command_log_detail :: "string \<Rightarrow> nat \<Rightarrow> string" where
  "command_log_detail command max_chars =
     (if contains_sensitive_log_marker command
      then (let executable = (case split_whitespace command of [] \<Rightarrow> ''command'' | w # _ \<Rightarrow> w)
            in truncate_for_log executable (max (max_chars - 12) 1) @ HIDDEN_ARGUMENTS)
      else truncate_for_log command max_chars)"

definition KEY_HIDDEN :: string where "KEY_HIDDEN = ''[key block hidden]'' @ [CHR 0x0A]"
definition LINE_HIDDEN :: string where "LINE_HIDDEN = ''[line hidden]'' @ [CHR 0x0A]"

definition begins_private_key :: "string \<Rightarrow> bool" where
  "begins_private_key line =
     (let lower = to_ascii_lowercase line in contains ''-----begin '' lower \<and> contains ''private key-----'' lower)"

definition ends_private_key :: "string \<Rightarrow> bool" where
  "ends_private_key line =
     (let lower = to_ascii_lowercase line in contains ''-----end '' lower \<and> contains ''private key-----'' lower)"

text \<open>The loop over the lines, with its variables \<open>remaining\<close> and \<open>private\_key\_block\<close>.\<close>

fun preview_lines :: "nat \<Rightarrow> bool \<Rightarrow> string list \<Rightarrow> string" where
  "preview_lines remaining block [] = []"
| "preview_lines remaining block (line # ls) =
     (if \<not> begins_private_key line \<and> block
      then preview_lines remaining (\<not> ends_private_key line) ls
      else
        (let redacted = (if begins_private_key line then KEY_HIDDEN
                         else if contains_sensitive_log_marker line then LINE_HIDDEN
                         else line);
             part = take_chars redacted remaining;
             remaining' = remaining - char_count part
         in if remaining' = 0 then part
            else part @ preview_lines remaining' (begins_private_key line) ls))"

definition RESPONSE_HIDDEN :: string where "RESPONSE_HIDDEN = ''[response hidden]''"

definition response_log_preview :: "string \<Rightarrow> string \<Rightarrow> nat \<Rightarrow> string option" where
  "response_log_preview command response max_chars =
     (if response = [] then None
      else if contains_sensitive_log_marker command then Some RESPONSE_HIDDEN
      else (let preview = preview_lines max_chars False (split_inclusive response)
            in if preview = [] then None else Some preview))"

section \<open>The record of an execution\<close>

text \<open>A value of \<open>serde\_json\<close>; an object keeps its keys in an association list.\<close>

datatype json = JNull | JBool bool | JNum int | JStr string | JArr "json list" | JObj "(string \<times> json) list"

definition MAX_LOG_STREAM_CHARS :: nat where "MAX_LOG_STREAM_CHARS = 64 * 1024"
definition MAX_LOG_COMMAND_CHARS :: nat where "MAX_LOG_COMMAND_CHARS = 64 * 1024"

definition LOG_SCALAR_KEYS :: "string list" where
  "LOG_SCALAR_KEYS =
    [''exitStatus'', ''timedOut'', ''outputTruncated'', ''stdoutBytes'', ''stderrBytes'', ''durationMs'',
     ''executionMs'', ''queueMs'', ''connectionMs'', ''channelOpenMs'', ''status'', ''jobId'']"

fun json_get :: "string \<Rightarrow> json \<Rightarrow> json option" where
  "json_get key (JObj fields) = map_of fields key"
| "json_get key _ = None"

fun json_str :: "json \<Rightarrow> string option" where
  "json_str (JStr s) = Some s"
| "json_str _ = None"

text \<open>The fields of the record in the order they are inserted; \<open>serde\_json\<close> renders it.\<close>

definition log_scalars :: "json \<Rightarrow> (string \<times> json) list" where
  "log_scalars source =
     concat (map (\<lambda>key. case json_get key source of None \<Rightarrow> [] | Some v \<Rightarrow> [(key, v)]) LOG_SCALAR_KEYS)"

definition log_streams :: "string \<Rightarrow> json \<Rightarrow> (string \<times> json) list" where
  "log_streams command source =
     concat (map (\<lambda>key. case Option.bind (json_get key source) json_str of
         None \<Rightarrow> []
       | Some text \<Rightarrow>
           [(key, JStr (case response_log_preview command text MAX_LOG_STREAM_CHARS of None \<Rightarrow> [] | Some p \<Rightarrow> p)),
            (key @ ''Truncated'', JBool (char_count text > MAX_LOG_STREAM_CHARS))])
       [''stdout'', ''stderr'', ''error''])"

definition execution_log_fields :: "string \<Rightarrow> json \<Rightarrow> (string \<times> json) list" where
  "execution_log_fields command source =
     [(''logFormat'', JStr ''exec-v1''),
      (''command'', JStr (command_log_detail command MAX_LOG_COMMAND_CHARS)),
      (''commandTruncated'', JBool (char_count command > MAX_LOG_COMMAND_CHARS))]
     @ log_scalars source @ log_streams command source"

definition execution_log_response :: "('a \<Rightarrow> json option) \<Rightarrow> (json \<Rightarrow> string) \<Rightarrow> string \<Rightarrow> 'a \<Rightarrow> string option" where
  "execution_log_response to_value render command result =
     map_option (\<lambda>source. render (JObj (execution_log_fields command source))) (to_value result)"

section \<open>The list of entries\<close>

record log_entry =
  le_timestamp :: string
  le_action :: string
  le_detail :: string
  le_success :: bool
  le_duration_ms :: nat
  le_response :: "string option"

definition MAX_LOG_ENTRIES :: nat where "MAX_LOG_ENTRIES = 100"

definition push_log_with_response ::
  "string \<Rightarrow> string \<Rightarrow> string \<Rightarrow> bool \<Rightarrow> nat \<Rightarrow> string option \<Rightarrow> log_entry list \<Rightarrow> log_entry list" where
  "push_log_with_response now action detail success duration_ms response logs =
     (let logs' = logs @ [\<lparr>le_timestamp = now, le_action = action, le_detail = detail, le_success = success,
                           le_duration_ms = duration_ms, le_response = response\<rparr>]
      in if length logs' > MAX_LOG_ENTRIES then drop (length logs' - MAX_LOG_ENTRIES) logs' else logs')"

definition push_log :: "string \<Rightarrow> string \<Rightarrow> string \<Rightarrow> bool \<Rightarrow> nat \<Rightarrow> log_entry list \<Rightarrow> log_entry list" where
  "push_log now action detail success duration_ms logs =
     push_log_with_response now action detail success duration_ms None logs"

section \<open>Browser origins\<close>

definition strip_prefix :: "string \<Rightarrow> string \<Rightarrow> string option" where
  "strip_prefix p s = (if starts_with p s then Some (drop (length p) s) else None)"

text \<open>The part before the last occurrence of a character, or everything.\<close>

definition before_last :: "char \<Rightarrow> string \<Rightarrow> string" where
  "before_last x s =
     (if x \<in> set s then rev (tl (dropWhile (\<lambda>c. c \<noteq> x) (rev s))) else s)"

definition origin_host :: "string \<Rightarrow> string" where
  "origin_host host_with_port =
     (let authority = hd (split_on (CHR ''/'') host_with_port) in
      case strip_prefix ''['' authority of
        Some ipv6 \<Rightarrow> hd (split_on (CHR '']'') ipv6)
      | None \<Rightarrow> before_last (CHR '':'') authority)"

text \<open>\<open>None\<close> is a header that is not visible ASCII.\<close>

definition is_allowed_local_origin :: "string option \<Rightarrow> bool" where
  "is_allowed_local_origin origin =
     (case origin of
        None \<Rightarrow> False
      | Some s \<Rightarrow>
          (case (case strip_prefix ''http://'' s of Some r \<Rightarrow> Some r | None \<Rightarrow> strip_prefix ''https://'' s) of
             None \<Rightarrow> False
           | Some host_with_port \<Rightarrow> origin_host host_with_port \<in> {''localhost'', ''127.0.0.1'', ''::1''}))"

section \<open>What a preview shows\<close>

text \<open>Redaction without the cut: the lines a preview is taken from.\<close>

fun redact :: "bool \<Rightarrow> string list \<Rightarrow> string list" where
  "redact block [] = []"
| "redact block (line # ls) =
     (if begins_private_key line then KEY_HIDDEN # redact True ls
      else if block then redact (\<not> ends_private_key line) ls
      else if contains_sensitive_log_marker line then LINE_HIDDEN # redact False ls
      else line # redact False ls)"

definition starts_char :: "string \<Rightarrow> bool" where
  "starts_char s \<longleftrightarrow> s = [] \<or> \<not> is_cont (hd s)"

definition ends_line :: "string \<Rightarrow> bool" where
  "ends_line s \<longleftrightarrow> s \<noteq> [] \<and> last s = CHR 0x0A"

lemma char_count_simps [simp]:
  "char_count [] = 0"
  "char_count (c # s) = (if is_cont c then 0 else 1) + char_count s"
  "char_count (s @ t) = char_count s + char_count t"
  by (simp_all add: char_count_def)

lemma take_chars_0: "starts_char s \<Longrightarrow> take_chars s 0 = []"
  by (cases s) (simp_all add: starts_char_def)

lemma take_chars_append: "starts_char t \<Longrightarrow> take_chars (s @ t) n = take_chars s n @ take_chars t (n - char_count s)"
  by (induction s n rule: take_chars.induct) (auto simp: take_chars_0 split: nat.splits)

lemma char_count_take: "char_count (take_chars s n) = min n (char_count s)"
  by (induction s n rule: take_chars.induct) (auto split: nat.splits)

lemma take_chars_prefix: "prefix (take_chars s n) s"
  by (induction s n rule: take_chars.induct) (auto split: nat.splits)

lemma split_inclusive_ends: "\<forall>l\<in>set (butlast (split_inclusive s)). ends_line l"
proof (induction s rule: split_inclusive.induct)
  case (2 c cs)
  show ?case
  proof (cases "split_inclusive cs")
    case Nil
    then show ?thesis by simp
  next
    case (Cons l ls)
    with 2 show ?thesis
      by (cases ls) (auto simp: ends_line_def split: if_splits)
  qed
qed simp

lemma split_inclusive_tl_starts:
  "(\<And>u v. s = u @ CHR 0x0A # v \<Longrightarrow> starts_char v) \<Longrightarrow> \<forall>l\<in>set (tl (split_inclusive s)). starts_char l"
proof (induction s rule: split_inclusive.induct)
  case (2 c cs)
  have rest: "starts_char v" if "cs = u @ CHR 0x0A # v" for u v
    using "2.prems" [of "c # u" v] that by simp
  show ?case
  proof (cases "c = CHR 0x0A")
    case True
    then have "starts_char cs" using "2.prems" [of "[]" cs] by simp
    then have "starts_char (hd (split_inclusive cs))" if "cs \<noteq> []"
      using split_inclusive_hd [of cs] that by (simp add: starts_char_def)
    moreover have "\<forall>l\<in>set (tl (split_inclusive cs)). starts_char l" using "2.IH"(1) True rest by blast
    ultimately show ?thesis using True by (cases "cs = []"; cases "split_inclusive cs") auto
  next
    case False
    moreover have "\<forall>l\<in>set (tl (split_inclusive cs)). starts_char l" using "2.IH"(2) False rest by blast
    ultimately show ?thesis by (cases "split_inclusive cs") auto
  qed
qed simp

lemma split_inclusive_starts:
  assumes "valid_utf8 s"
  shows "\<forall>l\<in>set (split_inclusive s). starts_char l"
proof (cases "s = []")
  case False
  have nl: "\<not> is_cont (CHR 0x0A)" by (simp add: is_cont_def byte_of_def)
  have "starts_char v" if "s = u @ CHR 0x0A # v" for u v
  proof -
    have "is_boundary s (length u)" using that nl by (simp add: is_boundary_def)
    from valid_utf8_drop [OF assms this] have "valid_utf8 (CHR 0x0A # v)" using that by simp
    then have "valid_utf8 v" by (simp add: valid_utf8.simps(2) utf8_width.simps(2) byte_in_def byte_of_def)
    then show ?thesis using valid_utf8_first by (auto simp: starts_char_def)
  qed
  then have "\<forall>l\<in>set (tl (split_inclusive s)). starts_char l" by (rule split_inclusive_tl_starts)
  moreover have "starts_char (hd (split_inclusive s))"
    using split_inclusive_hd [OF False] valid_utf8_first [OF assms False] by (simp add: starts_char_def)
  ultimately show ?thesis using False by (cases "split_inclusive s") auto
qed simp

lemma redact_starts: "\<forall>l\<in>set ls. starts_char l \<Longrightarrow> \<forall>l\<in>set (redact b ls). starts_char l"
  by (induction b ls rule: redact.induct)
     (auto simp: starts_char_def KEY_HIDDEN_def LINE_HIDDEN_def is_cont_def byte_of_def)

lemma starts_char_concat: "\<forall>l\<in>set ls. starts_char l \<Longrightarrow> starts_char (concat ls)"
proof (induction ls)
  case (Cons a ls)
  then show ?case by (cases a) (auto simp: starts_char_def)
qed (simp add: starts_char_def)

lemma preview_is_cut_redaction:
  "\<forall>l\<in>set ls. starts_char l \<Longrightarrow> preview_lines n b ls = take_chars (concat (redact b ls)) n"
proof (induction b ls arbitrary: n rule: redact.induct)
  case (2 b line ls)
  let ?x = "if begins_private_key line then KEY_HIDDEN
            else if contains_sensitive_log_marker line then LINE_HIDDEN else line"
  have st: "\<forall>l\<in>set ls. starts_char l" using "2.prems" by simp
  show ?case
  proof (cases "\<not> begins_private_key line \<and> b")
    case True
    then show ?thesis using "2.IH"(2) st by auto
  next
    case False
    let ?b = "begins_private_key line"
    have ih: "preview_lines m ?b ls = take_chars (concat (redact ?b ls)) m" for m
      using "2.IH" False st by (cases ?b; cases "contains_sensitive_log_marker line") auto
    have red: "redact b (line # ls) = ?x # redact ?b ls" using False by auto
    have starts: "starts_char (concat (redact ?b ls))"
      using starts_char_concat redact_starts st by blast
    have "preview_lines n b (line # ls) =
        (let part = take_chars ?x n; r = n - char_count part
         in if r = 0 then part else part @ preview_lines r ?b ls)"
      using False by (cases b; cases "begins_private_key line") (simp_all add: Let_def)
    also have "\<dots> = take_chars ?x n @ take_chars (concat (redact ?b ls)) (n - char_count ?x)"
      using take_chars_0 [OF starts] by (auto simp: Let_def ih char_count_take min_def)
    also have "\<dots> = take_chars (concat (redact b (line # ls))) n"
      by (simp only: red concat.simps take_chars_append [OF starts])
    finally show ?thesis .
  qed
qed simp

lemma redact_ends: "\<forall>l\<in>set (butlast ls). ends_line l \<Longrightarrow> \<forall>l\<in>set (butlast (redact b ls)). ends_line l"
proof (induction b ls rule: redact.induct)
  case (2 b line ls)
  have tl: "\<forall>l\<in>set (butlast ls). ends_line l" and hd: "ls \<noteq> [] \<Longrightarrow> ends_line line"
    using "2.prems" by (cases ls; simp)+
  have glosses: "ends_line KEY_HIDDEN" "ends_line LINE_HIDDEN"
    by (simp_all add: ends_line_def KEY_HIDDEN_def LINE_HIDDEN_def)
  show ?case
  proof (cases "ls = []")
    case True
    then show ?thesis by simp
  next
    case False
    have cons: "\<forall>l\<in>set (butlast (x # xs)). ends_line l"
      if "ends_line x" "\<forall>l\<in>set (butlast xs). ends_line l" for x xs
      using that by (cases xs) simp_all
    show ?thesis
    proof (cases "begins_private_key line")
      case True
      then show ?thesis using cons [OF glosses(1) "2.IH"(1) [OF True tl]] by simp
    next
      case key: False
      show ?thesis
      proof (cases b)
        case True
        then show ?thesis using "2.IH"(2) [OF key True tl] key by simp
      next
        case plain: False
        then show ?thesis
          using cons [OF glosses(2) "2.IH"(3) [OF key plain _ tl]]
            cons [OF hd [OF False] "2.IH"(4) [OF key plain _ tl]] key by simp
      qed
    qed
  qed
qed simp

lemma redact_unmarked: "\<forall>l\<in>set (redact b ls). \<not> contains_sensitive_log_marker l"
proof -
  have lower: "to_ascii_lowercase KEY_HIDDEN = KEY_HIDDEN" "to_ascii_lowercase LINE_HIDDEN = LINE_HIDDEN"
    by code_simp+
  have "\<not> contains_sensitive_log_marker KEY_HIDDEN"
    unfolding contains_sensitive_log_marker_def lower Let_def by code_simp
  moreover have "\<not> contains_sensitive_log_marker LINE_HIDDEN"
    unfolding contains_sensitive_log_marker_def lower Let_def by code_simp
  ultimately show ?thesis
  proof (induction b ls rule: redact.induct)
    case (2 b line ls)
    show ?case
    proof (cases "begins_private_key line")
      case True
      then show ?thesis using "2.IH"(1) [OF True "2.prems"] "2.prems"(1) by simp
    next
      case key: False
      show ?thesis
      proof (cases b)
        case True
        then show ?thesis using "2.IH"(2) [OF key True "2.prems"] key by simp
      next
        case plain: False
        show ?thesis
        proof (cases "contains_sensitive_log_marker line")
          case True
          then show ?thesis using "2.IH"(3) [OF key plain True "2.prems"] "2.prems"(2) key plain by simp
        next
          case False
          then show ?thesis using "2.IH"(4) [OF key plain False "2.prems"] key plain by simp
        qed
      qed
    qed
  qed simp
qed

text \<open>A text without a line end lies within one line.\<close>

lemma contains_concat:
  assumes "contains m (concat ls)" "CHR 0x0A \<notin> set m" "m \<noteq> []" "\<forall>l\<in>set (butlast ls). ends_line l"
  shows "\<exists>l\<in>set ls. contains m l"
  using assms(1,4)
proof (induction ls)
  case Nil
  with assms(3) show ?case by simp
next
  case (Cons l ls)
  have sub: "contains p s \<longleftrightarrow> sublist p s" for p s by (simp add: contains_iff sublist_def)
  show ?case
  proof (cases "ls = []")
    case True
    with Cons.prems show ?thesis by simp
  next
    case False
    then have l: "ends_line l" and ls: "\<forall>l\<in>set (butlast ls). ends_line l" using Cons.prems(2) by auto
    have "\<not> (\<exists>x y. m = x @ y \<and> x \<noteq> [] \<and> suffix x l)"
    proof (intro notI, elim exE conjE)
      fix x y assume "m = x @ y" "x \<noteq> []" "suffix x l"
      then have "last x = CHR 0x0A" using l by (auto simp: ends_line_def suffix_def)
      with \<open>m = x @ y\<close> \<open>x \<noteq> []\<close> assms(2) show False by (metis Un_iff last_in_set set_append)
    qed
    then have "contains m l \<or> contains m (concat ls)"
      using Cons.prems(1) by (auto simp: sub sublist_append)
    then show ?thesis using Cons.IH ls by auto
  qed
qed

lemma marker_facts:
  "list_all (\<lambda>m. m \<noteq> [] \<and> CHR 0x0A \<notin> set m) SENSITIVE_MARKERS"
  by (simp add: SENSITIVE_MARKERS_def)

lemma unmarked_iff:
  "\<not> contains_sensitive_log_marker s \<longleftrightarrow> (\<forall>m\<in>set SENSITIVE_MARKERS. \<not> contains m (to_ascii_lowercase s))"
  by (auto simp: contains_sensitive_log_marker_def Let_def list_ex_iff)

lemma unmarked_prefix:
  "prefix s t \<Longrightarrow> \<not> contains_sensitive_log_marker t \<Longrightarrow> \<not> contains_sensitive_log_marker s"
  by (auto simp: unmarked_iff prefix_def to_ascii_lowercase_def contains_iff)
     (metis append.assoc)

lemma unmarked_concat:
  assumes "\<forall>l\<in>set ls. \<not> contains_sensitive_log_marker l" "\<forall>l\<in>set (butlast ls). ends_line l"
  shows "\<not> contains_sensitive_log_marker (concat ls)"
proof
  have lower: "to_ascii_lowercase (concat ls) = concat (map to_ascii_lowercase ls)"
    by (induction ls) (simp_all add: to_ascii_lowercase_def)
  assume "contains_sensitive_log_marker (concat ls)"
  then obtain m where m: "m \<in> set SENSITIVE_MARKERS" "contains m (concat (map to_ascii_lowercase ls))"
    by (auto simp: contains_sensitive_log_marker_def Let_def list_ex_iff lower)
  have "ascii_lower (CHR 0x0A) = CHR 0x0A" by code_simp
  then have "\<forall>l\<in>set (butlast (map to_ascii_lowercase ls)). ends_line l"
    using assms(2) by (auto simp: map_butlast [symmetric] ends_line_def to_ascii_lowercase_def last_map)
  from contains_concat [OF m(2) _ _ this] m(1) marker_facts
  obtain l where "l \<in> set ls" "contains m (to_ascii_lowercase l)"
    by (auto simp: list_all_iff)
  with m(1) assms(1) show False by (auto simp: unmarked_iff)
qed

text \<open>C27: no preview in the log contains any of the eighteen markers of a secret, in whatever case it is
  written, wherever the output is cut and however its lines are split; the preview is the redacted output, cut
  to the limit, so nothing but marked lines and private keys is hidden and the cut loses nothing before it.\<close>

theorem response_log_preview_redacts:
  assumes "valid_utf8 response" and "response_log_preview command response max_chars = Some preview"
  shows "\<not> contains_sensitive_log_marker preview
    \<and> (\<not> contains_sensitive_log_marker command \<longrightarrow>
        preview = take_chars (concat (redact False (split_inclusive response))) max_chars)"
proof (cases "contains_sensitive_log_marker command")
  case True
  have lower: "to_ascii_lowercase RESPONSE_HIDDEN = RESPONSE_HIDDEN" by code_simp
  have "\<not> contains_sensitive_log_marker RESPONSE_HIDDEN"
    unfolding contains_sensitive_log_marker_def lower Let_def by code_simp
  with True assms(2) show ?thesis by (simp add: response_log_preview_def split: if_splits)
next
  case False
  let ?ls = "redact False (split_inclusive response)"
  have p: "preview = take_chars (concat ?ls) max_chars"
    using assms(2) False preview_is_cut_redaction [OF split_inclusive_starts [OF assms(1)]]
    by (simp add: response_log_preview_def Let_def split: if_splits)
  have "\<not> contains_sensitive_log_marker (concat ?ls)"
    by (rule unmarked_concat [OF redact_unmarked redact_ends [OF split_inclusive_ends]])
  with p unmarked_prefix [OF take_chars_prefix] show ?thesis by simp
qed

lemma redact_nothing:
  "\<forall>l\<in>set ls. \<not> begins_private_key l \<and> \<not> contains_sensitive_log_marker l \<Longrightarrow> redact False ls = ls"
  by (induction ls) simp_all

theorem response_log_preview_redacts_witness:
  "response_log_preview ''ls'' (''ab'' @ CHR 0x0A # ''My Token x'') 100 = Some (''ab'' @ CHR 0x0A # LINE_HIDDEN)
   \<and> \<not> contains_sensitive_log_marker (''ab'' @ CHR 0x0A # LINE_HIDDEN)"
proof -
  have v: "valid_utf8 (''ab'' @ CHR 0x0A # ''My Token x'')" by code_simp
  have r: "response_log_preview ''ls'' (''ab'' @ CHR 0x0A # ''My Token x'') 100 = Some (''ab'' @ CHR 0x0A # LINE_HIDDEN)"
    by code_simp
  from response_log_preview_redacts [OF v r] r show ?thesis by blast
qed

text \<open>The words before the first blank are shown even when they carry the marked assignment itself.\<close>

lemma assignment_before_command_is_logged:
  "command_log_detail ''TOKEN=abc curl x'' 120 = ''TOKEN=abc'' @ HIDDEN_ARGUMENTS"
  by code_simp

section \<open>Entries and origins\<close>

lemma push_log_bounded:
  "length logs \<le> MAX_LOG_ENTRIES \<Longrightarrow>
    length (push_log_with_response now action detail success ms response logs) \<le> MAX_LOG_ENTRIES"
  by (simp add: push_log_with_response_def Let_def MAX_LOG_ENTRIES_def)

lemma push_log_keeps_latest:
  "suffix (push_log_with_response now action detail success ms response logs)
    (logs @ [\<lparr>le_timestamp = now, le_action = action, le_detail = detail, le_success = success,
      le_duration_ms = ms, le_response = response\<rparr>])"
  by (simp only: push_log_with_response_def Let_def suffix_drop suffix_order.refl split: if_split) simp

lemma before_last_port: "CHR '':'' \<notin> set port \<Longrightarrow> before_last (CHR '':'') (host @ CHR '':'' # port) = host"
  by (simp add: before_last_def dropWhile_append)

text \<open>For an origin as a browser writes it, the test is the comparison of its host with the loopback names.\<close>

theorem origin_host_exact:
  assumes "CHR ''/'' \<notin> set host" "CHR '':'' \<notin> set host" "\<not> starts_with ''['' host"
    "port = [] \<or> (\<exists>digits. port = CHR '':'' # digits \<and> CHR '':'' \<notin> set digits \<and> CHR ''/'' \<notin> set digits)"
    "scheme = ''http://'' \<or> scheme = ''https://''"
  shows "is_allowed_local_origin (Some (scheme @ host @ port)) \<longleftrightarrow> host \<in> {''localhost'', ''127.0.0.1''}"
proof -
  have s1: "split_on (CHR ''/'') (host @ port) = [host @ port]"
    using assms(1,4) by (auto intro!: split_on_single)
  have s2: "\<not> starts_with ''['' (host @ port)"
    using assms(3,4) by (cases host) auto
  have "origin_host (host @ port) = host"
    using assms(2,4) s1 s2 by (auto simp: origin_host_def strip_prefix_def Let_def before_last_port)
       (simp add: before_last_def)
  moreover have "host \<noteq> ''::1''" using assms(2) by auto
  moreover have strips: "strip_prefix ''http://'' (''http://'' @ r) = Some r"
    "strip_prefix ''http://'' (''https://'' @ r) = None" "strip_prefix ''https://'' (''https://'' @ r) = Some r" for r
    by (simp_all add: strip_prefix_def)
  ultimately show ?thesis
    using assms(5) strips by (auto simp: is_allowed_local_origin_def)
qed

end
