(* ===== verification/Api_Jobs.thy ===== *)
theory Api_Jobs
  imports Job_Registry_Inv Guard App_Errors Api_Log
begin

text \<open>
  The HTTP interface to jobs (\<open>api\_server/handlers\_jobs.rs\<close>, \<open>api\_server/auth.rs\<close>, the request checks of
  \<open>api\_server/handlers\_remote.rs\<close>): who may do what, the task that executes a job, and the event stream.
\<close>

section \<open>Authorisation\<close>

datatype http_status =
    Unauthorized | Forbidden | StatusNotFound | BadRequest | TooManyRequests | StatusConflict | InternalError
  | ServiceUnavailable | PayloadTooLarge | RangeNotSatisfiable

type_synonym 'a http_result = "http_status \<times> string + 'a"

text \<open>The header value is \<open>None\<close> when it is absent or not visible ASCII.\<close>

definition verify_auth :: "string option \<Rightarrow> string \<Rightarrow> unit http_result" where
  "verify_auth header expected =
     (let auth = (case header of None \<Rightarrow> [] | Some v \<Rightarrow> v);
          token = (case strip_prefix ''Bearer '' auth of None \<Rightarrow> [] | Some t \<Rightarrow> t)
      in if expected = [] \<or> token \<noteq> expected then Inl (Unauthorized, ''invalid API key'') else Inr ())"

definition verify_session_access :: "string set \<Rightarrow> string \<Rightarrow> unit http_result" where
  "verify_session_access allowed session_id =
     (if session_id \<notin> allowed then Inl (Forbidden, ''no access to session '' @ session_id) else Inr ())"

definition verify_session_access_and_exists :: "string set \<Rightarrow> string set \<Rightarrow> string \<Rightarrow> unit http_result" where
  "verify_session_access_and_exists allowed existing session_id =
     and_then (verify_session_access allowed session_id) (\<lambda>_.
       if session_id \<in> existing then Inr () else Inl (StatusNotFound, ''no such session''))"

definition MAX_API_COMMAND_BYTES :: nat where "MAX_API_COMMAND_BYTES = 64 * 1024"

definition strict_safety_mode :: "string option \<Rightarrow> bool http_result" where
  "strict_safety_mode value =
     (let v = to_ascii_lowercase (trim (case value of None \<Rightarrow> ''balanced'' | Some m \<Rightarrow> m)) in
      if v = ''balanced'' \<or> v = ''standard'' then Inr False
      else if v = ''strict'' then Inr True
      else Inl (BadRequest, ''safetyMode must be balanced or strict''))"

definition validate_exec_request ::
  "(string \<Rightarrow> string) \<Rightarrow> string \<Rightarrow> string \<Rightarrow> string option \<Rightarrow> unit http_result" where
  "validate_exec_request lower session_id command safety_mode =
     (if trim session_id = [] \<or> trim command = [] then Inl (BadRequest, ''missing sessionId or command'')
      else if length command > MAX_API_COMMAND_BYTES then Inl (BadRequest, ''command over 64 KiB'')
      else and_then (strict_safety_mode safety_mode) (\<lambda>strict.
        case check_dangerous_command lower command strict of
          Some reason \<Rightarrow> Inl (Forbidden, ''command rejected: '' @ reason)
        | None \<Rightarrow> Inr ()))"

definition map_registry_error :: "job_registry_error \<Rightarrow> http_status \<times> string" where
  "map_registry_error e =
     (case e of
        JobNotFound \<Rightarrow> (StatusNotFound, ''no such job'')
      | JobCapacity m \<Rightarrow> (TooManyRequests, m)
      | JobConflict m \<Rightarrow> (StatusConflict, m))"

section \<open>The handlers\<close>

record api_state =
  as_api_key :: string
  as_allowed :: "string set"
  as_jobs :: job_registry

definition DEFAULT_API_JOB_TIMEOUT_MS :: nat where "DEFAULT_API_JOB_TIMEOUT_MS = 30 * 60000"
definition MAX_API_JOB_TIMEOUT_MS :: nat where "MAX_API_JOB_TIMEOUT_MS = 24 * 60 * 60000"

definition rest_jobs_create ::
  "(string \<Rightarrow> string) \<Rightarrow> job_env \<Rightarrow> string \<Rightarrow> string option \<Rightarrow> string \<Rightarrow> string \<Rightarrow> nat option \<Rightarrow> string option
   \<Rightarrow> api_state \<Rightarrow> api_state \<times> job_snapshot option http_result" where
  "rest_jobs_create lower E uuid header session_id command timeout safety_mode st =
     (case and_then (verify_auth header (as_api_key st)) (\<lambda>_.
             and_then (validate_exec_request lower session_id command safety_mode) (\<lambda>_.
               verify_session_access (as_allowed st) session_id)) of
        Inl e \<Rightarrow> (st, Inl e)
      | Inr _ \<Rightarrow>
          (let timeout_ms = min (max (case timeout of None \<Rightarrow> DEFAULT_API_JOB_TIMEOUT_MS | Some t \<Rightarrow> t) 1)
                                MAX_API_JOB_TIMEOUT_MS in
           case registry_create E uuid session_id (command_log_detail command 120) timeout_ms (as_jobs st) of
             (m, Inl e) \<Rightarrow> (st\<lparr>as_jobs := m\<rparr>, Inl (map_registry_error e))
           | (m, Inr r) \<Rightarrow>
               (st\<lparr>as_jobs := fst (registry_attach_handle (record_job_id r) m)\<rparr>,
                Inr (snapshot_from_state (jr_state r)))))"

definition rest_jobs_list :: "nat \<Rightarrow> string option \<Rightarrow> api_state \<Rightarrow> api_state \<times> job_summary list http_result" where
  "rest_jobs_list instant header st =
     (case verify_auth header (as_api_key st) of
        Inl e \<Rightarrow> (st, Inl e)
      | Inr _ \<Rightarrow>
          (case registry_list instant (as_jobs st) of
             (m, jobs) \<Rightarrow> (st\<lparr>as_jobs := m\<rparr>, Inr (filter (\<lambda>j. jb_session_id j \<in> as_allowed st) jobs))))"

definition find_job :: "nat \<Rightarrow> string \<Rightarrow> api_state \<Rightarrow> api_state \<times> job_record http_result" where
  "find_job instant job_id st =
     (case registry_get instant job_id (as_jobs st) of
        (m, None) \<Rightarrow> (st\<lparr>as_jobs := m\<rparr>, Inl (StatusNotFound, ''no such job'' @ job_id))
      | (m, Some r) \<Rightarrow> (st\<lparr>as_jobs := m\<rparr>, Inr r))"

text \<open>What the handlers on one job share: authentication, the lookup, the check of its session.\<close>

definition authorized_job :: "nat \<Rightarrow> string option \<Rightarrow> string \<Rightarrow> api_state \<Rightarrow> api_state \<times> job_record http_result" where
  "authorized_job instant header job_id st =
     (case verify_auth header (as_api_key st) of
        Inl e \<Rightarrow> (st, Inl e)
      | Inr _ \<Rightarrow>
          (case find_job instant job_id st of
             (st', Inl e) \<Rightarrow> (st', Inl e)
           | (st', Inr r) \<Rightarrow>
               (case verify_session_access (as_allowed st') (record_session_id r) of
                  Inl e \<Rightarrow> (st', Inl e)
                | Inr _ \<Rightarrow> (st', Inr r))))"

definition rest_job_get :: "nat \<Rightarrow> string option \<Rightarrow> string \<Rightarrow> api_state \<Rightarrow> api_state \<times> job_snapshot option http_result" where
  "rest_job_get instant header job_id st =
     (case authorized_job instant header job_id st of
        (st', Inl e) \<Rightarrow> (st', Inl e)
      | (st', Inr r) \<Rightarrow> (st', Inr (snapshot_from_state (jr_state r))))"

definition rest_job_cancel ::
  "job_env \<Rightarrow> string option \<Rightarrow> string \<Rightarrow> api_state \<Rightarrow> api_state \<times> job_snapshot option http_result" where
  "rest_job_cancel E header job_id st =
     (case authorized_job (je_instant E) header job_id st of
        (st', Inl e) \<Rightarrow> (st', Inl e)
      | (st', Inr r) \<Rightarrow>
          (case registry_cancel E job_id (as_jobs st') of
             (m, Inl e) \<Rightarrow> (st'\<lparr>as_jobs := m\<rparr>, Inl (map_registry_error e))
           | (m, Inr snap) \<Rightarrow> (st'\<lparr>as_jobs := m\<rparr>, Inr snap)))"

definition rest_job_events ::
  "nat \<Rightarrow> string option \<Rightarrow> string \<Rightarrow> nat option \<Rightarrow> nat option \<Rightarrow> api_state \<Rightarrow> api_state \<times> job_subscription http_result" where
  "rest_job_events instant header job_id query_after header_after st =
     (case authorized_job instant header job_id st of
        (st', Inl e) \<Rightarrow> (st', Inl e)
      | (st', Inr r) \<Rightarrow>
          (st', Inr (job_subscribe (case query_after of
                       Some a \<Rightarrow> a | None \<Rightarrow> (case header_after of Some a \<Rightarrow> a | None \<Rightarrow> 0)) r)))"

lemma prune_subset: "set (prune_expired t m) \<subseteq> set m"
  by (auto simp: prune_expired_def foldl_jobs_remove)

lemma authorized_jobD:
  "authorized_job t header job_id st = (st', Inr r) \<Longrightarrow>
     as_api_key st \<noteq> [] \<and> header = Some (''Bearer '' @ as_api_key st)
     \<and> record_session_id r \<in> as_allowed st \<and> (job_id, r) \<in> set (as_jobs st)
     \<and> as_jobs st' = prune_expired t (as_jobs st) \<and> as_allowed st' = as_allowed st"
  using prune_subset [of t "as_jobs st"]
  by (auto simp: authorized_job_def verify_auth_def strip_prefix_def find_job_def registry_get_def Let_def
      verify_session_access_def starts_with_iff split: if_splits option.splits sum.splits dest!: map_of_SomeD)

lemma snapshot_session: "snapshot_from_state st = Some snap \<Longrightarrow> jb_session_id snap = jb_session_id (js_snapshot st)"
  by (auto simp: snapshot_from_state_def split: option.splits)



section \<open>Executing a job\<close>

text \<open>\<open>execute\_job\<close> as a program of lock sections. Between two of them any step of the record may happen.
  What the task meets on its way (the connection, the permit, the output, the result) is left open. \<open>GivesUp\<close>
  is a guarded section that has released the lock to call \<open>finish\_canceled\<close>.\<close>

datatype job_pc =
    Starting
  | Connecting_session
  | Checking_access
  | Queueing
  | Rechecking_access
  | Marking_running
  | Streaming "(bool \<times> string) list" "string + exec_result"
  | Finishing "string + exec_result"
  | Giving_up
  | Ended

inductive own_step :: "job_pc \<times> job_sys \<Rightarrow> job_pc \<times> job_sys \<Rightarrow> bool" where
  start: "lock_verdict r = Proceed \<Longrightarrow>
    own_step (Starting, (r, p)) (Connecting_session, (mark_connecting_locked E r, p))"
| start_done: "lock_verdict r = AlreadyDone \<Longrightarrow> own_step (Starting, (r, p)) (Ended, (r, p))"
| start_give_up: "lock_verdict r = GiveUp \<Longrightarrow> own_step (Starting, (r, p)) (Giving_up, (r, p))"
| connect_canceled: "jr_cancel r \<Longrightarrow>
    own_step (Connecting_session, (r, p)) (Giving_up, (set_connection_ms v r, p))"
| connect_failed: "own_step (Connecting_session, (r, p)) (Finishing (Inl err), (set_connection_ms v r, p))"
| connected: "own_step (Connecting_session, (r, p)) (Checking_access, (set_connection_ms v r, p))"
| access_denied: "own_step (Checking_access, s) (Finishing (Inl err), s)"
| access_granted: "own_step (Checking_access, s) (Queueing, s)"
| queue_canceled: "jr_cancel r \<Longrightarrow> own_step (Queueing, (r, p)) (Giving_up, (set_queue_ms v r, p))"
| queue_failed: "own_step (Queueing, (r, p)) (Finishing (Inl err), (set_queue_ms v r, p))"
| queued: "own_step (Queueing, (r, p)) (Rechecking_access, (set_queue_ms v r, p))"
| recheck_denied: "own_step (Rechecking_access, s) (Finishing (Inl err), s)"
| recheck_granted: "own_step (Rechecking_access, s) (Marking_running, s)"
| run: "lock_verdict r = Proceed \<Longrightarrow> (\<forall>(b, c)\<in>set chunks. valid_utf8 c) \<Longrightarrow>
    own_step (Marking_running, (r, p)) (Streaming chunks res, (mark_running_locked E r, p))"
| run_done: "lock_verdict r = AlreadyDone \<Longrightarrow> own_step (Marking_running, (r, p)) (Ended, (r, p))"
| run_give_up: "lock_verdict r = GiveUp \<Longrightarrow> own_step (Marking_running, (r, p)) (Giving_up, (r, p))"
| chunk: "lock_verdict r \<noteq> GiveUp \<Longrightarrow> valid_utf8 c \<Longrightarrow>
    own_step (Streaming ((b, c) # cs) res, (r, p)) (Streaming cs res, (append_output_locked E b c r, p))"
| chunk_give_up: "lock_verdict r = GiveUp \<Longrightarrow>
    own_step (Streaming ((b, c) # cs) res, (r, p)) (Streaming cs res, (finish_canceled E r, p))"
| streamed: "own_step (Streaming [] res, s) (Finishing res, s)"
| finish_error: "lock_verdict r \<noteq> GiveUp \<Longrightarrow>
    own_step (Finishing (Inl err), (r, p)) (Ended, (finish_error_locked E err r, p))"
| finish_result: "lock_verdict r \<noteq> GiveUp \<Longrightarrow>
    own_step (Finishing (Inr x), (r, p)) (Ended, (finish_result_locked E x r, p))"
| finish_give_up: "lock_verdict r = GiveUp \<Longrightarrow> own_step (Finishing res, (r, p)) (Giving_up, (r, p))"
| give_up: "own_step (Giving_up, (r, p)) (Ended, (finish_canceled E r, p))"

inductive_cases own_stepE: "own_step c c'"

inductive task_step :: "job_pc \<times> job_sys \<Rightarrow> job_pc \<times> job_sys \<Rightarrow> bool" where
  own: "own_step c c' \<Longrightarrow> task_step c c'"
| other: "job_step s s' \<Longrightarrow> task_step (pc, s) (pc, s')"

text \<open>A bound on the sections still to come.\<close>

fun pc_rank :: "job_pc \<Rightarrow> nat \<Rightarrow> nat" where
  "pc_rank Starting n = n + 10"
| "pc_rank Connecting_session n = n + 9"
| "pc_rank Checking_access n = n + 8"
| "pc_rank Queueing n = n + 7"
| "pc_rank Rechecking_access n = n + 6"
| "pc_rank Marking_running n = n + 5"
| "pc_rank (Streaming chunks res) n = length chunks + 3"
| "pc_rank (Finishing res) n = 2"
| "pc_rank Giving_up n = 1"
| "pc_rank Ended n = 0"

fun pc_chunks :: "job_pc \<Rightarrow> nat" where
  "pc_chunks (Streaming chunks res) = length chunks"
| "pc_chunks _ = 0"

fun pc_chunks_ok :: "job_pc \<Rightarrow> bool" where
  "pc_chunks_ok (Streaming chunks res) = (\<forall>(b, c)\<in>set chunks. valid_utf8 c)"
| "pc_chunks_ok _ = True"

lemma finish_canceled_terminal: "job_is_terminal (status_of (finish_canceled E r))"
  by (simp add: finish_canceled_def Let_def job_is_terminal_def map_snapshot_def)

lemma finish_locked_terminal:
  "lock_verdict r \<noteq> GiveUp \<Longrightarrow> job_is_terminal (status_of (finish_error_locked E err r))"
  "lock_verdict r \<noteq> GiveUp \<Longrightarrow> job_is_terminal (status_of (finish_result_locked E x r))"
  by (auto simp: finish_error_locked_def finish_result_locked_def lock_verdict_def job_is_terminal_def Let_def
      map_snapshot_def split: if_splits)

lemma already_done_terminal: "lock_verdict r = AlreadyDone \<Longrightarrow> job_is_terminal (status_of r)"
  by (simp add: lock_verdict_def split: if_splits)

lemma own_step_ended: "own_step (pc, s) (pc', s') \<Longrightarrow> pc' = Ended \<Longrightarrow> job_is_terminal (status_of (fst s'))"
  by (erule own_stepE)
     (auto simp: finish_canceled_terminal finish_locked_terminal already_done_terminal)

lemma own_step_rank:
  "own_step (pc, s) (pc', s') \<Longrightarrow> pc_chunks pc' \<le> n \<Longrightarrow> pc_rank pc' n < pc_rank pc n"
  by (erule own_stepE) auto

lemma own_step_chunks_ok: "own_step (pc, s) (pc', s') \<Longrightarrow> pc_chunks_ok pc \<Longrightarrow> pc_chunks_ok pc'"
  by (erule own_stepE) auto

lemma own_step_enabled:
  assumes "pc \<noteq> Ended" "pc_chunks_ok pc"
  shows "\<exists>c'. own_step (pc, s) c'"
proof -
  obtain r p where s: "s = (r, p)" by (cases s)
  show ?thesis
  proof (cases pc)
    case Starting
    then show ?thesis unfolding s by (cases "lock_verdict r") (blast intro: own_step.intros)+
  next
    case Marking_running
    have "\<forall>(b, c)\<in>set []. valid_utf8 c" by simp
    with Marking_running show ?thesis unfolding s by (cases "lock_verdict r") (blast intro: own_step.intros)+
  next
    case (Streaming chunks res)
    show ?thesis
    proof (cases chunks)
      case Nil
      then show ?thesis unfolding s Streaming by (blast intro: own_step.intros)
    next
      case (Cons x cs)
      obtain b c where x: "x = (b, c)" by (cases x)
      have "valid_utf8 c" using assms(2) Streaming Cons x by simp
      then show ?thesis unfolding s Streaming Cons x
        by (cases "lock_verdict r = GiveUp") (blast intro: own_step.intros)+
    qed
  next
    case (Finishing res)
    then show ?thesis unfolding s
      by (cases "lock_verdict r = GiveUp"; cases res) (blast intro: own_step.intros)+
  qed (use assms s in \<open>blast intro: own_step.intros\<close>)+
qed

lemma task_inv:
  assumes "task_step\<^sup>*\<^sup>* (Starting, s0) (pc, s)"
  shows "pc_chunks_ok pc \<and> (pc = Ended \<longrightarrow> job_is_terminal (status_of (fst s)))"
  using assms
proof (induction "(pc, s)" arbitrary: pc s rule: rtranclp_induct)
  case (step c)
  obtain pc0 s0 where c: "c = (pc0, s0)" by (cases c)
  from step(2) show ?case
  proof cases
    case own
    then show ?thesis using own_step_ended own_step_chunks_ok step(3) c by blast
  next
    case other
    then show ?thesis using job.stays step(3) c by blast
  qed
qed simp



text \<open>The task is one of the interleavings the record's own theorems are about.\<close>

lemma own_step_job_steps:
  "own_step (pc, s) (pc', s') \<Longrightarrow> pc_chunks_ok pc \<Longrightarrow>
   s' = s \<or> job_step s s' \<or> (pc = Giving_up \<and> (\<exists>E. s' = (finish_canceled E (fst s), snd s)))"
  by (erule own_stepE) (auto intro: job_step.intros simp: lock_verdict_def split: if_splits)

end
