(* ===== verification/Proxy.thy ===== *)
theory Proxy
  imports App_Errors Byte_Strings Decimal Str_Lines
begin

text \<open>
  The proxy handshakes (\<open>remote/proxy.rs\<close>): the client of a SOCKS5 or HTTP CONNECT proxy in front of an SSH
  server, and the SOCKS5 server behind a dynamic port forward. A connection is what the peer will still
  send, what has been written to it, and how many more bytes it takes before writes fail. Timeouts are
  arguments, as they may strike anywhere.
\<close>

section \<open>Reading and writing\<close>

record wire =
  wi_in :: bytes
  wi_out :: bytes
  wi_budget :: nat

type_synonym 'a io = "wire \<Rightarrow> 'a app_result \<times> wire"

definition io_return :: "'a \<Rightarrow> 'a io" where
  "io_return x w = (Inr x, w)"

definition io_fail :: "app_error \<Rightarrow> 'a io" where
  "io_fail e w = (Inl e, w)"

definition io_bind :: "'a io \<Rightarrow> ('a \<Rightarrow> 'b io) \<Rightarrow> 'b io" where
  "io_bind m f w = (case m w of (Inl e, w') \<Rightarrow> (Inl e, w') | (Inr x, w') \<Rightarrow> f x w')"

definition write_all :: "bytes \<Rightarrow> unit io" where
  "write_all bs w =
     (if length bs \<le> wi_budget w
      then (Inr (), w\<lparr>wi_out := wi_out w @ bs, wi_budget := wi_budget w - length bs\<rparr>)
      else (Inl (Remote ''broken pipe''), w\<lparr>wi_out := wi_out w @ take (wi_budget w) bs, wi_budget := 0\<rparr>))"

definition read_exact :: "nat \<Rightarrow> bytes io" where
  "read_exact n w =
     (if n \<le> length (wi_in w) then (Inr (take n (wi_in w)), w\<lparr>wi_in := drop n (wi_in w)\<rparr>)
      else (Inl (Remote ''early eof''), w\<lparr>wi_in := []\<rparr>))"

section \<open>The client side\<close>

text \<open>The bound address of a reply, by its type.\<close>

definition skip_bound_address :: "byte \<Rightarrow> unit io" where
  "skip_bound_address atyp =
     (if atyp = 1 then io_bind (read_exact 4) (\<lambda>_. io_return ())
      else if atyp = 3 then
        io_bind (read_exact 1) (\<lambda>len. io_bind (read_exact (unat (len ! 0))) (\<lambda>_. io_return ()))
      else if atyp = 4 then io_bind (read_exact 16) (\<lambda>_. io_return ())
      else io_fail (Remote ''SOCKS5 proxy: unsupported address type''))"

definition socks5_request :: "string \<Rightarrow> 16 word \<Rightarrow> bytes" where
  "socks5_request target_host target_port =
     [5, 1, 0, 3, of_nat (length target_host)] @ str_bytes target_host @ be16 target_port"

definition socks5_client :: "string \<Rightarrow> 16 word \<Rightarrow> unit io" where
  "socks5_client target_host target_port =
     io_bind (write_all [5, 1, 0]) (\<lambda>_.
     io_bind (read_exact 2) (\<lambda>response.
     if response \<noteq> [5, 0] then io_fail (Remote ''SOCKS5 proxy refuses no authentication'')
     else
       io_bind (write_all (socks5_request target_host target_port)) (\<lambda>_.
       io_bind (read_exact 4) (\<lambda>header.
       if header ! 0 \<noteq> 5 \<or> header ! 1 \<noteq> 0
       then io_fail (Remote (''SOCKS5 proxy failed: '' @ dec_string (unat (header ! 1))))
       else
         io_bind (skip_bound_address (header ! 3)) (\<lambda>_.
         io_bind (read_exact 2) (\<lambda>bound_port. io_return ()))))))"

text \<open>The connection to the proxy comes from the operating system; \<open>timed\_out\<close> says whether the handshake
  ran into its ten seconds.\<close>

type_synonym connector = "string \<Rightarrow> 16 word \<Rightarrow> string \<Rightarrow> wire app_result"

definition connect_via_socks5 ::
  "connector \<Rightarrow> bool \<Rightarrow> ssh_proxy_options \<Rightarrow> string \<Rightarrow> 16 word \<Rightarrow> wire app_result" where
  "connect_via_socks5 connect timed_out proxy target_host target_port =
     (if length target_host > 255 then Inl (InvalidInput ''SOCKS5 host name too long'')
      else and_then (connect (sp_host proxy) (sp_port proxy) ''SOCKS5 proxy'') (\<lambda>w.
        if timed_out then Inl (Remote ''SOCKS5 proxy handshake timed out'')
        else (case socks5_client target_host target_port w of
                (Inl e, _) \<Rightarrow> Inl e
              | (Inr _, w') \<Rightarrow> Inr w')))"

definition CRLF :: string where "CRLF = [CHR 0x0D, CHR 0x0A]"
definition HTTP_HEADER_MAX :: nat where "HTTP_HEADER_MAX = 16 * 1024"

text \<open>The loop of \<open>read\_http\_header\<close>, byte by byte, on what the peer sends.\<close>

fun read_header_bytes :: "bytes \<Rightarrow> bytes \<Rightarrow> bytes app_result \<times> bytes" where
  "read_header_bytes buffer [] =
     (if length buffer < HTTP_HEADER_MAX then (Inl (Remote ''early eof''), [])
      else (Inl (Remote ''HTTP header too large''), []))"
| "read_header_bytes buffer (b # bs) =
     (if length buffer < HTTP_HEADER_MAX
      then (let buffer' = buffer @ [b] in
            if suffix [13, 10, 13, 10] buffer' then (Inr buffer', bs)
            else read_header_bytes buffer' bs)
      else (Inl (Remote ''HTTP header too large''), b # bs))"

definition read_http_header :: "string io" where
  "read_http_header w =
     (case read_header_bytes [] (wi_in w) of
        (Inl e, rest) \<Rightarrow> (Inl e, w\<lparr>wi_in := rest\<rparr>)
      | (Inr buffer, rest) \<Rightarrow> (Inr (from_utf8_lossy buffer), w\<lparr>wi_in := rest\<rparr>))"

definition http_connect_request :: "string \<Rightarrow> 16 word \<Rightarrow> string" where
  "http_connect_request target_host target_port =
     (let target = target_host @ '':'' @ dec_string (unat target_port) in
      ''CONNECT '' @ target @ '' HTTP/1.1'' @ CRLF @ ''Host: '' @ target @ CRLF
      @ ''Proxy-Connection: keep-alive'' @ CRLF @ CRLF)"

definition http_client :: "string \<Rightarrow> 16 word \<Rightarrow> string io" where
  "http_client target_host target_port =
     io_bind (write_all (str_bytes (http_connect_request target_host target_port))) (\<lambda>_. read_http_header)"

definition status_line :: "string \<Rightarrow> string" where
  "status_line response = (case str_lines response of [] \<Rightarrow> [] | l # _ \<Rightarrow> l)"

definition connect_via_http_connect ::
  "connector \<Rightarrow> bool \<Rightarrow> ssh_proxy_options \<Rightarrow> string \<Rightarrow> 16 word \<Rightarrow> wire app_result" where
  "connect_via_http_connect connect timed_out proxy target_host target_port =
     and_then (connect (sp_host proxy) (sp_port proxy) ''HTTP CONNECT proxy'') (\<lambda>w.
       if timed_out then Inl (Remote ''HTTP CONNECT proxy handshake timed out'')
       else (case http_client target_host target_port w of
               (Inl e, _) \<Rightarrow> Inl e
             | (Inr response, w') \<Rightarrow>
                 if contains '' 200 '' (status_line response) then Inr w'
                 else Inl (Remote (''HTTP CONNECT proxy failed: '' @ status_line response))))"

definition connect_via_configured_proxy ::
  "connector \<Rightarrow> bool \<Rightarrow> ssh_proxy_options \<Rightarrow> string \<Rightarrow> 16 word \<Rightarrow> wire app_result" where
  "connect_via_configured_proxy connect timed_out proxy target_host target_port =
     (if sp_kind proxy = ''socks5'' then connect_via_socks5 connect timed_out proxy target_host target_port
      else if sp_kind proxy = ''httpConnect'' then connect_via_http_connect connect timed_out proxy target_host target_port
      else Inl (InvalidInput ''invalid proxy kind''))"

definition connect_tcp_for_ssh ::
  "connector \<Rightarrow> bool \<Rightarrow> string \<Rightarrow> 16 word \<Rightarrow> ssh_proxy_options option \<Rightarrow> wire app_result" where
  "connect_tcp_for_ssh connect timed_out host port proxy =
     (case proxy of
        None \<Rightarrow> connect host port ''SSH direct''
      | Some p \<Rightarrow>
          if sp_kind p = ''direct'' then connect host port ''SSH direct''
          else connect_via_configured_proxy connect timed_out p host port)"

section \<open>Addresses as text\<close>

definition ipv4_string :: "bytes \<Rightarrow> string" where
  "ipv4_string addr = join_with ''.'' (map (\<lambda>b. dec_string (unat b)) addr)"

definition hex_digit :: "nat \<Rightarrow> char" where
  "hex_digit n = (if n < 10 then char_of (48 + n) else char_of (87 + n))"

fun hex_string :: "nat \<Rightarrow> string" where
  "hex_string n = (if n < 16 then [hex_digit n] else hex_string (n div 16) @ [hex_digit (n mod 16)])"

declare hex_string.simps [simp del]

fun segments :: "bytes \<Rightarrow> nat list" where
  "segments (a # b # bs) = (unat a * 256 + unat b) # segments bs"
| "segments _ = []"

text \<open>The first longest run of zero segments, as start and length.\<close>

fun zero_run :: "nat \<Rightarrow> nat list \<Rightarrow> nat \<times> nat \<Rightarrow> nat \<times> nat \<Rightarrow> nat \<times> nat" where
  "zero_run i [] current longest = longest"
| "zero_run i (x # xs) current longest =
     (if x = 0
      then (let current' = (if snd current = 0 then i else fst current, snd current + 1)
            in zero_run (Suc i) xs current' (if snd current' > snd longest then current' else longest))
      else zero_run (Suc i) xs (0, 0) longest)"

definition ipv6_string :: "bytes \<Rightarrow> string" where
  "ipv6_string addr =
     (let segs = segments addr; text = (\<lambda>ss. join_with '':'' (map hex_string ss)) in
      if take 6 segs = [0, 0, 0, 0, 0, 0xFFFF] then ''::ffff:'' @ ipv4_string (drop 12 addr)
      else (case zero_run 0 segs (0, 0) (0, 0) of
              (start, len) \<Rightarrow>
                if len > 1 then text (take start segs) @ ''::'' @ text (drop (start + len) segs)
                else text segs))"

section \<open>The server side\<close>

definition SOCKS5_NO_BOUND :: bytes where "SOCKS5_NO_BOUND = [0, 1, 0, 0, 0, 0, 0, 0]"

text \<open>The arms of \<open>match header[3]\<close>.\<close>

definition read_target_host :: "byte \<Rightarrow> string io" where
  "read_target_host atyp =
     (if atyp = 1 then io_bind (read_exact 4) (\<lambda>addr. io_return (ipv4_string addr))
      else if atyp = 3 then
        io_bind (read_exact 1) (\<lambda>len.
          if len ! 0 = 0 then io_fail (Remote ''SOCKS5 host name empty'')
          else io_bind (read_exact (unat (len ! 0))) (\<lambda>name.
            case from_utf8 name of
              None \<Rightarrow> io_fail (Remote ''SOCKS5 host name not UTF-8'')
            | Some host \<Rightarrow> io_return host))
      else if atyp = 4 then io_bind (read_exact 16) (\<lambda>addr. io_return (ipv6_string addr))
      else io_bind (write_all ([5, 8] @ SOCKS5_NO_BOUND)) (\<lambda>_.
        io_fail (Remote ''SOCKS5 address type not supported'')))"

definition read_target :: "(string \<times> 16 word) io" where
  "read_target =
     io_bind (read_exact 4) (\<lambda>header.
       if header ! 0 \<noteq> 5 then io_fail (Remote ''SOCKS5 request version invalid'')
       else if header ! 1 \<noteq> 1 then
         io_bind (write_all ([5, 7] @ SOCKS5_NO_BOUND)) (\<lambda>_. io_fail (Remote ''SOCKS5 only CONNECT''))
       else
         io_bind (read_target_host (header ! 3)) (\<lambda>host.
         io_bind (read_exact 2) (\<lambda>port_bytes.
           let port = from_be16 port_bytes in
           if port = 0 then io_fail (Remote ''SOCKS5 target port invalid'')
           else io_return (host, port))))"

definition socks5_server :: "(string \<times> 16 word) io" where
  "socks5_server =
     io_bind (read_exact 2) (\<lambda>greeting.
       if greeting ! 0 \<noteq> 5 then io_fail (Remote ''only SOCKS5'')
       else
         io_bind (read_exact (unat (greeting ! 1))) (\<lambda>methods.
           if 0 \<notin> set methods then
             io_bind (write_all [5, 0xFF]) (\<lambda>_. io_fail (Remote ''SOCKS5 client offers no plain method''))
           else
             io_bind (write_all [5, 0]) (\<lambda>_. read_target)))"

text \<open>Up to the start of the copying. The reply to a channel that cannot be opened is best effort; what the
  second timeout cuts off is the last write.\<close>

definition handle_socks5 ::
  "bool \<Rightarrow> bool \<Rightarrow> (string \<Rightarrow> 16 word \<Rightarrow> unit app_result) \<Rightarrow> (string \<times> 16 word) io" where
  "handle_socks5 timed_out reply_timed_out open_channel w =
     (if timed_out then (Inl (Remote ''SOCKS5 client handshake timed out''), w)
      else io_bind socks5_server (\<lambda>(host, port).
        case open_channel host port of
          Inl e \<Rightarrow> (\<lambda>w'. (Inl e, if reply_timed_out then w' else snd (write_all ([5, 5] @ SOCKS5_NO_BOUND) w')))
        | Inr _ \<Rightarrow>
            if reply_timed_out then io_fail (Remote ''SOCKS5 reply timed out'')
            else io_bind (write_all ([5, 0] @ SOCKS5_NO_BOUND)) (\<lambda>_. io_return (host, port))) w)"

section \<open>Both ends agree\<close>

lemmas io_simps = io_bind_def io_return_def io_fail_def read_exact_def write_all_def

definition socks5_client_bytes :: "string \<Rightarrow> 16 word \<Rightarrow> bytes" where
  "socks5_client_bytes host port = [5, 1, 0] @ socks5_request host port"

definition socks5_server_bytes :: bytes where
  "socks5_server_bytes = [5, 0] @ [5, 0] @ SOCKS5_NO_BOUND"

lemma client_run:
  assumes "wi_in w = socks5_server_bytes @ rest"
    "length (socks5_client_bytes host port) \<le> wi_budget w"
  shows "socks5_client host port w =
    (Inr (), w\<lparr>wi_in := rest, wi_out := wi_out w @ socks5_client_bytes host port,
        wi_budget := wi_budget w - length (socks5_client_bytes host port)\<rparr>)"
  using assms
  by (simp add: socks5_client_def io_simps skip_bound_address_def socks5_server_bytes_def SOCKS5_NO_BOUND_def
      socks5_client_bytes_def socks5_request_def)

lemma server_run:
  assumes "wi_in w = socks5_client_bytes host port @ rest" "12 \<le> wi_budget w"
    "0 < length host" "length host \<le> 255" "valid_utf8 host" "port \<noteq> 0" "open_channel host port = Inr ()"
  shows "handle_socks5 False False open_channel w =
    (Inr (host, port), w\<lparr>wi_in := rest, wi_out := wi_out w @ socks5_server_bytes,
        wi_budget := wi_budget w - 12\<rparr>)"
proof -
  have len: "unat (of_nat (length host) :: byte) = length host" using assms(4) by (simp add: unat_of_nat)
  then have len0: "(of_nat (length host) :: byte) \<noteq> 0" using assms(3) by (metis less_irrefl unat_0)
  show ?thesis
    using assms len len0 from_utf8_str [OF assms(5)]
    by (simp add: handle_socks5_def socks5_server_def read_target_def read_target_host_def io_simps
        socks5_client_bytes_def socks5_request_def socks5_server_bytes_def SOCKS5_NO_BOUND_def Let_def)
qed

text \<open>C31: the SOCKS5 client and the SOCKS5 server of the program understand each other: whatever host name and
  port the client asks for is what the server opens its channel to, the client accepts the server's reply, and
  neither reads a byte of the tunnelled data behind the handshake.\<close>

theorem socks5_handshake_agrees:
  assumes "0 < length host" "length host \<le> 255" "valid_utf8 host" "port \<noteq> 0"
    and "open_channel host port = Inr ()" and "12 \<le> b" and "length host + 10 \<le> b'"
  shows "\<exists>reply.
     handle_socks5 False False open_channel \<lparr>wi_in = socks5_client_bytes host port @ up, wi_out = [], wi_budget = b\<rparr>
       = (Inr (host, port), \<lparr>wi_in = up, wi_out = reply, wi_budget = b - 12\<rparr>)
   \<and> connect_via_socks5 (\<lambda>h p l. Inr \<lparr>wi_in = reply @ down, wi_out = [], wi_budget = b'\<rparr>) False proxy host port
       = Inr \<lparr>wi_in = down, wi_out = socks5_client_bytes host port, wi_budget = b' - (length host + 10)\<rparr>"
proof (intro exI conjI)
  let ?server = "\<lparr>wi_in = socks5_client_bytes host port @ up, wi_out = [], wi_budget = b\<rparr>"
  show "handle_socks5 False False open_channel ?server
    = (Inr (host, port), \<lparr>wi_in = up, wi_out = socks5_server_bytes, wi_budget = b - 12\<rparr>)"
    using server_run [of ?server host port up open_channel] assms by simp
  let ?client = "\<lparr>wi_in = socks5_server_bytes @ down, wi_out = [], wi_budget = b'\<rparr>"
  have len: "length (socks5_client_bytes host port) = length host + 10"
    by (simp add: socks5_client_bytes_def socks5_request_def)
  have "socks5_client host port ?client
    = (Inr (), \<lparr>wi_in = down, wi_out = socks5_client_bytes host port, wi_budget = b' - (length host + 10)\<rparr>)"
    using client_run [of ?client down host port] assms(7) len by simp
  then show "connect_via_socks5 (\<lambda>h p l. Inr ?client) False proxy host port
    = Inr \<lparr>wi_in = down, wi_out = socks5_client_bytes host port, wi_budget = b' - (length host + 10)\<rparr>"
    using assms(2) by (simp add: connect_via_socks5_def)
qed

theorem socks5_handshake_agrees_witness:
  "\<exists>reply. handle_socks5 False False (\<lambda>h p. Inr ())
      \<lparr>wi_in = socks5_client_bytes ''h'' 22 @ [1, 2], wi_out = [], wi_budget = 50\<rparr>
    = (Inr (''h'', 22), \<lparr>wi_in = [1, 2], wi_out = reply, wi_budget = 38\<rparr>)"
proof -
  have "valid_utf8 ''h''" by code_simp
  then show ?thesis
    using socks5_handshake_agrees [of "''h''" 22 "\<lambda>h p. Inr ()" 50 11 "[1, 2]" "[]" undefined] by auto
qed

text \<open>What the client accepts as the end of a handshake, from any peer.\<close>

definition bound_reply :: "bytes \<Rightarrow> bool" where
  "bound_reply bs \<longleftrightarrow>
     (\<exists>r atyp addr port. bs = [5, 0, r, atyp] @ addr @ port \<and> length port = 2
        \<and> (atyp = 1 \<and> length addr = 4 \<or> atyp = 4 \<and> length addr = 16
           \<or> atyp = 3 \<and> addr \<noteq> [] \<and> length addr = 1 + unat (hd addr)))"

lemma read_exact_Inr:
  "read_exact n w = (Inr x, w') \<longleftrightarrow> wi_in w = x @ wi_in w' \<and> length x = n \<and> w' = w\<lparr>wi_in := wi_in w'\<rparr>"
proof
  assume "read_exact n w = (Inr x, w')"
  then show "wi_in w = x @ wi_in w' \<and> length x = n \<and> w' = w\<lparr>wi_in := wi_in w'\<rparr>"
    by (auto simp: read_exact_def split: if_splits)
next
  assume a: "wi_in w = x @ wi_in w' \<and> length x = n \<and> w' = w\<lparr>wi_in := wi_in w'\<rparr>"
  then have "drop n (wi_in w) = wi_in w'" "take n (wi_in w) = x" "n \<le> length (wi_in w)" by auto
  with a show "read_exact n w = (Inr x, w')" by (simp add: read_exact_def)
qed

lemma io_bind_Inr: "io_bind m f w = (Inr y, w') \<longleftrightarrow> (\<exists>x v. m w = (Inr x, v) \<and> f x v = (Inr y, w'))"
  by (auto simp: io_bind_def split: prod.splits sum.splits)

lemma write_all_in: "write_all bs w = (Inr u, w') \<Longrightarrow> wi_in w' = wi_in w"
  by (auto simp: write_all_def split: if_splits)

lemma skip_bound_address_Inr:
  assumes "skip_bound_address atyp w = (Inr u, w')"
  shows "\<exists>addr. wi_in w = addr @ wi_in w'
    \<and> (atyp = 1 \<and> length addr = 4 \<or> atyp = 4 \<and> length addr = 16
       \<or> atyp = 3 \<and> addr \<noteq> [] \<and> length addr = 1 + unat (hd addr))"
proof -
  consider "atyp = 1" | "atyp = 3" | "atyp = 4" | "atyp \<notin> {1, 3, 4}" by blast
  then show ?thesis
  proof cases
    case 2
    from assms 2 obtain len v name where
      r: "read_exact 1 w = (Inr len, v)" "read_exact (unat (len ! 0)) v = (Inr name, w')"
      by (auto simp: skip_bound_address_def io_bind_Inr io_return_def)
    then have "wi_in w = (len @ name) @ wi_in w'" "length len = 1" "length name = unat (len ! 0)"
      by (simp_all add: read_exact_Inr)
    with 2 show ?thesis by (intro exI [of _ "len @ name"]) (cases len; auto)
  qed (use assms in \<open>auto simp: skip_bound_address_def io_bind_Inr io_return_def io_fail_def read_exact_Inr\<close>)
qed

theorem socks5_client_sound:
  assumes "socks5_client host port w = (Inr u, w')"
  shows "\<exists>reply. wi_in w = [5, 0] @ reply @ wi_in w' \<and> bound_reply reply"
proof -
  obtain w1 w2 w3 w4 w5 resp header p where
    r: "write_all [5, 1, 0] w = (Inr (), w1)" "read_exact 2 w1 = (Inr resp, w2)" "resp = [5, 0]"
      "write_all (socks5_request host port) w2 = (Inr (), w3)" "read_exact 4 w3 = (Inr header, w4)"
      "header ! 0 = 5" "header ! 1 = 0" "skip_bound_address (header ! 3) w4 = (Inr (), w5)"
      "read_exact 2 w5 = (Inr p, w')"
    using assms
    by (auto simp: socks5_client_def io_bind_Inr io_return_def io_fail_def split: if_splits)
  from skip_bound_address_Inr [OF r(8)] obtain addr where
    a: "wi_in w4 = addr @ wi_in w5" "header ! 3 = 1 \<and> length addr = 4 \<or> header ! 3 = 4 \<and> length addr = 16
       \<or> header ! 3 = 3 \<and> addr \<noteq> [] \<and> length addr = 1 + unat (hd addr)" by blast
  have "wi_in w = [5, 0] @ (header @ addr @ p) @ wi_in w'" "length header = 4" "length p = 2"
    using r a(1) write_all_in [OF r(1)] write_all_in [OF r(4)] by (simp_all add: read_exact_Inr)
  moreover have "header = [5, 0, header ! 2, header ! 3]"
    using \<open>length header = 4\<close> r(6,7)
    by (cases header; cases "tl header"; cases "tl (tl header)"; cases "tl (tl (tl header))") auto
  moreover have "bound_reply (header @ addr @ p)"
    unfolding bound_reply_def
  proof (intro exI conjI)
    show "header @ addr @ p = [5, 0, header ! 2, header ! 3] @ addr @ p"
      using \<open>header = [5, 0, header ! 2, header ! 3]\<close> by simp
  qed (use a(2) \<open>length p = 2\<close> in auto)
  ultimately show ?thesis by blast
qed

section \<open>The HTTP header\<close>

text \<open>Reading stops right behind the first empty line, which is among the first 16 KiB.\<close>

theorem read_header_exact:
  assumes "read_header_bytes buffer bs = (Inr header, rest)" "length buffer \<le> HTTP_HEADER_MAX"
  shows "buffer @ bs = header @ rest \<and> suffix [13, 10, 13, 10] header \<and> length header \<le> HTTP_HEADER_MAX
    \<and> (\<forall>p. strict_prefix p header \<and> length buffer < length p \<longrightarrow> \<not> suffix [13, 10, 13, 10] p)"
  using assms
proof (induction buffer bs rule: read_header_bytes.induct)
  case (2 buffer b bs)
  then have room: "length buffer < HTTP_HEADER_MAX" by (auto split: if_splits)
  show ?case
  proof (cases "suffix [13, 10, 13, 10] (buffer @ [b])")
    case True
    with "2.prems" room have h: "header = buffer @ [b]" "rest = bs" by auto
    have "length p \<le> length buffer" if "strict_prefix p (buffer @ [b])" for p
      using that prefix_length_less by fastforce
    then show ?thesis using h True room by (metis Suc_leI append.assoc append_Cons append_Nil leD length_append_singleton)
  next
    case False
    with "2.prems" room have "read_header_bytes (buffer @ [b]) bs = (Inr header, rest)"
      by (simp add: Let_def split: if_splits)
    from "2.IH" [OF room refl False this] room
    have ih: "(buffer @ [b]) @ bs = header @ rest" "suffix [13, 10, 13, 10] header" "length header \<le> HTTP_HEADER_MAX"
      "\<And>p. strict_prefix p header \<Longrightarrow> length buffer + 1 < length p \<Longrightarrow> \<not> suffix [13, 10, 13, 10] p" by auto
    have "\<not> suffix [13, 10, 13, 10] p" if p: "strict_prefix p header" "length buffer < length p" for p
    proof (cases "length p = length buffer + 1")
      case True
      have "prefix p ((buffer @ [b]) @ bs)" using p(1) ih(1) by (metis prefix_append prefix_order.less_imp_le)
      then have "p = buffer @ [b]" using True by (metis append_eq_append_conv prefix_def length_append_singleton Suc_eq_plus1)
      with False show ?thesis by simp
    next
      case False
      with p ih(4) show ?thesis by simp
    qed
    with ih show ?thesis by simp
  qed
qed (auto split: if_splits)

text \<open>The test of the status line finds its number anywhere in it.\<close>

lemma http_status_anywhere:
  "contains '' 200 '' (status_line (''HTTP/1.1 403 only 200 guests'' @ CRLF @ CRLF))"
  "\<not> contains '' 200 '' (status_line (''HTTP/1.1 200'' @ CRLF @ CRLF))"
  by code_simp+

end
