(* ===== verification/Exec_Output.thy ===== *)
theory Exec_Output
  imports Byte_Strings Job_Machine Sftp_Commands
begin

text \<open>
  The output of a remote command (\<open>remote/ssh.rs\<close>): the bounded tails of both streams, the decoder that turns
  byte chunks into text as they arrive, and the batching of the text for the client. Bytes that are to become
  text are character lists here, as everywhere in the development.
\<close>

section \<open>The tail that is kept\<close>

record bounded_output =
  bo_bytes :: string
  bo_max_bytes :: nat
  bo_total_bytes :: nat
  bo_truncated :: bool

definition bounded_new :: "nat \<Rightarrow> bounded_output" where
  "bounded_new max_bytes = \<lparr>bo_bytes = [], bo_max_bytes = max max_bytes 1, bo_total_bytes = 0, bo_truncated = False\<rparr>"

definition bounded_push :: "string \<Rightarrow> bounded_output \<Rightarrow> bounded_output" where
  "bounded_push bytes o0 =
     (let o1 = o0\<lparr>bo_total_bytes := sat_add64 (bo_total_bytes o0) (length bytes)\<rparr> in
      if length bytes \<ge> bo_max_bytes o1
      then o1\<lparr>bo_bytes := drop (length bytes - bo_max_bytes o1) bytes,
              bo_truncated := bo_truncated o1 \<or> bo_total_bytes o1 > bo_max_bytes o1\<rparr>
      else (let all_bytes = bo_bytes o1 @ bytes; overflow = length all_bytes - bo_max_bytes o1 in
            if overflow > 0 then o1\<lparr>bo_bytes := drop overflow all_bytes, bo_truncated := True\<rparr>
            else o1\<lparr>bo_bytes := all_bytes\<rparr>))"

definition bounded_push_line :: "string \<Rightarrow> bounded_output \<Rightarrow> bounded_output" where
  "bounded_push_line text0 o0 =
     bounded_push text0
       (if bo_bytes o0 \<noteq> [] \<and> last (bo_bytes o0) \<noteq> CHR 0x0A then bounded_push [CHR 0x0A] o0 else o0)"

definition bounded_into_parts :: "bounded_output \<Rightarrow> string \<times> nat \<times> bool" where
  "bounded_into_parts o0 =
     (let text0 = lossy (bo_bytes o0) in
      if length text0 > bo_max_bytes o0
      then (dropWhile is_cont (drop (length text0 - bo_max_bytes o0) text0), bo_total_bytes o0, True)
      else (text0, bo_total_bytes o0, bo_truncated o0))"

section \<open>Decoding chunks\<close>

text \<open>\<open>Utf8Error::valid\_up\_to\<close> and \<open>error\_len\<close>: \<open>None\<close> when the input ends inside a character that could
  still become well-formed.\<close>

function valid_up_to :: "string \<Rightarrow> nat" where
  "valid_up_to [] = 0"
| "valid_up_to (a # s) =
     (let n = utf8_width (a # s) in if n = 0 then 0 else n + valid_up_to (drop n (a # s)))"
  by pat_completeness auto
termination
  by (relation "measure length") auto

declare valid_up_to.simps(2) [simp del]

definition lead_width :: "char \<Rightarrow> nat" where
  "lead_width a =
     (if byte_in 194 223 a then 2 else if byte_in 224 239 a then 3 else if byte_in 240 244 a then 4 else 1)"

definition utf8_error_len :: "string \<Rightarrow> nat option" where
  "utf8_error_len s =
     (case s of
        [] \<Rightarrow> None
      | a # _ \<Rightarrow> if lossy_skip s = length s \<and> length s < lead_width a then None else Some (max 1 (lossy_skip s)))"

text \<open>The loop of \<open>push\<close>: what it outputs, and what stays pending.\<close>

function decode_loop :: "string \<Rightarrow> string \<times> string" where
  "decode_loop pending =
     (let v = valid_up_to pending in
      if v = length pending then (pending, [])
      else (case utf8_error_len (drop v pending) of
              None \<Rightarrow> (take v pending, drop v pending)
            | Some n \<Rightarrow>
                (case decode_loop (drop (min n (length (drop v pending))) (drop v pending)) of
                   (out, rest) \<Rightarrow> (take v pending @ [CHR 0xEF, CHR 0xBF, CHR 0xBD] @ out, rest))))"
  by pat_completeness auto

lemma utf8_error_len_pos: "utf8_error_len s = Some n \<Longrightarrow> 0 < n"
  by (auto simp: utf8_error_len_def split: list.splits if_splits)

lemma valid_up_to_le: "valid_up_to s \<le> length s"
proof (induction s rule: valid_up_to.induct)
  case (2 a s)
  show ?case
  proof (cases "utf8_width (a # s) = 0")
    case False
    from 2 [OF refl False] utf8_width_length [of "a # s"] False show ?thesis
      by (simp add: valid_up_to.simps(2) Let_def del: drop_Cons')
  qed (simp add: valid_up_to.simps(2))
qed simp

termination decode_loop
proof (relation "measure length", goal_cases)
  case (2 pending v n)
  then have "v < length pending" using valid_up_to_le [of pending] by simp
  with utf8_error_len_pos [OF 2(3)] show ?case by simp
qed simp

declare decode_loop.simps [simp del]

definition decoder_push :: "string \<Rightarrow> string \<Rightarrow> string \<times> string" where
  "decoder_push bytes pending = decode_loop (pending @ bytes)"

definition decoder_finish :: "string \<Rightarrow> string" where
  "decoder_finish pending = lossy pending"

section \<open>Batching\<close>

datatype stream_chunk = Stdout string | Stderr string

fun chunk_text :: "stream_chunk \<Rightarrow> string" where
  "chunk_text (Stdout t) = t"
| "chunk_text (Stderr t) = t"

definition stream_chunk_len :: "stream_chunk \<Rightarrow> nat" where
  "stream_chunk_len c = length (chunk_text c)"

definition EXEC_STREAM_CHUNK_BYTES :: nat where "EXEC_STREAM_CHUNK_BYTES = 16 * 1024"

text \<open>What has been sent, and the pending chunk. A failing send is ignored by the code; what the receiver
  would have got is recorded all the same.\<close>

type_synonym stream_queue = "stream_chunk list \<times> stream_chunk option"

definition flush_stream_output :: "stream_queue \<Rightarrow> stream_queue" where
  "flush_stream_output q = (case q of (sent, None) \<Rightarrow> (sent, None) | (sent, Some c) \<Rightarrow> (sent @ [c], None))"

fun same_stream :: "stream_chunk \<Rightarrow> stream_chunk \<Rightarrow> bool" where
  "same_stream (Stdout _) (Stdout _) = True"
| "same_stream (Stderr _) (Stderr _) = True"
| "same_stream _ _ = False"

fun append_chunk :: "stream_chunk option \<Rightarrow> stream_chunk \<Rightarrow> stream_chunk" where
  "append_chunk (Some (Stdout current)) (Stdout t) = Stdout (current @ t)"
| "append_chunk (Some (Stderr current)) (Stderr t) = Stderr (current @ t)"
| "append_chunk _ next_chunk = next_chunk"

definition queue_stream_output :: "stream_chunk \<Rightarrow> stream_queue \<Rightarrow> stream_queue" where
  "queue_stream_output next_chunk q =
     (let q1 = (if (case snd q of None \<Rightarrow> False | Some c \<Rightarrow> same_stream c next_chunk) then q
                else flush_stream_output q);
          q2 = (fst q1, Some (append_chunk (snd q1) next_chunk))
      in if (case snd q2 of None \<Rightarrow> 0 | Some c \<Rightarrow> stream_chunk_len c) \<ge> EXEC_STREAM_CHUNK_BYTES
         then flush_stream_output q2 else q2)"

definition queue_nonempty :: "(string \<Rightarrow> stream_chunk) \<Rightarrow> string \<Rightarrow> stream_queue \<Rightarrow> stream_queue" where
  "queue_nonempty mk t q = (if t = [] then q else queue_stream_output (mk t) q)"

section \<open>Chunks against the whole\<close>

abbreviation REPLACEMENT :: string where "REPLACEMENT \<equiv> [CHR 0xEF, CHR 0xBF, CHR 0xBD]"

lemma lossy_width: "utf8_width s \<noteq> 0 \<Longrightarrow> lossy s = take (utf8_width s) s @ lossy (drop (utf8_width s) s)"
  by (cases s) (simp_all add: lossy.simps(2) Let_def del: drop_Cons' take_Cons')

lemma lossy_bad:
  "s \<noteq> [] \<Longrightarrow> utf8_width s = 0 \<Longrightarrow> lossy s = REPLACEMENT @ lossy (drop (max 1 (lossy_skip s)) s)"
  by (cases s) (simp_all add: lossy.simps(2) Let_def del: drop_Cons' take_Cons')

lemma lossy_width_append:
  "utf8_width s \<noteq> 0 \<Longrightarrow> lossy (s @ t) = take (utf8_width s) s @ lossy (drop (utf8_width s) s @ t)"
  using lossy_width [of "s @ t"] utf8_width_append [of s t] utf8_width_length [of s] by simp

lemma valid_up_to_append: "lossy (s @ t) = take (valid_up_to s) s @ lossy (drop (valid_up_to s) s @ t)"
proof (induction s rule: valid_up_to.induct)
  case (2 a s)
  let ?n = "utf8_width (a # s)"
  show ?case
  proof (cases "?n = 0")
    case False
    let ?v = "valid_up_to (drop ?n (a # s))"
    have "valid_up_to (a # s) = ?n + ?v" using False by (simp add: valid_up_to.simps(2) Let_def del: drop_Cons')
    then have "take (valid_up_to (a # s)) (a # s) = take ?n (a # s) @ take ?v (drop ?n (a # s))"
      "drop (valid_up_to (a # s)) (a # s) = drop ?v (drop ?n (a # s))"
      by (simp_all only: take_add drop_drop add.commute)
    then show ?thesis
      using lossy_width_append [OF False, of t] 2 [OF refl False] by (simp only: append.assoc)
  qed (simp add: valid_up_to.simps(2))
qed simp

lemma lossy_skip_le: "lossy_skip s \<le> length s"
  by (cases s) (auto split: list.splits)

lemma bad_stays_bad:
  assumes "utf8_width s = 0" "utf8_error_len s = Some n"
  shows "utf8_width (s @ t) = 0 \<and> max 1 (lossy_skip (s @ t)) = n \<and> n \<le> length s"
proof -
  obtain a u where s: "s = a # u" using assms(2) by (cases s) (auto simp: utf8_error_len_def)
  consider "byte_in 0 127 a" | "byte_in 194 223 a" | "byte_in 224 239 a" | "byte_in 240 244 a"
    | "\<not> byte_in 0 127 a" "\<not> byte_in 194 223 a" "\<not> byte_in 224 239 a" "\<not> byte_in 240 244 a"
    by blast
  then have "utf8_width (s @ t) = 0 \<and> lossy_skip (s @ t) = lossy_skip s"
  proof cases
    case 2
    then have "\<not> byte_in 0 127 a" "\<not> byte_in 224 239 a" "\<not> byte_in 240 244 a" by (auto simp: byte_in_def)
    with 2 assms s show ?thesis
      by (cases u) (auto simp: utf8_width.simps(2) utf8_error_len_def lead_width_def split: if_splits)
  next
    case 3
    then have "\<not> byte_in 0 127 a" "\<not> byte_in 194 223 a" "\<not> byte_in 240 244 a" by (auto simp: byte_in_def)
    with 3 assms s show ?thesis
      by (cases u; cases "tl u"; cases t) (auto simp: utf8_width.simps(2) utf8_error_len_def lead_width_def split: if_splits)
  next
    case 4
    then have "\<not> byte_in 0 127 a" "\<not> byte_in 194 223 a" "\<not> byte_in 224 239 a" by (auto simp: byte_in_def)
    with 4 assms s show ?thesis
      by (cases u; cases "tl u"; cases "tl (tl u)"; cases t; cases "tl t")
         (auto simp: utf8_width.simps(2) utf8_error_len_def lead_width_def split: if_splits)
  qed (use assms s in \<open>auto simp: utf8_width.simps(2)\<close>)
  moreover have "n = max 1 (lossy_skip s)" "s \<noteq> []"
    using assms(2) s by (auto simp: utf8_error_len_def split: if_splits)
  ultimately show ?thesis using lossy_skip_le [of s] by (cases s) (auto simp: max_def)
qed

lemma valid_up_to_rest: "utf8_width (drop (valid_up_to s) s) = 0"
proof (induction s rule: valid_up_to.induct)
  case (2 a s)
  then show ?case
    by (cases "utf8_width (a # s) = 0") (simp_all add: valid_up_to.simps(2) Let_def add.commute del: drop_Cons')
qed simp

lemma decode_loop_lossy: "decode_loop s = (out, p) \<Longrightarrow> lossy (s @ t) = out @ lossy (p @ t)"
proof (induction s arbitrary: out p rule: decode_loop.induct)
  case (1 s)
  let ?v = "valid_up_to s"
  let ?r = "drop ?v s"
  have whole: "lossy (s @ t) = take ?v s @ lossy (?r @ t)" by (rule valid_up_to_append)
  show ?case
  proof (cases "?v = length s")
    case True
    then show ?thesis using "1.prems" whole by (simp add: decode_loop.simps [of s])
  next
    case nv: False
    show ?thesis
    proof (cases "utf8_error_len ?r")
      case None
      then show ?thesis using "1.prems" whole nv by (simp add: decode_loop.simps [of s] Let_def)
    next
      case (Some n)
      obtain out' p' where d: "decode_loop (drop (min n (length ?r)) ?r) = (out', p')" by fastforce
      have bad: "utf8_width (?r @ t) = 0" "max 1 (lossy_skip (?r @ t)) = n" "n \<le> length ?r"
        using bad_stays_bad [OF valid_up_to_rest Some, of t] by auto
      have "lossy (?r @ t) = REPLACEMENT @ lossy (drop n ?r @ t)"
        using lossy_bad [of "?r @ t"] bad nv valid_up_to_le [of s] by simp
      also have "\<dots> = REPLACEMENT @ out' @ lossy (p' @ t)"
        using "1.IH" [OF refl nv Some d] bad(3) by simp
      finally show ?thesis using "1.prems" whole nv Some d by (simp add: decode_loop.simps [of s] Let_def)
    qed
  qed
qed

lemma valid_utf8_lossy: "valid_utf8 (lossy s)"
proof (induction s rule: lossy.induct)
  case (2 a s)
  let ?n = "utf8_width (a # s)"
  show ?case
  proof (cases "?n > 0")
    case True
    have "valid_utf8 (take ?n (a # s))"
    proof -
      let ?u = "take ?n (a # s)"
      have "utf8_width (a # s) = utf8_width (?u @ drop ?n (a # s))" by simp
      have "utf8_width ?u = ?n"
        using True by (auto simp: utf8_width.simps(2) numeral_eq_Suc split: list.splits if_splits)
      moreover have "?u = a # take (?n - 1) s" using True by (cases ?n) auto
      ultimately show ?thesis using True
        by (metis valid_utf8.simps(1) valid_utf8.simps(2) append_Nil2 drop_all length_take min.cobounded2 less_irrefl)
    qed
    then show ?thesis
      using True "2.IH"(1) [OF refl True] valid_utf8_append by (simp add: lossy.simps(2) Let_def)
  next
    case False
    have "valid_utf8 REPLACEMENT" by code_simp
    then show ?thesis
      using False "2.IH"(2) [OF refl False] valid_utf8_append [of REPLACEMENT]
      by (simp add: lossy.simps(2) Let_def)
  qed
qed simp

text \<open>A stream in chunks: what each call of \<open>push\<close> gives, and the end.\<close>

fun decode_chunks :: "string \<Rightarrow> string list \<Rightarrow> string list" where
  "decode_chunks pending [] = [decoder_finish pending]"
| "decode_chunks pending (c # cs) = (case decoder_push c pending of (out, p) \<Rightarrow> out # decode_chunks p cs)"

lemma decode_chunks_lossy: "concat (decode_chunks p cs) = lossy (p @ concat cs)"
proof (induction cs arbitrary: p)
  case (Cons c cs)
  obtain out q where d: "decoder_push c p = (out, q)" by fastforce
  then have "lossy (p @ c @ concat cs) = out @ lossy (q @ concat cs)"
    using decode_loop_lossy [of "p @ c" out q "concat cs"] by (simp add: decoder_push_def)
  with d Cons show ?case by simp
qed (simp add: decoder_finish_def)

lemma take_valid_up_to: "valid_utf8 (take (valid_up_to s) s)"
proof -
  have "lossy (s @ []) = take (valid_up_to s) s @ lossy (drop (valid_up_to s) s @ [])"
    by (rule valid_up_to_append)
  show ?thesis
  proof (induction s rule: valid_up_to.induct)
    case (2 a s)
    let ?n = "utf8_width (a # s)"
    show ?case
    proof (cases "?n = 0")
      case False
      let ?v = "valid_up_to (drop ?n (a # s))"
      have one: "valid_utf8 (take ?n (a # s))"
      proof -
        have "valid_utf8 (lossy (take ?n (a # s)))" by (rule valid_utf8_lossy)
        moreover have w: "utf8_width (take ?n (a # s)) = ?n"
          using False by (auto simp: utf8_width.simps(2) numeral_eq_Suc split: list.splits if_splits)
        moreover have "length (take ?n (a # s)) = ?n" using utf8_width_length [of "a # s"] by simp
        ultimately show ?thesis using lossy_width [of "take ?n (a # s)"] False by simp
      qed
      have "valid_up_to (a # s) = ?n + ?v" using False by (simp add: valid_up_to.simps(2) Let_def del: drop_Cons')
      then have "take (valid_up_to (a # s)) (a # s) = take ?n (a # s) @ take ?v (drop ?n (a # s))"
        by (simp only: take_add)
      then show ?thesis using valid_utf8_append [OF one 2 [OF refl False]] by simp
    qed (simp add: valid_up_to.simps(2))
  qed simp
qed

lemma decode_loop_valid: "decode_loop s = (out, p) \<Longrightarrow> valid_utf8 out"
proof (induction s arbitrary: out p rule: decode_loop.induct)
  case (1 s)
  let ?v = "valid_up_to s"
  let ?r = "drop ?v s"
  note t = take_valid_up_to [of s]
  show ?case
  proof (cases "?v = length s")
    case True
    then show ?thesis using "1.prems" t by (simp add: decode_loop.simps [of s])
  next
    case nv: False
    show ?thesis
    proof (cases "utf8_error_len ?r")
      case None
      then show ?thesis using "1.prems" nv t by (simp add: decode_loop.simps [of s] Let_def)
    next
      case (Some n)
      obtain out' p' where d: "decode_loop (drop (min n (length ?r)) ?r) = (out', p')" by fastforce
      have "valid_utf8 REPLACEMENT" by code_simp
      then have "valid_utf8 (take ?v s @ REPLACEMENT @ out')"
        using "1.IH" [OF refl nv Some d] t valid_utf8_append by blast
      then show ?thesis using "1.prems" nv Some d by (simp add: decode_loop.simps [of s] Let_def)
    qed
  qed
qed

text \<open>C33: decoding a command's output chunk by chunk gives exactly what decoding all of it at once gives,
  wherever the chunks are cut: characters split over chunks are put together, each malformed sequence becomes
  one replacement character as in the lossy conversion, and every piece is valid UTF-8 by itself.\<close>

theorem decode_chunks_equivalent:
  "concat (decode_chunks [] chunks) = lossy (concat chunks)
    \<and> list_all valid_utf8 (decode_chunks [] chunks)"
proof
  show "concat (decode_chunks [] chunks) = lossy (concat chunks)" by (simp add: decode_chunks_lossy)
  have "list_all valid_utf8 (decode_chunks p chunks)" for p
    by (induction chunks arbitrary: p)
       (auto simp: decoder_finish_def valid_utf8_lossy decoder_push_def dest: decode_loop_valid split: prod.splits)
  then show "list_all valid_utf8 (decode_chunks [] chunks)" .
qed

section \<open>What the tail holds\<close>

definition bounded_is :: "nat \<Rightarrow> string \<Rightarrow> bounded_output \<Rightarrow> bool" where
  "bounded_is m d b \<longleftrightarrow> bo_max_bytes b = max m 1 \<and> bo_bytes b = drop (length d - max m 1) d
     \<and> (length d \<le> u64_max \<longrightarrow> bo_total_bytes b = length d)
     \<and> (length d \<le> u64_max \<longrightarrow> bo_truncated b = (length d > max m 1))
     \<and> bo_total_bytes b \<le> length d"

lemma bounded_new_is: "bounded_is m [] (bounded_new m)"
  by (simp add: bounded_is_def bounded_new_def)

lemma bounded_push_is:
  assumes "bounded_is m d b"
  shows "bounded_is m (d @ bytes) (bounded_push bytes b)"
proof -
  let ?M = "max m 1"
  have b: "bo_max_bytes b = ?M" "bo_bytes b = drop (length d - ?M) d" "bo_total_bytes b \<le> length d"
    "length d \<le> u64_max \<Longrightarrow> bo_total_bytes b = length d"
    "length d \<le> u64_max \<Longrightarrow> bo_truncated b = (length d > ?M)"
    using assms by (auto simp: bounded_is_def)
  have total: "length (d @ bytes) \<le> u64_max \<Longrightarrow> sat_add64 (bo_total_bytes b) (length bytes) = length (d @ bytes)"
    using b(4) by (simp add: sat_add64_exact)
  have le: "sat_add64 (bo_total_bytes b) (length bytes) \<le> length (d @ bytes)"
    using sat_add64_le_sum [of "bo_total_bytes b" "length bytes"] b(3) by simp
  show ?thesis
  proof (cases "length bytes \<ge> ?M")
    case True
    then have e: "length (d @ bytes) - ?M = length d + (length bytes - ?M)" by (simp only: length_append)
    have "drop (length (d @ bytes) - ?M) (d @ bytes) = drop (length bytes - ?M) bytes"
      unfolding e by (simp add: drop_append)
    then show ?thesis using True b total le by (auto simp: bounded_is_def bounded_push_def Let_def)
  next
    case False
    have keep: "drop (length (d @ bytes) - ?M) (d @ bytes)
        = drop (length (drop (length d - ?M) d @ bytes) - ?M) (drop (length d - ?M) d @ bytes)"
      using False by (cases "length d \<le> ?M") (auto simp: drop_append add.commute)
    show ?thesis
      using False b total le keep
      by (cases "length (drop (length d - ?M) d @ bytes) > ?M")
         (auto simp: bounded_is_def bounded_push_def Let_def)
  qed
qed

lemma bounded_parts:
  assumes "bounded_is m d b" "bounded_into_parts b = (text0, tot, truncated)" "length d \<le> u64_max"
  shows "valid_utf8 text0" "length text0 \<le> max m 1" "tot = length d"
    "\<not> truncated \<Longrightarrow> text0 = lossy d" "length d > max m 1 \<Longrightarrow> truncated"
proof -
  let ?t = "lossy (bo_bytes b)"
  have v: "valid_utf8 ?t" by (rule valid_utf8_lossy)
  have b: "bo_max_bytes b = max m 1" "bo_total_bytes b = length d" "bo_truncated b = (length d > max m 1)"
    "length d \<le> max m 1 \<Longrightarrow> bo_bytes b = d"
    using assms(1,3) by (auto simp: bounded_is_def)
  show "tot = length d" using assms(2) b by (auto simp: bounded_into_parts_def Let_def split: if_splits)
  show "\<not> truncated \<Longrightarrow> text0 = lossy d"
    using assms(2) b by (auto simp: bounded_into_parts_def Let_def split: if_splits)
  show "length d > max m 1 \<Longrightarrow> truncated"
    using assms(2) b by (auto simp: bounded_into_parts_def Let_def split: if_splits)
  obtain i where i: "length ?t - max m 1 \<le> i" "dropWhile is_cont (drop (length ?t - max m 1) ?t) = drop i ?t"
      "is_boundary ?t i"
    using dropWhile_cont_boundary [of "length ?t - max m 1" ?t] by auto
  have "text0 = ?t \<and> length ?t \<le> max m 1 \<or> text0 = drop i ?t"
    using assms(2) b(1) i(2) by (auto simp: bounded_into_parts_def Let_def split: if_splits)
  moreover have "length (drop i ?t) \<le> max m 1" using i(1) by simp
  ultimately show "valid_utf8 text0" "length text0 \<le> max m 1"
    using v valid_utf8_drop [OF v i(3)] by auto
qed

end
