(* ===== verification/Exec_Run.thy ===== *)
theory Exec_Run
  imports Exec_Output
begin

text \<open>
  Running a remote command (\<open>remote/ssh.rs\<close>): the loops over the messages of its channel, with a timeout, a
  cancellation and the batching tick, and the guard that terminates a command which is given up. What the
  channel delivers and when the timers fire is an argument; an event list that ends is a channel that closes.
\<close>

definition MAX_EXEC_OUTPUT_BYTES :: nat where "MAX_EXEC_OUTPUT_BYTES = 16 * 1024 * 1024"
definition MAX_API_EXEC_OUTPUT_BYTES :: nat where "MAX_API_EXEC_OUTPUT_BYTES = 1024 * 1024"

section \<open>The guard\<close>

text \<open>What happens to the remote command: its channel is closed after its end, or it is terminated, with the
  tracked process group when there is a token.\<close>

datatype guard_effect = ChannelClosed | ProcessKilled "string option"

record command_guard =
  cg_channel :: bool
  cg_cleanup :: "string option"
  cg_active :: bool

definition guard_new :: "string option \<Rightarrow> command_guard" where
  "guard_new cleanup = \<lparr>cg_channel = True, cg_cleanup = cleanup, cg_active = False\<rparr>"

definition mark_active :: "command_guard \<Rightarrow> command_guard" where
  "mark_active g = g\<lparr>cg_active := True\<rparr>"

definition guard_drop :: "command_guard \<Rightarrow> guard_effect list" where
  "guard_drop g = (if \<not> cg_active g \<or> \<not> cg_channel g then [] else [ProcessKilled (cg_cleanup g)])"

text \<open>\<open>finish\<close> and \<open>terminate\<close> consume the guard, which is dropped at their end.\<close>

definition guard_finish :: "command_guard \<Rightarrow> guard_effect list" where
  "guard_finish g =
     (let g1 = g\<lparr>cg_active := False, cg_cleanup := None\<rparr> in
      (if cg_channel g1 then [ChannelClosed] else []) @ guard_drop (g1\<lparr>cg_channel := False\<rparr>))"

definition guard_terminate :: "command_guard \<Rightarrow> guard_effect list" where
  "guard_terminate g =
     (let g1 = g\<lparr>cg_active := False\<rparr> in
      (if cg_channel g1 then [ProcessKilled (cg_cleanup g1)] else [])
      @ guard_drop (g1\<lparr>cg_channel := False, cg_cleanup := None\<rparr>))"

text \<open>The command line of a tracked command.\<close>

definition wrap_tracked_exec_command :: "string \<Rightarrow> string \<Rightarrow> string" where
  "wrap_tracked_exec_command token command =
     ''exec env HELM_EXEC_TOKEN='' @ shell_quote token @ '' \"${SHELL:-/bin/sh}\" -c '' @ shell_quote command"

section \<open>The result\<close>

record exec_output =
  eo_stdout :: string
  eo_stderr :: string
  eo_result :: exec_result

definition build_exec_result ::
  "bounded_output \<Rightarrow> bounded_output \<Rightarrow> 32 word option \<Rightarrow> nat \<Rightarrow> bool \<Rightarrow> exec_output" where
  "build_exec_result out err exit_status duration_ms timed_out =
     (case (bounded_into_parts out, bounded_into_parts err) of
        ((stdout, stdout_bytes, stdout_truncated), (stderr, stderr_bytes, stderr_truncated)) \<Rightarrow>
          \<lparr>eo_stdout = stdout, eo_stderr = stderr,
           eo_result = \<lparr>xr_stdout_bytes = stdout_bytes, xr_stderr_bytes = stderr_bytes,
             xr_output_truncated = stdout_truncated \<or> stderr_truncated, xr_exit_status = exit_status,
             xr_duration_ms = duration_ms, xr_execution_ms = duration_ms, xr_channel_open_ms = 0,
             xr_connection_ms = 0, xr_queue_ms = 0, xr_timed_out = timed_out\<rparr>\<rparr>)"

section \<open>Collecting the output\<close>

datatype channel_msg = MsgData string | MsgExtended string | MsgExitStatus "32 word" | MsgOther

datatype exec_event = Message channel_msg | TimeoutFires

record exec_state =
  xs_stdout :: bounded_output
  xs_stderr :: bounded_output
  xs_exit :: "32 word option"

fun exec_message :: "channel_msg \<Rightarrow> exec_state \<Rightarrow> exec_state" where
  "exec_message (MsgData d) s = s\<lparr>xs_stdout := bounded_push d (xs_stdout s)\<rparr>"
| "exec_message (MsgExtended d) s = s\<lparr>xs_stderr := bounded_push d (xs_stderr s)\<rparr>"
| "exec_message (MsgExitStatus code) s = s\<lparr>xs_exit := Some code\<rparr>"
| "exec_message MsgOther s = s"

fun exec_loop :: "exec_event list \<Rightarrow> exec_state \<Rightarrow> exec_state \<times> bool" where
  "exec_loop [] s = (s, False)"
| "exec_loop (TimeoutFires # es) s = (s, True)"
| "exec_loop (Message m # es) s = exec_loop es (exec_message m s)"

definition exec_start_state :: "nat \<Rightarrow> exec_state" where
  "exec_start_state max_bytes =
     \<lparr>xs_stdout = bounded_new max_bytes, xs_stderr = bounded_new max_bytes, xs_exit = None\<rparr>"

text \<open>\<open>started\<close> is the server's answer to the request; \<open>ms\<close> the time taken.\<close>

definition exec_with_channel_output_limit_inner ::
  "unit app_result \<Rightarrow> exec_event list \<Rightarrow> nat \<Rightarrow> nat \<Rightarrow> string option \<Rightarrow> guard_effect list \<times> exec_output app_result" where
  "exec_with_channel_output_limit_inner started events ms max_output_bytes cleanup =
     (let g = mark_active (guard_new cleanup) in
      case started of
        Inl e \<Rightarrow> (guard_terminate g, Inl e)
      | Inr _ \<Rightarrow>
          (case exec_loop events (exec_start_state max_output_bytes) of
             (s, timed_out) \<Rightarrow>
               if timed_out
               then (guard_terminate g,
                     Inr (build_exec_result (xs_stdout s)
                       (bounded_push_line ''command timed out'' (xs_stderr s)) (Some 124) ms True))
               else (guard_finish g, Inr (build_exec_result (xs_stdout s) (xs_stderr s) (xs_exit s) ms False))))"

definition exec_with_channel ::
  "unit app_result \<Rightarrow> exec_event list \<Rightarrow> nat \<Rightarrow> guard_effect list \<times> exec_output app_result" where
  "exec_with_channel started events ms =
     exec_with_channel_output_limit_inner started events ms MAX_EXEC_OUTPUT_BYTES None"

section \<open>Streaming the output\<close>

datatype stream_event = StreamMessage channel_msg | FlushTick | StreamTimeout | CancelFires

datatype stream_exit = StreamCompleted | StreamTimedOut | StreamCanceled

record stream_state = exec_state +
  ss_out_pending :: string
  ss_err_pending :: string
  ss_queue :: stream_queue

fun stream_message :: "channel_msg \<Rightarrow> stream_state \<Rightarrow> stream_state" where
  "stream_message (MsgData d) s =
     (case decoder_push d (ss_out_pending s) of
        (text0, p) \<Rightarrow> s\<lparr>xs_stdout := bounded_push d (xs_stdout s), ss_out_pending := p,
                       ss_queue := queue_nonempty Stdout text0 (ss_queue s)\<rparr>)"
| "stream_message (MsgExtended d) s =
     (case decoder_push d (ss_err_pending s) of
        (text0, p) \<Rightarrow> s\<lparr>xs_stderr := bounded_push d (xs_stderr s), ss_err_pending := p,
                       ss_queue := queue_nonempty Stderr text0 (ss_queue s)\<rparr>)"
| "stream_message (MsgExitStatus code) s = s\<lparr>xs_exit := Some code\<rparr>"
| "stream_message MsgOther s = s"

fun stream_loop :: "stream_event list \<Rightarrow> stream_state \<Rightarrow> stream_state \<times> stream_exit" where
  "stream_loop [] s = (s, StreamCompleted)"
| "stream_loop (StreamTimeout # es) s = (s, StreamTimedOut)"
| "stream_loop (CancelFires # es) s = (s, StreamCanceled)"
| "stream_loop (FlushTick # es) s = stream_loop es (s\<lparr>ss_queue := flush_stream_output (ss_queue s)\<rparr>)"
| "stream_loop (StreamMessage m # es) s = stream_loop es (stream_message m s)"

definition stream_start_state :: "nat \<Rightarrow> stream_state" where
  "stream_start_state max_bytes =
     \<lparr>xs_stdout = bounded_new max_bytes, xs_stderr = bounded_new max_bytes, xs_exit = None,
      ss_out_pending = [], ss_err_pending = [], ss_queue = ([], None)\<rparr>"

definition stream_tails :: "stream_state \<Rightarrow> stream_queue" where
  "stream_tails s =
     queue_nonempty Stderr (decoder_finish (ss_err_pending s))
       (queue_nonempty Stdout (decoder_finish (ss_out_pending s)) (ss_queue s))"

definition TIMEOUT_TEXT :: string where "TIMEOUT_TEXT = ''command timed out''"

text \<open>The chunks sent, what becomes of the command, and the result.\<close>

definition exec_stream_with_channel_inner ::
  "unit app_result \<Rightarrow> stream_event list \<Rightarrow> nat \<Rightarrow> nat \<Rightarrow> string option
   \<Rightarrow> stream_chunk list \<times> guard_effect list \<times> exec_output app_result" where
  "exec_stream_with_channel_inner started events ms max_output_bytes cleanup =
     (let g = mark_active (guard_new cleanup) in
      case started of
        Inl e \<Rightarrow> ([], guard_terminate g, Inl e)
      | Inr _ \<Rightarrow>
          (case stream_loop events (stream_start_state max_output_bytes) of
             (s, stream_exit) \<Rightarrow>
               (let q = stream_tails s in
                case stream_exit of
                  StreamCompleted \<Rightarrow>
                    (fst (flush_stream_output q), guard_finish g,
                     Inr (build_exec_result (xs_stdout s) (xs_stderr s) (xs_exit s) ms False))
                | StreamTimedOut \<Rightarrow>
                    (fst (flush_stream_output (queue_stream_output (Stderr TIMEOUT_TEXT) q)), guard_terminate g,
                     Inr (build_exec_result (xs_stdout s) (bounded_push_line TIMEOUT_TEXT (xs_stderr s)) (Some 124) ms True))
                | StreamCanceled \<Rightarrow> (fst q, guard_terminate g, Inl (Remote ''command canceled'')))))"

section \<open>What is delivered\<close>

definition chunk_texts :: "bool \<Rightarrow> stream_chunk list \<Rightarrow> string" where
  "chunk_texts out cs = concat (map (\<lambda>c. case c of Stdout t \<Rightarrow> if out then t else [] | Stderr t \<Rightarrow> if out then [] else t) cs)"

definition queue_texts :: "bool \<Rightarrow> stream_queue \<Rightarrow> string" where
  "queue_texts out q = chunk_texts out (fst q) @ (case snd q of None \<Rightarrow> [] | Some c \<Rightarrow> chunk_texts out [c])"

fun queue_valid :: "stream_queue \<Rightarrow> bool" where
  "queue_valid (sent, pending) \<longleftrightarrow> list_all (\<lambda>c. valid_utf8 (chunk_text c)) (sent @ (case pending of None \<Rightarrow> [] | Some c \<Rightarrow> [c]))"

lemma chunk_texts_simps [simp]:
  "chunk_texts b [] = []"
  "chunk_texts b (xs @ ys) = chunk_texts b xs @ chunk_texts b ys"
  "chunk_texts b (Stdout t # xs) = (if b then t else []) @ chunk_texts b xs"
  "chunk_texts b (Stderr t # xs) = (if b then [] else t) @ chunk_texts b xs"
  by (simp_all add: chunk_texts_def)

lemma flush_texts [simp]: "queue_texts b (flush_stream_output q) = queue_texts b q"
  by (cases q; cases "snd q") (simp_all add: flush_stream_output_def queue_texts_def)

lemma flush_sent: "fst (flush_stream_output q) = fst q @ (case snd q of None \<Rightarrow> [] | Some c \<Rightarrow> [c])"
  by (cases q; cases "snd q") (simp_all add: flush_stream_output_def)

lemma flush_sent_texts [simp]: "chunk_texts b (fst (flush_stream_output q)) = queue_texts b q"
  by (cases "snd q") (simp_all add: flush_sent queue_texts_def)

lemma queue_texts_push [simp]:
  "queue_texts b (queue_stream_output c q) = queue_texts b q @ chunk_texts b [c]"
proof -
  obtain sent p where q: "q = (sent, p)" by fastforce
  show ?thesis
    by (cases p; cases "the p"; cases c) (auto simp: q queue_stream_output_def queue_texts_def flush_stream_output_def Let_def)
qed

lemma queue_nonempty_texts [simp]:
  "queue_texts b (queue_nonempty Stdout t q) = queue_texts b q @ (if b then t else [])"
  "queue_texts b (queue_nonempty Stderr t q) = queue_texts b q @ (if b then [] else t)"
  by (simp_all add: queue_nonempty_def)

lemma flush_valid: "queue_valid q \<Longrightarrow> queue_valid (flush_stream_output q)"
  by (cases q; cases "snd q") (auto simp: flush_stream_output_def)

lemma queue_push_valid:
  assumes "queue_valid q" "valid_utf8 (chunk_text c)"
  shows "queue_valid (queue_stream_output c q)"
proof -
  obtain sent p where q: "q = (sent, p)" by fastforce
  show ?thesis
    using assms
    by (cases p; cases "the p"; cases c)
       (auto simp: q queue_stream_output_def flush_stream_output_def Let_def intro: valid_utf8_append)
qed

text \<open>The bytes of a stream before the loop ends.\<close>

fun received_bytes :: "bool \<Rightarrow> stream_event list \<Rightarrow> string" where
  "received_bytes out [] = []"
| "received_bytes out (StreamTimeout # es) = []"
| "received_bytes out (CancelFires # es) = []"
| "received_bytes out (StreamMessage (MsgData d) # es) = (if out then d else []) @ received_bytes out es"
| "received_bytes out (StreamMessage (MsgExtended d) # es) = (if out then [] else d) @ received_bytes out es"
| "received_bytes out (_ # es) = received_bytes out es"

definition stream_inv :: "nat \<Rightarrow> string \<Rightarrow> string \<Rightarrow> stream_state \<Rightarrow> bool" where
  "stream_inv m dout derr s \<longleftrightarrow>
     bounded_is m dout (xs_stdout s) \<and> bounded_is m derr (xs_stderr s) \<and> queue_valid (ss_queue s)
     \<and> (\<forall>t. lossy (dout @ t) = queue_texts True (ss_queue s) @ lossy (ss_out_pending s @ t))
     \<and> (\<forall>t. lossy (derr @ t) = queue_texts False (ss_queue s) @ lossy (ss_err_pending s @ t))"

lemma queue_nonempty_valid:
  "queue_valid q \<Longrightarrow> valid_utf8 t \<Longrightarrow> queue_valid (queue_nonempty Stdout t q)"
  "queue_valid q \<Longrightarrow> valid_utf8 t \<Longrightarrow> queue_valid (queue_nonempty Stderr t q)"
  by (simp_all add: queue_nonempty_def queue_push_valid)

lemma stream_message_inv:
  assumes "stream_inv m dout derr s"
  shows "stream_inv m (dout @ received_bytes True [StreamMessage msg])
      (derr @ received_bytes False [StreamMessage msg]) (stream_message msg s)"
proof (cases msg)
  case (MsgData d)
  obtain x p where dp: "decoder_push d (ss_out_pending s) = (x, p)" by fastforce
  then have l: "decode_loop (ss_out_pending s @ d) = (x, p)" by (simp add: decoder_push_def)
  have "lossy ((dout @ d) @ t) = (queue_texts True (ss_queue s) @ x) @ lossy (p @ t)" for t
  proof -
    have "lossy (dout @ d @ t) = queue_texts True (ss_queue s) @ lossy (ss_out_pending s @ d @ t)"
      using assms by (simp only: stream_inv_def)
    with decode_loop_lossy [OF l, of t] show ?thesis by simp
  qed
  then show ?thesis
    using assms MsgData dp decode_loop_valid [OF l] queue_nonempty_valid bounded_push_is
    by (simp add: stream_inv_def)
next
  case (MsgExtended d)
  obtain x p where dp: "decoder_push d (ss_err_pending s) = (x, p)" by fastforce
  then have l: "decode_loop (ss_err_pending s @ d) = (x, p)" by (simp add: decoder_push_def)
  have "lossy ((derr @ d) @ t) = (queue_texts False (ss_queue s) @ x) @ lossy (p @ t)" for t
  proof -
    have "lossy (derr @ d @ t) = queue_texts False (ss_queue s) @ lossy (ss_err_pending s @ d @ t)"
      using assms by (simp only: stream_inv_def)
    with decode_loop_lossy [OF l, of t] show ?thesis by simp
  qed
  then show ?thesis
    using assms MsgExtended dp decode_loop_valid [OF l] queue_nonempty_valid bounded_push_is
    by (simp add: stream_inv_def)
qed (use assms in \<open>simp_all add: stream_inv_def\<close>)

lemma received_Cons:
  "received_bytes b (StreamMessage msg # es) = received_bytes b [StreamMessage msg] @ received_bytes b es"
  by (cases msg) simp_all

lemma stream_loop_inv:
  "stream_loop evs s = (s', x) \<Longrightarrow> stream_inv m dout derr s \<Longrightarrow>
    stream_inv m (dout @ received_bytes True evs) (derr @ received_bytes False evs) s'"
proof (induction evs s arbitrary: dout derr rule: stream_loop.induct)
  case (4 es s)
  then have "stream_inv m dout derr (s\<lparr>ss_queue := flush_stream_output (ss_queue s)\<rparr>)"
    by (simp add: stream_inv_def flush_valid)
  with 4 show ?case by simp
next
  case (5 msg es s)
  from 5(1) [OF _ stream_message_inv [OF 5(3)]] 5(2) show ?case
    by (simp add: received_Cons [of _ msg es])
qed simp_all

lemma stream_start_inv: "stream_inv m [] [] (stream_start_state m)"
  by (simp add: stream_inv_def stream_start_state_def bounded_new_is queue_texts_def)

lemma stream_tails_inv:
  assumes "stream_inv m dout derr s"
  shows "queue_texts True (stream_tails s) = lossy dout" "queue_texts False (stream_tails s) = lossy derr"
    "queue_valid (stream_tails s)"
proof -
  have "lossy (dout @ []) = queue_texts True (ss_queue s) @ lossy (ss_out_pending s @ [])"
    "lossy (derr @ []) = queue_texts False (ss_queue s) @ lossy (ss_err_pending s @ [])"
    using assms unfolding stream_inv_def by blast+
  then show "queue_texts True (stream_tails s) = lossy dout" "queue_texts False (stream_tails s) = lossy derr"
    by (simp_all add: stream_tails_def decoder_finish_def)
  show "queue_valid (stream_tails s)"
    using assms by (simp add: stream_inv_def stream_tails_def decoder_finish_def queue_nonempty_valid valid_utf8_lossy)
qed

lemma guard_effects:
  "guard_finish (mark_active (guard_new c)) = [ChannelClosed]"
  "guard_terminate (mark_active (guard_new c)) = [ProcessKilled c]"
  "guard_drop (mark_active (guard_new c)) = [ProcessKilled c]"
  by (simp_all add: guard_finish_def guard_terminate_def guard_drop_def mark_active_def guard_new_def Let_def)

lemma sent_valid: "queue_valid q \<Longrightarrow> \<forall>c\<in>set (fst (flush_stream_output q)). valid_utf8 (chunk_text c)"
  by (cases q; cases "snd q") (auto simp: flush_stream_output_def list_all_iff)

text \<open>How the loop ends.\<close>

fun stream_end :: "stream_event list \<Rightarrow> stream_exit" where
  "stream_end [] = StreamCompleted"
| "stream_end (StreamTimeout # es) = StreamTimedOut"
| "stream_end (CancelFires # es) = StreamCanceled"
| "stream_end (_ # es) = stream_end es"

lemma stream_loop_end: "snd (stream_loop evs s) = stream_end evs"
  by (induction evs s rule: stream_loop.induct) simp_all



text \<open>Without streaming the same bytes give the same result.\<close>

fun as_stream :: "exec_event \<Rightarrow> stream_event" where
  "as_stream (Message m) = StreamMessage m"
| "as_stream TimeoutFires = StreamTimeout"

lemma stream_message_state: "exec_state.truncate (stream_message m s) = exec_message m (exec_state.truncate s)"
  by (cases m) (simp_all add: exec_state.truncate_def split: prod.splits)

lemma stream_loop_state:
  "exec_state.truncate (fst (stream_loop (map as_stream evs) s)) = fst (exec_loop evs (exec_state.truncate s))
   \<and> (snd (stream_loop (map as_stream evs) s) = StreamTimedOut \<longleftrightarrow> snd (exec_loop evs (exec_state.truncate s)))
   \<and> snd (stream_loop (map as_stream evs) s) \<noteq> StreamCanceled"
proof (induction evs arbitrary: s)
  case (Cons e es)
  then show ?case
    by (cases e) (simp_all add: stream_message_state)
qed simp

theorem exec_stream_agrees_with_exec:
  "snd (snd (exec_stream_with_channel_inner started (map as_stream events) ms max_bytes token))
     = snd (exec_with_channel_output_limit_inner started events ms max_bytes token)"
proof -
  obtain s x where l: "stream_loop (map as_stream events) (stream_start_state max_bytes) = (s, x)" by fastforce
  obtain s' x' where l': "exec_loop events (exec_start_state max_bytes) = (s', x')" by fastforce
  have st: "exec_state.truncate (stream_start_state max_bytes) = exec_start_state max_bytes"
    by (simp add: exec_state.truncate_def stream_start_state_def exec_start_state_def)
  have "s' = exec_state.truncate s" "(x = StreamTimedOut) = x'" "x \<noteq> StreamCanceled"
    using stream_loop_state [of events "stream_start_state max_bytes"] l l' st by auto
  then show ?thesis
    using l l' by (cases started; cases x)
      (auto simp: exec_stream_with_channel_inner_def exec_with_channel_output_limit_inner_def exec_state.truncate_def
        TIMEOUT_TEXT_def Let_def)
qed

end
