(* ===== verification/Ssh_Connect.thy ===== *)
theory Ssh_Connect
  imports Proxy Vault
begin

text \<open>
  Opening an SSH connection (\<open>remote/runtime\_connection.rs\<close>, the handler in \<open>remote.rs\<close>, the authentication in
  \<open>remote/ssh.rs\<close>, the bundle of a session in \<open>commands/mod.rs\<close>). The SSH library, the sockets, the clock and
  the files of private keys are fields of an environment: what the library does with the handler's decision is
  a hypothesis of the theorems.
\<close>

section \<open>Errors of the transport and their texts\<close>

datatype io_kind = ConnectionReset | ConnectionAborted | BrokenPipe | UnexpectedEof | TimedOutIo | OtherIoKind

datatype russh_error =
    HUP | KeepaliveTimeout | ConnectionTimeout | DisconnectError | IOError io_kind string | OtherRussh string

datatype disconnect_code =
    HostNotAllowedToConnect | ProtocolError | KeyExchangeFailed | ReservedCode | MACError | CompressionError
  | ServiceNotAvailable | ProtocolVersionNotSupported | HostKeyNotVerifiable | ConnectionLost | ByApplication
  | TooManyConnections | AuthCancelledByUser | NoMoreAuthMethodsAvailable | IllegalUserName

datatype disconnect_reason = ReceivedDisconnect disconnect_code string | DisconnectedBy russh_error

fun disconnect_code_and_label :: "disconnect_code \<Rightarrow> nat \<times> string" where
  "disconnect_code_and_label HostNotAllowedToConnect = (1, ''host not allowed to connect'')"
| "disconnect_code_and_label ProtocolError = (2, ''SSH protocol error'')"
| "disconnect_code_and_label KeyExchangeFailed = (3, ''key exchange failed'')"
| "disconnect_code_and_label ReservedCode = (4, ''reserved'')"
| "disconnect_code_and_label MACError = (5, ''integrity check failed'')"
| "disconnect_code_and_label CompressionError = (6, ''compression error'')"
| "disconnect_code_and_label ServiceNotAvailable = (7, ''SSH service not available'')"
| "disconnect_code_and_label ProtocolVersionNotSupported = (8, ''SSH version not supported'')"
| "disconnect_code_and_label HostKeyNotVerifiable = (9, ''host key not verifiable'')"
| "disconnect_code_and_label ConnectionLost = (10, ''connection lost'')"
| "disconnect_code_and_label ByApplication = (11, ''disconnected by application'')"
| "disconnect_code_and_label TooManyConnections = (12, ''too many connections'')"
| "disconnect_code_and_label AuthCancelledByUser = (13, ''authentication cancelled'')"
| "disconnect_code_and_label NoMoreAuthMethodsAvailable = (14, ''no authentication method left'')"
| "disconnect_code_and_label IllegalUserName = (15, ''illegal user name'')"

fun format_ssh_transport_error :: "russh_error \<Rightarrow> string" where
  "format_ssh_transport_error HUP = ''closed by the remote side without a disconnect message''"
| "format_ssh_transport_error KeepaliveTimeout = ''keepalive timed out''"
| "format_ssh_transport_error ConnectionTimeout = ''network connection timed out''"
| "format_ssh_transport_error DisconnectError = ''disconnected without a reason''"
| "format_ssh_transport_error (IOError k e) =
     (case k of
        ConnectionReset \<Rightarrow> ''TCP connection reset''
      | ConnectionAborted \<Rightarrow> ''TCP connection aborted''
      | BrokenPipe \<Rightarrow> ''network connection closed (broken pipe)''
      | UnexpectedEof \<Rightarrow> ''network connection ended early''
      | TimedOutIo \<Rightarrow> ''network timed out''
      | OtherIoKind \<Rightarrow> ''network error: '' @ e)"
| "format_ssh_transport_error (OtherRussh e) = ''SSH protocol error: '' @ e"

fun format_disconnect_reason :: "disconnect_reason \<Rightarrow> string" where
  "format_disconnect_reason (ReceivedDisconnect code msg) =
     (case disconnect_code_and_label code of
        (n, label) \<Rightarrow>
          (let message = trim msg in
           if message = [] then ''closed by the remote side ('' @ label @ '', '' @ dec_string n @ ''; no details)''
           else ''closed by the remote side ('' @ label @ '', '' @ dec_string n @ ''): '' @ message))"
| "format_disconnect_reason (DisconnectedBy e) = format_ssh_transport_error e"

datatype channel_open_failure =
    AdministrativelyProhibited | ConnectFailed | UnknownChannelType | ResourceShortage | UnknownFailure

fun failure_text :: "channel_open_failure \<Rightarrow> string \<times> string" where
  "failure_text AdministrativelyProhibited = (''forbidden by the server'', ''AdministrativelyProhibited'')"
| "failure_text ConnectFailed = (''opening failed on the server'', ''ConnectFailed'')"
| "failure_text UnknownChannelType = (''channel type unknown'', ''UnknownChannelType'')"
| "failure_text ResourceShortage = (''too many channels'', ''ResourceShortage'')"
| "failure_text UnknownFailure = (''refused'', ''Unknown'')"

definition format_channel_open_failure :: "channel_open_failure \<Rightarrow> string \<Rightarrow> string" where
  "format_channel_open_failure reason description =
     (case failure_text reason of
        (label, name) \<Rightarrow>
          (let d = trim description in
           if d = [] then label @ ''('' @ name @ '')'' else label @ ''('' @ name @ ''): '' @ d))"

fun is_transient_connect_error :: "russh_error \<Rightarrow> bool" where
  "is_transient_connect_error HUP = True"
| "is_transient_connect_error DisconnectError = True"
| "is_transient_connect_error ConnectionTimeout = True"
| "is_transient_connect_error KeepaliveTimeout = True"
| "is_transient_connect_error (IOError k e) = (k \<noteq> OtherIoKind)"
| "is_transient_connect_error (OtherRussh e) = False"

section \<open>The handler\<close>

record client_diagnostics =
  cd_disconnect_reason :: "string option"
  cd_channel_open_failure :: "string option"

record remote_client =
  rc_verification :: host_key_verification
  rc_trusted :: "known_host_entry option"
  rc_observed :: "host_key_verification option"
  rc_diagnostics :: client_diagnostics

definition no_diagnostics :: client_diagnostics where
  "no_diagnostics = \<lparr>cd_disconnect_reason = None, cd_channel_open_failure = None\<rparr>"

definition check_server_key :: "string \<times> string \<Rightarrow> remote_client \<Rightarrow> remote_client \<times> bool" where
  "check_server_key key c =
     (case key of
        (algorithm, fingerprint) \<Rightarrow>
          (let observed = (rc_verification c)\<lparr>hkv_algorithm := algorithm, hkv_fingerprint := fingerprint,
                             hkv_expected_fingerprint := map_option kh_fingerprint (rc_trusted c)\<rparr>
           in (c\<lparr>rc_observed := Some observed\<rparr>,
               (case rc_trusted c of None \<Rightarrow> False | Some entry \<Rightarrow> kh_fingerprint entry = fingerprint))))"

definition handle_channel_open_failure :: "channel_open_failure \<Rightarrow> string \<Rightarrow> remote_client \<Rightarrow> remote_client" where
  "handle_channel_open_failure reason description c =
     c\<lparr>rc_diagnostics := (rc_diagnostics c)\<lparr>cd_channel_open_failure := Some (format_channel_open_failure reason description)\<rparr>\<rparr>"

definition handle_disconnected :: "disconnect_reason \<Rightarrow> remote_client \<Rightarrow> remote_client" where
  "handle_disconnected reason c =
     c\<lparr>rc_diagnostics := (rc_diagnostics c)\<lparr>cd_disconnect_reason := Some (format_disconnect_reason reason)\<rparr>\<rparr>"

definition clear_channel_open_failure :: "client_diagnostics \<Rightarrow> client_diagnostics" where
  "clear_channel_open_failure d = d\<lparr>cd_channel_open_failure := None\<rparr>"

definition take_channel_open_failure :: "client_diagnostics \<Rightarrow> client_diagnostics \<times> string option" where
  "take_channel_open_failure d = (d\<lparr>cd_channel_open_failure := None\<rparr>, cd_channel_open_failure d)"

definition map_connect_error :: "russh_error \<Rightarrow> remote_client \<Rightarrow> app_error" where
  "map_connect_error e c =
     (let detail = (case cd_disconnect_reason (rc_diagnostics c) of
                      Some r \<Rightarrow> r | None \<Rightarrow> format_ssh_transport_error e);
          handshake = Remote (''SSH handshake failed: '' @ detail)
      in case rc_observed c of
           None \<Rightarrow> handshake
         | Some v \<Rightarrow>
             (case hkv_expected_fingerprint v of
                Some expected \<Rightarrow> if expected \<noteq> hkv_fingerprint v then HostKeyChanged v else handshake
              | None \<Rightarrow> HostKeyUntrusted v))"

section \<open>The environment\<close>

datatype hash_alg = Sha256 | Sha512

datatype 'k credential = PasswordCred string string | KeyCred string 'k "hash_alg option"

datatype 'k prepared_authentication = PreparedPassword string | PreparedKey 'k

record ('k, 'h) ssh_env =
  se_connector :: "nat \<Rightarrow> connector"
  se_proxy_timeout :: "nat \<Rightarrow> bool"
  se_nodelay :: "nat \<Rightarrow> string option"
  se_stream :: "nat \<Rightarrow> wire \<Rightarrow> (string \<times> string \<Rightarrow> bool)
    \<Rightarrow> ((string \<times> string) option \<times> disconnect_reason option) \<times> (russh_error + 'h)"
  se_connect_timeout :: bool
  se_load_key :: "auth_config \<Rightarrow> 'k app_result"
  se_key_timeout :: bool
  se_is_rsa :: "'k \<Rightarrow> bool"
  se_rsa_probe :: "'h \<Rightarrow> hash_alg option option"
  se_error_text :: "russh_error \<Rightarrow> string"
  se_auth :: "'h \<Rightarrow> 'k credential \<Rightarrow> russh_error + bool"
  se_auth_timeout :: "nat option"
  se_auth_disconnect :: "string option"

section \<open>Authentication\<close>

text \<open>\<open>prepare\_authentication\<close>: the key is loaded in a task of its own, whose result is taken later.\<close>

definition prepare_authentication :: "('k, 'h) ssh_env \<Rightarrow> auth_config \<Rightarrow> 'k prepared_authentication app_result app_result" where
  "prepare_authentication env auth =
     (case au_method auth of
        Password \<Rightarrow>
          and_then (ok_or (au_password auth) (InvalidInput ''password missing'')) (\<lambda>p. Inr (Inr (PreparedPassword p)))
      | PrivateKey \<Rightarrow>
          if au_imported_private_key auth = None \<and> au_private_key_path auth = None
          then Inl (InvalidInput ''private key path missing'')
          else Inr (and_then (se_load_key env auth) (\<lambda>k. Inr (PreparedKey k))))"

text \<open>What is sent to the server, and the outcome.\<close>

type_synonym ('k, 'h) sent = "('h \<times> 'k credential) list"

definition candidates :: "hash_alg option option \<Rightarrow> hash_alg option list" where
  "candidates advertised =
     (case advertised of Some hash \<Rightarrow> [hash] | None \<Rightarrow> [Some Sha512, Some Sha256, None])"

fun try_rsa_candidates ::
  "('k, 'h) ssh_env \<Rightarrow> 'h \<Rightarrow> string \<Rightarrow> 'k \<Rightarrow> hash_alg option list \<Rightarrow> ('k, 'h) sent \<times> bool app_result" where
  "try_rsa_candidates env h user key [] = ([], Inr False)"
| "try_rsa_candidates env h user key (hash # hs) =
     (let cred = KeyCred user key hash in
      case se_auth env h cred of
        Inl e \<Rightarrow> ([(h, cred)], Inl (Remote (se_error_text env e)))
      | Inr True \<Rightarrow> ([(h, cred)], Inr True)
      | Inr False \<Rightarrow>
          (case try_rsa_candidates env h user key hs of (sent, r) \<Rightarrow> ((h, cred) # sent, r)))"

definition authenticate_rsa_key :: "('k, 'h) ssh_env \<Rightarrow> 'h \<Rightarrow> string \<Rightarrow> 'k \<Rightarrow> ('k, 'h) sent \<times> bool app_result" where
  "authenticate_rsa_key env h user key = try_rsa_candidates env h user key (candidates (se_rsa_probe env h))"

definition try_once :: "('k, 'h) ssh_env \<Rightarrow> 'h \<Rightarrow> 'k credential \<Rightarrow> ('k, 'h) sent \<times> bool app_result" where
  "try_once env h cred =
     ([(h, cred)],
      (case se_auth env h cred of Inl e \<Rightarrow> Inl (Remote (se_error_text env e)) | Inr b \<Rightarrow> Inr b))"

definition authenticate ::
  "('k, 'h) ssh_env \<Rightarrow> 'h \<Rightarrow> string \<Rightarrow> 'k prepared_authentication \<Rightarrow> ('k, 'h) sent \<times> unit app_result" where
  "authenticate env h user authentication =
     (case (case authentication of
              PreparedPassword p \<Rightarrow> try_once env h (PasswordCred user p)
            | PreparedKey key \<Rightarrow>
                if \<not> se_is_rsa env key then try_once env h (KeyCred user key None)
                else authenticate_rsa_key env h user key) of
        (sent, Inl e) \<Rightarrow> (sent, Inl e)
      | (sent, Inr ok) \<Rightarrow> (sent, if ok then Inr () else Inl (Remote ''SSH authentication failed'')))"

section \<open>Establishing a connection\<close>

definition verification_for :: "session_config \<Rightarrow> known_host_entry option \<Rightarrow> host_key_verification" where
  "verification_for s trusted =
     \<lparr>hkv_session_id = sc_id s, hkv_host = sc_host s, hkv_port = sc_port s, hkv_algorithm = [], hkv_fingerprint = [],
      hkv_expected_fingerprint =
        (case map_option kh_fingerprint trusted of Some fp \<Rightarrow> Some fp | None \<Rightarrow> so_host_key_fingerprint (sc_ssh s))\<rparr>"

definition trusted_for :: "session_config \<Rightarrow> known_host_entry option \<Rightarrow> known_host_entry option" where
  "trusted_for s trusted =
     (case trusted of
        Some entry \<Rightarrow> Some entry
      | None \<Rightarrow> map_option (\<lambda>fp. \<lparr>kh_host = sc_host s, kh_port = sc_port s, kh_algorithm = [], kh_fingerprint = fp,
                              kh_trusted_at = []\<rparr>) (so_host_key_fingerprint (sc_ssh s)))"

definition client_for :: "session_config \<Rightarrow> known_host_entry option \<Rightarrow> remote_client" where
  "client_for s trusted =
     \<lparr>rc_verification = verification_for s trusted, rc_trusted = trusted_for s trusted, rc_observed = None,
      rc_diagnostics = no_diagnostics\<rparr>"

datatype 'h attempt = AttemptConnected 'h | AttemptRetry | AttemptFailed app_error

text \<open>One turn of the loop; the handler is called by the library while the stream connects.\<close>

definition connect_attempt ::
  "('k, 'h) ssh_env \<Rightarrow> session_config \<Rightarrow> nat \<Rightarrow> remote_client \<Rightarrow> remote_client \<times> 'h attempt" where
  "connect_attempt env s n client =
     (let c0 = client\<lparr>rc_observed := None, rc_diagnostics := no_diagnostics\<rparr> in
      case connect_tcp_for_ssh (se_connector env n) (se_proxy_timeout env n) (sc_host s) (sc_port s)
             (so_proxy (sc_ssh s)) of
        Inl e \<Rightarrow> (c0, AttemptFailed e)
      | Inr socket \<Rightarrow>
          (case se_nodelay env n of
             Some e \<Rightarrow> (c0, AttemptFailed (Remote (''TCP_NODELAY failed: '' @ e)))
           | None \<Rightarrow>
               (case se_stream env n socket (\<lambda>key. snd (check_server_key key c0)) of
                  ((presented, disconnect), r) \<Rightarrow>
                    (let c1 = (case presented of None \<Rightarrow> c0 | Some key \<Rightarrow> fst (check_server_key key c0));
                         c2 = (case disconnect of None \<Rightarrow> c1 | Some reason \<Rightarrow> handle_disconnected reason c1)
                     in case r of
                          Inr h \<Rightarrow> (c2, AttemptConnected h)
                        | Inl e \<Rightarrow>
                            if n = 1 \<and> is_transient_connect_error e then (c2, AttemptRetry)
                            else (c2, AttemptFailed (map_connect_error e c2))))))"

definition connect_attempts ::
  "('k, 'h) ssh_env \<Rightarrow> session_config \<Rightarrow> remote_client \<Rightarrow> remote_client \<times> 'h attempt" where
  "connect_attempts env s client =
     (case connect_attempt env s 1 client of
        (c, AttemptRetry) \<Rightarrow> connect_attempt env s 2 c
      | other \<Rightarrow> other)"

definition connect_timeout_text :: "session_config \<Rightarrow> string" where
  "connect_timeout_text s = dec_string (max (so_connect_timeout_ms (sc_ssh s)) 1000)"

text \<open>From the preparation to the authenticated handle. A timeout of the authentication may come after any
  number of credentials have been sent.\<close>

definition establish ::
  "('k, 'h) ssh_env \<Rightarrow> session_config \<Rightarrow> known_host_entry option \<Rightarrow> ('k, 'h) sent \<times> 'h app_result" where
  "establish env s trusted =
     (case prepare_authentication env (sc_auth s) of
        Inl e \<Rightarrow> ([], Inl e)
      | Inr preparation \<Rightarrow>
          if se_connect_timeout env then ([], Inl (Remote (''SSH connection timed out after '' @ connect_timeout_text s)))
          else
            (case connect_attempts env s (client_for s trusted) of
               (c, AttemptRetry) \<Rightarrow> ([], Inl (Remote ''unreachable''))
             | (c, AttemptFailed e) \<Rightarrow> ([], Inl e)
             | (c, AttemptConnected h) \<Rightarrow>
                 if se_key_timeout env
                 then ([], Inl (Remote (''authentication material timed out after '' @ connect_timeout_text s)))
                 else
                   (case preparation of
                      Inl e \<Rightarrow> ([], Inl e)
                    | Inr prepared \<Rightarrow>
                        (case authenticate env h (sc_username s) prepared of
                           (sent, r) \<Rightarrow>
                             (let (sent', r') = (case se_auth_timeout env of
                                    None \<Rightarrow> (sent, r)
                                  | Some k \<Rightarrow> (take k sent, Inl (Remote (''SSH authentication timed out after '' @ connect_timeout_text s))))
                              in case r' of
                                   Inr _ \<Rightarrow> (sent', Inr h)
                                 | Inl e \<Rightarrow>
                                     (sent', Inl (case (case se_auth_disconnect env of
                                                          Some reason \<Rightarrow> Some reason
                                                        | None \<Rightarrow> cd_disconnect_reason (rc_diagnostics c)) of
                                                    Some reason \<Rightarrow> Remote (''SSH authentication failed: '' @ reason)
                                                  | None \<Rightarrow> e)))))))"

section \<open>The bundle of a session\<close>

definition apply_global_proxy :: "app_settings \<Rightarrow> session_config \<Rightarrow> session_config" where
  "apply_global_proxy settings s =
     (case so_proxy (sc_ssh s) of
        Some proxy \<Rightarrow>
          if sp_kind proxy = ''direct'' then s\<lparr>sc_ssh := (sc_ssh s)\<lparr>so_proxy := None\<rparr>\<rparr> else s
      | None \<Rightarrow>
          (case as_proxy settings of
             None \<Rightarrow> s
           | Some proxy \<Rightarrow>
               if \<not> ap_enabled proxy then s
               else s\<lparr>sc_ssh := (sc_ssh s)\<lparr>so_proxy := Some \<lparr>sp_kind = ap_kind proxy, sp_host = ap_host proxy,
                                                         sp_port = ap_port proxy\<rparr>\<rparr>\<rparr>))"

definition build_session_for_connect ::
  "vault_store \<Rightarrow> string \<Rightarrow> (session_config \<times> known_host_entry option) app_result" where
  "build_session_for_connect st session_id =
     and_then (vault_session session_id st) (\<lambda>s.
     and_then (vault_known_host (sc_host s) (sc_port s) st) (\<lambda>known_host.
     and_then (vault_unlocked st) (\<lambda>u.
       Inr (apply_global_proxy (vd_settings (uv_data u)) s, known_host))))"

definition session_matches_current_connection_config :: "vault_store \<Rightarrow> session_config \<Rightarrow> bool app_result" where
  "session_matches_current_connection_config st expected =
     and_then (build_session_for_connect st (sc_id expected)) (\<lambda>(current, _).
       Inr (sc_host current = sc_host expected \<and> sc_port current = sc_port expected
            \<and> sc_username current = sc_username expected \<and> sc_auth current = sc_auth expected
            \<and> sc_ssh current = sc_ssh expected))"

section \<open>Reuse and publication\<close>

datatype connection_origin = Desktop | Automation

record 'h connection =
  cn_session_id :: string
  cn_host :: string
  cn_port :: "16 word"
  cn_username :: string
  cn_origin :: connection_origin
  cn_handle :: 'h

type_synonym 'h connections = "(string \<times> 'h connection) list"

definition find_connection_by_session ::
  "string \<Rightarrow> connection_origin \<Rightarrow> 'h connections \<Rightarrow> (string \<times> 'h connection) option" where
  "find_connection_by_session session_id origin conns =
     List.find (\<lambda>(_, c). cn_session_id c = session_id \<and> cn_origin c = origin) conns"

text \<open>\<open>closed\<close> says which handles the library reports as closed; a stale connection is shut down first.\<close>

definition connect_inner ::
  "('k, 'h) ssh_env \<Rightarrow> ('h \<Rightarrow> bool) \<Rightarrow> bool \<Rightarrow> connection_origin \<Rightarrow> string \<Rightarrow> session_config \<Rightarrow> known_host_entry option
   \<Rightarrow> 'h connections \<Rightarrow> ('k, 'h) sent \<times> 'h connections \<times> string app_result" where
  "connect_inner env closed reuse_existing origin uuid s trusted conns =
     (let existing = (if reuse_existing then find_connection_by_session (sc_id s) origin conns else None) in
      case (case existing of None \<Rightarrow> None | Some (i, c) \<Rightarrow> if closed (cn_handle c) then None else Some i) of
        Some i \<Rightarrow> ([], conns, Inr i)
      | None \<Rightarrow>
          (let conns1 = (case existing of None \<Rightarrow> conns | Some (i, c) \<Rightarrow> filter (\<lambda>(j, _). j \<noteq> i) conns) in
           case establish env s trusted of
             (sent, Inl e) \<Rightarrow> (sent, conns1, Inl e)
           | (sent, Inr h) \<Rightarrow>
               (sent,
                conns1 @ [(uuid, \<lparr>cn_session_id = sc_id s, cn_host = sc_host s, cn_port = sc_port s,
                                  cn_username = sc_username s, cn_origin = origin, cn_handle = h\<rparr>)],
                Inr uuid)))"

text \<open>The command of the interface: the vault may have changed by the time the connection stands.\<close>

definition connect_session ::
  "('k, 'h) ssh_env \<Rightarrow> ('h \<Rightarrow> bool) \<Rightarrow> bool \<Rightarrow> string \<Rightarrow> vault_store \<Rightarrow> vault_store \<Rightarrow> string \<Rightarrow> 'h connections
   \<Rightarrow> ('k, 'h) sent \<times> 'h connections \<times> string app_result" where
  "connect_session env closed reuse_existing uuid st st' session_id conns =
     (case build_session_for_connect st session_id of
        Inl e \<Rightarrow> ([], conns, Inl e)
      | Inr (s, known_host) \<Rightarrow>
          (case connect_inner env closed reuse_existing Desktop uuid s known_host conns of
             (sent, conns1, Inl e) \<Rightarrow> (sent, conns1, Inl e)
           | (sent, conns1, Inr i) \<Rightarrow>
               (case session_matches_current_connection_config st' s of
                  Inr True \<Rightarrow> (sent, conns1, Inr i)
                | _ \<Rightarrow> (sent, filter (\<lambda>(j, _). j \<noteq> i) conns1,
                        Inl (InvalidInput ''session configuration changed'')))))"

section \<open>Which server gets the credentials\<close>

text \<open>The fingerprint a server must show: the entry of the known hosts, otherwise the one saved with the session.\<close>

definition expected_fingerprint :: "session_config \<Rightarrow> known_host_entry option \<Rightarrow> string option" where
  "expected_fingerprint s trusted =
     (case trusted of Some entry \<Rightarrow> Some (kh_fingerprint entry) | None \<Rightarrow> so_host_key_fingerprint (sc_ssh s))"

text \<open>The library stops a key exchange whose key the handler refuses: a stream that connects has presented a key
  the handler accepted.\<close>

definition respects_handler :: "('k, 'h) ssh_env \<Rightarrow> bool" where
  "respects_handler env \<longleftrightarrow>
     (\<forall>n w check rep h. se_stream env n w check = (rep, Inr h) \<longrightarrow> (\<exists>key. fst rep = Some key \<and> check key))"

text \<open>The handle belongs to a server that showed the fingerprint in its handshake.\<close>

definition verified_handle :: "('k, 'h) ssh_env \<Rightarrow> string \<Rightarrow> 'h \<Rightarrow> bool" where
  "verified_handle env fp h \<longleftrightarrow>
     (\<exists>n w check algorithm disconnect. se_stream env n w check = ((Some (algorithm, fp), disconnect), Inr h))"

lemma check_server_key_iff:
  "snd (check_server_key (algorithm, fp) c) \<longleftrightarrow> (\<exists>entry. rc_trusted c = Some entry \<and> kh_fingerprint entry = fp)"
  by (simp add: check_server_key_def Let_def split: option.splits)

lemma trusted_expected: "map_option kh_fingerprint (trusted_for s trusted) = expected_fingerprint s trusted"
  by (cases trusted; cases "so_host_key_fingerprint (sc_ssh s)")
     (simp_all add: trusted_for_def expected_fingerprint_def)

lemma connect_attempt_verified:
  assumes "connect_attempt env s n client = (c, AttemptConnected h)" "respects_handler env"
  shows "\<exists>entry. rc_trusted client = Some entry \<and> verified_handle env (kh_fingerprint entry) h"
proof -
  let ?c0 = "client\<lparr>rc_observed := None, rc_diagnostics := no_diagnostics\<rparr>"
  let ?check = "\<lambda>key. snd (check_server_key key ?c0)"
  obtain socket rep where
    str: "se_stream env n socket ?check = (rep, Inr h)"
    using assms(1) by (auto simp: connect_attempt_def Let_def split: sum.splits option.splits prod.splits if_splits)
  with assms(2) obtain key where "fst rep = Some key" "?check key" unfolding respects_handler_def by blast
  then obtain algorithm fp disconnect entry where
    "rep = (Some (algorithm, fp), disconnect)" "rc_trusted client = Some entry" "kh_fingerprint entry = fp"
    by (cases key; cases rep) (auto simp: check_server_key_iff)
  with str show ?thesis unfolding verified_handle_def by blast
qed

lemma connect_attempt_trusted: "rc_trusted (fst (connect_attempt env s n client)) = rc_trusted client"
  by (auto simp: connect_attempt_def Let_def check_server_key_def handle_disconnected_def
      split: sum.splits option.splits prod.splits)

lemma connect_attempts_verified:
  assumes "connect_attempts env s client = (c, AttemptConnected h)" "respects_handler env"
  shows "\<exists>entry. rc_trusted client = Some entry \<and> verified_handle env (kh_fingerprint entry) h"
proof -
  obtain c1 a where a: "connect_attempt env s 1 client = (c1, a)" by fastforce
  have t: "rc_trusted c1 = rc_trusted client" using connect_attempt_trusted [of env s 1 client] a by simp
  show ?thesis
  proof (cases a)
    case AttemptRetry
    then have "connect_attempt env s 2 c1 = (c, AttemptConnected h)" using assms(1) a by (simp add: connect_attempts_def)
    from connect_attempt_verified [OF this assms(2)] show ?thesis by (simp add: t)
  next
    case (AttemptConnected h')
    then have "connect_attempt env s 1 client = (c, AttemptConnected h)"
      using assms(1) a by (simp add: connect_attempts_def)
    from connect_attempt_verified [OF this assms(2)] show ?thesis .
  qed (use assms(1) a in \<open>simp add: connect_attempts_def\<close>)
qed

text \<open>What a credential may contain.\<close>

definition own_credential :: "('k, 'h) ssh_env \<Rightarrow> session_config \<Rightarrow> 'k credential \<Rightarrow> bool" where
  "own_credential env s c \<longleftrightarrow>
     (case c of
        PasswordCred user p \<Rightarrow> user = sc_username s \<and> au_password (sc_auth s) = Some p
      | KeyCred user key hash \<Rightarrow> user = sc_username s \<and> se_load_key env (sc_auth s) = Inr key)"

lemma try_rsa_sent: "(h', c) \<in> set (fst (try_rsa_candidates env h user key hs)) \<Longrightarrow>
    h' = h \<and> (\<exists>hash. c = KeyCred user key hash)"
  by (induction hs) (auto simp: Let_def split: sum.splits bool.splits prod.splits)

lemma authenticate_sent:
  assumes "(h', c) \<in> set (fst (authenticate env h user a))"
  shows "h' = h \<and> (\<exists>p. a = PreparedPassword p \<and> c = PasswordCred user p
    \<or> (\<exists>key hash. a = PreparedKey key \<and> c = KeyCred user key hash))"
proof (cases a)
  case (PreparedPassword p)
  with assms show ?thesis by (simp add: authenticate_def try_once_def split: sum.splits)
next
  case (PreparedKey key)
  have "(h', c) \<in> set (fst (if \<not> se_is_rsa env key then try_once env h (KeyCred user key None)
      else authenticate_rsa_key env h user key))"
    using assms PreparedKey by (auto simp: authenticate_def split: prod.splits sum.splits if_splits)
  then show ?thesis
    using PreparedKey try_rsa_sent by (fastforce simp: try_once_def authenticate_rsa_key_def split: if_splits)
qed

lemma establish_safe:
  assumes "establish env s trusted = (sent, r)" "respects_handler env"
  shows "(\<forall>(h, c)\<in>set sent. own_credential env s c
      \<and> (\<exists>fp. expected_fingerprint s trusted = Some fp \<and> verified_handle env fp h))"
    and "r = Inr h \<Longrightarrow> \<exists>fp. expected_fingerprint s trusted = Some fp \<and> verified_handle env fp h"
proof -
  have conn: "\<exists>fp. expected_fingerprint s trusted = Some fp \<and> verified_handle env fp h"
    if "connect_attempts env s (client_for s trusted) = (c, AttemptConnected h)" for c h
  proof -
    have "\<exists>entry. trusted_for s trusted = Some entry \<and> verified_handle env (kh_fingerprint entry) h"
      using connect_attempts_verified [OF that assms(2)] by (simp add: client_for_def)
    then show ?thesis using trusted_expected [of s trusted, symmetric] by auto
  qed
  show "r = Inr h \<Longrightarrow> \<exists>fp. expected_fingerprint s trusted = Some fp \<and> verified_handle env fp h"
    using assms(1) conn
    by (auto simp: establish_def split: sum.splits prod.splits attempt.splits if_splits option.splits)
  show "\<forall>(h, c)\<in>set sent. own_credential env s c
      \<and> (\<exists>fp. expected_fingerprint s trusted = Some fp \<and> verified_handle env fp h)"
  proof (clarify, goal_cases)
    case (1 h' c)
    obtain prep where prep: "prepare_authentication env (sc_auth s) = Inr prep"
      using assms(1) 1 by (cases "prepare_authentication env (sc_auth s)") (auto simp: establish_def)
    obtain cl a where ca: "connect_attempts env s (client_for s trusted) = (cl, a)" by fastforce
    obtain h where a: "a = AttemptConnected h" and nt: "\<not> se_connect_timeout env" "\<not> se_key_timeout env"
      using assms(1) 1 prep ca by (cases a) (auto simp: establish_def split: if_splits)
    obtain p where p: "prep = Inr p"
      using assms(1) 1 prep ca a nt by (cases prep) (auto simp: establish_def)
    have "(h', c) \<in> set (fst (authenticate env h (sc_username s) p))"
      using assms(1) 1 prep ca a nt p
      by (auto simp: establish_def split: prod.splits option.splits sum.splits dest: in_set_takeD)
    from authenticate_sent [OF this] have h: "h' = h"
      and c: "\<exists>q. p = PreparedPassword q \<and> c = PasswordCred (sc_username s) q
        \<or> (\<exists>key hash. p = PreparedKey key \<and> c = KeyCred (sc_username s) key hash)" by auto
    have "own_credential env s c"
      using prep p c
      by (auto simp: own_credential_def prepare_authentication_def and_then_Inr_iff
          split: auth_method.splits if_splits)
    with conn [of cl h] ca a h show ?case by simp
  qed
qed

text \<open>A session of the vault, as it is used to connect: only the proxy may differ.\<close>

lemma build_session_facts:
  assumes "build_session_for_connect st session_id = Inr (s, known_host)"
  shows "\<exists>u s0. vault_unlocked st = Inr u \<and> s0 \<in> set (vd_sessions (uv_data u)) \<and> sc_id s0 = session_id
    \<and> sc_host s = sc_host s0 \<and> sc_port s = sc_port s0 \<and> sc_username s = sc_username s0 \<and> sc_auth s = sc_auth s0
    \<and> so_host_key_fingerprint (sc_ssh s) = so_host_key_fingerprint (sc_ssh s0)
    \<and> (\<forall>k. known_host = Some k \<longrightarrow> k \<in> set (vd_known_hosts (uv_data u)) \<and> kh_host k = sc_host s0 \<and> kh_port k = sc_port s0)"
proof -
  obtain s0 u where a: "vault_session session_id st = Inr s0" "vault_known_host (sc_host s0) (sc_port s0) st = Inr known_host"
    "vault_unlocked st = Inr u" "s = apply_global_proxy (vd_settings (uv_data u)) s0"
    using assms by (auto simp: build_session_for_connect_def and_then_Inr_iff)
  have "s0 \<in> set (vd_sessions (uv_data u))" "sc_id s0 = session_id"
    using a(1,3) by (auto simp: vault_session_def and_then_Inr_iff find_Some_iff in_set_conv_nth)
  moreover have "\<forall>k. known_host = Some k \<longrightarrow> k \<in> set (vd_known_hosts (uv_data u)) \<and> kh_host k = sc_host s0
      \<and> kh_port k = sc_port s0"
    using a(2,3) by (auto simp: vault_known_host_def and_then_Inr_iff find_Some_iff in_set_conv_nth)
  moreover have "sc_host s = sc_host s0" "sc_port s = sc_port s0" "sc_username s = sc_username s0" "sc_auth s = sc_auth s0"
    "so_host_key_fingerprint (sc_ssh s) = so_host_key_fingerprint (sc_ssh s0)"
    using a(4) by (simp_all add: apply_global_proxy_def split: option.splits)
  ultimately show ?thesis using a(3) by blast
qed

definition trusted_fingerprint :: "vault_data \<Rightarrow> session_config \<Rightarrow> string \<Rightarrow> bool" where
  "trusted_fingerprint d s fp \<longleftrightarrow>
     (\<exists>k\<in>set (vd_known_hosts d). kh_host k = sc_host s \<and> kh_port k = sc_port s \<and> kh_fingerprint k = fp)
     \<or> so_host_key_fingerprint (sc_ssh s) = Some fp"

text \<open>C34: connecting a session of the vault sends credentials only over a connection whose server has shown a
  host key the user trusted for exactly this address (in the known hosts, or saved with the session), and only
  this session's own user name, password or key; and a new connection is published only over such a server.
  The hypothesis is on the SSH library: a stream connects only with a key the handler accepted.\<close>

theorem connect_session_credentials:
  assumes "connect_session env closed reuse uuid st st' session_id conns = (sent, conns', r)"
    and "respects_handler env"
  shows "(\<forall>(h, c)\<in>set sent. \<exists>u s fp. vault_unlocked st = Inr u \<and> s \<in> set (vd_sessions (uv_data u)) \<and> sc_id s = session_id
      \<and> trusted_fingerprint (uv_data u) s fp \<and> verified_handle env fp h \<and> own_credential env s c)
    \<and> (\<forall>(i, cn)\<in>set conns' - set conns. \<exists>u s fp. vault_unlocked st = Inr u \<and> s \<in> set (vd_sessions (uv_data u))
      \<and> sc_id s = session_id \<and> cn_host cn = sc_host s \<and> cn_port cn = sc_port s
      \<and> trusted_fingerprint (uv_data u) s fp \<and> verified_handle env fp (cn_handle cn))"
proof (cases "build_session_for_connect st session_id")
  case (Inl e)
  with assms(1) show ?thesis by (simp add: connect_session_def)
next
  case (Inr b)
  obtain s kh where b: "b = (s, kh)" by fastforce
  from build_session_facts [OF Inr [unfolded b]] obtain u s0 where
    u: "vault_unlocked st = Inr u" "s0 \<in> set (vd_sessions (uv_data u))" "sc_id s0 = session_id"
      "sc_host s = sc_host s0" "sc_port s = sc_port s0" "sc_username s = sc_username s0" "sc_auth s = sc_auth s0"
      "so_host_key_fingerprint (sc_ssh s) = so_host_key_fingerprint (sc_ssh s0)"
      "\<forall>k. kh = Some k \<longrightarrow> k \<in> set (vd_known_hosts (uv_data u)) \<and> kh_host k = sc_host s0 \<and> kh_port k = sc_port s0"
    by blast
  have trust: "expected_fingerprint s kh = Some fp \<Longrightarrow> trusted_fingerprint (uv_data u) s0 fp" for fp
    using u(8,9) by (auto simp: expected_fingerprint_def trusted_fingerprint_def split: option.splits)
  have own: "own_credential env s c = own_credential env s0 c" for c
    using u(6,7) by (cases c) (simp_all add: own_credential_def)
  obtain sent1 conns1 r1 where
    ci: "connect_inner env closed reuse Desktop uuid s kh conns = (sent1, conns1, r1)" by (metis prod.exhaust)
  have out: "sent = sent1" "set conns' \<subseteq> set conns1"
    using assms(1) Inr b ci by (auto simp: connect_session_def split: sum.splits bool.splits)
  obtain sent2 r2 where e: "establish env s kh = (sent2, r2)" by fastforce
  note safe = establish_safe [OF e assms(2)]
  have s1: "sent1 = [] \<or> sent1 = sent2"
    using ci e by (auto simp: connect_inner_def Let_def split: option.splits prod.splits sum.splits if_splits)
  have c1: "set conns1 \<subseteq> set conns \<or> (\<exists>h c. r2 = Inr h \<and> set conns1 \<subseteq> insert (uuid, c) (set conns)
      \<and> cn_handle c = h \<and> cn_host c = sc_host s \<and> cn_port c = sc_port s)"
    using ci e by (auto simp: connect_inner_def Let_def split: option.splits prod.splits sum.splits if_splits)
  show ?thesis
  proof
    show "\<forall>(h, c)\<in>set sent. \<exists>u s fp. vault_unlocked st = Inr u \<and> s \<in> set (vd_sessions (uv_data u)) \<and> sc_id s = session_id
      \<and> trusted_fingerprint (uv_data u) s fp \<and> verified_handle env fp h \<and> own_credential env s c"
      using safe(1) s1 out(1) u(1-3) trust own by fastforce
    show "\<forall>(i, cn)\<in>set conns' - set conns. \<exists>u s fp. vault_unlocked st = Inr u \<and> s \<in> set (vd_sessions (uv_data u))
      \<and> sc_id s = session_id \<and> cn_host cn = sc_host s \<and> cn_port cn = sc_port s
      \<and> trusted_fingerprint (uv_data u) s fp \<and> verified_handle env fp (cn_handle cn)"
      using c1
    proof
      assume "set conns1 \<subseteq> set conns"
      with out(2) show ?thesis by blast
    next
      assume "\<exists>h c. r2 = Inr h \<and> set conns1 \<subseteq> insert (uuid, c) (set conns)
        \<and> cn_handle c = h \<and> cn_host c = sc_host s \<and> cn_port c = sc_port s"
      then obtain h c where hc: "r2 = Inr h" "set conns1 \<subseteq> insert (uuid, c) (set conns)"
        "cn_handle c = h" "cn_host c = sc_host s" "cn_port c = sc_port s" by blast
      from safe(2) [OF hc(1)] obtain fp where fp: "expected_fingerprint s kh = Some fp" "verified_handle env fp h"
        by blast
      have only: "cn = c" if "(i, cn) \<in> set conns' - set conns" for i cn
        using that out(2) hc(2) by blast
      show ?thesis
        using only u(1-5) trust [OF fp(1)] fp(2) hc(3-5) by (fastforce dest: only)
    qed
  qed
qed

definition one_key_env :: "(unit, nat) ssh_env" where
  "one_key_env =
     \<lparr>se_connector = (\<lambda>_ _ _ _. Inr \<lparr>wi_in = [], wi_out = [], wi_budget = 0\<rparr>),
      se_proxy_timeout = (\<lambda>_. False), se_nodelay = (\<lambda>_. None),
      se_stream = (\<lambda>_ _ check. ((Some (''ssh-ed25519'', ''SHA256:k''), None),
                     if check (''ssh-ed25519'', ''SHA256:k'') then Inr 7 else Inl HUP)),
      se_connect_timeout = False, se_load_key = (\<lambda>_. Inr ()), se_key_timeout = False, se_is_rsa = (\<lambda>_. False),
      se_rsa_probe = (\<lambda>_. None),
      se_error_text = format_ssh_transport_error, se_auth = (\<lambda>_ _. Inr True), se_auth_timeout = None, se_auth_disconnect = None\<rparr>"

definition one_session :: session_config where
  "one_session =
     \<lparr>sc_id = ''s'', sc_name = ''n'', sc_group_id = None, sc_favorite = False, sc_last_connected_at = None,
      sc_connection_count = 0, sc_host = ''h'', sc_port = 22, sc_username = ''root'',
      sc_auth = \<lparr>au_method = Password, au_password = Some ''pw'', au_private_key_path = None,
                 au_imported_private_key = None, au_private_key_passphrase = None\<rparr>,
      sc_ssh = \<lparr>so_connect_timeout_ms = 15000, so_keepalive_interval_sec = 30,
                so_host_key_fingerprint = None, so_proxy = None\<rparr>,
      sc_default_path = ''/'', sc_tags = [], sc_note = None,
      sc_terminal = \<lparr>to_encoding = ''utf-8'', to_theme = ''dark'', to_keepalive_interval_sec = 30\<rparr>,
      sc_sftp = \<lparr>sf_default_path = ''/'', sf_show_hidden = False\<rparr>, sc_created_at = ''t'', sc_updated_at = ''t''\<rparr>"

definition one_session_vault :: vault_store where
  "one_session_vault =
     \<lparr>vs_path = [], vs_unlocked = Some \<lparr>uv_data = demo_data\<lparr>vd_sessions := [one_session],
        vd_known_hosts := [\<lparr>kh_host = ''h'', kh_port = 22, kh_algorithm = ''ssh-ed25519'',
          kh_fingerprint = ''SHA256:k'', kh_trusted_at = ''t''\<rparr>]\<rparr>, uv_crypto = demo_session\<rparr>, vs_revision = 0\<rparr>"

theorem connect_session_credentials_witness:
  "\<exists>sent conns' r cn. connect_session one_key_env (\<lambda>_. False) True ''c'' one_session_vault one_session_vault ''s'' []
       = (sent, conns', r)
     \<and> sent = [(7, PasswordCred ''root'' ''pw'')] \<and> conns' = [(''c'', cn)] \<and> r = Inr ''c''
     \<and> (\<forall>(h, c)\<in>set sent. own_credential one_key_env one_session c)"
proof -
  have demo_proxy: "as_proxy (vd_settings demo_data) = None"
    by (simp add: demo_data_def vault_with_default_group_def vault_data_empty_def vault_touch_def Let_def
        app_settings_default_def)
  have resp: "respects_handler one_key_env"
    by (auto simp: respects_handler_def one_key_env_def split: if_splits)
  have b: "build_session_for_connect one_session_vault ''s'' = Inr (one_session,
      Some \<lparr>kh_host = ''h'', kh_port = 22, kh_algorithm = ''ssh-ed25519'', kh_fingerprint = ''SHA256:k'',
            kh_trusted_at = ''t''\<rparr>)"
    by (simp add: build_session_for_connect_def vault_session_def vault_known_host_def vault_unlocked_def
        one_session_vault_def one_session_def ok_or_def and_then_def apply_global_proxy_def demo_proxy)
  obtain cn where run: "connect_session one_key_env (\<lambda>_. False) True ''c'' one_session_vault one_session_vault ''s'' []
      = ([(7, PasswordCred ''root'' ''pw'')], [(''c'', cn)], Inr ''c'')"
    by (simp add: connect_session_def b session_matches_current_connection_config_def and_then_def
        connect_inner_def find_connection_by_session_def establish_def prepare_authentication_def
        one_session_def one_key_env_def ok_or_def connect_attempts_def connect_attempt_def
        connect_tcp_for_ssh_def client_for_def trusted_for_def verification_for_def check_server_key_def
        authenticate_def try_once_def no_diagnostics_def Let_def)
  from connect_session_credentials [OF run resp]
  have "own_credential one_key_env one_session (PasswordCred ''root'' ''pw'')"
    by (auto simp: one_session_vault_def vault_unlocked_def ok_or_def)
  with run show ?thesis by simp
qed

end
