(* ===== verification/Forwards.thy ===== *)
theory Forwards
  imports Ssh_Connect Transfer_State Permits
begin

text \<open>
  Port forwards (\<open>remote/runtime\_forward.rs\<close>, the records in \<open>remote.rs\<close>). The maps of the runtime stand behind
  locks, so an operation is a sequence of sections between its awaits; each section is a function on the world
  below. The world also holds what is between sections: starts that wait for their listener or for the server's
  reply, stops that have taken a record out, and connections taken out whose cleanup is still to come. A
  \<open>HashMap\<close> is an association list; no result depends on its order.
\<close>

section \<open>Hash maps\<close>

definition hm_remove :: "'k \<Rightarrow> ('k \<times> 'v) list \<Rightarrow> ('k \<times> 'v) list" where
  "hm_remove k m = filter (\<lambda>(j, _). j \<noteq> k) m"

definition hm_insert :: "'k \<Rightarrow> 'v \<Rightarrow> ('k \<times> 'v) list \<Rightarrow> ('k \<times> 'v) list" where
  "hm_insert k v m = (k, v) # hm_remove k m"

definition hm_map :: "('v \<Rightarrow> 'v) \<Rightarrow> ('k \<times> 'v) list \<Rightarrow> ('k \<times> 'v) list" where
  "hm_map f m = map (\<lambda>(k, v). (k, f v)) m"

definition hm_adjust :: "'k \<Rightarrow> ('v \<Rightarrow> 'v) \<Rightarrow> ('k \<times> 'v) list \<Rightarrow> ('k \<times> 'v) list" where
  "hm_adjust k f m = map (\<lambda>(j, v). (j, if j = k then f v else v)) m"

lemma set_hm_remove [simp]: "set (hm_remove k m) = {(j, v). (j, v) \<in> set m \<and> j \<noteq> k}"
  by (auto simp: hm_remove_def)

lemma set_hm_insert [simp]: "set (hm_insert k v m) = insert (k, v) {(j, u). (j, u) \<in> set m \<and> j \<noteq> k}"
  by (simp add: hm_insert_def)

lemma set_hm_map [simp]: "set (hm_map f m) = (\<lambda>(k, v). (k, f v)) ` set m"
  by (simp add: hm_map_def)

lemma set_hm_adjust [simp]: "set (hm_adjust k f m) = (\<lambda>(j, v). (j, if j = k then f v else v)) ` set m"
  by (simp add: hm_adjust_def)

lemma keys_hm_remove: "distinct (map fst m) \<Longrightarrow> distinct (map fst (hm_remove k m))"
  by (simp add: hm_remove_def distinct_map_filter)

lemma keys_hm_insert: "distinct (map fst m) \<Longrightarrow> distinct (map fst (hm_insert k v m))"
  by (auto simp: hm_insert_def keys_hm_remove)

lemma keys_hm_map [simp]: "map fst (hm_map f m) = map fst m"
  by (simp add: hm_map_def comp_def split_beta)

lemma keys_hm_adjust [simp]: "map fst (hm_adjust k f m) = map fst m"
  by (simp add: hm_adjust_def comp_def split_beta)

lemma map_of_remove [simp]: "map_of (hm_remove k m) j = (if j = k then None else map_of m j)"
  by (induction m) (auto simp: hm_remove_def)

lemma map_of_insert [simp]: "map_of (hm_insert k v m) j = (if j = k then Some v else map_of m j)"
  by (simp add: hm_insert_def)

section \<open>Ports and keys\<close>

definition forward_key :: "string \<Rightarrow> 16 word \<Rightarrow> string" where
  "forward_key host port = host @ '':'' @ dec_string (unat port)"

definition normalize_remote_forward_port :: "16 word \<Rightarrow> 32 word \<Rightarrow> 16 word app_result" where
  "normalize_remote_forward_port requested returned =
     (if returned = 0 then
        (if requested = 0 then Inl (Remote ''the SSH server returned no port'') else Inr requested)
      else if unat returned \<le> 65535 then Inr (ucast returned)
      else Inl (Remote (''the SSH server returned an invalid port: '' @ dec_string (unat returned))))"

definition normalize_forwarded_channel_port :: "32 word \<Rightarrow> 16 word option" where
  "normalize_forwarded_channel_port port =
     (if unat port \<le> 65535 \<and> (ucast port :: 16 word) \<noteq> 0 then Some (ucast port) else None)"

lemma normalize_remote_forward_port_nonzero:
  "normalize_remote_forward_port requested returned = Inr p \<Longrightarrow> p \<noteq> 0"
proof -
  assume a: "normalize_remote_forward_port requested returned = Inr p"
  have "(ucast returned :: 16 word) \<noteq> 0" if "returned \<noteq> 0" "unat returned \<le> 65535"
  proof
    assume "(ucast returned :: 16 word) = 0"
    then have "unat (ucast returned :: 16 word) = 0" by simp
    then have "unat returned mod 65536 = 0" by (simp add: unsigned_ucast_eq take_bit_eq_mod unsigned_take_bit_eq)
    with that(2) have "unat returned = 0" by simp
    with that(1) show False by (simp add: unat_eq_0)
  qed
  with a show ?thesis by (auto simp: normalize_remote_forward_port_def split: if_splits)
qed

section \<open>Records\<close>

datatype forward_type = LocalForward | RemoteForward | DynamicForward

record forward_info =
  fi_forward_id :: string
  fi_tunnel_id :: "string option"
  fi_session_id :: string
  fi_type :: forward_type
  fi_bind_host :: string
  fi_bind_port :: "16 word"
  fi_target_host :: string
  fi_target_port :: "16 word"
  fi_status :: task_status
  fi_started_at :: string
  fi_error :: "string option"

text \<open>\<open>fr\_task\<close> is the accepting task with whether it has ended.\<close>

record forward_record =
  fr_connection_id :: string
  fr_origin :: connection_origin
  fr_info :: forward_info
  fr_listener_started :: bool
  fr_task :: "bool option"

record forward_target =
  ft_local_host :: string
  ft_local_port :: "16 word"

definition is_active_forward_status :: "task_status \<Rightarrow> bool" where
  "is_active_forward_status st \<longleftrightarrow> st = Queued \<or> st = Running"

definition active_forward :: "forward_record \<Rightarrow> bool" where
  "active_forward r \<longleftrightarrow> is_active_forward_status (fi_status (fr_info r))"

definition is_remote_listener :: "forward_record \<Rightarrow> bool" where
  "is_remote_listener r \<longleftrightarrow> fr_listener_started r \<and> fi_type (fr_info r) = RemoteForward"

type_synonym forward_map = "(string \<times> forward_record) list"

definition has_active_remote_forward :: "forward_map \<Rightarrow> string \<Rightarrow> string \<Rightarrow> 16 word \<Rightarrow> bool" where
  "has_active_remote_forward forwards connection_id bind_host bind_port \<longleftrightarrow>
     (\<exists>(_, r)\<in>set forwards. fr_connection_id r = connection_id \<and> is_remote_listener r
        \<and> fi_bind_host (fr_info r) = bind_host \<and> fi_bind_port (fr_info r) = bind_port
        \<and> fi_status (fr_info r) \<noteq> Canceled \<and> fi_status (fr_info r) \<noteq> Completed)"

definition of_tunnel :: "string \<Rightarrow> connection_origin option \<Rightarrow> forward_record \<Rightarrow> bool" where
  "of_tunnel tunnel_id origin r \<longleftrightarrow>
     fi_tunnel_id (fr_info r) = Some tunnel_id \<and> (case origin of None \<Rightarrow> True | Some o' \<Rightarrow> fr_origin r = o')"

definition matching_forward_ids :: "forward_map \<Rightarrow> string \<Rightarrow> connection_origin option \<Rightarrow> string list" where
  "matching_forward_ids forwards tunnel_id origin = map fst (filter (\<lambda>(_, r). of_tunnel tunnel_id origin r) forwards)"

definition fail_forward :: "string \<Rightarrow> forward_record \<Rightarrow> forward_record" where
  "fail_forward e r = r\<lparr>fr_info := (fr_info r)\<lparr>fi_status := Failed, fi_error := Some e\<rparr>\<rparr>"

text \<open>\<open>refresh\_finished\_forward\_records\<close>: a listener whose task has ended is reported as failed.\<close>

definition refresh_record :: "forward_record \<Rightarrow> forward_record" where
  "refresh_record r =
     (if active_forward r \<and> fr_task r = Some True
      then fail_forward (case fi_error (fr_info r) of None \<Rightarrow> ''forward ended unexpectedly'' | Some e \<Rightarrow> e) r
      else r)"

definition refresh_finished_forward_records :: "forward_map \<Rightarrow> forward_map" where
  "refresh_finished_forward_records forwards = hm_map refresh_record forwards"

definition find_forward_for_tunnel ::
  "forward_map \<Rightarrow> string \<Rightarrow> connection_origin option \<Rightarrow> forward_info option" where
  "find_forward_for_tunnel forwards tunnel_id origin =
     map_option (\<lambda>(_, r). fr_info r)
       (List.find (\<lambda>(_, r). of_tunnel tunnel_id origin r \<and> active_forward r)
         (refresh_finished_forward_records forwards))"

section \<open>Child tasks\<close>

text \<open>The tasks that serve the channels of a forward.\<close>

record child_tasks =
  ct_closed :: bool
  ct_handles :: "nat list"

definition child_register :: "(nat \<Rightarrow> bool) \<Rightarrow> nat \<Rightarrow> child_tasks \<Rightarrow> child_tasks \<times> nat list" where
  "child_register is_finished handle c =
     (if ct_closed c then (c, [handle])
      else (c\<lparr>ct_handles := filter (\<lambda>t. \<not> is_finished t) (ct_handles c) @ [handle]\<rparr>, []))"

definition close_and_take :: "child_tasks \<Rightarrow> child_tasks \<times> nat list" where
  "close_and_take c = (c\<lparr>ct_closed := True, ct_handles := []\<rparr>, ct_handles c)"

definition abort_forward_tasks :: "nat option \<Rightarrow> child_tasks \<Rightarrow> child_tasks \<times> nat list" where
  "abort_forward_tasks task c = (case close_and_take c of (c', hs) \<Rightarrow> (c', hs @ (case task of None \<Rightarrow> [] | Some t \<Rightarrow> [t])))"

section \<open>The world\<close>

record forward_connection =
  co_session :: string
  co_origin :: connection_origin

datatype start_phase = Binding | Requesting | AssignedPort "16 word"

record pending_start =
  ps_tunnel :: "string option"
  ps_session :: string
  ps_connection :: string
  ps_origin :: connection_origin
  ps_type :: forward_type
  ps_bind_host :: string
  ps_bind_port :: "16 word"
  ps_target_host :: string
  ps_target_port :: "16 word"
  ps_phase :: start_phase

datatype stop_phase = StopIdle | StopTaken string forward_record | StopCancelling string forward_record

record pending_stop =
  sj_lock :: "string option"
  sj_ids :: "string list"
  sj_expected :: "connection_origin option"
  sj_phase :: stop_phase
  sj_stopped :: nat

datatype shutdown_phase = ClosingConnections "string option" "string list" | OrphanForwards "forward_record list" | OrphanConnections

record forward_world =
  fw_connections :: "(string \<times> forward_connection) list"
  fw_closing :: "(string \<times> forward_connection) list"
  fw_forwards :: forward_map
  fw_remote :: "((string \<times> string) \<times> forward_target) list"
  fw_starts :: "pending_start list"
  fw_stops :: "pending_stop list"
  fw_shutdown :: "shutdown_phase option"
  fw_issued :: "string list"

definition remove_nth :: "nat \<Rightarrow> 'a list \<Rightarrow> 'a list" where
  "remove_nth i xs = take i xs @ drop (Suc i) xs"

definition drop_start :: "nat \<Rightarrow> forward_world \<Rightarrow> forward_world" where
  "drop_start i w = w\<lparr>fw_starts := remove_nth i (fw_starts w)\<rparr>"

definition set_start :: "nat \<Rightarrow> pending_start \<Rightarrow> forward_world \<Rightarrow> forward_world" where
  "set_start i p w = w\<lparr>fw_starts := (fw_starts w)[i := p]\<rparr>"

definition set_stop :: "nat \<Rightarrow> pending_stop \<Rightarrow> forward_world \<Rightarrow> forward_world" where
  "set_stop i p w = w\<lparr>fw_stops := (fw_stops w)[i := p]\<rparr>"

definition drop_stop :: "nat \<Rightarrow> forward_world \<Rightarrow> forward_world" where
  "drop_stop i w = w\<lparr>fw_stops := remove_nth i (fw_stops w)\<rparr>"

definition publish_forward :: "string \<Rightarrow> forward_record \<Rightarrow> forward_world \<Rightarrow> forward_world" where
  "publish_forward fid r w = w\<lparr>fw_forwards := hm_insert fid r (fw_forwards w), fw_issued := fid # fw_issued w\<rparr>"

text \<open>The locks: of a tunnel, and of an address on a connection.\<close>

definition tunnel_locked :: "string \<Rightarrow> forward_world \<Rightarrow> bool" where
  "tunnel_locked t w \<longleftrightarrow>
     (\<exists>p\<in>set (fw_starts w). ps_tunnel p = Some t) \<or> (\<exists>s\<in>set (fw_stops w). sj_lock s = Some t)"

definition start_key :: "pending_start \<Rightarrow> string \<times> string" where
  "start_key p = (ps_connection p, forward_key (ps_bind_host p) (ps_bind_port p))"

definition record_key :: "forward_record \<Rightarrow> string \<times> string" where
  "record_key r = (fr_connection_id r, forward_key (fi_bind_host (fr_info r)) (fi_bind_port (fr_info r)))"

definition remote_locked :: "string \<times> string \<Rightarrow> forward_world \<Rightarrow> bool" where
  "remote_locked key w \<longleftrightarrow>
     (\<exists>p\<in>set (fw_starts w). ps_phase p \<noteq> Binding \<and> start_key p = key)
     \<or> (\<exists>s\<in>set (fw_stops w). case sj_phase s of StopCancelling _ r \<Rightarrow> record_key r = key | _ \<Rightarrow> False)"

section \<open>Starting\<close>

definition ensure_connection_session :: "forward_connection \<Rightarrow> string \<Rightarrow> unit app_result" where
  "ensure_connection_session c session_id =
     (if co_session c = session_id then Inr () else Inl (InvalidInput ''connection and session do not match''))"

text \<open>\<open>forward\_start\_local\<close>, \<open>forward\_start\_remote\<close> and \<open>forward\_start\_dynamic\<close> up to their first
  effect; an active forward of the tunnel is reused. The request names no origin: it is the connection's.\<close>

definition start_begin :: "pending_start \<Rightarrow> forward_world \<Rightarrow> forward_world \<times> forward_info option app_result" where
  "start_begin q w =
     (case map_of (fw_connections w) (ps_connection q) of
        None \<Rightarrow> (w, Inl missing_connection)
      | Some c \<Rightarrow>
          (case ensure_connection_session c (ps_session q) of
             Inl e \<Rightarrow> (w, Inl e)
           | Inr _ \<Rightarrow>
               (let p = q\<lparr>ps_origin := co_origin c, ps_phase := Binding\<rparr>;
                    started = (\<lambda>v. v\<lparr>fw_starts := fw_starts v @ [p]\<rparr>)
                in case ps_tunnel q of
                     None \<Rightarrow> (started w, Inr None)
                   | Some t \<Rightarrow>
                       (let w1 = w\<lparr>fw_forwards := refresh_finished_forward_records (fw_forwards w)\<rparr> in
                        case find_forward_for_tunnel (fw_forwards w) t (Some (co_origin c)) of
                          Some existing \<Rightarrow> (w1, Inr (Some existing))
                        | None \<Rightarrow> (started w1, Inr None)))))"

definition started_info :: "pending_start \<Rightarrow> string \<Rightarrow> 16 word \<Rightarrow> string \<Rightarrow> forward_info" where
  "started_info p fid port t =
     \<lparr>fi_forward_id = fid, fi_tunnel_id = ps_tunnel p, fi_session_id = ps_session p, fi_type = ps_type p,
      fi_bind_host = ps_bind_host p, fi_bind_port = port,
      fi_target_host = (case ps_type p of LocalForward \<Rightarrow> ps_target_host p | RemoteForward \<Rightarrow> ''local''
                        | DynamicForward \<Rightarrow> ''SOCKS5''),
      fi_target_port = (case ps_type p of DynamicForward \<Rightarrow> 0 | _ \<Rightarrow> ps_target_port p),
      fi_status = Running, fi_started_at = t, fi_error = None\<rparr>"

definition started_record :: "pending_start \<Rightarrow> string \<Rightarrow> 16 word \<Rightarrow> string \<Rightarrow> forward_record" where
  "started_record p fid port t =
     \<lparr>fr_connection_id = ps_connection p, fr_origin = ps_origin p, fr_info = started_info p fid port t,
      fr_listener_started = True, fr_task = (if ps_type p = RemoteForward then None else Some False)\<rparr>"

text \<open>The listener of a local or dynamic forward is bound, or not.\<close>

definition start_bound ::
  "nat \<Rightarrow> string + 16 word \<Rightarrow> string \<Rightarrow> string \<Rightarrow> forward_world \<Rightarrow> forward_world \<times> forward_info app_result" where
  "start_bound i bound fid t w =
     (let p = fw_starts w ! i; w1 = drop_start i w in
      case bound of
        Inl e \<Rightarrow> (w1, Inl (Remote e))
      | Inr port \<Rightarrow>
          if map_of (fw_connections w) (ps_connection p) = None
          then (w1, Inl missing_connection)
          else (publish_forward fid (started_record p fid port t) w1, Inr (started_info p fid port t)))"

text \<open>The accepting task is gone before it was released: a stop has come in between.\<close>

definition start_send_failed :: "string \<Rightarrow> forward_world \<Rightarrow> forward_world" where
  "start_send_failed fid w = w\<lparr>fw_forwards := hm_remove fid (fw_forwards w)\<rparr>"

definition remote_check :: "nat \<Rightarrow> forward_world \<Rightarrow> forward_world \<times> unit app_result" where
  "remote_check i w =
     (let p = fw_starts w ! i in
      if has_active_remote_forward (fw_forwards w) (ps_connection p) (ps_bind_host p) (ps_bind_port p)
      then (drop_start i w, Inl (InvalidInput ''the remote address is in use on this connection''))
      else (set_start i (p\<lparr>ps_phase := Requesting\<rparr>) w\<lparr>fw_remote := hm_insert (start_key p)
              \<lparr>ft_local_host = ps_target_host p, ft_local_port = ps_target_port p\<rparr> (fw_remote w)\<rparr>, Inr ()))"

definition remote_reply :: "nat \<Rightarrow> string + 32 word \<Rightarrow> forward_world \<Rightarrow> forward_world \<times> unit app_result" where
  "remote_reply i reply w =
     (let p = fw_starts w ! i;
          failed = (\<lambda>e. ((drop_start i w)\<lparr>fw_remote := hm_remove (start_key p) (fw_remote w)\<rparr>, Inl e))
      in case reply of
           Inl e \<Rightarrow> failed (Remote e)
         | Inr returned \<Rightarrow>
             (case normalize_remote_forward_port (ps_bind_port p) returned of
                Inl e \<Rightarrow> failed e
              | Inr port \<Rightarrow>
                  ((set_start i (p\<lparr>ps_phase := AssignedPort port\<rparr>) w)\<lparr>fw_remote :=
                     (if port \<noteq> ps_bind_port p
                      then hm_insert (ps_connection p, forward_key (ps_bind_host p) port)
                             \<lparr>ft_local_host = ps_target_host p, ft_local_port = ps_target_port p\<rparr>
                             (hm_remove (start_key p) (fw_remote w))
                      else fw_remote w)\<rparr>, Inr ())))"

definition remote_publish ::
  "nat \<Rightarrow> string \<Rightarrow> string \<Rightarrow> forward_world \<Rightarrow> forward_world \<times> forward_info app_result" where
  "remote_publish i fid t w =
     (let p = fw_starts w ! i; w1 = drop_start i w in
      case ps_phase p of
        AssignedPort port \<Rightarrow>
          if map_of (fw_connections w) (ps_connection p) = None
          then (w1\<lparr>fw_remote := hm_remove (ps_connection p, forward_key (ps_bind_host p) port) (fw_remote w)\<rparr>,
                Inl missing_connection)
          else (publish_forward fid (started_record p fid port t) w1, Inr (started_info p fid port t))
      | _ \<Rightarrow> (w, Inl (Remote [])))"

text \<open>A failed start stays visible as a record without a listener.\<close>

definition tunnel_forward_type :: "tunnel_config \<Rightarrow> forward_type" where
  "tunnel_forward_type tunnel =
     (if tc_forward_type tunnel = ''remote'' then RemoteForward
      else if tc_forward_type tunnel = ''dynamic'' then DynamicForward else LocalForward)"

definition record_tunnel_start_failure ::
  "tunnel_config \<Rightarrow> string \<Rightarrow> bool \<Rightarrow> string \<Rightarrow> string \<Rightarrow> string \<Rightarrow> forward_world \<Rightarrow> forward_world" where
  "record_tunnel_start_failure tunnel connection_id stale e fid t w =
     (case map_of (fw_connections w) connection_id of
        None \<Rightarrow> w
      | Some c \<Rightarrow>
          if stale then w
          else publish_forward fid
            \<lparr>fr_connection_id = connection_id, fr_origin = co_origin c,
             fr_info = \<lparr>fi_forward_id = fid, fi_tunnel_id = Some (tc_id tunnel), fi_session_id = tc_session_id tunnel,
                        fi_type = tunnel_forward_type tunnel, fi_bind_host = tc_bind_host tunnel,
                        fi_bind_port = tc_bind_port tunnel, fi_target_host = tc_target_host tunnel,
                        fi_target_port = tc_target_port tunnel, fi_status = Failed, fi_started_at = t,
                        fi_error = Some e\<rparr>,
             fr_listener_started = False, fr_task = None\<rparr> w)"

definition tunnel_request :: "tunnel_config \<Rightarrow> string \<Rightarrow> pending_start app_result" where
  "tunnel_request tunnel connection_id =
     (if tc_forward_type tunnel \<in> {''local'', ''remote'', ''dynamic''}
      then Inr \<lparr>ps_tunnel = Some (tc_id tunnel), ps_session = tc_session_id tunnel, ps_connection = connection_id,
                ps_origin = Desktop, ps_type = tunnel_forward_type tunnel, ps_bind_host = tc_bind_host tunnel,
                ps_bind_port = tc_bind_port tunnel, ps_target_host = tc_target_host tunnel,
                ps_target_port = tc_target_port tunnel, ps_phase = Binding\<rparr>
      else Inl (InvalidInput (''unsupported tunnel type: '' @ tc_forward_type tunnel)))"

section \<open>A listener fails\<close>

definition mark_forward_failed :: "string \<Rightarrow> string \<Rightarrow> forward_world \<Rightarrow> forward_world" where
  "mark_forward_failed fid e w =
     w\<lparr>fw_forwards := hm_adjust fid (\<lambda>r. if active_forward r then fail_forward e r else r) (fw_forwards w)\<rparr>"

definition forward_task_ended :: "string \<Rightarrow> forward_world \<Rightarrow> forward_world" where
  "forward_task_ended fid w =
     w\<lparr>fw_forwards := hm_adjust fid (\<lambda>r. r\<lparr>fr_task := map_option (\<lambda>_. True) (fr_task r)\<rparr>) (fw_forwards w)\<rparr>"

definition forward_list :: "forward_world \<Rightarrow> forward_world \<times> forward_info list" where
  "forward_list w =
     (let fs = refresh_finished_forward_records (fw_forwards w)
      in (w\<lparr>fw_forwards := fs\<rparr>, map (\<lambda>(_, r). fr_info r) fs))"

section \<open>Stopping\<close>

definition forward_stop :: "string \<Rightarrow> forward_world \<Rightarrow> forward_world" where
  "forward_stop fid w =
     w\<lparr>fw_stops := fw_stops w @ [\<lparr>sj_lock = Option.bind (map_of (fw_forwards w) fid) (\<lambda>r. fi_tunnel_id (fr_info r)),
        sj_ids = [fid], sj_expected = None, sj_phase = StopIdle, sj_stopped = 0\<rparr>]\<rparr>"

definition stop_forwards_for_tunnel_inner :: "string \<Rightarrow> connection_origin option \<Rightarrow> forward_world \<Rightarrow> forward_world" where
  "stop_forwards_for_tunnel_inner tunnel_id origin w =
     w\<lparr>fw_stops := fw_stops w @ [\<lparr>sj_lock = Some tunnel_id,
        sj_ids = matching_forward_ids (fw_forwards w) tunnel_id origin, sj_expected = origin, sj_phase = StopIdle,
        sj_stopped = 0\<rparr>]\<rparr>"

text \<open>\<open>forward\_stop\_if\_present\<close>, section by section. A record without a remote listener is cancelled at once; the
  cancelled record itself is only reported.\<close>

definition stop_take :: "nat \<Rightarrow> forward_world \<Rightarrow> forward_world" where
  "stop_take j w =
     (let s = fw_stops w ! j in
      case sj_ids s of
        [] \<Rightarrow> drop_stop j w
      | fid # ids \<Rightarrow>
          (case map_of (fw_forwards w) fid of
             None \<Rightarrow> set_stop j (s\<lparr>sj_ids := ids\<rparr>) w
           | Some r \<Rightarrow>
               if (case sj_expected s of None \<Rightarrow> True | Some o' \<Rightarrow> fr_origin r = o')
               then (set_stop j (if is_remote_listener r then s\<lparr>sj_ids := ids, sj_phase := StopTaken fid r\<rparr>
                                 else s\<lparr>sj_ids := ids, sj_stopped := Suc (sj_stopped s)\<rparr>) w)
                      \<lparr>fw_forwards := hm_remove fid (fw_forwards w)\<rparr>
               else set_stop j (s\<lparr>sj_ids := ids\<rparr>) w))"

definition stop_lookup :: "nat \<Rightarrow> forward_world \<Rightarrow> forward_world" where
  "stop_lookup j w =
     (let s = fw_stops w ! j in
      case sj_phase s of
        StopTaken fid r \<Rightarrow>
          (if map_of (fw_connections w) (fr_connection_id r) = None
           then set_stop j (s\<lparr>sj_phase := StopIdle, sj_stopped := Suc (sj_stopped s)\<rparr>) w
           else set_stop j (s\<lparr>sj_phase := StopCancelling fid r\<rparr>) w)
      | _ \<Rightarrow> w)"

definition stop_cancelled :: "nat \<Rightarrow> string option \<Rightarrow> forward_world \<Rightarrow> forward_world" where
  "stop_cancelled j cancel_error w =
     (let s = fw_stops w ! j in
      case sj_phase s of
        StopCancelling fid r \<Rightarrow>
          (case cancel_error of
             Some e \<Rightarrow> (drop_stop j w)\<lparr>fw_forwards := hm_insert fid (fail_forward e r) (fw_forwards w)\<rparr>
           | None \<Rightarrow> (set_stop j (s\<lparr>sj_phase := StopIdle, sj_stopped := Suc (sj_stopped s)\<rparr>) w)
                       \<lparr>fw_remote := hm_remove (record_key r) (fw_remote w)\<rparr>)
      | _ \<Rightarrow> w)"

section \<open>Connections\<close>

definition connection_opened :: "string \<Rightarrow> forward_connection \<Rightarrow> forward_world \<Rightarrow> forward_world" where
  "connection_opened cid c w =
     w\<lparr>fw_connections := hm_insert cid c (fw_connections w), fw_issued := cid # fw_issued w\<rparr>"

text \<open>\<open>shutdown\_connection\_with\_reason\<close>: the record leaves the map first, then its children are closed.\<close>

definition connection_closed :: "string \<Rightarrow> forward_world \<Rightarrow> forward_world \<times> unit app_result" where
  "connection_closed cid w =
     (case map_of (fw_connections w) cid of
        None \<Rightarrow> (w, Inl missing_connection)
      | Some c \<Rightarrow> (w\<lparr>fw_connections := hm_remove cid (fw_connections w), fw_closing := (cid, c) # fw_closing w\<rparr>, Inr ()))"

definition cancel_forwards_for_connection :: "string \<Rightarrow> forward_world \<Rightarrow> forward_world" where
  "cancel_forwards_for_connection cid w =
     w\<lparr>fw_forwards := filter (\<lambda>(_, r). fr_connection_id r \<noteq> cid) (fw_forwards w),
       fw_remote := filter (\<lambda>(k, _). \<forall>(_, r)\<in>set (fw_forwards w).
          fr_connection_id r = cid \<and> is_remote_listener r \<longrightarrow> record_key r \<noteq> k) (fw_remote w),
       fw_closing := hm_remove cid (fw_closing w)\<rparr>"

definition shutdown_begin :: "forward_world \<Rightarrow> forward_world" where
  "shutdown_begin w = w\<lparr>fw_shutdown := Some (ClosingConnections None (map fst (fw_connections w)))\<rparr>"

definition shutdown_step :: "forward_world \<Rightarrow> forward_world" where
  "shutdown_step w =
     (case fw_shutdown w of
        None \<Rightarrow> w
      | Some (ClosingConnections _ (cid # ids)) \<Rightarrow>
          (fst (connection_closed cid w))\<lparr>fw_shutdown := Some (ClosingConnections (Some cid) ids)\<rparr>
      | Some (ClosingConnections _ []) \<Rightarrow>
          w\<lparr>fw_forwards := [], fw_shutdown := Some (OrphanForwards (map snd (fw_forwards w)))\<rparr>
      | Some (OrphanForwards (r # rs)) \<Rightarrow>
          w\<lparr>fw_shutdown := Some (OrphanForwards rs),
            fw_remote := (if is_remote_listener r \<and> map_of (fw_connections w) (fr_connection_id r) \<noteq> None
                          then hm_remove (record_key r) (fw_remote w) else fw_remote w)\<rparr>
      | Some (OrphanForwards []) \<Rightarrow> w\<lparr>fw_shutdown := Some OrphanConnections\<rparr>
      | Some OrphanConnections \<Rightarrow> w\<lparr>fw_connections := [], fw_shutdown := None\<rparr>)"

section \<open>Where a forwarded channel goes\<close>

definition route_forwarded :: "string \<Rightarrow> string \<Rightarrow> 32 word \<Rightarrow> forward_world \<Rightarrow> forward_target option" where
  "route_forwarded cid connected_address connected_port w =
     (case normalize_forwarded_channel_port connected_port of
        None \<Rightarrow> None
      | Some port \<Rightarrow> map_of (fw_remote w) (cid, forward_key connected_address port))"

end
