(* ===== verification/Forwards_Inv.thy ===== *)
theory Forwards_Inv
  imports Forwards
begin

text \<open>
  The sections of \<open>Forwards\<close> in any order the locks allow, and what holds in every world they reach: active
  forwards belong to a connection, a tunnel has one per origin, and a channel the server opens goes only to the
  target of a forward that exists.
\<close>

section \<open>Keys\<close>

lemma dec_string_digits: "c \<in> set (dec_string n) \<Longrightarrow> c \<noteq> CHR '':''"
proof (induction n rule: dec_string.induct)
  case (1 n)
  have d: "char_of (48 + m) \<noteq> CHR '':''" if "m < 10" for m :: nat
  proof
    assume "char_of (48 + m) = CHR '':''"
    then have "(of_char (char_of (48 + m)) :: nat) = of_char CHR '':''" by simp
    with that show False by simp
  qed
  show ?case
    using 1 d [of n] d [of "n mod 10"] by (auto simp: dec_string.simps [of n] split: if_splits)
qed

lemma split_at_last:
  assumes "x \<notin> set a" "x \<notin> set b" "u @ x # a = v @ x # b"
  shows "u = v \<and> a = b"
proof -
  have "takeWhile (\<lambda>c. c \<noteq> x) (rev (u @ x # a)) = rev a" if "x \<notin> set a" for u a
    using that by (subst rev_append) (auto simp: takeWhile_tail takeWhile_append)
  from this [OF assms(1), of u] this [OF assms(2), of v] assms(3) have "rev a = rev b" by simp
  with assms(3) show ?thesis by simp
qed

lemma forward_key_inject [simp]: "forward_key h p = forward_key h' p' \<longleftrightarrow> h = h' \<and> p = p'"
proof
  assume a: "forward_key h p = forward_key h' p'"
  have "CHR '':'' \<notin> set (dec_string (unat p))" "CHR '':'' \<notin> set (dec_string (unat p'))"
    using dec_string_digits by blast+
  from split_at_last [OF this, of h h'] a show "h = h' \<and> p = p'" by (simp add: forward_key_def word_unat_eq_iff)
qed simp

section \<open>Runs\<close>

datatype fw_event =
    EvOpen string forward_connection
  | EvClose string
  | EvCleanup string
  | EvBegin pending_start
  | EvBound nat "string + 16 word" string string
  | EvSendFailed string
  | EvRemoteCheck nat
  | EvRemoteReply nat "string + 32 word"
  | EvRemotePublish nat string string
  | EvStartFailure tunnel_config string bool string string string
  | EvListenerFailed string string
  | EvTaskEnded string
  | EvList
  | EvStop string
  | EvStopTunnel string "connection_origin option"
  | EvTake nat
  | EvLookup nat
  | EvCancelled nat "string option"
  | EvShutdown
  | EvShutdownStep

text \<open>When a section may run: the locks it takes are free, an identifier it makes is new.\<close>

definition stop_ready :: "nat \<Rightarrow> forward_world \<Rightarrow> bool" where
  "stop_ready j w \<longleftrightarrow> j < length (fw_stops w)"

fun fw_enabled :: "fw_event \<Rightarrow> forward_world \<Rightarrow> bool" where
  "fw_enabled (EvOpen cid c) w = (cid \<notin> set (fw_issued w) \<and> fw_shutdown w = None)"
| "fw_enabled (EvClose cid) w = True"
| "fw_enabled (EvCleanup cid) w = (cid \<in> fst ` set (fw_closing w))"
| "fw_enabled (EvBegin q) w =
     (fw_shutdown w = None \<and> (case ps_tunnel q of None \<Rightarrow> True | Some t \<Rightarrow> \<not> tunnel_locked t w))"
| "fw_enabled (EvBound i b fid t) w =
     (i < length (fw_starts w) \<and> ps_type (fw_starts w ! i) \<noteq> RemoteForward \<and> fid \<notin> set (fw_issued w))"
| "fw_enabled (EvSendFailed fid) w =
     (case map_of (fw_forwards w) fid of None \<Rightarrow> True | Some r \<Rightarrow> fi_type (fr_info r) \<noteq> RemoteForward)"
| "fw_enabled (EvRemoteCheck i) w =
     (i < length (fw_starts w) \<and> ps_type (fw_starts w ! i) = RemoteForward \<and> ps_phase (fw_starts w ! i) = Binding
      \<and> \<not> remote_locked (start_key (fw_starts w ! i)) w)"
| "fw_enabled (EvRemoteReply i reply) w = (i < length (fw_starts w) \<and> ps_phase (fw_starts w ! i) = Requesting)"
| "fw_enabled (EvRemotePublish i fid t) w =
     (i < length (fw_starts w) \<and> (case ps_phase (fw_starts w ! i) of AssignedPort _ \<Rightarrow> True | _ \<Rightarrow> False)
      \<and> fid \<notin> set (fw_issued w))"
| "fw_enabled (EvStartFailure tunnel cid stale e fid t) w = (fid \<notin> set (fw_issued w) \<and> fw_shutdown w = None)"
| "fw_enabled (EvListenerFailed fid e) w = True"
| "fw_enabled (EvTaskEnded fid) w = True"
| "fw_enabled EvList w = True"
| "fw_enabled (EvStop fid) w =
     (case map_of (fw_forwards w) fid of
        None \<Rightarrow> True
      | Some r \<Rightarrow> (case fi_tunnel_id (fr_info r) of None \<Rightarrow> True | Some t \<Rightarrow> \<not> tunnel_locked t w))"
| "fw_enabled (EvStopTunnel t origin) w = (\<not> tunnel_locked t w)"
| "fw_enabled (EvTake j) w = (j < length (fw_stops w) \<and> sj_phase (fw_stops w ! j) = StopIdle)"
| "fw_enabled (EvLookup j) w =
     (j < length (fw_stops w) \<and>
      (case sj_phase (fw_stops w ! j) of StopTaken _ r \<Rightarrow> \<not> remote_locked (record_key r) w | _ \<Rightarrow> False))"
| "fw_enabled (EvCancelled j e) w =
     (j < length (fw_stops w) \<and> (case sj_phase (fw_stops w ! j) of StopCancelling _ _ \<Rightarrow> True | _ \<Rightarrow> False))"
| "fw_enabled EvShutdown w = (fw_shutdown w = None \<and> fw_starts w = [])"
| "fw_enabled EvShutdownStep w =
     (case fw_shutdown w of
        None \<Rightarrow> False
      | Some (ClosingConnections (Some cid) _) \<Rightarrow> cid \<notin> fst ` set (fw_closing w)
      | _ \<Rightarrow> True)"

fun fw_apply :: "fw_event \<Rightarrow> forward_world \<Rightarrow> forward_world" where
  "fw_apply (EvOpen cid c) w = connection_opened cid c w"
| "fw_apply (EvClose cid) w = fst (connection_closed cid w)"
| "fw_apply (EvCleanup cid) w = cancel_forwards_for_connection cid w"
| "fw_apply (EvBegin q) w = fst (start_begin q w)"
| "fw_apply (EvBound i b fid t) w = fst (start_bound i b fid t w)"
| "fw_apply (EvSendFailed fid) w = start_send_failed fid w"
| "fw_apply (EvRemoteCheck i) w = fst (remote_check i w)"
| "fw_apply (EvRemoteReply i reply) w = fst (remote_reply i reply w)"
| "fw_apply (EvRemotePublish i fid t) w = fst (remote_publish i fid t w)"
| "fw_apply (EvStartFailure tunnel cid stale e fid t) w = record_tunnel_start_failure tunnel cid stale e fid t w"
| "fw_apply (EvListenerFailed fid e) w = mark_forward_failed fid e w"
| "fw_apply (EvTaskEnded fid) w = forward_task_ended fid w"
| "fw_apply EvList w = fst (forward_list w)"
| "fw_apply (EvStop fid) w = forward_stop fid w"
| "fw_apply (EvStopTunnel t origin) w = stop_forwards_for_tunnel_inner t origin w"
| "fw_apply (EvTake j) w = stop_take j w"
| "fw_apply (EvLookup j) w = stop_lookup j w"
| "fw_apply (EvCancelled j e) w = stop_cancelled j e w"
| "fw_apply EvShutdown w = shutdown_begin w"
| "fw_apply EvShutdownStep w = shutdown_step w"

inductive fw_step :: "forward_world \<Rightarrow> forward_world \<Rightarrow> bool" where
  step: "fw_enabled ev w \<Longrightarrow> fw_step w (fw_apply ev w)"

inductive_cases fw_stepE: "fw_step w w'"

definition fw_initial :: "forward_world \<Rightarrow> bool" where
  "fw_initial w \<longleftrightarrow> fw_connections w = [] \<and> fw_closing w = [] \<and> fw_forwards w = [] \<and> fw_remote w = []
     \<and> fw_starts w = [] \<and> fw_stops w = [] \<and> fw_shutdown w = None"

section \<open>The invariant\<close>

text \<open>Who may have a target registered under a key.\<close>

fun stop_holds :: "stop_phase \<Rightarrow> forward_record option" where
  "stop_holds StopIdle = None"
| "stop_holds (StopTaken _ r) = Some r"
| "stop_holds (StopCancelling _ r) = Some r"

fun start_holds :: "pending_start \<Rightarrow> (string \<times> string) option" where
  "start_holds p =
     (case ps_phase p of
        Binding \<Rightarrow> None
      | Requesting \<Rightarrow> Some (start_key p)
      | AssignedPort port \<Rightarrow> Some (ps_connection p, forward_key (ps_bind_host p) port))"

declare start_holds.simps [simp del]

definition held_records :: "forward_world \<Rightarrow> forward_record set" where
  "held_records w =
     snd ` set (fw_forwards w) \<union> {r. \<exists>s\<in>set (fw_stops w). stop_holds (sj_phase s) = Some r}
     \<union> (case fw_shutdown w of Some (OrphanForwards rs) \<Rightarrow> set rs | _ \<Rightarrow> {})"

definition key_owned :: "forward_world \<Rightarrow> string \<times> string \<Rightarrow> bool" where
  "key_owned w key \<longleftrightarrow>
     (\<exists>p\<in>set (fw_starts w). start_holds p = Some key)
     \<or> (\<exists>r\<in>held_records w. is_remote_listener r \<and> record_key r = key)"

definition known_connections :: "forward_world \<Rightarrow> (string \<times> forward_connection) set" where
  "known_connections w = set (fw_connections w) \<union> set (fw_closing w)"

definition ids_inv :: "forward_world \<Rightarrow> bool" where
  "ids_inv w \<longleftrightarrow>
     distinct (map fst (fw_forwards w)) \<and> distinct (map fst (fw_connections w @ fw_closing w))
     \<and> (\<forall>cid c. (cid, c) \<in> known_connections w \<longrightarrow> cid \<in> set (fw_issued w))
     \<and> (\<forall>cid k t. ((cid, k), t) \<in> set (fw_remote w) \<longrightarrow> cid \<in> set (fw_issued w))
     \<and> (\<forall>p\<in>set (fw_starts w). ps_connection p \<in> set (fw_issued w))"

definition origin_inv :: "forward_world \<Rightarrow> bool" where
  "origin_inv w \<longleftrightarrow>
     (\<forall>fid r. (fid, r) \<in> set (fw_forwards w) \<longrightarrow> active_forward r \<longrightarrow>
        (\<exists>c. (fr_connection_id r, c) \<in> known_connections w \<and> co_origin c = fr_origin r
             \<and> co_session c = fi_session_id (fr_info r)))
     \<and> (\<forall>p\<in>set (fw_starts w). \<forall>c. (ps_connection p, c) \<in> known_connections w \<longrightarrow>
          co_origin c = ps_origin p \<and> co_session c = ps_session p)"

definition locks :: "forward_world \<Rightarrow> string list" where
  "locks w = List.map_filter ps_tunnel (fw_starts w) @ List.map_filter sj_lock (fw_stops w)"

definition tunnel_inv :: "forward_world \<Rightarrow> bool" where
  "tunnel_inv w \<longleftrightarrow>
     distinct (locks w)
     \<and> (\<forall>a r b s. (a, r) \<in> set (fw_forwards w) \<and> (b, s) \<in> set (fw_forwards w) \<and> active_forward r \<and> active_forward s
          \<and> fi_tunnel_id (fr_info r) \<noteq> None \<and> fi_tunnel_id (fr_info r) = fi_tunnel_id (fr_info s)
          \<and> fr_origin r = fr_origin s \<longrightarrow> a = b)
     \<and> (\<forall>p\<in>set (fw_starts w). \<forall>a r. (a, r) \<in> set (fw_forwards w) \<and> active_forward r \<and> ps_tunnel p \<noteq> None
          \<and> fi_tunnel_id (fr_info r) = ps_tunnel p \<longrightarrow> fr_origin r \<noteq> ps_origin p)"

definition remote_inv :: "forward_world \<Rightarrow> bool" where
  "remote_inv w \<longleftrightarrow>
     (\<forall>p\<in>set (fw_starts w). ps_phase p \<noteq> Binding \<longrightarrow> ps_type p = RemoteForward)
     \<and> (\<forall>cid k t c. ((cid, k), t) \<in> set (fw_remote w) \<and> (cid, c) \<in> set (fw_connections w) \<longrightarrow> key_owned w (cid, k))"

definition shutdown_inv :: "forward_world \<Rightarrow> bool" where
  "shutdown_inv w \<longleftrightarrow>
     (case fw_shutdown w of
        None \<Rightarrow> True
      | Some (ClosingConnections _ _) \<Rightarrow> fw_starts w = []
      | Some _ \<Rightarrow> fw_starts w = [] \<and> (\<forall>fid r. (fid, r) \<in> set (fw_forwards w) \<longrightarrow> \<not> active_forward r))"

fun stop_fid :: "stop_phase \<Rightarrow> string option" where
  "stop_fid StopIdle = None"
| "stop_fid (StopTaken fid _) = Some fid"
| "stop_fid (StopCancelling fid _) = Some fid"

definition held_fids :: "forward_world \<Rightarrow> string list" where
  "held_fids w = List.map_filter (\<lambda>s. stop_fid (sj_phase s)) (fw_stops w)"

definition fid_inv :: "forward_world \<Rightarrow> bool" where
  "fid_inv w \<longleftrightarrow> distinct (map fst (fw_forwards w) @ held_fids w)
     \<and> fst ` set (fw_forwards w) \<union> set (held_fids w) \<subseteq> set (fw_issued w)"

definition fw_inv :: "forward_world \<Rightarrow> bool" where
  "fw_inv w \<longleftrightarrow> ids_inv w \<and> origin_inv w \<and> tunnel_inv w \<and> remote_inv w \<and> shutdown_inv w \<and> fid_inv w"

lemma fw_inv_initial: "fw_initial w \<Longrightarrow> fw_inv w"
  by (simp add: fw_initial_def fw_inv_def ids_inv_def origin_inv_def tunnel_inv_def remote_inv_def locks_def
      known_connections_def map_filter_def shutdown_inv_def
      fid_inv_def held_fids_def)

section \<open>The sections keep it\<close>

lemmas section_defs =
  connection_opened_def connection_closed_def cancel_forwards_for_connection_def start_begin_def start_bound_def
  start_send_failed_def remote_check_def remote_reply_def remote_publish_def record_tunnel_start_failure_def
  mark_forward_failed_def forward_task_ended_def forward_list_def forward_stop_def
  stop_forwards_for_tunnel_inner_def stop_take_def stop_lookup_def stop_cancelled_def shutdown_begin_def
  shutdown_step_def drop_start_def set_start_def drop_stop_def set_stop_def publish_forward_def
  refresh_finished_forward_records_def ensure_connection_session_def Let_def

lemmas section_splits =
  option.splits sum.splits if_splits list.splits start_phase.splits stop_phase.splits shutdown_phase.splits prod.splits

lemma set_remove_nth: "set (remove_nth i xs) \<subseteq> set xs"
  unfolding remove_nth_def using set_take_subset [of i xs] set_drop_subset [of "Suc i" xs] by auto

lemma in_remove_nth: "x \<in> set (remove_nth i xs) \<Longrightarrow> x \<in> set xs"
  using set_remove_nth [of i xs] by blast

lemma in_update: "x \<in> set (xs[i := y]) \<Longrightarrow> x = y \<or> x \<in> set xs"
  using set_update_subset_insert [of xs i y] by blast

lemma keys_filter [simp]: "distinct (map fst m) \<Longrightarrow> distinct (map fst (filter P m))"
  by (simp add: distinct_map_filter)

lemma key_in_remove: "fst ` set (hm_remove k m) = fst ` set m - {k}"
  by force

lemma key_in_insert: "fst ` set (hm_insert k v m) = insert k (fst ` set m)"
  by force

lemma hm_remove_neq [simp]: "map_of m k = Some v \<Longrightarrow> hm_remove k m \<noteq> m"
  by (metis map_of_remove option.distinct(1))

lemma nth_start: "i < length (fw_starts w) \<Longrightarrow> fw_starts w ! i \<in> set (fw_starts w)"
  by simp

lemma ids_close:
  assumes "ids_inv w" "map_of (fw_connections w) cid = Some c"
  shows "distinct (map fst (hm_remove cid (fw_connections w) @ (cid, c) # fw_closing w))"
proof -
  have "(cid, c) \<in> set (fw_connections w)" using assms(2) by (rule map_of_SomeD)
  then have "cid \<in> fst ` set (fw_connections w)" by force
  with assms(1) show ?thesis by (auto simp: ids_inv_def keys_hm_remove key_in_remove)
qed

lemma ids_apply:
  assumes inv: "ids_inv w" and en: "fw_enabled ev w"
  shows "ids_inv (fw_apply ev w)"
proof (cases ev)
  case (EvOpen cid c)
  with inv en show ?thesis
    by (auto simp: section_defs ids_inv_def known_connections_def keys_hm_remove hm_insert_def key_in_remove)
next
  case (EvClose cid)
  show ?thesis
  proof (cases "map_of (fw_connections w) cid")
    case (Some c)
    then have "(cid, c) \<in> set (fw_connections w)" by (rule map_of_SomeD)
    with EvClose Some inv ids_close [OF inv Some] show ?thesis
      by (auto simp: section_defs ids_inv_def known_connections_def)
  qed (use EvClose inv in \<open>simp add: section_defs\<close>)
next
  case (EvCleanup cid)
  with inv show ?thesis
    by (auto simp: section_defs ids_inv_def known_connections_def keys_hm_remove key_in_remove) blast+
next
  case (EvBegin q)
  with inv show ?thesis
    by (auto simp: section_defs ids_inv_def known_connections_def split: section_splits dest!: map_of_SomeD)
next
  case (EvBound i b fid t)
  with inv en show ?thesis
    by (auto simp: section_defs ids_inv_def known_connections_def keys_hm_insert split: section_splits
        dest: in_remove_nth)
next
  case (EvRemoteCheck i)
  with inv en show ?thesis
    by (auto simp: section_defs ids_inv_def known_connections_def start_key_def split: section_splits
        dest: in_remove_nth in_update) blast+
next
  case (EvRemoteReply i reply)
  with inv en show ?thesis
    by (auto simp: section_defs ids_inv_def known_connections_def split: section_splits
        dest: in_remove_nth in_update) blast+
next
  case (EvRemotePublish i fid t)
  with inv en show ?thesis
    by (auto simp: section_defs ids_inv_def known_connections_def keys_hm_insert split: section_splits
        dest: in_remove_nth) blast+
next
  case (EvCancelled j e)
  with inv show ?thesis
    by (auto simp: section_defs ids_inv_def known_connections_def keys_hm_insert split: section_splits) blast+
next
  case EvShutdownStep
  with inv show ?thesis
    by (auto simp: section_defs ids_inv_def known_connections_def keys_hm_insert key_in_remove ids_close [OF inv, simplified]
        split: section_splits dest: map_of_SomeD) blast+
qed (use inv in \<open>auto simp: section_defs ids_inv_def known_connections_def keys_hm_insert keys_hm_remove
      split: section_splits\<close>)

lemma refresh_record_facts [simp]:
  "fr_connection_id (refresh_record r) = fr_connection_id r" "fr_origin (refresh_record r) = fr_origin r"
  "fi_session_id (fr_info (refresh_record r)) = fi_session_id (fr_info r)"
  "fi_tunnel_id (fr_info (refresh_record r)) = fi_tunnel_id (fr_info r)"
  "is_remote_listener (refresh_record r) = is_remote_listener r" "record_key (refresh_record r) = record_key r"
  by (simp_all add: refresh_record_def fail_forward_def is_remote_listener_def record_key_def)

lemma fail_forward_facts [simp]:
  "fr_connection_id (fail_forward e r) = fr_connection_id r" "fr_origin (fail_forward e r) = fr_origin r"
  "fi_session_id (fr_info (fail_forward e r)) = fi_session_id (fr_info r)"
  "fi_tunnel_id (fr_info (fail_forward e r)) = fi_tunnel_id (fr_info r)"
  "is_remote_listener (fail_forward e r) = is_remote_listener r" "record_key (fail_forward e r) = record_key r"
  "\<not> active_forward (fail_forward e r)"
  by (simp_all add: fail_forward_def is_remote_listener_def record_key_def active_forward_def
      is_active_forward_status_def)

lemma task_ended_facts [simp]:
  "active_forward (r\<lparr>fr_task := t\<rparr>) = active_forward r" "is_remote_listener (r\<lparr>fr_task := t\<rparr>) = is_remote_listener r"
  "record_key (r\<lparr>fr_task := t\<rparr>) = record_key r"
  by (simp_all add: active_forward_def is_remote_listener_def record_key_def)

lemma refresh_active: "active_forward (refresh_record r) \<Longrightarrow> active_forward r"
  by (auto simp: refresh_record_def split: if_splits)

lemma started_record_facts [simp]:
  "fr_connection_id (started_record p fid port t) = ps_connection p" "fr_origin (started_record p fid port t) = ps_origin p"
  "fi_session_id (fr_info (started_record p fid port t)) = ps_session p"
  "fi_tunnel_id (fr_info (started_record p fid port t)) = ps_tunnel p"
  "active_forward (started_record p fid port t)"
  "is_remote_listener (started_record p fid port t) = (ps_type p = RemoteForward)"
  "record_key (started_record p fid port t) = (ps_connection p, forward_key (ps_bind_host p) port)"
  by (simp_all add: started_record_def started_info_def active_forward_def is_active_forward_status_def
      is_remote_listener_def record_key_def)

text \<open>What every active record and every pending start say about their connection.\<close>

definition record_known :: "(string \<times> forward_connection) set \<Rightarrow> forward_record \<Rightarrow> bool" where
  "record_known K r \<longleftrightarrow> (\<exists>c. (fr_connection_id r, c) \<in> K \<and> co_origin c = fr_origin r
     \<and> co_session c = fi_session_id (fr_info r))"

definition start_known :: "(string \<times> forward_connection) set \<Rightarrow> pending_start \<Rightarrow> bool" where
  "start_known K p \<longleftrightarrow> (\<forall>c. (ps_connection p, c) \<in> K \<longrightarrow> co_origin c = ps_origin p \<and> co_session c = ps_session p)"

lemma origin_inv_iff:
  "origin_inv w \<longleftrightarrow>
     (\<forall>(fid, r)\<in>set (fw_forwards w). active_forward r \<longrightarrow> record_known (known_connections w) r)
     \<and> (\<forall>p\<in>set (fw_starts w). start_known (known_connections w) p)"
  by (auto simp: origin_inv_def record_known_def start_known_def)

lemma known_same [simp]:
  "record_known K (refresh_record r) = record_known K r" "record_known K (fail_forward e r) = record_known K r"
  "record_known K (r\<lparr>fr_task := t\<rparr>) = record_known K r" "start_known K (p\<lparr>ps_phase := ph\<rparr>) = start_known K p"
  by (simp_all add: record_known_def start_known_def)

lemma origin_keep:
  assumes "origin_inv w" "known_connections w' = known_connections w"
    and "\<And>fid r. (fid, r) \<in> set (fw_forwards w') \<Longrightarrow> active_forward r \<Longrightarrow>
      (fid, r) \<in> set (fw_forwards w) \<or> record_known (known_connections w) r"
    and "\<And>p. p \<in> set (fw_starts w') \<Longrightarrow> p \<in> set (fw_starts w) \<or> start_known (known_connections w) p"
  shows "origin_inv w'"
  using assms by (fastforce simp: origin_inv_iff)

lemma start_known_record:
  "(ps_connection p, c) \<in> K \<Longrightarrow> start_known K p \<Longrightarrow> record_known K (started_record p fid port t)"
  by (auto simp: start_known_def record_known_def)

lemma known_unique:
  assumes "ids_inv w" "(cid, c) \<in> known_connections w" "(cid, c') \<in> known_connections w"
  shows "c = c'"
  using assms eq_key_imp_eq_value [of "fw_connections w @ fw_closing w" cid c c']
  by (simp add: ids_inv_def known_connections_def)

lemma start_known_begin:
  assumes "ids_inv w" "map_of (fw_connections w) (ps_connection q) = Some c" "co_session c = ps_session q"
  shows "start_known (known_connections w) (q\<lparr>ps_origin := co_origin c, ps_phase := ph\<rparr>)"
proof -
  have "(ps_connection q, c) \<in> known_connections w" using assms(2) by (simp add: known_connections_def map_of_SomeD)
  then have "d = c" if "(ps_connection q, d) \<in> known_connections w" for d
    by (rule known_unique [OF assms(1) that])
  with assms(3) show ?thesis unfolding start_known_def by (simp, blast)
qed

lemma known_closed:
  assumes "ids_inv w"
  shows "known_connections (fst (connection_closed cid w)) = known_connections w"
proof (cases "map_of (fw_connections w) cid")
  case (Some c)
  have "d = c" if "(cid, d) \<in> set (fw_connections w)" for d
    using known_unique [OF assms, of cid d c] that map_of_SomeD [OF Some] unfolding known_connections_def by blast
  then have "insert (cid, c) (set (hm_remove cid (fw_connections w))) = set (fw_connections w)"
    using map_of_SomeD [OF Some] by (fastforce simp del: set_hm_remove simp: hm_remove_def)
  with Some show ?thesis by (simp add: connection_closed_def known_connections_def del: set_hm_remove) blast
qed (simp add: connection_closed_def)

lemma closed_same [simp]:
  "fw_forwards (fst (connection_closed cid w)) = fw_forwards w" "fw_starts (fst (connection_closed cid w)) = fw_starts w"
  "fw_stops (fst (connection_closed cid w)) = fw_stops w" "fw_remote (fst (connection_closed cid w)) = fw_remote w"
  "fw_shutdown (fst (connection_closed cid w)) = fw_shutdown w" "fw_issued (fst (connection_closed cid w)) = fw_issued w"
  by (simp_all add: connection_closed_def split: option.splits)

lemma known_shutdown [simp]: "known_connections (w\<lparr>fw_shutdown := x\<rparr>) = known_connections w"
  by (simp add: known_connections_def)

lemma origin_shutdown_step:
  assumes "ids_inv w" "origin_inv w" "shutdown_inv w"
  shows "origin_inv (shutdown_step w)"
proof (cases "fw_shutdown w = Some OrphanConnections")
  case True
  with assms(3) show ?thesis by (auto simp: shutdown_step_def shutdown_inv_def origin_inv_iff)
next
  case False
  show ?thesis
  proof (rule origin_keep [OF assms(2)])
    show "known_connections (shutdown_step w) = known_connections w"
      using False known_closed [OF assms(1)]
      by (auto simp: shutdown_step_def known_connections_def split: option.splits shutdown_phase.splits list.splits)
  qed (auto simp: shutdown_step_def split: option.splits shutdown_phase.splits list.splits)
qed

lemma origin_cleanup:
  assumes "ids_inv w" "origin_inv w" "cid \<in> fst ` set (fw_closing w)"
  shows "origin_inv (cancel_forwards_for_connection cid w)"
proof -
  have "known_connections (cancel_forwards_for_connection cid w) = known_connections w - {cid} \<times> UNIV"
  proof -
    have "cid \<notin> fst ` set (fw_connections w)" using assms(1,3) by (auto simp: ids_inv_def)
    then have "(cid, c) \<notin> set (fw_connections w)" for c by force
    then show ?thesis by (auto simp: cancel_forwards_for_connection_def known_connections_def)
  qed
  with assms(2) show ?thesis
    by (auto simp: origin_inv_iff cancel_forwards_for_connection_def record_known_def start_known_def)
qed

lemma origin_open:
  assumes "ids_inv w" "origin_inv w" "cid \<notin> set (fw_issued w)"
  shows "origin_inv (connection_opened cid c w)"
proof -
  have "known_connections (connection_opened cid c w) = insert (cid, c) (known_connections w)"
    using assms(1,3) by (auto simp: connection_opened_def known_connections_def ids_inv_def)
  with assms show ?thesis
    by (fastforce simp: origin_inv_iff connection_opened_def record_known_def start_known_def ids_inv_def)
qed

lemma origin_apply:
  assumes inv: "fw_inv w" and en: "fw_enabled ev w"
  shows "origin_inv (fw_apply ev w)"
proof -
  have ids: "ids_inv w" and o: "origin_inv w" and sd: "shutdown_inv w" using inv by (simp_all add: fw_inv_def)
  have st: "start_known (known_connections w) (fw_starts w ! i)" if "i < length (fw_starts w)" for i
    using o that by (simp add: origin_inv_iff)
  have rec: "record_known (known_connections w) r" if "(fid, r) \<in> set (fw_forwards w)" "active_forward r" for fid r
    using o that by (auto simp: origin_inv_iff)
  have live: "(cid, c) \<in> known_connections w" if "map_of (fw_connections w) cid = Some c" for cid c
    using that by (simp add: known_connections_def map_of_SomeD)
  show ?thesis
  proof (cases ev)
    case (EvOpen cid c)
    with origin_open [OF ids o] en show ?thesis by simp
  next
    case (EvClose cid)
    show ?thesis by (rule origin_keep [OF o]) (use EvClose known_closed [OF ids] in \<open>auto\<close>)
  next
    case (EvCleanup cid)
    with origin_cleanup [OF ids o] en show ?thesis by simp
  next
    case (EvBegin q)
    show ?thesis
      by (rule origin_keep [OF o])
        (use EvBegin rec live start_known_begin [OF ids] in \<open>auto simp: section_defs known_connections_def split: section_splits dest: refresh_active\<close>)
  next
    case (EvBound i b fid t)
    show ?thesis
      by (rule origin_keep [OF o])
        (use EvBound en st live in \<open>auto simp: section_defs known_connections_def split: section_splits
            dest: in_remove_nth intro: start_known_record\<close>)
  next
    case (EvRemoteCheck i)
    show ?thesis
      by (rule origin_keep [OF o])
        (use EvRemoteCheck en st in \<open>auto simp: section_defs known_connections_def split: section_splits
            dest: in_remove_nth in_update\<close>)
  next
    case (EvRemoteReply i reply)
    show ?thesis
      by (rule origin_keep [OF o])
        (use EvRemoteReply en st in \<open>auto simp: section_defs known_connections_def split: section_splits
            dest: in_remove_nth in_update\<close>)
  next
    case (EvRemotePublish i fid t)
    show ?thesis
      by (rule origin_keep [OF o])
        (use EvRemotePublish en st live in \<open>auto simp: section_defs known_connections_def split: section_splits
            dest: in_remove_nth intro: start_known_record\<close>)
  next
    case EvShutdownStep
    with origin_shutdown_step [OF ids o sd] show ?thesis by simp
  next
    case (EvStartFailure tunnel cid stale e fid t)
    show ?thesis
      by (rule origin_keep [OF o])
        (use EvStartFailure in \<open>auto simp: section_defs known_connections_def active_forward_def
            is_active_forward_status_def split: section_splits\<close>)
  qed (rule origin_keep [OF o]; use rec in \<open>auto simp: section_defs known_connections_def
        split: section_splits dest: refresh_active\<close>)+
qed

text \<open>The tunnels: the active records of one tunnel and origin.\<close>

lemma map_filter_remove: "distinct (List.map_filter f xs @ ys) \<Longrightarrow> distinct (List.map_filter f (remove_nth i xs) @ ys)"
proof (induction xs arbitrary: i)
  case (Cons x xs)
  have sub: "set (List.map_filter f (remove_nth j xs)) \<subseteq> set (List.map_filter f xs)" for j
    using set_remove_nth [of j xs] by (auto simp: map_filter_def)
  show ?case
  proof (cases i)
    case 0
    with Cons.prems show ?thesis by (auto simp: remove_nth_def List.map_filter_simps split: option.splits)
  next
    case (Suc j)
    have "remove_nth i (x # xs) = x # remove_nth j xs" by (simp add: Suc remove_nth_def)
    with Cons sub [of j] show ?thesis by (auto simp: List.map_filter_simps split: option.splits)
  qed
qed (simp add: remove_nth_def)

lemma map_filter_update: "i < length xs \<Longrightarrow> f y = f (xs ! i) \<Longrightarrow> List.map_filter f (xs[i := y]) = List.map_filter f xs"
  by (induction xs arbitrary: i) (auto simp: List.map_filter_simps nth_Cons split: nat.splits option.splits)

lemma in_locks: "t \<in> set (locks w) \<longleftrightarrow> tunnel_locked t w"
  by (force simp: locks_def tunnel_locked_def map_filter_def)

lemma find_none:
  assumes "find_forward_for_tunnel fs t (Some og) = None" "(a, r) \<in> set fs" "active_forward (refresh_record r)"
    "fi_tunnel_id (fr_info r) = Some t"
  shows "fr_origin r \<noteq> og"
  using assms by (fastforce simp: find_forward_for_tunnel_def find_None_iff refresh_finished_forward_records_def of_tunnel_def)

lemma tunnel_keep:
  assumes "tunnel_inv w" "distinct (locks w')"
    and "\<And>a r. (a, r) \<in> set (fw_forwards w') \<Longrightarrow> active_forward r \<Longrightarrow>
      \<exists>s. (a, s) \<in> set (fw_forwards w) \<and> active_forward s \<and> fi_tunnel_id (fr_info s) = fi_tunnel_id (fr_info r)
        \<and> fr_origin s = fr_origin r"
    and "\<And>p. p \<in> set (fw_starts w') \<Longrightarrow> \<exists>q\<in>set (fw_starts w). ps_tunnel q = ps_tunnel p \<and> ps_origin q = ps_origin p"
  shows "tunnel_inv w'"
proof -
  have 1: "a = b" if "(a, r) \<in> set (fw_forwards w')" "(b, s) \<in> set (fw_forwards w')" "active_forward r" "active_forward s"
      "fi_tunnel_id (fr_info r) \<noteq> None" "fi_tunnel_id (fr_info r) = fi_tunnel_id (fr_info s)" "fr_origin r = fr_origin s"
    for a r b s
    using assms(1) assms(3) [OF that(1,3)] assms(3) [OF that(2,4)] that(5-7) unfolding tunnel_inv_def by metis
  have 2: "fr_origin r \<noteq> ps_origin p" if "p \<in> set (fw_starts w')" "(a, r) \<in> set (fw_forwards w')" "active_forward r"
      "ps_tunnel p \<noteq> None" "fi_tunnel_id (fr_info r) = ps_tunnel p" for p a r
    using assms(1) assms(3) [OF that(2,3)] assms(4) [OF that(1)] that(4,5) unfolding tunnel_inv_def by metis
  show ?thesis unfolding tunnel_inv_def using assms(2) 1 2 by blast
qed

lemma map_filter_remove': "distinct (ys @ List.map_filter f xs) \<Longrightarrow> distinct (ys @ List.map_filter f (remove_nth i xs))"
  using map_filter_remove [of f xs ys i] by (auto simp: Int_commute)

lemma map_filter_append: "List.map_filter f (xs @ ys) = List.map_filter f xs @ List.map_filter f ys"
  by (simp add: map_filter_def)

lemma map_filter_snoc: "List.map_filter f (xs @ [x]) = List.map_filter f xs @ (case f x of None \<Rightarrow> [] | Some y \<Rightarrow> [y])"
  by (induction xs) (auto simp: List.map_filter_simps split: option.splits)

lemma locks_start_update:
  "i < length (fw_starts w) \<Longrightarrow> fw_starts w' = (fw_starts w)[i := p] \<Longrightarrow> ps_tunnel p = ps_tunnel (fw_starts w ! i) \<Longrightarrow>
    fw_stops w' = fw_stops w \<Longrightarrow> locks w' = locks w"
  by (simp add: locks_def map_filter_update)

lemma locks_stop_update:
  "j < length (fw_stops w) \<Longrightarrow> fw_stops w' = (fw_stops w)[j := s] \<Longrightarrow> sj_lock s = sj_lock (fw_stops w ! j) \<Longrightarrow>
    fw_starts w' = fw_starts w \<Longrightarrow> locks w' = locks w"
  by (simp add: locks_def map_filter_update)

lemma locks_drop_start: "distinct (locks w) \<Longrightarrow> fw_starts w' = remove_nth i (fw_starts w) \<Longrightarrow> fw_stops w' = fw_stops w \<Longrightarrow>
    distinct (locks w')"
  unfolding locks_def using map_filter_remove by metis

lemma locks_drop_stop: "distinct (locks w) \<Longrightarrow> fw_stops w' = remove_nth i (fw_stops w) \<Longrightarrow> fw_starts w' = fw_starts w \<Longrightarrow>
    distinct (locks w')"
  unfolding locks_def using map_filter_remove' by metis

lemma locks_new_stop:
  assumes "distinct (locks w)" "fw_starts w' = fw_starts w" "fw_stops w' = fw_stops w @ [s]"
    "case sj_lock s of None \<Rightarrow> True | Some t \<Rightarrow> \<not> tunnel_locked t w"
  shows "distinct (locks w')"
proof -
  have "locks w' = locks w @ (case sj_lock s of None \<Rightarrow> [] | Some t \<Rightarrow> [t])"
    using assms(2,3) by (simp add: locks_def map_filter_snoc)
  with assms(1,4) show ?thesis by (simp add: in_locks split: option.splits)
qed

lemma locks_new_start:
  assumes "distinct (locks w)" "fw_starts w' = fw_starts w @ [p]" "fw_stops w' = fw_stops w"
    "case ps_tunnel p of None \<Rightarrow> True | Some t \<Rightarrow> \<not> tunnel_locked t w"
  shows "distinct (locks w')"
proof -
  have "set (locks w') = set (locks w) \<union> (case ps_tunnel p of None \<Rightarrow> {} | Some t \<Rightarrow> {t})"
    "length (locks w') = length (locks w) + (case ps_tunnel p of None \<Rightarrow> 0 | Some t \<Rightarrow> 1)"
    using assms(2,3) by (auto simp: locks_def map_filter_snoc split: option.splits)
  with assms(1,4) in_locks [of _ w] show ?thesis
    by (auto simp: distinct_card [symmetric] card_distinct split: option.splits intro!: card_distinct)
qed

lemma tunnel_begin:
  assumes inv: "tunnel_inv w" and fs: "fw_forwards w' = hm_map f (fw_forwards w)"
    and same: "\<And>r. active_forward (f r) \<Longrightarrow> active_forward r" "\<And>r. fr_info (f r) = fr_info r \<or> \<not> active_forward (f r)"
      "\<And>r. fr_origin (f r) = fr_origin r"
    and new: "fw_starts w' = fw_starts w @ [p]" "fw_stops w' = fw_stops w"
      "case ps_tunnel p of None \<Rightarrow> True | Some t \<Rightarrow> \<not> tunnel_locked t w"
    and none: "\<And>a r. (a, r) \<in> set (fw_forwards w') \<Longrightarrow> active_forward r \<Longrightarrow> ps_tunnel p \<noteq> None \<Longrightarrow>
      fi_tunnel_id (fr_info r) = ps_tunnel p \<Longrightarrow> fr_origin r \<noteq> ps_origin p"
  shows "tunnel_inv w'"
proof -
  let ?v = "w'\<lparr>fw_starts := fw_starts w\<rparr>"
  have "tunnel_inv ?v"
  proof (rule tunnel_keep [OF inv])
    show "distinct (locks ?v)" using inv new by (simp add: tunnel_inv_def locks_def)
    show "\<exists>s. (a, s) \<in> set (fw_forwards w) \<and> active_forward s \<and> fi_tunnel_id (fr_info s) = fi_tunnel_id (fr_info r)
        \<and> fr_origin s = fr_origin r" if ar: "(a, r) \<in> set (fw_forwards ?v)" "active_forward r" for a r
    proof -
      obtain r0 where r0: "(a, r0) \<in> set (fw_forwards w)" "r = f r0" using ar(1) fs by auto
      with ar(2) same(1) [of r0] same(2) [of r0] same(3) [of r0] show ?thesis by metis
    qed
  qed (use new in auto)
  moreover have "distinct (locks w')" using locks_new_start [OF _ new] inv by (simp add: tunnel_inv_def)
  ultimately show ?thesis using none new(1) by (auto simp: tunnel_inv_def)
qed

lemma tunnel_publish:
  assumes inv: "tunnel_inv w" and i: "i < length (fw_starts w)"
    and w': "fw_starts w' = remove_nth i (fw_starts w)" "fw_stops w' = fw_stops w"
      "fw_forwards w' = hm_insert fid (started_record (fw_starts w ! i) fid port t) (fw_forwards w)"
  shows "tunnel_inv w'"
proof -
  let ?p = "fw_starts w ! i"
  have d: "distinct (locks w)" using inv by (simp add: tunnel_inv_def)
  have p: "?p \<in> set (fw_starts w)" using i by simp
  have fresh: "fr_origin r \<noteq> ps_origin ?p" if "(a, r) \<in> set (fw_forwards w)" "active_forward r" "ps_tunnel ?p \<noteq> None"
      "fi_tunnel_id (fr_info r) = ps_tunnel ?p" for a r
    using inv p that by (auto simp: tunnel_inv_def)
  have other: "ps_tunnel q \<noteq> ps_tunnel ?p" if q: "q \<in> set (fw_starts w')" "ps_tunnel ?p \<noteq> None" for q
  proof
    assume eq: "ps_tunnel q = ps_tunnel ?p"
    obtain t where t: "ps_tunnel ?p = Some t" using q(2) by auto
    have split: "fw_starts w = take i (fw_starts w) @ ?p # drop (Suc i) (fw_starts w)" using i by (rule id_take_nth_drop)
    have "t \<in> set (List.map_filter ps_tunnel (take i (fw_starts w)) @ List.map_filter ps_tunnel (drop (Suc i) (fw_starts w)))"
      using q(1) eq t w'(1) by (force simp: remove_nth_def map_filter_def)
    moreover have "distinct (List.map_filter ps_tunnel (take i (fw_starts w)) @ [t]
        @ List.map_filter ps_tunnel (drop (Suc i) (fw_starts w)))"
    proof -
      have "List.map_filter ps_tunnel (fw_starts w) = List.map_filter ps_tunnel (take i (fw_starts w)) @ [t]
          @ List.map_filter ps_tunnel (drop (Suc i) (fw_starts w))"
        using arg_cong [OF split, of "List.map_filter ps_tunnel"] t by (simp add: map_filter_append List.map_filter_simps)
      with d show ?thesis by (auto simp: locks_def)
    qed
    ultimately show False by auto
  qed
  let ?new = "started_record ?p fid port t"
  have cases: "(a = fid \<and> r = ?new) \<or> (a, r) \<in> set (fw_forwards w)" if "(a, r) \<in> set (fw_forwards w')" for a r
    using that w'(3) by auto
  have uniq: "a = b" if "(a, r) \<in> set (fw_forwards w')" "(b, s) \<in> set (fw_forwards w')" "active_forward r" "active_forward s"
      "fi_tunnel_id (fr_info r) \<noteq> None" "fi_tunnel_id (fr_info r) = fi_tunnel_id (fr_info s)" "fr_origin r = fr_origin s"
    for a r b s
    using cases [OF that(1)] cases [OF that(2)]
  proof (elim disjE conjE)
    assume r: "r = ?new" and s: "(b, s) \<in> set (fw_forwards w)"
    have "fr_origin s \<noteq> ps_origin ?p"
      by (rule fresh [OF s that(4)]) (use that(5,6) in \<open>simp_all add: r\<close>)
    with that(7) show "a = b" by (simp add: r)
  next
    assume r: "(a, r) \<in> set (fw_forwards w)" and s: "s = ?new"
    have "fr_origin r \<noteq> ps_origin ?p"
      by (rule fresh [OF r that(3)]) (use that(5,6) in \<open>simp_all add: s\<close>)
    with that(7) show "a = b" by (simp add: s)
  next
    assume "(a, r) \<in> set (fw_forwards w)" "(b, s) \<in> set (fw_forwards w)"
    with inv that(3-7) show "a = b" unfolding tunnel_inv_def by blast
  qed simp
  have pend: "fr_origin r \<noteq> ps_origin q" if "q \<in> set (fw_starts w')" "(a, r) \<in> set (fw_forwards w')" "active_forward r"
      "ps_tunnel q \<noteq> None" "fi_tunnel_id (fr_info r) = ps_tunnel q" for q a r
    using cases [OF that(2)]
  proof (elim disjE conjE)
    assume "r = ?new"
    then have "ps_tunnel ?p = ps_tunnel q" using that(5) by simp
    with other [OF that(1)] that(4) have False by simp
    then show "fr_origin r \<noteq> ps_origin q" ..
  next
    assume "(a, r) \<in> set (fw_forwards w)"
    moreover have "q \<in> set (fw_starts w)" using that(1) w'(1) in_remove_nth by simp
    ultimately show "fr_origin r \<noteq> ps_origin q" using inv that(3-5) unfolding tunnel_inv_def by blast
  qed
  show ?thesis
    unfolding tunnel_inv_def using uniq pend locks_drop_start [OF d w'(1,2)] by blast
qed

lemma tunnel_start_begin:
  assumes inv: "tunnel_inv w" and free: "case ps_tunnel q of None \<Rightarrow> True | Some t \<Rightarrow> \<not> tunnel_locked t w"
  shows "tunnel_inv (fst (start_begin q w))"
proof (cases "map_of (fw_connections w) (ps_connection q)")
  case None
  with inv show ?thesis by (simp add: start_begin_def)
next
  case (Some c)
  have refreshed: "tunnel_inv (w\<lparr>fw_forwards := refresh_finished_forward_records (fw_forwards w)\<rparr>)"
    by (rule tunnel_keep [OF inv])
      (use inv in \<open>auto simp: tunnel_inv_def locks_def refresh_finished_forward_records_def dest: refresh_active\<close>)
  show ?thesis
  proof (cases "fw_starts (fst (start_begin q w)) = fw_starts w")
    case True
    with Some inv refreshed show ?thesis
      by (auto simp: start_begin_def ensure_connection_session_def Let_def split: option.splits if_splits)
  next
    case False
    let ?p = "q\<lparr>ps_origin := co_origin c, ps_phase := Binding\<rparr>"
    show ?thesis
    proof (cases "ps_tunnel q")
      case None
      with False Some have w': "fst (start_begin q w) = w\<lparr>fw_starts := fw_starts w @ [?p]\<rparr>"
        by (auto simp: start_begin_def ensure_connection_session_def Let_def split: if_splits)
      show ?thesis
        by (rule tunnel_begin [OF inv, of _ id ?p]) (use w' None in \<open>auto simp: hm_map_def\<close>)
    next
      case (Some t)
      with False \<open>map_of _ _ = Some c\<close> have w': "fst (start_begin q w) = w\<lparr>fw_forwards :=
          refresh_finished_forward_records (fw_forwards w), fw_starts := fw_starts w @ [?p]\<rparr>"
        and none: "find_forward_for_tunnel (fw_forwards w) t (Some (co_origin c)) = None"
        by (auto simp: start_begin_def ensure_connection_session_def Let_def split: if_splits option.splits)
      have f: "fr_info (refresh_record r) = fr_info r \<or> \<not> active_forward (refresh_record r)" for r
        by (simp add: refresh_record_def)
      show ?thesis
        by (rule tunnel_begin [OF inv, of _ refresh_record ?p])
          (use w' Some f free find_none [OF none] in
            \<open>auto simp: refresh_finished_forward_records_def dest: refresh_active\<close>)
    qed
  qed
qed

lemma tunnel_apply:
  assumes inv: "fw_inv w" and en: "fw_enabled ev w"
  shows "tunnel_inv (fw_apply ev w)"
proof -
  have ids: "ids_inv w" and t: "tunnel_inv w" using inv by (simp_all add: fw_inv_def)
  then have d: "distinct (locks w)" by (simp add: tunnel_inv_def)
  show ?thesis
  proof (cases ev)
    case (EvBegin q)
    with en show ?thesis using tunnel_start_begin [OF t] by simp
  next
    case (EvBound i b fid tm)
    show ?thesis
    proof (cases "fw_forwards (fw_apply ev w) = fw_forwards w")
      case True
      show ?thesis
        by (rule tunnel_keep [OF t locks_drop_start [OF d, of _ i]])
          (use True EvBound in \<open>auto simp: section_defs split: section_splits dest: in_remove_nth\<close>)
    next
      case False
      then obtain port where "b = Inr port" "map_of (fw_connections w) (ps_connection (fw_starts w ! i)) \<noteq> None"
        using EvBound by (auto simp: section_defs split: section_splits)
      with EvBound en show ?thesis
        by (intro tunnel_publish [OF t, of i _ fid port tm]) (auto simp: section_defs)
    qed
  next
    case (EvRemotePublish i fid tm)
    show ?thesis
    proof (cases "fw_forwards (fw_apply ev w) = fw_forwards w")
      case True
      then show ?thesis
        by (intro tunnel_keep [OF t locks_drop_start [OF d, of _ i]])
          (use True EvRemotePublish en in \<open>auto simp: section_defs split: section_splits dest: in_remove_nth\<close>)
    next
      case False
      then obtain port where "ps_phase (fw_starts w ! i) = AssignedPort port"
          "map_of (fw_connections w) (ps_connection (fw_starts w ! i)) \<noteq> None"
        using EvRemotePublish by (auto simp: section_defs split: section_splits)
      with EvRemotePublish en show ?thesis
        by (intro tunnel_publish [OF t, of i _ fid port tm]) (auto simp: section_defs)
    qed
  next
    case (EvStartFailure tunnel cid stale e fid tm)
    show ?thesis
      by (rule tunnel_keep [OF t])
        (use EvStartFailure d in \<open>auto simp: section_defs locks_def active_forward_def is_active_forward_status_def
           split: section_splits\<close>)
  next
    case (EvStop fid)
    show ?thesis
      by (rule tunnel_keep [OF t]; (rule locks_new_stop [OF d])?)
        (use EvStop en in \<open>auto simp: section_defs split: option.splits Option.bind_splits\<close>)
  next
    case (EvStopTunnel tn og)
    show ?thesis
      by (rule tunnel_keep [OF t]; (rule locks_new_stop [OF d])?)
        (use EvStopTunnel en in \<open>auto simp: section_defs\<close>)
  next
    case (EvRemoteCheck i)
    have "distinct (locks (fw_apply ev w))"
      using EvRemoteCheck en d
      by (auto simp: section_defs locks_start_update [of i w] intro: locks_drop_start [of w _ i])
    then show ?thesis
      by (rule tunnel_keep [OF t])
        (use EvRemoteCheck en in \<open>auto simp: section_defs split: if_splits dest!: in_remove_nth in_update\<close>)
  next
    case (EvRemoteReply i reply)
    have "distinct (locks (fw_apply ev w))"
      using EvRemoteReply en d
      by (auto simp: section_defs locks_start_update [of i w] intro: locks_drop_start [of w _ i] split: sum.splits)
    then show ?thesis
      by (rule tunnel_keep [OF t])
        (use EvRemoteReply en in \<open>auto simp: section_defs split: sum.splits if_splits dest!: in_remove_nth in_update\<close>)
  next
    case (EvTake j)
    have "distinct (locks (fw_apply ev w))"
      using EvTake en d
      by (auto simp: section_defs locks_stop_update [of j w] intro: locks_drop_stop [of w _ j]
          split: list.splits option.splits)
    then show ?thesis
      by (rule tunnel_keep [OF t]) (use EvTake en in \<open>auto simp: section_defs split: section_splits\<close>)
  next
    case (EvLookup j)
    have "distinct (locks (fw_apply ev w))"
      using EvLookup en d by (auto simp: section_defs locks_stop_update [of j w] split: stop_phase.splits)
    then show ?thesis
      by (rule tunnel_keep [OF t]) (use EvLookup en in \<open>auto simp: section_defs split: section_splits\<close>)
  next
    case (EvCancelled j e)
    have "distinct (locks (fw_apply ev w))"
      using EvCancelled en d
      by (auto simp: section_defs locks_stop_update [of j w] intro: locks_drop_stop [of w _ j]
          split: stop_phase.splits option.splits)
    then show ?thesis
      by (rule tunnel_keep [OF t]) (use EvCancelled en in \<open>auto simp: section_defs split: section_splits\<close>)
  next
    case EvShutdownStep
    show ?thesis
      by (rule tunnel_keep [OF t])
        (use EvShutdownStep d in \<open>auto simp: section_defs locks_def split: section_splits\<close>)
  qed (rule tunnel_keep [OF t]; use d in \<open>fastforce simp: section_defs locks_def split: section_splits
        dest: refresh_active\<close>)+
qed

lemma shutdown_keep:
  assumes "shutdown_inv w" "fw_shutdown w' = fw_shutdown w"
    and "fw_shutdown w \<noteq> None \<Longrightarrow> fw_starts w = [] \<Longrightarrow> fw_starts w' = []"
    and "\<And>fid r. (fid, r) \<in> set (fw_forwards w') \<Longrightarrow> active_forward r \<Longrightarrow> fw_shutdown w \<noteq> None \<Longrightarrow> fw_starts w = [] \<Longrightarrow>
      \<exists>fid r. (fid, r) \<in> set (fw_forwards w) \<and> active_forward r"
  shows "shutdown_inv w'"
proof (cases "fw_shutdown w")
  case None
  with assms(2) show ?thesis by (simp add: shutdown_inv_def)
next
  case (Some ph)
  with assms(1) have s: "fw_starts w = []" by (auto simp: shutdown_inv_def split: shutdown_phase.splits)
  with assms(3) Some have s': "fw_starts w' = []" by simp
  show ?thesis
  proof (cases ph)
    case (ClosingConnections c ids)
    with Some assms(2) s' show ?thesis by (simp add: shutdown_inv_def)
  next
    case (OrphanForwards rs)
    with Some assms(1) have "\<not> active_forward r" if "(fid, r) \<in> set (fw_forwards w)" for fid r
      using that by (auto simp: shutdown_inv_def)
    with assms(4) Some s have "\<not> active_forward r" if "(fid, r) \<in> set (fw_forwards w')" for fid r
      using that by blast
    with Some OrphanForwards assms(2) s' show ?thesis by (simp add: shutdown_inv_def)
  next
    case OrphanConnections
    with Some assms(1) have "\<not> active_forward r" if "(fid, r) \<in> set (fw_forwards w)" for fid r
      using that by (auto simp: shutdown_inv_def)
    with assms(4) Some s have "\<not> active_forward r" if "(fid, r) \<in> set (fw_forwards w')" for fid r
      using that by blast
    with Some OrphanConnections assms(2) s' show ?thesis by (simp add: shutdown_inv_def)
  qed
qed

lemma shutdown_apply:
  assumes inv: "fw_inv w" and en: "fw_enabled ev w"
  shows "shutdown_inv (fw_apply ev w)"
proof -
  have sd: "shutdown_inv w" using inv by (simp add: fw_inv_def)
  show ?thesis
  proof (cases ev)
    case EvShutdown
    with en show ?thesis by (simp add: shutdown_begin_def shutdown_inv_def)
  next
    case EvShutdownStep
    with sd show ?thesis
      by (auto simp: shutdown_step_def shutdown_inv_def split: option.splits shutdown_phase.splits list.splits)
  next
    case EvList
    show ?thesis
      by (rule shutdown_keep [OF sd]) (use EvList in \<open>auto simp: section_defs dest: refresh_active\<close>)
  next
    case (EvStartFailure tunnel cid stale e fid t)
    with en sd show ?thesis by (simp add: shutdown_inv_def section_defs split: option.splits)
  next
    case (EvCancelled j e)
    show ?thesis
      by (rule shutdown_keep [OF sd]) (use EvCancelled in \<open>auto simp: section_defs split: section_splits\<close>)
  next
    case (EvTake j)
    show ?thesis
      by (rule shutdown_keep [OF sd]) (use EvTake in \<open>auto simp: section_defs split: section_splits\<close>)
  next
    case (EvBegin q)
    with en have "fw_shutdown w = None" by simp
    then show ?thesis using EvBegin by (auto simp: shutdown_inv_def section_defs split: section_splits)
  qed (rule shutdown_keep [OF sd]; use en in \<open>force simp: section_defs split: section_splits\<close>)+
qed

text \<open>The identifiers of records, in the map or held by a stop.\<close>

lemma map_filter_nth:
  assumes "i < length xs"
  shows "List.map_filter f xs = List.map_filter f (take i xs) @ (case f (xs ! i) of None \<Rightarrow> [] | Some v \<Rightarrow> [v])
      @ List.map_filter f (drop (Suc i) xs)"
proof -
  have "List.map_filter f (take i xs @ xs ! i # drop (Suc i) xs) = List.map_filter f (take i xs)
      @ (case f (xs ! i) of None \<Rightarrow> [] | Some v \<Rightarrow> [v]) @ List.map_filter f (drop (Suc i) xs)"
    by (simp add: map_filter_append List.map_filter_simps split: option.splits)
  then show ?thesis using id_take_nth_drop [OF assms] by simp
qed

lemma map_filter_set_nth:
  assumes "i < length xs"
  shows "List.map_filter f (xs[i := y]) = List.map_filter f (take i xs) @ (case f y of None \<Rightarrow> [] | Some v \<Rightarrow> [v])
      @ List.map_filter f (drop (Suc i) xs)"
  using map_filter_nth [of i "xs[i := y]" f] assms by simp

lemma map_filter_drop_nth:
  "List.map_filter f (remove_nth i xs) = List.map_filter f (take i xs) @ List.map_filter f (drop (Suc i) xs)"
  by (simp add: remove_nth_def map_filter_append)

lemma fid_keep:
  assumes "fid_inv w" "held_fids w' = held_fids w" "set (fw_issued w) \<subseteq> set (fw_issued w')"
    and "distinct (map fst (fw_forwards w'))" "fst ` set (fw_forwards w') \<subseteq> fst ` set (fw_forwards w)"
  shows "fid_inv w'"
proof -
  have "fst ` set (fw_forwards w') \<subseteq> set (fw_issued w')" using assms(1,3,5) unfolding fid_inv_def by (meson Un_subset_iff order_trans)
  moreover have "fst ` set (fw_forwards w') \<inter> set (held_fids w) = {}" using assms(1,5) unfolding fid_inv_def by auto
  ultimately show ?thesis using assms by (auto simp: fid_inv_def)
qed

lemma held_split:
  assumes "j < length (fw_stops w)"
  shows "\<exists>us vs. held_fids w = us @ (case stop_fid (sj_phase (fw_stops w ! j)) of None \<Rightarrow> [] | Some v \<Rightarrow> [v]) @ vs
    \<and> (\<forall>w' s. fw_stops w' = (fw_stops w)[j := s] \<longrightarrow>
         held_fids w' = us @ (case stop_fid (sj_phase s) of None \<Rightarrow> [] | Some v \<Rightarrow> [v]) @ vs)
    \<and> (\<forall>w'. fw_stops w' = remove_nth j (fw_stops w) \<longrightarrow> held_fids w' = us @ vs)"
proof -
  let ?f = "\<lambda>s. stop_fid (sj_phase s)"
  show ?thesis
    by (rule exI [of _ "List.map_filter ?f (take j (fw_stops w))"],
        rule exI [of _ "List.map_filter ?f (drop (Suc j) (fw_stops w))"])
      (simp add: held_fids_def map_filter_set_nth [OF assms] map_filter_nth [OF assms] map_filter_drop_nth)
qed

lemma fid_publish:
  assumes "fid_inv w" "fid \<notin> set (fw_issued w)" "fw_forwards w' = hm_insert fid r (fw_forwards w)"
    "fw_issued w' = fid # fw_issued w" "fw_stops w' = fw_stops w"
  shows "fid_inv w'"
  using assms by (auto simp: fid_inv_def held_fids_def keys_hm_insert hm_insert_def keys_hm_remove key_in_remove)

lemma fid_stops:
  assumes "fid_inv w" "j < length (fw_stops w)" "stop_fid (sj_phase (fw_stops w ! j)) = None"
    "fid \<in> fst ` set (fw_forwards w)" "fw_forwards w' = hm_remove fid (fw_forwards w)" "fw_issued w' = fw_issued w"
    "fw_stops w' = (fw_stops w)[j := s]" "stop_fid (sj_phase s) = None \<or> stop_fid (sj_phase s) = Some fid"
  shows "fid_inv w'"
proof -
  obtain us vs where u: "held_fids w = us @ vs"
    "held_fids w' = us @ (case stop_fid (sj_phase s) of None \<Rightarrow> [] | Some v \<Rightarrow> [v]) @ vs"
    using held_split [OF assms(2)] assms(3,7) by fastforce
  have keys: "distinct (map fst (fw_forwards w'))" "fst ` set (fw_forwards w') = fst ` set (fw_forwards w) - {fid}"
    using assms(1,5) by (simp_all only: key_in_remove keys_hm_remove fid_inv_def distinct_append)
  from assms(1) u assms(4,6,8) keys show ?thesis by (auto simp: fid_inv_def)
qed

lemma fid_return:
  assumes "fid_inv w" "j < length (fw_stops w)" "stop_fid (sj_phase (fw_stops w ! j)) = Some fid"
    "fw_forwards w' = hm_insert fid r (fw_forwards w)" "fw_issued w' = fw_issued w"
    "fw_stops w' = remove_nth j (fw_stops w)"
  shows "fid_inv w'"
proof -
  obtain us vs where u: "held_fids w = us @ fid # vs" "held_fids w' = us @ vs"
    using held_split [OF assms(2)] assms(3,6) by fastforce
  have keys: "distinct (map fst (fw_forwards w'))" "fst ` set (fw_forwards w') = insert fid (fst ` set (fw_forwards w))"
    using assms(1) by (simp_all only: fid_inv_def distinct_append assms(4) keys_hm_insert key_in_insert)
  from assms(1) u assms(5) keys show ?thesis by (auto simp: fid_inv_def)
qed

lemma fid_release:
  assumes "fid_inv w" "j < length (fw_stops w)" "fw_forwards w' = fw_forwards w" "fw_issued w' = fw_issued w"
    "fw_stops w' = (fw_stops w)[j := s]" "stop_fid (sj_phase s) = None \<or> stop_fid (sj_phase s) = stop_fid (sj_phase (fw_stops w ! j))"
  shows "fid_inv w'"
proof -
  obtain us vs where u: "held_fids w = us @ (case stop_fid (sj_phase (fw_stops w ! j)) of None \<Rightarrow> [] | Some v \<Rightarrow> [v]) @ vs"
    "held_fids w' = us @ (case stop_fid (sj_phase s) of None \<Rightarrow> [] | Some v \<Rightarrow> [v]) @ vs"
    using held_split [OF assms(2)] assms(5) by metis
  from assms(1,3,4,6) u show ?thesis by (auto simp: fid_inv_def split: option.splits)
qed

lemma fid_drop:
  assumes "fid_inv w" "fw_forwards w' = fw_forwards w" "fw_issued w' = fw_issued w"
    "fw_stops w' = remove_nth j (fw_stops w)" "j < length (fw_stops w)"
  shows "fid_inv w'"
proof -
  obtain us vs where u: "held_fids w = us @ (case stop_fid (sj_phase (fw_stops w ! j)) of None \<Rightarrow> [] | Some v \<Rightarrow> [v]) @ vs"
    "held_fids w' = us @ vs"
    using held_split [OF assms(5)] assms(4) by metis
  from assms(1-3) u show ?thesis by (auto simp: fid_inv_def split: option.splits)
qed

lemma fid_apply:
  assumes inv: "fw_inv w" and en: "fw_enabled ev w"
  shows "fid_inv (fw_apply ev w)"
proof -
  have f: "fid_inv w" using inv by (simp add: fw_inv_def)
  then have d: "distinct (map fst (fw_forwards w))" by (simp add: fid_inv_def)
  show ?thesis
  proof (cases ev)
    case (EvBound i b fid t)
    show ?thesis
    proof (cases "fw_issued (fw_apply ev w) = fw_issued w")
      case True
      show ?thesis
        by (rule fid_keep [OF f]) (use True d EvBound in \<open>auto simp: section_defs held_fids_def split: section_splits\<close>)
    next
      case False
      with EvBound en show ?thesis
        by (auto simp: section_defs split: section_splits intro: fid_publish [OF f, of fid])
    qed
  next
    case (EvRemotePublish i fid t)
    show ?thesis
    proof (cases "fw_issued (fw_apply ev w) = fw_issued w")
      case True
      show ?thesis
        by (rule fid_keep [OF f]) (use True d EvRemotePublish in \<open>auto simp: section_defs held_fids_def split: section_splits\<close>)
    next
      case False
      with EvRemotePublish en show ?thesis
        by (auto simp: section_defs split: section_splits intro: fid_publish [OF f, of fid])
    qed
  next
    case (EvStartFailure tunnel cid stale e fid t)
    with en f show ?thesis
      by (auto simp: section_defs split: section_splits intro: fid_publish [OF f, of fid])
  next
    case (EvTake j)
    with en have j: "j < length (fw_stops w)" "stop_fid (sj_phase (fw_stops w ! j)) = None" by auto
    show ?thesis
    proof (cases "fw_forwards (fw_apply ev w) = fw_forwards w")
      case True
      with EvTake j show ?thesis
        by (auto simp: section_defs split: section_splits intro: fid_drop [OF f _ _ _ j(1)] fid_release [OF f j(1)])
    next
      case False
      with EvTake j show ?thesis
        by (auto simp: section_defs split: section_splits dest: map_of_SomeD
            intro!: fid_stops [OF f j] intro: rev_image_eqI)
    qed
  next
    case (EvLookup j)
    with en f show ?thesis
      by (auto simp: section_defs split: section_splits intro: fid_release [OF f, of j])
  next
    case (EvCancelled j e)
    with en f show ?thesis
      by (auto simp: section_defs split: section_splits intro: fid_release [OF f, of j] fid_return [OF f, of j])
  next
    case (EvStop fid)
    then show ?thesis
      by (intro fid_keep [OF f]) (use d in \<open>auto simp: section_defs held_fids_def map_filter_snoc\<close>)
  next
    case (EvStopTunnel t og)
    then show ?thesis
      by (intro fid_keep [OF f]) (use d in \<open>auto simp: section_defs held_fids_def map_filter_snoc\<close>)
  qed (rule fid_keep [OF f]; use d in \<open>force simp: section_defs held_fids_def keys_hm_remove split: section_splits\<close>)+
qed

text \<open>The owners of keys.\<close>

lemma set_update_other: "x \<in> set xs \<Longrightarrow> x = xs ! i \<or> x \<in> set (xs[i := y])"
  by (metis in_set_conv_nth length_list_update nth_list_update_neq)

lemma set_remove_other: "x \<in> set xs \<Longrightarrow> x = xs ! i \<or> x \<in> set (remove_nth i xs)"
proof (cases "i < length xs")
  case True
  assume "x \<in> set xs"
  then have "x \<in> set (take i xs @ xs ! i # drop (Suc i) xs)" using id_take_nth_drop [OF True] by simp
  then show ?thesis by (auto simp: remove_nth_def)
qed (simp add: remove_nth_def)

lemma held_forward: "(fid, r) \<in> set (fw_forwards w) \<Longrightarrow> r \<in> held_records w"
  by (force simp: held_records_def)

lemma held_stop: "s \<in> set (fw_stops w) \<Longrightarrow> stop_holds (sj_phase s) = Some r \<Longrightarrow> r \<in> held_records w"
  by (auto simp: held_records_def)

lemma held_orphan: "fw_shutdown w = Some (OrphanForwards rs) \<Longrightarrow> r \<in> set rs \<Longrightarrow> r \<in> held_records w"
  by (auto simp: held_records_def)

lemma heldE:
  assumes "r \<in> held_records w"
  obtains (forward) fid where "(fid, r) \<in> set (fw_forwards w)"
    | (stop) s where "s \<in> set (fw_stops w)" "stop_holds (sj_phase s) = Some r"
    | (orphan) rs where "fw_shutdown w = Some (OrphanForwards rs)" "r \<in> set rs"
  using assms by (auto simp: held_records_def split: option.splits shutdown_phase.splits)

lemma owned_start: "p \<in> set (fw_starts w) \<Longrightarrow> start_holds p = Some key \<Longrightarrow> key_owned w key"
  by (auto simp: key_owned_def)

lemma owned_record: "r \<in> held_records w \<Longrightarrow> is_remote_listener r \<Longrightarrow> record_key r = key \<Longrightarrow> key_owned w key"
  by (auto simp: key_owned_def)

lemma owned_forward: "(fid, r) \<in> set (fw_forwards w) \<Longrightarrow> is_remote_listener r \<Longrightarrow> key_owned w (record_key r)"
  by (rule owned_record [OF held_forward]) simp_all

lemma owned_stop: "s \<in> set (fw_stops w) \<Longrightarrow> stop_holds (sj_phase s) = Some r \<Longrightarrow> is_remote_listener r \<Longrightarrow>
    key_owned w (record_key r)"
  by (rule owned_record [OF held_stop]) simp_all

lemma owned_orphan: "fw_shutdown w = Some (OrphanForwards rs) \<Longrightarrow> r \<in> set rs \<Longrightarrow> is_remote_listener r \<Longrightarrow>
    key_owned w (record_key r)"
  by (rule owned_record [OF held_orphan]) simp_all

lemma owned_mono:
  assumes "key_owned w key"
    and "\<And>p. p \<in> set (fw_starts w) \<Longrightarrow> start_holds p = Some key \<Longrightarrow> key_owned w' key"
    and "\<And>fid r. (fid, r) \<in> set (fw_forwards w) \<Longrightarrow> is_remote_listener r \<Longrightarrow> record_key r = key \<Longrightarrow> key_owned w' key"
    and "\<And>s r. s \<in> set (fw_stops w) \<Longrightarrow> stop_holds (sj_phase s) = Some r \<Longrightarrow> is_remote_listener r \<Longrightarrow> record_key r = key \<Longrightarrow>
      key_owned w' key"
    and "\<And>rs r. fw_shutdown w = Some (OrphanForwards rs) \<Longrightarrow> r \<in> set rs \<Longrightarrow> is_remote_listener r \<Longrightarrow> record_key r = key \<Longrightarrow>
      key_owned w' key"
  shows "key_owned w' key"
proof -
  from assms(1) consider (start) p where "p \<in> set (fw_starts w)" "start_holds p = Some key"
    | (rec) r where "r \<in> held_records w" "is_remote_listener r" "record_key r = key"
    unfolding key_owned_def by blast
  then show ?thesis
  proof cases
    case (rec r)
    from rec(1) show ?thesis by (cases rule: heldE) (use assms(3-5) rec(2,3) in blast)+
  qed (rule assms(2))
qed

lemma remote_keep:
  assumes "remote_inv w"
    and "\<And>p. p \<in> set (fw_starts w') \<Longrightarrow> ps_phase p \<noteq> Binding \<Longrightarrow> ps_type p = RemoteForward"
    and "fst ` set (fw_connections w') \<subseteq> fst ` set (fw_connections w)"
    and "\<And>key t. (key, t) \<in> set (fw_remote w') \<Longrightarrow> (\<exists>t. (key, t) \<in> set (fw_remote w)) \<or> key_owned w' key"
    and "\<And>key t. key_owned w key \<Longrightarrow> (key, t) \<in> set (fw_remote w') \<Longrightarrow> fst key \<in> fst ` set (fw_connections w') \<Longrightarrow>
      key_owned w' key"
  shows "remote_inv w'"
proof -
  have "key_owned w' (cid, k)" if a: "((cid, k), t) \<in> set (fw_remote w')" "(cid, c) \<in> set (fw_connections w')" for cid k t c
  proof -
    have live: "cid \<in> fst ` set (fw_connections w')" using a(2) by force
    then obtain c' where c': "(cid, c') \<in> set (fw_connections w)" using assms(3) by force
    from assms(4) [OF a(1)] show ?thesis
    proof
      assume "\<exists>t. ((cid, k), t) \<in> set (fw_remote w)"
      with c' assms(1) have "key_owned w (cid, k)" unfolding remote_inv_def by blast
      with assms(5) a(1) live show ?thesis by simp
    qed
  qed
  with assms(2) show ?thesis unfolding remote_inv_def by blast
qed

lemma owned_sub:
  assumes "key_owned w key" "set (fw_starts w) \<subseteq> set (fw_starts w')" "set (fw_stops w) \<subseteq> set (fw_stops w')"
    and "\<And>fid r. (fid, r) \<in> set (fw_forwards w) \<Longrightarrow> is_remote_listener r \<Longrightarrow> key_owned w' (record_key r)"
    and "fw_shutdown w' = fw_shutdown w \<or> fw_shutdown w = None"
  shows "key_owned w' key"
  by (rule owned_mono [OF assms(1)]) (use assms(2-5) in \<open>auto intro: owned_start owned_stop owned_orphan\<close>)

lemma remote_shutdown_step:
  assumes rm: "remote_inv w"
  shows "remote_inv (shutdown_step w)"
proof -
  let ?w = "shutdown_step w"
  have ph: "ps_type p = RemoteForward" if "p \<in> set (fw_starts w)" "ps_phase p \<noteq> Binding" for p
    using rm that by (simp add: remote_inv_def)
  consider (none) "fw_shutdown w = None" | (close) c cid ids where "fw_shutdown w = Some (ClosingConnections c (cid # ids))"
    | (drain) c where "fw_shutdown w = Some (ClosingConnections c [])"
    | (orphan) r rs where "fw_shutdown w = Some (OrphanForwards (r # rs))"
    | (orphans) "fw_shutdown w = Some (OrphanForwards [])" | (conns) "fw_shutdown w = Some OrphanConnections"
    by (metis option.exhaust shutdown_phase.exhaust list.exhaust)
  then show ?thesis
  proof cases
    case none
    with rm show ?thesis by (simp add: shutdown_step_def)
  next
    case close
    have "key_owned ?w key" if "key_owned w key" for key
      by (rule owned_mono [OF that])
        (use close owned_start [of _ ?w key] owned_forward [of _ _ ?w] owned_stop [of _ ?w] in \<open>auto simp: shutdown_step_def\<close>)
    then show ?thesis
      by (intro remote_keep [OF rm])
        (use close ph in \<open>auto simp: shutdown_step_def connection_closed_def split: option.splits\<close>)
  next
    case drain
    have "key_owned ?w key" if "key_owned w key" for key
    proof (rule owned_mono [OF that])
      fix f r assume fr: "(f, r) \<in> set (fw_forwards w)" "is_remote_listener r" "record_key r = key"
      then have "r \<in> set (map snd (fw_forwards w))" by force
      with drain have "key_owned ?w (record_key r)"
        by (intro owned_orphan [of _ "map snd (fw_forwards w)"]) (use fr in \<open>auto simp: shutdown_step_def\<close>)
      with fr show "key_owned ?w key" by simp
    qed (use drain owned_start [of _ ?w key] owned_stop [of _ ?w] in \<open>auto simp: shutdown_step_def\<close>)
    then show ?thesis
      by (intro remote_keep [OF rm]) (use drain ph in \<open>auto simp: shutdown_step_def\<close>)
  next
    case (orphan r rs)
    have own: "key_owned ?w key" if o: "key_owned w key" "key \<noteq> record_key r \<or> \<not> is_remote_listener r" for key
      by (rule owned_mono [OF o(1)])
        (use o(2) orphan owned_start [of _ ?w key] owned_forward [of _ _ ?w] owned_stop [of _ ?w] owned_orphan [of ?w] in
          \<open>auto simp: shutdown_step_def\<close>)
    show ?thesis
    proof (rule remote_keep [OF rm])
      fix key t assume k: "key_owned w key" "(key, t) \<in> set (fw_remote ?w)" "fst key \<in> fst ` set (fw_connections ?w)"
      have "key \<noteq> record_key r \<or> \<not> is_remote_listener r"
        using k(2,3) orphan by (auto simp: shutdown_step_def record_key_def map_of_eq_None_iff image_iff split: if_splits)
      with own k(1) show "key_owned ?w key" by blast
    qed (use orphan ph in \<open>auto simp: shutdown_step_def split: if_splits\<close>)
  next
    case orphans
    have "key_owned ?w key" if "key_owned w key" for key
      by (rule owned_mono [OF that])
        (use orphans owned_start [of _ ?w key] owned_forward [of _ _ ?w] owned_stop [of _ ?w] in \<open>auto simp: shutdown_step_def\<close>)
    then show ?thesis
      by (intro remote_keep [OF rm]) (use orphans ph in \<open>auto simp: shutdown_step_def\<close>)
  next
    case conns
    with ph show ?thesis by (auto simp: remote_inv_def shutdown_step_def)
  qed
qed

lemma remote_apply:
  assumes inv: "fw_inv w" and en: "fw_enabled ev w"
  shows "remote_inv (fw_apply ev w)"
proof -
  have ids: "ids_inv w" and rm: "remote_inv w" using inv by (simp_all add: fw_inv_def)
  have ph: "ps_type p = RemoteForward" if "p \<in> set (fw_starts w)" "ps_phase p \<noteq> Binding" for p
    using rm that by (simp add: remote_inv_def)
  have keys: "distinct (map fst (fw_forwards w))" and fids: "f \<in> set (fw_issued w)" if "(f, r) \<in> set (fw_forwards w)" for f r
    using inv that by (auto simp: fw_inv_def fid_inv_def)
  let ?w = "fw_apply ev w"
  show ?thesis
  proof (cases ev)
    case (EvOpen cid c)
    have "key_owned ?w key" if "key_owned w key" for key
      by (rule owned_sub [OF that]) (use EvOpen en in \<open>auto simp: section_defs intro: owned_forward\<close>)
    with EvOpen en rm ids show ?thesis
      by (auto simp: remote_inv_def section_defs ids_inv_def) blast+
  next
    case (EvClose cid)
    have "key_owned ?w key" if "key_owned w key" for key
      by (rule owned_sub [OF that]) (use EvClose en in \<open>auto simp: connection_closed_def intro: owned_forward split: option.splits\<close>)
    then show ?thesis
      by (intro remote_keep [OF rm]) (use EvClose ph in \<open>auto simp: section_defs split: option.splits\<close>)
  next
    case (EvBegin q)
    have "key_owned ?w key" if "key_owned w key" for key
    proof (rule owned_sub [OF that])
      fix f r assume "(f, r) \<in> set (fw_forwards w)" "is_remote_listener r"
      then have "(f, r) \<in> set (fw_forwards ?w) \<or> (f, refresh_record r) \<in> set (fw_forwards ?w)"
        using EvBegin by (force simp: section_defs split: section_splits)
      then show "key_owned ?w (record_key r)"
        using owned_forward [of f r ?w] owned_forward [of f "refresh_record r" ?w] \<open>is_remote_listener r\<close> by auto
    qed (use EvBegin in \<open>auto simp: section_defs split: section_splits\<close>)
    then show ?thesis
      by (intro remote_keep [OF rm]) (use EvBegin ph in \<open>auto simp: section_defs split: section_splits\<close>)
  next
    case (EvStop fid)
    have "key_owned ?w key" if "key_owned w key" for key
      by (rule owned_sub [OF that]) (use EvStop en in \<open>auto simp: section_defs intro: owned_forward\<close>)
    then show ?thesis
      by (intro remote_keep [OF rm]) (use EvStop ph in \<open>auto simp: section_defs\<close>)
  next
    case (EvStopTunnel t og)
    have "key_owned ?w key" if "key_owned w key" for key
      by (rule owned_sub [OF that]) (use EvStopTunnel en in \<open>auto simp: section_defs intro: owned_forward\<close>)
    then show ?thesis
      by (intro remote_keep [OF rm]) (use EvStopTunnel ph in \<open>auto simp: section_defs\<close>)
  next
    case EvShutdown
    have "key_owned ?w key" if "key_owned w key" for key
      by (rule owned_sub [OF that]) (use EvShutdown en in \<open>auto simp: section_defs intro: owned_forward\<close>)
    then show ?thesis
      by (intro remote_keep [OF rm]) (use EvShutdown ph in \<open>auto simp: section_defs\<close>)
  next
    case (EvListenerFailed fid e)
    have "key_owned ?w key" if "key_owned w key" for key
    proof (rule owned_sub [OF that])
      fix f r assume "(f, r) \<in> set (fw_forwards w)" "is_remote_listener r"
      then show "key_owned ?w (record_key r)"
        using owned_forward [of f "if f = fid \<and> active_forward r then fail_forward e r else r" ?w] EvListenerFailed
        by (force simp: section_defs split: if_splits)
    qed (use EvListenerFailed in \<open>auto simp: section_defs\<close>)
    then show ?thesis
      by (intro remote_keep [OF rm]) (use EvListenerFailed ph in \<open>auto simp: section_defs\<close>)
  next
    case (EvTaskEnded fid)
    have "key_owned ?w key" if "key_owned w key" for key
    proof (rule owned_sub [OF that])
      fix f r assume "(f, r) \<in> set (fw_forwards w)" "is_remote_listener r"
      then show "key_owned ?w (record_key r)"
        using owned_forward [of f "if f = fid then r\<lparr>fr_task := map_option (\<lambda>_. True) (fr_task r)\<rparr> else r" ?w] EvTaskEnded by (force simp: section_defs split: if_splits)
    qed (use EvTaskEnded in \<open>auto simp: section_defs\<close>)
    then show ?thesis
      by (intro remote_keep [OF rm]) (use EvTaskEnded ph in \<open>auto simp: section_defs\<close>)
  next
    case EvList
    have "key_owned ?w key" if "key_owned w key" for key
    proof (rule owned_sub [OF that])
      fix f r assume "(f, r) \<in> set (fw_forwards w)" "is_remote_listener r"
      then show "key_owned ?w (record_key r)"
        using owned_forward [of f "refresh_record r" ?w] EvList by (force simp: section_defs)
    qed (use EvList in \<open>auto simp: section_defs\<close>)
    then show ?thesis
      by (intro remote_keep [OF rm]) (use EvList ph in \<open>auto simp: section_defs\<close>)
  next
    case (EvBound i b fid t)
    have nb: "start_holds (fw_starts w ! i) = None"
      using ph [of "fw_starts w ! i"] EvBound en by (auto simp: start_holds.simps split: start_phase.splits)
    have "key_owned ?w key" if "key_owned w key" for key
    proof (rule owned_mono [OF that])
      fix p assume p: "p \<in> set (fw_starts w)" "start_holds p = Some key"
      then have "p \<in> set (fw_starts ?w)"
        using set_remove_other [of p "fw_starts w" i] nb EvBound by (auto simp: section_defs split: section_splits)
      then show "key_owned ?w key" using p(2) by (rule owned_start)
    next
      fix f r assume "(f, r) \<in> set (fw_forwards w)" "is_remote_listener r" "record_key r = key"
      moreover from this have "f \<noteq> fid" using fids EvBound en by auto
      ultimately show "key_owned ?w key"
        using owned_forward [of f r ?w] EvBound by (auto simp: section_defs split: section_splits)
    qed (use EvBound owned_stop [of _ ?w] owned_orphan [of ?w] in \<open>auto simp: section_defs split: section_splits\<close>)
    then show ?thesis
      by (intro remote_keep [OF rm])
        (use EvBound ph in \<open>auto simp: section_defs split: section_splits dest: in_remove_nth\<close>)
  next
    case (EvSendFailed fid)
    have "key_owned ?w key" if "key_owned w key" for key
    proof (rule owned_sub [OF that])
      fix f r assume fr: "(f, r) \<in> set (fw_forwards w)" "is_remote_listener r"
      have "f \<noteq> fid"
        using fr EvSendFailed en keys by (auto simp: is_remote_listener_def map_of_is_SomeI)
      with fr show "key_owned ?w (record_key r)"
        using owned_forward [of f r ?w] EvSendFailed by (auto simp: section_defs)
    qed (use EvSendFailed in \<open>auto simp: section_defs\<close>)
    then show ?thesis
      by (intro remote_keep [OF rm]) (use EvSendFailed ph in \<open>auto simp: section_defs\<close>)
  next
    case (EvStartFailure tunnel cid stale e fid t)
    have "key_owned ?w key" if "key_owned w key" for key
    proof (rule owned_sub [OF that])
      fix f r assume "(f, r) \<in> set (fw_forwards w)" "is_remote_listener r"
      moreover from this have "f \<noteq> fid" using fids EvStartFailure en by auto
      ultimately show "key_owned ?w (record_key r)"
        using owned_forward [of f r ?w] EvStartFailure by (auto simp: section_defs split: section_splits)
    qed (use EvStartFailure in \<open>auto simp: section_defs split: section_splits\<close>)
    then show ?thesis
      by (intro remote_keep [OF rm]) (use EvStartFailure ph in \<open>auto simp: section_defs split: section_splits\<close>)
  next
    case (EvCleanup cid)
    have dead: "cid \<notin> fst ` set (fw_connections w)" using EvCleanup en ids by (auto simp: ids_inv_def)
    show ?thesis
    proof (rule remote_keep [OF rm])
      fix key t assume k: "key_owned w key" "fst key \<in> fst ` set (fw_connections ?w)"
      then have ne: "fst key \<noteq> cid" using dead EvCleanup by (auto simp: section_defs)
      show "key_owned ?w key"
      proof (rule owned_mono [OF k(1)])
        fix f r assume fr: "(f, r) \<in> set (fw_forwards w)" "is_remote_listener r" "record_key r = key"
        then have "(f, r) \<in> set (fw_forwards ?w)" using ne EvCleanup by (auto simp: section_defs record_key_def)
        from owned_forward [OF this fr(2)] fr(3) show "key_owned ?w key" by simp
      qed (use EvCleanup owned_start [of _ ?w key] owned_stop [of _ ?w] owned_orphan [of ?w] in \<open>auto simp: section_defs\<close>)
    qed (use EvCleanup ph in \<open>auto simp: section_defs\<close>)
  next
    case (EvRemoteCheck i)
    let ?p = "fw_starts w ! i"
    have nb: "start_holds ?p = None" "ps_type ?p = RemoteForward" "i < length (fw_starts w)"
      using EvRemoteCheck en by (auto simp: start_holds.simps)
    have own: "key_owned ?w key" if "key_owned w key" for key
    proof (rule owned_mono [OF that])
      fix p assume p: "p \<in> set (fw_starts w)" "start_holds p = Some key"
      then have "p \<noteq> ?p" using nb by auto
      then have "p \<in> set (fw_starts ?w)"
        using p(1) set_remove_other [of p "fw_starts w" i] set_update_other [of p "fw_starts w" i] EvRemoteCheck
        by (auto simp: section_defs)
      then show "key_owned ?w key" using p(2) by (rule owned_start)
    qed (use EvRemoteCheck owned_forward [of _ _ ?w] owned_stop [of _ ?w] owned_orphan [of ?w] in \<open>auto simp: section_defs\<close>)
    show ?thesis
    proof (rule remote_keep [OF rm])
      fix key t assume k: "(key, t) \<in> set (fw_remote ?w)"
      show "(\<exists>t. (key, t) \<in> set (fw_remote w)) \<or> key_owned ?w key"
      proof (cases "\<exists>t. (key, t) \<in> set (fw_remote w)")
        case False
        then have "key = start_key ?p" "?p\<lparr>ps_phase := Requesting\<rparr> \<in> set (fw_starts ?w)"
          using k EvRemoteCheck nb(3) by (auto simp: section_defs split: if_splits intro: set_update_memI)
        then show ?thesis using owned_start [of _ ?w] by (force simp: start_holds.simps start_key_def)
      qed simp
    qed (use own EvRemoteCheck ph nb in \<open>auto simp: section_defs dest!: in_remove_nth in_update split: if_splits\<close>)
  next
    case (EvRemoteReply i reply)
    let ?p = "fw_starts w ! i"
    have hp: "start_holds ?p = Some (start_key ?p)" "i < length (fw_starts w)" "ps_type ?p = RemoteForward"
      using EvRemoteReply en ph [of ?p] by (auto simp: start_holds.simps)
    have own: "key_owned ?w key" if o: "key_owned w key" and ne: "key \<noteq> start_key ?p" for key
    proof (rule owned_mono [OF o])
      fix p assume p: "p \<in> set (fw_starts w)" "start_holds p = Some key"
      then have "p \<noteq> ?p" using hp ne by auto
      then have "p \<in> set (fw_starts ?w)"
        using p(1) set_remove_other [of p "fw_starts w" i] set_update_other [of p "fw_starts w" i] EvRemoteReply
        by (auto simp: section_defs split: sum.splits)
      then show "key_owned ?w key" using p(2) by (rule owned_start)
    qed (use EvRemoteReply owned_forward [of _ _ ?w] owned_stop [of _ ?w] owned_orphan [of ?w] in
          \<open>auto simp: section_defs split: sum.splits\<close>)
    show ?thesis
    proof (cases "\<exists>port. fw_starts ?w = (fw_starts w)[i := ?p\<lparr>ps_phase := AssignedPort port\<rparr>]
        \<and> fw_remote ?w = (if port \<noteq> ps_bind_port ?p then hm_insert (ps_connection ?p, forward_key (ps_bind_host ?p) port)
             \<lparr>ft_local_host = ps_target_host ?p, ft_local_port = ps_target_port ?p\<rparr> (hm_remove (start_key ?p) (fw_remote w))
           else fw_remote w)")
      case True
      then obtain port where st: "fw_starts ?w = (fw_starts w)[i := ?p\<lparr>ps_phase := AssignedPort port\<rparr>]"
        and re: "fw_remote ?w = (if port \<noteq> ps_bind_port ?p then hm_insert (ps_connection ?p, forward_key (ps_bind_host ?p) port)
             \<lparr>ft_local_host = ps_target_host ?p, ft_local_port = ps_target_port ?p\<rparr> (hm_remove (start_key ?p) (fw_remote w))
           else fw_remote w)" by blast
      have "?p\<lparr>ps_phase := AssignedPort port\<rparr> \<in> set (fw_starts ?w)" using hp(2) st by (simp add: set_update_memI)
      from owned_start [OF this] have new: "key_owned ?w (ps_connection ?p, forward_key (ps_bind_host ?p) port)"
        by (simp add: start_holds.simps)
      let ?new = "(ps_connection ?p, forward_key (ps_bind_host ?p) port)"
      have sk: "start_key ?p = ?new" if "port = ps_bind_port ?p" using that by (simp add: start_key_def)
      show ?thesis
      proof (rule remote_keep [OF rm])
        fix p assume "p \<in> set (fw_starts ?w)" "ps_phase p \<noteq> Binding"
        then show "ps_type p = RemoteForward"
          unfolding st using ph hp(3) by (auto dest!: in_update)
      next
        show "fst ` set (fw_connections ?w) \<subseteq> fst ` set (fw_connections w)"
          using EvRemoteReply by (simp add: section_defs split: sum.splits)
      next
        fix key t assume "(key, t) \<in> set (fw_remote ?w)"
        then have "key = ?new \<or> (\<exists>t. (key, t) \<in> set (fw_remote w))" unfolding re by (auto split: if_splits)
        with new show "(\<exists>t. (key, t) \<in> set (fw_remote w)) \<or> key_owned ?w key" by blast
      next
        fix key t assume k: "key_owned w key" "(key, t) \<in> set (fw_remote ?w)"
        then have "key = ?new \<or> key \<noteq> start_key ?p" using sk unfolding re by (auto split: if_splits)
        with own [OF k(1)] new show "key_owned ?w key" by auto
      qed
    next
      case False
      then have "fw_remote ?w = hm_remove (start_key ?p) (fw_remote w)" "fw_starts ?w = remove_nth i (fw_starts w)"
        using EvRemoteReply by (auto simp: section_defs split: sum.splits)
      then show ?thesis
        by (intro remote_keep [OF rm])
          (use own ph EvRemoteReply in \<open>auto simp: section_defs dest!: in_remove_nth split: sum.splits\<close>)
    qed
  next
    case (EvRemotePublish i fid t)
    let ?p = "fw_starts w ! i"
    obtain port where port: "ps_phase ?p = AssignedPort port" "i < length (fw_starts w)" "fid \<notin> set (fw_issued w)"
      using EvRemotePublish en by (auto split: start_phase.splits)
    let ?key = "(ps_connection ?p, forward_key (ps_bind_host ?p) port)"
    have hp: "start_holds ?p = Some ?key" "ps_type ?p = RemoteForward" using port ph [of ?p] by (auto simp: start_holds.simps)
    have own: "key_owned ?w key" if o: "key_owned w key" and ne: "key \<noteq> ?key" for key
    proof (rule owned_mono [OF o])
      fix p assume p: "p \<in> set (fw_starts w)" "start_holds p = Some key"
      then have "p \<noteq> ?p" using hp ne by auto
      then have "p \<in> set (fw_starts ?w)"
        using p(1) set_remove_other [of p "fw_starts w" i] EvRemotePublish port(1)
        by (auto simp: section_defs)
      then show "key_owned ?w key" using p(2) by (rule owned_start)
    next
      fix f r assume fr: "(f, r) \<in> set (fw_forwards w)" "is_remote_listener r" "record_key r = key"
      then have "f \<noteq> fid" using fids port(3) by auto
      with fr show "key_owned ?w key"
        using owned_forward [of f r ?w] EvRemotePublish port(1) by (auto simp: section_defs)
    qed (use EvRemotePublish port(1) owned_stop [of _ ?w] owned_orphan [of ?w] in \<open>auto simp: section_defs\<close>)
    show ?thesis
    proof (cases "map_of (fw_connections w) (ps_connection ?p)")
      case None
      show ?thesis
        by (rule remote_keep [OF rm])
          (use None own EvRemotePublish port ph in \<open>auto simp: section_defs dest!: in_remove_nth\<close>)
    next
      case (Some c)
      have "(fid, started_record ?p fid port t) \<in> set (fw_forwards ?w)"
        using Some EvRemotePublish port(1) by (simp add: section_defs)
      from owned_forward [OF this] hp(2) have new: "key_owned ?w ?key" by simp
      show ?thesis
      proof (rule remote_keep [OF rm])
        fix key t assume "key_owned w key"
        with own new show "key_owned ?w key" by (cases "key = ?key") auto
      qed (use Some EvRemotePublish port ph in \<open>auto simp: section_defs dest!: in_remove_nth\<close>)
    qed
  next
    case (EvTake j)
    let ?s = "fw_stops w ! j"
    have idle: "stop_holds (sj_phase ?s) = None" and j: "j < length (fw_stops w)" using EvTake en by auto
    have own: "key_owned ?w key" if o: "key_owned w key" for key
    proof (rule owned_mono [OF o])
      fix x r assume x: "x \<in> set (fw_stops w)" "stop_holds (sj_phase x) = Some r" "is_remote_listener r" "record_key r = key"
      then have "x \<noteq> ?s" using idle by auto
      then have "x \<in> set (fw_stops ?w)"
        using x(1) set_remove_other [of x "fw_stops w" j] set_update_other [of x "fw_stops w" j] EvTake
        by (auto simp: section_defs split: list.splits option.splits)
      with x show "key_owned ?w key" using owned_stop by blast
    next
      fix f r assume fr: "(f, r) \<in> set (fw_forwards w)" "is_remote_listener r" "record_key r = key"
      show "key_owned ?w key"
      proof (cases "(f, r) \<in> set (fw_forwards ?w)")
        case True
        with fr show ?thesis using owned_forward by blast
      next
        case False
        have m: "map_of (fw_forwards w) f = Some r" using fr(1) keys by (simp add: map_of_is_SomeI)
        from False fr(1) EvTake have "\<exists>ids. sj_ids ?s = f # ids"
          by (auto simp: section_defs split: list.splits option.splits if_splits)
        then obtain ids where ids: "sj_ids ?s = f # ids" ..
        have "?s\<lparr>sj_ids := ids, sj_phase := StopTaken f r\<rparr> \<in> set (fw_stops ?w)"
          using False fr(1,2) EvTake ids m j by (auto simp: section_defs set_update_memI split: option.splits if_splits)
        from owned_stop [OF this] fr show ?thesis by simp
      qed
    qed (use EvTake owned_start [of _ ?w key] owned_orphan [of ?w] in
          \<open>auto simp: section_defs split: list.splits option.splits\<close>)
    show ?thesis
      by (rule remote_keep [OF rm])
        (use own EvTake ph in \<open>auto simp: section_defs split: list.splits option.splits if_splits\<close>)
  next
    case (EvLookup j)
    let ?s = "fw_stops w ! j"
    obtain fid r where r: "sj_phase ?s = StopTaken fid r" "j < length (fw_stops w)"
      using EvLookup en by (auto split: stop_phase.splits)
    have own: "key_owned ?w key" if o: "key_owned w key" "fst key \<in> fst ` set (fw_connections w)" for key
    proof (rule owned_mono [OF o(1)])
      fix x q assume x: "x \<in> set (fw_stops w)" "stop_holds (sj_phase x) = Some q" "is_remote_listener q" "record_key q = key"
      show "key_owned ?w key"
      proof (cases "x = ?s")
        case True
        with x r have q: "q = r" by simp
        have "fst key = fr_connection_id r" using x(4) q by (auto simp: record_key_def)
        with o(2) have "map_of (fw_connections w) (fr_connection_id r) \<noteq> None" by (simp add: map_of_eq_None_iff)
        then have "?s\<lparr>sj_phase := StopCancelling fid r\<rparr> \<in> set (fw_stops ?w)"
          using EvLookup r by (auto simp: section_defs set_update_memI)
        from owned_stop [OF this] q x show ?thesis by simp
      next
        case False
        then have "x \<in> set (fw_stops ?w)"
          using x(1) set_update_other [of x "fw_stops w" j] EvLookup r by (auto simp: section_defs)
        with x show ?thesis using owned_stop by blast
      qed
    qed (use EvLookup owned_start [of _ ?w key] owned_forward [of _ _ ?w] owned_orphan [of ?w] in
          \<open>auto simp: section_defs split: stop_phase.splits\<close>)
    show ?thesis
      by (rule remote_keep [OF rm]) (use own EvLookup ph r in \<open>auto simp: section_defs split: if_splits\<close>)
  next
    case (EvCancelled j e)
    let ?s = "fw_stops w ! j"
    obtain fid r where r: "sj_phase ?s = StopCancelling fid r" "j < length (fw_stops w)"
      using EvCancelled en by (auto split: stop_phase.splits)
    have new: "fid \<notin> fst ` set (fw_forwards w)"
    proof -
      have "fid \<in> set (held_fids w)"
        using held_split [OF r(2)] r(1) by auto
      with inv show ?thesis by (auto simp: fw_inv_def fid_inv_def)
    qed
    have own: "key_owned ?w key" if o: "key_owned w key" "key \<noteq> record_key r \<or> e \<noteq> None" for key
    proof (rule owned_mono [OF o(1)])
      fix x q assume x: "x \<in> set (fw_stops w)" "stop_holds (sj_phase x) = Some q" "is_remote_listener q" "record_key q = key"
      show "key_owned ?w key"
      proof (cases "x = ?s")
        case True
        with x r o(2) obtain err where "q = r" "e = Some err" by auto
        then have "(fid, fail_forward err r) \<in> set (fw_forwards ?w)" using EvCancelled r by (simp add: section_defs)
        from owned_forward [OF this] x \<open>q = r\<close> show ?thesis by simp
      next
        case False
        then have "x \<in> set (fw_stops ?w)"
          using x(1) set_remove_other [of x "fw_stops w" j] set_update_other [of x "fw_stops w" j] EvCancelled r
          by (auto simp: section_defs split: option.splits)
        with x show ?thesis using owned_stop by blast
      qed
    next
      fix f q assume fr: "(f, q) \<in> set (fw_forwards w)" "is_remote_listener q" "record_key q = key"
      then have "f \<noteq> fid" using new by force
      with fr show "key_owned ?w key"
        using owned_forward [of f q ?w] EvCancelled r by (auto simp: section_defs split: option.splits)
    qed (use EvCancelled r owned_start [of _ ?w key] owned_orphan [of ?w] in \<open>auto simp: section_defs split: option.splits\<close>)
    show ?thesis
      by (rule remote_keep [OF rm]) (use own EvCancelled ph r in \<open>auto simp: section_defs split: option.splits\<close>)
  next
    case EvShutdownStep
    from remote_shutdown_step [OF rm] EvShutdownStep show ?thesis by simp
  qed
qed

lemma fw_inv_apply: "fw_inv w \<Longrightarrow> fw_enabled ev w \<Longrightarrow> fw_inv (fw_apply ev w)"
  using ids_apply origin_apply tunnel_apply remote_apply shutdown_apply fid_apply
  by (simp add: fw_inv_def)

interpretation forwards: invariant_system fw_step fw_initial fw_inv
  by unfold_locales (auto intro: fw_inv_initial fw_inv_apply elim: fw_stepE)

end
