(* ===== verification/Forwards_Run.thy ===== *)
theory Forwards_Run
  imports Forwards_Inv
begin

text \<open>What the invariant gives, a run as a list of sections, and a record that outlives its connection.\<close>

section \<open>What follows\<close>

text \<open>The forwards that exist, are being started or are being stopped, by the address they listen on.\<close>

definition registered_forward :: "forward_world \<Rightarrow> string \<Rightarrow> string \<Rightarrow> 16 word \<Rightarrow> bool" where
  "registered_forward w cid host port \<longleftrightarrow>
     (\<exists>p\<in>set (fw_starts w). ps_type p = RemoteForward \<and> ps_connection p = cid \<and> ps_bind_host p = host
        \<and> (ps_phase p = Requesting \<and> ps_bind_port p = port \<or> ps_phase p = AssignedPort port))
     \<or> (\<exists>r\<in>held_records w. is_remote_listener r \<and> fr_connection_id r = cid \<and> fi_bind_host (fr_info r) = host
        \<and> fi_bind_port (fr_info r) = port)"

lemma owned_registered:
  assumes "remote_inv w" "key_owned w (cid, forward_key host port)"
  shows "registered_forward w cid host port"
proof -
  from assms(2) consider (start) p where "p \<in> set (fw_starts w)" "start_holds p = Some (cid, forward_key host port)"
    | (rec) r where "r \<in> held_records w" "is_remote_listener r" "record_key r = (cid, forward_key host port)"
    unfolding key_owned_def by blast
  then show ?thesis
  proof cases
    case start
    with assms(1) show ?thesis
      by (auto simp: registered_forward_def start_holds.simps start_key_def remote_inv_def split: start_phase.splits)
  next
    case rec
    then show ?thesis by (auto simp: registered_forward_def record_key_def)
  qed
qed


section \<open>A run\<close>

fun fw_run :: "fw_event list \<Rightarrow> forward_world \<Rightarrow> forward_world option" where
  "fw_run [] w = Some w"
| "fw_run (ev # evs) w = (if fw_enabled ev w then fw_run evs (fw_apply ev w) else None)"

lemma fw_run_reaches: "fw_run evs w = Some w' \<Longrightarrow> fw_step\<^sup>*\<^sup>* w w'"
  by (induction evs arbitrary: w) (auto split: if_splits intro: converse_rtranclp_into_rtranclp fw_step.step)

definition no_forwards :: forward_world where
  "no_forwards = \<lparr>fw_connections = [], fw_closing = [], fw_forwards = [], fw_remote = [], fw_starts = [], fw_stops = [],
     fw_shutdown = None, fw_issued = []\<rparr>"

definition demo_start :: pending_start where
  "demo_start = \<lparr>ps_tunnel = Some ''t'', ps_session = ''s'', ps_connection = ''c'', ps_origin = Desktop, ps_type = RemoteForward,
     ps_bind_host = ''0.0.0.0'', ps_bind_port = 0, ps_target_host = ''127.0.0.1'', ps_target_port = 80, ps_phase = Binding\<rparr>"

definition demo_events :: "fw_event list" where
  "demo_events = [EvOpen ''c'' \<lparr>co_session = ''s'', co_origin = Desktop\<rparr>, EvBegin demo_start, EvRemoteCheck 0,
     EvRemoteReply 0 (Inr 2200), EvRemotePublish 0 ''f'' ''now'']"


lemma demo_port: "normalize_remote_forward_port 0 2200 = Inr 2200" "normalize_forwarded_channel_port 2200 = Some 2200"
  by (simp_all add: normalize_remote_forward_port_def normalize_forwarded_channel_port_def)

lemmas run_simps = no_forwards_def section_defs hm_insert_def hm_remove_def tunnel_locked_def find_forward_for_tunnel_def
  hm_map_def remote_locked_def has_active_remote_forward_def demo_port started_record_def started_info_def start_key_def

lemma demo_run:
  "\<exists>w. fw_run demo_events no_forwards = Some w \<and> length (fw_forwards w) = 1
     \<and> (''c'', \<lparr>co_session = ''s'', co_origin = Desktop\<rparr>) \<in> set (fw_connections w)
     \<and> route_forwarded ''c'' ''0.0.0.0'' 2200 w = Some \<lparr>ft_local_host = ''127.0.0.1'', ft_local_port = 80\<rparr>"
  by (simp add: demo_events_def demo_start_def run_simps route_forwarded_def)


section \<open>A record that outlives its connection\<close>

text \<open>A stop has taken a remote forward out when its connection is closed: the cleanup does not see the record,
  the cancellation fails, and the stop puts the record back although its connection is gone. Nothing removes it
  but another stop, or the next shutdown.\<close>

definition orphan_events :: "fw_event list" where
  "orphan_events = demo_events @ [EvStop ''f'', EvTake 0, EvLookup 0, EvClose ''c'', EvCleanup ''c'', EvCancelled 0 (Some ''closed'')]"

lemma stop_leaves_orphan:
  "\<exists>w r. fw_run orphan_events no_forwards = Some w \<and> fw_connections w = [] \<and> fw_closing w = [] \<and> fw_stops w = []
     \<and> fw_forwards w = [(''f'', r)] \<and> fi_status (fr_info r) = Failed \<and> fr_connection_id r = ''c''"
  by (simp add: orphan_events_def demo_events_def demo_start_def run_simps is_remote_listener_def fail_forward_def
      remove_nth_def record_key_def)

end
