(* ===== verification/Api_Access.thy ===== *)
theory Api_Access
  imports Api_Jobs Exec_Run Ssh_Connect Sftp_Ops
begin

text \<open>
  How a handler of the HTTP interface reaches a session (\<open>api\_server/handlers\_remote.rs\<close>, the calls of
  \<open>remote/runtime\_api.rs\<close>). A handler runs while other tasks change the key, the allowed sessions, the vault and
  the connections: every read of them is a function of the events the handler has caused so far.
\<close>

section \<open>Events and actions\<close>

datatype runtime_status = StConnecting | StConnected | StDisconnected

record api_connection =
  ac_id :: string
  ac_session_id :: string
  ac_origin :: connection_origin
  ac_status :: runtime_status
  ac_closed :: bool
  ac_connected_at :: string

record api_sftp =
  af_id :: string
  af_connection_id :: string
  af_closed :: bool

datatype remote_call =
    DisconnectCall
  | OpenSftpCall
  | ExecCall string nat
  | LatencyCall "8 word option"
  | ListCall string
  | PageCall string nat nat
  | StatCall string
  | MetadataCall string
  | UploadCall string
  | DownloadCall string nat nat bool

datatype api_event =
    AccessCheck string bool
  | Connects string session_config "known_host_entry option"
  | RemoteCall api_connection remote_call
  | Logged string string bool "string option"

type_synonym history = "api_event list"
type_synonym 'a act = "history \<Rightarrow> history \<times> 'a http_result"

definition act_return :: "'a \<Rightarrow> 'a act" where
  "act_return x = (\<lambda>h. (h, Inr x))"

definition act_fail :: "http_status \<times> string \<Rightarrow> 'a act" where
  "act_fail e = (\<lambda>h. (h, Inl e))"

definition act_lift :: "(history \<Rightarrow> 'a http_result) \<Rightarrow> 'a act" where
  "act_lift f = (\<lambda>h. (h, f h))"

definition act_emit :: "(history \<Rightarrow> api_event) \<Rightarrow> unit act" where
  "act_emit f = (\<lambda>h. (h @ [f h], Inr ()))"

definition act_bind :: "'a act \<Rightarrow> ('a \<Rightarrow> 'b act) \<Rightarrow> 'b act" where
  "act_bind m f = (\<lambda>h. case m h of (h', Inl e) \<Rightarrow> (h', Inl e) | (h', Inr x) \<Rightarrow> f x h')"

definition act_try :: "'a act \<Rightarrow> (http_status \<times> string \<Rightarrow> 'b act) \<Rightarrow> ('a \<Rightarrow> 'b act) \<Rightarrow> 'b act" where
  "act_try m g f = (\<lambda>h. case m h of (h', Inl e) \<Rightarrow> g e h' | (h', Inr x) \<Rightarrow> f x h')"

text \<open>What the server answers while a directory is read: to opening it, to every read up to the end, to closing it.\<close>

record dir_answers =
  da_open :: "string option"
  da_reads :: "(string + (string \<times> file_attributes) list) list"
  da_close :: "string option"

record 'l api_env =
  ae_key :: "history \<Rightarrow> string"
  ae_allowed :: "history \<Rightarrow> string set"
  ae_allowed_ids :: "history \<Rightarrow> string list"
  ae_names :: "history \<Rightarrow> (string \<times> string) list"
  ae_vault :: "history \<Rightarrow> vault_store"
  ae_connections :: "history \<Rightarrow> api_connection list"
  ae_sftps :: "history \<Rightarrow> api_sftp list"
  ae_connect :: "history \<Rightarrow> (string \<times> json) list app_result"
  ae_disconnect :: "history \<Rightarrow> unit app_result"
  ae_open_sftp :: "history \<Rightarrow> unit app_result"
  ae_permit :: "history \<Rightarrow> string + unit"
  ae_exec :: "history \<Rightarrow> exec_output app_result"
  ae_latency :: "history \<Rightarrow> 'l app_result"
  ae_latency_text :: "'l \<Rightarrow> string"
  ae_dir :: "history \<Rightarrow> dir_answers"
  ae_stat :: "history \<Rightarrow> string + file_attributes"
  ae_to_value :: "exec_output \<Rightarrow> json option"
  ae_render :: "json \<Rightarrow> string"
  ae_digest :: "string \<Rightarrow> string"

section \<open>Errors and log lines\<close>

definition allowed_session_names_snapshot :: "'l api_env \<Rightarrow> history \<Rightarrow> (string \<times> string) list" where
  "allowed_session_names_snapshot env h = filter (\<lambda>(i, _). i \<in> ae_allowed env h) (ae_names env h)"

definition friendly_error_detail :: "(string \<times> string) list \<Rightarrow> string \<Rightarrow> string" where
  "friendly_error_detail names detail = fold (\<lambda>(i, name) out. replace_str i name out) names detail"

definition map_remote_error :: "'l api_env \<Rightarrow> history \<Rightarrow> string \<Rightarrow> http_status \<times> string" where
  "map_remote_error env h e =
     (let lower = to_ascii_lowercase e in
      if contains ZH_QUEUE_BUSY e then (TooManyRequests, e)
      else if contains ZH_INVALID_ARGUMENT e \<or> contains ZH_MUST e \<or> contains ZH_INVALID_FORMAT e then (BadRequest, e)
      else if contains ZH_DOES_NOT_EXIST e \<or> contains ''no such file'' e then (StatusNotFound, e)
      else if contains ZH_HOST_KEY e \<or> contains ZH_CONFIG_CHANGED e then (StatusConflict, e)
      else if contains ZH_NOT_CONNECTED e then
        (let names = map snd (allowed_session_names_snapshot env h);
             display_name = (if names = [] then ''the target session'' else join_with '', '' names)
         in (ServiceUnavailable, display_name @ '' is not available; check the host key, the credentials or the network''))
      else if contains ZH_CONNECT e \<or> contains ZH_NETWORK e \<or> contains ZH_TIMEOUT e
              \<or> contains ''timeout'' lower \<or> contains ''connection'' lower \<or> contains ''handshake'' lower
              \<or> contains ''refused'' lower \<or> contains ''unreachable'' lower \<or> contains ''ssh'' lower
              \<or> contains ''sftp'' lower then (ServiceUnavailable, e)
      else (InternalError, e))"

definition or_remote_error :: "'l api_env \<Rightarrow> string + 'a \<Rightarrow> 'a act" where
  "or_remote_error env r = (\<lambda>h. case r of Inl e \<Rightarrow> (h, Inl (map_remote_error env h e)) | Inr x \<Rightarrow> (h, Inr x))"

definition log_line :: "string \<Rightarrow> string \<Rightarrow> bool \<Rightarrow> unit act" where
  "log_line action detail ok = act_emit (\<lambda>_. Logged action detail ok None)"

definition log_failure :: "'l api_env \<Rightarrow> string \<Rightarrow> string \<Rightarrow> string \<Rightarrow> unit act" where
  "log_failure env action subject e =
     act_emit (\<lambda>h. Logged action (friendly_error_detail (allowed_session_names_snapshot env h)
                                    (subject @ '' -> '' @ e)) False None)"

section \<open>Connections of a session\<close>

definition usable_connection :: "string \<Rightarrow> connection_origin \<Rightarrow> api_connection \<Rightarrow> bool" where
  "usable_connection session_id origin c \<longleftrightarrow>
     ac_session_id c = session_id \<and> ac_origin c = origin \<and> ac_status c = StConnected \<and> \<not> ac_closed c"

definition find_connection_for_session ::
  "string \<Rightarrow> connection_origin \<Rightarrow> api_connection list \<Rightarrow> string + api_connection" where
  "find_connection_for_session session_id origin conns =
     ok_or (List.find (usable_connection session_id origin) conns) (''session '' @ session_id @ '' '' @ ZH_NOT_CONNECTED)"

definition open_sftp_of :: "string \<Rightarrow> api_sftp list \<Rightarrow> api_sftp option" where
  "open_sftp_of connection_id sftps = List.find (\<lambda>s. af_connection_id s = connection_id \<and> \<not> af_closed s) sftps"

definition find_sftp_for_session :: "string \<Rightarrow> api_connection list \<Rightarrow> api_sftp list \<Rightarrow> string + api_connection \<times> api_sftp" where
  "find_sftp_for_session session_id conns sftps =
     and_then (find_connection_for_session session_id Automation conns) (\<lambda>c.
     and_then (ok_or (open_sftp_of (ac_id c) sftps) (''session '' @ session_id @ '' has no usable SFTP '' @ ZH_CONNECT)) (\<lambda>s.
       Inr (c, s)))"

definition api_session_status_for :: "string \<Rightarrow> bool \<Rightarrow> api_connection list \<Rightarrow> api_sftp list \<Rightarrow> bool \<times> bool" where
  "api_session_status_for session_id require_sftp conns sftps =
     (case List.find (usable_connection session_id Automation) conns of
        None \<Rightarrow> (False, False)
      | Some c \<Rightarrow>
          if \<not> require_sftp then (True, False)
          else (True, \<exists>s\<in>set sftps. af_connection_id s = ac_id c \<and> \<not> af_closed s))"

section \<open>Reaching a session\<close>

definition require_auth :: "'l api_env \<Rightarrow> string option \<Rightarrow> unit act" where
  "require_auth env auth = act_lift (\<lambda>h. verify_auth auth (ae_key env h))"

definition session_access :: "'l api_env \<Rightarrow> string \<Rightarrow> unit act" where
  "session_access env session_id =
     (\<lambda>h. (h @ [AccessCheck session_id (session_id \<in> ae_allowed env h)],
           verify_session_access (ae_allowed env h) session_id))"

definition required :: "bool \<Rightarrow> string \<Rightarrow> unit act" where
  "required ok message = act_lift (\<lambda>_. if ok then Inr () else Inl (BadRequest, message))"

text \<open>A call on a connection or SFTP session of the runtime: nothing goes out when there is none.\<close>

definition on_connection ::
  "'l api_env \<Rightarrow> string \<Rightarrow> remote_call \<Rightarrow> (history \<Rightarrow> string + 'a) \<Rightarrow> (string + 'a) act" where
  "on_connection env session_id call answer =
     (\<lambda>h. case find_connection_for_session session_id Automation (ae_connections env h) of
            Inl e \<Rightarrow> (h, Inr (Inl e))
          | Inr c \<Rightarrow> (h @ [RemoteCall c call], Inr (answer (h @ [RemoteCall c call]))))"

definition on_sftp ::
  "'l api_env \<Rightarrow> string \<Rightarrow> remote_call \<Rightarrow> (history \<Rightarrow> string + 'a) \<Rightarrow> (string + 'a) act" where
  "on_sftp env session_id call answer =
     (\<lambda>h. case find_sftp_for_session session_id (ae_connections env h) (ae_sftps env h) of
            Inl e \<Rightarrow> (h, Inr (Inl e))
          | Inr (c, _) \<Rightarrow> (h @ [RemoteCall c call], Inr (answer (h @ [RemoteCall c call]))))"

definition text_error :: "'a app_result \<Rightarrow> string + 'a" where
  "text_error r = (case r of Inl e \<Rightarrow> Inl (app_error_text e) | Inr x \<Rightarrow> Inr x)"

definition api_connect_session ::
  "'l api_env \<Rightarrow> session_config \<Rightarrow> known_host_entry option \<Rightarrow> (string + (string \<times> json) list) act" where
  "api_connect_session env s known_host =
     (\<lambda>h. let h' = h @ [Connects (sc_id s) s known_host] in (h', Inr (text_error (ae_connect env h'))))"

definition api_disconnect_session :: "'l api_env \<Rightarrow> string \<Rightarrow> (string + unit) act" where
  "api_disconnect_session env session_id =
     (\<lambda>h. case List.find (\<lambda>c. ac_session_id c = session_id \<and> ac_origin c = Automation) (ae_connections env h) of
            None \<Rightarrow> (h, Inr (Inl (''session '' @ session_id @ '' currently '' @ ZH_NOT_CONNECTED)))
          | Some c \<Rightarrow> (let h' = h @ [RemoteCall c DisconnectCall] in (h', Inr (text_error (ae_disconnect env h')))))"

text \<open>What the connection is built from, read under the gate of the configuration.\<close>

definition session_bundle :: "'l api_env \<Rightarrow> string \<Rightarrow> (session_config \<times> known_host_entry option) act" where
  "session_bundle env session_id =
     act_lift (\<lambda>h. case build_session_for_connect (ae_vault env h) session_id of
                     Inl e \<Rightarrow> Inl (InternalError, app_error_text e) | Inr b \<Rightarrow> Inr b)"

text \<open>A new connection is given up when the session was taken away or changed meanwhile.\<close>

definition keep_connection :: "'l api_env \<Rightarrow> session_config \<Rightarrow> string \<Rightarrow> string \<Rightarrow> unit act" where
  "keep_connection env s session_id hint =
     act_try (session_access env session_id)
       (\<lambda>_. act_bind (api_disconnect_session env session_id) (\<lambda>_.
              act_fail (Forbidden, ''session '' @ session_id @ '' is no longer allowed'')))
       (\<lambda>_. act_bind (act_lift (\<lambda>h. Inr (session_matches_current_connection_config (ae_vault env h) s))) (\<lambda>valid.
              if valid = Inr True then act_return ()
              else act_bind (api_disconnect_session env session_id) (\<lambda>_.
                     act_fail (StatusConflict, ''the session configuration has changed, '' @ hint))))"

definition ensure_api_session_ready :: "'l api_env \<Rightarrow> string \<Rightarrow> bool \<Rightarrow> unit act" where
  "ensure_api_session_ready env session_id require_sftp =
     act_bind (session_access env session_id) (\<lambda>_.
     act_bind (act_lift (\<lambda>h. case ensure_session_exists session_id (ae_vault env h) of
                 Inl _ \<Rightarrow> Inl (StatusNotFound, ''session '' @ session_id @ '' '' @ ZH_DOES_NOT_EXIST) | Inr _ \<Rightarrow> Inr ())) (\<lambda>_.
     act_bind (act_lift (\<lambda>h. Inr (api_session_status_for session_id require_sftp (ae_connections env h) (ae_sftps env h))))
       (\<lambda>(connected, sftp_available).
     act_bind
       (if connected then act_return ()
        else act_bind (session_bundle env session_id) (\<lambda>(s, known_host).
             act_bind (api_connect_session env s known_host) (\<lambda>r.
             act_bind (or_remote_error env r) (\<lambda>_.
               keep_connection env s session_id ''try again''))))
       (\<lambda>_. if require_sftp \<and> (\<not> connected \<or> \<not> sftp_available)
             then act_bind (on_connection env session_id OpenSftpCall (\<lambda>h. text_error (ae_open_sftp env h)))
                    (or_remote_error env)
             else act_return ()))))"

definition acquire_execution_permit :: "'l api_env \<Rightarrow> string \<Rightarrow> unit act" where
  "acquire_execution_permit env session_id =
     act_bind (act_lift (\<lambda>h. case ae_permit env h of Inl e \<Rightarrow> Inl (TooManyRequests, e) | Inr u \<Rightarrow> Inr u)) (\<lambda>_.
       session_access env session_id)"

text \<open>The end of a handler that logs: the answer leaves only when the session is still allowed.\<close>

definition finish_call ::
  "'l api_env \<Rightarrow> string \<Rightarrow> string \<Rightarrow> string \<Rightarrow> ('a \<Rightarrow> api_event) \<Rightarrow> string + 'a \<Rightarrow> 'a act" where
  "finish_call env session_id action subject entry r =
     (case r of
        Inr x \<Rightarrow> act_bind (session_access env session_id) (\<lambda>_. act_bind (act_emit (\<lambda>_. entry x)) (\<lambda>_. act_return x))
      | Inl e \<Rightarrow> act_bind (log_failure env action subject e) (\<lambda>_. act_lift (\<lambda>h. Inl (map_remote_error env h e))))"

section \<open>Connecting, disconnecting, executing, measuring\<close>

definition rest_connect :: "'l api_env \<Rightarrow> string option \<Rightarrow> string \<Rightarrow> (string \<times> json) list act" where
  "rest_connect env auth session_id =
     act_bind (require_auth env auth) (\<lambda>_.
     act_bind (required (trim session_id \<noteq> []) ''missing sessionId'') (\<lambda>_.
     act_bind (session_access env session_id) (\<lambda>_.
     act_bind (act_lift (\<lambda>h. Inr (fst (api_session_status_for session_id True (ae_connections env h) (ae_sftps env h)))))
       (\<lambda>reused.
     act_bind (session_bundle env session_id) (\<lambda>(s, known_host).
     act_bind (api_connect_session env s known_host) (\<lambda>r.
       case r of
         Inr info \<Rightarrow>
           act_bind (keep_connection env s session_id ''connect again'') (\<lambda>_.
           act_bind (log_line ''rest/connect'' session_id True) (\<lambda>_.
             act_return (info @ [(''reused'', JBool reused)])))
       | Inl e \<Rightarrow>
           act_bind (log_failure env ''rest/connect'' session_id e) (\<lambda>_.
             act_lift (\<lambda>h. Inl (map_remote_error env h e)))))))))"

definition rest_disconnect :: "'l api_env \<Rightarrow> string option \<Rightarrow> string \<Rightarrow> unit act" where
  "rest_disconnect env auth session_id =
     act_bind (require_auth env auth) (\<lambda>_.
     act_bind (required (trim session_id \<noteq> []) ''missing sessionId'') (\<lambda>_.
     act_bind (session_access env session_id) (\<lambda>_.
     act_bind (api_disconnect_session env session_id) (\<lambda>r.
       case r of
         Inr _ \<Rightarrow> log_line ''rest/disconnect'' session_id True
       | Inl e \<Rightarrow>
           act_bind (log_failure env ''rest/disconnect'' session_id e) (\<lambda>_. act_fail (InternalError, e))))))"

definition MAX_API_EXEC_TIMEOUT_MS :: nat where "MAX_API_EXEC_TIMEOUT_MS = 5 * 60000"

definition exec_timeout :: "nat option \<Rightarrow> nat" where
  "exec_timeout timeout_ms = min (max (case timeout_ms of None \<Rightarrow> 30000 | Some t \<Rightarrow> t) 1) MAX_API_EXEC_TIMEOUT_MS"

definition exec_success :: "exec_output \<Rightarrow> bool" where
  "exec_success r \<longleftrightarrow> \<not> xr_timed_out (eo_result r)
     \<and> (case xr_exit_status (eo_result r) of None \<Rightarrow> 1 | Some status \<Rightarrow> status) = 0"

definition api_exec :: "'l api_env \<Rightarrow> string \<Rightarrow> string \<Rightarrow> nat \<Rightarrow> (string + exec_output) act" where
  "api_exec env session_id command timeout_ms =
     on_connection env session_id (ExecCall command timeout_ms) (\<lambda>h. text_error (ae_exec env h))"

definition rest_exec ::
  "'l api_env \<Rightarrow> (string \<Rightarrow> string) \<Rightarrow> string option \<Rightarrow> string \<Rightarrow> string \<Rightarrow> nat option \<Rightarrow> string option \<Rightarrow> exec_output act" where
  "rest_exec env lower auth session_id command timeout_ms safety_mode =
     act_bind (require_auth env auth) (\<lambda>_.
     act_bind (act_lift (\<lambda>_. validate_exec_request lower session_id command safety_mode)) (\<lambda>_.
     act_bind (session_access env session_id) (\<lambda>_.
     act_bind (ensure_api_session_ready env session_id False) (\<lambda>_.
     act_bind (acquire_execution_permit env session_id) (\<lambda>_.
     act_bind (api_exec env session_id command (exec_timeout timeout_ms)) (\<lambda>r.
       finish_call env session_id ''rest/exec'' command
         (\<lambda>x. Logged ''rest/exec'' (command_log_detail command 77) (exec_success x)
                (execution_log_response (ae_to_value env) (ae_render env) command x)) r))))))"

definition rest_latency :: "'l api_env \<Rightarrow> string option \<Rightarrow> string \<Rightarrow> 8 word option \<Rightarrow> 'l act" where
  "rest_latency env auth session_id samples =
     act_bind (require_auth env auth) (\<lambda>_.
     act_bind (required (trim session_id \<noteq> []) ''missing sessionId'') (\<lambda>_.
     act_bind (session_access env session_id) (\<lambda>_.
     act_bind (ensure_api_session_ready env session_id False) (\<lambda>_.
     act_bind (on_connection env session_id (LatencyCall samples) (\<lambda>h. text_error (ae_latency env h))) (\<lambda>r.
       finish_call env session_id ''rest/latency'' session_id
         (\<lambda>x. Logged ''rest/latency'' (session_id @ '' -> '' @ ae_latency_text env x) True None) r)))))"

section \<open>The list of sessions\<close>

record session_item =
  si_session_id :: string
  si_name :: string
  si_host :: string
  si_connected :: bool
  si_sftp_available :: bool
  si_connection_id :: "string option"
  si_status :: "runtime_status option"
  si_connected_at :: "string option"

text \<open>The map of \<open>api\_session\_statuses\<close>: the last connection of a session in the order of the table stays.\<close>

definition api_session_statuses ::
  "api_connection list \<Rightarrow> api_sftp list \<Rightarrow> string \<Rightarrow> (api_connection \<times> bool) option" where
  "api_session_statuses conns sftps session_id =
     map_option (\<lambda>c. (c, ac_id c \<in> af_connection_id ` set (filter (\<lambda>s. \<not> af_closed s) sftps)))
       (List.find (\<lambda>c. ac_session_id c = session_id)
          (rev (filter (\<lambda>c. ac_origin c = Automation \<and> \<not> ac_closed c) conns)))"

definition session_item_of :: "(string \<Rightarrow> (api_connection \<times> bool) option) \<Rightarrow> session_config \<Rightarrow> session_item" where
  "session_item_of statuses s =
     (let st = statuses (sc_id s) in
      \<lparr>si_session_id = sc_id s, si_name = sc_name s, si_host = sc_host s @ '':'' @ dec_string (unat (sc_port s)),
       si_connected = (case st of None \<Rightarrow> False | Some (c, _) \<Rightarrow> ac_status c = StConnected),
       si_sftp_available = (case st of None \<Rightarrow> False | Some (_, b) \<Rightarrow> b),
       si_connection_id = map_option (\<lambda>(c, _). ac_id c) st,
       si_status = map_option (\<lambda>(c, _). ac_status c) st,
       si_connected_at = map_option (\<lambda>(c, _). ac_connected_at c) st\<rparr>)"

definition rest_sessions :: "'l api_env \<Rightarrow> string option \<Rightarrow> session_item list act" where
  "rest_sessions env auth =
     act_bind (require_auth env auth) (\<lambda>_.
     act_bind (act_lift (\<lambda>h. Inr (ae_allowed_ids env h))) (\<lambda>allowed.
     act_bind (act_lift (\<lambda>h. case vault_sessions (ae_vault env h) of
                 Inl e \<Rightarrow> Inl (InternalError, app_error_text e) | Inr ss \<Rightarrow> Inr ss)) (\<lambda>configured.
     act_bind (act_lift (\<lambda>h. Inr (api_session_statuses (ae_connections env h) (ae_sftps env h)))) (\<lambda>statuses.
     act_bind (act_lift (\<lambda>h. Inr (filter (\<lambda>i. si_session_id i \<in> set (ae_allowed_ids env h))
                 (map (session_item_of statuses) (filter (\<lambda>s. sc_id s \<in> set allowed) configured))))) (\<lambda>items.
     act_bind (log_line ''rest/sessions'' (dec_string (length items) @ '' items'') True) (\<lambda>_.
       act_return items))))))"

section \<open>Calls guarded by checks of access\<close>

text \<open>
  Reading the events of a handler on one session: \<open>fresh\<close> says that its last check of access was passed and no
  answer of the server came in since, \<open>touched\<close> that it connected the session itself. A connection is made and a
  call goes out only while \<open>fresh\<close>, over an automation connection of this session, and only the calls \<open>C\<close>;
  giving up the connection it made itself needs no access. (Opening SFTP and starting a download are followed by
  no new check.)
\<close>

definition answers :: "remote_call \<Rightarrow> bool" where
  "answers call \<longleftrightarrow> (case call of OpenSftpCall \<Rightarrow> False | DownloadCall _ _ _ _ \<Rightarrow> False | _ \<Rightarrow> True)"

fun guard_run :: "(remote_call \<Rightarrow> bool) \<Rightarrow> string \<Rightarrow> bool \<times> bool \<Rightarrow> history \<Rightarrow> (bool \<times> bool) option" where
  "guard_run C sid p [] = Some p"
| "guard_run C sid (fresh, touched) (AccessCheck s ok # es) =
     (if s = sid then guard_run C sid (ok, touched) es else None)"
| "guard_run C sid (fresh, touched) (Connects s _ _ # es) =
     (if s = sid \<and> fresh then guard_run C sid (False, True) es else None)"
| "guard_run C sid (fresh, touched) (RemoteCall c call # es) =
     (if ac_session_id c = sid \<and> ac_origin c = Automation
         \<and> (if call = DisconnectCall then fresh \<or> touched else fresh \<and> C call)
      then guard_run C sid (fresh \<and> \<not> answers call, touched) es else None)"
| "guard_run C sid p (Logged _ _ _ _ # es) = guard_run C sid p es"

definition at_least :: "bool \<times> bool \<Rightarrow> bool \<times> bool \<Rightarrow> bool" where
  "at_least p q \<longleftrightarrow> (fst q \<longrightarrow> fst p) \<and> (snd q \<longrightarrow> snd p)"

lemma at_least_simps [simp]:
  "at_least (a, b) (c, d) \<longleftrightarrow> (c \<longrightarrow> a) \<and> (d \<longrightarrow> b)"
  "at_least p p"
  "at_least p (False, snd q) \<longleftrightarrow> (snd q \<longrightarrow> snd p)"
  by (auto simp: at_least_def)

lemma at_least_trans: "at_least p q \<Longrightarrow> at_least q r \<Longrightarrow> at_least p r"
  by (auto simp: at_least_def)

lemma guard_run_append:
  "guard_run C sid p (es @ es') = (case guard_run C sid p es of None \<Rightarrow> None | Some q \<Rightarrow> guard_run C sid q es')"
  by (induction C sid p es rule: guard_run.induct) auto

lemma guard_run_mono:
  "guard_run C sid p es = Some q \<Longrightarrow> at_least p' p \<Longrightarrow> \<exists>q'. guard_run C sid p' es = Some q' \<and> at_least q' q"
proof (induction C sid p es arbitrary: p' rule: guard_run.induct)
  case (1 C sid p)
  then show ?case by auto
next
  case (2 C sid fresh touched s ok es)
  then show ?case by (cases p') (auto split: if_splits)
next
  case (3 C sid fresh touched s c k es)
  then show ?case by (cases p'; cases q) (force split: if_splits)
next
  case (4 C sid fresh touched c call es)
  then show ?case
    by (cases p') (auto split: if_splits)
next
  case (5 C sid p a d ok r es)
  then show ?case by auto
qed

definition guards_post ::
  "(remote_call \<Rightarrow> bool) \<Rightarrow> string \<Rightarrow> bool \<times> bool \<Rightarrow> ('a \<Rightarrow> bool \<times> bool \<Rightarrow> bool) \<Rightarrow> 'a act \<Rightarrow> bool"
where
  "guards_post C sid p Q m \<longleftrightarrow>
     (\<forall>h. \<exists>es f. fst (m h) = h @ es \<and> guard_run C sid p es = Some f \<and> (\<forall>x. snd (m h) = Inr x \<longrightarrow> Q x f))"

text \<open>The common case: an answer comes out only when at least \<open>q\<close> holds.\<close>

definition guards :: "(remote_call \<Rightarrow> bool) \<Rightarrow> string \<Rightarrow> bool \<times> bool \<Rightarrow> bool \<times> bool \<Rightarrow> 'a act \<Rightarrow> bool" where
  "guards C sid p q m \<longleftrightarrow>
     (\<forall>h. \<exists>es f. fst (m h) = h @ es \<and> guard_run C sid p es = Some f
          \<and> (\<forall>x. snd (m h) = Inr x \<longrightarrow> at_least f q))"

named_theorems guard_rules

lemma guards_return [guard_rules]: "guards C sid p p (act_return x)"
  by (cases p) (auto simp: guards_def act_return_def)

lemma guards_fail [guard_rules]: "guards C sid p q (act_fail e)"
  by (cases p) (auto simp: guards_def act_fail_def)

lemma guards_lift [guard_rules]: "guards C sid p p (act_lift f)"
  by (cases p) (auto simp: guards_def act_lift_def)

lemma guards_log [guard_rules]: "guards C sid p p (act_emit (\<lambda>h. Logged (a h) (d h) (ok h) (r h)))"
  by (cases p) (auto simp: guards_def act_emit_def)

lemma guards_access [guard_rules]: "guards C sid (f0, k0) (True, k0) (session_access env sid)"
  by (auto simp: guards_def session_access_def verify_session_access_def)

lemma guards_connection [guard_rules]:
  assumes "C call" "call \<noteq> DisconnectCall"
  shows "guards C sid (True, c) (\<not> answers call, c) (on_connection env sid call answer)"
proof -
  have "ac_session_id x = sid \<and> ac_origin x = Automation"
    if "find_connection_for_session sid Automation conns = Inr x" for x conns
    using that by (auto simp: find_connection_for_session_def usable_connection_def find_Some_iff)
  then show ?thesis
    using assms by (auto simp: guards_def on_connection_def split: sum.splits)
qed

lemma guards_sftp [guard_rules]:
  assumes "C call" "call \<noteq> DisconnectCall"
  shows "guards C sid (True, c) (\<not> answers call, c) (on_sftp env sid call answer)"
proof -
  have "ac_session_id x = sid \<and> ac_origin x = Automation"
    if "find_sftp_for_session sid conns sftps = Inr (x, y)" for x y conns sftps
    using that
    by (auto simp: find_sftp_for_session_def and_then_Inr_iff find_connection_for_session_def usable_connection_def
        find_Some_iff)
  then show ?thesis
    using assms by (auto simp: guards_def on_sftp_def split: sum.splits prod.splits)
qed

lemma guards_disconnect:
  assumes "f \<or> t"
  shows "guards C sid (f, t) (False, t) (api_disconnect_session env sid)"
  using assms
  by (auto simp: guards_def api_disconnect_session_def Let_def find_Some_iff split: option.splits)

lemma guards_connect: "sc_id s = sid \<Longrightarrow> guards C sid (True, t) (False, True) (api_connect_session env s k)"
  by (auto simp: guards_def api_connect_session_def Let_def)

lemma guards_weaken:
  assumes "guards C sid p q m" "at_least p' p" "at_least q q'"
  shows "guards C sid p' q' m"
  unfolding guards_def
proof
  fix h
  obtain es f where m: "fst (m h) = h @ es" "guard_run C sid p es = Some f"
    "\<forall>x. snd (m h) = Inr x \<longrightarrow> at_least f q"
    using assms(1) unfolding guards_def by blast
  obtain f' where "guard_run C sid p' es = Some f'" "at_least f' f"
    using guard_run_mono [OF m(2) assms(2)] by blast
  then show "\<exists>es f. fst (m h) = h @ es \<and> guard_run C sid p' es = Some f \<and> (\<forall>x. snd (m h) = Inr x \<longrightarrow> at_least f q')"
    using m assms(3) at_least_trans by blast
qed

lemma guards_try:
  assumes m: "guards C sid p q m" and g: "\<And>e. guards C sid (False, snd p) r (g e)" and f: "\<And>x. guards C sid q r (f x)"
    and touched: "\<And>h es k. fst (m h) = h @ es \<Longrightarrow> guard_run C sid p es = Some k \<Longrightarrow> snd p \<Longrightarrow> snd k"
  shows "guards C sid p r (act_try m g f)"
  unfolding guards_def
proof
  fix h
  obtain es k where k: "fst (m h) = h @ es" "guard_run C sid p es = Some k" "\<forall>x. snd (m h) = Inr x \<longrightarrow> at_least k q"
    using m unfolding guards_def by blast
  show "\<exists>es k. fst (act_try m g f h) = h @ es \<and> guard_run C sid p es = Some k
      \<and> (\<forall>x. snd (act_try m g f h) = Inr x \<longrightarrow> at_least k r)"
  proof (cases "snd (m h)")
    case (Inl e)
    have "at_least k (False, snd p)" using touched [OF k(1,2)] by simp
    then have "guards C sid k r (g e)" using guards_weaken [OF g] at_least_simps(2) by blast
    then obtain es' k' where k': "fst (g e (h @ es)) = (h @ es) @ es'" "guard_run C sid k es' = Some k'"
      "\<forall>x. snd (g e (h @ es)) = Inr x \<longrightarrow> at_least k' r" unfolding guards_def by blast
    have "m h = (h @ es, Inl e)" using Inl k(1) by (metis prod.collapse)
    then show ?thesis using k k' by (intro exI [of _ "es @ es'"] exI [of _ k']) (auto simp: act_try_def guard_run_append)
  next
    case (Inr x)
    have "guards C sid k r (f x)" using guards_weaken [OF f] at_least_simps(2) k(3) Inr by blast
    then obtain es' k' where k': "fst (f x (h @ es)) = (h @ es) @ es'" "guard_run C sid k es' = Some k'"
      "\<forall>x'. snd (f x (h @ es)) = Inr x' \<longrightarrow> at_least k' r" unfolding guards_def by blast
    have "m h = (h @ es, Inr x)" using Inr k(1) by (metis prod.collapse)
    then show ?thesis using k k' by (intro exI [of _ "es @ es'"] exI [of _ k']) (auto simp: act_try_def guard_run_append)
  qed
qed

lemma guards_iff_post: "guards C sid p q m \<longleftrightarrow> guards_post C sid p (\<lambda>_ f. at_least f q) m"
  by (simp add: guards_def guards_post_def)

lemma guards_post_bind:
  assumes m: "guards C sid p q m" and f: "\<And>x. guards_post C sid q R (f x)"
    and up: "\<And>y g g'. R y g \<Longrightarrow> at_least g' g \<Longrightarrow> R y g'"
  shows "guards_post C sid p R (act_bind m f)"
  unfolding guards_post_def
proof
  fix h
  obtain es k where k: "fst (m h) = h @ es" "guard_run C sid p es = Some k" "\<forall>x. snd (m h) = Inr x \<longrightarrow> at_least k q"
    using m unfolding guards_def by blast
  show "\<exists>es k. fst (act_bind m f h) = h @ es \<and> guard_run C sid p es = Some k
      \<and> (\<forall>x. snd (act_bind m f h) = Inr x \<longrightarrow> R x k)"
  proof (cases "snd (m h)")
    case (Inl e)
    have "m h = (h @ es, Inl e)" using Inl k(1) by (metis prod.collapse)
    then show ?thesis using k by (intro exI [of _ es] exI [of _ k]) (auto simp: act_bind_def)
  next
    case (Inr x)
    obtain es' k0 where k0: "fst (f x (h @ es)) = (h @ es) @ es'" "guard_run C sid q es' = Some k0"
      "\<forall>y. snd (f x (h @ es)) = Inr y \<longrightarrow> R y k0" using f [of x] unfolding guards_post_def by blast
    obtain k' where k': "guard_run C sid k es' = Some k'" "at_least k' k0"
      using guard_run_mono [OF k0(2)] k(3) Inr by blast
    have "m h = (h @ es, Inr x)" using Inr k(1) by (metis prod.collapse)
    moreover have "\<forall>y. snd (f x (h @ es)) = Inr y \<longrightarrow> R y k'" using k0(3) up [OF _ k'(2)] by blast
    ultimately show ?thesis using k k0(1) k'(1)
      by (intro exI [of _ "es @ es'"] exI [of _ k']) (auto simp: act_bind_def guard_run_append)
  qed
qed

lemma guards_bind:
  "guards C sid p q m \<Longrightarrow> (\<And>x. guards C sid q r (f x)) \<Longrightarrow> guards C sid p r (act_bind m f)"
  unfolding guards_iff_post [of C sid _ r]
  by (rule guards_post_bind) (auto intro: at_least_trans)

lemma guards_post_lift:
  assumes "\<And>h x. f h = Inr x \<Longrightarrow> guards_post C sid p R (g x)"
  shows "guards_post C sid p R (act_bind (act_lift f) g)"
  unfolding guards_post_def
proof
  fix h
  show "\<exists>es k. fst (act_bind (act_lift f) g h) = h @ es \<and> guard_run C sid p es = Some k
      \<and> (\<forall>x. snd (act_bind (act_lift f) g h) = Inr x \<longrightarrow> R x k)"
  proof (cases "f h")
    case (Inl e)
    then show ?thesis by (cases p) (auto simp: act_bind_def act_lift_def)
  next
    case (Inr x)
    then show ?thesis using assms [OF Inr] unfolding guards_post_def by (simp add: act_bind_def act_lift_def)
  qed
qed

lemma guards_lift_bind:
  "(\<And>h x. f h = Inr x \<Longrightarrow> guards C sid p q (g x)) \<Longrightarrow> guards C sid p q (act_bind (act_lift f) g)"
  unfolding guards_iff_post by (rule guards_post_lift)

lemma guards_auth: "guards C sid p p (require_auth env auth)"
  unfolding require_auth_def by (rule guards_lift)

lemma guards_required: "guards C sid p p (required ok message)"
  unfolding required_def by (rule guards_lift)

lemma guards_or_error: "guards C sid p p (or_remote_error env r)"
  by (cases p; cases r) (auto simp: guards_def or_remote_error_def)

lemma guards_log_line: "guards C sid p p (log_line action detail ok)"
  unfolding log_line_def by (rule guards_log)

lemma guards_log_failure: "guards C sid p p (log_failure env action subject e)"
  unfolding log_failure_def by (rule guards_log)

lemma guards_mapped: "guards C sid p q (act_lift (\<lambda>h. Inl (e h)))"
  by (cases p) (auto simp: guards_def act_lift_def)

lemma guards_keep: "guards C sid (False, True) (True, True) (keep_connection env s sid hint)"
  unfolding keep_connection_def
proof (rule guards_try)
  show "guards C sid (False, True) (True, True) (session_access env sid)"
    by (rule guards_access)
  show "guards C sid (False, snd (False, True)) (True, True)
      (act_bind (api_disconnect_session env sid) (\<lambda>_. act_fail (Forbidden, m)))" for m
    by (rule guards_bind [OF guards_disconnect guards_fail]) simp
  show "guards C sid (True, True) (True, True)
      (act_bind (act_lift f) (\<lambda>valid. if valid = v then act_return () else
         act_bind (api_disconnect_session env sid) (\<lambda>_. act_fail (StatusConflict, m))))" for f v m
    by (rule guards_bind [OF guards_lift])
      (auto intro!: guards_return guards_bind [OF guards_disconnect guards_fail])
  show "snd k" if "fst (session_access env sid h) = h @ es" "guard_run C sid (False, True) es = Some k" for h es k
    using that by (auto simp: session_access_def)
qed

text \<open>Where the bundle of a session comes from, its id is the one asked for.\<close>

lemma bundle_id: "build_session_for_connect st sid = Inr (s, k) \<Longrightarrow> sc_id s = sid"
  by (auto simp: build_session_for_connect_def and_then_Inr_iff vault_session_def find_Some_iff apply_global_proxy_def
      split: option.splits if_splits)

lemma guards_bundle:
  assumes "\<And>s k. sc_id s = sid \<Longrightarrow> guards C sid p q (g (s, k))"
  shows "guards C sid p q (act_bind (session_bundle env sid) g)"
  unfolding session_bundle_def
  by (rule guards_lift_bind) (use assms bundle_id in \<open>auto split: sum.splits\<close>)

lemma guards_new_connection:
  "guards C sid (True, t) (True, True)
     (act_bind (session_bundle env sid) (\<lambda>(s, known_host).
      act_bind (api_connect_session env s known_host) (\<lambda>r.
      act_bind (or_remote_error env r) (\<lambda>_. keep_connection env s sid hint))))"
  by (rule guards_bundle) (auto intro!: guards_bind [OF guards_connect] guards_bind [OF guards_or_error] guards_keep)

lemma guards_ready:
  assumes "C OpenSftpCall"
  shows "guards C sid (f0, k0) (True, k0) (ensure_api_session_ready env sid require_sftp)"
proof -
  have sftp: "guards C sid (True, k0) (True, k0)
      (if b then act_bind (on_connection env sid OpenSftpCall a) (or_remote_error env) else act_return ())" for b a
    using guards_bind [OF guards_connection [of C OpenSftpCall] guards_or_error, OF assms]
    by (auto intro: guards_return simp: answers_def)
  have conn: "guards C sid (True, k0) (True, k0) (if c then act_return () else
      act_bind (session_bundle env sid) (\<lambda>(s, known_host).
      act_bind (api_connect_session env s known_host) (\<lambda>r.
      act_bind (or_remote_error env r) (\<lambda>_. keep_connection env s sid ''try again''))))" for c
    by (auto intro: guards_return guards_weaken [OF guards_new_connection])
  show ?thesis
    unfolding ensure_api_session_ready_def
    by (intro guards_bind [OF guards_access] guards_bind [OF guards_lift])
      (auto intro!: guards_bind [OF conn] sftp)
qed

lemma guards_permit: "guards C sid (f0, k0) (True, k0) (acquire_execution_permit env sid)"
  unfolding acquire_execution_permit_def by (rule guards_bind [OF guards_lift guards_access])

lemma guards_finish:
  assumes "\<And>x. \<exists>a d ok r. entry x = Logged a d ok r"
  shows "guards C sid (f0, k0) (True, k0) (finish_call env sid action subject entry r)"
proof -
  have entry: "guards C sid q q (act_emit (\<lambda>_. entry x))" for x q
  proof -
    obtain a d ok r where "entry x = Logged a d ok r" using assms [of x] by blast
    then show ?thesis using guards_log [of C sid q "\<lambda>_. a" "\<lambda>_. d" "\<lambda>_. ok" "\<lambda>_. r"] by simp
  qed
  show ?thesis
    unfolding finish_call_def
  proof (cases r)
    case (Inl e)
    show "guards C sid (f0, k0) (True, k0) (case r of Inl e \<Rightarrow> act_bind (log_failure env action subject e)
        (\<lambda>_. act_lift (\<lambda>h. Inl (map_remote_error env h e)))
      | Inr x \<Rightarrow> act_bind (session_access env sid) (\<lambda>_. act_bind (act_emit (\<lambda>_. entry x)) (\<lambda>_. act_return x)))"
      unfolding Inl sum.case by (rule guards_bind [OF guards_log_failure guards_mapped])
  next
    case (Inr x)
    show "guards C sid (f0, k0) (True, k0) (case r of Inl e \<Rightarrow> act_bind (log_failure env action subject e)
        (\<lambda>_. act_lift (\<lambda>h. Inl (map_remote_error env h e)))
      | Inr x \<Rightarrow> act_bind (session_access env sid) (\<lambda>_. act_bind (act_emit (\<lambda>_. entry x)) (\<lambda>_. act_return x)))"
      unfolding Inr sum.case
      by (rule guards_bind [OF guards_access]) (rule guards_bind [OF entry guards_return])
  qed
qed

lemma guards_rest_connect: "guards C sid (f0, k0) (True, True) (rest_connect env auth sid)"
  unfolding rest_connect_def
proof (rule guards_bind [OF guards_auth], rule guards_bind [OF guards_required], rule guards_bind [OF guards_access],
    rule guards_bind [OF guards_lift], rule guards_bundle, unfold prod.case, rule guards_bind [OF guards_connect])
  show "guards C sid (False, True) (True, True) (case r of
      Inl e \<Rightarrow> act_bind (log_failure env ''rest/connect'' sid e) (\<lambda>_. act_lift (\<lambda>h. Inl (map_remote_error env h e)))
    | Inr info \<Rightarrow> act_bind (keep_connection env s sid ''connect again'') (\<lambda>_.
        act_bind (log_line ''rest/connect'' sid True) (\<lambda>_. act_return (info @ [(''reused'', JBool reused)]))))" for r s reused
  proof (cases r)
    case (Inl e)
    then show ?thesis by (simp add: guards_bind [OF guards_log_failure guards_mapped])
  next
    case (Inr info)
    then show ?thesis
      by (simp add: guards_bind [OF guards_keep guards_bind [OF guards_log_line guards_return]])
  qed
qed

lemma guards_rest_disconnect: "guards C sid (f0, k0) (False, k0) (rest_disconnect env auth sid)"
  unfolding rest_disconnect_def
proof (rule guards_bind [OF guards_auth], rule guards_bind [OF guards_required], rule guards_bind [OF guards_access],
    rule guards_bind [OF guards_disconnect], simp)
  show "guards C sid (False, k0) (False, k0) (case r of
      Inl e \<Rightarrow> act_bind (log_failure env ''rest/disconnect'' sid e) (\<lambda>_. act_fail (InternalError, e))
    | Inr _ \<Rightarrow> log_line ''rest/disconnect'' sid True)" for r :: "string + unit"
    by (cases r) (simp_all add: guards_bind [OF guards_log_failure guards_fail] guards_log_line)
qed

lemma guards_rest_exec:
  assumes "C OpenSftpCall"
    and "validate_exec_request lower sid command mode = Inr () \<Longrightarrow> C (ExecCall command (exec_timeout t))"
  shows "guards C sid (f0, k0) (True, k0) (rest_exec env lower auth sid command t mode)"
  unfolding rest_exec_def
proof (rule guards_bind [OF guards_auth], rule guards_lift_bind)
  fix x assume "validate_exec_request lower sid command mode = Inr x"
  then have c: "C (ExecCall command (exec_timeout t))" using assms(2) by simp
  show "guards C sid (f0, k0) (True, k0) (act_bind (session_access env sid) (\<lambda>_.
      act_bind (ensure_api_session_ready env sid False) (\<lambda>_.
      act_bind (acquire_execution_permit env sid) (\<lambda>_.
      act_bind (api_exec env sid command (exec_timeout t)) (\<lambda>r.
        finish_call env sid ''rest/exec'' command
          (\<lambda>x. Logged ''rest/exec'' (command_log_detail command 77) (exec_success x)
                 (execution_log_response (ae_to_value env) (ae_render env) command x)) r)))))"
    unfolding api_exec_def
    by (rule guards_bind [OF guards_access], rule guards_bind [OF guards_ready [where C = C, OF assms(1)]],
        rule guards_bind [OF guards_permit], 
        rule guards_bind [OF guards_connection [where C = C, OF c]], simp,
        rule guards_finish) auto
qed

lemma guards_rest_latency:
  assumes "C OpenSftpCall" "C (LatencyCall samples)"
  shows "guards C sid (f0, k0) (True, k0) (rest_latency env auth sid samples)"
  unfolding rest_latency_def
  by (rule guards_bind [OF guards_auth], rule guards_bind [OF guards_required], rule guards_bind [OF guards_access],
      rule guards_bind [OF guards_ready [where C = C, OF assms(1)]], 
      rule guards_bind [OF guards_connection [where C = C, OF assms(2)]], simp,
      rule guards_finish) auto

text \<open>Without the key a handler does nothing at all.\<close>

definition needs_key :: "'l api_env \<Rightarrow> string option \<Rightarrow> 'a act \<Rightarrow> bool" where
  "needs_key env auth m \<longleftrightarrow>
     (\<forall>h e. verify_auth auth (ae_key env h) = Inl e \<longrightarrow> m h = (h, Inl e))"

lemma needs_key_bind: "needs_key env auth (act_bind (require_auth env auth) f)"
  by (simp add: needs_key_def act_bind_def require_auth_def act_lift_def)

lemma rest_needs_key:
  "needs_key env auth (rest_connect env auth sid)"
  "needs_key env auth (rest_disconnect env auth sid)"
  "needs_key env auth (rest_exec env lower auth sid command t mode)"
  "needs_key env auth (rest_latency env auth sid samples)"
  "needs_key env auth (rest_sessions env auth)"
  unfolding rest_connect_def rest_disconnect_def rest_exec_def rest_latency_def rest_sessions_def
  by (rule needs_key_bind)+

lemma find_member: "List.find P xs = Some x \<Longrightarrow> x \<in> set xs \<and> P x"
  by (auto simp: find_Some_iff)

text \<open>The list of sessions shows only sessions allowed when it was made and when it leaves, with the state of
  their automation connections, and touches no server.\<close>

lemma rest_sessions_allowed:
  assumes "rest_sessions env auth h = (h', Inr items)" "i \<in> set items"
  shows "si_session_id i \<in> set (ae_allowed_ids env h)
    \<and> (\<exists>u s. vault_unlocked (ae_vault env h) = Inr u \<and> s \<in> set (vd_sessions (uv_data u))
         \<and> si_session_id i = sc_id s \<and> si_name i = sc_name s)
    \<and> (si_connected i \<longrightarrow> (\<exists>c\<in>set (ae_connections env h). ac_session_id c = si_session_id i
         \<and> ac_origin c = Automation \<and> ac_status c = StConnected \<and> \<not> ac_closed c \<and> si_connection_id i = Some (ac_id c)))
    \<and> h' = h @ [Logged ''rest/sessions'' (dec_string (length items) @ '' items'') True None]"
proof -
  obtain ss where ss: "vault_sessions (ae_vault env h) = Inr ss"
    and i: "items = filter (\<lambda>i. si_session_id i \<in> set (ae_allowed_ids env h))
      (map (session_item_of (api_session_statuses (ae_connections env h) (ae_sftps env h)))
        (filter (\<lambda>s. sc_id s \<in> set (ae_allowed_ids env h)) ss))"
    and h': "h' = h @ [Logged ''rest/sessions'' (dec_string (length items) @ '' items'') True None]"
    using assms(1)
    by (auto simp: rest_sessions_def act_bind_def require_auth_def act_lift_def log_line_def act_emit_def act_return_def
        split: sum.splits)
  have st: "(\<exists>c\<in>set conns. ac_session_id c = sid \<and> ac_origin c = Automation \<and> \<not> ac_closed c \<and> x = (c, b))"
    if "api_session_statuses conns sftps sid = Some x" "snd x = b" for conns sftps sid x b
    using that by (auto simp: api_session_statuses_def dest!: find_member)
  obtain s where s: "s \<in> set ss" "sc_id s \<in> set (ae_allowed_ids env h)"
    "i = session_item_of (api_session_statuses (ae_connections env h) (ae_sftps env h)) s"
    using assms(2) i by auto
  obtain u where "vault_unlocked (ae_vault env h) = Inr u" "set ss \<subseteq> set (vd_sessions (uv_data u))"
    using ss by (auto simp: vault_sessions_def and_then_Inr_iff)
  moreover have "si_session_id i = sc_id s" "si_name i = sc_name s" using s(3) by (simp_all add: session_item_of_def Let_def)
  moreover have "\<exists>c\<in>set (ae_connections env h). ac_session_id c = si_session_id i \<and> ac_origin c = Automation
      \<and> ac_status c = StConnected \<and> \<not> ac_closed c \<and> si_connection_id i = Some (ac_id c)" if "si_connected i"
    using that s(3) st by (auto simp: session_item_of_def Let_def split: option.splits prod.splits) fastforce?
  ultimately show ?thesis using s h' by auto
qed

text \<open>A command that fails on the way is logged as it is, with its arguments, where a successful one is shortened.\<close>

lemma failed_command_is_logged_raw:
  "ae_names env h = [] \<Longrightarrow>
   fst (finish_call env sid ''rest/exec'' command entry (Inl e) h) = h @ [Logged ''rest/exec'' (command @ '' -> '' @ e) False None]"
  by (simp add: finish_call_def act_bind_def log_failure_def act_emit_def act_lift_def friendly_error_detail_def
      allowed_session_names_snapshot_def)

section \<open>An environment\<close>

text \<open>One allowed session with a live connection; commands print \<open>out\<close> and succeed.\<close>

definition demo_connection :: api_connection where
  "demo_connection = \<lparr>ac_id = ''c'', ac_session_id = ''s'', ac_origin = Automation, ac_status = StConnected,
     ac_closed = False, ac_connected_at = ''t''\<rparr>"

definition demo_output :: exec_output where
  "demo_output = \<lparr>eo_stdout = ''out'', eo_stderr = [],
     eo_result = \<lparr>xr_stdout_bytes = 3, xr_stderr_bytes = 0, xr_output_truncated = False, xr_exit_status = Some 0,
       xr_duration_ms = 1, xr_execution_ms = 1, xr_channel_open_ms = 0, xr_connection_ms = 0, xr_queue_ms = 0,
       xr_timed_out = False\<rparr>\<rparr>"

definition demo_api :: "unit api_env" where
  "demo_api =
     \<lparr>ae_key = (\<lambda>_. ''k''), ae_allowed = (\<lambda>_. {''s''}), ae_allowed_ids = (\<lambda>_. [''s'']), ae_names = (\<lambda>_. [(''s'', ''n'')]),
      ae_vault = (\<lambda>_. one_session_vault), ae_connections = (\<lambda>_. [demo_connection]),
      ae_sftps = (\<lambda>_. [\<lparr>af_id = ''f'', af_connection_id = ''c'', af_closed = False\<rparr>]),
      ae_connect = (\<lambda>_. Inr []), ae_disconnect = (\<lambda>_. Inr ()), ae_open_sftp = (\<lambda>_. Inr ()), ae_permit = (\<lambda>_. Inr ()),
      ae_exec = (\<lambda>_. Inr demo_output), ae_latency = (\<lambda>_. Inr ()), ae_latency_text = (\<lambda>_. ''1''),
      ae_dir = (\<lambda>_. \<lparr>da_open = None, da_reads = [], da_close = None\<rparr>), ae_stat = (\<lambda>_. Inl ''no such file''),
      ae_to_value = (\<lambda>_. None), ae_render = (\<lambda>_. []), ae_digest = (\<lambda>_. ''d'')\<rparr>"

lemmas act_defs = act_bind_def act_try_def act_return_def act_fail_def act_lift_def act_emit_def require_auth_def
  required_def session_access_def on_connection_def on_sftp_def or_remote_error_def log_line_def

lemma demo_access: "session_access demo_api ''s'' h = (h @ [AccessCheck ''s'' True], Inr ())"
  by (simp add: session_access_def demo_api_def verify_session_access_def)

lemma demo_auth: "require_auth demo_api (Some ''Bearer k'') h = (h, Inr ())"
  by (simp add: act_defs demo_api_def verify_auth_def strip_prefix_def)

lemma demo_exists: "ensure_session_exists ''s'' one_session_vault = Inr ()"
  by (simp add: ensure_session_exists_def vault_unlocked_def one_session_vault_def one_session_def ok_or_def and_then_def)

lemma demo_ready: "ensure_api_session_ready demo_api ''s'' b h = (h @ [AccessCheck ''s'' True], Inr ())"
  unfolding ensure_api_session_ready_def act_bind_def demo_access
  by (simp add: act_lift_def act_return_def demo_api_def demo_exists api_session_status_for_def usable_connection_def
      demo_connection_def)

lemma demo_exec: "api_exec demo_api ''s'' command t h = (h @ [RemoteCall demo_connection (ExecCall command t)], Inr (Inr demo_output))"
  by (simp add: api_exec_def on_connection_def find_connection_for_session_def demo_api_def usable_connection_def
      demo_connection_def ok_or_def text_error_def)

end
