(* ===== verification/Num_Parse.thy ===== *)
theory Num_Parse
  imports Decimal
begin

text \<open>Splitting at the first or last occurrence of a character, and \<open>str::parse\<close> for unsigned integers: an optional plus sign, decimal digits, nothing else, no overflow.\<close>

definition split_once :: "char \<Rightarrow> string \<Rightarrow> (string \<times> string) option" where
  "split_once x s = (case find_char x s of None \<Rightarrow> None | Some i \<Rightarrow> Some (take i s, drop (Suc i) s))"

definition rsplit_once :: "char \<Rightarrow> string \<Rightarrow> (string \<times> string) option" where
  "rsplit_once x s =
     (case find_char x (rev s) of
        None \<Rightarrow> None
      | Some i \<Rightarrow> Some (take (length s - Suc i) s, drop (length s - i) s))"

definition is_digit :: "char \<Rightarrow> bool" where
  "is_digit c \<longleftrightarrow> 48 \<le> (of_char c :: nat) \<and> (of_char c :: nat) \<le> 57"

definition parse_unsigned :: "nat \<Rightarrow> string \<Rightarrow> nat option" where
  "parse_unsigned limit s =
     (let d = (case s of [] \<Rightarrow> [] | c # r \<Rightarrow> if c = CHR ''+'' then r else s) in
      if d = [] \<or> \<not> list_all is_digit d then None else if undec d \<le> limit then Some (undec d) else None)"

abbreviation parse_u64 :: "string \<Rightarrow> nat option" where
  "parse_u64 \<equiv> parse_unsigned u64_max"

lemma digit_char: "n < (10::nat) \<Longrightarrow> is_digit (char_of (48 + n))"
  by (simp add: is_digit_def)

lemma dec_string_all_digits: "list_all is_digit (dec_string n)"
proof (induction n rule: dec_string.induct)
  case (1 n)
  then show ?case using digit_char [of n] digit_char [of "n mod 10"] by (simp add: dec_string.simps [of n])
qed

lemma dec_string_not_Nil [simp]: "dec_string n \<noteq> []"
  by (simp add: dec_string.simps [of n])

lemma plus_no_digit: "\<not> is_digit (CHR ''+'')"
  by (simp add: is_digit_def)

lemma parse_unsigned_dec_string: "parse_unsigned limit (dec_string n) = (if n \<le> limit then Some n else None)"
proof -
  obtain c r where s: "dec_string n = c # r" by (cases "dec_string n") auto
  have "is_digit c" using dec_string_all_digits [of n] s by simp
  then have "c \<noteq> CHR ''+''" using plus_no_digit by auto
  then have "(case dec_string n of [] \<Rightarrow> [] | c # r \<Rightarrow> if c = CHR ''+'' then r else dec_string n) = dec_string n"
    using s by simp
  then show ?thesis using dec_string_all_digits [of n] unfolding parse_unsigned_def Let_def by simp
qed

lemma parse_unsigned_le: "parse_unsigned limit s = Some n \<Longrightarrow> n \<le> limit"
  by (auto simp: parse_unsigned_def Let_def split: if_splits)

lemma parse_unsigned_chars: "parse_unsigned limit s = Some n \<Longrightarrow> c \<in> set s \<Longrightarrow> is_digit c \<or> c = CHR ''+''"
  by (auto simp: parse_unsigned_def Let_def list_all_iff split: if_splits list.splits)

end
