(* ===== verification/Api_Pages.thy ===== *)
theory Api_Pages
  imports Api_Access Num_Parse "HOL-Library.Multiset"
begin

text \<open>
  Remote directories over the HTTP interface: whole, page by page with a cursor, and the metadata of one path
  (\<open>api\_server/handlers\_remote.rs\<close>, \<open>remote/runtime\_api.rs\<close>), over the reads of a directory in the vendored
  SFTP client.
\<close>

section \<open>Entries\<close>

record file_entry =
  fe_name :: string
  fe_path :: string
  fe_file_type :: string
  fe_size :: nat
  fe_modified_at :: string
  fe_permissions :: string
  fe_owner :: string

definition api_file_entry :: "string \<Rightarrow> string \<Rightarrow> file_attributes \<Rightarrow> file_entry" where
  "api_file_entry parent name m =
     (let entry = remote_entry parent name m;
          file_type = (case re_file_type entry of FtDirectory \<Rightarrow> ''directory'' | FtSymlink \<Rightarrow> ''symlink''
                         | FtFile \<Rightarrow> ''file'' | FtOther \<Rightarrow> ''other'')
      in \<lparr>fe_name = re_name entry, fe_path = re_path entry, fe_file_type = file_type, fe_size = re_size entry,
          fe_modified_at = re_modified_at entry, fe_permissions = re_permissions entry, fe_owner = re_owner entry\<rparr>)"

section \<open>Reading a directory\<close>

type_synonym dir_entry = "string \<times> file_attributes"

definition dot_entry :: "dir_entry \<Rightarrow> bool" where
  "dot_entry f \<longleftrightarrow> fst f = ''.'' \<or> fst f = ''..''"

text \<open>The whole directory: every answer is put before those that came earlier; the iterator leaves out the dots.\<close>

fun drain :: "(string + dir_entry list) list \<Rightarrow> dir_entry list \<Rightarrow> string + dir_entry list" where
  "drain [] files = Inr files"
| "drain (Inl e # _) files = Inl e"
| "drain (Inr b # rest) files = drain rest (b @ files)"

definition read_dir :: "dir_answers \<Rightarrow> string + dir_entry list" where
  "read_dir d =
     (case da_open d of
        Some e \<Rightarrow> Inl e
      | None \<Rightarrow>
          and_then (drain (da_reads d) []) (\<lambda>files.
            case da_close d of Some e \<Rightarrow> Inl e | None \<Rightarrow> Inr (filter (\<lambda>f. \<not> dot_entry f) files)))"

text \<open>One page: the loop over the files of one answer says whether it has seen one file more than it may return.\<close>

fun page_files :: "nat \<Rightarrow> nat \<Rightarrow> dir_entry list \<Rightarrow> nat \<Rightarrow> dir_entry list \<Rightarrow> bool \<times> nat \<times> dir_entry list" where
  "page_files offset limit [] skipped files = (False, skipped, files)"
| "page_files offset limit (f # fs) skipped files =
     (if dot_entry f then page_files offset limit fs skipped files
      else if skipped < offset then page_files offset limit fs (sat_add64 skipped 1) files
      else if length (files @ [f]) > limit then (True, skipped, files @ [f])
      else page_files offset limit fs skipped (files @ [f]))"

fun page_reads ::
  "nat \<Rightarrow> nat \<Rightarrow> (string + dir_entry list) list \<Rightarrow> nat \<Rightarrow> dir_entry list \<Rightarrow> string + dir_entry list" where
  "page_reads offset limit [] skipped files = Inr files"
| "page_reads offset limit (Inl e # _) skipped files = Inl e"
| "page_reads offset limit (Inr b # rest) skipped files =
     (case page_files offset limit b skipped files of
        (True, _, files') \<Rightarrow> Inr files'
      | (False, skipped', files') \<Rightarrow> page_reads offset limit rest skipped' files')"

definition read_dir_page :: "dir_answers \<Rightarrow> nat \<Rightarrow> nat \<Rightarrow> string + dir_entry list \<times> bool" where
  "read_dir_page d offset limit =
     (case da_open d of
        Some e \<Rightarrow> Inl e
      | None \<Rightarrow>
          (let limit = max limit 1 in
           and_then (page_reads offset limit (da_reads d) 0 []) (\<lambda>files.
             case da_close d of
               Some e \<Rightarrow> Inl e
             | None \<Rightarrow> Inr (take limit files, length files > limit))))"

section \<open>The calls\<close>

definition api_list_files :: "'l api_env \<Rightarrow> string \<Rightarrow> string \<Rightarrow> (string + file_entry list) act" where
  "api_list_files env session_id path =
     on_sftp env session_id (ListCall path) (\<lambda>h.
       case read_dir (ae_dir env h) of
         Inl e \<Rightarrow> Inl (''listing the directory failed: '' @ e)
       | Inr entries \<Rightarrow> Inr (map (\<lambda>(name, m). api_file_entry path name m) entries))"

definition api_list_files_page ::
  "'l api_env \<Rightarrow> string \<Rightarrow> string \<Rightarrow> nat \<Rightarrow> nat \<Rightarrow> (string + file_entry list \<times> bool) act" where
  "api_list_files_page env session_id path offset limit =
     on_sftp env session_id (PageCall path offset limit) (\<lambda>h.
       case read_dir_page (ae_dir env h) offset limit of
         Inl e \<Rightarrow> Inl (''listing a page of the directory failed: '' @ e)
       | Inr (entries, has_more) \<Rightarrow> Inr (map (\<lambda>(name, m). api_file_entry path name m) entries, has_more))"

text \<open>The parent and the name of a normalised path.\<close>

definition stat_parts :: "string \<Rightarrow> string \<times> string" where
  "stat_parts normalized =
     (if normalized = ''/'' then (''/'', ''/'')
      else (case rsplit_once (CHR ''/'') normalized of
              None \<Rightarrow> (''/'', normalized)
            | Some (parent, name) \<Rightarrow> (if parent = [] then ''/'' else parent, name)))"

definition api_file_stat :: "'l api_env \<Rightarrow> string \<Rightarrow> string \<Rightarrow> (string + file_entry) act" where
  "api_file_stat env session_id path =
     (let normalized = normalize_remote_path path in
      on_sftp env session_id (StatCall normalized) (\<lambda>h.
        case ae_stat env h of
          Inl e \<Rightarrow> Inl (''reading the metadata failed: '' @ e)
        | Inr m \<Rightarrow>
            (case stat_parts normalized of
               (parent, name) \<Rightarrow> Inr ((api_file_entry parent name m)\<lparr>fe_path := normalized\<rparr>))))"

section \<open>Cursors\<close>

definition files_cursor_tag :: "(string \<Rightarrow> string) \<Rightarrow> string \<Rightarrow> string" where
  "files_cursor_tag digest path = take 16 (digest (trim path))"

definition encode_files_cursor :: "(string \<Rightarrow> string) \<Rightarrow> string \<Rightarrow> nat \<Rightarrow> string" where
  "encode_files_cursor digest path offset = ''v1:'' @ files_cursor_tag digest path @ '':'' @ dec_string offset"

definition decode_files_cursor :: "(string \<Rightarrow> string) \<Rightarrow> string option \<Rightarrow> string \<Rightarrow> nat http_result" where
  "decode_files_cursor digest cursor path =
     (case cursor of
        None \<Rightarrow> Inr 0
      | Some c \<Rightarrow>
          (case split_on (CHR '':'') c of
             [version, tag, n] \<Rightarrow>
               if version = ''v1'' \<and> tag = files_cursor_tag digest path
               then (case parse_u64 n of
                       None \<Rightarrow> Inl (BadRequest, ''invalid cursor or cursor of another directory'')
                     | Some offset \<Rightarrow> Inr offset)
               else Inl (BadRequest, ''invalid cursor or cursor of another directory'')
           | _ \<Rightarrow> Inl (BadRequest, ''invalid cursor or cursor of another directory'')))"

section \<open>The handlers\<close>

definition rest_files :: "'l api_env \<Rightarrow> string option \<Rightarrow> string \<Rightarrow> string \<Rightarrow> file_entry list act" where
  "rest_files env auth session_id path =
     act_bind (require_auth env auth) (\<lambda>_.
     act_bind (required (trim session_id \<noteq> []) ''missing sessionId'') (\<lambda>_.
     act_bind (required (trim path \<noteq> []) ''missing path'') (\<lambda>_.
     act_bind (session_access env session_id) (\<lambda>_.
     act_bind (ensure_api_session_ready env session_id True) (\<lambda>_.
     act_bind (api_list_files env session_id path) (\<lambda>r.
       finish_call env session_id ''rest/files'' path
         (\<lambda>entries. Logged ''rest/files'' (path @ '' ('' @ dec_string (length entries) @ '' items)'') True None) r))))))"

definition DEFAULT_FILES_PAGE_LIMIT :: nat where "DEFAULT_FILES_PAGE_LIMIT = 100"
definition MAX_FILES_PAGE_LIMIT :: nat where "MAX_FILES_PAGE_LIMIT = 500"

record files_page =
  fp_items :: "file_entry list"
  fp_next_cursor :: "string option"
  fp_has_more :: bool

definition page_limit :: "16 word option \<Rightarrow> nat" where
  "page_limit limit = (case limit of None \<Rightarrow> DEFAULT_FILES_PAGE_LIMIT | Some l \<Rightarrow> unat l)"

definition rest_files_page ::
  "'l api_env \<Rightarrow> string option \<Rightarrow> string \<Rightarrow> string \<Rightarrow> string option \<Rightarrow> 16 word option \<Rightarrow> files_page act" where
  "rest_files_page env auth session_id path cursor limit0 =
     act_bind (require_auth env auth) (\<lambda>_.
     act_bind (required (trim session_id \<noteq> [] \<and> trim path \<noteq> []) ''missing sessionId or path'') (\<lambda>_.
     let limit = page_limit limit0 in
     act_bind (required (1 \<le> limit \<and> limit \<le> MAX_FILES_PAGE_LIMIT) ''limit must be 1 to 500'') (\<lambda>_.
     act_bind (act_lift (\<lambda>_. decode_files_cursor (ae_digest env) cursor path)) (\<lambda>offset.
     act_bind (session_access env session_id) (\<lambda>_.
     act_bind (ensure_api_session_ready env session_id True) (\<lambda>_.
     act_bind (api_list_files_page env session_id path offset limit) (\<lambda>r.
     act_bind (or_remote_error env r) (\<lambda>(items, has_more).
     act_bind (session_access env session_id) (\<lambda>_.
     act_bind (log_line ''rest/files.page'' (path @ '' ('' @ dec_string (length items) @ '' items)'') True) (\<lambda>_.
       act_return \<lparr>fp_items = items,
         fp_next_cursor = (if has_more then Some (encode_files_cursor (ae_digest env) path (sat_add64 offset (length items)))
                           else None),
         fp_has_more = has_more\<rparr>))))))))))"

definition rest_file_stat :: "'l api_env \<Rightarrow> string option \<Rightarrow> string \<Rightarrow> string \<Rightarrow> file_entry act" where
  "rest_file_stat env auth session_id path =
     act_bind (require_auth env auth) (\<lambda>_.
     act_bind (required (trim session_id \<noteq> [] \<and> trim path \<noteq> []) ''missing sessionId or path'') (\<lambda>_.
     act_bind (session_access env session_id) (\<lambda>_.
     act_bind (ensure_api_session_ready env session_id True) (\<lambda>_.
     act_bind (api_file_stat env session_id path) (\<lambda>r.
     act_bind (or_remote_error env r) (\<lambda>entry.
     act_bind (session_access env session_id) (\<lambda>_.
     act_bind (log_line ''rest/files.stat'' path True) (\<lambda>_.
       act_return entry))))))))"

section \<open>Access\<close>

lemma guards_rest_files:
  assumes "C OpenSftpCall" "C (ListCall path)"
  shows "guards C sid (f0, k0) (True, k0) (rest_files env auth sid path)"
  unfolding rest_files_def api_list_files_def
  by (rule guards_bind [OF guards_auth], rule guards_bind [OF guards_required], rule guards_bind [OF guards_required],
      rule guards_bind [OF guards_access], rule guards_bind [OF guards_ready [where C = C, OF assms(1)]],
      rule guards_bind [OF guards_sftp [where C = C, OF assms(2)]], simp, rule guards_finish) auto

lemma guards_rest_files_page:
  assumes "C OpenSftpCall" "\<And>n l. 1 \<le> l \<Longrightarrow> l \<le> MAX_FILES_PAGE_LIMIT \<Longrightarrow> C (PageCall path n l)"
  shows "guards C sid (f0, k0) (True, k0) (rest_files_page env auth sid path cursor limit)"
  unfolding rest_files_page_def api_list_files_page_def required_def [of "1 \<le> _ \<and> _"] Let_def
  by (rule guards_bind [OF guards_auth], rule guards_bind [OF guards_required], rule guards_lift_bind,
      rule guards_bind [OF guards_lift], rule guards_bind [OF guards_access],
      rule guards_bind [OF guards_ready [where C = C, OF assms(1)]],
      rule guards_bind [OF guards_sftp [where C = C, OF assms(2)]])
    (auto intro!: guards_bind [OF guards_or_error] guards_bind [OF guards_access] guards_bind [OF guards_log_line]
      guards_return split: if_splits)

lemma guards_rest_file_stat:
  assumes "C OpenSftpCall" "C (StatCall (normalize_remote_path path))"
  shows "guards C sid (f0, k0) (True, k0) (rest_file_stat env auth sid path)"
  unfolding rest_file_stat_def api_file_stat_def Let_def
  by (rule guards_bind [OF guards_auth], rule guards_bind [OF guards_required], rule guards_bind [OF guards_access],
      rule guards_bind [OF guards_ready [where C = C, OF assms(1)]],
      rule guards_bind [OF guards_sftp [where C = C, OF assms(2)]], simp,
      rule guards_bind [OF guards_or_error], rule guards_bind [OF guards_access],
      rule guards_bind [OF guards_log_line guards_return])

lemma files_need_key:
  "needs_key env auth (rest_files env auth sid path)"
  "needs_key env auth (rest_files_page env auth sid path cursor limit)"
  "needs_key env auth (rest_file_stat env auth sid path)"
  unfolding rest_files_def rest_files_page_def rest_file_stat_def by (rule needs_key_bind)+

section \<open>Pages\<close>

lemma page_files_spec:
  "page_files offset limit fs skipped files = (full, skipped', files') \<Longrightarrow> skipped \<le> offset \<Longrightarrow> offset \<le> u64_max \<Longrightarrow>
   length files \<le> limit \<Longrightarrow> (files \<noteq> [] \<longrightarrow> skipped = offset) \<Longrightarrow>
   (let v = filter (\<lambda>f. \<not> dot_entry f) fs in
    files' = files @ take (Suc limit - length files) (drop (offset - skipped) v)
    \<and> (full \<longleftrightarrow> length files' = Suc limit) \<and> length files' \<le> Suc limit
    \<and> skipped' \<le> offset \<and> (\<not> full \<longrightarrow> skipped' = min offset (skipped + length v)) \<and> (files' \<noteq> [] \<longrightarrow> skipped' = offset))"
proof (induction offset limit fs skipped files rule: page_files.induct)
  case (1 offset limit skipped files)
  then show ?case by auto
next
  case (2 offset limit f fs skipped files)
  show ?case
  proof (cases "dot_entry f")
    case True
    then show ?thesis using 2 by simp
  next
    case vis: False
    show ?thesis
    proof (cases "skipped < offset")
      case True
      then have "sat_add64 skipped 1 = Suc skipped" using 2(6) by (simp add: sat_add64_def)
      moreover have "offset - skipped = Suc (offset - Suc skipped)" using True by simp
      ultimately show ?thesis using 2 vis True by (auto simp: Let_def)
    next
      case False
      then have "skipped = offset" using 2(5) by simp
      then show ?thesis using 2 vis False
        by (cases "length (files @ [f]) > limit") (auto simp: Let_def Suc_diff_le)
    qed
  qed
qed

lemma page_reads_spec:
  "\<forall>r\<in>set reads. \<exists>b. r = Inr b \<Longrightarrow> skipped \<le> offset \<Longrightarrow> offset \<le> u64_max \<Longrightarrow>
   length files \<le> limit \<Longrightarrow> (files \<noteq> [] \<longrightarrow> skipped = offset) \<Longrightarrow>
   page_reads offset limit reads skipped files =
     Inr (files @ take (Suc limit - length files)
            (drop (offset - skipped) (filter (\<lambda>f. \<not> dot_entry f) (concat (map projr reads)))))"
proof (induction offset limit reads skipped files rule: page_reads.induct)
  case (3 offset limit b rest skipped files)
  obtain full skipped' files' where p: "page_files offset limit b skipped files = (full, skipped', files')"
    using prod_cases3 by blast
  let ?v = "filter (\<lambda>f. \<not> dot_entry f) b"
  from page_files_spec [OF p "3.prems"(2-5)] have f:
    "files' = files @ take (Suc limit - length files) (drop (offset - skipped) ?v)"
    "full \<longleftrightarrow> length files' = Suc limit" "length files' \<le> Suc limit" "skipped' \<le> offset"
    "\<not> full \<Longrightarrow> skipped' = min offset (skipped + length ?v)" "files' \<noteq> [] \<longrightarrow> skipped' = offset"
    by (auto simp: Let_def)
  show ?case
  proof (cases full)
    case True
    then have "Suc limit - length files \<le> length (drop (offset - skipped) ?v)"
      using f(1,2) "3.prems"(4) by (auto simp: min_def split: if_splits)
    then show ?thesis using p True f(1) by simp
  next
    case False
    then have len: "length files' \<le> limit" using f(2,3) by auto
    then have all: "take (Suc limit - length files) (drop (offset - skipped) ?v) = drop (offset - skipped) ?v"
      using f(1) by (auto simp: min_def split: if_splits)
    have off: "offset - skipped' = offset - skipped - length ?v" using f(5) [OF False] "3.prems"(2) by auto
    have "page_reads offset limit rest skipped' files' =
      Inr (files' @ take (Suc limit - length files')
        (drop (offset - skipped') (filter (\<lambda>f. \<not> dot_entry f) (concat (map projr rest)))))"
      by (rule "3.IH" [OF p [symmetric] _ refl]) (use "3.prems" len f False in auto)
    then show ?thesis using p False f(1) all off by (simp add: diff_right_commute)
  qed
qed auto

lemma read_dir_page_spec:
  assumes "da_open d = None" "da_close d = None" "\<forall>r\<in>set (da_reads d). \<exists>b. r = Inr b" "offset \<le> u64_max" "1 \<le> limit"
  shows "read_dir_page d offset limit =
    (let v = filter (\<lambda>f. \<not> dot_entry f) (concat (map projr (da_reads d))) in
     Inr (take limit (drop offset v), offset + limit < length v))"
proof -
  have "max limit 1 = limit" using assms(5) by simp
  then show ?thesis
    using assms page_reads_spec [of "da_reads d" 0 offset "[]" limit]
    by (auto simp: read_dir_page_def Let_def min_def)
qed

lemma drain_spec: "\<forall>r\<in>set reads. \<exists>b. r = Inr b \<Longrightarrow> \<exists>l. drain reads files = Inr l \<and> mset l = mset (concat (map projr reads)) + mset files"
  by (induction reads files rule: drain.induct) (auto simp: ac_simps)

section \<open>Cursors and listings agree\<close>

lemma digit_not_colon: "list_all is_digit s \<Longrightarrow> CHR '':'' \<notin> set s"
  by (auto simp: list_all_iff is_digit_def)

lemma decode_encode_cursor:
  assumes "\<And>s. CHR '':'' \<notin> set (digest s)"
  shows "decode_files_cursor digest (Some (encode_files_cursor digest path n)) path' =
    (if files_cursor_tag digest path = files_cursor_tag digest path' \<and> n \<le> u64_max then Inr n
     else Inl (BadRequest, ''invalid cursor or cursor of another directory''))"
proof -
  have "CHR '':'' \<notin> set (files_cursor_tag digest path)"
    using assms [of "trim path"] by (auto simp: files_cursor_tag_def dest: in_set_takeD)
  moreover have "CHR '':'' \<notin> set (dec_string n)" by (rule digit_not_colon [OF dec_string_all_digits])
  ultimately have "split_on (CHR '':'') (encode_files_cursor digest path n) = [''v1'', files_cursor_tag digest path, dec_string n]"
    using split_on_append [of "CHR '':''" "''v1''"] split_on_append [of "CHR '':''" "files_cursor_tag digest path"]
    by (simp add: encode_files_cursor_def split_on_single)
  then show ?thesis by (simp add: decode_files_cursor_def parse_unsigned_dec_string)
qed

text \<open>A client that follows the cursors from the first page on.\<close>

fun follow_pages ::
  "nat \<Rightarrow> (string \<Rightarrow> string) \<Rightarrow> string \<Rightarrow> dir_answers \<Rightarrow> nat \<Rightarrow> string option \<Rightarrow> dir_entry list option" where
  "follow_pages 0 digest path d limit cursor = None"
| "follow_pages (Suc fuel) digest path d limit cursor =
     (case decode_files_cursor digest cursor path of
        Inl _ \<Rightarrow> None
      | Inr offset \<Rightarrow>
          (case read_dir_page d offset limit of
             Inl _ \<Rightarrow> None
           | Inr (items, has_more) \<Rightarrow>
               if has_more
               then map_option ((@) items)
                      (follow_pages fuel digest path d limit
                         (Some (encode_files_cursor digest path (sat_add64 offset (length items)))))
               else Some items))"

lemma follow_pages_from:
  assumes digest: "\<And>s. CHR '':'' \<notin> set (digest s)"
    and d: "da_open d = None" "da_close d = None" "\<forall>r\<in>set (da_reads d). \<exists>b. r = Inr b" "1 \<le> limit"
    and v: "v = filter (\<lambda>f. \<not> dot_entry f) (concat (map projr (da_reads d)))" "length v \<le> u64_max"
  shows "decode_files_cursor digest cursor path = Inr offset \<Longrightarrow> offset \<le> length v \<Longrightarrow> length v - offset < fuel \<Longrightarrow>
    follow_pages fuel digest path d limit cursor = Some (drop offset v)"
proof (induction fuel arbitrary: cursor offset)
  case (Suc fuel)
  have page: "read_dir_page d offset limit = Inr (take limit (drop offset v), offset + limit < length v)"
    using read_dir_page_spec [OF d(1-3) _ d(4), of offset] Suc.prems(2) v by (simp add: Let_def)
  show ?case
  proof (cases "offset + limit < length v")
    case True
    then have len: "length (take limit (drop offset v)) = limit" by simp
    have sat: "sat_add64 offset limit = offset + limit" using True v(2) by (simp add: sat_add64_def)
    have "follow_pages fuel digest path d limit (Some (encode_files_cursor digest path (offset + limit)))
        = Some (drop (offset + limit) v)"
      by (rule Suc.IH) (use True v(2) Suc.prems d(4) decode_encode_cursor [OF digest] in auto)
    moreover have "take limit (drop offset v) @ drop (offset + limit) v = drop offset v"
      by (metis append_take_drop_id drop_drop add.commute)
    ultimately show ?thesis using Suc.prems(1) page True len sat by simp
  next
    case False
    then show ?thesis using Suc.prems(1) page by simp
  qed
qed simp


definition plain_file :: file_attributes where
  "plain_file = \<lparr>fa_type = FtFile, fa_size = 1, fa_uid = None, fa_gid = None, fa_user = None, fa_group = None,
     fa_permissions = None, fa_permission_text = ''rw-r--r--'', fa_modified = None\<rparr>"

definition two_answers :: dir_answers where
  "two_answers = \<lparr>da_open = None,
     da_reads = [Inr [(''.'', plain_file), (''a'', plain_file)], Inr [(''b'', plain_file)]], da_close = None\<rparr>"


end
