(* ===== verification/Api_Batch.thy ===== *)
theory Api_Batch
  imports Api_Access "HOL-Library.Multiset"
begin

text \<open>
  Several commands in one request (\<open>rest\_exec\_batch\<close> in \<open>api\_server/handlers\_remote.rs\<close>): one after the other, or
  up to four at a time, with one budget for the output that is kept.
\<close>

section \<open>One command\<close>

record batch_item =
  bi_id :: "string option"
  bi_command :: string
  bi_timeout_ms :: "nat option"

record batch_result =
  br_index :: nat
  br_id :: "string option"
  br_success :: bool
  br_result :: "exec_output option"
  br_error :: "string option"

definition failed_item :: "nat \<Rightarrow> batch_item \<Rightarrow> string \<Rightarrow> batch_result" where
  "failed_item index item e =
     \<lparr>br_index = index, br_id = bi_id item, br_success = False, br_result = None, br_error = Some e\<rparr>"

definition run_batch_exec_item :: "'l api_env \<Rightarrow> string \<Rightarrow> nat \<Rightarrow> batch_item \<Rightarrow> batch_result act" where
  "run_batch_exec_item env session_id index item =
     act_bind (act_lift (\<lambda>h. Inr (ae_permit env h))) (\<lambda>permit.
       case permit of
         Inl e \<Rightarrow> act_return (failed_item index item e)
       | Inr _ \<Rightarrow>
           act_try (session_access env session_id)
             (\<lambda>e. act_return (failed_item index item (snd e)))
             (\<lambda>_. act_bind (api_exec env session_id (bi_command item) (exec_timeout (bi_timeout_ms item))) (\<lambda>r.
                case r of
                  Inr result \<Rightarrow>
                    act_return \<lparr>br_index = index, br_id = bi_id item, br_success = exec_success result,
                                br_result = Some result, br_error = None\<rparr>
                | Inl e \<Rightarrow> act_return (failed_item index item e))))"

section \<open>The budget for output\<close>

definition MAX_API_BATCH_RETAINED_OUTPUT_BYTES :: nat where
  "MAX_API_BATCH_RETAINED_OUTPUT_BYTES = 16 * 1024 * 1024"

definition truncate_text_tail :: "string \<Rightarrow> nat \<Rightarrow> string" where
  "truncate_text_tail value max_bytes =
     (if length value \<le> max_bytes then value
      else if max_bytes = 0 then []
      else dropWhile is_cont (drop (length value - max_bytes) value))"

definition apply_batch_output_budget :: "batch_result \<Rightarrow> nat \<Rightarrow> batch_result \<times> nat" where
  "apply_batch_output_budget result remaining =
     (case br_result result of
        None \<Rightarrow> (result, remaining)
      | Some x \<Rightarrow>
          (let retained = sat_add64 (length (eo_stdout x)) (length (eo_stderr x)) in
           if retained \<le> remaining then (result, remaining - retained)
           else
             (let out = truncate_text_tail (eo_stdout x) (min remaining (length (eo_stdout x)));
                  remaining1 = remaining - length out;
                  err = truncate_text_tail (eo_stderr x) (min remaining1 (length (eo_stderr x)));
                  remaining2 = remaining1 - length err
              in (result\<lparr>br_result := Some \<lparr>eo_stdout = out, eo_stderr = err,
                                           eo_result = (eo_result x)\<lparr>xr_output_truncated := True\<rparr>\<rparr>\<rparr>, remaining2))))"

section \<open>One after the other\<close>

fun batch_sequential ::
  "'l api_env \<Rightarrow> string \<Rightarrow> bool \<Rightarrow> nat \<Rightarrow> batch_item list \<Rightarrow> nat \<Rightarrow> batch_result list act" where
  "batch_sequential env session_id stop_on_error index [] remaining = act_return []"
| "batch_sequential env session_id stop_on_error index (item # items) remaining =
     act_bind (run_batch_exec_item env session_id index item) (\<lambda>raw.
       case apply_batch_output_budget raw remaining of
         (result, remaining') \<Rightarrow>
           if stop_on_error \<and> \<not> br_success result then act_return [result]
           else act_bind (batch_sequential env session_id stop_on_error (Suc index) items remaining') (\<lambda>results.
                  act_return (result # results)))"

section \<open>Four at a time\<close>

text \<open>
  The buffer of unordered futures: commands taken from the queue and waiting for a permit, and commands whose
  answer is on its way. A schedule says what happens next: a number below the length of the first list lets that
  command go ahead, a greater one delivers the answer of that place of the second list.
\<close>

record batch_state =
  bs_queue :: "(nat \<times> batch_item) list"
  bs_waiting :: "(nat \<times> batch_item) list"
  bs_running :: "batch_result list"
  bs_results :: "batch_result list"
  bs_remaining :: nat

definition refill :: "batch_state \<Rightarrow> batch_state" where
  "refill s =
     (let room = 4 - (length (bs_waiting s) + length (bs_running s)) in
      s\<lparr>bs_waiting := bs_waiting s @ take room (bs_queue s), bs_queue := drop room (bs_queue s)\<rparr>)"

definition drop_nth :: "nat \<Rightarrow> 'a list \<Rightarrow> 'a list" where
  "drop_nth i xs = take i xs @ drop (Suc i) xs"

definition deliver :: "nat \<Rightarrow> batch_state \<Rightarrow> batch_state" where
  "deliver j s =
     (case apply_batch_output_budget (bs_running s ! j) (bs_remaining s) of
        (result, remaining') \<Rightarrow>
          refill (s\<lparr>bs_running := drop_nth j (bs_running s), bs_results := bs_results s @ [result],
                    bs_remaining := remaining'\<rparr>))"

fun batch_parallel ::
  "'l api_env \<Rightarrow> string \<Rightarrow> nat list \<Rightarrow> batch_state \<Rightarrow> history \<Rightarrow> history \<times> batch_result list option" where
  "batch_parallel env session_id schedule s h =
     (if bs_queue s = [] \<and> bs_waiting s = [] \<and> bs_running s = [] then (h, Some (bs_results s))
      else case schedule of
        [] \<Rightarrow> (h, None)
      | k # ks \<Rightarrow>
          if k < length (bs_waiting s) then
            (case bs_waiting s ! k of
               (index, item) \<Rightarrow>
                 (case run_batch_exec_item env session_id index item h of
                    (h', Inl _) \<Rightarrow> (h', None)
                  | (h', Inr result) \<Rightarrow>
                      batch_parallel env session_id ks
                        (s\<lparr>bs_waiting := drop_nth k (bs_waiting s), bs_running := bs_running s @ [result]\<rparr>) h'))
          else if k - length (bs_waiting s) < length (bs_running s)
          then batch_parallel env session_id ks (deliver (k - length (bs_waiting s)) s) h
          else batch_parallel env session_id ks s h)"

declare batch_parallel.simps [simp del]

section \<open>The handler\<close>

record batch_reply =
  bp_success :: bool
  bp_parallel :: bool
  bp_output_truncated :: bool
  bp_results :: "batch_result list"

definition check_batch_items :: "(string \<Rightarrow> string) \<Rightarrow> bool \<Rightarrow> batch_item list \<Rightarrow> unit http_result" where
  "check_batch_items lower strict items =
     foldr (\<lambda>item rest.
       if trim (bi_command item) = [] then Inl (BadRequest, ''an empty command'')
       else if length (bi_command item) > MAX_API_COMMAND_BYTES then Inl (BadRequest, ''command over 64 KiB'')
       else case check_dangerous_command lower (bi_command item) strict of
              Some reason \<Rightarrow> Inl (Forbidden, ''batch rejected: '' @ reason)
            | None \<Rightarrow> rest) items (Inr ())"

definition batch_start :: "batch_item list \<Rightarrow> batch_state" where
  "batch_start items =
     refill \<lparr>bs_queue = enumerate 0 items, bs_waiting = [], bs_running = [], bs_results = [],
             bs_remaining = MAX_API_BATCH_RETAINED_OUTPUT_BYTES\<rparr>"

text \<open>\<open>None\<close> inside when the schedule ends before the commands do: the request is then still running.\<close>

definition batch_results ::
  "'l api_env \<Rightarrow> string \<Rightarrow> bool \<Rightarrow> bool \<Rightarrow> nat list \<Rightarrow> batch_item list \<Rightarrow> batch_result list option act" where
  "batch_results env session_id in_parallel stop_on_error schedule items =
     (if in_parallel
      then (\<lambda>h. case batch_parallel env session_id schedule (batch_start items) h of (h', r) \<Rightarrow> (h', Inr r))
      else act_bind (batch_sequential env session_id stop_on_error 0 items MAX_API_BATCH_RETAINED_OUTPUT_BYTES)
             (\<lambda>results. act_return (Some results)))"

definition rest_exec_batch ::
  "'l api_env \<Rightarrow> (string \<Rightarrow> string) \<Rightarrow> string option \<Rightarrow> string \<Rightarrow> batch_item list \<Rightarrow> bool \<Rightarrow> bool \<Rightarrow> string option
   \<Rightarrow> nat list \<Rightarrow> batch_reply option act" where
  "rest_exec_batch env lower auth session_id items in_parallel stop_on_error safety_mode schedule =
     act_bind (require_auth env auth) (\<lambda>_.
     act_bind (required (trim session_id \<noteq> []) ''missing sessionId'') (\<lambda>_.
     act_bind (required (items \<noteq> [] \<and> length items \<le> 32) ''commands must be 1 to 32'') (\<lambda>_.
     act_bind (act_lift (\<lambda>_. strict_safety_mode safety_mode)) (\<lambda>strict.
     act_bind (act_lift (\<lambda>_. check_batch_items lower strict items)) (\<lambda>_.
     act_bind (session_access env session_id) (\<lambda>_.
     act_bind (ensure_api_session_ready env session_id False) (\<lambda>_.
     act_bind (batch_results env session_id in_parallel stop_on_error schedule items) (\<lambda>done_results.
       case done_results of
         None \<Rightarrow> act_return None
       | Some unsorted \<Rightarrow>
           (let results = sort_key br_index unsorted in
            act_bind (session_access env session_id) (\<lambda>_.
            let success = (\<forall>r\<in>set results. br_success r) in
            act_bind (log_line ''rest/exec-batch'' (dec_string (length results) @ (if in_parallel then '' parallel'' else '' in order''))
                        success) (\<lambda>_.
              act_return (Some \<lparr>bp_success = success, bp_parallel = in_parallel,
                bp_output_truncated = (\<exists>r\<in>set results. case br_result r of None \<Rightarrow> False
                                          | Some x \<Rightarrow> xr_output_truncated (eo_result x)),
                bp_results = results\<rparr>))))))))))))"

section \<open>Access\<close>

lemma guards_run_item:
  assumes "C (ExecCall (bi_command item) (exec_timeout (bi_timeout_ms item)))"
  shows "guards C sid (f0, k0) (False, k0) (run_batch_exec_item env sid index item)"
proof -
  have answer: "guards C sid (b, k0) (False, k0) (case r of
      Inl e \<Rightarrow> act_return (failed_item index item e)
    | Inr result \<Rightarrow> act_return \<lparr>br_index = index, br_id = bi_id item, br_success = exec_success result,
        br_result = Some result, br_error = None\<rparr>)" for r b
    by (cases r) (auto intro: guards_weaken [OF guards_return [of C sid "(b, k0)"]])
  have item: "guards C sid (True, k0) (False, k0) (act_bind (api_exec env sid (bi_command item) (exec_timeout (bi_timeout_ms item))) (\<lambda>r.
      case r of Inl e \<Rightarrow> act_return (failed_item index item e)
      | Inr result \<Rightarrow> act_return \<lparr>br_index = index, br_id = bi_id item, br_success = exec_success result,
          br_result = Some result, br_error = None\<rparr>))"
    unfolding api_exec_def
    by (rule guards_bind [OF guards_connection [where C = C, OF assms] answer]) simp
  have "guards C sid (f0, k0) (False, k0) (act_try (session_access env sid)
      (\<lambda>e. act_return (failed_item index item (snd e)))
      (\<lambda>_. act_bind (api_exec env sid (bi_command item) (exec_timeout (bi_timeout_ms item))) (\<lambda>r.
        case r of Inl e \<Rightarrow> act_return (failed_item index item e)
        | Inr result \<Rightarrow> act_return \<lparr>br_index = index, br_id = bi_id item, br_success = exec_success result,
            br_result = Some result, br_error = None\<rparr>)))"
    by (rule guards_try [OF guards_access])
      (auto intro: item guards_weaken [OF guards_return [of C sid "(False, k0)"]] simp: session_access_def)
  then show ?thesis
    unfolding run_batch_exec_item_def
    by (intro guards_bind [OF guards_lift [of C sid "(f0, k0)"]])
      (auto intro: guards_weaken [OF guards_return [of C sid "(f0, k0)"]] split: sum.split)
qed

lemma run_item_result:
  "\<exists>h' r. run_batch_exec_item env sid index item h = (h', Inr r) \<and> br_index r = index \<and> br_id r = bi_id item
     \<and> (br_success r \<longrightarrow> (\<exists>x. br_result r = Some x \<and> exec_success x))"
  by (auto simp: run_batch_exec_item_def act_bind_def act_lift_def act_try_def act_return_def failed_item_def
      api_exec_def on_connection_def split: sum.splits prod.splits)

lemma guards_sequential:
  assumes "\<forall>item\<in>set items. C (ExecCall (bi_command item) (exec_timeout (bi_timeout_ms item)))"
  shows "guards C sid (f0, k0) (False, k0) (batch_sequential env sid stop index items remaining)"
  using assms
proof (induction items arbitrary: index remaining f0)
  case Nil
  then show ?case by (auto intro: guards_weaken [OF guards_return [of C sid "(f0, k0)"]])
next
  case (Cons item items)
  have "guards C sid (False, k0) (False, k0) (case apply_batch_output_budget raw remaining of (result, remaining') \<Rightarrow>
      if stop \<and> \<not> br_success result then act_return [result]
      else act_bind (batch_sequential env sid stop (Suc index) items remaining') (\<lambda>results. act_return (result # results)))"
    for raw
    using Cons by (auto intro!: guards_return guards_bind [OF Cons.IH guards_return] split: prod.split)
  with Cons.prems show ?case by (auto intro!: guards_bind [OF guards_run_item])
qed

lemma members_refill: "mset (bs_queue (refill s)) + mset (bs_waiting (refill s)) = mset (bs_queue s) + mset (bs_waiting s)"
proof -
  let ?room = "4 - (length (bs_waiting s) + length (bs_running s))"
  have "mset (bs_queue s) = mset (take ?room (bs_queue s)) + mset (drop ?room (bs_queue s))"
    by (metis append_take_drop_id mset_append)
  then show ?thesis by (simp add: refill_def Let_def)
qed

lemma mset_drop_nth: "i < length xs \<Longrightarrow> mset xs = add_mset (xs ! i) (mset (drop_nth i xs))"
  by (simp add: drop_nth_def) (metis id_take_nth_drop mset.simps(2) mset_append union_mset_add_mset_right)

lemma set_drop_nth: "set (drop_nth i xs) \<subseteq> set xs"
  by (auto simp: drop_nth_def dest: in_set_takeD in_set_dropD)

lemma length_drop_nth: "i < length xs \<Longrightarrow> Suc (length (drop_nth i xs)) = length xs"
  by (simp add: drop_nth_def)

section \<open>The budget holds\<close>

definition kept_bytes :: "batch_result \<Rightarrow> nat" where
  "kept_bytes r = (case br_result r of None \<Rightarrow> 0 | Some x \<Rightarrow> length (eo_stdout x) + length (eo_stderr x))"

lemma truncate_text_tail_spec: "length (truncate_text_tail v n) \<le> n \<and> suffix (truncate_text_tail v n) v"
proof -
  have "length (dropWhile is_cont (drop (length v - n) v)) \<le> length (drop (length v - n) v)"
    by (rule length_dropWhile_le)
  moreover have "suffix (dropWhile is_cont (drop (length v - n) v)) v"
    by (rule suffix_order.order_trans [OF suffix_dropWhile suffix_drop])
  ultimately show ?thesis by (auto simp: truncate_text_tail_def)
qed

lemma apply_budget_spec:
  assumes "apply_batch_output_budget r remaining = (r', remaining')" "remaining < u64_max"
  shows "kept_bytes r' + remaining' = remaining \<and> br_index r' = br_index r \<and> br_id r' = br_id r
    \<and> br_success r' = br_success r \<and> br_error r' = br_error r
    \<and> (\<forall>x. br_result r = Some x \<longrightarrow> (\<exists>x'. br_result r' = Some x' \<and> suffix (eo_stdout x') (eo_stdout x)
         \<and> suffix (eo_stderr x') (eo_stderr x) \<and> (x' = x \<or> xr_output_truncated (eo_result x'))))"
proof (cases "br_result r")
  case None
  then show ?thesis using assms(1) by (auto simp: apply_batch_output_budget_def kept_bytes_def)
next
  case (Some x)
  let ?ret = "sat_add64 (length (eo_stdout x)) (length (eo_stderr x))"
  show ?thesis
  proof (cases "?ret \<le> remaining")
    case True
    then have "?ret < u64_max" using assms(2) by linarith
    then have "?ret = length (eo_stdout x) + length (eo_stderr x)"
      unfolding sat_add64_def min_def by (auto split: if_splits)
    moreover have "r' = r" "remaining' = remaining - ?ret"
      using assms(1) Some True by (simp_all add: apply_batch_output_budget_def Let_def)
    ultimately show ?thesis using Some True by (simp add: kept_bytes_def)
  next
    case False
    let ?out = "truncate_text_tail (eo_stdout x) (min remaining (length (eo_stdout x)))"
    let ?err = "truncate_text_tail (eo_stderr x) (min (remaining - length ?out) (length (eo_stderr x)))"
    have "length ?out \<le> remaining" "length ?err \<le> remaining - length ?out" "suffix ?out (eo_stdout x)" "suffix ?err (eo_stderr x)"
      using truncate_text_tail_spec [of "eo_stdout x" "min remaining (length (eo_stdout x))"]
        truncate_text_tail_spec [of "eo_stderr x" "min (remaining - length ?out) (length (eo_stderr x))"]
      by (simp_all only: min.bounded_iff)
    then have "length ?out + length ?err \<le> remaining" "suffix ?out (eo_stdout x)" "suffix ?err (eo_stderr x)"
      by linarith+
    moreover have "r' = r\<lparr>br_result := Some \<lparr>eo_stdout = ?out, eo_stderr = ?err,
        eo_result = (eo_result x)\<lparr>xr_output_truncated := True\<rparr>\<rparr>\<rparr>" "remaining' = remaining - length ?out - length ?err"
      using assms(1) Some False by (simp_all add: apply_batch_output_budget_def Let_def)
    ultimately obtain out err where o: "length out + length err \<le> remaining" "suffix out (eo_stdout x)"
        "suffix err (eo_stderr x)" "r' = r\<lparr>br_result := Some \<lparr>eo_stdout = out, eo_stderr = err,
           eo_result = (eo_result x)\<lparr>xr_output_truncated := True\<rparr>\<rparr>\<rparr>"
        "remaining' = remaining - length out - length err"
      by blast
    then show ?thesis using Some by (simp add: kept_bytes_def)
  qed
qed

lemma sequential_spec:
  "batch_sequential env sid stop index items remaining h = (h', Inr rs) \<Longrightarrow> remaining < u64_max \<Longrightarrow>
   sum_list (map kept_bytes rs) \<le> remaining \<and> map br_index rs = [index..<index + length rs] \<and> length rs \<le> length items
   \<and> map br_id rs = map bi_id (take (length rs) items)
   \<and> (stop \<longrightarrow> (\<forall>r\<in>set (butlast rs). br_success r))
   \<and> (length rs < length items \<longrightarrow> stop \<and> rs \<noteq> [] \<and> \<not> br_success (last rs))"
proof (induction items arbitrary: index remaining h h' rs)
  case Nil
  then show ?case by (simp add: act_return_def)
next
  case (Cons item items)
  obtain h1 raw where raw: "run_batch_exec_item env sid index item h = (h1, Inr raw)" "br_index raw = index" "br_id raw = bi_id item"
    using run_item_result by blast
  obtain r rem' where r: "apply_batch_output_budget raw remaining = (r, rem')" by fastforce
  note b = apply_budget_spec [OF r Cons.prems(2)]
  show ?case
  proof (cases "stop \<and> \<not> br_success r")
    case True
    then have "rs = [r]" using Cons.prems(1) raw(1) r by (simp add: act_bind_def act_return_def)
    then show ?thesis using b raw(2,3) True by auto
  next
    case False
    obtain h2 v where v: "batch_sequential env sid stop (Suc index) items rem' h1 = (h2, v)" by fastforce
    obtain rs' where rs': "v = Inr rs'" "rs = r # rs'"
      using Cons.prems(1) raw(1) r False v by (cases v) (auto simp: act_bind_def act_return_def)
    have "rem' < u64_max" using b Cons.prems(2) by simp
    from Cons.IH [OF v [unfolded rs'(1)] this] show ?thesis
      using b raw(2,3) False rs'(2) by (auto simp: upt_conv_Cons split: if_splits)
  qed
qed

section \<open>The invariant of the buffer\<close>

definition batch_inv :: "nat \<Rightarrow> batch_item list \<Rightarrow> batch_state \<Rightarrow> bool" where
  "batch_inv budget items s \<longleftrightarrow>
     mset (map fst (bs_queue s)) + mset (map fst (bs_waiting s)) + mset (map br_index (bs_running s))
       + mset (map br_index (bs_results s)) = mset [0..<length items]
     \<and> (\<forall>(i, item) \<in> set (bs_queue s) \<union> set (bs_waiting s). i < length items \<and> item = items ! i)
     \<and> (\<forall>r \<in> set (bs_running s) \<union> set (bs_results s). br_index r < length items \<and> br_id r = bi_id (items ! br_index r))
     \<and> sum_list (map kept_bytes (bs_results s)) + bs_remaining s = budget
     \<and> length (bs_waiting s) + length (bs_running s) \<le> 4"

lemma batch_inv_refill:
  assumes "batch_inv budget items s"
  shows "batch_inv budget items (refill s)"
proof -
  let ?room = "4 - (length (bs_waiting s) + length (bs_running s))"
  have "mset (map fst (bs_queue s)) = mset (map fst (take ?room (bs_queue s))) + mset (map fst (drop ?room (bs_queue s)))"
    by (metis append_take_drop_id map_append mset_append)
  moreover have "\<forall>x\<in>set (take ?room (bs_queue s)) \<union> set (drop ?room (bs_queue s)). x \<in> set (bs_queue s)"
    by (auto dest: in_set_takeD in_set_dropD)
  moreover have "length (bs_waiting s @ take ?room (bs_queue s)) + length (bs_running s) \<le> 4"
    using assms by (auto simp: batch_inv_def)
  ultimately show ?thesis
    using assms unfolding batch_inv_def refill_def Let_def by (simp add: ball_Un add.assoc) (metis (no_types, lifting) add.commute add.left_commute)
qed

lemma batch_inv_run:
  assumes "batch_inv budget items s" "k < length (bs_waiting s)" "bs_waiting s ! k = (i, item)" "br_index r = i" "br_id r = bi_id item"
  shows "batch_inv budget items (s\<lparr>bs_waiting := drop_nth k (bs_waiting s), bs_running := bs_running s @ [r]\<rparr>)"
proof -
  have "mset (map fst (bs_waiting s)) = add_mset i (mset (map fst (drop_nth k (bs_waiting s))))"
    using mset_drop_nth [OF assms(2)] assms(3) by simp
  moreover have "i < length items \<and> item = items ! i"
    using assms(1) nth_mem [OF assms(2)] assms(3) by (auto simp: batch_inv_def)
  moreover have "\<forall>x\<in>set (drop_nth k (bs_waiting s)). x \<in> set (bs_waiting s)" using set_drop_nth by fastforce
  moreover note length_drop_nth [OF assms(2)]
  ultimately show ?thesis
    using assms(1) assms(4,5) unfolding batch_inv_def by (intro conjI) (auto split: prod.splits)
qed

lemma batch_inv_deliver:
  assumes "batch_inv budget items s" "j < length (bs_running s)" "budget < u64_max"
  shows "batch_inv budget items (deliver j s)"
proof -
  obtain r rem' where r: "apply_batch_output_budget (bs_running s ! j) (bs_remaining s) = (r, rem')" by fastforce
  have "bs_remaining s < u64_max" using assms(1,3) by (auto simp: batch_inv_def)
  note b = apply_budget_spec [OF r this]
  have "mset (map br_index (bs_running s)) = add_mset (br_index (bs_running s ! j)) (mset (map br_index (drop_nth j (bs_running s))))"
    using mset_drop_nth [OF assms(2)] by simp
  moreover have "\<forall>x\<in>set (drop_nth j (bs_running s)). x \<in> set (bs_running s)" using set_drop_nth by fastforce
  moreover note length_drop_nth [OF assms(2)] nth_mem [OF assms(2)]
  moreover have "kept_bytes r + rem' = bs_remaining s" "br_index r = br_index (bs_running s ! j)" "br_id r = br_id (bs_running s ! j)"
    using b by auto
  ultimately have "batch_inv budget items (s\<lparr>bs_running := drop_nth j (bs_running s), bs_results := bs_results s @ [r],
      bs_remaining := rem'\<rparr>)"
    using assms(1) unfolding batch_inv_def by (intro conjI) (auto split: prod.splits)
  then show ?thesis using r batch_inv_refill by (simp add: deliver_def)
qed

lemma batch_parallel_inv:
  "batch_inv budget items s \<Longrightarrow> budget < u64_max \<Longrightarrow> batch_parallel env sid schedule s h = (h', Some rs) \<Longrightarrow>
   \<exists>s'. batch_inv budget items s' \<and> bs_queue s' = [] \<and> bs_waiting s' = [] \<and> bs_running s' = [] \<and> rs = bs_results s'"
proof (induction schedule arbitrary: s h)
  case Nil
  then show ?case by (auto simp: batch_parallel.simps split: if_splits)
next
  case (Cons k ks)
  show ?case
  proof (cases "bs_queue s = [] \<and> bs_waiting s = [] \<and> bs_running s = []")
    case True
    then show ?thesis using Cons.prems by (auto simp: batch_parallel.simps)
  next
    case busy: False
    consider (wait) "k < length (bs_waiting s)"
      | (run) "\<not> k < length (bs_waiting s)" "k - length (bs_waiting s) < length (bs_running s)"
      | (none) "\<not> k < length (bs_waiting s)" "\<not> k - length (bs_waiting s) < length (bs_running s)" by blast
    then show ?thesis
    proof cases
      case wait
      obtain i item where w: "bs_waiting s ! k = (i, item)" by fastforce
      obtain h1 r where r: "run_batch_exec_item env sid i item h = (h1, Inr r)" "br_index r = i" "br_id r = bi_id item"
        using run_item_result by blast
      have "batch_parallel env sid ks (s\<lparr>bs_waiting := drop_nth k (bs_waiting s), bs_running := bs_running s @ [r]\<rparr>) h1 = (h', Some rs)"
        using Cons.prems(3) busy wait w r(1) by (subst (asm) batch_parallel.simps) auto
      then show ?thesis by (rule Cons.IH [OF batch_inv_run [OF Cons.prems(1) wait w r(2,3)] Cons.prems(2)])
    next
      case run
      have "batch_parallel env sid ks (deliver (k - length (bs_waiting s)) s) h = (h', Some rs)"
        using Cons.prems(3) busy run by (subst (asm) batch_parallel.simps) auto
      then show ?thesis by (rule Cons.IH [OF batch_inv_deliver [OF Cons.prems(1) run(2) Cons.prems(2)] Cons.prems(2)])
    next
      case none
      have "batch_parallel env sid ks s h = (h', Some rs)"
        using Cons.prems(3) busy none by (subst (asm) batch_parallel.simps) auto
      then show ?thesis by (rule Cons.IH [OF Cons.prems(1,2)])
    qed
  qed
qed

lemma batch_start_inv: "batch_inv MAX_API_BATCH_RETAINED_OUTPUT_BYTES items (batch_start items)"
  unfolding batch_start_def
  by (rule batch_inv_refill) (auto simp: batch_inv_def enumerate_eq_zip in_set_zip)

lemma sorted_indices:
  assumes "mset (map br_index rs) = mset [0..<n]"
  shows "map br_index (sort_key br_index rs) = [0..<n]"
proof -
  have "mset (map br_index (sort_key br_index rs)) = mset [0..<n]" using assms by simp
  then have "sort [0..<n] = map br_index (sort_key br_index rs)" by (intro properties_for_sort) simp_all
  then show ?thesis by (simp add: sorted_sort_id)
qed

section \<open>The whole request\<close>

lemma check_batch_items_ok:
  "check_batch_items lower strict items = Inr u \<Longrightarrow> item \<in> set items \<Longrightarrow>
   trim (bi_command item) \<noteq> [] \<and> length (bi_command item) \<le> MAX_API_COMMAND_BYTES
   \<and> check_dangerous_command lower (bi_command item) strict = None"
  unfolding check_batch_items_def by (induction items) (auto split: if_splits option.splits)

definition allowed_batch_calls :: "(remote_call \<Rightarrow> bool) \<Rightarrow> batch_item list \<Rightarrow> bool" where
  "allowed_batch_calls C items \<longleftrightarrow>
     (\<forall>item\<in>set items. C (ExecCall (bi_command item) (exec_timeout (bi_timeout_ms item))))"

lemma guards_parallel:
  assumes "allowed_batch_calls C items"
  shows "batch_inv budget items s \<Longrightarrow> budget < u64_max \<Longrightarrow>
    \<exists>es f. fst (batch_parallel env sid schedule s h) = h @ es \<and> guard_run C sid (False, k0) es = Some f
      \<and> at_least f (False, k0)"
proof (induction schedule arbitrary: s h k0)
  case Nil
  then show ?case by (auto simp: batch_parallel.simps)
next
  case (Cons k ks)
  show ?case
  proof (cases "bs_queue s = [] \<and> bs_waiting s = [] \<and> bs_running s = []")
    case True
    then show ?thesis by (auto simp: batch_parallel.simps)
  next
    case busy: False
    consider (wait) "k < length (bs_waiting s)"
      | (run) "\<not> k < length (bs_waiting s)" "k - length (bs_waiting s) < length (bs_running s)"
      | (none) "\<not> k < length (bs_waiting s)" "\<not> k - length (bs_waiting s) < length (bs_running s)" by blast
    then show ?thesis
    proof cases
      case wait
      obtain i item where w: "bs_waiting s ! k = (i, item)" by fastforce
      obtain h1 r where r: "run_batch_exec_item env sid i item h = (h1, Inr r)" "br_index r = i" "br_id r = bi_id item"
        using run_item_result by blast
      have "item \<in> set items"
      proof -
        have "(i, item) \<in> set (bs_waiting s)" using nth_mem [OF wait] w by simp
        then have "i < length items" "item = items ! i" using Cons.prems(1) unfolding batch_inv_def by blast+
        then show ?thesis by simp
      qed
      then have "guards C sid (False, k0) (False, k0) (run_batch_exec_item env sid i item)"
        using assms by (auto simp: allowed_batch_calls_def intro: guards_run_item)
      then obtain es f where f: "h1 = h @ es" "guard_run C sid (False, k0) es = Some f" "at_least f (False, k0)"
        using r(1) unfolding guards_def by (metis fst_conv snd_conv)
      let ?s = "s\<lparr>bs_waiting := drop_nth k (bs_waiting s), bs_running := bs_running s @ [r]\<rparr>"
      obtain es' f' where f': "fst (batch_parallel env sid ks ?s h1) = h1 @ es'" "guard_run C sid (False, snd f) es' = Some f'"
        "at_least f' (False, snd f)"
        using Cons.IH [OF batch_inv_run [OF Cons.prems(1) wait w r(2,3)] Cons.prems(2), of h1 "snd f"] by blast
      obtain f'' where "guard_run C sid f es' = Some f''" "at_least f'' f'"
        using guard_run_mono [OF f'(2), of f] by auto
      moreover have "fst (batch_parallel env sid (k # ks) s h) = h @ es @ es'"
        using busy wait w r(1) f(1) f'(1) by (subst batch_parallel.simps) auto
      moreover have "at_least f'' (False, k0)" using calculation(2) f(3) f'(3) by (auto simp: at_least_def)
      ultimately show ?thesis using f(2) by (intro exI [of _ "es @ es'"] exI [of _ f'']) (simp add: guard_run_append)
    next
      case run
      have "batch_parallel env sid (k # ks) s h = batch_parallel env sid ks (deliver (k - length (bs_waiting s)) s) h"
        using busy run by (subst batch_parallel.simps) auto
      then show ?thesis using Cons.IH [OF batch_inv_deliver [OF Cons.prems(1) run(2) Cons.prems(2)] Cons.prems(2)] by simp
    next
      case none
      have "batch_parallel env sid (k # ks) s h = batch_parallel env sid ks s h"
        using busy none by (subst batch_parallel.simps) auto
      then show ?thesis using Cons.IH [OF Cons.prems] by simp
    qed
  qed
qed

lemma budget_small: "MAX_API_BATCH_RETAINED_OUTPUT_BYTES < u64_max"
  by (simp add: MAX_API_BATCH_RETAINED_OUTPUT_BYTES_def u64_max_def)

lemma guards_batch_results:
  assumes "allowed_batch_calls C items"
  shows "guards C sid (f0, k0) (False, k0) (batch_results env sid p stop schedule items)"
proof (cases p)
  case True
  have "guards C sid (False, k0) (False, k0) (batch_results env sid True stop schedule items)"
    unfolding guards_def
  proof
    fix h
    show "\<exists>es f. fst (batch_results env sid True stop schedule items h) = h @ es \<and> guard_run C sid (False, k0) es = Some f
        \<and> (\<forall>x. snd (batch_results env sid True stop schedule items h) = Inr x \<longrightarrow> at_least f (False, k0))"
      using guards_parallel [OF assms batch_start_inv budget_small, of env sid schedule h k0]
      by (auto simp: batch_results_def split: prod.split)
  qed
  then show ?thesis using True by (auto intro: guards_weaken)
next
  case False
  have "guards C sid (f0, k0) (False, k0) (act_bind (batch_sequential env sid stop 0 items b) (\<lambda>results. act_return (Some results)))" for b
    using assms by (intro guards_bind [OF guards_sequential guards_return]) (simp add: allowed_batch_calls_def)
  then show ?thesis using False by (simp add: batch_results_def)
qed

lemma guards_rest_exec_batch:
  assumes "C OpenSftpCall"
    and "\<And>strict. strict_safety_mode mode = Inr strict \<Longrightarrow> check_batch_items lower strict items = Inr () \<Longrightarrow>
      allowed_batch_calls C items"
  shows "guards_post C sid (f0, k0) (\<lambda>r f. r \<noteq> None \<longrightarrow> fst f)
    (rest_exec_batch env lower auth sid items p stop mode schedule)"
proof -
  have up: "(y \<noteq> None \<longrightarrow> fst g) \<Longrightarrow> at_least g' g \<Longrightarrow> y \<noteq> None \<longrightarrow> fst g'" for y :: "batch_reply option" and g g'
    by (auto simp: at_least_def)
  have log: "guards C sid (True, k0) (True, k0) (act_bind (log_line a d ok) (\<lambda>_. act_return (Some x)))"
    for a d ok and x :: batch_reply
    by (rule guards_bind [OF guards_log_line guards_return])
  have reply: "guards_post C sid (False, k0) (\<lambda>r f. r \<noteq> None \<longrightarrow> fst f) (case r of None \<Rightarrow> act_return None
      | Some unsorted \<Rightarrow> (let results = sort_key br_index unsorted in
          act_bind (session_access env sid) (\<lambda>_. let success = ok results in
          act_bind (log_line a (d results) success) (\<lambda>_. act_return (Some (reply success results))))))"
    for r a d ok and reply :: "bool \<Rightarrow> batch_result list \<Rightarrow> batch_reply"
  proof (cases r)
    case None
    then show ?thesis by (auto simp: guards_post_def act_return_def)
  next
    case (Some unsorted)
    have "guards C sid (False, k0) (True, k0) (act_bind (session_access env sid) (\<lambda>_.
        act_bind (log_line a (d x) s) (\<lambda>_. act_return (Some (reply s x)))))" for x s
      by (rule guards_bind [OF guards_access log])
    then show ?thesis unfolding Some guards_iff_post Let_def guards_post_def by (simp add: at_least_def) blast
  qed
  show ?thesis
    unfolding rest_exec_batch_def required_def require_auth_def
    by (intro guards_post_lift guards_post_bind [OF guards_access _ up]
        guards_post_bind [OF guards_ready [where C = C, OF assms(1)] _ up]
        guards_post_bind [OF guards_batch_results _ up] reply)
      (use assms(2) in auto)
qed

section \<open>What a reply says\<close>

lemma batch_reply_shape:
  assumes "rest_exec_batch env lower auth sid items p stop mode schedule h = (h', Inr (Some reply))"
  obtains h1 h2 unsorted where
    "batch_results env sid p stop schedule items h1 = (h2, Inr (Some unsorted))"
    "bp_results reply = sort_key br_index unsorted"
    "bp_success reply = (\<forall>r\<in>set (bp_results reply). br_success r)"
    "bp_output_truncated reply = (\<exists>r\<in>set (bp_results reply). case br_result r of None \<Rightarrow> False
       | Some x \<Rightarrow> xr_output_truncated (eo_result x))"
    "items \<noteq> []" "length items \<le> 32"
  using assms
  by (auto simp: rest_exec_batch_def act_bind_def require_auth_def required_def act_lift_def act_return_def
      log_line_def act_emit_def Let_def split: sum.splits prod.splits option.splits if_splits)

lemma batch_results_spec:
  assumes "batch_results env sid p stop schedule items h = (h', Inr (Some rs))"
  shows "sum_list (map kept_bytes rs) \<le> MAX_API_BATCH_RETAINED_OUTPUT_BYTES
    \<and> (\<exists>m\<le>length items. mset (map br_index rs) = mset [0..<m] \<and> (\<forall>r\<in>set rs. br_id r = bi_id (items ! br_index r))
         \<and> (m < length items \<longrightarrow> \<not> p \<and> stop \<and> (\<exists>r\<in>set rs. \<not> br_success r \<and> Suc (br_index r) = m))
         \<and> (\<not> p \<and> stop \<longrightarrow> (\<forall>r\<in>set rs. \<not> br_success r \<longrightarrow> Suc (br_index r) = m)))"
proof (cases p)
  case True
  then obtain h2 where "batch_parallel env sid schedule (batch_start items) h = (h2, Some rs)"
    using assms by (auto simp: batch_results_def split: prod.splits)
  from batch_parallel_inv [OF batch_start_inv budget_small this] obtain s where
    s: "batch_inv MAX_API_BATCH_RETAINED_OUTPUT_BYTES items s" "bs_queue s = []" "bs_waiting s = []" "bs_running s = []"
      "rs = bs_results s" by blast
  then have "mset (map br_index rs) = mset [0..<length items]" "\<forall>r\<in>set rs. br_id r = bi_id (items ! br_index r)"
    "sum_list (map kept_bytes rs) \<le> MAX_API_BATCH_RETAINED_OUTPUT_BYTES"
    by (auto simp: batch_inv_def)
  then show ?thesis using True by (intro conjI exI [of _ "length items"]) auto
next
  case False
  then obtain h2 where seq: "batch_sequential env sid stop 0 items MAX_API_BATCH_RETAINED_OUTPUT_BYTES h = (h2, Inr rs)"
    using assms by (auto simp: batch_results_def act_bind_def act_return_def split: prod.splits sum.splits)
  note spec = sequential_spec [OF seq budget_small]
  have idx: "map br_index rs = [0..<length rs]" using spec by simp
  have at: "br_index (rs ! k) = k" if "k < length rs" for k
    using idx that by (metis add.left_neutral nth_map nth_upt)
  have ids: "br_id r = bi_id (items ! br_index r)" if r: "r \<in> set rs" for r
  proof -
    obtain k where k: "k < length rs" "r = rs ! k" using r by (auto simp: in_set_conv_nth)
    then have "br_id r = map br_id rs ! k" by simp
    also have "\<dots> = bi_id (items ! k)" using spec k(1) by (simp add: nth_take)
    finally show ?thesis using at [OF k(1)] k(2) by simp
  qed
  have last: "Suc (br_index (last rs)) = length rs" if "rs \<noteq> []"
    using at [of "length rs - 1"] that by (simp add: last_conv_nth)
  have failed: "Suc (br_index r) = length rs" if "r \<in> set rs" "\<not> br_success r" stop for r
  proof -
    have "r \<notin> set (butlast rs)" using spec that(2,3) by blast
    then have "r = last rs" "rs \<noteq> []" using that(1)
      by (metis Un_iff append_butlast_last_id empty_iff list.set(1) set_ConsD set_append)+
    then show ?thesis using last by simp
  qed
  have "m < length items \<longrightarrow> stop \<and> (\<exists>r\<in>set rs. \<not> br_success r \<and> Suc (br_index r) = m)" if "m = length rs" for m
    using spec last that by (metis last_in_set)
  then show ?thesis using spec idx ids failed False by (intro conjI exI [of _ "length rs"]) auto
qed

text \<open>C37: the reply to a batch. All outputs together stay within 16 MiB; the results are those of the first
  commands in their order, each with the id of its command; in parallel every command has one, whatever the order
  in which permits and answers came; in sequence the run ends early only because it should stop on an error and the
  last result is that error, and then it is the only failure. The reply succeeds exactly when every result does.\<close>

theorem batch_reply_exact:
  assumes "rest_exec_batch env lower auth sid items p stop mode schedule h = (h', Inr (Some reply))"
  shows "sum_list (map kept_bytes (bp_results reply)) \<le> MAX_API_BATCH_RETAINED_OUTPUT_BYTES
    \<and> (\<exists>m\<le>length items. map br_index (bp_results reply) = [0..<m]
         \<and> (\<forall>r\<in>set (bp_results reply). br_id r = bi_id (items ! br_index r))
         \<and> (m < length items \<longrightarrow> \<not> p \<and> stop \<and> (\<exists>r\<in>set (bp_results reply). \<not> br_success r \<and> Suc (br_index r) = m))
         \<and> (\<not> p \<and> stop \<longrightarrow> (\<forall>r\<in>set (bp_results reply). \<not> br_success r \<longrightarrow> Suc (br_index r) = m)))
    \<and> (bp_success reply \<longleftrightarrow> (\<forall>r\<in>set (bp_results reply). br_success r))"
proof -
  from assms obtain h1 h2 rs where rs: "batch_results env sid p stop schedule items h1 = (h2, Inr (Some rs))"
    "bp_results reply = sort_key br_index rs" "bp_success reply = (\<forall>r\<in>set (bp_results reply). br_success r)"
    by (rule batch_reply_shape)
  from batch_results_spec [OF rs(1)] obtain m where
    m: "sum_list (map kept_bytes rs) \<le> MAX_API_BATCH_RETAINED_OUTPUT_BYTES" "m \<le> length items"
      "mset (map br_index rs) = mset [0..<m]" "\<forall>r\<in>set rs. br_id r = bi_id (items ! br_index r)"
      "m < length items \<longrightarrow> \<not> p \<and> stop \<and> (\<exists>r\<in>set rs. \<not> br_success r \<and> Suc (br_index r) = m)"
      "\<not> p \<and> stop \<longrightarrow> (\<forall>r\<in>set rs. \<not> br_success r \<longrightarrow> Suc (br_index r) = m)" by blast
  have "mset (map kept_bytes (sort_key br_index rs)) = mset (map kept_bytes rs)" by simp
  then have "sum_list (map kept_bytes (sort_key br_index rs)) = sum_list (map kept_bytes rs)"
    by (metis sum_mset_sum_list)
  then show ?thesis using m sorted_indices [OF m(3)] rs(2,3) by auto
qed

definition two_items :: "batch_item list" where
  "two_items = [\<lparr>bi_id = Some ''a'', bi_command = ''ls'', bi_timeout_ms = None\<rparr>,
                \<lparr>bi_id = None, bi_command = ''ls'', bi_timeout_ms = None\<rparr>]"

lemma demo_item: "run_batch_exec_item demo_api ''s'' i item h = (h @ [AccessCheck ''s'' True,
    RemoteCall demo_connection (ExecCall (bi_command item) (exec_timeout (bi_timeout_ms item)))],
    Inr \<lparr>br_index = i, br_id = bi_id item, br_success = True, br_result = Some demo_output, br_error = None\<rparr>)"
proof -
  have "ae_permit demo_api h = Inr ()" for h by (simp add: demo_api_def)
  moreover have "exec_success demo_output" by (simp add: exec_success_def demo_output_def)
  ultimately show ?thesis
    by (simp add: run_batch_exec_item_def act_bind_def act_try_def demo_access demo_exec act_lift_def act_return_def)
qed

lemma demo_parallel:
  "\<exists>h' r1 r2. batch_results demo_api ''s'' True True [1, 0, 0, 0] two_items h = (h', Inr (Some [r1, r2]))
     \<and> br_index r1 = 1 \<and> br_index r2 = 0 \<and> br_success r1 \<and> br_success r2"
  by (simp add: batch_results_def batch_start_def two_items_def refill_def Let_def batch_parallel.simps demo_item
      drop_nth_def deliver_def apply_batch_output_budget_def demo_output_def sat_add64_def u64_max_def
      MAX_API_BATCH_RETAINED_OUTPUT_BYTES_def enumerate_eq_zip)

theorem batch_reply_exact_witness:
  "\<exists>h reply. rest_exec_batch demo_api to_ascii_lowercase (Some ''Bearer k'') ''s'' two_items True True None [1, 0, 0, 0] []
       = (h, Inr (Some reply))
     \<and> map br_index (bp_results reply) = [0, 1] \<and> bp_success reply"
proof -
  have checks: "check_batch_items to_ascii_lowercase False two_items = Inr ()"
    by (simp add: check_batch_items_def two_items_def ls_passes MAX_API_COMMAND_BYTES_def) code_simp
  have mode: "strict_safety_mode None = Inr False" by code_simp
  obtain h1 r1 r2 where par: "batch_results demo_api ''s'' True True [1, 0, 0, 0] two_items
      [AccessCheck ''s'' True, AccessCheck ''s'' True] = (h1, Inr (Some [r1, r2]))"
    "br_index r1 = 1" "br_index r2 = 0" "br_success r1" "br_success r2" using demo_parallel by blast
  have "trim ''s'' \<noteq> []" "two_items \<noteq> []" "length two_items \<le> 32" by (code_simp, simp_all add: two_items_def)
  then obtain h reply where run: "rest_exec_batch demo_api to_ascii_lowercase (Some ''Bearer k'') ''s'' two_items True True
      None [1, 0, 0, 0] [] = (h, Inr (Some reply))" "bp_results reply = [r2, r1]"
    using par
    by (simp add: rest_exec_batch_def act_bind_def demo_auth required_def act_lift_def mode checks demo_access demo_ready
        Let_def log_line_def act_emit_def act_return_def)
  from batch_reply_exact [OF run(1)] have "bp_success reply \<longleftrightarrow> (\<forall>r\<in>set (bp_results reply). br_success r)" by blast
  then show ?thesis using run par by simp
qed

end
