(* ===== verification/Api_Upload.thy ===== *)
theory Api_Upload
  imports Api_Access Num_Parse Transfer_Safe Byte_Strings
begin

text \<open>
  Uploading a file over the HTTP interface (\<open>upload\_file\_raw\<close> in \<open>api\_server/handlers\_remote.rs\<close>,
  \<open>api\_upload\_stream\<close> in \<open>remote/runtime\_api.rs\<close>): the body goes to a temporary file beside the target, is checked,
  and then replaces the target. The digest is a parameter.
\<close>

section \<open>The transfer\<close>

text \<open>What happens on the way; \<open>up\_closed\<close> are the two loads of the closed flag around the registration, and
  \<open>up\_size\<close> is what the server says of the temporary file.\<close>

record upload_env =
  up_busy :: bool
  up_quota_error :: "string option"
  up_closed :: "bool \<times> bool"
  up_uuid :: string
  up_open_error :: "app_error option"
  up_turns :: "limited_turn list"
  up_shutdown_error :: "app_error option"
  up_size :: "nat app_result"
  up_sftp :: sftp_env

record upload_run =
  ur_temp :: "(string \<times> bytes) option"
  ur_commands :: "string list"
  ur_removed :: bool
  ur_result :: "(nat \<times> string option) app_result"

definition upload_parent :: "string \<Rightarrow> string" where
  "upload_parent normalized =
     (case rsplit_once (CHR ''/'') normalized of
        None \<Rightarrow> ''/''
      | Some (parent, _) \<Rightarrow> if parent = [] then ''/'' else parent)"

definition upload_temp_path :: "string \<Rightarrow> string \<Rightarrow> string" where
  "upload_temp_path normalized uuid = join_remote_path (upload_parent normalized) (''.helm-upload-'' @ uuid @ ''.part'')"

definition register_api_upload :: "bool \<times> bool \<Rightarrow> unit app_result" where
  "register_api_upload flags = (if fst flags \<or> snd flags then Inl missing_sftp else Inr ())"

definition UPLOAD_BUFFER_BYTES :: nat where "UPLOAD_BUFFER_BYTES = 4 * 1024 * 1024"

text \<open>From the open temporary file on: its content, the commands run, the result.\<close>

definition upload_to_temp ::
  "upload_env \<Rightarrow> (bytes \<Rightarrow> string) \<Rightarrow> string \<Rightarrow> string \<Rightarrow> bytes \<Rightarrow> string option \<Rightarrow> nat
   \<Rightarrow> bytes \<times> string list \<times> (nat \<times> string option) app_result" where
  "upload_to_temp e sha256 temp_path normalized data expected max_bytes =
     (case copy_limited UPLOAD_BUFFER_BYTES max_bytes (up_turns e) 0 data [] of
        ((content, written), outcome) \<Rightarrow>
          (case outcome of
             CopyFailed err \<Rightarrow> (content, [], Inl err)
           | CopyDropped \<Rightarrow> (content, [], Inl (Remote ''SFTP closed, upload cancelled''))
           | CopyDone \<Rightarrow>
               (case up_shutdown_error e of
                  Some err \<Rightarrow> (content, [], Inl err)
                | None \<Rightarrow>
                    (let actual = map_option (\<lambda>_. sha256 data) expected in
                     if (case (expected, actual) of (Some x, Some y) \<Rightarrow> x \<noteq> y | _ \<Rightarrow> False)
                     then (content, [], Inl (InvalidInput ''SHA-256 check failed''))
                     else (case up_size e of
                             Inl err \<Rightarrow> (content, [], Inl err)
                           | Inr remote_size \<Rightarrow>
                               if remote_size \<noteq> written
                               then (content, [], Inl (Remote ''upload check failed: sizes differ''))
                               else (case replace_remote_file (up_sftp e) temp_path normalized True of
                                       ((commands, _), Inl err) \<Rightarrow> (content, commands, Inl err)
                                     | ((commands, _), Inr _) \<Rightarrow> (content, commands, Inr (written, actual))))))))"

definition not_started :: "app_error \<Rightarrow> upload_run" where
  "not_started e = \<lparr>ur_temp = None, ur_commands = [], ur_removed = False, ur_result = Inl e\<rparr>"

definition api_upload_stream ::
  "upload_env \<Rightarrow> (bytes \<Rightarrow> string) \<Rightarrow> string \<Rightarrow> bytes \<Rightarrow> string option \<Rightarrow> nat \<Rightarrow> upload_run" where
  "api_upload_stream e sha256 remote_path data expected0 max_bytes =
     (if up_busy e then not_started (Remote (''transfer '' @ ZH_QUEUE_BUSY))
      else case up_quota_error e of
        Some m \<Rightarrow> not_started (Remote (''no transfer quota: '' @ m))
      | None \<Rightarrow>
          (case register_api_upload (up_closed e) of
             Inl err \<Rightarrow> not_started err
           | Inr _ \<Rightarrow>
               (let normalized = normalize_remote_path remote_path in
                case ensure_not_root_path normalized ''the target is the root directory'' of
                  Inl err \<Rightarrow> not_started err
                | Inr _ \<Rightarrow>
                    (let temp_path = upload_temp_path normalized (up_uuid e);
                         expected = map_option to_ascii_lowercase expected0
                     in case up_open_error e of
                          Some err \<Rightarrow> \<lparr>ur_temp = None, ur_commands = [], ur_removed = True, ur_result = Inl err\<rparr>
                        | None \<Rightarrow>
                            (case upload_to_temp e sha256 temp_path normalized data expected max_bytes of
                               (content, commands, Inl err) \<Rightarrow>
                                 \<lparr>ur_temp = Some (temp_path, content), ur_commands = commands, ur_removed = True,
                                  ur_result = Inl err\<rparr>
                             | (content, commands, Inr r) \<Rightarrow>
                                 \<lparr>ur_temp = Some (temp_path, content), ur_commands = commands, ur_removed = False,
                                  ur_result = Inr r\<rparr>)))))"

section \<open>The handler\<close>

definition MAX_UPLOAD_BODY :: nat where "MAX_UPLOAD_BODY = 512 * 1024 * 1024"

definition is_ascii_hexdigit :: "char \<Rightarrow> bool" where
  "is_ascii_hexdigit c \<longleftrightarrow> c \<in> set ''0123456789abcdefABCDEF''"

text \<open>The digest the client expects, if it names one.\<close>

definition expected_digest :: "string option \<Rightarrow> string option http_result" where
  "expected_digest sha256 =
     (let v = (case sha256 of None \<Rightarrow> None
                 | Some s \<Rightarrow> if trim s = [] then None else Some (to_ascii_lowercase (trim s)))
      in case v of
           None \<Rightarrow> Inr None
         | Some d \<Rightarrow> if length d \<noteq> 64 \<or> \<not> list_all is_ascii_hexdigit d
                      then Inl (BadRequest, ''sha256 '' @ ZH_MUST @ '' be 64 hexadecimal digits'') else Inr (Some d))"

definition reject_unsupported_upload_headers :: "bool \<Rightarrow> unit http_result" where
  "reject_unsupported_upload_headers content_range =
     (if content_range then Inl (BadRequest, ''Content-Range uploads are not supported'') else Inr ())"

definition check_content_length :: "string option \<Rightarrow> unit http_result" where
  "check_content_length header =
     (case Option.bind header parse_u64 of
        None \<Rightarrow> Inr ()
      | Some n \<Rightarrow> if n > MAX_UPLOAD_BODY then Inl (PayloadTooLarge, ''upload '' @ ZH_EXCEEDS) else Inr ())"

record upload_response =
  ux_remote_path :: string
  ux_size :: nat
  ux_sha256 :: "string option"

definition upload_call :: "'l api_env \<Rightarrow> string \<Rightarrow> string \<Rightarrow> (history \<Rightarrow> upload_run) \<Rightarrow> (nat \<times> string option) app_result act" where
  "upload_call env session_id remote_path run =
     (\<lambda>h. case find_sftp_for_session session_id (ae_connections env h) (ae_sftps env h) of
            Inl e \<Rightarrow> (h, Inr (Inl (Remote e)))
          | Inr (c, _) \<Rightarrow>
              (h @ [RemoteCall c (UploadCall remote_path)],
               Inr (ur_result (run (h @ [RemoteCall c (UploadCall remote_path)])))))"

definition upload_file_raw ::
  "'l api_env \<Rightarrow> (history \<Rightarrow> upload_env) \<Rightarrow> (bytes \<Rightarrow> string) \<Rightarrow> string option \<Rightarrow> bool \<Rightarrow> string option
   \<Rightarrow> string \<Rightarrow> string \<Rightarrow> string option \<Rightarrow> bytes \<Rightarrow> upload_response act" where
  "upload_file_raw env up sha auth content_range content_length session_id remote_path sha256 body =
     act_bind (require_auth env auth) (\<lambda>_.
     act_bind (act_lift (\<lambda>_. reject_unsupported_upload_headers content_range)) (\<lambda>_.
     act_bind (required (trim session_id \<noteq> []) ''missing sessionId'') (\<lambda>_.
     act_bind (required (trim remote_path \<noteq> [] \<and> trim remote_path \<noteq> ''/'') ''missing remotePath'') (\<lambda>_.
     act_bind (act_lift (\<lambda>_. expected_digest sha256)) (\<lambda>expected.
     act_bind (act_lift (\<lambda>_. check_content_length content_length)) (\<lambda>_.
     act_bind (session_access env session_id) (\<lambda>_.
     act_bind (ensure_api_session_ready env session_id True) (\<lambda>_.
     act_bind (upload_call env session_id remote_path
                 (\<lambda>h. api_upload_stream (up h) sha remote_path body expected MAX_UPLOAD_BODY)) (\<lambda>r.
       case r of
         Inl (InvalidInput message) \<Rightarrow>
           act_bind (log_failure env ''upload'' remote_path message) (\<lambda>_.
             act_fail (if contains ZH_EXCEEDS message then PayloadTooLarge else BadRequest, message))
       | Inl e \<Rightarrow>
           act_bind (log_failure env ''upload'' remote_path (app_error_text e)) (\<lambda>_.
             act_lift (\<lambda>h. Inl (map_remote_error env h (app_error_text e))))
       | Inr (bytes_written, actual_sha256) \<Rightarrow>
           act_bind (session_access env session_id) (\<lambda>_.
           act_bind (log_line ''upload'' (remote_path @ '' ('' @ dec_string bytes_written @ ''B, raw)'') True) (\<lambda>_.
             act_return \<lparr>ux_remote_path = remote_path, ux_size = bytes_written, ux_sha256 = actual_sha256\<rparr>)))))))))))"

section \<open>All or nothing\<close>

lemma upload_to_temp_spec:
  assumes "upload_to_temp e sha temp target data expected max_bytes = (content, commands, r)" "max_bytes < u64_max"
  shows "content = take (length content) data \<and> length content \<le> max_bytes
    \<and> (commands \<noteq> [] \<or> (\<exists>x. r = Inr x) \<longrightarrow>
         content = data \<and> up_size e = Inr (length data) \<and> (\<forall>d. expected = Some d \<longrightarrow> sha data = d)
         \<and> (\<exists>attrs res. replace_remote_file (up_sftp e) temp target True = ((commands, attrs), res)
              \<and> ((\<exists>x. r = Inr x) \<longleftrightarrow> res = Inr ())))
    \<and> (\<forall>n s. r = Inr (n, s) \<longrightarrow> n = length data \<and> s = expected)"
proof -
  obtain written outcome where c: "copy_limited UPLOAD_BUFFER_BYTES max_bytes (up_turns e) 0 data [] = ((content, written), outcome)"
    using assms(1) by (auto simp: upload_to_temp_def Let_def split: prod.splits copy_end.splits option.splits sum.splits if_splits)
  have b: "0 < UPLOAD_BUFFER_BYTES" by (simp add: UPLOAD_BUFFER_BYTES_def)
  from copy_limited_spec [OF c _ assms(2) b]
  have spec: "content = take (length content) data \<and> length content \<le> max_bytes
      \<and> (outcome = CopyDone \<longrightarrow> content = data \<and> written = length data)" by auto
  show ?thesis
  proof (cases "outcome = CopyDone")
    case False
    then show ?thesis using assms(1) c spec by (cases outcome) (auto simp: upload_to_temp_def)
  next
    case True
    then have "content = data" "written = length data" using spec by auto
    then show ?thesis using assms(1) c spec True
      by (cases expected) (auto simp: upload_to_temp_def Let_def split: option.splits sum.splits if_splits prod.splits)
  qed
qed


text \<open>A body of two bytes, read in one turn, to a server without the target.\<close>

definition sample_upload :: upload_env where
  "sample_upload =
     \<lparr>up_busy = False, up_quota_error = None, up_closed = (False, False), up_uuid = ''u'', up_open_error = None,
      up_turns = [\<lparr>lt_cancel = False, lt_pause1 = False, lt_reads = [(ReadUpTo 2, False), (ReadUpTo 2, False)],
                   lt_cancel2 = False, lt_pause2 = False, lt_write = None, lt_flush = None\<rparr>],
      up_shutdown_error = None, up_size = Inr 2,
      up_sftp =
        \<lparr>se_record = Inr ''c'',
         se_exec = (\<lambda>_. Inr \<lparr>co_stdout = [], co_stderr = [], co_exit_status = Some 0, co_timed_out = False\<rparr>),
         se_metadata = (\<lambda>_. Inl missing_sftp),
         se_symlink_metadata = (\<lambda>p. if p = ''/d/f'' then Inl missing_sftp else
            Inr \<lparr>fa_type = FtFile, fa_size = 2, fa_uid = None, fa_gid = None, fa_user = None, fa_group = None,
                 fa_permissions = None, fa_permission_text = [], fa_modified = None\<rparr>),
         se_try_exists = (\<lambda>_. Inr False), se_set_metadata = (\<lambda>_. Inr ()), se_read = (\<lambda>_. Inl missing_sftp),
         se_write = (\<lambda>_ _. Inr ())\<rparr>\<rparr>"

lemma sample_target: "normalize_remote_path ''d//f'' = ''/d/f''"
  by code_simp

lemma sample_temp: "upload_temp_path ''/d/f'' ''u'' = ''/d/.helm-upload-u.part''"
  by code_simp

lemma sample_upload_run:
  "\<exists>cmd. api_upload_stream sample_upload sha ''d//f'' [1, 2] None 8 =
     \<lparr>ur_temp = Some (''/d/.helm-upload-u.part'', [1, 2]), ur_commands = [cmd], ur_removed = False,
      ur_result = Inr (2, None)\<rparr>"
proof -
  have c: "copy_limited UPLOAD_BUFFER_BYTES 8 (up_turns sample_upload) 0 [1, 2] [] = (([1, 2 :: 8 word], 2), CopyDone)"
    by (simp add: sample_upload_def UPLOAD_BUFFER_BYTES_def sat_add64_def u64_max_def flushed_def Let_def)
  have r: "\<exists>cmd. replace_remote_file (up_sftp sample_upload) ''/d/.helm-upload-u.part'' ''/d/f'' True = (([cmd], None), Inr ())"
    by (simp add: sample_upload_def replace_remote_file_def and_then_def ensure_remote_file_command_success_def)
  have s: "up_size sample_upload = Inr 2" "up_shutdown_error sample_upload = None" "up_uuid sample_upload = ''u''"
    "\<not> up_busy sample_upload" "up_quota_error sample_upload = None" "up_closed sample_upload = (False, False)"
    "up_open_error sample_upload = None"
    by (simp_all add: sample_upload_def)
  have f: "normalize_remote_path ''/d/f'' = ''/d/f''"
    by code_simp
  have n: "ensure_not_root_path ''/d/f'' m = Inr ()" for m
    unfolding ensure_not_root_path_def by (simp add: f)
  show ?thesis
    using r by (auto simp: api_upload_stream_def upload_to_temp_def register_api_upload_def s c n sample_target sample_temp Let_def)
qed


section \<open>Access\<close>

lemma guards_upload_call:
  assumes "C (UploadCall path)"
  shows "guards C sid (True, k0) (False, k0) (upload_call env sid path run)"
proof -
  have "ac_session_id x = sid \<and> ac_origin x = Automation"
    if "find_sftp_for_session sid conns sftps = Inr (x, y)" for x y conns sftps
    using that
    by (auto simp: find_sftp_for_session_def and_then_Inr_iff find_connection_for_session_def usable_connection_def
        find_Some_iff)
  then show ?thesis
    using assms by (auto simp: guards_def upload_call_def answers_def split: sum.splits prod.splits)
qed

lemma guards_upload:
  assumes "C OpenSftpCall" "C (UploadCall path)"
  shows "guards C sid (f0, k0) (True, k0) (upload_file_raw env up sha auth cr cl sid path sha256 body)"
  unfolding upload_file_raw_def
proof (rule guards_bind [OF guards_auth], rule guards_bind [OF guards_lift], rule guards_bind [OF guards_required],
    rule guards_bind [OF guards_required], rule guards_bind [OF guards_lift], rule guards_bind [OF guards_lift],
    rule guards_bind [OF guards_access], rule guards_bind [OF guards_ready [where C = C, OF assms(1)]],
    rule guards_bind [OF guards_upload_call [where C = C, OF assms(2)]])
  fix r :: "(nat \<times> string option) app_result"
  have fail: "guards C sid (False, k0) (True, k0) (act_bind (log_failure env a s m) (\<lambda>_. act_fail x))" for a s m x
    by (rule guards_bind [OF guards_log_failure guards_fail])
  have mapped: "guards C sid (False, k0) (True, k0) (act_bind (log_failure env a s m) (\<lambda>_. act_lift (\<lambda>h. Inl (x h))))" for a s m x
    by (rule guards_bind [OF guards_log_failure guards_mapped])
  have ok: "guards C sid (False, k0) (True, k0) (act_bind (session_access env sid) (\<lambda>_.
      act_bind (log_line a d b) (\<lambda>_. act_return x)))" for a d b x
    by (rule guards_bind [OF guards_access guards_bind [OF guards_log_line guards_return]])
  show "guards C sid (False, k0) (True, k0) (case r of
      Inl (InvalidInput message) \<Rightarrow>
        act_bind (log_failure env ''upload'' path message) (\<lambda>_.
          act_fail (if contains ZH_EXCEEDS message then PayloadTooLarge else BadRequest, message))
    | Inl e \<Rightarrow>
        act_bind (log_failure env ''upload'' path (app_error_text e)) (\<lambda>_.
          act_lift (\<lambda>h. Inl (map_remote_error env h (app_error_text e))))
    | Inr (bytes_written, actual_sha256) \<Rightarrow>
        act_bind (session_access env sid) (\<lambda>_.
        act_bind (log_line ''upload'' (path @ '' ('' @ dec_string bytes_written @ ''B, raw)'') True) (\<lambda>_.
          act_return \<lparr>ux_remote_path = path, ux_size = bytes_written, ux_sha256 = actual_sha256\<rparr>)))"
    by (auto intro: fail mapped ok split: sum.split app_error.split prod.split)
qed

lemma upload_needs_key: "needs_key env auth (upload_file_raw env up sha auth cr cl sid path sha256 body)"
  unfolding upload_file_raw_def by (rule needs_key_bind)

end
