(* ===== verification/Api_Download.thy ===== *)
theory Api_Download
  imports Api_Access Num_Parse Byte_Strings
begin

text \<open>
  Downloading a file over the HTTP interface (\<open>download\_file\<close> in \<open>api\_server/handlers\_remote.rs\<close>, the streams in
  \<open>remote/runtime\_api.rs\<close>). The remote file is a read function: what the SFTP library answers to a read of \<open>n\<close>
  bytes at a position, the \<open>k\<close>-th time. That it answers with bytes of one content is a hypothesis.
\<close>

section \<open>Ranges\<close>

datatype parsed_range = FullRange | Satisfiable nat nat | Unsatisfiable | MultipleRanges | InvalidRange

text \<open>The header value is \<open>Some None\<close> when it is not visible ASCII.\<close>

definition parse_range_header :: "string option option \<Rightarrow> nat \<Rightarrow> parsed_range" where
  "parse_range_header header_value tot =
     (case header_value of
        None \<Rightarrow> FullRange
      | Some None \<Rightarrow> InvalidRange
      | Some (Some text0) \<Rightarrow>
          (case strip_prefix ''bytes='' (trim text0) of
             None \<Rightarrow> InvalidRange
           | Some spec \<Rightarrow>
               if CHR '','' \<in> set spec then MultipleRanges
               else
                 (case split_once (CHR ''-'') (trim spec) of
                    None \<Rightarrow> InvalidRange
                  | Some (start_s, end_s) \<Rightarrow>
                      if tot = 0 then Unsatisfiable
                      else
                        (let bounds =
                           (if start_s = [] then
                              (case parse_u64 end_s of
                                 None \<Rightarrow> None
                               | Some suf \<Rightarrow> if 0 < suf then Some (tot - min suf tot, tot - 1) else None)
                            else
                              (case parse_u64 start_s of
                                 None \<Rightarrow> None
                               | Some start \<Rightarrow>
                                   if end_s = [] then Some (start, tot - 1)
                                   else (case parse_u64 end_s of
                                           None \<Rightarrow> None
                                         | Some e \<Rightarrow> Some (start, min e (tot - 1)))))
                         in case bounds of
                              None \<Rightarrow> InvalidRange
                            | Some (start, e) \<Rightarrow>
                                if start \<ge> tot \<or> e < start then Unsatisfiable else Satisfiable start e))))"

lemma parse_range_bounds: "parse_range_header h tot = Satisfiable a b \<Longrightarrow> a \<le> b \<and> b < tot"
  by (auto simp: parse_range_header_def Let_def split: option.splits prod.splits if_splits)

section \<open>Streams of the file\<close>

type_synonym item = "string + bytes"
type_synonym reader = "nat \<Rightarrow> nat \<Rightarrow> nat \<Rightarrow> string + bytes"

text \<open>\<open>ReaderStream\<close> over the file limited to \<open>remaining\<close> bytes from \<open>pos\<close> on.\<close>

function reader_stream :: "reader \<Rightarrow> nat \<Rightarrow> nat \<Rightarrow> nat \<Rightarrow> nat \<Rightarrow> item list" where
  "reader_stream rd buffer_size k pos remaining =
     (if remaining = 0 then []
      else case rd k pos (min (max buffer_size 1) remaining) of
             Inl e \<Rightarrow> [Inl e]
           | Inr b \<Rightarrow> if b = [] then []
                      else Inr b # reader_stream rd buffer_size (Suc k) (pos + length b) (remaining - length b))"
  by pat_completeness auto
termination by (relation "measure (\<lambda>(rd, buffer_size, k, pos, remaining). remaining)") auto

declare reader_stream.simps [simp del]

text \<open>\<open>SftpDownloadStream\<close>: how it answers the polls; \<open>closed k\<close> says whether the session is closed at the \<open>k\<close>-th.\<close>

fun sftp_download_stream :: "(nat \<Rightarrow> bool) \<Rightarrow> nat \<Rightarrow> nat \<Rightarrow> item list \<Rightarrow> item list" where
  "sftp_download_stream closed k remaining inner =
     (if remaining = 0 then []
      else if closed k then [Inl ''SFTP closed, download cancelled'']
      else case inner of
             [] \<Rightarrow> [Inl (''early end of the remote file: missing '' @ dec_string remaining)]
           | Inl e # _ \<Rightarrow> [Inl e]
           | Inr b # rest \<Rightarrow>
               if length b > remaining then [Inl ''the remote stream returned too much'']
               else Inr b # sftp_download_stream closed (Suc k) (remaining - length b) rest)"

declare sftp_download_stream.simps [simp del]

text \<open>A worker of the parallel download.\<close>

function download_worker ::
  "reader \<Rightarrow> (nat \<Rightarrow> bool) \<Rightarrow> string option \<Rightarrow> nat \<Rightarrow> nat \<Rightarrow> nat \<Rightarrow> nat \<Rightarrow> item list" where
  "download_worker rd closed shutdown_error buffer_size k pos remaining =
     (if remaining = 0 then
        (case shutdown_error of None \<Rightarrow> [] | Some e \<Rightarrow> [Inl (''closing the remote file failed: '' @ e)])
      else if closed k then [Inl ''SFTP closed, download cancelled'']
      else case rd k pos (min remaining buffer_size) of
             Inl e \<Rightarrow> [Inl (''reading the remote file failed: '' @ e)]
           | Inr b \<Rightarrow>
               if b = [] then [Inl (''early end of the remote file: missing '' @ dec_string remaining)]
               else Inr b # download_worker rd closed shutdown_error buffer_size (Suc k) (pos + length b)
                              (remaining - length b))"
  by pat_completeness auto
termination by (relation "measure (\<lambda>(rd, closed, shutdown_error, buffer_size, k, pos, remaining). remaining)") auto

declare download_worker.simps [simp del]

text \<open>\<open>OrderedChunkStream\<close> gives out what the workers send, one receiver after the other.\<close>

definition ordered_chunk_stream :: "item list list \<Rightarrow> item list" where
  "ordered_chunk_stream receivers = concat receivers"

record worker_env =
  we_open_error :: "string option"
  we_seek_error :: "string option"
  we_limit_error :: "string option"
  we_shutdown_error :: "string option"
  we_closed :: "nat \<Rightarrow> bool"
  we_read :: reader

definition run_worker :: "worker_env \<Rightarrow> nat \<Rightarrow> nat \<Rightarrow> nat \<Rightarrow> item list" where
  "run_worker e buffer_size chunk_start chunk_len =
     (case we_open_error e of
        Some m \<Rightarrow> [Inl (''opening the remote file failed: '' @ m)]
      | None \<Rightarrow>
          (case (if chunk_start > 0 then we_seek_error e else None) of
             Some m \<Rightarrow> [Inl (''seeking in the remote file failed: '' @ m)]
           | None \<Rightarrow>
               (case we_limit_error e of
                  Some m \<Rightarrow> [Inl (''setting the range failed: '' @ m)]
                | None \<Rightarrow> download_worker (we_read e) (we_closed e) (we_shutdown_error e) buffer_size 0 chunk_start chunk_len)))"

definition parallel_parts :: "nat \<Rightarrow> nat \<Rightarrow> nat \<Rightarrow> nat" where
  "parallel_parts parts available_sessions total_len =
     min (min (max parts 1) (max available_sessions 1)) (max total_len 1)"

definition parallel_chunks :: "nat \<Rightarrow> nat \<Rightarrow> nat \<Rightarrow> (nat \<times> nat) list" where
  "parallel_chunks start_offset total_len parts =
     (let chunk_size = total_len div parts in
      map (\<lambda>i. (start_offset + i * chunk_size,
                if i = parts - 1 then total_len - i * chunk_size else chunk_size)) [0..<parts])"

text \<open>What the runtime and the library answer to one request: the queue for transfer slots, the closed flag after it,
  opening, seeking and limiting the file, its reads, and for a parallel download the sessions and workers.\<close>

record download_env =
  dl_busy :: bool
  dl_quota_error :: "string option"
  dl_closed_after :: bool
  dl_open_error :: "string option"
  dl_seek_error :: "string option"
  dl_limit_error :: "string option"
  dl_stream_closed :: "nat \<Rightarrow> bool"
  dl_read :: reader
  dl_available :: nat
  dl_worker :: "nat \<Rightarrow> worker_env"

definition transfer_slot :: "download_env \<Rightarrow> string + unit" where
  "transfer_slot e =
     (if dl_busy e then Inl (''transfer '' @ ZH_QUEUE_BUSY @ '', try again later'')
      else (case dl_quota_error e of
              Some m \<Rightarrow> Inl (''no transfer quota: '' @ m)
            | None \<Rightarrow> if dl_closed_after e then Inl (''the SFTP '' @ ZH_CONNECT @ '' is closed'') else Inr ()))"

definition download_stream :: "download_env \<Rightarrow> nat \<Rightarrow> nat \<Rightarrow> nat \<Rightarrow> string + item list" where
  "download_stream e start_offset total_len buffer_size =
     and_then (transfer_slot e) (\<lambda>_.
       case dl_open_error e of
         Some m \<Rightarrow> Inl (''opening the remote file failed: '' @ m)
       | None \<Rightarrow>
           (case (if start_offset > 0 then dl_seek_error e else None) of
              Some m \<Rightarrow> Inl (''seeking in the remote file failed: '' @ m)
            | None \<Rightarrow>
                (case dl_limit_error e of
                   Some m \<Rightarrow> Inl (''setting the range failed: '' @ m)
                 | None \<Rightarrow>
                     Inr (sftp_download_stream (dl_stream_closed e) 0 total_len
                            (reader_stream (dl_read e) buffer_size 0 start_offset total_len)))))"

definition parallel_download_stream :: "download_env \<Rightarrow> nat \<Rightarrow> nat \<Rightarrow> nat \<Rightarrow> nat \<Rightarrow> string + item list" where
  "parallel_download_stream e start_offset total_len parts buffer_size =
     (if total_len = 0 then Inr []
      else
        and_then (transfer_slot e) (\<lambda>_.
          let p = parallel_parts parts (dl_available e) total_len in
          Inr (ordered_chunk_stream
                 (map (\<lambda>(i, (chunk_start, chunk_len)). run_worker (dl_worker e i) buffer_size chunk_start chunk_len)
                    (enumerate 0 (parallel_chunks start_offset total_len p))))))"

section \<open>The handler\<close>

definition PARALLEL_DOWNLOAD_THRESHOLD :: nat where "PARALLEL_DOWNLOAD_THRESHOLD = 16 * 1024 * 1024"
definition PARALLEL_DOWNLOAD_PARTS :: nat where "PARALLEL_DOWNLOAD_PARTS = 4"
definition TRANSFER_BUFFER_BYTES :: nat where "TRANSFER_BUFFER_BYTES = 1024 * 1024"

text \<open>The name in \<open>Content-Disposition\<close>: no control character, quote or backslash.\<close>

definition dropped_char :: "string \<Rightarrow> bool" where
  "dropped_char ch \<longleftrightarrow>
     (case ch of
        [c] \<Rightarrow> byte_of c < 32 \<or> byte_of c = 127 \<or> c = CHR 0x22 \<or> c = CHR 0x5C
      | [a, b] \<Rightarrow> byte_of a = 194 \<and> byte_of b < 160
      | _ \<Rightarrow> False)"

function safe_chars :: "string \<Rightarrow> string" where
  "safe_chars [] = []"
| "safe_chars (c # s) =
     (let w = max 1 (utf8_width (c # s)); ch = take w (c # s)
      in (if dropped_char ch then [] else ch) @ safe_chars (drop w (c # s)))"
  by pat_completeness auto
termination by (relation "measure length") auto

definition disposition_name :: "string \<Rightarrow> string" where
  "disposition_name path = safe_chars (last (split_on (CHR ''/'') path))"

datatype ok_status = StatusOk | StatusPartial

record download_reply =
  dr_status :: ok_status
  dr_length :: nat
  dr_content_range :: "(nat \<times> nat \<times> nat) option"
  dr_disposition :: "string option"
  dr_body :: "item list"

datatype download_answer = Download download_reply | NotSatisfiable nat string

definition serve_range ::
  "'l api_env \<Rightarrow> (history \<Rightarrow> download_env) \<Rightarrow> (string \<Rightarrow> bool) \<Rightarrow> string \<Rightarrow> string \<Rightarrow> ok_status \<Rightarrow> nat \<Rightarrow> nat \<Rightarrow> nat
   \<Rightarrow> download_answer act" where
  "serve_range env dl header_ok session_id path status start_offset end_offset total_size =
     (let send_len = (if total_size = 0 then 0 else end_offset - start_offset + 1);
          parallel_used = send_len \<ge> PARALLEL_DOWNLOAD_THRESHOLD \<and> PARALLEL_DOWNLOAD_PARTS \<ge> 2
      in act_bind
        (on_sftp env session_id (DownloadCall path start_offset send_len parallel_used) (\<lambda>h.
           if parallel_used
           then (case parallel_download_stream (dl h) start_offset send_len PARALLEL_DOWNLOAD_PARTS TRANSFER_BUFFER_BYTES of
                   Inl e \<Rightarrow> Inl (''starting the parallel download failed: '' @ e) | Inr items \<Rightarrow> Inr items)
           else download_stream (dl h) start_offset send_len TRANSFER_BUFFER_BYTES))
        (\<lambda>r. case r of
           Inl e \<Rightarrow> act_bind (log_failure env ''download'' path e) (\<lambda>_. act_lift (\<lambda>h. Inl (map_remote_error env h e)))
         | Inr items \<Rightarrow>
             (let disposition = ''attachment; filename='' @ [CHR 0x22] @ disposition_name path @ [CHR 0x22] in
              act_return (Download \<lparr>dr_status = status, dr_length = send_len,
                dr_content_range = (if status = StatusPartial then Some (start_offset, end_offset, total_size) else None),
                dr_disposition = (if header_ok disposition then Some disposition else None),
                dr_body = items\<rparr>))))"

definition download_file ::
  "'l api_env \<Rightarrow> (history \<Rightarrow> string + bool \<times> nat) \<Rightarrow> (history \<Rightarrow> download_env) \<Rightarrow> (string \<Rightarrow> bool) \<Rightarrow> string option
   \<Rightarrow> string option option \<Rightarrow> string \<Rightarrow> string \<Rightarrow> download_answer act" where
  "download_file env metadata dl header_ok auth range_header session_id path =
     act_bind (require_auth env auth) (\<lambda>_.
     act_bind (required (trim session_id \<noteq> []) ''missing sessionId'') (\<lambda>_.
     act_bind (required (trim path \<noteq> [] \<and> trim path \<noteq> ''/'') ''missing path'') (\<lambda>_.
     act_bind (session_access env session_id) (\<lambda>_.
     act_bind (ensure_api_session_ready env session_id True) (\<lambda>_.
     act_bind (on_sftp env session_id (MetadataCall path) (\<lambda>h. Inr (metadata h))) (\<lambda>found.
     act_bind (or_remote_error env found) (\<lambda>m.
       case m of
         Inl e \<Rightarrow> act_bind (log_failure env ''download'' path e) (\<lambda>_.
                    act_fail (StatusNotFound, ''cannot read the remote file: '' @ e))
       | Inr (is_dir, total_size) \<Rightarrow>
           act_bind (required (\<not> is_dir) ''path is a directory'') (\<lambda>_.
           act_bind (session_access env session_id) (\<lambda>_.
             case parse_range_header range_header total_size of
               FullRange \<Rightarrow> serve_range env dl header_ok session_id path StatusOk 0 (total_size - 1) total_size
             | Satisfiable a b \<Rightarrow> serve_range env dl header_ok session_id path StatusPartial a b total_size
             | Unsatisfiable \<Rightarrow> act_return (NotSatisfiable total_size ''range out of bounds'')
             | MultipleRanges \<Rightarrow> act_return (NotSatisfiable total_size ''multiple ranges'')
             | InvalidRange \<Rightarrow> act_fail (BadRequest, ''invalid range''))))))))))"

text \<open>\<open>DownloadLogStream\<close>: the log line when the client has polled the body \<open>polls\<close> times before it goes away.\<close>

fun download_log :: "string \<Rightarrow> nat \<Rightarrow> nat \<Rightarrow> item list \<Rightarrow> bool \<times> string" where
  "download_log detail 0 bytes_sent items = (False, detail @ '' client went away'')"
| "download_log detail (Suc polls) bytes_sent [] = (True, detail @ '' sent '' @ dec_string bytes_sent @ ''B'')"
| "download_log detail (Suc polls) bytes_sent (Inl e # _) = (False, detail @ '' transfer failed: '' @ e)"
| "download_log detail (Suc polls) bytes_sent (Inr b # items) =
     download_log detail polls (sat_add64 bytes_sent (length b)) items"

section \<open>What is sent\<close>

fun body_sent :: "item list \<Rightarrow> bytes" where
  "body_sent [] = []"
| "body_sent (Inl _ # _) = []"
| "body_sent (Inr b # items) = b @ body_sent items"

definition complete :: "item list \<Rightarrow> bool" where
  "complete items \<longleftrightarrow> (\<forall>i\<in>set items. \<exists>b. i = Inr b)"

text \<open>The reads of the library return bytes of one content, at most as many as asked for.\<close>

definition reads_ok :: "bytes \<Rightarrow> reader \<Rightarrow> bool" where
  "reads_ok content rd \<longleftrightarrow>
     (\<forall>k pos n b. rd k pos n = Inr b \<longrightarrow> length b \<le> n \<and> prefix b (drop pos content))"

text \<open>The items are those of \<open>len\<close> bytes from \<open>pos\<close> on, in order, without a gap; all of them if they end well.\<close>

definition slice_of :: "bytes \<Rightarrow> nat \<Rightarrow> nat \<Rightarrow> item list \<Rightarrow> bool" where
  "slice_of content pos len items \<longleftrightarrow>
     length (body_sent items) \<le> len \<and> prefix (body_sent items) (drop pos content)
     \<and> (complete items \<longrightarrow> length (body_sent items) = len)"

lemma complete_simps [simp]:
  "complete []" "\<not> complete (Inl e # items)" "complete (Inr b # items) \<longleftrightarrow> complete items"
  "complete (xs @ ys) \<longleftrightarrow> complete xs \<and> complete ys"
  by (auto simp: complete_def)

lemma body_sent_append: "body_sent (xs @ ys) = body_sent xs @ (if complete xs then body_sent ys else [])"
  by (induction xs rule: body_sent.induct) auto

lemma prefix_drop_append:
  assumes "prefix a (drop p c)" "prefix b (drop (p + length a) c)"
  shows "prefix (a @ b) (drop p c)"
proof -
  obtain r where r: "drop p c = a @ r" using assms(1) by (auto simp: prefix_def)
  then have "drop (p + length a) c = r" by (metis add.commute append_eq_conv_conj drop_drop)
  then show ?thesis using assms(2) r by (auto simp: prefix_def)
qed

lemma slice_of_error: "slice_of content pos len [Inl e]"
  by (simp add: slice_of_def)

lemma slice_of_done: "slice_of content pos 0 []"
  by (simp add: slice_of_def)

lemma slice_of_Cons:
  assumes "prefix b (drop pos content)" "length b \<le> len" "slice_of content (pos + length b) (len - length b) items"
  shows "slice_of content pos len (Inr b # items)"
  using assms prefix_drop_append [OF assms(1), of "body_sent items"] by (auto simp: slice_of_def)

lemma reads_okD: "reads_ok content rd \<Longrightarrow> rd k pos n = Inr b \<Longrightarrow> length b \<le> n \<and> prefix b (drop pos content)"
  unfolding reads_ok_def by blast

lemma download_worker_slice:
  "reads_ok content rd \<Longrightarrow> slice_of content pos remaining (download_worker rd closed shutdown_error n k pos remaining)"
proof (induction rd closed shutdown_error n k pos remaining rule: download_worker.induct)
  case (1 rd closed shutdown_error n k pos remaining)
  show ?case
  proof (cases "remaining = 0 \<or> closed k")
    case True
    then show ?thesis
      by (subst download_worker.simps) (auto simp: slice_of_error slice_of_done split: option.splits)
  next
    case open0: False
    show ?thesis
    proof (cases "rd k pos (min remaining n)")
      case (Inl e)
      then show ?thesis using open0 by (subst download_worker.simps) (simp add: slice_of_error)
    next
      case (Inr b)
      note r = reads_okD [OF "1.prems" Inr]
      show ?thesis
      proof (cases "b = []")
        case True
        then show ?thesis using open0 Inr by (subst download_worker.simps) (simp add: slice_of_error)
      next
        case False
        have "slice_of content (pos + length b) (remaining - length b)
            (download_worker rd closed shutdown_error n (Suc k) (pos + length b) (remaining - length b))"
          by (rule "1.IH") (use open0 Inr False "1.prems" in auto)
        then have "slice_of content pos remaining
            (Inr b # download_worker rd closed shutdown_error n (Suc k) (pos + length b) (remaining - length b))"
          using r by (intro slice_of_Cons) auto
        then show ?thesis using open0 Inr False by (subst download_worker.simps) simp
      qed
    qed
  qed
qed

lemma run_worker_slice: "reads_ok content (we_read e) \<Longrightarrow> slice_of content pos len (run_worker e n pos len)"
  by (auto simp: run_worker_def slice_of_error download_worker_slice split: option.splits if_splits)

text \<open>One stream: what the library hands on is a prefix from the position; the wrapper ends it well only at its length.\<close>

lemma reader_stream_prefix:
  "reads_ok content rd \<Longrightarrow>
   let sent = body_sent (reader_stream rd n k pos remaining) in
   length sent \<le> remaining \<and> prefix sent (drop pos content)"
proof (induction rd n k pos remaining rule: reader_stream.induct)
  case (1 rd n k pos remaining)
  show ?case
  proof (cases "remaining = 0")
    case True
    then show ?thesis by (subst reader_stream.simps) simp
  next
    case pos0: False
    show ?thesis
    proof (cases "rd k pos (min (max n 1) remaining)")
      case (Inl e)
      then show ?thesis using pos0 by (subst reader_stream.simps) simp
    next
      case (Inr b)
      note r = reads_okD [OF "1.prems" Inr]
      show ?thesis
      proof (cases "b = []")
        case True
        then show ?thesis using pos0 Inr by (subst reader_stream.simps) simp
      next
        case False
        let ?rest = "reader_stream rd n (Suc k) (pos + length b) (remaining - length b)"
        have "length (body_sent ?rest) \<le> remaining - length b \<and> prefix (body_sent ?rest) (drop (pos + length b) content)"
          using "1.IH" [OF pos0 Inr False "1.prems"] by (simp add: Let_def)
        moreover have "reader_stream rd n k pos remaining = Inr b # ?rest"
          using pos0 Inr False by (subst reader_stream.simps) simp
        moreover have "length b \<le> remaining" "prefix b (drop pos content)" using r by auto
        ultimately show ?thesis
          using prefix_drop_append [of b pos content "body_sent ?rest"] by (auto simp: Let_def)
      qed
    qed
  qed
qed

lemma sftp_download_stream_prefix:
  "(\<exists>rest. body_sent inner = body_sent (sftp_download_stream closed k remaining inner) @ rest)
   \<and> length (body_sent (sftp_download_stream closed k remaining inner)) \<le> remaining
   \<and> (complete (sftp_download_stream closed k remaining inner) \<longrightarrow>
        length (body_sent (sftp_download_stream closed k remaining inner)) = remaining)"
proof (induction closed k remaining inner rule: sftp_download_stream.induct)
  case (1 closed k remaining inner)
  show ?case
  proof (cases "remaining = 0 \<or> closed k \<or> inner = [] \<or> (\<exists>e r. inner = Inl e # r)")
    case True
    then show ?thesis by (subst (1 2 3 4) sftp_download_stream.simps) auto
  next
    case False
    then obtain b rest where i: "inner = Inr b # rest" by (cases inner; cases "hd inner") auto
    show ?thesis
    proof (cases "length b > remaining")
      case True
      then show ?thesis using False i by (subst (1 2 3 4) sftp_download_stream.simps) auto
    next
      case fits: False
      have eq: "sftp_download_stream closed k remaining inner
          = Inr b # sftp_download_stream closed (Suc k) (remaining - length b) rest"
        using False i fits by (subst sftp_download_stream.simps) simp
      from "1.IH" [OF _ _ i refl fits] False show ?thesis unfolding eq using i fits by auto
    qed
  qed
qed

lemma download_stream_slice:
  assumes "reads_ok content (dl_read e)" "download_stream e pos len n = Inr items"
  shows "slice_of content pos len items"
proof -
  let ?inner = "reader_stream (dl_read e) n 0 pos len"
  have items: "items = sftp_download_stream (dl_stream_closed e) 0 len ?inner"
    using assms(2) by (auto simp: download_stream_def and_then_Inr_iff split: option.splits if_splits)
  obtain rest where r: "body_sent ?inner = body_sent items @ rest" "length (body_sent items) \<le> len"
      "complete items \<longrightarrow> length (body_sent items) = len"
    using sftp_download_stream_prefix [of ?inner "dl_stream_closed e" 0 len] unfolding items by blast
  have "prefix (body_sent items @ rest) (drop pos content)"
    using reader_stream_prefix [OF assms(1), of n 0 pos len] r(1) by (simp add: Let_def)
  then have "prefix (body_sent items) (drop pos content)" by (rule append_prefixD)
  then show ?thesis using r by (simp add: slice_of_def)
qed

section \<open>The chunks tile the range\<close>

fun tiles :: "nat \<Rightarrow> (nat \<times> nat) list \<Rightarrow> nat \<Rightarrow> bool" where
  "tiles s [] e \<longleftrightarrow> s = e"
| "tiles s ((a, l) # cs) e \<longleftrightarrow> a = s \<and> tiles (s + l) cs e"

lemma tiles_le: "tiles s cs e \<Longrightarrow> s \<le> e"
  by (induction s cs e rule: tiles.induct) auto

lemma parallel_chunks_tile:
  assumes "1 \<le> p"
  shows "tiles start (parallel_chunks start total_len p) (start + total_len)"
proof -
  let ?c = "total_len div p"
  let ?f = "\<lambda>i. (start + i * ?c, if i = p - 1 then total_len - i * ?c else ?c)"
  have "tiles (start + i * ?c) (map ?f [i..<p]) (start + total_len)" if "i < p" for i
    using that
  proof (induction "p - i" arbitrary: i)
    case (Suc d)
    have fit: "i * ?c \<le> total_len"
      using Suc.prems by (metis div_times_less_eq_dividend le_trans less_imp_le_nat mult.commute mult_le_mono1)
    show ?case
    proof (cases "Suc i < p")
      case True
      have "tiles (start + Suc i * ?c) (map ?f [Suc i..<p]) (start + total_len)"
        by (rule Suc.hyps(1)) (use Suc.hyps(2) True in auto)
      moreover have "[i..<p] = i # [Suc i..<p]" "i \<noteq> p - 1" using Suc.prems True by (auto simp: upt_conv_Cons)
      ultimately show ?thesis by (simp add: algebra_simps del: upt_Suc)
    next
      case False
      then have "p - 1 = i" "[i..<p] = [i]" using Suc.prems by (auto simp: upt_conv_Cons)
      then show ?thesis using fit by simp
    qed
  qed simp
  from this [of 0] show ?thesis using assms by (simp add: parallel_chunks_def Let_def)
qed

lemma chunks_slice:
  "tiles s cs e \<Longrightarrow> length rs = length cs \<Longrightarrow>
   (\<forall>i<length cs. slice_of content (fst (cs ! i)) (snd (cs ! i)) (rs ! i)) \<Longrightarrow> slice_of content s (e - s) (concat rs)"
proof (induction s cs e arbitrary: rs rule: tiles.induct)
  case (1 s e)
  then show ?case by (simp add: slice_of_def)
next
  case (2 s a l cs e)
  obtain r rs' where rs: "rs = r # rs'" using "2.prems"(2) by (cases rs) auto
  have head: "slice_of content s l r" using "2.prems"(1,3) rs by (auto dest: spec [of _ 0])
  have "\<forall>i<length cs. slice_of content (fst (cs ! i)) (snd (cs ! i)) (rs' ! i)"
    using "2.prems"(3) rs by (auto dest: spec [of _ "Suc _"])
  then have tail: "slice_of content (s + l) (e - (s + l)) (concat rs')" using "2.IH" "2.prems" rs by simp
  have le: "s + l \<le> e" using "2.prems"(1) tiles_le by auto
  show ?case
  proof (cases "complete r")
    case True
    then have "length (body_sent r) = l" using head by (simp add: slice_of_def)
    then show ?thesis using head tail le True prefix_drop_append [of "body_sent r" s content "body_sent (concat rs')"]
      by (auto simp: rs slice_of_def body_sent_append)
  next
    case False
    then show ?thesis using head le by (auto simp: rs slice_of_def body_sent_append)
  qed
qed

lemma parallel_download_slice:
  assumes "\<forall>i. reads_ok content (we_read (dl_worker e i))" "parallel_download_stream e pos len parts n = Inr items"
  shows "slice_of content pos len items"
proof (cases "len = 0")
  case True
  then show ?thesis using assms(2) by (simp add: parallel_download_stream_def slice_of_done)
next
  case False
  let ?p = "parallel_parts parts (dl_available e) len"
  let ?cs = "parallel_chunks pos len ?p"
  let ?rs = "map (\<lambda>(i, (a, l)). run_worker (dl_worker e i) n a l) (enumerate 0 ?cs)"
  have items: "items = concat ?rs"
    using assms(2) False
    by (auto simp: parallel_download_stream_def and_then_Inr_iff ordered_chunk_stream_def Let_def)
  have "1 \<le> ?p" using False by (simp add: parallel_parts_def)
  then have "tiles pos ?cs (pos + len)" by (rule parallel_chunks_tile)
  moreover have "\<forall>i<length ?cs. slice_of content (fst (?cs ! i)) (snd (?cs ! i)) (?rs ! i)"
    using assms(1) by (auto simp: nth_enumerate_eq run_worker_slice split: prod.split)
  ultimately have "slice_of content pos (pos + len - pos) (concat ?rs)" by (intro chunks_slice) auto
  then show ?thesis using items by simp
qed

section \<open>The answer\<close>

lemma serve_range_reply:
  assumes "serve_range env dl ok sid path status a b total_size h = (h', Inr (Download reply))"
    and "\<And>h. reads_ok content (dl_read (dl h)) \<and> (\<forall>i. reads_ok content (we_read (dl_worker (dl h) i)))"
  shows "dr_status reply = status \<and> dr_length reply = (if total_size = 0 then 0 else b - a + 1)
    \<and> dr_content_range reply = (if status = StatusPartial then Some (a, b, total_size) else None)
    \<and> slice_of content a (dr_length reply) (dr_body reply)
    \<and> (\<forall>d. dr_disposition reply = Some d \<longrightarrow> d = ''attachment; filename='' @ [CHR 0x22] @ disposition_name path @ [CHR 0x22])"
proof -
  let ?len = "if total_size = 0 then 0 else b - a + 1"
  let ?par = "?len \<ge> PARALLEL_DOWNLOAD_THRESHOLD \<and> PARALLEL_DOWNLOAD_PARTS \<ge> 2"
  obtain h1 items where items: "(if ?par then parallel_download_stream (dl h1) a ?len PARALLEL_DOWNLOAD_PARTS TRANSFER_BUFFER_BYTES
      else download_stream (dl h1) a ?len TRANSFER_BUFFER_BYTES) = Inr items"
    and reply: "reply = \<lparr>dr_status = status, dr_length = ?len,
      dr_content_range = (if status = StatusPartial then Some (a, b, total_size) else None),
      dr_disposition = (let d = ''attachment; filename='' @ [CHR 0x22] @ disposition_name path @ [CHR 0x22] in
        if ok d then Some d else None), dr_body = items\<rparr>"
    using assms(1)
    by (cases ?par) (auto simp: serve_range_def Let_def act_bind_def on_sftp_def log_failure_def act_emit_def act_lift_def
        act_return_def split: sum.splits prod.splits if_splits)
  have "slice_of content a ?len items"
    using items assms(2) [of h1] by (auto intro: download_stream_slice parallel_download_slice split: if_splits)
  then show ?thesis unfolding reply by (simp add: Let_def)
qed


text \<open>The log says that the download succeeded only when the client has polled the body to its end and no error was
  in it.\<close>

lemma download_logged:
  "download_log detail polls sent items = (True, msg) \<Longrightarrow> complete items \<and> length items < polls"
  by (induction detail polls sent items rule: download_log.induct) auto

section \<open>Access\<close>

lemma guards_serve:
  assumes "\<And>a l p. C (DownloadCall path a l p)"
  shows "guards C sid (True, k0) (True, k0) (serve_range env dl ok sid path status a b total_size)"
  unfolding serve_range_def Let_def
proof (rule guards_bind [OF guards_sftp [where C = C, OF assms]])
  show "guards C sid (\<not> answers (DownloadCall path a l p), k0) (True, k0) (case r of
      Inl e \<Rightarrow> act_bind (log_failure env ''download'' path e) (\<lambda>_. act_lift (\<lambda>h. Inl (map_remote_error env h e)))
    | Inr items \<Rightarrow> act_return (f items))" for r l p and f :: "item list \<Rightarrow> download_answer"
    by (cases r) (simp_all add: answers_def guards_return guards_bind [OF guards_log_failure guards_mapped])
qed simp

lemma guards_download:
  assumes "C OpenSftpCall" "C (MetadataCall path)" "\<And>a l p. C (DownloadCall path a l p)"
  shows "guards C sid (f0, k0) (True, k0) (download_file env metadata dl ok auth rng sid path)"
  unfolding download_file_def
proof (rule guards_bind [OF guards_auth], rule guards_bind [OF guards_required], rule guards_bind [OF guards_required],
    rule guards_bind [OF guards_access], rule guards_bind [OF guards_ready [where C = C, OF assms(1)]],
    rule guards_bind [OF guards_sftp [where C = C, OF assms(2)]], simp, rule guards_bind [OF guards_or_error])
  fix m
  have fail: "guards C sid q (True, k0) (act_bind (log_failure env a s e) (\<lambda>_. act_fail x))" for q a s e and x :: "http_status \<times> string"
    by (rule guards_bind [OF guards_log_failure guards_fail])
  show "guards C sid (\<not> answers (MetadataCall path), k0) (True, k0) (case m of
         Inl e \<Rightarrow> act_bind (log_failure env ''download'' path e) (\<lambda>_.
                    act_fail (StatusNotFound, ''cannot read the remote file: '' @ e))
       | Inr (is_dir, total_size) \<Rightarrow>
           act_bind (required (\<not> is_dir) ''path is a directory'') (\<lambda>_.
           act_bind (session_access env sid) (\<lambda>_.
             case parse_range_header rng total_size of
               FullRange \<Rightarrow> serve_range env dl ok sid path StatusOk 0 (total_size - 1) total_size
             | Satisfiable a b \<Rightarrow> serve_range env dl ok sid path StatusPartial a b total_size
             | Unsatisfiable \<Rightarrow> act_return (NotSatisfiable total_size ''range out of bounds'')
             | MultipleRanges \<Rightarrow> act_return (NotSatisfiable total_size ''multiple ranges'')
             | InvalidRange \<Rightarrow> act_fail (BadRequest, ''invalid range''))))"
    by (cases m)
      (auto intro!: fail guards_bind [OF guards_required] guards_bind [OF guards_access]
        intro: guards_serve assms(3) guards_return guards_fail split: prod.split parsed_range.split)
qed

lemma download_needs_key: "needs_key env auth (download_file env metadata dl ok auth rng sid path)"
  unfolding download_file_def by (rule needs_key_bind)

text \<open>A file of five bytes, read in pieces of at most two, from its third byte on.\<close>

definition five_bytes :: bytes where "five_bytes = [1, 2, 3, 4, 5]"

definition two_at_a_time :: reader where
  "two_at_a_time k pos n = Inr (take (min n 2) (drop pos five_bytes))"

definition demo_download :: download_env where
  "demo_download = \<lparr>dl_busy = False, dl_quota_error = None, dl_closed_after = False, dl_open_error = None,
     dl_seek_error = None, dl_limit_error = None, dl_stream_closed = (\<lambda>_. False), dl_read = two_at_a_time,
     dl_available = 1, dl_worker = (\<lambda>_. \<lparr>we_open_error = None, we_seek_error = None, we_limit_error = None,
       we_shutdown_error = None, we_closed = (\<lambda>_. False), we_read = two_at_a_time\<rparr>)\<rparr>"


end
