(* ===== verification/Api_Remote.thy ===== *)
theory Api_Remote
  imports Api_Pages Api_Batch Api_Upload Api_Download
begin

text \<open>
  The handlers that reach a server, together: what a request may cause (the routes of \<open>api\_server/mod.rs\<close> to
  \<open>handlers\_remote.rs\<close>).
\<close>

record 'l api_world =
  aw_env :: "'l api_env"
  aw_lower :: "string \<Rightarrow> string"
  aw_upload :: "history \<Rightarrow> upload_env"
  aw_sha256 :: "bytes \<Rightarrow> string"
  aw_metadata :: "history \<Rightarrow> string + bool \<times> nat"
  aw_download :: "history \<Rightarrow> download_env"
  aw_header_ok :: "string \<Rightarrow> bool"

datatype api_request =
    ReqConnect (request_session: string)
  | ReqDisconnect (request_session: string)
  | ReqExec (request_session: string) string "nat option" "string option"
  | ReqBatch (request_session: string) "batch_item list" bool bool "string option" "nat list"
  | ReqLatency (request_session: string) "8 word option"
  | ReqFiles (request_session: string) string
  | ReqPage (request_session: string) string "string option" "16 word option"
  | ReqStat (request_session: string) string
  | ReqUpload (request_session: string) string "string option" bool "string option" bytes
  | ReqDownload (request_session: string) string "string option option"

datatype 'l api_reply =
    Connected "(string \<times> json) list"
  | Disconnected
  | Executed exec_output
  | Batch "batch_reply option"
  | Measured 'l
  | Files "file_entry list"
  | Page files_page
  | Stat file_entry
  | Uploaded upload_response
  | Served download_answer

definition act_map :: "('a \<Rightarrow> 'b) \<Rightarrow> 'a act \<Rightarrow> 'b act" where
  "act_map f m = act_bind m (\<lambda>x. act_return (f x))"

fun serve_request :: "'l api_world \<Rightarrow> string option \<Rightarrow> api_request \<Rightarrow> 'l api_reply act" where
  "serve_request w auth (ReqConnect sid) = act_map Connected (rest_connect (aw_env w) auth sid)"
| "serve_request w auth (ReqDisconnect sid) = act_map (\<lambda>_. Disconnected) (rest_disconnect (aw_env w) auth sid)"
| "serve_request w auth (ReqExec sid command t mode) =
     act_map Executed (rest_exec (aw_env w) (aw_lower w) auth sid command t mode)"
| "serve_request w auth (ReqBatch sid items p stop mode schedule) =
     act_map Batch (rest_exec_batch (aw_env w) (aw_lower w) auth sid items p stop mode schedule)"
| "serve_request w auth (ReqLatency sid samples) = act_map Measured (rest_latency (aw_env w) auth sid samples)"
| "serve_request w auth (ReqFiles sid path) = act_map Files (rest_files (aw_env w) auth sid path)"
| "serve_request w auth (ReqPage sid path cursor limit) = act_map Page (rest_files_page (aw_env w) auth sid path cursor limit)"
| "serve_request w auth (ReqStat sid path) = act_map Stat (rest_file_stat (aw_env w) auth sid path)"
| "serve_request w auth (ReqUpload sid path sha256 cr cl body) =
     act_map Uploaded (upload_file_raw (aw_env w) (aw_upload w) (aw_sha256 w) auth cr cl sid path sha256 body)"
| "serve_request w auth (ReqDownload sid path rng) =
     act_map Served (download_file (aw_env w) (aw_metadata w) (aw_download w) (aw_header_ok w) auth rng sid path)"

section \<open>What a request may cause\<close>

definition passes_guard :: "(string \<Rightarrow> string) \<Rightarrow> string option \<Rightarrow> string \<Rightarrow> bool" where
  "passes_guard lower mode command \<longleftrightarrow>
     (\<exists>strict. strict_safety_mode mode = Inr strict \<and> trim command \<noteq> [] \<and> length command \<le> MAX_API_COMMAND_BYTES
        \<and> check_dangerous_command lower command strict = None)"

fun requested_call :: "(string \<Rightarrow> string) \<Rightarrow> api_request \<Rightarrow> remote_call \<Rightarrow> bool" where
  "requested_call lower rq OpenSftpCall = True"
| "requested_call lower rq DisconnectCall = False"
| "requested_call lower (ReqExec _ command t mode) call \<longleftrightarrow>
     call = ExecCall command (exec_timeout t) \<and> passes_guard lower mode command"
| "requested_call lower (ReqBatch _ items _ _ mode _) call \<longleftrightarrow>
     (\<exists>item\<in>set items. call = ExecCall (bi_command item) (exec_timeout (bi_timeout_ms item))
        \<and> passes_guard lower mode (bi_command item))"
| "requested_call lower (ReqLatency _ samples) call \<longleftrightarrow> call = LatencyCall samples"
| "requested_call lower (ReqFiles _ path) call \<longleftrightarrow> call = ListCall path"
| "requested_call lower (ReqPage _ path _ _) call \<longleftrightarrow>
     (\<exists>offset limit. call = PageCall path offset limit \<and> 1 \<le> limit \<and> limit \<le> MAX_FILES_PAGE_LIMIT)"
| "requested_call lower (ReqStat _ path) call \<longleftrightarrow> call = StatCall (normalize_remote_path path)"
| "requested_call lower (ReqUpload _ path _ _ _ _) call \<longleftrightarrow> call = UploadCall path"
| "requested_call lower (ReqDownload _ path _) call \<longleftrightarrow>
     call = MetadataCall path \<or> (\<exists>start len p. call = DownloadCall path start len p)"
| "requested_call lower _ call = False"

definition returns_data :: "'l api_reply \<Rightarrow> bool" where
  "returns_data reply \<longleftrightarrow> reply \<noteq> Disconnected \<and> reply \<noteq> Batch None"

lemma guards_post_map:
  assumes "guards_post C sid p Q m" "\<And>x f. Q x f \<Longrightarrow> R (g x) f"
  shows "guards_post C sid p R (act_map g m)"
  unfolding guards_post_def
proof
  fix h
  obtain es f where "fst (m h) = h @ es" "guard_run C sid p es = Some f" "\<forall>x. snd (m h) = Inr x \<longrightarrow> Q x f"
    using assms(1) unfolding guards_post_def by blast
  then show "\<exists>es f. fst (act_map g m h) = h @ es \<and> guard_run C sid p es = Some f
      \<and> (\<forall>x. snd (act_map g m h) = Inr x \<longrightarrow> R x f)"
    using assms(2)
    by (intro exI [of _ es] exI [of _ f]) (auto simp: act_map_def act_bind_def act_return_def split: prod.splits sum.splits)
qed

lemma guards_data:
  assumes "guards C sid (False, False) (True, k0) m"
  shows "guards_post C sid (False, False) (\<lambda>reply f. returns_data reply \<longrightarrow> fst f) (act_map g m)"
  by (rule guards_post_map [OF assms [unfolded guards_iff_post]]) (auto simp: at_least_def)

lemma needs_key_map: "needs_key env auth m \<Longrightarrow> needs_key env auth (act_map g m)"
  by (simp add: needs_key_def act_map_def act_bind_def)

lemma exec_request_passes: "validate_exec_request lower sid command mode = Inr u \<Longrightarrow> passes_guard lower mode command"
  by (auto simp: validate_exec_request_def passes_guard_def and_then_Inr_iff split: if_splits option.splits)

lemma serve_request_guards:
  "guards_post (requested_call (aw_lower w) rq) (request_session rq) (False, False)
     (\<lambda>reply f. returns_data reply \<longrightarrow> fst f) (serve_request w auth rq)"
proof (cases rq)
  case (ReqDisconnect sid)
  then show ?thesis
    by (simp add: guards_post_map [OF guards_rest_disconnect [unfolded guards_iff_post]] returns_data_def)
next
  case (ReqBatch sid items p stop mode schedule)
  have "guards_post (requested_call (aw_lower w) rq) sid (False, False) (\<lambda>r f. r \<noteq> None \<longrightarrow> fst f)
      (rest_exec_batch (aw_env w) (aw_lower w) auth sid items p stop mode schedule)"
    by (rule guards_rest_exec_batch)
      (auto simp: ReqBatch allowed_batch_calls_def passes_guard_def dest: check_batch_items_ok)
  then show ?thesis unfolding ReqBatch serve_request.simps api_request.sel
    by (rule guards_post_map) (auto simp: returns_data_def)
next
  case (ReqExec sid command t mode)
  have "guards (requested_call (aw_lower w) rq) sid (False, False) (True, False)
      (rest_exec (aw_env w) (aw_lower w) auth sid command t mode)"
    by (rule guards_rest_exec) (auto simp: ReqExec dest: exec_request_passes)
  then show ?thesis unfolding ReqExec serve_request.simps api_request.sel by (rule guards_data)
qed (auto intro!: guards_data guards_rest_connect guards_rest_latency guards_rest_files
      guards_rest_files_page guards_rest_file_stat guards_upload guards_download)

lemma serve_needs_key: "needs_key (aw_env w) auth (serve_request w auth rq)"
  by (cases rq)
    (simp_all add: needs_key_map rest_needs_key files_need_key upload_needs_key download_needs_key,
     auto intro!: needs_key_map simp: rest_exec_batch_def needs_key_bind)


definition demo_world :: "unit api_world" where
  "demo_world = \<lparr>aw_env = demo_api, aw_lower = to_ascii_lowercase,
     aw_upload = (\<lambda>_. \<lparr>up_busy = True, up_quota_error = None, up_closed = (False, False), up_uuid = ''u'', up_open_error = None,
       up_turns = [], up_shutdown_error = None, up_size = Inr 0,
       up_sftp = \<lparr>se_record = Inr ''s'', se_exec = (\<lambda>_. Inl missing_sftp), se_metadata = (\<lambda>_. Inl missing_sftp),
         se_symlink_metadata = (\<lambda>_. Inl missing_sftp), se_try_exists = (\<lambda>_. Inr False), se_set_metadata = (\<lambda>_. Inr ()),
         se_read = (\<lambda>_. Inl missing_sftp), se_write = (\<lambda>_ _. Inl missing_sftp)\<rparr>\<rparr>),
     aw_sha256 = (\<lambda>_. ''d''), aw_metadata = (\<lambda>_. Inr (False, 5)), aw_download = (\<lambda>_. demo_download),
     aw_header_ok = (\<lambda>_. True)\<rparr>"


end
