(* ===== verification/App_Prog.thy ===== *)
theory App_Prog
  imports Vault_Backup Config_Mutation Forwards
begin

text \<open>
  Commands of the interface and requests of the HTTP server as tasks that share the vault and five locks
  (\<open>commands/mod.rs\<close>, the fields of \<open>AppState\<close>). A task is a program that stops wherever other tasks may run: at a
  lock, at a section under the mutex of the store, at a call of the runtime. The tasks run interleaved; a lock
  serves its waiters in the order they came, as \<open>tokio\<close> documents of its mutex and its read-write lock.
\<close>

section \<open>Changes of the vault\<close>

datatype vault_change =
    ChProxy "app_proxy_options option"
  | ChBackup backup_settings
  | ChCommandUpsert quick_command
  | ChCommandDelete string
  | ChAiApi ai_api_settings_update
  | ChAiKey "string option"
  | ChIgnoreVersion string
  | ChSections "string list"
  | ChTunnelCreate tunnel_input
  | ChTunnelEnabled string bool
  | ChTunnelUpdate string tunnel_input
  | ChTunnelDelete string
  | ChRecords "backup_record list"
  | ChRecordDelete string bool
  | ChTrust string string "16 word" string string
  | ChGroupCreate group_input
  | ChGroupUpdate string group_input
  | ChGroupDelete string
  | ChSessionCreate session_input
  | ChSessionUpdate string session_input
  | ChFavorite string bool
  | ChRecent string
  | ChClearRecent string
  | ChSessionDelete string
  | ChImport path
  | ChImportBytes bytes
  | ChMigrate string
  | ChReset

type_synonym changed = "config_snapshot \<times> cleanup_target list"

definition no_cleanup :: "config_snapshot vault_op \<Rightarrow> changed vault_op" where
  "no_cleanup f s = (case f s of (r, s') \<Rightarrow> (map_sum id (\<lambda>snap. (snap, [])) r, s'))"

text \<open>\<open>vault\_skip\_migration\<close>: the old file goes, a fresh store takes its place.\<close>

definition vault_reset :: "vault_io \<Rightarrow> config_snapshot vault_op" where
  "vault_reset io s =
     (let (st, fs) = s; p = vs_path st in
      case (if fs p = None then None else if_remove (vi_faults io)) of
        Some m \<Rightarrow> (Inl (Io (''cannot remove the old data: '' @ m)), s)
      | None \<Rightarrow> vault_create io AUTO_PASSWORD (vault_store_new p, fs(p := None)))"

fun apply_change :: "vault_io \<Rightarrow> vault_io \<Rightarrow> vault_change \<Rightarrow> changed vault_op" where
  "apply_change io io2 (ChProxy proxy) = no_cleanup (settings_proxy_update io proxy)"
| "apply_change io io2 (ChBackup backup) = settings_backup_update io backup"
| "apply_change io io2 (ChCommandUpsert c) = no_cleanup (quick_command_upsert io c)"
| "apply_change io io2 (ChCommandDelete i) = no_cleanup (quick_command_delete io i)"
| "apply_change io io2 (ChAiApi u) = no_cleanup (settings_ai_api_update io u)"
| "apply_change io io2 (ChAiKey key) = no_cleanup (settings_ai_api_key_update io key)"
| "apply_change io io2 (ChIgnoreVersion v) = no_cleanup (settings_ignore_update_version io v)"
| "apply_change io io2 (ChSections ids) = no_cleanup (connection_section_state_update io ids)"
| "apply_change io io2 (ChTunnelCreate input) = no_cleanup (create_tunnel io input)"
| "apply_change io io2 (ChTunnelEnabled i b) = no_cleanup (set_tunnel_enabled io i b)"
| "apply_change io io2 (ChTunnelUpdate i input) = no_cleanup (update_tunnel io i input)"
| "apply_change io io2 (ChTunnelDelete i) = no_cleanup (delete_tunnel io i)"
| "apply_change io io2 (ChRecords rs) = replace_backup_records io rs"
| "apply_change io io2 (ChRecordDelete i b) =
     (\<lambda>s. case delete_backup_record io i b s of
            (r, s') \<Rightarrow> (map_sum id (\<lambda>(snap, t). (snap, case t of None \<Rightarrow> [] | Some x \<Rightarrow> [x])) r, s'))"
| "apply_change io io2 (ChTrust sid host port alg fp) = no_cleanup (trust_host_key io sid host port alg fp)"
| "apply_change io io2 (ChGroupCreate input) = no_cleanup (create_group io input)"
| "apply_change io io2 (ChGroupUpdate i input) = no_cleanup (update_group io i input)"
| "apply_change io io2 (ChGroupDelete i) = no_cleanup (delete_group io i)"
| "apply_change io io2 (ChSessionCreate input) = no_cleanup (create_session io input)"
| "apply_change io io2 (ChSessionUpdate i input) = no_cleanup (update_session io i input)"
| "apply_change io io2 (ChFavorite i b) = no_cleanup (set_session_favorite io i b)"
| "apply_change io io2 (ChRecent i) = no_cleanup (mark_session_recent io i)"
| "apply_change io io2 (ChClearRecent i) = no_cleanup (clear_session_recent io i)"
| "apply_change io io2 (ChSessionDelete i) = no_cleanup (delete_session io i)"
| "apply_change io io2 (ChImport p) = no_cleanup (backup_import io p)"
| "apply_change io io2 (ChImportBytes bs) = no_cleanup (backup_import_bytes io bs)"
| "apply_change io io2 (ChMigrate pw) = no_cleanup (vault_migrate io io2 pw)"
| "apply_change io io2 ChReset = no_cleanup (vault_reset io)"

section \<open>Programs\<close>

datatype lock = ApiOperation | ApiHandle | BackupOperation | TunnelOperation | ConnectionGate | MutationGate

datatype access = Shared | Exclusive

record connection_info =
  ci_connection_id :: string
  ci_session_id :: string

record api_handle =
  ah_port :: "16 word"
  ah_key :: string
  ah_finished :: bool
  ah_allowed :: "string list"
  ah_names :: "(string \<times> string) list"

record backup_plan =
  bp_settings :: backup_settings
  bp_vault_path :: path
  bp_existing_records :: "backup_record list"

datatype forward_options =
    LocalOptions string "16 word" string "16 word"
  | RemoteOptions string "16 word" string "16 word"
  | DynamicOptions string "16 word"

text \<open>Calls that leave the vault alone: of the remote runtime, of files and backup targets, of the HTTP server.\<close>

datatype runtime_call =
    CallConnect session_config "known_host_entry option"
  | CallConnectNew session_config "known_host_entry option"
  | CallApiConnect session_config "known_host_entry option"
  | CallApiDisconnect string
  | CallDisconnect string
  | CallShutdownConnection string
  | CallShutdownSession string
  | CallShutdownAll
  | CallShutdownForExit
  | CallConnectionList
  | CallDesktopForward string
  | CallStopForwards string "connection_origin option"
  | CallStartForward tunnel_config connection_origin
  | CallStartForwardOn tunnel_config string
  | CallForwardStart forward_options "string option" string string
  | CallForwardStop string
  | CallForwardList
  | CallRecordStartFailure tunnel_config string string
  | CallReadFile string
  | CallReadVault path
  | CallBuildPackage bytes
  | CallWriteFile path bytes
  | CallRunBackup backup_plan "string list option" bool
  | CallListBackups backup_settings
  | CallRemoveTarget cleanup_target
  | CallDownloadBackup cloud_backup_settings backup_record
  | CallInitializeVault
  | CallMigrationFlag
  | CallClearMigration
  | CallApiStartupCancel
  | CallApiStartupWaiting "16 word"
  | CallShuttingDown
  | CallHandle
  | CallTakeHandle
  | CallStopHandle api_handle
  | CallPutHandle api_handle
  | CallRequestShutdown
  | CallReplaceAllowed "string list" "(string \<times> string) list"
  | CallUpdateAllowed "string list" "(string \<times> string) list"
  | CallGenerateKey
  | CallStartServer "16 word" string "string list" "(string \<times> string) list"

text \<open>Every kind of answer such a call may give; a program reads the one its call gives.\<close>

record answer =
  an_result :: "unit app_result"
  an_connections :: "connection_info list"
  an_connection :: "connection_info app_result"
  an_forward :: "forward_info app_result"
  an_existing :: "forward_info option"
  an_forwards :: "forward_info list"
  an_flag :: bool
  an_bytes :: "bytes app_result"
  an_records :: "backup_record list app_result"
  an_handle :: "api_handle option"
  an_started :: "api_handle app_result"
  an_text :: string

datatype app_note =
    ConfigChanged config_snapshot
  | ApiStatus bool "16 word" string
  | LogLine string string bool

datatype 'a prog =
    Done 'a
  | Acquire lock access "'a prog"
  | Release lock "'a prog"
  | Epoch "ticket_value \<Rightarrow> 'a prog"
  | Bump "'a prog"
  | Look "vault_io \<Rightarrow> vault_state \<Rightarrow> 'a prog"
  | Change "vault_store \<Rightarrow> vault_change app_result" "vault_store \<Rightarrow> changed app_result \<Rightarrow> 'a prog"
  | ReadKey "string \<Rightarrow> 'a prog"
  | ReadAllowed "string list \<Rightarrow> 'a prog"
  | Ask runtime_call "answer \<Rightarrow> 'a prog"
  | Note app_note "'a prog"

primrec prog_seq :: "'a prog \<Rightarrow> ('a \<Rightarrow> 'b prog) \<Rightarrow> 'b prog" where
  "prog_seq (Done x) f = f x"
| "prog_seq (Acquire l m p) f = Acquire l m (prog_seq p f)"
| "prog_seq (Release l p) f = Release l (prog_seq p f)"
| "prog_seq (Epoch k) f = Epoch (\<lambda>e. prog_seq (k e) f)"
| "prog_seq (Bump p) f = Bump (prog_seq p f)"
| "prog_seq (Look k) f = Look (\<lambda>io v. prog_seq (k io v) f)"
| "prog_seq (Change g k) f = Change g (\<lambda>st r. prog_seq (k st r) f)"
| "prog_seq (ReadKey k) f = ReadKey (\<lambda>s. prog_seq (k s) f)"
| "prog_seq (ReadAllowed k) f = ReadAllowed (\<lambda>ids. prog_seq (k ids) f)"
| "prog_seq (Ask q k) f = Ask q (\<lambda>a. prog_seq (k a) f)"
| "prog_seq (Note n p) f = Note n (prog_seq p f)"

text \<open>The question mark of a function that returns a result.\<close>

definition prog_try :: "('e + 'a) prog \<Rightarrow> ('a \<Rightarrow> ('e + 'b) prog) \<Rightarrow> ('e + 'b) prog" where
  "prog_try p f = prog_seq p (\<lambda>r. case r of Inl e \<Rightarrow> Done (Inl e) | Inr x \<Rightarrow> f x)"

text \<open>A guard lives as long as the block it is declared in.\<close>

definition with_lock :: "lock \<Rightarrow> access \<Rightarrow> 'a prog \<Rightarrow> 'a prog" where
  "with_lock l m body = Acquire l m (prog_seq body (\<lambda>x. Release l (Done x)))"

text \<open>\<open>lock\<close> and \<open>begin\_replacement\<close> of the coordinator around a block.\<close>

definition mutation_guarded_as ::
  "(app_error \<Rightarrow> 'e) \<Rightarrow> ticket_value \<Rightarrow> ('e + 'a) prog \<Rightarrow> ('e + 'a) prog" where
  "mutation_guarded_as err t body =
     Acquire MutationGate Exclusive (Epoch (\<lambda>current.
       if current \<noteq> t \<or> \<not> even (unat current)
       then Release MutationGate (Done (Inl (err stale_config_error)))
       else prog_seq body (\<lambda>r. Release MutationGate (Done r))))"

definition mutation_guarded :: "ticket_value \<Rightarrow> ('a app_result) prog \<Rightarrow> ('a app_result) prog" where
  "mutation_guarded t body = mutation_guarded_as id t body"

definition replacement_guarded :: "'a prog \<Rightarrow> 'a prog" where
  "replacement_guarded body =
     Acquire MutationGate Exclusive (Bump (prog_seq body (\<lambda>r. Bump (Release MutationGate (Done r)))))"

end
