(* ===== verification/App_Tasks.thy ===== *)
theory App_Tasks
  imports App_Prog
begin

text \<open>
  The system of tasks: what a task knows and holds, the steps of one task and of all of them, and the discipline
  under which they never deadlock, never change the vault at the same time, and never act on stale reads.
\<close>

section \<open>What a task holds and has seen\<close>

datatype gate_mode = Outside | Unchecked | Checked | Replacement

record ctx =
  cx_held :: "lock \<Rightarrow> access option"
  cx_gate :: gate_mode
  cx_ticket :: "ticket_value option"
  cx_known :: "vault_store option"
  cx_key :: "string option"
  cx_allowed :: "string list option"

definition cx_start :: ctx where
  "cx_start = \<lparr>cx_held = (\<lambda>_. None), cx_gate = Outside, cx_ticket = None, cx_known = None, cx_key = None,
               cx_allowed = None\<rparr>"

text \<open>A key counts for the operation in whose lock it was read, the allowed sessions for the mutation.\<close>

definition on_acquire :: "lock \<Rightarrow> access \<Rightarrow> ctx \<Rightarrow> ctx" where
  "on_acquire l m c =
     c\<lparr>cx_held := (cx_held c)(l \<mapsto> m),
       cx_gate := (if l = MutationGate then Unchecked else cx_gate c),
       cx_key := (if l = BackupOperation \<or> l = TunnelOperation then None else cx_key c),
       cx_allowed := (if l = MutationGate then None else cx_allowed c)\<rparr>"

definition on_release :: "lock \<Rightarrow> ctx \<Rightarrow> ctx" where
  "on_release l c =
     c\<lparr>cx_held := (cx_held c)(l := None),
       cx_gate := (if l = MutationGate then Outside else cx_gate c),
       cx_known := (if l = MutationGate then None else cx_known c)\<rparr>"

definition on_epoch :: "ticket_value \<Rightarrow> ctx \<Rightarrow> ctx" where
  "on_epoch e c =
     (case cx_gate c of
        Outside \<Rightarrow> c\<lparr>cx_ticket := Some e\<rparr>
      | Unchecked \<Rightarrow> if cx_ticket c = Some e \<and> even (unat e) then c\<lparr>cx_gate := Checked\<rparr> else c
      | _ \<Rightarrow> c)"

definition on_bump :: "ctx \<Rightarrow> ctx" where
  "on_bump c = c\<lparr>cx_gate := (if cx_gate c = Unchecked then Replacement else Unchecked)\<rparr>"

definition on_look :: "vault_store \<Rightarrow> ctx \<Rightarrow> ctx" where
  "on_look st c = (if cx_gate c = Outside then c else c\<lparr>cx_known := Some st\<rparr>)"

definition may_see :: "ctx \<Rightarrow> vault_store \<Rightarrow> bool" where
  "may_see c st \<longleftrightarrow> cx_known c = None \<or> cx_known c = Some st"

lemmas ctx_steps = on_acquire_def on_release_def on_epoch_def on_bump_def on_look_def

section \<open>The system\<close>

record shared =
  sh_vault :: vault_state
  sh_epoch :: ticket_value
  sh_key :: string
  sh_allowed :: "string list"

inductive local_step :: "shared \<Rightarrow> ctx \<times> 'a prog \<Rightarrow> shared \<Rightarrow> ctx \<times> 'a prog \<Rightarrow> bool" where
  release: "local_step s (c, Release l p) s (on_release l c, p)"
| epoch: "local_step s (c, Epoch k) s (on_epoch (sh_epoch s) c, k (sh_epoch s))"
| bump: "local_step s (c, Bump p) (s\<lparr>sh_epoch := sh_epoch s + 1\<rparr>) (on_bump c, p)"
| look: "local_step s (c, Look k) s (on_look (fst (sh_vault s)) c, k io (sh_vault s))"
| refuse: "f (fst (sh_vault s)) = Inl e \<Longrightarrow>
     local_step s (c, Change f k) s (on_look (fst (sh_vault s)) c, k (fst (sh_vault s)) (Inl e))"
| change: "f (fst (sh_vault s)) = Inr ch \<Longrightarrow> apply_change io io2 ch (sh_vault s) = (r, v) \<Longrightarrow>
     local_step s (c, Change f k) (s\<lparr>sh_vault := v\<rparr>) (on_look (fst v) c, k (fst (sh_vault s)) r)"
| key: "local_step s (c, ReadKey k) s (c\<lparr>cx_key := Some (sh_key s)\<rparr>, k (sh_key s))"
| allowed: "local_step s (c, ReadAllowed k) s (c\<lparr>cx_allowed := Some (sh_allowed s)\<rparr>, k (sh_allowed s))"
| ask: "local_step s (c, Ask q k) s (c, k a)"
| noted: "local_step s (c, Note n p) s (c, p)"

inductive_cases local_DoneE: "local_step s (c, Done x) s' cp"
inductive_cases local_AcquireE: "local_step s (c, Acquire l m p) s' cp"

record ('k, 'a) app =
  ap_shared :: shared
  ap_waiting :: "(nat \<times> lock \<times> access) list"
  ap_tasks :: "('k \<times> ctx \<times> 'a prog) list"

definition held_by :: "('k, 'a) app \<Rightarrow> nat \<Rightarrow> lock \<Rightarrow> access option" where
  "held_by s i = cx_held (fst (snd (ap_tasks s ! i)))"

definition available :: "('k, 'a) app \<Rightarrow> lock \<Rightarrow> access \<Rightarrow> bool" where
  "available s l m \<longleftrightarrow>
     (\<forall>j<length (ap_tasks s). held_by s j l = None \<or> (held_by s j l = Some Shared \<and> m = Shared))"

inductive task_advances :: "nat \<Rightarrow> ('k, 'a) app \<Rightarrow> ('k, 'a) app \<Rightarrow> bool" for i where
  queue: "i < length (ap_tasks s) \<Longrightarrow> ap_tasks s ! i = (\<kappa>, c, Acquire l m p) \<Longrightarrow> i \<notin> fst ` set (ap_waiting s) \<Longrightarrow>
     task_advances i s (s\<lparr>ap_waiting := ap_waiting s @ [(i, l, m)]\<rparr>)"
| grant: "i < length (ap_tasks s) \<Longrightarrow> ap_tasks s ! i = (\<kappa>, c, Acquire l m p) \<Longrightarrow>
     ap_waiting s = us @ (i, l, m) # vs \<Longrightarrow> l \<notin> (fst \<circ> snd) ` set us \<Longrightarrow> available s l m \<Longrightarrow>
     task_advances i s (s\<lparr>ap_waiting := us @ vs, ap_tasks := (ap_tasks s)[i := (\<kappa>, on_acquire l m c, p)]\<rparr>)"
| run: "i < length (ap_tasks s) \<Longrightarrow> ap_tasks s ! i = (\<kappa>, c, p) \<Longrightarrow> local_step (ap_shared s) (c, p) sh (c', p') \<Longrightarrow>
     task_advances i s (s\<lparr>ap_shared := sh, ap_tasks := (ap_tasks s)[i := (\<kappa>, c', p')]\<rparr>)"

text \<open>New commands and requests arrive at any time; the key and the allowed sessions of the server are changed by
  whoever may change them.\<close>

inductive app_step :: "('k \<Rightarrow> 'a prog set) \<Rightarrow> ('k, 'a) app \<Rightarrow> ('k, 'a) app \<Rightarrow> bool" for P where
  of_task: "task_advances i s s' \<Longrightarrow> app_step P s s'"
| arrive: "p \<in> P \<kappa> \<Longrightarrow> app_step P s (s\<lparr>ap_tasks := ap_tasks s @ [(\<kappa>, cx_start, p)]\<rparr>)"
| access: "app_step P s (s\<lparr>ap_shared := (ap_shared s)\<lparr>sh_key := key, sh_allowed := ids\<rparr>\<rparr>)"

inductive app_reachable :: "('k \<Rightarrow> 'a prog set) \<Rightarrow> ('k, 'a) app \<Rightarrow> bool" for P where
  start: "app_reachable P \<lparr>ap_shared = \<lparr>sh_vault = v, sh_epoch = 0, sh_key = key, sh_allowed = ids\<rparr>,
     ap_waiting = [], ap_tasks = []\<rparr>"
| step: "app_reachable P s \<Longrightarrow> app_step P s s' \<Longrightarrow> app_reachable P s'"

definition unfinished :: "('k, 'a) app \<Rightarrow> nat \<Rightarrow> bool" where
  "unfinished s i \<longleftrightarrow> i < length (ap_tasks s) \<and> (\<forall>\<kappa> c x. ap_tasks s ! i \<noteq> (\<kappa>, c, Done x))"

section \<open>The discipline\<close>

fun lock_rank :: "lock \<Rightarrow> nat" where
  "lock_rank ApiOperation = 0"
| "lock_rank BackupOperation = 1"
| "lock_rank TunnelOperation = 2"
| "lock_rank ConnectionGate = 3"
| "lock_rank ApiHandle = 4"
| "lock_rank MutationGate = 5"

text \<open>Locks are taken in the order of their ranks. One exception: who holds the operation lock of the HTTP server may
  look at its handle from within a mutation; nobody else waits for anything while holding the handle.\<close>

definition may_wait :: "(lock \<Rightarrow> access option) \<Rightarrow> lock \<Rightarrow> bool" where
  "may_wait held l \<longleftrightarrow>
     held l = None \<and> (held ApiHandle \<noteq> None \<longrightarrow> held ApiOperation \<noteq> None)
     \<and> (\<forall>h. held h \<noteq> None \<longrightarrow>
          lock_rank h < lock_rank l \<or> (held ApiOperation \<noteq> None \<and> h = MutationGate \<and> l = ApiHandle))"

primrec obeys ::
  "'a prog \<Rightarrow> (ctx \<Rightarrow> vault_store \<Rightarrow> vault_change \<Rightarrow> bool) \<Rightarrow> (ctx \<Rightarrow> 'a \<Rightarrow> bool) \<Rightarrow> ctx \<Rightarrow> bool" where
  "obeys (Done x) pol fin c = fin c x"
| "obeys (Acquire l m p) pol fin c =
     (may_wait (cx_held c) l \<and> (m = Exclusive \<or> l = ConnectionGate) \<and> obeys p pol fin (on_acquire l m c))"
| "obeys (Release l p) pol fin c =
     (cx_held c l \<noteq> None \<and> (l = MutationGate \<longrightarrow> cx_gate c \<noteq> Replacement) \<and> obeys p pol fin (on_release l c))"
| "obeys (Epoch k) pol fin c = (\<forall>e. obeys (k e) pol fin (on_epoch e c))"
| "obeys (Bump p) pol fin c = (cx_gate c \<in> {Unchecked, Replacement} \<and> obeys p pol fin (on_bump c))"
| "obeys (Look k) pol fin c = (\<forall>io v. may_see c (fst v) \<longrightarrow> obeys (k io v) pol fin (on_look (fst v) c))"
| "obeys (Change f k) pol fin c =
     (cx_gate c \<in> {Checked, Replacement}
      \<and> (\<forall>st. may_see c st \<longrightarrow>
           (\<forall>ch. f st = Inr ch \<longrightarrow> pol c st ch) \<and> (\<forall>st' r. obeys (k st r) pol fin (on_look st' c))))"
| "obeys (ReadKey k) pol fin c = (\<forall>s. obeys (k s) pol fin (c\<lparr>cx_key := Some s\<rparr>))"
| "obeys (ReadAllowed k) pol fin c = (\<forall>ids. obeys (k ids) pol fin (c\<lparr>cx_allowed := Some ids\<rparr>))"
| "obeys (Ask q k) pol fin c = (\<forall>a. obeys (k a) pol fin c)"
| "obeys (Note n p) pol fin c = obeys p pol fin c"

lemma obeys_seq [simp]: "obeys (prog_seq p f) pol fin c \<longleftrightarrow> obeys p pol (\<lambda>c x. obeys (f x) pol fin c) c"
proof (induction p arbitrary: c)
  case (Look k)
  have "obeys (prog_seq (k io v) f) pol fin c' \<longleftrightarrow> obeys (k io v) pol (\<lambda>c x. obeys (f x) pol fin c) c'" for io v c'
    by (rule Look.IH [of "k io"]) simp_all
  then show ?case by simp
next
  case (Change g k)
  have "obeys (prog_seq (k st r) f) pol fin c' \<longleftrightarrow> obeys (k st r) pol (\<lambda>c x. obeys (f x) pol fin c) c'" for st r c'
    by (rule Change.IH [of "k st"]) simp_all
  then show ?case by simp
qed auto

lemma obeys_try [simp]:
  "obeys (prog_try p f) pol fin c \<longleftrightarrow>
     obeys p pol (\<lambda>c r. case r of Inl e \<Rightarrow> fin c (Inl e) | Inr x \<Rightarrow> obeys (f x) pol fin c) c"
  unfolding prog_try_def obeys_seq by (rule arg_cong [of _ _ "\<lambda>q. obeys p pol q c"]) (auto intro!: ext split: sum.split)

section \<open>One step\<close>

text \<open>What a task knows is true: it has the epoch it checked, and the vault is still as it saw it.\<close>

definition ctx_true :: "shared \<Rightarrow> ctx \<Rightarrow> bool" where
  "ctx_true s c \<longleftrightarrow>
     (cx_gate c = Outside \<longleftrightarrow> cx_held c MutationGate = None)
     \<and> (cx_gate c = Checked \<longrightarrow> cx_ticket c = Some (sh_epoch s) \<and> even (unat (sh_epoch s)))
     \<and> (\<forall>st. cx_known c = Some st \<longrightarrow> cx_gate c \<noteq> Outside \<and> st = fst (sh_vault s))
     \<and> (\<forall>l. l \<noteq> ConnectionGate \<longrightarrow> cx_held c l \<noteq> Some Shared)"

lemma ctx_true_start: "ctx_true s cx_start"
  by (simp add: ctx_true_def cx_start_def)

lemma ctx_true_outside: "ctx_true s c \<Longrightarrow> cx_gate c = Outside \<Longrightarrow> ctx_true s' c"
  by (auto simp: ctx_true_def)

lemma ctx_true_acquire:
  "ctx_true s c \<Longrightarrow> m = Exclusive \<or> l = ConnectionGate \<Longrightarrow> cx_held c l = None \<Longrightarrow> ctx_true s (on_acquire l m c)"
  by (auto simp: ctx_true_def on_acquire_def)

lemma ctx_true_epoch: "ctx_true s c \<Longrightarrow> ctx_true s (on_epoch (sh_epoch s) c)"
  by (auto simp: ctx_true_def on_epoch_def split: gate_mode.split)

lemma ctx_true_look: "ctx_true s c \<Longrightarrow> ctx_true s (on_look (fst (sh_vault s)) c)"
  by (auto simp: ctx_true_def on_look_def)

lemma ctx_true_sees: "ctx_true s c \<Longrightarrow> may_see c (fst (sh_vault s))"
  by (cases "cx_known c") (auto simp: ctx_true_def may_see_def)

lemma local_step_keeps:
  assumes "local_step s (c, p) s' (c', p')" "obeys p pol fin c" "ctx_true s c"
  shows "obeys p' pol fin c' \<and> ctx_true s' c'
    \<and> (\<forall>l. cx_held c' l \<noteq> None \<longrightarrow> cx_held c' l = cx_held c l)
    \<and> (cx_gate c = Outside \<longrightarrow> s' = s \<and> cx_gate c' = Outside)"
  using assms(1)
proof (cases rule: local_step.cases)
  case (release l)
  with assms(2,3) show ?thesis by (auto simp: ctx_true_def on_release_def)
next
  case (epoch k)
  with assms(2,3) have "ctx_true s' c'" "obeys p' pol fin c'" by (auto intro: ctx_true_epoch)
  with epoch show ?thesis by (auto simp: on_epoch_def split: gate_mode.split)
next
  case bump
  with assms(2,3) show ?thesis by (auto simp: ctx_true_def on_bump_def)
next
  case (look k io)
  with assms(2) ctx_true_sees [OF assms(3)] have "obeys p' pol fin c'"
    by (simp del: split_paired_All)
  with look show ?thesis using ctx_true_look [OF assms(3)] by (auto simp: on_look_def split: if_splits)
next
  case (refuse f e k)
  with assms(2) ctx_true_sees [OF assms(3)] have "obeys p' pol fin c'" by simp
  with refuse show ?thesis using ctx_true_look [OF assms(3)] by (auto simp: on_look_def split: if_splits)
next
  case (change f ch io io2 r v k)
  then have "cx_gate c \<noteq> Outside" "obeys p' pol fin c'"
    using assms(2) ctx_true_sees [OF assms(3)] by auto
  then show ?thesis
    using change assms(3) by (auto simp: ctx_true_def on_look_def)
qed (use assms(2,3) in \<open>auto simp: ctx_true_def\<close>)

section \<open>All tasks\<close>

locale task_system =
  fixes policy :: "'k \<Rightarrow> ctx \<Rightarrow> vault_store \<Rightarrow> vault_change \<Rightarrow> bool"
    and outcome :: "'k \<Rightarrow> ctx \<Rightarrow> 'a \<Rightarrow> bool"
    and programs :: "'k \<Rightarrow> 'a prog set"
  assumes obeying:
    "p \<in> programs \<kappa> \<Longrightarrow> obeys p (policy \<kappa>) (\<lambda>c x. cx_held c = (\<lambda>_. None) \<and> outcome \<kappa> c x) cx_start"
begin

definition task_ok :: "shared \<Rightarrow> 'k \<times> ctx \<times> 'a prog \<Rightarrow> bool" where
  "task_ok sh t \<longleftrightarrow>
     (case t of (\<kappa>, c, p) \<Rightarrow>
        obeys p (policy \<kappa>) (\<lambda>c x. cx_held c = (\<lambda>_. None) \<and> outcome \<kappa> c x) c \<and> ctx_true sh c)"

definition exclusive_inv :: "('k, 'a) app \<Rightarrow> bool" where
  "exclusive_inv s \<longleftrightarrow>
     (\<forall>i<length (ap_tasks s). \<forall>j<length (ap_tasks s). \<forall>l. i \<noteq> j \<longrightarrow> held_by s i l \<noteq> None \<longrightarrow> held_by s j l \<noteq> None \<longrightarrow>
        held_by s i l = Some Shared \<and> held_by s j l = Some Shared)"

definition waiting_inv :: "('k, 'a) app \<Rightarrow> bool" where
  "waiting_inv s \<longleftrightarrow>
     distinct (map fst (ap_waiting s))
     \<and> (\<forall>(i, l, m)\<in>set (ap_waiting s).
          i < length (ap_tasks s) \<and> (\<exists>\<kappa> c p. ap_tasks s ! i = (\<kappa>, c, Acquire l m p)))"

definition app_inv :: "('k, 'a) app \<Rightarrow> bool" where
  "app_inv s \<longleftrightarrow> list_all (task_ok (ap_shared s)) (ap_tasks s) \<and> exclusive_inv s \<and> waiting_inv s"

lemma task_okD:
  assumes "app_inv s" "i < length (ap_tasks s)" "ap_tasks s ! i = (\<kappa>, c, p)"
  shows "obeys p (policy \<kappa>) (\<lambda>c x. cx_held c = (\<lambda>_. None) \<and> outcome \<kappa> c x) c" "ctx_true (ap_shared s) c"
  using assms by (auto simp: app_inv_def task_ok_def list_all_length)

lemma exclusiveD:
  assumes "exclusive_inv s" "i < length (ap_tasks s)" "j < length (ap_tasks s)" "i \<noteq> j"
    "held_by s i l \<noteq> None" "held_by s j l \<noteq> None"
  shows "held_by s i l = Some Shared \<and> held_by s j l = Some Shared"
  using assms unfolding exclusive_inv_def by blast

lemma exclusive_same: "ap_tasks s' = ap_tasks s \<Longrightarrow> exclusive_inv s' \<longleftrightarrow> exclusive_inv s"
  by (simp add: exclusive_inv_def held_by_def)

lemma waitingD:
  assumes "app_inv s" "(i, l, m) \<in> set (ap_waiting s)"
  shows "i < length (ap_tasks s)" "\<exists>\<kappa> c p. ap_tasks s ! i = (\<kappa>, c, Acquire l m p)"
  using assms bspec [of "set (ap_waiting s)" _ "(i, l, m)"] by (auto simp: app_inv_def waiting_inv_def)

text \<open>Only one task is inside the mutation gate.\<close>

lemma gate_alone:
  assumes "app_inv s" "i < length (ap_tasks s)" "j < length (ap_tasks s)" "i \<noteq> j"
    and "ap_tasks s ! i = (\<kappa>, c, p)" "ap_tasks s ! j = (\<kappa>', c', p')" "cx_gate c \<noteq> Outside"
  shows "cx_gate c' = Outside"
proof (rule ccontr)
  assume "cx_gate c' \<noteq> Outside"
  moreover have "ctx_true (ap_shared s) c" "ctx_true (ap_shared s) c'"
    using task_okD(2) [OF assms(1,2,5)] task_okD(2) [OF assms(1,3,6)] .
  ultimately have "held_by s i MutationGate \<noteq> None" "held_by s i MutationGate \<noteq> Some Shared"
    "held_by s j MutationGate \<noteq> None"
    using assms(5-7) by (auto simp: held_by_def ctx_true_def)
  then show False
    using assms(1-4) by (auto simp: app_inv_def exclusive_inv_def)
qed

lemma inv_queue:
  assumes "app_inv s" "i < length (ap_tasks s)" "ap_tasks s ! i = (\<kappa>, c, Acquire l m p)" "i \<notin> fst ` set (ap_waiting s)"
  shows "app_inv (s\<lparr>ap_waiting := ap_waiting s @ [(i, l, m)]\<rparr>)" (is "app_inv ?s")
proof -
  have "exclusive_inv ?s = exclusive_inv s" by (rule exclusive_same) simp
  moreover have "waiting_inv ?s" using assms by (auto simp: app_inv_def waiting_inv_def)
  ultimately show ?thesis using assms(1) by (simp add: app_inv_def)
qed

lemma exclusive_update:
  assumes "exclusive_inv s" "i < length (ap_tasks s)" "ap_tasks s ! i = (\<kappa>, c, p)"
    and "\<And>l. cx_held c' l \<noteq> None \<Longrightarrow> cx_held c' l = cx_held c l \<or> available s l (the (cx_held c' l))"
    and "ap_tasks s' = (ap_tasks s)[i := (\<kappa>, c', p')]"
  shows "exclusive_inv s'"
  unfolding exclusive_inv_def
proof (intro allI impI)
  fix j k l
  assume jk: "j < length (ap_tasks s')" "k < length (ap_tasks s')" "j \<noteq> k" "held_by s' j l \<noteq> None" "held_by s' k l \<noteq> None"
  have other: "held_by s' x = held_by s x" if "x \<noteq> i" for x
    using that by (simp add: held_by_def assms(5))
  have self: "held_by s' i = cx_held c'" "held_by s i = cx_held c"
    using assms(2,3) by (simp_all add: held_by_def assms(5))
  have pair: "held_by s' x l = Some Shared \<and> cx_held c' l = Some Shared"
    if "x < length (ap_tasks s)" "x \<noteq> i" "held_by s' x l \<noteq> None" "cx_held c' l \<noteq> None" for x
    using assms(4) [OF that(4)] assms(1,2) that other [OF that(2)] self
    unfolding exclusive_inv_def available_def by (metis option.collapse)
  have len: "length (ap_tasks s') = length (ap_tasks s)" by (simp add: assms(5))
  show "held_by s' j l = Some Shared \<and> held_by s' k l = Some Shared"
  proof (cases "j = i \<or> k = i")
    case True
    then show ?thesis using pair jk self len by metis
  next
    case False
    then show ?thesis using assms(1) jk other len unfolding exclusive_inv_def by metis
  qed
qed

lemma inv_grant:
  assumes "app_inv s" "i < length (ap_tasks s)" "ap_tasks s ! i = (\<kappa>, c, Acquire l m p)"
    "ap_waiting s = us @ (i, l, m) # vs" "available s l m"
  shows "app_inv (s\<lparr>ap_waiting := us @ vs, ap_tasks := (ap_tasks s)[i := (\<kappa>, on_acquire l m c, p)]\<rparr>)" (is "app_inv ?s")
proof -
  from task_okD [OF assms(1-3)]
  have ok: "may_wait (cx_held c) l" "m = Exclusive \<or> l = ConnectionGate"
    "obeys p (policy \<kappa>) (\<lambda>c x. cx_held c = (\<lambda>_. None) \<and> outcome \<kappa> c x) (on_acquire l m c)" "ctx_true (ap_shared s) c"
    by auto
  then have "task_ok (ap_shared s) (\<kappa>, on_acquire l m c, p)"
    by (auto simp: task_ok_def may_wait_def intro: ctx_true_acquire)
  then have "list_all (task_ok (ap_shared ?s)) (ap_tasks ?s)"
    using assms(1,2) by (auto simp: app_inv_def list_all_length nth_list_update)
  moreover have "exclusive_inv ?s"
    by (rule exclusive_update [where s = s and i = i])
       (use assms in \<open>auto simp: app_inv_def on_acquire_def split: if_splits\<close>)
  moreover have "waiting_inv ?s"
    unfolding waiting_inv_def
  proof (safe)
    have d: "distinct (map fst (us @ (i, l, m) # vs))" using assms(1,4) by (simp add: app_inv_def waiting_inv_def)
    then show "distinct (map fst (ap_waiting ?s))" by simp
    fix j l' m' assume j: "(j, l', m') \<in> set (ap_waiting ?s)"
    then have "(j, l', m') \<in> set (ap_waiting s)" using assms(4) by auto
    note w = waitingD [OF assms(1) this]
    have "j \<in> fst ` set (us @ vs)" using j by (force simp: image_iff)
    then have "j \<noteq> i" using d by auto
    with w show "j < length (ap_tasks ?s)" "\<exists>\<kappa> c p. ap_tasks ?s ! j = (\<kappa>, c, Acquire l' m' p)" by simp_all
  qed
  ultimately show ?thesis by (simp add: app_inv_def)
qed

lemma inv_run:
  assumes "app_inv s" "i < length (ap_tasks s)" "ap_tasks s ! i = (\<kappa>, c, p)" "local_step (ap_shared s) (c, p) sh (c', p')"
  shows "app_inv (s\<lparr>ap_shared := sh, ap_tasks := (ap_tasks s)[i := (\<kappa>, c', p')]\<rparr>)" (is "app_inv ?s")
proof -
  note keep = local_step_keeps [OF assms(4) task_okD [OF assms(1-3)]]
  have "task_ok sh (ap_tasks ?s ! j)" if "j < length (ap_tasks s)" for j
  proof (cases "j = i")
    case True
    then show ?thesis using keep assms(2) by (simp add: task_ok_def)
  next
    case False
    obtain \<kappa>' c2 p2 where j: "ap_tasks s ! j = (\<kappa>', c2, p2)" by (metis prod.exhaust)
    note ok = task_okD [OF assms(1) that j]
    have "ctx_true sh c2"
    proof (cases "cx_gate c = Outside")
      case True
      then show ?thesis using keep ok by simp
    next
      case g: False
      from gate_alone [OF assms(1,2) that False [symmetric] assms(3) j g] ok(2) show ?thesis
        by (rule ctx_true_outside [rotated])
    qed
    then show ?thesis using ok(1) False j by (simp add: task_ok_def)
  qed
  then have "list_all (task_ok (ap_shared ?s)) (ap_tasks ?s)" by (simp add: list_all_length)
  moreover have "exclusive_inv ?s"
    by (rule exclusive_update [where s = s and i = i]) (use assms(1-3) keep in \<open>auto simp: app_inv_def\<close>)
  moreover have "waiting_inv ?s"
    unfolding waiting_inv_def
  proof (safe)
    show "distinct (map fst (ap_waiting ?s))" using assms(1) by (simp add: app_inv_def waiting_inv_def)
    fix j l m assume "(j, l, m) \<in> set (ap_waiting ?s)"
    then have w: "j < length (ap_tasks s)" "\<exists>\<kappa> c p. ap_tasks s ! j = (\<kappa>, c, Acquire l m p)"
      using waitingD [OF assms(1), of j l m] by simp_all
    moreover have "j \<noteq> i" using w(2) assms(3,4) by (auto elim: local_AcquireE)
    ultimately show "j < length (ap_tasks ?s)" "\<exists>\<kappa> c p. ap_tasks ?s ! j = (\<kappa>, c, Acquire l m p)" by simp_all
  qed
  ultimately show ?thesis by (simp add: app_inv_def)
qed

lemma inv_arrive:
  assumes "app_inv s" "p \<in> programs \<kappa>"
  shows "app_inv (s\<lparr>ap_tasks := ap_tasks s @ [(\<kappa>, cx_start, p)]\<rparr>)" (is "app_inv ?s")
proof -
  have new: "held_by ?s (length (ap_tasks s)) l = None" for l
    by (simp add: held_by_def cx_start_def)
  have old: "held_by ?s i = held_by s i" if "i < length (ap_tasks s)" for i
    using that by (simp add: held_by_def nth_append)
  have "exclusive_inv ?s"
    unfolding exclusive_inv_def
  proof (intro allI impI)
    fix i j l
    assume ij: "i < length (ap_tasks ?s)" "j < length (ap_tasks ?s)" "i \<noteq> j" "held_by ?s i l \<noteq> None" "held_by ?s j l \<noteq> None"
    then have lt: "i < length (ap_tasks s)" "j < length (ap_tasks s)" using new [of l] by (auto simp: less_Suc_eq)
    have "exclusive_inv s" using assms(1) by (simp add: app_inv_def)
    from exclusiveD [OF this lt ij(3)] ij(4,5)
    show "held_by ?s i l = Some Shared \<and> held_by ?s j l = Some Shared"
      unfolding old [OF lt(1)] old [OF lt(2)] by blast
  qed
  moreover have "waiting_inv ?s"
    unfolding waiting_inv_def
  proof (safe)
    show "distinct (map fst (ap_waiting ?s))" using assms(1) by (simp add: app_inv_def waiting_inv_def)
    fix j l m assume "(j, l, m) \<in> set (ap_waiting ?s)"
    then have "(j, l, m) \<in> set (ap_waiting s)" by simp
    note w = waitingD [OF assms(1) this]
    then show "j < length (ap_tasks ?s)" "\<exists>\<kappa> c p. ap_tasks ?s ! j = (\<kappa>, c, Acquire l m p)"
      by (simp_all add: nth_append)
  qed
  ultimately show ?thesis
    using assms(1) obeying [OF assms(2)] by (simp add: app_inv_def task_ok_def ctx_true_start)
qed

lemma inv_access:
  assumes "app_inv s"
  shows "app_inv (s\<lparr>ap_shared := (ap_shared s)\<lparr>sh_key := key, sh_allowed := ids\<rparr>\<rparr>)" (is "app_inv ?s")
proof -
  have "task_ok (ap_shared ?s) = task_ok (ap_shared s)"
    by (auto simp: task_ok_def ctx_true_def fun_eq_iff)
  moreover have "exclusive_inv ?s = exclusive_inv s" by (rule exclusive_same) simp
  ultimately show ?thesis using assms by (simp add: app_inv_def waiting_inv_def)
qed

lemma inv_task: "task_advances i s s' \<Longrightarrow> app_inv s \<Longrightarrow> app_inv s'"
  by (erule task_advances.cases) (simp_all add: inv_queue inv_grant inv_run)

lemma inv_step: "app_inv s \<Longrightarrow> app_step programs s s' \<Longrightarrow> app_inv s'"
  by (erule app_step.cases) (simp_all add: inv_task inv_arrive inv_access)

lemma reachable_inv: "app_reachable programs s \<Longrightarrow> app_inv s"
proof (induction rule: app_reachable.induct)
  case (start v key ids)
  show ?case by (simp add: app_inv_def exclusive_inv_def waiting_inv_def)
qed (rule inv_step)

section \<open>No deadlock\<close>

lemma local_progress:
  assumes "\<And>x. p \<noteq> Done x" "\<And>l m q. p \<noteq> Acquire l m q"
  shows "\<exists>sh' c' p'. local_step sh (c, p) sh' (c', p')"
proof (cases p)
  case (Change f k)
  show ?thesis
  proof (cases "f (fst (sh_vault sh))")
    case (Inl e)
    then show ?thesis using Change by (auto intro: local_step.refuse)
  next
    case (Inr ch)
    obtain r v where "apply_change undefined undefined ch (sh_vault sh) = (r, v)"
      by (cases "apply_change undefined undefined ch (sh_vault sh)")
    then show ?thesis using Change Inr by (auto intro: local_step.change)
  qed
qed (use assms in \<open>auto intro: local_step.intros\<close>)

text \<open>When no task can move, every unfinished one waits, and what it waits for is held by another unfinished one.\<close>

lemma stuck_waits:
  assumes "app_inv s" "\<And>i s'. \<not> task_advances i s s'" "unfinished s i"
  shows "\<exists>l m. (i, l, m) \<in> set (ap_waiting s)"
proof -
  obtain \<kappa> c p where t: "i < length (ap_tasks s)" "ap_tasks s ! i = (\<kappa>, c, p)" "\<And>x. p \<noteq> Done x"
    using assms(3) by (metis prod.exhaust unfinished_def)
  have "\<exists>l m q. p = Acquire l m q"
    using local_progress [of p "ap_shared s" c] task_advances.run [OF t(1,2)] t(3) assms(2) by blast
  then obtain l m q where p: "p = Acquire l m q" by blast
  have "i \<in> fst ` set (ap_waiting s)"
    using task_advances.queue [OF t(1)] t(2) p assms(2) by blast
  then show ?thesis by force
qed

lemma stuck_held:
  assumes "app_inv s" "\<And>i s'. \<not> task_advances i s s'" "(i, l, m) \<in> set (ap_waiting s)"
  shows "\<exists>j l' m'. held_by s j l \<noteq> None \<and> (j, l', m') \<in> set (ap_waiting s) \<and> may_wait (held_by s j) l'"
proof -
  have "\<exists>x\<in>set (ap_waiting s). (fst \<circ> snd) x = l" using assms(3) by force
  from split_list_first_prop [OF this] obtain us x vs where
    w0: "ap_waiting s = us @ x # vs" "(fst \<circ> snd) x = l" "\<forall>y\<in>set us. (fst \<circ> snd) y \<noteq> l" by blast
  obtain i' m' where x: "x = (i', l, m')" using w0(2) by (cases x) auto
  note w = w0 [unfolded x]
  have in_w: "(i', l, m') \<in> set (ap_waiting s)" by (simp add: w(1))
  from waitingD [OF assms(1) this] obtain \<kappa> c p where
    t: "i' < length (ap_tasks s)" "ap_tasks s ! i' = (\<kappa>, c, Acquire l m' p)" by blast
  have "l \<notin> (fst \<circ> snd) ` set us" using w(3) by auto
  then have "\<not> available s l m'"
    using task_advances.grant [OF t w(1)] assms(2) by blast
  then obtain j where j: "j < length (ap_tasks s)" "held_by s j l \<noteq> None"
    by (auto simp: available_def)
  obtain \<kappa>' c' p' where tj: "ap_tasks s ! j = (\<kappa>', c', p')" by (metis prod.exhaust)
  note ok = task_okD [OF assms(1) j(1) tj]
  have h: "held_by s j = cx_held c'" by (simp add: held_by_def tj)
  have "unfinished s j"
    using ok(1) j h tj by (auto simp: unfinished_def)
  from stuck_waits [OF assms(1,2) this] obtain l' m'' where wj: "(j, l', m'') \<in> set (ap_waiting s)" by blast
  from waitingD(2) [OF assms(1) this] tj ok(1) have "may_wait (held_by s j) l'" by (auto simp: h)
  with j wj show ?thesis by blast
qed

lemma never_deadlocked:
  assumes "app_inv s" "unfinished s i"
  shows "\<exists>j s'. task_advances j s s'"
proof (rule ccontr)
  assume "\<nexists>j s'. task_advances j s s'"
  then have stuck: "\<not> task_advances i s s'" for i s' by blast
  define W where "W = (fst \<circ> snd) ` set (ap_waiting s)"
  have "W \<noteq> {}" using stuck_waits [OF assms(1) stuck assms(2)] by (auto simp: W_def)
  moreover have "finite W" by (simp add: W_def)
  ultimately have "Max (lock_rank ` W) \<in> lock_rank ` W" and max: "\<And>k. k \<in> W \<Longrightarrow> lock_rank k \<le> Max (lock_rank ` W)"
    by simp_all
  then obtain l where l: "l \<in> W" "\<And>k. k \<in> W \<Longrightarrow> lock_rank k \<le> lock_rank l" by auto
  obtain i0 m0 where "(i0, l, m0) \<in> set (ap_waiting s)" using l(1) by (auto simp: W_def)
  from stuck_held [OF assms(1) stuck this]
  obtain j l' m' where j: "held_by s j l \<noteq> None" "(j, l', m') \<in> set (ap_waiting s)" "may_wait (held_by s j) l'"
    by blast
  have "l' \<in> W" using j(2) by (force simp: W_def)
  then have "\<not> lock_rank l < lock_rank l'" using l(2) by (simp add: not_less)
  with j(1,3) have e: "held_by s j ApiOperation \<noteq> None" "l' = ApiHandle"
    by (auto simp: may_wait_def)
  obtain k l'' m'' where k: "held_by s k ApiHandle \<noteq> None" "(k, l'', m'') \<in> set (ap_waiting s)" "may_wait (held_by s k) l''"
    using stuck_held [OF assms(1) stuck j(2)] e(2) by blast
  have "held_by s k ApiOperation \<noteq> None" using k(1,3) by (auto simp: may_wait_def)
  moreover have "k \<noteq> j" using k(1) j(3) e(2) by (auto simp: may_wait_def)
  moreover have "k < length (ap_tasks s)" "j < length (ap_tasks s)"
    using waitingD(1) [OF assms(1)] j(2) k(2) by blast+
  ultimately have "held_by s j ApiOperation = Some Shared"
    using exclusiveD [of s j k ApiOperation] assms(1) e(1) by (auto simp: app_inv_def)
  moreover obtain \<kappa> c p where "ap_tasks s ! j = (\<kappa>, c, p)" by (metis prod.exhaust)
  ultimately show False
    using task_okD(2) [OF assms(1) \<open>j < length (ap_tasks s)\<close>] by (auto simp: ctx_true_def held_by_def)
qed

text \<open>A change happens inside the gate, alone, under a policy, and on the configuration its task has seen.\<close>

lemma change_guarded:
  assumes "app_inv s" "i < length (ap_tasks s)" "ap_tasks s ! i = (\<kappa>, c, Change f k)"
  shows "cx_gate c = Replacement \<or> (cx_ticket c = Some (sh_epoch (ap_shared s)) \<and> even (unat (sh_epoch (ap_shared s))))"
    and "\<And>j \<kappa>' c' p'. j < length (ap_tasks s) \<Longrightarrow> j \<noteq> i \<Longrightarrow> ap_tasks s ! j = (\<kappa>', c', p') \<Longrightarrow>
        cx_gate c' = Outside \<and> cx_held c' MutationGate = None"
    and "f (fst (sh_vault (ap_shared s))) = Inr ch \<Longrightarrow> policy \<kappa> c (fst (sh_vault (ap_shared s))) ch"
proof -
  note ok = task_okD [OF assms]
  then show "cx_gate c = Replacement \<or> (cx_ticket c = Some (sh_epoch (ap_shared s)) \<and> even (unat (sh_epoch (ap_shared s))))"
    by (auto simp: ctx_true_def)
  show "cx_gate c' = Outside \<and> cx_held c' MutationGate = None"
    if "j < length (ap_tasks s)" "j \<noteq> i" "ap_tasks s ! j = (\<kappa>', c', p')" for j \<kappa>' c' p'
    using gate_alone [OF assms(1,2) that(1) that(2) [symmetric] assms(3) that(3)] ok(1) task_okD(2) [OF assms(1) that(1,3)]
    by (auto simp: ctx_true_def)
  show "f (fst (sh_vault (ap_shared s))) = Inr ch \<Longrightarrow> policy \<kappa> c (fst (sh_vault (ap_shared s))) ch"
    using ok ctx_true_sees [OF ok(2)] by auto
qed

lemma outcome_holds:
  assumes "app_inv s" "i < length (ap_tasks s)" "ap_tasks s ! i = (\<kappa>, c, Done x)"
  shows "outcome \<kappa> c x"
  using task_okD(1) [OF assms] by simp

end

end
