(* ===== verification/App_Commands.thy ===== *)
theory App_Commands
  imports App_Tasks
begin

text \<open>
  The commands of the interface (\<open>commands/sessions.rs\<close>, \<open>commands/vault.rs\<close>, \<open>commands/tunnels.rs\<close>,
  \<open>commands/backup.rs\<close>, \<open>commands/remote.rs\<close>,
  \<open>commands/api\_server\_cmd.rs\<close>, \<open>commands/mod.rs\<close>) as programs: which locks they take in
  which order, what they read and change under them, what they call.
\<close>

section \<open>Blocks\<close>

definition change_store :: "vault_change \<Rightarrow> config_snapshot app_result prog" where
  "change_store ch = Change (\<lambda>_. Inr ch) (\<lambda>_ r. Done (map_sum id fst r))"

definition read_store :: "(vault_store \<Rightarrow> 'a app_result) \<Rightarrow> 'a app_result prog" where
  "read_store f = Look (\<lambda>_ v. Done (f (fst v)))"

definition ask_result :: "runtime_call \<Rightarrow> unit app_result prog" where
  "ask_result q = Ask q (\<lambda>a. Done (an_result a))"

definition ask_unit :: "runtime_call \<Rightarrow> unit prog" where
  "ask_unit q = Ask q (\<lambda>_. Done ())"

text \<open>The commands that only change the vault.\<close>

definition config_command :: "vault_change \<Rightarrow> config_snapshot app_result prog" where
  "config_command ch = Epoch (\<lambda>ticket. mutation_guarded ticket (change_store ch))"

definition ask_all :: "('a \<Rightarrow> runtime_call) \<Rightarrow> 'a list \<Rightarrow> unit prog" where
  "ask_all q xs = foldr (\<lambda>x p. prog_seq (ask_unit (q x)) (\<lambda>_. p)) xs (Done ())"

section \<open>The HTTP server beside the configuration\<close>

definition MAX_ALLOWED_API_SESSIONS :: nat where "MAX_ALLOWED_API_SESSIONS = 20"

fun normalize_ids :: "string list \<Rightarrow> string list \<Rightarrow> string list" where
  "normalize_ids ids [] = ids"
| "normalize_ids ids (x # xs) =
     (if trim x = [] \<or> trim x \<in> set ids then normalize_ids ids xs
      else if length (ids @ [trim x]) \<ge> MAX_ALLOWED_API_SESSIONS then ids @ [trim x]
      else normalize_ids (ids @ [trim x]) xs)"

definition normalize_allowed_session_ids :: "string list option \<Rightarrow> string option \<Rightarrow> string list" where
  "normalize_allowed_session_ids many one =
     normalize_ids [] ((case many of None \<Rightarrow> [] | Some xs \<Rightarrow> xs) @ (case one of None \<Rightarrow> [] | Some x \<Rightarrow> [x]))"

definition session_display :: "session_config \<Rightarrow> string" where
  "session_display s = sc_name s @ '' ('' @ sc_host s @ '')''"

definition allowed_session_names_for_ids :: "string list \<Rightarrow> vault_store \<Rightarrow> (string \<times> string) list app_result" where
  "allowed_session_names_for_ids ids st =
     and_then (vault_snapshot st) (\<lambda>snapshot.
       Inr (List.map_filter (\<lambda>sid. map_option (\<lambda>s. (sid, session_display s))
              (List.find (\<lambda>s. sc_id s = sid) (vd_sessions (cs_data snapshot)))) ids))"

definition configured_allowed_sessions :: "config_snapshot \<Rightarrow> string list \<times> (string \<times> string) list" where
  "configured_allowed_sessions snapshot =
     (let sessions = vd_sessions (cs_data snapshot); settings = vd_settings (cs_data snapshot);
          names = List.map_filter (\<lambda>sid. map_option (\<lambda>s. (sid, session_display s))
                    (List.find (\<lambda>s. sc_id s = sid) (rev sessions)))
                    (normalize_allowed_session_ids (Some (as_ai_api_session_ids settings)) (as_ai_api_session_id settings))
      in (map fst names, names))"

definition sync_api_server_authorization_cache :: "config_snapshot \<Rightarrow> unit prog" where
  "sync_api_server_authorization_cache snapshot =
     (case configured_allowed_sessions snapshot of
        (ids, names) \<Rightarrow>
          with_lock ApiHandle Exclusive (Ask CallHandle (\<lambda>a.
            case an_handle a of None \<Rightarrow> Done () | Some _ \<Rightarrow> ask_unit (CallReplaceAllowed ids names))))"

record api_info =
  ai_running :: bool
  ai_port :: "16 word"
  ai_api_key :: string

definition stopped_api_server_info :: api_info where
  "stopped_api_server_info = \<lparr>ai_running = False, ai_port = 0, ai_api_key = []\<rparr>"

definition running_info :: "api_handle \<Rightarrow> api_info" where
  "running_info h = \<lparr>ai_running = True, ai_port = ah_port h, ai_api_key = ah_key h\<rparr>"

definition emit_api_status :: "api_info \<Rightarrow> 'a prog \<Rightarrow> 'a prog" where
  "emit_api_status info p = Note (ApiStatus (ai_running info) (ai_port info) (ai_api_key info)) p"

definition stop_handle :: "api_handle option \<Rightarrow> unit prog" where
  "stop_handle h = (case h of None \<Rightarrow> Done () | Some x \<Rightarrow> ask_unit (CallStopHandle x))"

text \<open>\<open>state.api\_server.lock().await.take()\<close>: the lock is given back at the end of the statement.\<close>

definition take_handle :: "api_handle option prog" where
  "take_handle = with_lock ApiHandle Exclusive (Ask CallTakeHandle (\<lambda>a. Done (an_handle a)))"

definition stop_api_server_after_reconcile_failure :: "api_info prog" where
  "stop_api_server_after_reconcile_failure =
     prog_seq take_handle (\<lambda>h. prog_seq (stop_handle h) (\<lambda>_.
       emit_api_status stopped_api_server_info (Done stopped_api_server_info)))"

text \<open>The handle is locked; a server that has ended is removed first, with the lock given back while it is stopped.\<close>

definition with_live_handle :: "(api_handle option \<Rightarrow> 'a prog) \<Rightarrow> 'a prog" where
  "with_live_handle f =
     Acquire ApiHandle Exclusive (Ask CallHandle (\<lambda>a.
       case an_handle a of
         Some h \<Rightarrow>
           if ah_finished h
           then Ask CallTakeHandle (\<lambda>_. Release ApiHandle (prog_seq (stop_handle (Some h)) (\<lambda>_.
                  Acquire ApiHandle Exclusive (Ask CallHandle (\<lambda>b. f (an_handle b))))))
           else f (Some h)
       | None \<Rightarrow> f None))"

definition reconcile_api_server_with_snapshot_inner :: "config_snapshot \<Rightarrow> api_info prog" where
  "reconcile_api_server_with_snapshot_inner snapshot =
     (case configured_allowed_sessions snapshot of
        (ids, names) \<Rightarrow>
          with_live_handle (\<lambda>h.
            if ids = []
            then Ask CallTakeHandle (\<lambda>a. Release ApiHandle (prog_seq (stop_handle (an_handle a)) (\<lambda>_.
                   Done stopped_api_server_info)))
            else case h of
              Some handle \<Rightarrow>
                prog_seq (ask_unit (CallUpdateAllowed ids names)) (\<lambda>_.
                  Release ApiHandle (Done (running_info handle)))
            | None \<Rightarrow>
                Release ApiHandle (Done
                  (let settings = vd_settings (cs_data snapshot) in
                   \<lparr>ai_running = False, ai_port = unwrap_or (as_ai_api_port settings) 0,
                    ai_api_key = unwrap_or (as_ai_api_key settings) []\<rparr>))))"

definition reconcile_api_server_with_snapshot :: "api_info prog" where
  "reconcile_api_server_with_snapshot =
     with_lock ApiOperation Exclusive
       (prog_seq (read_store vault_snapshot) (\<lambda>r.
          case r of
            Inl _ \<Rightarrow> stop_api_server_after_reconcile_failure
          | Inr snapshot \<Rightarrow>
              prog_seq (reconcile_api_server_with_snapshot_inner snapshot) (\<lambda>info. emit_api_status info (Done info))))"

definition start_with_key ::
  "16 word \<Rightarrow> string list \<Rightarrow> (string \<times> string) list \<Rightarrow> string \<Rightarrow> api_info app_result prog" where
  "start_with_key port ids names key =
     Ask (CallStartServer port key ids names) (\<lambda>a.
       case an_started a of
         Inl e \<Rightarrow> Release ApiHandle (Done (Inl e))
       | Inr h \<Rightarrow>
           prog_seq (ask_unit (CallPutHandle h)) (\<lambda>_.
             emit_api_status (running_info h) (Release ApiHandle (Done (Inr (running_info h))))))"

text \<open>The key of the server; it is made and stored when there is none. Its second part is the snapshot to announce.\<close>

definition stored_key :: "vault_store \<Rightarrow> string option app_result" where
  "stored_key st =
     and_then (vault_snapshot st) (\<lambda>snapshot.
       Inr (case as_ai_api_key (vd_settings (cs_data snapshot)) of
              Some key \<Rightarrow> if key = [] then None else Some key | None \<Rightarrow> None))"

definition make_key :: "(string \<times> config_snapshot option) app_result prog" where
  "make_key =
     Epoch (\<lambda>ticket. mutation_guarded ticket
       (Ask CallGenerateKey (\<lambda>a.
        Change (\<lambda>st. case stored_key st of
                       Inl e \<Rightarrow> Inl e
                     | Inr (Some key) \<Rightarrow> Inl (NotFound ''key present'')
                     | Inr None \<Rightarrow> Inr (ChAiKey (Some (an_text a))))
          (\<lambda>st r. case stored_key st of
                    Inl e \<Rightarrow> Done (Inl e)
                  | Inr (Some key) \<Rightarrow> Done (Inr (key, None))
                  | Inr None \<Rightarrow> Done (map_sum id (\<lambda>(snap, _). (an_text a, Some snap)) r)))))"

definition announce :: "config_snapshot option \<Rightarrow> 'a prog \<Rightarrow> 'a prog" where
  "announce snap p = (case snap of None \<Rightarrow> p | Some s \<Rightarrow> Note (ConfigChanged s) p)"

definition shutting_down :: app_error where
  "shutting_down = InvalidInput ''the application is shutting down''"

definition no_allowed_session :: app_error where
  "no_allowed_session = InvalidInput ''the AI API needs an allowed session''"

definition start_api_server_inner :: "16 word \<Rightarrow> string list \<Rightarrow> api_info app_result prog" where
  "start_api_server_inner port ids =
     Ask CallShuttingDown (\<lambda>q.
       if an_flag q then Done (Inl shutting_down)
       else
         prog_try (read_store ensure_unlocked) (\<lambda>_.
           if ids = [] then Done (Inl no_allowed_session)
           else
             prog_try (read_store (allowed_session_names_for_ids ids)) (\<lambda>names.
               if length names \<noteq> length ids then Done (Inl (InvalidInput ''an allowed session does not exist''))
               else
                 with_live_handle (\<lambda>h.
                   case h of
                     Some existing \<Rightarrow>
                       prog_seq (ask_unit (CallUpdateAllowed ids names)) (\<lambda>_.
                         emit_api_status (running_info existing)
                           (Release ApiHandle (Done (Inr (running_info existing)))))
                   | None \<Rightarrow>
                       prog_seq (read_store stored_key) (\<lambda>r.
                         case r of
                           Inl e \<Rightarrow> Release ApiHandle (Done (Inl e))
                         | Inr (Some key) \<Rightarrow> start_with_key port ids names key
                         | Inr None \<Rightarrow>
                             prog_seq make_key (\<lambda>k.
                               case k of
                                 Inl e \<Rightarrow> Release ApiHandle (Done (Inl e))
                               | Inr (key, snap) \<Rightarrow> announce snap (start_with_key port ids names key)))))))"

definition api_server_configure_and_start ::
  "16 word \<Rightarrow> string list \<Rightarrow> bool \<Rightarrow> (api_info \<times> config_snapshot) app_result prog" where
  "api_server_configure_and_start port allowed auto_start =
     prog_seq (ask_unit CallApiStartupCancel) (\<lambda>_.
     Epoch (\<lambda>ticket.
     with_lock ApiOperation Exclusive
       (prog_try (read_store ensure_unlocked) (\<lambda>_.
          let ids = normalize_allowed_session_ids (Some allowed) None in
          if ids = [] then Done (Inl no_allowed_session)
          else
            prog_seq (with_lock ApiHandle Exclusive (Ask CallHandle (\<lambda>a.
                Done (case an_handle a of Some h \<Rightarrow> if ah_finished h then port else ah_port h | None \<Rightarrow> port)))) (\<lambda>effective.
            prog_try (mutation_guarded ticket
                (prog_try (change_store (ChAiApi \<lparr>aiu_session_ids = ids, aiu_port = Some effective, aiu_auto_start = auto_start\<rparr>))
                   (\<lambda>snapshot. prog_seq (sync_api_server_authorization_cache snapshot) (\<lambda>_. Done (Inr snapshot))))) (\<lambda>snapshot.
            Note (ConfigChanged snapshot)
              (prog_seq (start_api_server_inner effective ids) (\<lambda>r.
                 case r of
                   Inr info \<Rightarrow> prog_try (read_store vault_snapshot) (\<lambda>latest. Done (Inr (info, latest)))
                 | Inl e \<Rightarrow> prog_seq stop_api_server_after_reconcile_failure (\<lambda>_. Done (Inl e))))))))))"

text \<open>One attempt of the automatic start; \<open>None\<close> when there is nothing to start.\<close>

definition api_autostart_attempt :: "api_info option app_result prog" where
  "api_autostart_attempt =
     with_lock ApiOperation Exclusive
       (Ask CallShuttingDown (\<lambda>q. Ask CallMigrationFlag (\<lambda>m.
          if an_flag q \<or> an_flag m then Done (Inr None)
          else
            prog_try (read_store vault_snapshot) (\<lambda>snapshot.
              let settings = vd_settings (cs_data snapshot); ids = fst (configured_allowed_sessions snapshot) in
              case as_ai_api_port settings of
                None \<Rightarrow> Done (Inr None)
              | Some port \<Rightarrow>
                  if \<not> as_ai_api_auto_start settings \<or> ids = [] then Done (Inr None)
                  else
                    Ask (CallApiStartupWaiting port) (\<lambda>w.
                      prog_seq (if an_flag w then emit_api_status stopped_api_server_info (Done ()) else Done ()) (\<lambda>_.
                        prog_try (start_api_server_inner port ids) (\<lambda>info. Done (Inr (Some info)))))))))"

definition api_server_stop :: "unit app_result prog" where
  "api_server_stop =
     prog_seq (ask_unit CallApiStartupCancel) (\<lambda>_.
     prog_seq (with_lock ApiHandle Exclusive (ask_unit CallRequestShutdown)) (\<lambda>_.
     with_lock ApiOperation Exclusive
       (prog_seq take_handle (\<lambda>h. prog_seq (stop_handle h) (\<lambda>_.
          emit_api_status stopped_api_server_info (Done (Inr ())))))))"

definition api_server_status :: "api_info app_result prog" where
  "api_server_status =
     with_lock ApiOperation Exclusive
       (Acquire ApiHandle Exclusive (Ask CallHandle (\<lambda>a.
          case an_handle a of
            Some h \<Rightarrow>
              if ah_finished h
              then Ask CallTakeHandle (\<lambda>_. Release ApiHandle (prog_seq (stop_handle (Some h)) (\<lambda>_.
                     emit_api_status stopped_api_server_info (Done (Inr stopped_api_server_info)))))
              else Release ApiHandle (Done (Inr (running_info h)))
          | None \<Rightarrow> Release ApiHandle (Done (Inr stopped_api_server_info)))))"

definition api_server_regenerate_key :: "api_info app_result prog" where
  "api_server_regenerate_key =
     prog_seq (ask_unit CallApiStartupCancel) (\<lambda>_.
     Epoch (\<lambda>ticket.
     with_lock ApiOperation Exclusive
       (prog_try (read_store ensure_unlocked) (\<lambda>_.
        Ask CallGenerateKey (\<lambda>k.
        prog_try (mutation_guarded ticket (change_store (ChAiKey (Some (an_text k))))) (\<lambda>snapshot.
        Note (ConfigChanged snapshot)
          (prog_seq take_handle (\<lambda>h.
             case h of
               None \<Rightarrow>
                 emit_api_status \<lparr>ai_running = False, ai_port = 0, ai_api_key = an_text k\<rparr>
                   (Done (Inr \<lparr>ai_running = False, ai_port = 0, ai_api_key = an_text k\<rparr>))
             | Some old \<Rightarrow>
                 prog_seq (stop_handle (Some old)) (\<lambda>_.
                 Ask (CallStartServer (ah_port old) (an_text k) (ah_allowed old) (ah_names old)) (\<lambda>a.
                   case an_started a of
                     Inl e \<Rightarrow> emit_api_status stopped_api_server_info (Done (Inl e))
                   | Inr new \<Rightarrow>
                       with_lock ApiHandle Exclusive
                         (prog_seq (ask_unit (CallPutHandle new)) (\<lambda>_.
                            emit_api_status (running_info new) (Done (Inr (running_info new)))))))))))))))"

text \<open>Around a replacement of the configuration the server is stopped, and started again afterwards.\<close>

definition stop_api_server_for_config_replacement :: "(bool \<Rightarrow> 'a prog) \<Rightarrow> 'a prog" where
  "stop_api_server_for_config_replacement body =
     prog_seq (ask_unit CallApiStartupCancel) (\<lambda>_.
     Acquire ApiOperation Exclusive
       (prog_seq take_handle (\<lambda>h.
          prog_seq (stop_handle h) (\<lambda>_.
            emit_api_status stopped_api_server_info
              (body (case h of None \<Rightarrow> False | Some x \<Rightarrow> \<not> ah_finished x))))))"

definition restore_api_server_after_config_replacement :: "bool \<Rightarrow> unit prog" where
  "restore_api_server_after_config_replacement was_running =
     (if \<not> was_running then Done ()
      else
        prog_seq (read_store vault_snapshot) (\<lambda>r.
          case r of
            Inl _ \<Rightarrow> Done ()
          | Inr snapshot \<Rightarrow>
              (let settings = vd_settings (cs_data snapshot);
                   ids = normalize_allowed_session_ids (Some (as_ai_api_session_ids settings)) (as_ai_api_session_id settings)
               in case as_ai_api_port settings of
                    None \<Rightarrow> Done ()
                  | Some port \<Rightarrow>
                      if ids = [] then Done ()
                      else with_lock ApiOperation Exclusive
                             (prog_seq (start_api_server_inner port ids) (\<lambda>_. Done ())))))"

section \<open>Sessions and connections\<close>

definition group_create :: "group_input \<Rightarrow> config_snapshot app_result prog" where
  "group_create input = config_command (ChGroupCreate input)"

definition group_update :: "string \<Rightarrow> group_input \<Rightarrow> config_snapshot app_result prog" where
  "group_update group_id input = config_command (ChGroupUpdate group_id input)"

definition group_delete :: "string \<Rightarrow> config_snapshot app_result prog" where
  "group_delete group_id = config_command (ChGroupDelete group_id)"

definition session_create :: "session_input \<Rightarrow> config_snapshot app_result prog" where
  "session_create input = config_command (ChSessionCreate input)"

definition session_favorite_update :: "string \<Rightarrow> bool \<Rightarrow> config_snapshot app_result prog" where
  "session_favorite_update session_id favorite = config_command (ChFavorite session_id favorite)"

definition session_mark_recent :: "string \<Rightarrow> config_snapshot app_result prog" where
  "session_mark_recent session_id = config_command (ChRecent session_id)"

definition session_clear_recent :: "string \<Rightarrow> config_snapshot app_result prog" where
  "session_clear_recent session_id = config_command (ChClearRecent session_id)"

definition session_connection_config_changed :: "session_config \<Rightarrow> session_config \<Rightarrow> bool" where
  "session_connection_config_changed previous current \<longleftrightarrow>
     sc_host previous \<noteq> sc_host current \<or> sc_port previous \<noteq> sc_port current
     \<or> sc_username previous \<noteq> sc_username current \<or> sc_auth previous \<noteq> sc_auth current
     \<or> sc_ssh previous \<noteq> sc_ssh current"

definition update_session_change ::
  "string \<Rightarrow> session_input \<Rightarrow> (session_config \<times> config_snapshot) app_result prog" where
  "update_session_change session_id input =
     Change (\<lambda>st. and_then (vault_session session_id st) (\<lambda>_. Inr (ChSessionUpdate session_id input)))
       (\<lambda>st r. Done (and_then (vault_session session_id st) (\<lambda>previous.
          and_then r (\<lambda>(snapshot, _). Inr (previous, snapshot)))))"

definition session_update :: "string \<Rightarrow> session_input \<Rightarrow> config_snapshot app_result prog" where
  "session_update session_id input =
     Epoch (\<lambda>ticket.
     prog_try
       (with_lock TunnelOperation Exclusive (with_lock ConnectionGate Exclusive
          (prog_try (mutation_guarded ticket (update_session_change session_id input)) (\<lambda>(previous, snapshot).
             case List.find (\<lambda>s. sc_id s = session_id) (vd_sessions (cs_data snapshot)) of
               None \<Rightarrow> Done (Inl (ConfigConflict ''the session is missing after its update''))
             | Some current \<Rightarrow>
                 prog_seq (if session_connection_config_changed previous current
                           then ask_unit (CallShutdownSession session_id) else Done ())
                   (\<lambda>_. Done (Inr snapshot))))))
       (\<lambda>snapshot. prog_seq reconcile_api_server_with_snapshot (\<lambda>_.
          Note (ConfigChanged snapshot) (Done (Inr snapshot)))))"

definition session_delete :: "string \<Rightarrow> config_snapshot app_result prog" where
  "session_delete session_id =
     Epoch (\<lambda>ticket.
     prog_try
       (with_lock ApiOperation Exclusive (with_lock TunnelOperation Exclusive (with_lock ConnectionGate Exclusive
          (prog_try
             (mutation_guarded ticket
                (prog_try (change_store (ChSessionDelete session_id)) (\<lambda>snapshot.
                   prog_seq (sync_api_server_authorization_cache snapshot) (\<lambda>_. Done (Inr snapshot)))))
             (\<lambda>snapshot. prog_seq (ask_unit (CallShutdownSession session_id)) (\<lambda>_. Done (Inr snapshot)))))))
       (\<lambda>snapshot. prog_seq reconcile_api_server_with_snapshot (\<lambda>_.
          Note (ConfigChanged snapshot) (Done (Inr snapshot)))))"

text \<open>\<open>connect\_session\<close> reuses a connection, \<open>connect\_session\_new\<close> does not. A connection whose configuration changed
  meanwhile is closed again.\<close>

definition connect_with ::
  "(session_config \<Rightarrow> known_host_entry option \<Rightarrow> runtime_call) \<Rightarrow> string \<Rightarrow> connection_info app_result prog" where
  "connect_with call session_id =
     with_lock ConnectionGate Shared
       (prog_try (read_store (\<lambda>st. build_session_for_connect st session_id)) (\<lambda>(s, known_host).
        prog_try (Ask (call s known_host) (\<lambda>a. Done (an_connection a))) (\<lambda>connection.
        prog_seq (read_store (\<lambda>st. session_matches_current_connection_config st s)) (\<lambda>valid.
          if valid = Inr True then Done (Inr connection)
          else prog_seq (ask_unit (CallShutdownConnection (ci_connection_id connection))) (\<lambda>_.
                 Done (Inl (InvalidInput ''the session configuration has changed, connect again'')))))))"

definition connect_session :: "string \<Rightarrow> connection_info app_result prog" where
  "connect_session session_id = connect_with CallConnect session_id"

definition connect_session_new :: "string \<Rightarrow> connection_info app_result prog" where
  "connect_session_new session_id = connect_with CallConnectNew session_id"

text \<open>The restoration of the tunnels that \<open>ssh\_connect\<close> starts is a task of its own.\<close>

definition ssh_connect :: "string \<Rightarrow> connection_info app_result prog" where
  "ssh_connect session_id = connect_session_new session_id"

definition ssh_disconnect :: "string \<Rightarrow> unit app_result prog" where
  "ssh_disconnect connection_id =
     prog_try (read_store ensure_unlocked) (\<lambda>_. ask_result (CallDisconnect connection_id))"

definition ssh_trust_host_key ::
  "string \<Rightarrow> string \<Rightarrow> 16 word \<Rightarrow> string \<Rightarrow> string \<Rightarrow> config_snapshot app_result prog" where
  "ssh_trust_host_key session_id host port algorithm fingerprint =
     config_command (ChTrust session_id host port algorithm fingerprint)"

section \<open>Tunnels\<close>

definition restore_tunnel :: "tunnel_config \<Rightarrow> string \<Rightarrow> unit app_result prog" where
  "restore_tunnel t connection_id =
     Ask (CallDesktopForward (tc_id t)) (\<lambda>a.
       if an_existing a \<noteq> None then Done (Inr ())
       else
         prog_try (ask_result (CallStopForwards (tc_id t) None)) (\<lambda>_.
         Ask (CallStartForwardOn t connection_id) (\<lambda>b.
           case an_forward b of
             Inr _ \<Rightarrow> Done (Inr ())
           | Inl e \<Rightarrow>
               prog_seq (ask_unit (CallRecordStartFailure t connection_id (app_error_text e))) (\<lambda>_. Done (Inl e)))))"

definition tunnel_of :: "string \<Rightarrow> config_snapshot \<Rightarrow> tunnel_config option" where
  "tunnel_of tunnel_id snapshot = List.find (\<lambda>t. tc_id t = tunnel_id) (vd_tunnels (cs_data snapshot))"

text \<open>Only an existing connection is used; no connection is made.\<close>

definition restore_on_existing :: "tunnel_config option \<Rightarrow> unit app_result prog" where
  "restore_on_existing t =
     (case t of
        None \<Rightarrow> Done (Inr ())
      | Some tunnel \<Rightarrow>
          Ask CallConnectionList (\<lambda>a.
            case List.find (\<lambda>c. ci_session_id c = tc_session_id tunnel) (an_connections a) of
              None \<Rightarrow> Done (Inr ())
            | Some connection \<Rightarrow> restore_tunnel tunnel (ci_connection_id connection)))"

definition tunnel_set_enabled :: "string \<Rightarrow> bool \<Rightarrow> config_snapshot app_result prog" where
  "tunnel_set_enabled tunnel_id enabled =
     Epoch (\<lambda>ticket.
     with_lock TunnelOperation Exclusive (with_lock ConnectionGate Shared
       (prog_try (mutation_guarded ticket (change_store (ChTunnelEnabled tunnel_id enabled))) (\<lambda>snapshot.
        Note (ConfigChanged snapshot)
          (prog_try
             (if enabled then restore_on_existing (tunnel_of tunnel_id snapshot)
              else ask_result (CallStopForwards tunnel_id None))
             (\<lambda>_. read_store vault_snapshot))))))"

definition should_restore_tunnel :: "tunnel_config \<Rightarrow> string \<Rightarrow> bool" where
  "should_restore_tunnel t session_id \<longleftrightarrow> tc_enabled t \<and> tc_session_id t = session_id"

primrec restore_each :: "string \<Rightarrow> tunnel_config list \<Rightarrow> unit prog" where
  "restore_each connection_id [] = Done ()"
| "restore_each connection_id (t # ts) =
     prog_seq (restore_tunnel t connection_id) (\<lambda>_. restore_each connection_id ts)"

definition restore_tunnels_after_connect :: "connection_info \<Rightarrow> unit app_result prog" where
  "restore_tunnels_after_connect connection =
     with_lock TunnelOperation Exclusive (with_lock ConnectionGate Shared
       (Ask CallConnectionList (\<lambda>a.
          if \<not> (\<exists>c\<in>set (an_connections a). ci_connection_id c = ci_connection_id connection) then Done (Inr ())
          else
            prog_try (read_store vault_tunnels) (\<lambda>tunnels.
              prog_seq (restore_each (ci_connection_id connection)
                          (filter (\<lambda>t. should_restore_tunnel t (ci_session_id connection)) tunnels))
                (\<lambda>_. Done (Inr ()))))))"

definition tunnel_create :: "tunnel_input \<Rightarrow> config_snapshot app_result prog" where
  "tunnel_create input =
     Epoch (\<lambda>ticket. with_lock TunnelOperation Exclusive (mutation_guarded ticket (change_store (ChTunnelCreate input))))"

definition tunnel_update :: "string \<Rightarrow> tunnel_input \<Rightarrow> config_snapshot app_result prog" where
  "tunnel_update tunnel_id input =
     Epoch (\<lambda>ticket.
     with_lock TunnelOperation Exclusive (with_lock ConnectionGate Shared
       (prog_try
          (mutation_guarded ticket
             (prog_try (read_store (validate_tunnel_update tunnel_id input)) (\<lambda>_.
              prog_try (ask_result (CallStopForwards tunnel_id None)) (\<lambda>_.
                change_store (ChTunnelUpdate tunnel_id input)))))
          (\<lambda>snapshot.
             Note (ConfigChanged snapshot)
               (prog_try
                  (restore_on_existing
                     (List.find (\<lambda>t. tc_id t = tunnel_id \<and> tc_enabled t) (vd_tunnels (cs_data snapshot))))
                  (\<lambda>_. read_store vault_snapshot))))))"

definition tunnel_delete :: "string \<Rightarrow> config_snapshot app_result prog" where
  "tunnel_delete tunnel_id =
     Epoch (\<lambda>ticket.
     with_lock TunnelOperation Exclusive
       (mutation_guarded ticket
          (prog_try (ask_result (CallStopForwards tunnel_id None)) (\<lambda>_. change_store (ChTunnelDelete tunnel_id)))))"

text \<open>\<open>forward\_start\_local\<close>, \<open>forward\_start\_remote\<close> and \<open>forward\_start\_dynamic\<close> differ in the options.\<close>

definition forward_start :: "string \<Rightarrow> forward_options \<Rightarrow> string option \<Rightarrow> forward_info app_result prog" where
  "forward_start session_id options tunnel_id =
     (let start = prog_try (connect_session session_id) (\<lambda>connection.
            Ask (CallForwardStart options tunnel_id session_id (ci_connection_id connection)) (\<lambda>a. Done (an_forward a)))
      in with_lock TunnelOperation Exclusive
           (case tunnel_id of
              None \<Rightarrow> start
            | Some t \<Rightarrow> Ask (CallDesktopForward t) (\<lambda>a.
                          case an_existing a of Some info \<Rightarrow> Done (Inr info) | None \<Rightarrow> start)))"

definition forward_stop_command :: "string \<Rightarrow> unit app_result prog" where
  "forward_stop_command forward_id =
     Epoch (\<lambda>ticket.
     with_lock TunnelOperation Exclusive
       (prog_try (read_store ensure_unlocked) (\<lambda>_.
        Ask CallForwardList (\<lambda>a.
        prog_try
          (case Option.bind (List.find (\<lambda>f. fi_forward_id f = forward_id) (an_forwards a)) fi_tunnel_id of
             None \<Rightarrow> Done (Inr ())
           | Some t \<Rightarrow>
               mutation_guarded ticket
                 (prog_try (change_store (ChTunnelEnabled t False)) (\<lambda>snapshot.
                    Note (ConfigChanged snapshot) (Done (Inr ())))))
          (\<lambda>_. ask_result (CallForwardStop forward_id))))))"

definition forward_list_command :: "forward_info list app_result prog" where
  "forward_list_command =
     with_lock TunnelOperation Exclusive
       (prog_try (read_store ensure_unlocked) (\<lambda>_. Ask CallForwardList (\<lambda>a. Done (Inr (an_forwards a)))))"

definition connection_list_command :: "connection_info list app_result prog" where
  "connection_list_command =
     prog_try (read_store ensure_unlocked) (\<lambda>_. Ask CallConnectionList (\<lambda>a. Done (Inr (an_connections a))))"

section \<open>The vault, its settings and its backups\<close>

definition vault_needs_migration :: "bool app_result prog" where
  "vault_needs_migration =
     prog_try (ask_result CallInitializeVault) (\<lambda>_. Ask CallMigrationFlag (\<lambda>a. Done (Inr (an_flag a))))"

definition vault_migrate_command :: "string \<Rightarrow> config_snapshot app_result prog" where
  "vault_migrate_command old_password =
     replacement_guarded
       (prog_try (change_store (ChMigrate old_password)) (\<lambda>snapshot.
          prog_seq (ask_unit CallClearMigration) (\<lambda>_. Done (Inr snapshot))))"

definition vault_skip_migration :: "config_snapshot app_result prog" where
  "vault_skip_migration =
     replacement_guarded
       (prog_try (change_store ChReset) (\<lambda>snapshot.
          prog_seq (ask_unit CallClearMigration) (\<lambda>_. Done (Inr snapshot))))"

definition config_snapshot_command :: "config_snapshot app_result prog" where
  "config_snapshot_command = prog_try (ask_result CallInitializeVault) (\<lambda>_. read_store vault_snapshot)"

definition settings_proxy_update_command :: "app_proxy_options option \<Rightarrow> config_snapshot app_result prog" where
  "settings_proxy_update_command proxy =
     Epoch (\<lambda>ticket.
     with_lock TunnelOperation Exclusive (with_lock ConnectionGate Exclusive
       (prog_try (mutation_guarded ticket (change_store (ChProxy proxy))) (\<lambda>snapshot.
        prog_seq (ask_unit CallShutdownAll) (\<lambda>_.
        Note (ConfigChanged snapshot) (Done (Inr snapshot)))))))"

text \<open>A change under the lock of the backups; the files it makes superfluous are removed after the mutation.\<close>

definition backup_change :: "ticket_value \<Rightarrow> vault_change \<Rightarrow> config_snapshot app_result prog" where
  "backup_change ticket ch =
     prog_try (mutation_guarded ticket (Change (\<lambda>_. Inr ch) (\<lambda>_ r. Done r))) (\<lambda>(snapshot, targets).
       prog_seq (ask_all CallRemoveTarget targets) (\<lambda>_. Done (Inr snapshot)))"

definition settings_backup_update_command :: "backup_settings \<Rightarrow> config_snapshot app_result prog" where
  "settings_backup_update_command backup =
     Epoch (\<lambda>ticket. with_lock BackupOperation Exclusive (backup_change ticket (ChBackup backup)))"

definition quick_command_upsert_command :: "quick_command \<Rightarrow> config_snapshot app_result prog" where
  "quick_command_upsert_command command = config_command (ChCommandUpsert command)"

definition quick_command_delete_command :: "string \<Rightarrow> config_snapshot app_result prog" where
  "quick_command_delete_command command_id = config_command (ChCommandDelete command_id)"

definition settings_ai_api_update_command ::
  "string list \<Rightarrow> 16 word option \<Rightarrow> bool \<Rightarrow> config_snapshot app_result prog" where
  "settings_ai_api_update_command session_ids port auto_start =
     Epoch (\<lambda>ticket.
     prog_try
       (with_lock ApiOperation Exclusive
          (mutation_guarded ticket
             (prog_try (change_store (ChAiApi \<lparr>aiu_session_ids = session_ids, aiu_port = port, aiu_auto_start = auto_start\<rparr>))
                (\<lambda>snapshot. prog_seq (sync_api_server_authorization_cache snapshot) (\<lambda>_. Done (Inr snapshot))))))
       (\<lambda>snapshot. prog_seq reconcile_api_server_with_snapshot (\<lambda>_.
          Note (ConfigChanged snapshot) (Done (Inr snapshot)))))"

definition settings_ignore_update_version_command :: "string \<Rightarrow> config_snapshot app_result prog" where
  "settings_ignore_update_version_command version = config_command (ChIgnoreVersion version)"

definition connection_section_state_command :: "string list \<Rightarrow> config_snapshot app_result prog" where
  "connection_section_state_command ids = config_command (ChSections ids)"

definition vault_backup_export :: "path \<Rightarrow> unit app_result prog" where
  "vault_backup_export target =
     with_lock BackupOperation Exclusive
       (prog_try (read_store (\<lambda>st. and_then (ensure_unlocked st) (\<lambda>_. Inr (vs_path st)))) (\<lambda>vault_path.
        prog_try (Ask (CallReadVault vault_path) (\<lambda>a. Done (an_bytes a))) (\<lambda>bytes.
        prog_try (Ask (CallBuildPackage bytes) (\<lambda>a. Done (an_bytes a))) (\<lambda>package.
          ask_result (CallWriteFile target package)))))"

text \<open>Everything that may use the old configuration is stopped before it is replaced.\<close>

definition replace_config :: "vault_change \<Rightarrow> config_snapshot app_result prog" where
  "replace_config ch =
     with_lock TunnelOperation Exclusive (with_lock ConnectionGate Exclusive (replacement_guarded
       (prog_seq (ask_unit CallShutdownAll) (\<lambda>_.
        prog_try (change_store ch) (\<lambda>snapshot. Note (ConfigChanged snapshot) (Done (Inr snapshot)))))))"

definition vault_backup_import :: "path \<Rightarrow> config_snapshot app_result prog" where
  "vault_backup_import p =
     prog_try (Look (\<lambda>io v. Done (validate_backup io p v))) (\<lambda>_.
       stop_api_server_for_config_replacement (\<lambda>was_running.
         prog_seq (with_lock BackupOperation Exclusive (replace_config (ChImport p))) (\<lambda>result.
           Release ApiOperation
             (prog_seq (restore_api_server_after_config_replacement was_running) (\<lambda>_. Done result)))))"

text \<open>A backup: planned under the lock of the mutations, run without it, recorded under it.\<close>

definition plan_backup_run :: "vault_store \<Rightarrow> backup_plan app_result" where
  "plan_backup_run st =
     and_then (ensure_unlocked st) (\<lambda>_.
     and_then (vault_snapshot st) (\<lambda>snapshot.
       Inr \<lparr>bp_settings = as_backup (vd_settings (cs_data snapshot)), bp_vault_path = vs_path st,
            bp_existing_records = vd_backup_records (cs_data snapshot)\<rparr>))"

definition run_backup_plan ::
  "backup_plan \<Rightarrow> string list option \<Rightarrow> bool \<Rightarrow> (backup_record list \<times> backup_record list) app_result prog" where
  "run_backup_plan plan kinds automatic =
     prog_try (Ask (CallRunBackup plan kinds automatic) (\<lambda>a. Done (an_records a))) (\<lambda>outcomes.
     Ask (CallListBackups (bp_settings plan)) (\<lambda>a.
       Done (Inr (outcomes, merge_configured_backup_records (an_records a) (bp_existing_records plan) outcomes))))"

definition backup_run :: "string list option \<Rightarrow> bool \<Rightarrow> config_snapshot app_result prog" where
  "backup_run kinds automatic =
     Epoch (\<lambda>ticket.
     with_lock BackupOperation Exclusive
       (prog_try (mutation_guarded ticket (read_store plan_backup_run)) (\<lambda>plan.
        prog_try (run_backup_plan plan kinds automatic) (\<lambda>(outcomes, records).
          backup_change ticket (ChRecords records)))))"

definition backup_run_now :: "config_snapshot app_result prog" where
  "backup_run_now = backup_run None False"

definition backup_run_auto :: "string list \<Rightarrow> config_snapshot app_result prog" where
  "backup_run_auto kinds = backup_run (Some kinds) True"

definition run_due_auto_backup :: "(string \<Rightarrow> int option) \<Rightarrow> int \<Rightarrow> unit app_result prog" where
  "run_due_auto_backup parse_time now =
     Ask CallMigrationFlag (\<lambda>a.
       if an_flag a then Done (Inr ())
       else
         prog_try (read_store (\<lambda>st. and_then (vault_snapshot st) (\<lambda>snapshot.
             Inr (auto_backup_due_target_kinds parse_time now (as_backup (vd_settings (cs_data snapshot)))
                    (vd_backup_records (cs_data snapshot)))))) (\<lambda>kinds.
           if kinds = [] then Done (Inr ())
           else prog_try (backup_run_auto kinds) (\<lambda>snapshot. Note (ConfigChanged snapshot) (Done (Inr ())))))"

definition restorable_record :: "string \<Rightarrow> vault_store \<Rightarrow> (backup_settings \<times> backup_record) app_result" where
  "restorable_record record_id st =
     and_then (vault_snapshot st) (\<lambda>snapshot.
     and_then (ok_or (List.find (\<lambda>r. br_id r = record_id) (vd_backup_records (cs_data snapshot)))
                (NotFound (''backup record '' @ record_id))) (\<lambda>record.
       if br_status record \<noteq> ''success'' then Inl (InvalidInput ''a failed backup cannot be restored'')
       else Inr (as_backup (vd_settings (cs_data snapshot)), record)))"

definition backup_record_restore :: "string \<Rightarrow> config_snapshot app_result prog" where
  "backup_record_restore record_id =
     prog_try (read_store (restorable_record record_id)) (\<lambda>_.
       stop_api_server_for_config_replacement (\<lambda>was_running.
         prog_seq
           (with_lock BackupOperation Exclusive
              (prog_try (read_store (restorable_record record_id)) (\<lambda>(settings, record).
               prog_try (if br_target_kind record = ''local''
                         then Ask (CallReadFile (br_target_path record)) (\<lambda>a. Done (an_bytes a))
                         else Ask (CallDownloadBackup (bs_cloud settings) record) (\<lambda>a. Done (an_bytes a))) (\<lambda>bytes.
               prog_try (Look (\<lambda>io v. Done (validate_backup_bytes io bytes (fst v)))) (\<lambda>_.
                 replace_config (ChImportBytes bytes))))))
           (\<lambda>result.
              Release ApiOperation
                (prog_seq (restore_api_server_after_config_replacement was_running) (\<lambda>_. Done result)))))"

definition backup_record_delete :: "string \<Rightarrow> bool \<Rightarrow> config_snapshot app_result prog" where
  "backup_record_delete record_id delete_file =
     Epoch (\<lambda>ticket. with_lock BackupOperation Exclusive (backup_change ticket (ChRecordDelete record_id delete_file)))"

definition backup_records_clear :: "config_snapshot app_result prog" where
  "backup_records_clear =
     Epoch (\<lambda>ticket. with_lock BackupOperation Exclusive (mutation_guarded ticket (change_store (ChRecords []))))"

text \<open>The end of the application.\<close>

definition shutdown_runtime :: "unit prog" where
  "shutdown_runtime =
     prog_seq (ask_unit CallApiStartupCancel) (\<lambda>_.
     prog_seq (with_lock ApiHandle Exclusive (ask_unit CallRequestShutdown)) (\<lambda>_.
     with_lock ApiOperation Exclusive
       (prog_seq take_handle (\<lambda>h.
        prog_seq (stop_handle h) (\<lambda>_.
        with_lock BackupOperation Exclusive (with_lock TunnelOperation Exclusive (with_lock ConnectionGate Exclusive
          (ask_unit CallShutdownForExit))))))))"

end
