(* ===== verification/App_Order.thy ===== *)
theory App_Order
  imports App_Commands
begin

text \<open>
  Every command keeps the discipline of the locks.
\<close>

lemma all_locks:
  "(\<forall>l. P l) \<longleftrightarrow> P ApiOperation \<and> P ApiHandle \<and> P BackupOperation \<and> P TunnelOperation \<and> P ConnectionGate \<and> P MutationGate"
  by (metis lock.exhaust)

definition free :: "ctx \<Rightarrow> bool" where
  "free c \<longleftrightarrow> cx_held c = (\<lambda>_. None) \<and> cx_gate c = Outside"

lemma free_start: "free cx_start"
  by (simp add: free_def cx_start_def)

abbreviation orderly :: "'a prog \<Rightarrow> ctx \<Rightarrow> bool" where
  "orderly p c \<equiv> obeys p (\<lambda>_ _ _. True) (\<lambda>c' _. free c') c"

lemmas block_defs = with_lock_def mutation_guarded_def mutation_guarded_as_def replacement_guarded_def change_store_def read_store_def
  ask_result_def ask_unit_def prog_try_def

lemma orderly_config: "free c \<Longrightarrow> orderly (config_command ch) c"
  by (simp add: config_command_def block_defs ctx_steps free_def may_wait_def all_locks fun_eq_iff)

lemmas order_defs = block_defs ctx_steps free_def may_wait_def all_locks fun_eq_iff

lemma obeys_mono: "obeys p pol fin c \<Longrightarrow> (\<And>c x. fin c x \<Longrightarrow> fin' c x) \<Longrightarrow> obeys p pol fin' c"
proof (induction p arbitrary: c)
  case (Look k)
  have "obeys (k io v) pol fin' c'" if "obeys (k io v) pol fin c'" for io v c'
    by (rule Look.IH [of "k io"]) (use that Look.prems(2) in simp_all)
  with Look.prems(1) show ?case by simp
next
  case (Change g k)
  have "obeys (k st r) pol fin' c'" if "obeys (k st r) pol fin c'" for st r c'
    by (rule Change.IH [of "k st"]) (use that Change.prems(2) in simp_all)
  with Change.prems(1) show ?case by simp
qed auto

lemma obeys_ask_all [simp]: "obeys (ask_all q xs) pol fin c \<longleftrightarrow> fin c ()"
  by (induction xs) (simp_all add: ask_all_def ask_unit_def)

lemma obeys_restore_tunnel: "(\<And>r. fin c r) \<Longrightarrow> obeys (restore_tunnel t i) pol fin c"
  by (simp add: restore_tunnel_def prog_try_def ask_result_def ask_unit_def split: sum.split)

lemma obeys_restore_each: "fin c () \<Longrightarrow> obeys (restore_each i ts) pol fin c"
  by (induction ts) (auto intro: obeys_restore_tunnel)

lemma obeys_restore_on_existing: "(\<And>r. fin c r) \<Longrightarrow> obeys (restore_on_existing t) pol fin c"
  by (auto simp: restore_on_existing_def intro: obeys_restore_tunnel split: option.split)

lemmas server_defs = sync_api_server_authorization_cache_def reconcile_api_server_with_snapshot_def
  reconcile_api_server_with_snapshot_inner_def with_live_handle_def stop_api_server_after_reconcile_failure_def
  take_handle_def stop_handle_def emit_api_status_def start_with_key_def make_key_def announce_def
  start_api_server_inner_def stop_api_server_for_config_replacement_def
  restore_api_server_after_config_replacement_def

lemmas order_splits = sum.split option.split prod.split if_splits

section \<open>Commands about the HTTP server\<close>

lemma orderly_reconcile: "free c \<Longrightarrow> orderly reconcile_api_server_with_snapshot c"
  by (auto simp: server_defs order_defs split: order_splits)

lemma obeys_start:
  assumes "cx_held c = (\<lambda>_. None)(ApiOperation \<mapsto> Exclusive)" "cx_gate c = Outside"
    and "\<And>c' r. cx_held c' = (\<lambda>_. None)(ApiOperation \<mapsto> Exclusive) \<Longrightarrow> cx_gate c' = Outside \<Longrightarrow> fin c' r"
  shows "obeys (start_api_server_inner port ids) (\<lambda>_ _ _. True) fin c"
proof (rule obeys_mono)
  show "obeys (start_api_server_inner port ids) (\<lambda>_ _ _. True)
    (\<lambda>c' _. cx_held c' = (\<lambda>_. None)(ApiOperation \<mapsto> Exclusive) \<and> cx_gate c' = Outside) c"
    using assms(1,2) by (auto simp: server_defs order_defs split: order_splits)
qed (auto intro: assms(3))

lemma obeys_restore_server:
  assumes "free c" "\<And>c'. free c' \<Longrightarrow> fin c' ()"
  shows "obeys (restore_api_server_after_config_replacement b) (\<lambda>_ _ _. True) fin c"
  using assms unfolding restore_api_server_after_config_replacement_def
  by (auto simp: Let_def with_lock_def read_store_def on_look_def free_def may_wait_def on_acquire_def on_release_def fun_eq_iff
      intro!: obeys_start split: order_splits)

lemma orderly_configure: "free c \<Longrightarrow> orderly (api_server_configure_and_start port ids b) c"
  unfolding api_server_configure_and_start_def
  by (auto simp: Let_def order_defs sync_api_server_authorization_cache_def stop_api_server_after_reconcile_failure_def
      take_handle_def stop_handle_def emit_api_status_def intro!: obeys_start split: order_splits)

lemma orderly_autostart: "free c \<Longrightarrow> orderly api_autostart_attempt c"
  by (auto simp: api_autostart_attempt_def Let_def server_defs order_defs split: order_splits)

lemma orderly_api_server:
  "free c \<Longrightarrow> orderly api_server_stop c"
  "free c \<Longrightarrow> orderly api_server_status c"
  "free c \<Longrightarrow> orderly api_server_regenerate_key c"
  by (auto simp: api_server_stop_def api_server_status_def api_server_regenerate_key_def server_defs order_defs
      split: order_splits)

section \<open>Commands about sessions and tunnels\<close>

lemma orderly_session_update: "free c \<Longrightarrow> orderly (session_update i input) c"
  by (auto simp: session_update_def update_session_change_def server_defs order_defs split: order_splits)

lemma orderly_session_delete: "free c \<Longrightarrow> orderly (session_delete i) c"
  by (auto simp: session_delete_def server_defs order_defs split: order_splits)

lemma orderly_connect:
  "free c \<Longrightarrow> orderly (connect_session i) c"
  "free c \<Longrightarrow> orderly (ssh_connect i) c"
  "free c \<Longrightarrow> orderly (ssh_disconnect i) c"
  by (auto simp: connect_session_def ssh_connect_def connect_session_new_def connect_with_def ssh_disconnect_def
      order_defs split: order_splits)

lemma orderly_tunnels:
  "free c \<Longrightarrow> orderly (tunnel_create input) c"
  "free c \<Longrightarrow> orderly (tunnel_delete i) c"
  "free c \<Longrightarrow> orderly (tunnel_set_enabled i b) c"
  "free c \<Longrightarrow> orderly (tunnel_update i input) c"
  "free c \<Longrightarrow> orderly (restore_tunnels_after_connect conn) c"
  by (auto simp: tunnel_create_def tunnel_delete_def tunnel_set_enabled_def tunnel_update_def
      restore_tunnels_after_connect_def order_defs
      intro!: obeys_restore_on_existing obeys_restore_each split: order_splits)

lemma orderly_forwards:
  "free c \<Longrightarrow> orderly (forward_start i options t) c"
  "free c \<Longrightarrow> orderly (forward_stop_command f) c"
  "free c \<Longrightarrow> orderly forward_list_command c"
  "free c \<Longrightarrow> orderly connection_list_command c"
  by (auto simp: forward_start_def forward_stop_command_def forward_list_command_def connection_list_command_def
      connect_session_def connect_with_def Let_def order_defs split: order_splits)

section \<open>Commands about the vault\<close>

lemma orderly_backups:
  "free c \<Longrightarrow> orderly (settings_backup_update_command b) c"
  "free c \<Longrightarrow> orderly (backup_run kinds automatic) c"
  "free c \<Longrightarrow> orderly (backup_record_delete i d) c"
  "free c \<Longrightarrow> orderly backup_records_clear c"
  "free c \<Longrightarrow> orderly (vault_backup_export p) c"
  by (auto simp: settings_backup_update_command_def backup_run_def run_backup_plan_def backup_change_def
      backup_record_delete_def backup_records_clear_def vault_backup_export_def order_defs split: order_splits)

lemma orderly_due: "free c \<Longrightarrow> orderly (run_due_auto_backup parse now) c"
  unfolding run_due_auto_backup_def backup_run_auto_def
  by (auto simp: prog_try_def read_store_def on_look_def free_def split: sum.split
      intro!: obeys_mono [OF orderly_backups(2)])

lemma orderly_import: "free c \<Longrightarrow> orderly (vault_backup_import p) c"
  unfolding vault_backup_import_def stop_api_server_for_config_replacement_def
  by (auto simp: replace_config_def take_handle_def stop_handle_def emit_api_status_def order_defs
      intro!: obeys_restore_server split: order_splits)

lemma orderly_restore: "free c \<Longrightarrow> orderly (backup_record_restore i) c"
  unfolding backup_record_restore_def stop_api_server_for_config_replacement_def
  by (auto simp: replace_config_def take_handle_def stop_handle_def emit_api_status_def order_defs
      intro!: obeys_restore_server split: order_splits)

lemma orderly_vault:
  "free c \<Longrightarrow> orderly vault_needs_migration c"
  "free c \<Longrightarrow> orderly (vault_migrate_command pw) c"
  "free c \<Longrightarrow> orderly vault_skip_migration c"
  "free c \<Longrightarrow> orderly config_snapshot_command c"
  "free c \<Longrightarrow> orderly (settings_proxy_update_command proxy) c"
  "free c \<Longrightarrow> orderly (settings_ai_api_update_command ids port b) c"
  "free c \<Longrightarrow> orderly shutdown_runtime c"
  by (auto simp: vault_needs_migration_def vault_migrate_command_def vault_skip_migration_def config_snapshot_command_def
      settings_proxy_update_command_def settings_ai_api_update_command_def shutdown_runtime_def server_defs order_defs
      split: order_splits)

end
