(* ===== verification/Api_Admin.thy ===== *)
theory Api_Admin
  imports App_Order Api_Jobs "HOL-Library.AList"
begin

text \<open>
  Tunnels and backups over the HTTP interface (\<open>api\_server/handlers\_admin.rs\<close>), as programs beside the commands of
  the interface.
\<close>

section \<open>Errors, tunnels and secrets\<close>

definition map_err_500 :: "app_error \<Rightarrow> http_status \<times> string" where
  "map_err_500 e = (InternalError, app_error_text e)"

definition map_config_mutation_error :: "app_error \<Rightarrow> http_status \<times> string" where
  "map_config_mutation_error e =
     (case e of
        InvalidInput _ \<Rightarrow> (BadRequest, app_error_text e)
      | NotFound _ \<Rightarrow> (StatusNotFound, app_error_text e)
      | ConfigConflict _ \<Rightarrow> (StatusConflict, app_error_text e)
      | _ \<Rightarrow> (InternalError, app_error_text e))"

definition or_http :: "(app_error \<Rightarrow> http_status \<times> string) \<Rightarrow> 'a app_result \<Rightarrow> 'a http_result" where
  "or_http f r = map_sum f id r"

definition tunnel_allowed :: "string list \<Rightarrow> tunnel_config \<Rightarrow> bool" where
  "tunnel_allowed allowed t \<longleftrightarrow> tc_session_id t \<in> set allowed"

definition allowed_tunnels :: "string list \<Rightarrow> tunnel_config list \<Rightarrow> tunnel_config list" where
  "allowed_tunnels allowed tunnels = filter (tunnel_allowed allowed) tunnels"

definition verify_session_access_in_snapshot :: "string list \<Rightarrow> string \<Rightarrow> unit http_result" where
  "verify_session_access_in_snapshot allowed session_id =
     (if session_id \<in> set allowed then Inr () else Inl (Forbidden, ''no access to session '' @ session_id))"

definition redact_backup_settings :: "backup_settings \<Rightarrow> backup_settings" where
  "redact_backup_settings b =
     b\<lparr>bs_cloud := (bs_cloud b)
         \<lparr>cb_webdav := (cb_webdav (bs_cloud b))\<lparr>wd_password := []\<rparr>,
          cb_s3 := (cb_s3 (bs_cloud b))\<lparr>s3_secret_access_key := []\<rparr>\<rparr>\<rparr>"

definition preserve_blank_backup_secrets :: "backup_settings \<Rightarrow> backup_settings \<Rightarrow> backup_settings" where
  "preserve_blank_backup_secrets incoming current =
     (let c = bs_cloud incoming;
          password = (if wd_password (cb_webdav c) = [] then wd_password (cb_webdav (bs_cloud current))
                      else wd_password (cb_webdav c));
          secret = (if s3_secret_access_key (cb_s3 c) = [] then s3_secret_access_key (cb_s3 (bs_cloud current))
                    else s3_secret_access_key (cb_s3 c))
      in incoming\<lparr>bs_cloud := c\<lparr>cb_webdav := (cb_webdav c)\<lparr>wd_password := password\<rparr>,
                                cb_s3 := (cb_s3 c)\<lparr>s3_secret_access_key := secret\<rparr>\<rparr>\<rparr>)"

section \<open>Blocks\<close>

datatype admin_reply =
    Tunnels "tunnel_config list"
  | Forwarding forward_info
  | Stopped
  | BackupConfig backup_settings
  | BackupRecords "backup_record list"

definition require_key :: "string option \<Rightarrow> unit http_result prog" where
  "require_key auth = ReadKey (\<lambda>key. Done (verify_auth auth key))"

definition log_ok :: "string \<Rightarrow> string \<Rightarrow> 'a prog \<Rightarrow> 'a prog" where
  "log_ok action detail p = Note (LogLine action detail True) p"

text \<open>The answer to a change of the tunnels: those of the sessions allowed by then.\<close>

definition reply_tunnels :: "config_snapshot \<Rightarrow> admin_reply http_result prog" where
  "reply_tunnels snapshot =
     ReadAllowed (\<lambda>allowed. Done (Inr (Tunnels (allowed_tunnels allowed (vd_tunnels (cs_data snapshot))))))"

definition tunnel_operation :: "string option \<Rightarrow> (ticket_value \<Rightarrow> 'a http_result prog) \<Rightarrow> 'a http_result prog" where
  "tunnel_operation auth body =
     prog_try (require_key auth) (\<lambda>_. Epoch (\<lambda>ticket. with_lock TunnelOperation Exclusive
       (mutation_guarded_as map_config_mutation_error ticket (prog_try (require_key auth) (\<lambda>_. body ticket)))))"

definition find_tunnel :: "string \<Rightarrow> vault_store \<Rightarrow> tunnel_config http_result" where
  "find_tunnel tunnel_id st =
     and_then (or_http map_err_500 (vault_tunnels st)) (\<lambda>tunnels.
       ok_or (List.find (\<lambda>t. tc_id t = tunnel_id) tunnels) (StatusNotFound, ''no tunnel '' @ tunnel_id))"

definition change_http :: "vault_change \<Rightarrow> config_snapshot http_result prog" where
  "change_http ch = Change (\<lambda>_. Inr ch) (\<lambda>_ r. Done (or_http map_config_mutation_error (map_sum id fst r)))"

definition stop_tunnel :: "string \<Rightarrow> connection_origin option \<Rightarrow> unit http_result prog" where
  "stop_tunnel tunnel_id origin = Ask (CallStopForwards tunnel_id origin) (\<lambda>a. Done (or_http map_err_500 (an_result a)))"

section \<open>Tunnels\<close>

definition rest_tunnels_list :: "string option \<Rightarrow> admin_reply http_result prog" where
  "rest_tunnels_list auth =
     prog_try (require_key auth) (\<lambda>_.
     Look (\<lambda>_ v. case or_http map_err_500 (vault_tunnels (fst v)) of
       Inl e \<Rightarrow> Done (Inl e)
     | Inr tunnels \<Rightarrow>
         ReadAllowed (\<lambda>allowed.
           log_ok ''rest/tunnels.list'' (dec_string (length (allowed_tunnels allowed tunnels)))
             (Done (Inr (Tunnels (allowed_tunnels allowed tunnels)))))))"

definition rest_tunnels_create :: "string option \<Rightarrow> tunnel_input \<Rightarrow> admin_reply http_result prog" where
  "rest_tunnels_create auth input =
     tunnel_operation auth (\<lambda>_.
       ReadAllowed (\<lambda>allowed.
       prog_try (Done (verify_session_access_in_snapshot allowed (tunnel_input.ti_session_id input))) (\<lambda>_.
       prog_try (change_http (ChTunnelCreate input)) (\<lambda>snapshot.
       Note (ConfigChanged snapshot) (log_ok ''rest/tunnels.create'' ''OK'' (reply_tunnels snapshot))))))"

definition rest_tunnels_update :: "string option \<Rightarrow> string \<Rightarrow> tunnel_patch \<Rightarrow> admin_reply http_result prog" where
  "rest_tunnels_update auth tunnel_id patch =
     tunnel_operation auth (\<lambda>_.
       ReadAllowed (\<lambda>allowed.
       if tunnel_patch_is_empty patch then Done (Inl (BadRequest, ''PATCH needs a field of the tunnel''))
       else
         prog_try
           (Look (\<lambda>_ v. Done
              (and_then (find_tunnel tunnel_id (fst v)) (\<lambda>t.
               and_then (verify_session_access_in_snapshot allowed (tc_session_id t)) (\<lambda>_.
               let input = tunnel_patch_apply_to patch t in
               and_then (verify_session_access_in_snapshot allowed (tunnel_input.ti_session_id input)) (\<lambda>_.
               and_then (or_http map_err_500 (validate_tunnel_update tunnel_id input (fst v))) (\<lambda>_. Inr input)))))))
           (\<lambda>input.
              prog_try (stop_tunnel tunnel_id None) (\<lambda>_.
              prog_try (change_http (ChTunnelUpdate tunnel_id input)) (\<lambda>snapshot.
              Note (ConfigChanged snapshot) (log_ok ''rest/tunnels.update'' tunnel_id (reply_tunnels snapshot)))))))"

definition rest_tunnels_delete :: "string option \<Rightarrow> string \<Rightarrow> admin_reply http_result prog" where
  "rest_tunnels_delete auth tunnel_id =
     tunnel_operation auth (\<lambda>_.
       ReadAllowed (\<lambda>allowed.
       prog_try
         (Look (\<lambda>_ v. Done
            (and_then (find_tunnel tunnel_id (fst v)) (\<lambda>t.
             verify_session_access_in_snapshot allowed (tc_session_id t)))))
         (\<lambda>_.
            prog_try (stop_tunnel tunnel_id None) (\<lambda>_.
            prog_try (change_http (ChTunnelDelete tunnel_id)) (\<lambda>snapshot.
            Note (ConfigChanged snapshot) (log_ok ''rest/tunnels.delete'' tunnel_id (reply_tunnels snapshot)))))))"

definition allowed_now :: "string \<Rightarrow> unit http_result prog" where
  "allowed_now session_id = ReadAllowed (\<lambda>allowed. Done (verify_session_access (set allowed) session_id))"

definition no_longer_allowed :: "string \<Rightarrow> http_status \<times> string" where
  "no_longer_allowed session_id = (Forbidden, ''session '' @ session_id @ '' is no longer allowed'')"

definition rest_tunnels_start :: "string option \<Rightarrow> string \<Rightarrow> admin_reply http_result prog" where
  "rest_tunnels_start auth tunnel_id =
     prog_try (require_key auth) (\<lambda>_.
     with_lock TunnelOperation Exclusive
       (prog_try (require_key auth) (\<lambda>_.
        prog_try (Look (\<lambda>_ v. Done (find_tunnel tunnel_id (fst v)))) (\<lambda>t.
        prog_try (allowed_now (tc_session_id t)) (\<lambda>_.
        prog_try (Look (\<lambda>_ v. Done
            (map_sum (\<lambda>_. (StatusNotFound, ''no session '' @ tc_session_id t)) id (ensure_session_exists (tc_session_id t) (fst v))))) (\<lambda>_.
        prog_try (with_lock ConnectionGate Shared
            (Look (\<lambda>_ v. Done (or_http map_err_500 (build_session_for_connect (fst v) (tc_session_id t)))))) (\<lambda>(s, known_host).
        prog_try (Ask (CallApiConnect s known_host) (\<lambda>a. Done (or_http map_err_500 (an_result a)))) (\<lambda>_.
        prog_seq (allowed_now (tc_session_id t)) (\<lambda>still.
          case still of
            Inl _ \<Rightarrow> prog_seq (ask_unit (CallApiDisconnect (tc_session_id t))) (\<lambda>_.
                        Done (Inl (no_longer_allowed (tc_session_id t))))
          | Inr _ \<Rightarrow>
              prog_seq (read_store (\<lambda>st. session_matches_current_connection_config st s)) (\<lambda>valid.
                if valid \<noteq> Inr True
                then prog_seq (ask_unit (CallApiDisconnect (tc_session_id t))) (\<lambda>_.
                       Done (Inl (StatusConflict, ''the session configuration has changed, try again'')))
                else
                  prog_try (Ask (CallStartForward t Automation) (\<lambda>a. Done (or_http map_err_500 (an_forward a)))) (\<lambda>info.
                  prog_seq (allowed_now (tc_session_id t)) (\<lambda>after.
                    case after of
                      Inl _ \<Rightarrow>
                        prog_seq (ask_unit (CallStopForwards (tc_id t) (Some Automation))) (\<lambda>_.
                        prog_seq (ask_unit (CallApiDisconnect (tc_session_id t))) (\<lambda>_.
                          Done (Inl (no_longer_allowed (tc_session_id t)))))
                    | Inr _ \<Rightarrow> log_ok ''rest/tunnels.start'' tunnel_id (Done (Inr (Forwarding info)))))))))))))))"

definition rest_tunnels_stop :: "string option \<Rightarrow> string \<Rightarrow> admin_reply http_result prog" where
  "rest_tunnels_stop auth tunnel_id =
     prog_try (require_key auth) (\<lambda>_.
     with_lock TunnelOperation Exclusive
       (prog_try (require_key auth) (\<lambda>_.
        prog_try (Look (\<lambda>_ v. Done (find_tunnel tunnel_id (fst v)))) (\<lambda>t.
        prog_try (allowed_now (tc_session_id t)) (\<lambda>_.
        prog_try (stop_tunnel (tc_id t) (Some Automation)) (\<lambda>_.
          log_ok ''rest/tunnels.stop'' tunnel_id (Done (Inr Stopped))))))))"

section \<open>Backups\<close>

definition rest_backup_settings_get :: "string option \<Rightarrow> admin_reply http_result prog" where
  "rest_backup_settings_get auth =
     prog_try (require_key auth) (\<lambda>_.
     Look (\<lambda>_ v. Done (map_sum id (\<lambda>b. BackupConfig (redact_backup_settings b))
                         (or_http map_err_500 (vault_backup_settings (fst v))))))"

text \<open>What the change of the settings is computed from: the settings sent, or a patch of the current ones. The JSON
  encoding of the settings is a parameter.\<close>

datatype settings_mutation = ReplaceSettings backup_settings | PatchSettings json

record settings_codec =
  cd_encode :: "backup_settings \<Rightarrow> json"
  cd_decode :: "json \<Rightarrow> string + backup_settings"

function merge_json_patch :: "json \<Rightarrow> json \<Rightarrow> json"
  and merge_json_fields :: "(string \<times> json) list \<Rightarrow> (string \<times> json) list \<Rightarrow> (string \<times> json) list" where
  "merge_json_patch target (JObj patch) =
     JObj (merge_json_fields (case target of JObj members \<Rightarrow> members | _ \<Rightarrow> []) patch)"
| "merge_json_patch target JNull = JNull"
| "merge_json_patch target (JBool b) = JBool b"
| "merge_json_patch target (JNum n) = JNum n"
| "merge_json_patch target (JStr s) = JStr s"
| "merge_json_patch target (JArr xs) = JArr xs"
| "merge_json_fields members [] = members"
| "merge_json_fields members ((key, v) # rest) =
     merge_json_fields
       (if v = JNull then filter (\<lambda>(k, _). k \<noteq> key) members
        else AList.update key (merge_json_patch (case map_of members key of Some old \<Rightarrow> old | None \<Rightarrow> JNull) v) members)
       rest"
  by pat_completeness auto
termination
  by (relation "measure (\<lambda>x. case x of Inl (_, p) \<Rightarrow> 2 * size p | Inr (_, fs) \<Rightarrow> 2 * size_list (size_prod (\<lambda>_. 0) size) fs + 1)") auto

definition effective_settings ::
  "settings_codec \<Rightarrow> settings_mutation \<Rightarrow> backup_settings \<Rightarrow> backup_settings app_result" where
  "effective_settings codec mutation current =
     and_then
       (case mutation of
          ReplaceSettings backup \<Rightarrow> Inr backup
        | PatchSettings patch \<Rightarrow>
            (case cd_decode codec (merge_json_patch (cd_encode codec current) patch) of
               Inl e \<Rightarrow> Inl (InvalidInput (''invalid PATCH of the backup settings: '' @ e))
             | Inr backup \<Rightarrow> Inr backup))
       (\<lambda>backup. Inr (preserve_blank_backup_secrets backup current))"

text \<open>The lock of the backups comes before the mutation, the key is checked again inside both.\<close>

definition backup_operation :: "string option \<Rightarrow> (ticket_value \<Rightarrow> 'a http_result prog) \<Rightarrow> 'a http_result prog" where
  "backup_operation auth body =
     prog_try (require_key auth) (\<lambda>_. Epoch (\<lambda>ticket. with_lock BackupOperation Exclusive (body ticket)))"

definition mutate_backup_settings ::
  "settings_codec \<Rightarrow> string option \<Rightarrow> settings_mutation \<Rightarrow> string \<Rightarrow> admin_reply http_result prog" where
  "mutate_backup_settings codec auth mutation log_action =
     backup_operation auth (\<lambda>ticket.
       prog_try
         (mutation_guarded_as map_config_mutation_error ticket
            (prog_try (require_key auth) (\<lambda>_.
               Change (\<lambda>st. and_then (vault_backup_settings st) (\<lambda>current.
                        and_then (effective_settings codec mutation current) (\<lambda>backup. Inr (ChBackup backup))))
                 (\<lambda>st r. Done (or_http map_config_mutation_error
                    (and_then (vault_backup_settings st) (\<lambda>current.
                     and_then (effective_settings codec mutation current) (\<lambda>backup.
                     and_then r (\<lambda>(snapshot, targets). Inr (snapshot, redact_backup_settings backup, targets))))))))))
         (\<lambda>(snapshot, response, targets).
            prog_seq (ask_all CallRemoveTarget targets) (\<lambda>_.
              Note (ConfigChanged snapshot) (log_ok log_action ''OK'' (Done (Inr (BackupConfig response)))))))"

definition rest_backup_settings_update ::
  "settings_codec \<Rightarrow> string option \<Rightarrow> backup_settings \<Rightarrow> admin_reply http_result prog" where
  "rest_backup_settings_update codec auth backup =
     mutate_backup_settings codec auth (ReplaceSettings backup) ''rest/backup.settings.update''"

fun json_object :: "json \<Rightarrow> (string \<times> json) list option" where
  "json_object (JObj members) = Some members"
| "json_object _ = None"

definition validate_patch_keys :: "(string \<times> json) list \<Rightarrow> string list \<Rightarrow> string \<Rightarrow> string + unit" where
  "validate_patch_keys members allowed loc =
     (case List.find (\<lambda>key. key \<notin> set allowed) (map fst members) of
        Some key \<Rightarrow> Inl (loc @ '' has an unknown field '' @ key)
      | None \<Rightarrow> Inr ())"

definition json_member :: "string \<Rightarrow> (string \<times> json) list \<Rightarrow> (string \<times> json) list option" where
  "json_member key members = Option.bind (map_of members key) json_object"

definition when_member :: "string \<Rightarrow> (string \<times> json) list \<Rightarrow> ((string \<times> json) list \<Rightarrow> string + unit) \<Rightarrow> string + unit" where
  "when_member key members check = (case json_member key members of None \<Rightarrow> Inr () | Some inner \<Rightarrow> check inner)"

definition validate_backup_settings_patch :: "json \<Rightarrow> string + unit" where
  "validate_backup_settings_patch patch =
     (case json_object patch of
        None \<Rightarrow> Inl ''the PATCH body must be an object''
      | Some members \<Rightarrow>
          if members = [] then Inl ''the PATCH needs a field''
          else
            and_then (validate_patch_keys members
              [''localDirectory'', ''autoEnabled'', ''frequency'', ''retentionCount'', ''retentionDays'', ''cloud''] ''backup'') (\<lambda>_.
            when_member ''cloud'' members (\<lambda>cloud.
              and_then (validate_patch_keys cloud [''enabled'', ''autoEnabled'', ''kind'', ''webdav'', ''s3''] ''backup.cloud'') (\<lambda>_.
              and_then (when_member ''webdav'' cloud (\<lambda>webdav.
                validate_patch_keys webdav [''endpoint'', ''username'', ''password'', ''remotePath''] ''backup.cloud.webdav'')) (\<lambda>_.
              when_member ''s3'' cloud (\<lambda>s3.
                validate_patch_keys s3 [''endpoint'', ''region'', ''bucket'', ''accessKeyId'', ''secretAccessKey'', ''prefix'',
                  ''pathStyle''] ''backup.cloud.s3''))))))"

definition rest_backup_settings_patch ::
  "settings_codec \<Rightarrow> string option \<Rightarrow> json \<Rightarrow> admin_reply http_result prog" where
  "rest_backup_settings_patch codec auth patch =
     (if json_object patch = None then Done (Inl (BadRequest, ''the PATCH body must be an object''))
      else case validate_backup_settings_patch patch of
        Inl e \<Rightarrow> Done (Inl (BadRequest, e))
      | Inr _ \<Rightarrow> mutate_backup_settings codec auth (PatchSettings patch) ''rest/backup.settings.patch'')"

definition rest_backup_records_list :: "string option \<Rightarrow> admin_reply http_result prog" where
  "rest_backup_records_list auth =
     prog_try (require_key auth) (\<lambda>_.
     Look (\<lambda>_ v. Done (map_sum id BackupRecords (or_http map_err_500 (vault_backup_records (fst v))))))"

definition rest_backup_run :: "string option \<Rightarrow> admin_reply http_result prog" where
  "rest_backup_run auth =
     backup_operation auth (\<lambda>ticket.
       prog_try
         (mutation_guarded_as map_config_mutation_error ticket
            (prog_try (require_key auth) (\<lambda>_. Look (\<lambda>_ v. Done (or_http map_err_500 (plan_backup_run (fst v))))))) (\<lambda>plan.
       prog_try (prog_seq (run_backup_plan plan None False) (\<lambda>r. Done (or_http map_err_500 r))) (\<lambda>(outcomes, records).
       prog_try
         (mutation_guarded_as map_config_mutation_error ticket
            (Change (\<lambda>_. Inr (ChRecords records)) (\<lambda>_ r. Done (or_http map_config_mutation_error r)))) (\<lambda>(snapshot, targets).
       Note (ConfigChanged snapshot)
         (prog_seq (ask_all CallRemoveTarget targets) (\<lambda>_.
            log_ok ''rest/backup.run'' ''OK'' (Done (Inr (BackupRecords outcomes)))))))))"

definition rest_backup_record_delete :: "string option \<Rightarrow> string \<Rightarrow> bool \<Rightarrow> admin_reply http_result prog" where
  "rest_backup_record_delete auth record_id delete_file =
     backup_operation auth (\<lambda>ticket.
       prog_try
         (mutation_guarded_as map_config_mutation_error ticket
            (prog_try (require_key auth) (\<lambda>_.
               Change (\<lambda>_. Inr (ChRecordDelete record_id delete_file))
                 (\<lambda>_ r. Done (or_http map_config_mutation_error r))))) (\<lambda>(snapshot, targets).
       prog_seq (ask_all CallRemoveTarget targets) (\<lambda>_.
       Note (ConfigChanged snapshot)
         (log_ok ''rest/backup.record.delete'' record_id
            (Done (Inr (BackupRecords (vd_backup_records (cs_data snapshot)))))))))"

section \<open>What a request may do\<close>

text \<open>A request changes nothing but tunnels, backup settings and backup records, and only with a key that was right
  within the lock of its operation. A tunnel it creates, moves or deletes belongs, before and after, to sessions
  allowed while it held the mutation gate. Backup settings keep the secrets the request left blank.\<close>

definition key_right :: "string option \<Rightarrow> ctx \<Rightarrow> bool" where
  "key_right auth c \<longleftrightarrow> (\<exists>key. cx_key c = Some key \<and> verify_auth auth key = Inr ())"

definition api_policy :: "string option \<Rightarrow> ctx \<Rightarrow> vault_store \<Rightarrow> vault_change \<Rightarrow> bool" where
  "api_policy auth c st ch \<longleftrightarrow>
     key_right auth c
     \<and> (case ch of
          ChTunnelCreate input \<Rightarrow> \<exists>ids. cx_allowed c = Some ids \<and> tunnel_input.ti_session_id input \<in> set ids
        | ChTunnelUpdate i input \<Rightarrow>
            \<exists>ids t. cx_allowed c = Some ids \<and> find_tunnel i st = Inr t
              \<and> tc_session_id t \<in> set ids \<and> tunnel_input.ti_session_id input \<in> set ids
        | ChTunnelDelete i \<Rightarrow> \<exists>ids t. cx_allowed c = Some ids \<and> find_tunnel i st = Inr t \<and> tc_session_id t \<in> set ids
        | ChBackup b \<Rightarrow> \<exists>incoming current. vault_backup_settings st = Inr current
              \<and> b = preserve_blank_backup_secrets incoming current
        | ChRecords _ \<Rightarrow> True
        | ChRecordDelete _ _ \<Rightarrow> True
        | _ \<Rightarrow> False)"

definition no_secrets :: "backup_settings \<Rightarrow> bool" where
  "no_secrets b \<longleftrightarrow> wd_password (cb_webdav (bs_cloud b)) = [] \<and> s3_secret_access_key (cb_s3 (bs_cloud b)) = []"

definition api_outcome :: "string option \<Rightarrow> ctx \<Rightarrow> admin_reply http_result \<Rightarrow> bool" where
  "api_outcome auth c reply \<longleftrightarrow>
     (case reply of
        Inl _ \<Rightarrow> True
      | Inr r \<Rightarrow>
          key_right auth c
          \<and> (case r of
               Tunnels ts \<Rightarrow> \<exists>ids. cx_allowed c = Some ids \<and> (\<forall>t\<in>set ts. tc_session_id t \<in> set ids)
             | BackupConfig b \<Rightarrow> no_secrets b
             | _ \<Rightarrow> True))"

lemma map_sum_Inr_iff: "map_sum f g r = Inr x \<longleftrightarrow> (\<exists>y. r = Inr y \<and> x = g y)"
  by (cases r) auto

lemma redacted [simp]: "no_secrets (redact_backup_settings b)"
  by (simp add: no_secrets_def redact_backup_settings_def)

lemma outcome_error [simp]: "api_outcome auth c (Inl e)"
  by (simp add: api_outcome_def)

abbreviation admitted :: "string option \<Rightarrow> admin_reply http_result prog \<Rightarrow> ctx \<Rightarrow> bool" where
  "admitted auth p c \<equiv> obeys p (api_policy auth) (\<lambda>c' x. free c' \<and> api_outcome auth c' x) c"

lemmas admin_defs = require_key_def log_ok_def reply_tunnels_def tunnel_operation_def change_http_def stop_tunnel_def
  allowed_now_def backup_operation_def key_right_def verify_session_access_in_snapshot_def

lemma admitted_tunnels_list: "free c \<Longrightarrow> admitted auth (rest_tunnels_list auth) c"
  by (auto simp: rest_tunnels_list_def admin_defs order_defs allowed_tunnels_def tunnel_allowed_def api_outcome_def
      split: order_splits)

lemma admitted_tunnels_create: "free c \<Longrightarrow> admitted auth (rest_tunnels_create auth input) c"
  by (auto simp: rest_tunnels_create_def admin_defs order_defs allowed_tunnels_def tunnel_allowed_def api_outcome_def
      api_policy_def or_http_def split: order_splits)

lemma admitted_tunnels_update: "free c \<Longrightarrow> admitted auth (rest_tunnels_update auth i patch) c"
  by (auto simp: rest_tunnels_update_def admin_defs order_defs allowed_tunnels_def tunnel_allowed_def api_outcome_def
      api_policy_def or_http_def Let_def may_see_def and_then_Inr_iff split: order_splits)

lemma admitted_tunnels_delete: "free c \<Longrightarrow> admitted auth (rest_tunnels_delete auth i) c"
  by (auto simp: rest_tunnels_delete_def admin_defs order_defs allowed_tunnels_def tunnel_allowed_def api_outcome_def
      api_policy_def or_http_def may_see_def and_then_Inr_iff split: order_splits)

lemma admitted_tunnels_start: "free c \<Longrightarrow> admitted auth (rest_tunnels_start auth i) c"
  by (auto simp: rest_tunnels_start_def admin_defs order_defs api_outcome_def split: order_splits)

lemma admitted_tunnels_stop: "free c \<Longrightarrow> admitted auth (rest_tunnels_stop auth i) c"
  by (auto simp: rest_tunnels_stop_def admin_defs order_defs api_outcome_def split: order_splits)

lemma admitted_backup_reads:
  "free c \<Longrightarrow> admitted auth (rest_backup_settings_get auth) c"
  "free c \<Longrightarrow> admitted auth (rest_backup_records_list auth) c"
  by (auto simp: rest_backup_settings_get_def rest_backup_records_list_def admin_defs order_defs api_outcome_def
      map_sum_Inr_iff split: order_splits)

lemma effective_preserves:
  "effective_settings codec m current = Inr b \<Longrightarrow> \<exists>incoming. b = preserve_blank_backup_secrets incoming current"
  by (auto simp: effective_settings_def and_then_Inr_iff)

lemma admitted_mutate_settings: "free c \<Longrightarrow> admitted auth (mutate_backup_settings codec auth m a) c"
  by (auto simp: mutate_backup_settings_def admin_defs order_defs api_outcome_def api_policy_def or_http_def and_then_Inr_iff
      map_sum_Inr_iff dest: effective_preserves split: order_splits)

lemma admitted_backup_settings:
  "free c \<Longrightarrow> admitted auth (rest_backup_settings_update codec auth b) c"
  "free c \<Longrightarrow> admitted auth (rest_backup_settings_patch codec auth patch) c"
  unfolding rest_backup_settings_update_def rest_backup_settings_patch_def
  by (simp_all add: admitted_mutate_settings split: sum.split)

lemma admitted_backup_run: "free c \<Longrightarrow> admitted auth (rest_backup_run auth) c"
  by (auto simp: rest_backup_run_def run_backup_plan_def admin_defs order_defs api_outcome_def api_policy_def or_http_def
      split: order_splits)

lemma admitted_record_delete: "free c \<Longrightarrow> admitted auth (rest_backup_record_delete auth i d) c"
  by (auto simp: rest_backup_record_delete_def admin_defs order_defs api_outcome_def api_policy_def or_http_def
      split: order_splits)

end
