(* ===== verification/App_System.thy ===== *)
theory App_System
  imports Api_Admin
begin

text \<open>
  The whole: any number of commands of the interface and requests for tunnels and backups, started at any time, run
  beside each other on one vault and one set of locks.
\<close>

section \<open>The tasks\<close>

datatype task_kind = Interface | Request "string option"

datatype task_result = CommandDone | Replied "admin_reply http_result"

definition run_command :: "'a prog \<Rightarrow> task_result prog" where
  "run_command p = prog_seq p (\<lambda>_. Done CommandDone)"

definition run_request :: "admin_reply http_result prog \<Rightarrow> task_result prog" where
  "run_request p = prog_seq p (\<lambda>r. Done (Replied r))"

inductive interface_command :: "task_result prog \<Rightarrow> bool" where
  "interface_command (run_command (group_create group_in))"
| "interface_command (run_command (group_update i group_in))"
| "interface_command (run_command (group_delete i))"
| "interface_command (run_command (session_create session_in))"
| "interface_command (run_command (session_update i session_in))"
| "interface_command (run_command (session_favorite_update i b))"
| "interface_command (run_command (session_mark_recent i))"
| "interface_command (run_command (session_clear_recent i))"
| "interface_command (run_command (session_delete i))"
| "interface_command (run_command (connect_session i))"
| "interface_command (run_command (ssh_connect i))"
| "interface_command (run_command (ssh_disconnect i))"
| "interface_command (run_command (ssh_trust_host_key i host port algorithm fingerprint))"
| "interface_command (run_command (tunnel_create tunnel_in))"
| "interface_command (run_command (tunnel_update i tunnel_in))"
| "interface_command (run_command (tunnel_delete i))"
| "interface_command (run_command (tunnel_set_enabled i b))"
| "interface_command (run_command (restore_tunnels_after_connect connection))"
| "interface_command (run_command (forward_start i options tunnel))"
| "interface_command (run_command (forward_stop_command i))"
| "interface_command (run_command forward_list_command)"
| "interface_command (run_command connection_list_command)"
| "interface_command (run_command vault_needs_migration)"
| "interface_command (run_command (vault_migrate_command password))"
| "interface_command (run_command vault_skip_migration)"
| "interface_command (run_command config_snapshot_command)"
| "interface_command (run_command (settings_proxy_update_command proxy))"
| "interface_command (run_command (settings_backup_update_command backup))"
| "interface_command (run_command (quick_command_upsert_command command))"
| "interface_command (run_command (quick_command_delete_command i))"
| "interface_command (run_command (settings_ai_api_update_command ids api_port b))"
| "interface_command (run_command (settings_ignore_update_version_command version))"
| "interface_command (run_command (connection_section_state_command ids))"
| "interface_command (run_command (vault_backup_export p))"
| "interface_command (run_command (vault_backup_import p))"
| "interface_command (run_command backup_run_now)"
| "interface_command (run_command (run_due_auto_backup parse_time now))"
| "interface_command (run_command (backup_record_restore i))"
| "interface_command (run_command (backup_record_delete i b))"
| "interface_command (run_command backup_records_clear)"
| "interface_command (run_command (api_server_configure_and_start server_port ids b))"
| "interface_command (run_command api_autostart_attempt)"
| "interface_command (run_command api_server_stop)"
| "interface_command (run_command api_server_status)"
| "interface_command (run_command api_server_regenerate_key)"
| "interface_command (run_command shutdown_runtime)"

inductive admin_request :: "string option \<Rightarrow> task_result prog \<Rightarrow> bool" for auth where
  "admin_request auth (run_request (rest_tunnels_list auth))"
| "admin_request auth (run_request (rest_tunnels_create auth tunnel_in))"
| "admin_request auth (run_request (rest_tunnels_update auth i patch))"
| "admin_request auth (run_request (rest_tunnels_delete auth i))"
| "admin_request auth (run_request (rest_tunnels_start auth i))"
| "admin_request auth (run_request (rest_tunnels_stop auth i))"
| "admin_request auth (run_request (rest_backup_settings_get auth))"
| "admin_request auth (run_request (rest_backup_settings_update codec auth backup))"
| "admin_request auth (run_request (rest_backup_settings_patch codec auth json))"
| "admin_request auth (run_request (rest_backup_records_list auth))"
| "admin_request auth (run_request (rest_backup_run auth))"
| "admin_request auth (run_request (rest_backup_record_delete auth i b))"

definition app_programs :: "task_kind \<Rightarrow> task_result prog set" where
  "app_programs \<kappa> =
     (case \<kappa> of Interface \<Rightarrow> Collect interface_command | Request auth \<Rightarrow> Collect (admin_request auth))"

definition app_policy :: "task_kind \<Rightarrow> ctx \<Rightarrow> vault_store \<Rightarrow> vault_change \<Rightarrow> bool" where
  "app_policy \<kappa> = (case \<kappa> of Interface \<Rightarrow> (\<lambda>_ _ _. True) | Request auth \<Rightarrow> api_policy auth)"

definition app_outcome :: "task_kind \<Rightarrow> ctx \<Rightarrow> task_result \<Rightarrow> bool" where
  "app_outcome \<kappa> c r =
     (case \<kappa> of
        Interface \<Rightarrow> True
      | Request auth \<Rightarrow> (case r of CommandDone \<Rightarrow> False | Replied x \<Rightarrow> api_outcome auth c x))"

section \<open>All keep the discipline\<close>

lemmas config_commands = group_create_def group_update_def group_delete_def session_create_def
  session_favorite_update_def session_mark_recent_def session_clear_recent_def ssh_trust_host_key_def
  quick_command_upsert_command_def quick_command_delete_command_def settings_ignore_update_version_command_def
  connection_section_state_command_def

lemma command_orderly: "interface_command p \<Longrightarrow> orderly p cx_start"
  by (induction rule: interface_command.induct)
     (simp_all add: run_command_def config_commands backup_run_now_def free_start orderly_config orderly_configure
        orderly_autostart orderly_api_server orderly_session_update orderly_session_delete orderly_connect
        orderly_tunnels orderly_forwards orderly_backups orderly_due orderly_import orderly_restore orderly_vault)

lemma request_admitted:
  "admin_request auth p \<Longrightarrow>
   obeys p (api_policy auth) (\<lambda>c r. free c \<and> (\<exists>x. r = Replied x \<and> api_outcome auth c x)) cx_start"
  by (induction rule: admin_request.induct)
     (simp_all add: run_request_def free_start admitted_tunnels_list admitted_tunnels_create admitted_tunnels_update
        admitted_tunnels_delete admitted_tunnels_start admitted_tunnels_stop admitted_backup_reads
        admitted_backup_settings admitted_backup_run admitted_record_delete)

interpretation app: task_system app_policy app_outcome app_programs
proof
  fix p \<kappa> assume p: "p \<in> app_programs \<kappa>"
  show "obeys p (app_policy \<kappa>) (\<lambda>c x. cx_held c = (\<lambda>_. None) \<and> app_outcome \<kappa> c x) cx_start"
  proof (cases \<kappa>)
    case Interface
    then have "interface_command p" using p by (simp add: app_programs_def)
    from obeys_mono [OF command_orderly [OF this]] show ?thesis
      by (simp add: app_policy_def Interface app_outcome_def free_def)
  next
    case (Request auth)
    then have "admin_request auth p" using p by (simp add: app_programs_def)
    have "obeys p (api_policy auth) (\<lambda>c x. cx_held c = (\<lambda>_. None) \<and> app_outcome \<kappa> c x) cx_start"
      by (rule obeys_mono [OF request_admitted [OF \<open>admin_request auth p\<close>]]) (auto simp: app_outcome_def Request free_def)
    then show ?thesis by (simp add: app_policy_def Request)
  qed
qed

section \<open>No deadlock\<close>

text \<open>A run for the witnesses: the reset of an empty workspace, from its arrival to its change.\<close>

definition demo_app :: "(nat \<times> lock \<times> access) list \<Rightarrow> ticket_value \<Rightarrow> ctx \<Rightarrow> task_result prog \<Rightarrow> (task_kind, task_result) app" where
  "demo_app waiting epoch c p =
     \<lparr>ap_shared = \<lparr>sh_vault = demo_start, sh_epoch = epoch, sh_key = ''k'', sh_allowed = []\<rparr>,
      ap_waiting = waiting, ap_tasks = [(Interface, c, p)]\<rparr>"

definition reset_rest :: "vault_store \<Rightarrow> changed app_result \<Rightarrow> task_result prog" where
  "reset_rest st r =
     prog_seq (prog_seq (prog_try (Done (map_sum id fst r)) (\<lambda>snapshot.
         prog_seq (ask_unit CallClearMigration) (\<lambda>_. Done (Inr snapshot))))
         (\<lambda>r. Bump (Release MutationGate (Done r))))
       (\<lambda>_. Done CommandDone)"

lemma demo_reset_task:
  "run_command vault_skip_migration =
     Acquire MutationGate Exclusive (Bump (Change (\<lambda>_. Inr ChReset) reset_rest))"
  by (simp add: run_command_def vault_skip_migration_def replacement_guarded_def change_store_def prog_try_def
      reset_rest_def fun_eq_iff)

lemma demo_arrived: "app_reachable app_programs (demo_app [] 0 cx_start (run_command vault_skip_migration))"
proof -
  let ?s = "\<lparr>ap_shared = \<lparr>sh_vault = demo_start, sh_epoch = 0, sh_key = ''k'', sh_allowed = []\<rparr>,
     ap_waiting = [], ap_tasks = []\<rparr>"
  have "run_command vault_skip_migration \<in> app_programs Interface"
    by (simp add: app_programs_def interface_command.intros)
  then have "app_step app_programs ?s (demo_app [] 0 cx_start (run_command vault_skip_migration))"
    using app_step.arrive [where P = app_programs and \<kappa> = Interface and s = ?s] by (simp add: demo_app_def)
  from app_reachable.step [OF app_reachable.start this] show ?thesis .
qed

lemma demo_changing:
  "app_reachable app_programs (demo_app [] 1 (on_bump (on_acquire MutationGate Exclusive cx_start))
     (Change (\<lambda>_. Inr ChReset) reset_rest))"
proof -
  let ?rest = "Change (\<lambda>_. Inr ChReset) reset_rest"
  let ?a = "demo_app [] 0 cx_start (run_command vault_skip_migration)"
  let ?b = "demo_app [(0, MutationGate, Exclusive)] 0 cx_start (run_command vault_skip_migration)"
  let ?c = "demo_app [] 0 (on_acquire MutationGate Exclusive cx_start) (Bump ?rest)"
  have "task_advances 0 ?a ?b"
    using task_advances.queue [of 0 ?a Interface cx_start MutationGate Exclusive "Bump ?rest"]
    by (simp add: demo_app_def demo_reset_task)
  from app_reachable.step [OF demo_arrived app_step.of_task [OF this]]
  have b: "app_reachable app_programs ?b" .
  have "task_advances 0 ?b ?c"
    using task_advances.grant [of 0 ?b Interface cx_start MutationGate Exclusive "Bump ?rest" "[]" "[]"]
    by (simp add: demo_app_def demo_reset_task available_def held_by_def cx_start_def)
  from app_reachable.step [OF b app_step.of_task [OF this]]
  have c: "app_reachable app_programs ?c" .
  have "task_advances 0 ?c (demo_app [] 1 (on_bump (on_acquire MutationGate Exclusive cx_start)) ?rest)"
    using task_advances.run [OF _ _ local_step.bump [of _ _ ?rest], of 0 ?c Interface "on_acquire MutationGate Exclusive cx_start"]
    by (simp add: demo_app_def)
  from app_reachable.step [OF c app_step.of_task [OF this]] show ?thesis .
qed

text \<open>C@: whatever commands and requests are running, in whatever state they have brought each other: as long as one of
  them is not done, some task can go on, so they never wait for each other in a circle; and a task that is done
  has given back every lock.\<close>

theorem app_never_deadlocks:
  assumes "app_reachable app_programs s"
  shows "(\<forall>i. unfinished s i \<longrightarrow> (\<exists>j s'. task_advances j s s'))
    \<and> (\<forall>i<length (ap_tasks s). \<not> unfinished s i \<longrightarrow> held_by s i = (\<lambda>_. None))"
proof -
  note inv = app.reachable_inv [OF assms]
  have "held_by s i = (\<lambda>_. None)" if i: "i < length (ap_tasks s)" "\<not> unfinished s i" for i
  proof -
    obtain \<kappa> c x where t: "ap_tasks s ! i = (\<kappa>, c, Done x)" using i by (auto simp: unfinished_def)
    from app.task_okD(1) [OF inv i(1) t] show ?thesis by (simp add: held_by_def t)
  qed
  with app.never_deadlocked [OF inv] show ?thesis by blast
qed

theorem app_never_deadlocks_witness:
  "\<exists>s. app_reachable app_programs s \<and> unfinished s 0 \<and> (\<exists>j s'. task_advances j s s')"
proof -
  let ?s = "demo_app [] 0 cx_start (run_command vault_skip_migration)"
  have "unfinished ?s 0" by (simp add: unfinished_def demo_app_def demo_reset_task)
  with app_never_deadlocks [OF demo_arrived] demo_arrived show ?thesis by blast
qed

section \<open>Changes of the configuration\<close>

lemma ctx_true_gate:
  assumes "ctx_true sh c" "cx_gate c \<noteq> Outside"
  shows "cx_held c MutationGate = Some Exclusive"
proof -
  obtain m where "cx_held c MutationGate = Some m" using assms by (auto simp: ctx_true_def)
  then show ?thesis using assms(1) by (cases m) (auto simp: ctx_true_def)
qed

lemma vault_changed_by:
  assumes "task_advances i s s'" "sh_vault (ap_shared s') \<noteq> sh_vault (ap_shared s)"
  obtains \<kappa> c f k ch io io2 r where "i < length (ap_tasks s)" "ap_tasks s ! i = (\<kappa>, c, Change f k)"
    "f (fst (sh_vault (ap_shared s))) = Inr ch"
    "apply_change io io2 ch (sh_vault (ap_shared s)) = (r, sh_vault (ap_shared s'))"
  using assms by (auto elim!: task_advances.cases local_step.cases)

text \<open>C@: the vault changes only in the step of a task that alone is inside the mutation gate, and that either replaces
  the configuration as a whole or still has the epoch it was accepted in; by one of the modelled operations on the
  vault as it then is.\<close>

theorem config_changes_alone:
  assumes "app_reachable app_programs s" "task_advances i s s'" "sh_vault (ap_shared s') \<noteq> sh_vault (ap_shared s)"
  shows "(\<exists>ch io io2 r. apply_change io io2 ch (sh_vault (ap_shared s)) = (r, sh_vault (ap_shared s')))
    \<and> held_by s i MutationGate = Some Exclusive
    \<and> (\<forall>j<length (ap_tasks s). j \<noteq> i \<longrightarrow> held_by s j MutationGate = None)
    \<and> (let c = fst (snd (ap_tasks s ! i)); epoch = sh_epoch (ap_shared s) in
       cx_gate c = Replacement \<or> (cx_ticket c = Some epoch \<and> even (unat epoch)))"
proof -
  note inv = app.reachable_inv [OF assms(1)]
  obtain \<kappa> c f k ch io io2 r where t: "i < length (ap_tasks s)" "ap_tasks s ! i = (\<kappa>, c, Change f k)"
    and a: "apply_change io io2 ch (sh_vault (ap_shared s)) = (r, sh_vault (ap_shared s'))"
    using assms(2,3) by (rule vault_changed_by)
  note ok = app.task_okD [OF inv t]
  have "held_by s i MutationGate = Some Exclusive"
    using ok ctx_true_gate [OF ok(2)] by (auto simp: held_by_def t)
  moreover have "\<forall>j<length (ap_tasks s). j \<noteq> i \<longrightarrow> held_by s j MutationGate = None"
  proof (intro allI impI)
    fix j assume j: "j < length (ap_tasks s)" "j \<noteq> i"
    obtain \<kappa>' c' p' where "ap_tasks s ! j = (\<kappa>', c', p')" by (metis prod.exhaust)
    with app.change_guarded(2) [OF inv t j this] show "held_by s j MutationGate = None" by (simp add: held_by_def)
  qed
  ultimately show ?thesis
    using a app.change_guarded(1) [OF inv t] by (auto simp: t(2) Let_def)
qed

theorem config_changes_alone_witness:
  "\<exists>s s'. app_reachable app_programs s \<and> task_advances 0 s s'
     \<and> sh_vault (ap_shared s') \<noteq> sh_vault (ap_shared s) \<and> held_by s 0 MutationGate = Some Exclusive"
proof -
  let ?c = "on_bump (on_acquire MutationGate Exclusive cx_start)"
  let ?s = "demo_app [] 1 ?c (Change (\<lambda>_. Inr ChReset) reset_rest)"
  obtain snap v where v: "vault_create demo_io AUTO_PASSWORD demo_start = (Inr snap, v)"
    using demo_auto_created by blast
  have "vs_unlocked (fst v) \<noteq> None"
    using v by (auto simp: vault_create_def Let_def split: prod.splits if_splits sum.splits)
  moreover have "vs_unlocked (fst demo_start) = None" by (simp add: demo_start_def vault_store_new_def)
  ultimately have diff: "v \<noteq> demo_start" by auto
  have "apply_change demo_io demo_io ChReset demo_start = (Inr (snap, []), v)"
    using v by (simp add: no_cleanup_def vault_reset_def Let_def demo_start_def vault_store_new_def)
  then have "local_step (ap_shared ?s) (?c, Change (\<lambda>_. Inr ChReset) reset_rest)
      ((ap_shared ?s)\<lparr>sh_vault := v\<rparr>) (on_look (fst v) ?c, reset_rest (fst demo_start) (Inr (snap, [])))"
    using local_step.change [of "\<lambda>_. Inr ChReset" "ap_shared ?s" ChReset demo_io demo_io "Inr (snap, [])" v ?c reset_rest]
    by (simp add: demo_app_def)
  from task_advances.run [OF _ _ this, of 0 Interface]
  obtain s' where step: "task_advances 0 ?s s'" and "sh_vault (ap_shared s') = v" by (auto simp: demo_app_def)
  moreover from this(2) have "sh_vault (ap_shared s') \<noteq> sh_vault (ap_shared ?s)" using diff by (simp add: demo_app_def)
  ultimately show ?thesis using config_changes_alone [OF demo_changing step] demo_changing by blast
qed

section \<open>What requests may do\<close>

text \<open>C@: a request for tunnels or backups changes only tunnels, backup settings and backup records. When it changes
  one, the key it read inside its lock was right, and the vault is still as the request saw it: the tunnel it
  creates, moves or deletes belongs, in the vault at that moment, to a session that was allowed when the request
  held the mutation gate, and so does the session it moves it to; backup settings keep the secrets the request left
  blank. What it answers lists only tunnels of sessions allowed when it last looked, and no secret.\<close>

theorem admin_requests_confined:
  assumes "app_reachable app_programs s" "i < length (ap_tasks s)" "ap_tasks s ! i = (Request auth, c, p)"
  shows "(\<forall>f k ch. p = Change f k \<longrightarrow> f (fst (sh_vault (ap_shared s))) = Inr ch \<longrightarrow>
       api_policy auth c (fst (sh_vault (ap_shared s))) ch)
    \<and> (\<forall>r. p = Done r \<longrightarrow> (\<exists>x. r = Replied x \<and> api_outcome auth c x))"
proof -
  note inv = app.reachable_inv [OF assms(1)]
  have "api_policy auth c (fst (sh_vault (ap_shared s))) ch"
    if "p = Change f k" "f (fst (sh_vault (ap_shared s))) = Inr ch" for f k ch
    using app.change_guarded(3) [OF inv assms(2) assms(3) [unfolded that(1)] that(2)] by (simp add: app_policy_def)
  moreover have "\<exists>x. r = Replied x \<and> api_outcome auth c x" if "p = Done r" for r
    using app.outcome_holds [OF inv assms(2) assms(3) [unfolded that]]
    by (auto simp: app_outcome_def split: task_result.splits)
  ultimately show ?thesis by blast
qed

text \<open>A request for the backup settings of an empty workspace, with the right key.\<close>

definition demo_asked :: "ctx \<Rightarrow> task_result prog \<Rightarrow> (task_kind, task_result) app" where
  "demo_asked c p =
     \<lparr>ap_shared = \<lparr>sh_vault = demo_start, sh_epoch = 0, sh_key = ''k'', sh_allowed = []\<rparr>,
      ap_waiting = [], ap_tasks = [(Request (Some ''Bearer k''), c, p)]\<rparr>"

lemma demo_asked_step:
  assumes "app_reachable app_programs (demo_asked c p)"
    and "local_step \<lparr>sh_vault = demo_start, sh_epoch = 0, sh_key = ''k'', sh_allowed = []\<rparr> (c, p)
           \<lparr>sh_vault = demo_start, sh_epoch = 0, sh_key = ''k'', sh_allowed = []\<rparr> (c', p')"
  shows "app_reachable app_programs (demo_asked c' p')"
proof -
  have "task_advances 0 (demo_asked c p) (demo_asked c' p')"
    using task_advances.run [where i = 0 and s = "demo_asked c p" and \<kappa> = "Request (Some ''Bearer k'')" and c = c and p = p]
      assms(2) by (force simp: demo_asked_def)
  from app_reachable.step [OF assms(1) app_step.of_task [OF this]] show ?thesis .
qed

theorem admin_requests_confined_witness:
  "\<exists>s x. app_reachable app_programs s
     \<and> ap_tasks s ! 0 = (Request (Some ''Bearer k''), cx_start\<lparr>cx_key := Some ''k''\<rparr>, Done (Replied x))
     \<and> api_outcome (Some ''Bearer k'') (cx_start\<lparr>cx_key := Some ''k''\<rparr>) x"
proof -
  let ?auth = "Some ''Bearer k''"
  let ?p = "run_request (rest_backup_settings_get ?auth)"
  let ?s = "\<lparr>ap_shared = \<lparr>sh_vault = demo_start, sh_epoch = 0, sh_key = ''k'', sh_allowed = []\<rparr>,
     ap_waiting = [], ap_tasks = []\<rparr>"
  have ok: "verify_auth ?auth ''k'' = Inr ()" by code_simp
  have "?p \<in> app_programs (Request ?auth)" by (simp add: app_programs_def admin_request.intros)
  then have "app_step app_programs ?s (demo_asked cx_start ?p)"
    using app_step.arrive [where P = app_programs and \<kappa> = "Request ?auth" and s = ?s] by (simp add: demo_asked_def)
  from app_reachable.step [OF app_reachable.start this]
  have a: "app_reachable app_programs (demo_asked cx_start ?p)" .
  obtain k where p: "?p = ReadKey k" "k ''k'' = Look (\<lambda>_ v. Done (Replied
      (map_sum id (\<lambda>b. BackupConfig (redact_backup_settings b)) (or_http map_err_500 (vault_backup_settings (fst v))))))"
    using ok by (simp add: run_request_def rest_backup_settings_get_def prog_try_def require_key_def)
  let ?c = "cx_start\<lparr>cx_key := Some ''k''\<rparr>"
  have b: "app_reachable app_programs (demo_asked ?c (k ''k''))"
    using demo_asked_step [OF a, unfolded p(1)]
      local_step.key [of "\<lparr>sh_vault = demo_start, sh_epoch = 0, sh_key = ''k'', sh_allowed = []\<rparr>" cx_start k]
    by simp
  obtain x where "app_reachable app_programs (demo_asked ?c (Done (Replied x)))"
    using demo_asked_step [OF b [unfolded p(2)] local_step.look] by (auto simp: on_look_def cx_start_def)
  moreover from this have "api_outcome ?auth ?c x"
    using admin_requests_confined [of "demo_asked ?c (Done (Replied x))" 0 ?auth ?c "Done (Replied x)"]
    by (simp add: demo_asked_def)
  ultimately show ?thesis by (intro exI [of _ "demo_asked ?c (Done (Replied x))"]) (auto simp: demo_asked_def)
qed

end
