(* ===== verification/Api_Settings.thy ===== *)
theory Api_Settings
  imports Api_Admin
begin

text \<open>
  Backup settings over the HTTP interface: what a client reads, patches and sends back
  (\<open>merge\_json\_patch\<close>, \<open>redact\_backup\_settings\<close>, \<open>preserve\_blank\_backup\_secrets\<close> in
  \<open>api\_server/handlers\_admin.rs\<close>).
\<close>

section \<open>Merging a patch\<close>

lemma map_of_filter_key: "map_of (filter (\<lambda>(k, _). k \<noteq> key) xs) k = (if k = key then None else map_of xs k)"
  by (induction xs) auto

lemma merge_fields_other:
  "key \<notin> fst ` set patch \<Longrightarrow> map_of (merge_json_fields members patch) key = map_of members key"
  by (induction patch arbitrary: members) (auto simp: map_of_filter_key update_conv')

lemma merge_fields_lookup:
  assumes "distinct (map fst patch)"
  shows "map_of (merge_json_fields members patch) key =
     (case map_of patch key of
        None \<Rightarrow> map_of members key
      | Some v \<Rightarrow> if v = JNull then None
                  else Some (merge_json_patch (case map_of members key of Some old \<Rightarrow> old | None \<Rightarrow> JNull) v))"
  using assms
proof (induction patch arbitrary: members)
  case (Cons kv patch)
  obtain k v where kv: "kv = (k, v)" by (cases kv)
  show ?case
  proof (cases "key = k")
    case True
    then have "key \<notin> fst ` set patch" using Cons.prems kv by simp
    then show ?thesis by (simp add: kv True merge_fields_other map_of_filter_key update_conv')
  next
    case False
    then show ?thesis using Cons by (auto simp: kv map_of_filter_key update_conv' split: option.split)
  qed
qed simp

lemma merge_fields_keys:
  "distinct (map fst members) \<Longrightarrow> distinct (map fst (merge_json_fields members patch))"
proof (induction patch arbitrary: members)
  case (Cons kv patch)
  obtain k v where kv: "kv = (k, v)" by (cases kv)
  have "distinct (map fst (filter (\<lambda>(x, _). x \<noteq> k) members))"
    using Cons.prems by (rule distinct_map_filter_id)
  then show ?case
    unfolding kv merge_json_fields.simps by (intro Cons.IH) (simp add: Cons.prems distinct_update)
qed simp

section \<open>Secrets\<close>

lemma preserve_redacted: "preserve_blank_backup_secrets (redact_backup_settings b) b = b"
  by (simp add: preserve_blank_backup_secrets_def redact_backup_settings_def Let_def)

text \<open>C@: a patch of the backup settings changes the members it names and no other: a null removes a member, an object
  is merged into it, any other value takes its place (RFC 7396). Applied to the current settings and decoded, blank
  secrets are filled in with the current ones: a client that sends back what it was given, with the secrets
  blanked out, changes nothing, and no answer holds a secret.\<close>

theorem backup_settings_patched:
  assumes "distinct (map fst patch)" "cd_encode codec current = JObj members"
    and "cd_decode codec (JObj (merge_json_fields members patch)) = Inr incoming"
  shows "effective_settings codec (PatchSettings (JObj patch)) current = Inr (preserve_blank_backup_secrets incoming current)
    \<and> (\<forall>key. map_of (merge_json_fields members patch) key =
         (case map_of patch key of
            None \<Rightarrow> map_of members key
          | Some v \<Rightarrow> if v = JNull then None
                      else Some (merge_json_patch (case map_of members key of Some old \<Rightarrow> old | None \<Rightarrow> JNull) v)))
    \<and> (\<forall>v. (\<forall>p. v \<noteq> JObj p) \<longrightarrow> merge_json_patch (JObj members) v = v)
    \<and> effective_settings codec (ReplaceSettings (redact_backup_settings current)) current = Inr current
    \<and> no_secrets (redact_backup_settings incoming)"
proof -
  have "merge_json_patch (JObj members) v = v" if "\<forall>p. v \<noteq> JObj p" for v
    using that by (cases v) simp_all
  then show ?thesis
    using assms by (simp add: effective_settings_def preserve_redacted merge_fields_lookup)
qed

definition demo_codec :: settings_codec where
  "demo_codec =
     \<lparr>cd_encode = (\<lambda>b. JObj [(''frequency'', JStr (bs_frequency b))]),
      cd_decode = (\<lambda>j. case json_get ''frequency'' j of
         Some (JStr f) \<Rightarrow> Inr (backup_settings_default\<lparr>bs_frequency := f\<rparr>)
       | _ \<Rightarrow> Inl ''no frequency'')\<rparr>"

theorem backup_settings_patched_witness:
  "\<exists>b. effective_settings demo_codec (PatchSettings (JObj [(''frequency'', JStr ''hourly'')])) backup_settings_default = Inr b
     \<and> bs_frequency b = ''hourly''"
proof -
  let ?members = "[(''frequency'', JStr (bs_frequency backup_settings_default))]"
  have m: "merge_json_fields ?members [(''frequency'', JStr ''hourly'')] = [(''frequency'', JStr ''hourly'')]"
    by simp
  have "cd_decode demo_codec (JObj (merge_json_fields ?members [(''frequency'', JStr ''hourly'')])) =
      Inr (backup_settings_default\<lparr>bs_frequency := ''hourly''\<rparr>)"
    unfolding m by (simp add: demo_codec_def)
  from backup_settings_patched [OF _ _ this] show ?thesis
    by (simp add: demo_codec_def preserve_blank_backup_secrets_def Let_def)
qed

end
