(* ===== verification/Spec2Isabelle.thy ===== *)
theory Spec2Isabelle
  imports Vault_Backup Config_Mutation Guard Terminal_Exact Transfer_Inv Api_Limits Api_Stream Proxy Exec_Run Forwards_Run Api_Remote App_System Api_Settings
begin

text \<open>
  HelM is a desktop SSH client written in Rust (\<open>src/src-tauri/src\<close>) with a TypeScript front end. This
  development models the Rust core and proves what makes its parts correct.

  The parts of the program and how they interact. The configuration (\<open>config.rs\<close>) lives in an encrypted
  vault file (\<open>crypto.rs\<close>, \<open>vault.rs\<close>), which is replaced atomically (\<open>atomic\_file.rs\<close>); changes from the
  interface pass a coordinator (\<open>config\_mutation.rs\<close>); backups copy the vault to directories and servers
  (\<open>backup.rs\<close>). The remote runtime (\<open>remote.rs\<close>, \<open>remote/\<close>) keeps SSH connections with their terminals,
  SFTP sessions, transfers, port forwards and telemetry. A local HTTP server (\<open>api\_server/\<close>) gives programs
  access to the runtime: it checks the key and the allowed sessions, filters commands, limits how many run
  at once, and runs long commands as jobs with an event stream.

  Conventions. A Rust \<open>str\<close> is the list of its UTF-8 bytes (\<open>Rust\_Prelude\<close>, \<open>Utf8\<close>, \<open>Str\_Lines\<close>); bytes
  are \<open>8 word\<close>, ports \<open>16 word\<close>; \<open>Result\<close> is a sum with the error left (\<open>App\_Errors\<close>); 64-bit counters are
  naturals with the saturation or wrap-around written out. The Chinese messages are ASCII glosses, one per
  text. Time, random names, the file system's failures and everything a crate outside the repository
  computes are arguments of the definitions, with what the code relies on as hypotheses. Shared state is
  a record; an operation that runs under one lock is a function on it; where several tasks interleave, each
  lock section or atomic access is one step of an inductive relation.

  Which theory models what:
  \<^item> \<open>Config\<close>: \<open>config.rs\<close>, the data of the vault, its migration and validation.
  \<^item> \<open>Crypto\<close>: \<open>crypto.rs\<close>, the container format and encryption (the ciphers are parameters).
  \<^item> \<open>Paths\<close>, \<open>Atomic\_File\<close>: \<open>atomic\_file.rs\<close>, every intermediate state of the file system.
  \<^item> \<open>Config\_Mutation\<close>: \<open>config\_mutation.rs\<close>, tickets, epochs, and the lock.
  \<^item> \<open>Vault\<close>, \<open>Vault\_Inv\<close>, \<open>Vault\_Reach\<close>, \<open>Vault\_Backup\<close>: \<open>vault.rs\<close>, all commands, the invariant of
    the data in memory, and that memory and file agree in every reachable state.
  \<^item> \<open>Backup\<close>: \<open>backup.rs\<close>, targets, names, URLs and XML.
  \<^item> \<open>Jobs\<close>, \<open>Job\_Machine\<close>, \<open>Job\_Registry\<close>, \<open>Job\_Registry\_Inv\<close>: \<open>api\_server/jobs.rs\<close>, one job record as a
    state machine, and the registry of all jobs.
  \<^item> \<open>Guard\<close>: \<open>api\_server/guard.rs\<close>, the filter for dangerous commands.
  \<^item> \<open>Api\_Limits\<close>, \<open>Api\_Log\<close>: \<open>api\_server/mod.rs\<close>, execution limits and the redacted log.
  \<^item> \<open>Api\_Jobs\<close>, \<open>Api\_Stream\<close>: \<open>api\_server/handlers\_jobs.rs\<close> and \<open>auth.rs\<close>.
  \<^item> \<open>Terminal\_Bytes\<close>, \<open>Terminal\_Flow\<close>, \<open>Terminal\_Output\<close>, \<open>Terminal\_Exact\<close>: \<open>remote/terminal\_bytes.rs\<close>,
    \<open>remote/terminal\_stream.rs\<close> and the output path of \<open>remote/runtime\_terminal.rs\<close>.
  \<^item> \<open>Sftp\_Commands\<close>, \<open>Sftp\_Ops\<close>, \<open>Sftp\_Search\<close>: \<open>remote/sftp.rs\<close>, \<open>remote/runtime\_sftp.rs\<close>.
  \<^item> \<open>Transfer\_Copy\<close>, \<open>Transfer\_Safe\<close>, \<open>Transfer\_Run\<close>: \<open>remote/transfer.rs\<close>, the data path of a transfer.
  \<^item> \<open>Transfer\_State\<close>, \<open>Transfer\_Inv\<close>: \<open>remote/runtime\_transfer.rs\<close>, \<open>remote/transfer\_history.rs\<close>, the records.
  \<^item> \<open>Byte\_Strings\<close>, \<open>Proxy\<close>: \<open>remote/proxy.rs\<close>, the SOCKS5 and HTTP CONNECT handshakes.
  \<^item> \<open>Ssh\_Connect\<close>: host keys, algorithms, authentication and the set-up of a connection in \<open>remote/ssh.rs\<close>
    and \<open>remote/connection.rs\<close>.
  \<^item> \<open>Exec\_Output\<close>, \<open>Exec\_Run\<close>: the execution of one command on an SSH channel in \<open>remote/ssh.rs\<close>.
  \<^item> \<open>Forwards\<close>, \<open>Forwards\_Inv\<close>, \<open>Forwards\_Run\<close>: port forwards, their lock sections and the invariant of
    their registry.
  \<^item> \<open>Num\_Parse\<close>, \<open>Api\_Access\<close>, \<open>Api\_Pages\<close>, \<open>Api\_Batch\<close>, \<open>Api\_Upload\<close>, \<open>Api\_Download\<close>, \<open>Api\_Remote\<close>:
    \<open>api\_server/handlers\_remote.rs\<close> with \<open>remote/runtime\_api.rs\<close>, the requests that reach sessions, files and
    commands. A handler is an action on the history of what the server did; what it reads of state that other
    tasks change (keys, allowed sessions, connections, answers of the remote end) is a function of that
    history. The parallel batch takes the order in which its commands end as an argument; when that
    order ends early, the request is still running and there is no reply yet.
  \<^item> \<open>Permits\<close>: semaphores, and the locale of a step system with an invariant, which the flow control, the
    transfers, the execution limits and the port forwards interpret.

  Not modelled: the front end; start-up, windows and the tray; the SSH and SFTP protocols themselves (crates);
  the wrappers that only forward to a modelled operation; the texts of the API documents; waiting times.
\<close>

end
